(* ===== verification/Prelude.thy ===== *)
theory Prelude
  imports
    Complex_Main
    "HOL-Library.Char_ord"
    "HOL-Library.List_Lexorder"
    "HOL-Library.Product_Lexorder"
    "HOL-Library.AList"
    "HOL-Library.Multiset"
    "HOL-Library.Sublist"
begin

text \<open>
  Shared vocabulary of the development: the fragment of Python that the SecureMail sources use
  (strings, dictionaries, stable sorting, \<open>min\<close>/\<open>max\<close> with a key, exceptions as values) and the
  lemmas about it that the component theories rely on.

  A Python \<open>str\<close> is a \<^typ>\<open>string\<close>, a list of code points below 256; \<open>upper\<close>, \<open>lower\<close> and the
  digit tests act on the ASCII range, which is the range of every protocol token, log field and
  identifier the program compares. Python compares strings by code point, which is the
  lexicographic order of \<open>List_Lexorder\<close> over \<open>Char_ord\<close>, and compares tuples lexicographically
  (\<open>Product_Lexorder\<close>). A \<open>dict\<close> is an association list in insertion order: \<^const>\<open>AList.update\<close>
  keeps the position of an existing key and appends a new one, as Python does. \<open>list.sort\<close> and
  \<open>sorted\<close> are stable, and so is \<^const>\<open>sort_key\<close>.
\<close>

named_theorems str_defs \<open>definitions of the Python string operations\<close>
named_theorems py_simps \<open>simplification rules for results, dictionaries and keyed choice\<close>

section \<open>Results\<close>

text \<open>Every exception class the modelled code raises. The message is not modelled.\<close>

datatype py_exn =
    ValidationError \<comment> \<open>pydantic: a field constraint or model validator failed\<close>
  | PolicyEngineError
  | TypeError
  | ValueError
  | KeyError
  | IndexError
  | OverflowError
  | AnalysisJobError
  | JobNotFoundError
  | JobConflictError
  | StorageQuotaError
  | CaptureIntakeError
  | CaptureTooLargeError
  | InvalidCaptureError
  | CaptureWorkflowError
  | ReportError
  | ReportRepositoryError
  | ArtifactNotReadyError
  | ReportTooLargeError
  | InvalidCanonicalReportError
  | CaseReportNotFoundError
  | CaseReportMismatchError
  | ReportCatalogError
  | MlHistoryError
  | MlDependencyError
  | AdvisoryPipelineError
  | AnalyzerError
  | AnalysisError
  | FileNotFoundError
  | OSError
  | CertificateStoreError
  | PolicyPackError
  | ForeignError \<comment> \<open>an exception of code outside the model\<close>

type_synonym 'a result = "py_exn + 'a"

definition bindE :: "'e + 'a \<Rightarrow> ('a \<Rightarrow> 'e + 'b) \<Rightarrow> 'e + 'b" where
  "bindE r f = (case r of Inl e \<Rightarrow> Inl e | Inr a \<Rightarrow> f a)"

fun mapE :: "('a \<Rightarrow> 'e + 'b) \<Rightarrow> 'a list \<Rightarrow> 'e + 'b list" where
  "mapE f [] = Inr []"
| "mapE f (x # xs) = bindE (f x) (\<lambda>y. bindE (mapE f xs) (\<lambda>ys. Inr (y # ys)))"

fun foldE :: "('a \<Rightarrow> 's \<Rightarrow> 's result) \<Rightarrow> 'a list \<Rightarrow> 's \<Rightarrow> 's result" where
  "foldE f [] s = Inr s"
| "foldE f (x # xs) s = bindE (f x s) (foldE f xs)"

definition check_model :: "bool \<Rightarrow> 'a \<Rightarrow> 'a result" where
  \<comment> \<open>constructing a pydantic model whose constraints are the given condition\<close>
  "check_model ok x = (if ok then Inr x else Inl ValidationError)"

text \<open>Optional values as lists of at most one element, and \<open>a if a is not None else b\<close>.\<close>

definition opt_list :: "'a option \<Rightarrow> 'a list" where
  "opt_list x = (case x of None \<Rightarrow> [] | Some a \<Rightarrow> [a])"

definition or_else :: "'a option \<Rightarrow> 'a option \<Rightarrow> 'a option" where
  "or_else a b = (case a of Some x \<Rightarrow> Some x | None \<Rightarrow> b)"

section \<open>Strings\<close>

definition upper_char :: "char \<Rightarrow> char" where
  "upper_char c = (let n = (of_char c :: nat) in if 97 \<le> n \<and> n \<le> 122 then char_of (n - 32) else c)"

definition lower_char :: "char \<Rightarrow> char" where
  "lower_char c = (let n = (of_char c :: nat) in if 65 \<le> n \<and> n \<le> 90 then char_of (n + 32) else c)"

definition py_upper :: "string \<Rightarrow> string" where
  [str_defs]: "py_upper s = map upper_char s"

definition py_lower :: "string \<Rightarrow> string" where
  [str_defs]: "py_lower s = map lower_char s"

definition is_space :: "char \<Rightarrow> bool" where
  \<comment> \<open>\<open>str.isspace\<close> below 256: TAB..CR, FS..US, space, NEL, NBSP\<close>
  "is_space c = (let n = (of_char c :: nat) in
     (9 \<le> n \<and> n \<le> 13) \<or> (28 \<le> n \<and> n \<le> 32) \<or> n = 133 \<or> n = 160)"

definition is_digit :: "char \<Rightarrow> bool" where
  "is_digit c = (let n = (of_char c :: nat) in 48 \<le> n \<and> n \<le> 57)"

definition is_alpha :: "char \<Rightarrow> bool" where
  "is_alpha c = (let n = (of_char c :: nat) in (65 \<le> n \<and> n \<le> 90) \<or> (97 \<le> n \<and> n \<le> 122))"

definition is_lower_hex :: "char \<Rightarrow> bool" where
  "is_lower_hex c = (let n = (of_char c :: nat) in (48 \<le> n \<and> n \<le> 57) \<or> (97 \<le> n \<and> n \<le> 102))"

definition py_strip :: "string \<Rightarrow> string" where
  [str_defs]: "py_strip s = rev (dropWhile is_space (rev (dropWhile is_space s)))"

text \<open>What \<open>int(s)\<close> and \<open>float(s)\<close> strip: unlike \<open>str.strip\<close>, not the separators FS..US.\<close>

definition num_strip :: "string \<Rightarrow> string" where
  "num_strip s =
    (let space = (\<lambda>c. is_space c \<and> \<not> (28 \<le> (of_char c :: nat) \<and> of_char c \<le> (31 :: nat)))
     in rev (dropWhile space (rev (dropWhile space s))))"

definition py_rstrip_char :: "char \<Rightarrow> string \<Rightarrow> string" where
  [str_defs]: "py_rstrip_char c s = rev (dropWhile (\<lambda>d. d = c) (rev s))"

text \<open>\<open>s.split()\<close>: maximal runs of non-space characters.\<close>

fun split_ws_aux :: "string \<Rightarrow> string \<Rightarrow> string list" where
  "split_ws_aux acc [] = (if acc = [] then [] else [rev acc])"
| "split_ws_aux acc (c # cs) =
     (if is_space c then (if acc = [] then split_ws_aux [] cs else rev acc # split_ws_aux [] cs)
      else split_ws_aux (c # acc) cs)"

definition py_split_ws :: "string \<Rightarrow> string list" where
  [str_defs]: "py_split_ws s = split_ws_aux [] s"

text \<open>\<open>s.split(sep)\<close> for a one-character separator; never empty.\<close>

fun split_on_aux :: "char \<Rightarrow> string \<Rightarrow> string \<Rightarrow> string list" where
  "split_on_aux d acc [] = [rev acc]"
| "split_on_aux d acc (c # cs) =
     (if c = d then rev acc # split_on_aux d [] cs else split_on_aux d (c # acc) cs)"

definition py_split :: "char \<Rightarrow> string \<Rightarrow> string list" where
  [str_defs]: "py_split d s = split_on_aux d [] s"

text \<open>\<open>s.split(sep, 1)[0]\<close> and \<open>s.rsplit(sep, 1)[0]\<close>.\<close>

definition before_first :: "char \<Rightarrow> string \<Rightarrow> string" where
  [str_defs]: "before_first d s = takeWhile (\<lambda>c. c \<noteq> d) s"

definition before_last :: "char \<Rightarrow> string \<Rightarrow> string" where
  [str_defs]: "before_last d s =
     (if d \<in> set s then rev (tl (dropWhile (\<lambda>c. c \<noteq> d) (rev s))) else s)"

fun py_join :: "string \<Rightarrow> string list \<Rightarrow> string" where
  "py_join sep [] = []"
| "py_join sep [x] = x"
| "py_join sep (x # y # zs) = x @ sep @ py_join sep (y # zs)"

definition py_startswith :: "string \<Rightarrow> string \<Rightarrow> bool" where
  [str_defs]: "py_startswith s p = (take (length p) s = p)"

definition py_endswith :: "string \<Rightarrow> string \<Rightarrow> bool" where
  [str_defs]: "py_endswith s p = (length p \<le> length s \<and> drop (length s - length p) s = p)"

text \<open>\<open>needle in haystack\<close> on strings.\<close>

fun py_substring :: "string \<Rightarrow> string \<Rightarrow> bool" where
  "py_substring p [] = (p = [])"
| "py_substring p (c # cs) = (py_startswith (c # cs) p \<or> py_substring p cs)"

definition py_remove_char :: "char \<Rightarrow> string \<Rightarrow> string" where
  \<comment> \<open>\<open>s.replace(c, "")\<close>\<close>
  [str_defs]: "py_remove_char c s = filter (\<lambda>d. d \<noteq> c) s"

definition py_replace_char :: "char \<Rightarrow> char \<Rightarrow> string \<Rightarrow> string" where
  [str_defs]: "py_replace_char c d s = map (\<lambda>x. if x = c then d else x) s"

text \<open>\<open>x or default\<close> for an optional string: \<open>None\<close> and the empty string are falsy.\<close>

definition or_str :: "string option \<Rightarrow> string \<Rightarrow> string" where
  [str_defs]: "or_str x d = (case x of None \<Rightarrow> d | Some s \<Rightarrow> if s = [] then d else s)"

definition truthy_str :: "string option \<Rightarrow> bool" where
  [str_defs]: "truthy_str x = (case x of None \<Rightarrow> False | Some s \<Rightarrow> s \<noteq> [])"

text \<open>\<open>s.isdigit()\<close>, which also accepts the superscripts one, two and three, and \<open>int(s)\<close> on such a
  string: \<open>int\<close> rejects superscripts and strings of more than 4300 digits.\<close>

definition py_isdigit :: "string \<Rightarrow> bool" where
  [str_defs]: "py_isdigit s = (s \<noteq> [] \<and> list_all (\<lambda>c. is_digit c \<or> of_char c \<in> {178, 179, 185 :: nat}) s)"

definition digits_to_nat :: "string \<Rightarrow> nat" where
  "digits_to_nat s = foldl (\<lambda>n c. n * 10 + (of_char c - 48)) 0 s"

definition py_int_of_digits :: "string \<Rightarrow> nat result" where
  "py_int_of_digits s =
     (if list_all is_digit s \<and> length s \<le> 4300 then Inr (digits_to_nat s) else Inl ValueError)"

text \<open>\<open>str(n)\<close> for a non-negative and for an arbitrary integer.\<close>

fun nat_digits :: "nat \<Rightarrow> string" where
  "nat_digits n = (if n < 10 then [char_of (48 + n)]
     else nat_digits (n div 10) @ [char_of (48 + n mod 10)])"

definition py_str_int :: "int \<Rightarrow> string" where
  "py_str_int i = (if i < 0 then CHR ''-'' # nat_digits (nat (- i)) else nat_digits (nat i))"

text \<open>\<open>^[0-9a-f]{64}$\<close> (pydantic patterns do not let \<open>$\<close> match before a final newline).\<close>

definition is_sha256_hex :: "string \<Rightarrow> bool" where
  "is_sha256_hex s = (length s = 64 \<and> list_all is_lower_hex s)"

text \<open>\<open>^[A-Za-z0-9][A-Za-z0-9._-]{0,159}$\<close>, matched in full.\<close>

definition is_id_char :: "char \<Rightarrow> bool" where
  "is_id_char c = (is_alpha c \<or> is_digit c \<or> c = CHR ''.'' \<or> c = CHR ''_'' \<or> c = CHR ''-'')"

fun is_identifier :: "string \<Rightarrow> bool" where
  "is_identifier [] = False"
| "is_identifier (c # cs) = ((is_alpha c \<or> is_digit c) \<and> length cs \<le> 159 \<and> list_all is_id_char cs)"

section \<open>Dictionaries and keyed choice\<close>

type_synonym ('k, 'v) dict = "('k \<times> 'v) list"

definition dict_get :: "('k, 'v) dict \<Rightarrow> 'k \<Rightarrow> 'v option" where
  "dict_get d k = map_of d k"

definition dict_setdefault :: "'k \<Rightarrow> 'v \<Rightarrow> ('k, 'v) dict \<Rightarrow> ('k, 'v) dict" where
  "dict_setdefault k v d = (case map_of d k of None \<Rightarrow> d @ [(k, v)] | Some _ \<Rightarrow> d)"

text \<open>\<open>d.setdefault(k, []).append(v)\<close> over a sequence: grouping by a key.\<close>

fun group_step :: "'k \<Rightarrow> 'v \<Rightarrow> ('k, 'v list) dict \<Rightarrow> ('k, 'v list) dict" where
  "group_step k v [] = [(k, [v])]"
| "group_step k v ((k', vs) # d) = (if k' = k then (k', vs @ [v]) # d else (k', vs) # group_step k v d)"

definition group_by :: "('v \<Rightarrow> 'k) \<Rightarrow> 'v list \<Rightarrow> ('k, 'v list) dict" where
  "group_by key xs = fold (\<lambda>x. group_step (key x) x) xs []"

text \<open>The same on a \<open>defaultdict(list)\<close> with a bound on the length of each group:
  \<open>if len(d[k]) < cap: d[k].append(v)\<close>. The subscript creates the key.\<close>

fun group_step_capped :: "nat \<Rightarrow> 'k \<Rightarrow> 'v \<Rightarrow> ('k, 'v list) dict \<Rightarrow> ('k, 'v list) dict" where
  "group_step_capped cap k v [] = [(k, take cap [v])]"
| "group_step_capped cap k v ((k', vs) # d) =
     (if k' = k then (k', if length vs < cap then vs @ [v] else vs) # d
      else (k', vs) # group_step_capped cap k v d)"

text \<open>\<open>{key(x): x for x in xs}\<close>: the last element with a key wins.\<close>

definition dict_of_last :: "('v \<Rightarrow> 'k) \<Rightarrow> 'v list \<Rightarrow> ('k, 'v) dict" where
  "dict_of_last key xs = fold (\<lambda>x. AList.update (key x) x) xs []"

text \<open>\<open>max(xs, key=f)\<close>: the first maximal element (\<open>min\<close> is \<^const>\<open>arg_min_list\<close>, the first
  minimal one). Both are only called on non-empty lists.\<close>

fun arg_max_list :: "('a \<Rightarrow> 'b::linorder) \<Rightarrow> 'a list \<Rightarrow> 'a" where
  "arg_max_list f [x] = x"
| "arg_max_list f (x # y # zs) = (let m = arg_max_list f (y # zs) in if f m \<le> f x then x else m)"

declare nat_digits.simps [simp del]

section \<open>Lemmas: results\<close>

lemma bindE_simps [simp]:
  "bindE (Inl e) f = Inl e"
  "bindE (Inr a) f = f a"
  by (simp_all add: bindE_def)

lemma bindE_eq_Inr [py_simps]: "(bindE r f = Inr b) = (\<exists>a. r = Inr a \<and> f a = Inr b)"
  by (cases r) simp_all

lemma bindE_eq_Inl [py_simps]: "(bindE r f = Inl e) = (r = Inl e \<or> (\<exists>a. r = Inr a \<and> f a = Inl e))"
  by (cases r) simp_all

lemma check_model_eq_Inr [py_simps]: "(check_model ok x = Inr y) = (ok \<and> y = x)"
  by (auto simp: check_model_def)

lemma check_model_eq_Inl [py_simps]: "(check_model ok x = Inl e) = (\<not> ok \<and> e = ValidationError)"
  by (auto simp: check_model_def)

lemma check_model_simps [simp]:
  "check_model True x = Inr x"
  "check_model False x = Inl ValidationError"
  by (simp_all add: check_model_def)

lemma mapE_Inr_iff: "(mapE f xs = Inr ys) = list_all2 (\<lambda>x y. f x = Inr y) xs ys"
  by (induction xs arbitrary: ys) (auto simp: py_simps list_all2_Cons1)

lemma mapE_total:
  assumes "\<And>x. x \<in> set xs \<Longrightarrow> f x = Inr (g x)"
  shows "mapE f xs = Inr (map g xs)"
  using assms by (induction xs) simp_all

lemma mapE_Inl_ex: "mapE f xs = Inl e \<Longrightarrow> \<exists>x \<in> set xs. f x = Inl e"
  by (induction xs) (auto simp: py_simps)

lemma mapE_Inr_set: "mapE f xs = Inr ys \<Longrightarrow> y \<in> set ys \<Longrightarrow> \<exists>x \<in> set xs. f x = Inr y"
  unfolding mapE_Inr_iff by (induction rule: list_all2_induct) auto

lemma mapE_set_iff: "mapE f xs = Inr ys \<Longrightarrow> y \<in> set ys \<longleftrightarrow> (\<exists>x \<in> set xs. f x = Inr y)"
  unfolding mapE_Inr_iff by (induction rule: list_all2_induct) auto

lemma mapE_length: "mapE f xs = Inr ys \<Longrightarrow> length ys = length xs"
  by (auto simp: mapE_Inr_iff list_all2_lengthD)

lemma foldE_invariant:
  assumes "foldE f xs s = Inr t" and "P s"
    and "\<And>x a b. x \<in> set xs \<Longrightarrow> P a \<Longrightarrow> f x a = Inr b \<Longrightarrow> P b"
  shows "P t"
  using assms by (induction xs arbitrary: s) (auto simp: py_simps)

lemma foldE_Inl_ex: "foldE f xs s = Inl e \<Longrightarrow> \<exists>x \<in> set xs. \<exists>a. f x a = Inl e"
  by (induction xs arbitrary: s) (auto simp: py_simps)

lemma mapE_ok:
  assumes "\<And>x. x \<in> set xs \<Longrightarrow> \<exists>y. f x = Inr y"
  shows "\<exists>ys. mapE f xs = Inr ys"
proof (cases "mapE f xs")
  case (Inl e)
  then obtain x where "x \<in> set xs" "f x = Inl e" using mapE_Inl_ex by metis
  then show ?thesis using assms [of x] by simp
qed blast

lemma foldE_ok:
  assumes "\<And>x s. x \<in> set xs \<Longrightarrow> \<exists>t. f x s = Inr t"
  shows "\<exists>t. foldE f xs s = Inr t"
proof (cases "foldE f xs s")
  case (Inl e)
  then obtain x a where "x \<in> set xs" "f x a = Inl e" using foldE_Inl_ex by metis
  then show ?thesis using assms [of x a] by simp
qed blast

lemma opt_list_simps [simp]:
  "opt_list None = []"
  "opt_list (Some a) = [a]"
  by (simp_all add: opt_list_def)

lemma set_opt_list: "x \<in> set (opt_list v) \<longleftrightarrow> v = Some x"
  by (cases v) auto

lemma map_filter_mem: "y \<in> set (List.map_filter f xs) \<longleftrightarrow> (\<exists>x \<in> set xs. f x = Some y)"
  by (induction xs) (auto simp: List.map_filter_def)

lemma map_filter_length: "length (List.map_filter f xs) \<le> length xs"
  by (simp add: List.map_filter_def)

section \<open>Lemmas: strings\<close>

lemma py_startswith_prefix: "py_startswith s p \<longleftrightarrow> prefix p s"
  by (auto simp: py_startswith_def prefix_def) (metis append_take_drop_id)

lemma split_on_aux_append:
  "d \<notin> set x \<Longrightarrow> split_on_aux d acc (x @ d # y) = (rev acc @ x) # split_on_aux d [] y"
  by (induction x arbitrary: acc) auto

lemma split_on_aux_nosep: "d \<notin> set x \<Longrightarrow> split_on_aux d acc x = [rev acc @ x]"
  by (induction x arbitrary: acc) auto

lemma py_split_cons: "d \<notin> set x \<Longrightarrow> py_split d (x @ d # y) = x # py_split d y"
  by (simp add: py_split_def split_on_aux_append)

lemma py_split_single: "d \<notin> set x \<Longrightarrow> py_split d x = [x]"
  by (simp add: py_split_def split_on_aux_nosep)

lemma py_split_cases:
  obtains "d \<notin> set s" "py_split d s = [s]"
  | x y where "s = x @ d # y" "d \<notin> set x" "py_split d s = x # py_split d y"
proof (cases "d \<in> set s")
  case True
  then obtain x y where "s = x @ d # y" "d \<notin> set x" by (meson split_list_first)
  with that(2) py_split_cons show thesis by blast
next
  case False
  with that(1) py_split_single show thesis by blast
qed

lemma py_split_ne [simp]: "py_split d s \<noteq> []"
  by (rule py_split_cases [of d s]) auto

lemma py_join_split: "py_join [d] (py_split d s) = s"
proof (induction "length s" arbitrary: s rule: less_induct)
  case less
  show ?case
  proof (rule py_split_cases [of d s])
    fix x y assume s: "s = x @ d # y" and sp: "py_split d s = x # py_split d y"
    obtain a as where "py_split d y = a # as" by (cases "py_split d y") auto
    with less [of y] s sp show ?thesis by simp
  qed simp
qed

lemma py_split_inj: "py_split d s = py_split d t \<Longrightarrow> s = t"
  by (metis py_join_split)

section \<open>Lemmas: dictionaries\<close>

lemma dict_setdefault_get [py_simps]:
  "map_of (dict_setdefault k v d) k' = (if k' = k \<and> map_of d k = None then Some v else map_of d k')"
  by (auto simp: dict_setdefault_def map_add_def split: option.splits)

lemma group_step_get:
  "map_of (group_step k v d) k' =
     (if k' = k then Some (case map_of d k of None \<Rightarrow> [v] | Some vs \<Rightarrow> vs @ [v]) else map_of d k')"
  by (induction k v d rule: group_step.induct) auto

lemma group_step_keys:
  "map fst (group_step k v d) = (if k \<in> fst ` set d then map fst d else map fst d @ [k])"
  by (induction k v d rule: group_step.induct) auto

lemma group_step_mset:
  "mset (concat (map snd (group_step k v d))) = mset (concat (map snd d)) + {#v#}"
  by (induction k v d rule: group_step.induct) auto

lemma fold_group_distinct:
  "distinct (map fst d) \<Longrightarrow> distinct (map fst (fold (\<lambda>x. group_step (key x) x) xs d))"
  by (induction xs arbitrary: d) (auto simp: group_step_keys image_iff)

lemma fold_group_get:
  "map_of (fold (\<lambda>x. group_step (key x) x) xs d) k =
     (let ys = filter (\<lambda>x. key x = k) xs in
      case map_of d k of None \<Rightarrow> (if ys = [] then None else Some ys) | Some vs \<Rightarrow> Some (vs @ ys))"
  by (induction xs arbitrary: d) (auto simp: group_step_get Let_def split: option.splits)

lemma group_step_capped_get:
  "map_of (group_step_capped cap k v d) k' =
     (if k' = k then Some (case map_of d k of None \<Rightarrow> take cap [v]
        | Some vs \<Rightarrow> if length vs < cap then vs @ [v] else vs) else map_of d k')"
  by (induction cap k v d rule: group_step_capped.induct) auto

lemma fold_group_mset:
  "mset (concat (map snd (fold (\<lambda>x. group_step (key x) x) xs d))) =
     mset (concat (map snd d)) + mset xs"
  by (induction xs arbitrary: d) (auto simp: group_step_mset)

text \<open>A group is exactly the subsequence of the elements with its key; the groups partition the
  input.\<close>

lemma group_by_distinct: "distinct (map fst (group_by key xs))"
  unfolding group_by_def by (rule fold_group_distinct) simp

lemma group_by_get:
  "map_of (group_by key xs) k =
     (let ys = filter (\<lambda>x. key x = k) xs in if ys = [] then None else Some ys)"
  by (simp add: group_by_def fold_group_get)

lemma group_by_partition: "mset (concat (map snd (group_by key xs))) = mset xs"
  by (simp add: group_by_def fold_group_mset)

lemma group_by_member:
  "(k, ys) \<in> set (group_by key xs) \<longleftrightarrow> ys = filter (\<lambda>x. key x = k) xs \<and> ys \<noteq> []"
proof -
  have "(k, ys) \<in> set (group_by key xs) \<longleftrightarrow> map_of (group_by key xs) k = Some ys"
    by (simp add: map_of_eq_Some_iff [OF group_by_distinct])
  then show ?thesis by (auto simp: group_by_get Let_def)
qed

lemma group_by_keys: "set (map fst (group_by key xs)) = key ` set xs"
proof -
  have "k \<in> set (map fst (group_by key xs)) \<longleftrightarrow> k \<in> key ` set xs" for k
    using map_of_eq_None_iff [of "group_by key xs" k]
    by (auto simp: group_by_get Let_def filter_empty_conv split: if_splits)
  then show ?thesis by blast
qed

lemma group_by_values: "map snd (group_by key xs) = map (\<lambda>k. filter (\<lambda>x. key x = k) xs) (map fst (group_by key xs))"
proof (rule nth_equalityI)
  show "length (map snd (group_by key xs)) =
      length (map (\<lambda>k. filter (\<lambda>x. key x = k) xs) (map fst (group_by key xs)))" by simp
next
  fix i assume "i < length (map snd (group_by key xs))"
  then have i: "i < length (group_by key xs)" by simp
  then have "(fst (group_by key xs ! i), snd (group_by key xs ! i)) \<in> set (group_by key xs)"
    by simp
  then have "snd (group_by key xs ! i) = filter (\<lambda>x. key x = fst (group_by key xs ! i)) xs"
    unfolding group_by_member by simp
  with i show "map snd (group_by key xs) ! i =
      map (\<lambda>k. filter (\<lambda>x. key x = k) xs) (map fst (group_by key xs)) ! i" by simp
qed

lemma group_by_keys_perm:
  "set xs = set ys \<Longrightarrow> mset (map fst (group_by key xs)) = mset (map fst (group_by key ys))"
  by (rule set_eq_iff_mset_eq_distinct [THEN iffD1, OF group_by_distinct group_by_distinct])
     (simp only: group_by_keys)

lemma dict_of_last_get:
  "map_of (dict_of_last key xs) k = find (\<lambda>x. key x = k) (rev xs)"
proof -
  have "map_of (fold (\<lambda>x. AList.update (key x) x) xs d) k =
      (case find (\<lambda>x. key x = k) (rev xs) of None \<Rightarrow> map_of d k | Some x \<Rightarrow> Some x)" for d
  proof (induction xs arbitrary: d)
    case Nil
    then show ?case by simp
  next
    case (Cons x xs)
    have "find P (as @ [b]) = (case find P as of None \<Rightarrow> (if P b then Some b else None) | Some y \<Rightarrow> Some y)"
      for P :: "'a \<Rightarrow> bool" and as b
      by (induction as) auto
    then show ?case by (simp add: Cons.IH update_conv' split: option.splits)
  qed
  then show ?thesis by (simp add: dict_of_last_def split: option.splits)
qed

lemma find_Some_mem: "find P xs = Some x \<Longrightarrow> x \<in> set xs \<and> P x"
  by (induction xs) (auto split: if_splits)

lemma dict_of_last_mem: "map_of (dict_of_last key xs) k = Some x \<Longrightarrow> x \<in> set xs \<and> key x = k"
  using find_Some_mem [of "\<lambda>x. key x = k" "rev xs" x] by (simp add: dict_of_last_get)

lemma snoc_split_ex:
  "(\<exists>pre e post. xs @ [x] = pre @ e # post \<and> P pre e) \<longleftrightarrow>
     (\<exists>pre e post. xs = pre @ e # post \<and> P pre e) \<or> P xs x"
proof
  assume "\<exists>pre e post. xs @ [x] = pre @ e # post \<and> P pre e"
  then obtain pre e post where eq: "xs @ [x] = pre @ e # post" and P: "P pre e" by blast
  from eq P show "(\<exists>pre e post. xs = pre @ e # post \<and> P pre e) \<or> P xs x"
    by (cases post rule: rev_cases) (auto simp flip: append_Cons append_assoc)
next
  assume "(\<exists>pre e post. xs = pre @ e # post \<and> P pre e) \<or> P xs x"
  then show "\<exists>pre e post. xs @ [x] = pre @ e # post \<and> P pre e" by fastforce
qed

section \<open>Lemmas: keyed choice and sorting\<close>

lemma arg_max_list_in: "xs \<noteq> [] \<Longrightarrow> arg_max_list f xs \<in> set xs"
  by (induction f xs rule: arg_max_list.induct) (auto simp: Let_def)

lemma arg_max_list_ge: "x \<in> set xs \<Longrightarrow> f x \<le> f (arg_max_list f xs)"
  by (induction f xs rule: arg_max_list.induct) (auto simp: Let_def)

lemma arg_min_list_le: "x \<in> set xs \<Longrightarrow> f (arg_min_list f xs) \<le> f x"
  by (induction f xs rule: arg_min_list.induct) (auto simp: Let_def)

lemma sort_key_mset_cong:
  assumes "mset xs = mset ys" and "inj_on f (set xs)"
  shows "sort_key f xs = sort_key f ys"
proof (rule sort_key_inj_key_eq [OF _ assms(2)])
  show "mset xs = mset (sort_key f ys)" using assms(1) by simp
  show "sorted (map f (sort_key f ys))" by simp
qed

text \<open>Choosing the weakest or the strongest grade of a list: the choice is a member, is extremal,
  and depends only on the set of grades, because ranks tell grades apart.\<close>

locale ranked =
  fixes rank :: "'s \<Rightarrow> nat"
  assumes rank_inj: "rank a = rank b \<Longrightarrow> a = b"
begin

lemma weakest_mem:
  "xs \<noteq> [] \<Longrightarrow> f (arg_min_list (\<lambda>x. rank (f x)) xs) \<in> f ` set xs"
  using arg_min_list_in by blast

lemma weakest_le:
  "x \<in> set xs \<Longrightarrow> rank (f (arg_min_list (\<lambda>x. rank (f x)) xs)) \<le> rank (f x)"
  using arg_min_list_le [of x xs "\<lambda>x. rank (f x)"] by simp

lemma strongest_mem:
  "xs \<noteq> [] \<Longrightarrow> f (arg_max_list (\<lambda>x. rank (f x)) xs) \<in> f ` set xs"
  using arg_max_list_in by blast

lemma strongest_ge:
  "x \<in> set xs \<Longrightarrow> rank (f x) \<le> rank (f (arg_max_list (\<lambda>x. rank (f x)) xs))"
  using arg_max_list_ge [of x xs "\<lambda>x. rank (f x)"] by simp

lemma weakest_unique:
  assumes "xs \<noteq> []" and "g \<in> f ` set xs" and "\<And>x. x \<in> set xs \<Longrightarrow> rank g \<le> rank (f x)"
  shows "f (arg_min_list (\<lambda>x. rank (f x)) xs) = g"
proof -
  obtain x where x: "x \<in> set xs" "g = f x" using assms(2) by blast
  have "rank (f (arg_min_list (\<lambda>x. rank (f x)) xs)) \<le> rank g"
    using weakest_le [OF x(1), of f] x(2) by simp
  moreover have "rank g \<le> rank (f (arg_min_list (\<lambda>x. rank (f x)) xs))"
    using assms(3) arg_min_list_in [OF assms(1)] by blast
  ultimately show ?thesis using rank_inj by force
qed

lemma weakest_cong:
  assumes "f ` set xs = g ` set ys" and "xs \<noteq> []"
  shows "f (arg_min_list (\<lambda>x. rank (f x)) xs) = g (arg_min_list (\<lambda>y. rank (g y)) ys)"
proof (rule weakest_unique [OF assms(2)])
  have ys: "ys \<noteq> []" using assms by auto
  show "g (arg_min_list (\<lambda>y. rank (g y)) ys) \<in> f ` set xs"
    using weakest_mem [OF ys, of g] assms(1) by simp
next
  fix x assume "x \<in> set xs"
  then obtain y where "y \<in> set ys" "f x = g y" using assms(1) by (metis imageE imageI)
  then show "rank (g (arg_min_list (\<lambda>y. rank (g y)) ys)) \<le> rank (f x)"
    using weakest_le [of y ys g] by simp
qed

lemma strongest_cong:
  assumes "f ` set xs = g ` set ys" and "xs \<noteq> []"
  shows "f (arg_max_list (\<lambda>x. rank (f x)) xs) = g (arg_max_list (\<lambda>y. rank (g y)) ys)"
proof -
  have ys: "ys \<noteq> []" using assms by auto
  have "rank (f (arg_max_list (\<lambda>x. rank (f x)) xs)) \<le> rank (g (arg_max_list (\<lambda>y. rank (g y)) ys))"
    using strongest_mem [OF assms(2), of f] strongest_ge [of _ ys g] unfolding assms(1) by force
  moreover have "rank (g (arg_max_list (\<lambda>y. rank (g y)) ys)) \<le> rank (f (arg_max_list (\<lambda>x. rank (f x)) xs))"
    using strongest_mem [OF ys, of g] strongest_ge [of _ xs f] unfolding assms(1) [symmetric] by force
  ultimately show ?thesis using rank_inj by force
qed

end

lemma mapE_check: "mapE (\<lambda>x. check_model (P (f x)) (f x)) xs = Inr ys \<longleftrightarrow> ys = map f xs \<and> list_all P ys"
proof (induction xs arbitrary: ys)
  case (Cons x xs)
  have "mapE (\<lambda>x. check_model (P (f x)) (f x)) (x # xs) = Inr ys \<longleftrightarrow>
      P (f x) \<and> (\<exists>zs. mapE (\<lambda>x. check_model (P (f x)) (f x)) xs = Inr zs \<and> ys = f x # zs)"
    by (auto simp: py_simps)
  then show ?case unfolding Cons by auto
qed auto

lemma nat_digits_length: "n < 10 ^ Suc k \<Longrightarrow> length (nat_digits n) \<le> Suc k"
proof (induction k arbitrary: n)
  case (Suc k)
  have "n div 10 < 10 ^ Suc k" using Suc.prems by (simp add: less_mult_imp_div_less)
  from Suc.IH [OF this] show ?case by (subst nat_digits.simps) simp
qed (simp add: nat_digits.simps)

end
