(* ===== verification/Hashing.thy ===== *)
theory Hashing
  imports Prelude "HOL-Library.Word"
begin

text \<open>
  SHA-256 and SHA-1 as \<open>hashlib\<close> computes them, over byte strings (a \<^typ>\<open>char\<close> is a byte). Every
  content-derived identifier of the program (findings, checks, clusters, captures, policy packs) is
  the lowercase hexadecimal digest defined here. The lemmas give what the models' field constraints
  ask for: 64 lowercase hexadecimal characters.
\<close>

unbundle bit_operations_syntax

type_synonym u32 = "32 word"

definition rotr :: "nat \<Rightarrow> u32 \<Rightarrow> u32" where
  "rotr n x = drop_bit n x OR push_bit (32 - n) x"

definition sha_k :: "u32 list" where
  "sha_k = [
    1116352408, 1899447441, 3049323471, 3921009573, 961987163, 1508970993, 2453635748, 2870763221,
    3624381080, 310598401, 607225278, 1426881987, 1925078388, 2162078206, 2614888103, 3248222580,
    3835390401, 4022224774, 264347078, 604807628, 770255983, 1249150122, 1555081692, 1996064986,
    2554220882, 2821834349, 2952996808, 3210313671, 3336571891, 3584528711, 113926993, 338241895,
    666307205, 773529912, 1294757372, 1396182291, 1695183700, 1986661051, 2177026350, 2456956037,
    2730485921, 2820302411, 3259730800, 3345764771, 3516065817, 3600352804, 4094571909, 275423344,
    430227734, 506948616, 659060556, 883997877, 958139571, 1322822218, 1537002063, 1747873779,
    1955562222, 2024104815, 2227730452, 2361852424, 2428436474, 2756734187, 3204031479, 3329325298]"

type_synonym sha_state = "u32 \<times> u32 \<times> u32 \<times> u32 \<times> u32 \<times> u32 \<times> u32 \<times> u32"

definition sha_init :: sha_state where
  "sha_init = (1779033703, 3144134277, 1013904242, 2773480762, 1359893119, 2600822924, 528734635, 1541459225)"

text \<open>The message schedule, newest word first: word \<open>t\<close> from words \<open>t-2\<close>, \<open>t-7\<close>, \<open>t-15\<close>, \<open>t-16\<close>.\<close>

fun sha_extend :: "nat \<Rightarrow> u32 list \<Rightarrow> u32 list" where
  "sha_extend 0 w = w"
| "sha_extend (Suc n) w = sha_extend n
     (((rotr 17 (w ! 1) XOR rotr 19 (w ! 1) XOR drop_bit 10 (w ! 1)) + w ! 6
       + (rotr 7 (w ! 14) XOR rotr 18 (w ! 14) XOR drop_bit 3 (w ! 14)) + w ! 15) # w)"

fun sha_round :: "u32 \<times> u32 \<Rightarrow> sha_state \<Rightarrow> sha_state" where
  "sha_round (k, w) (a, b, c, d, e, f, g, h) =
     (let t1 = h + (rotr 6 e XOR rotr 11 e XOR rotr 25 e) + ((e AND f) XOR (NOT e AND g)) + k + w;
          t2 = (rotr 2 a XOR rotr 13 a XOR rotr 22 a) + ((a AND b) XOR (a AND c) XOR (b AND c))
      in (t1 + t2, a, b, c, d + t1, e, f, g))"

fun sha_add :: "sha_state \<Rightarrow> sha_state \<Rightarrow> sha_state" where
  "sha_add (a, b, c, d, e, f, g, h) (a', b', c', d', e', f', g', h') =
     (a + a', b + b', c + c', d + d', e + e', f + f', g + g', h + h')"

definition sha_block :: "u32 list \<Rightarrow> sha_state \<Rightarrow> sha_state" where
  "sha_block ws s = sha_add s (fold sha_round (zip sha_k (rev (sha_extend 48 (rev ws)))) s)"

definition be_bytes8 :: "int \<Rightarrow> int list" where
  "be_bytes8 x = map (\<lambda>k. x div k mod 256)
     [72057594037927936, 281474976710656, 1099511627776, 4294967296, 16777216, 65536, 256, 1]"

definition sha_pad :: "int list \<Rightarrow> int list" where
  "sha_pad m = m @ [128] @ replicate (nat ((55 - int (length m)) mod 64)) 0 @ be_bytes8 (8 * int (length m))"

fun sha_words :: "int list \<Rightarrow> u32 list" where
  "sha_words (a # b # c # d # rest) =
     word_of_int (((a * 256 + b) * 256 + c) * 256 + d) # sha_words rest"
| "sha_words _ = []"

fun sha_blocks :: "nat \<Rightarrow> u32 list \<Rightarrow> sha_state \<Rightarrow> sha_state" where
  "sha_blocks 0 ws s = s"
| "sha_blocks (Suc n) ws s = sha_blocks n (drop 16 ws) (sha_block (take 16 ws) s)"

definition hex_digit :: "nat \<Rightarrow> char" where
  "hex_digit n = char_of (if n < 10 then 48 + n else 87 + n)"

definition hex_word :: "u32 \<Rightarrow> string" where
  "hex_word w = map (\<lambda>k. hex_digit (nat (uint w div k mod 16)))
     [268435456, 16777216, 1048576, 65536, 4096, 256, 16, 1]"

fun hex_state :: "sha_state \<Rightarrow> string" where
  "hex_state (a, b, c, d, e, f, g, h) = concat (map hex_word [a, b, c, d, e, f, g, h])"

text \<open>\<open>s.encode("utf-8")\<close> on code points below 256.\<close>

definition utf8_bytes :: "string \<Rightarrow> int list" where
  "utf8_bytes s = concat (map (\<lambda>c. let n = (of_char c :: int) in
     if n < 128 then [n] else [192 + n div 64, 128 + n mod 64]) s)"

type_synonym bytes = "int list"

definition sha256_bytes :: "bytes \<Rightarrow> string" where
  \<comment> \<open>\<open>hashlib.sha256(b).hexdigest()\<close>\<close>
  "sha256_bytes b = (let ws = sha_words (sha_pad b)
     in hex_state (sha_blocks (length ws div 16) ws sha_init))"

definition sha256_hex :: "string \<Rightarrow> string" where
  \<comment> \<open>\<open>hashlib.sha256(s.encode("utf-8")).hexdigest()\<close>\<close>
  "sha256_hex s = sha256_bytes (utf8_bytes s)"

text \<open>SHA-1, as \<open>hashlib.sha1\<close> computes it: the certificate normalizer compares Zeek's SHA-1 fingerprints.\<close>

type_synonym sha1_state = "u32 \<times> u32 \<times> u32 \<times> u32 \<times> u32"

definition rotl :: "nat \<Rightarrow> u32 \<Rightarrow> u32" where
  "rotl n x = push_bit n x OR drop_bit (32 - n) x"

definition sha1_init :: sha1_state where
  "sha1_init = (1732584193, 4023233417, 2562383102, 271733878, 3285377520)"

fun sha1_extend :: "nat \<Rightarrow> u32 list \<Rightarrow> u32 list" where
  "sha1_extend 0 w = w"
| "sha1_extend (Suc n) w = sha1_extend n (rotl 1 (w ! 2 XOR w ! 7 XOR w ! 13 XOR w ! 15) # w)"

fun sha1_round :: "nat \<times> u32 \<Rightarrow> sha1_state \<Rightarrow> sha1_state" where
  "sha1_round (t, w) (a, b, c, d, e) =
     (let (f, k) = (if t < 20 then ((b AND c) OR (NOT b AND d), 1518500249)
            else if t < 40 then (b XOR c XOR d, 1859775393)
            else if t < 60 then ((b AND c) OR (b AND d) OR (c AND d), 2400959708)
            else (b XOR c XOR d, 3395469782))
      in (rotl 5 a + f + e + k + w, a, rotl 30 b, c, d))"

fun sha1_add :: "sha1_state \<Rightarrow> sha1_state \<Rightarrow> sha1_state" where
  "sha1_add (a, b, c, d, e) (a', b', c', d', e') = (a + a', b + b', c + c', d + d', e + e')"

definition sha1_block :: "u32 list \<Rightarrow> sha1_state \<Rightarrow> sha1_state" where
  "sha1_block ws s = sha1_add s (fold sha1_round (enumerate 0 (rev (sha1_extend 64 (rev ws)))) s)"

fun sha1_blocks :: "nat \<Rightarrow> u32 list \<Rightarrow> sha1_state \<Rightarrow> sha1_state" where
  "sha1_blocks 0 ws s = s"
| "sha1_blocks (Suc n) ws s = sha1_blocks n (drop 16 ws) (sha1_block (take 16 ws) s)"

definition sha1_bytes :: "bytes \<Rightarrow> string" where
  \<comment> \<open>\<open>hashlib.sha1(b).hexdigest()\<close>\<close>
  "sha1_bytes b =
    (let ws = sha_words (sha_pad b);
         (v, w, x, y, z) = sha1_blocks (length ws div 16) ws sha1_init
     in concat (map hex_word [v, w, x, y, z]))"

lemma is_lower_hex_hex_digit: "n < 16 \<Longrightarrow> is_lower_hex (hex_digit n)"
  by (auto simp: is_lower_hex_def hex_digit_def Let_def)

lemma hex_word_length [simp]: "length (hex_word w) = 8"
  by (simp add: hex_word_def)

lemma hex_word_digits: "list_all is_lower_hex (hex_word w)"
  by (auto simp: hex_word_def list_all_iff intro!: is_lower_hex_hex_digit)

text \<open>Every digest satisfies the \<open>^[0-9a-f]{64}$\<close> constraint of the models that carry it.\<close>

lemma sha256_bytes_wf [simp]: "is_sha256_hex (sha256_bytes b)"
proof -
  have "is_sha256_hex (hex_state st)" for st
    by (cases st rule: hex_state.cases) (simp add: is_sha256_hex_def hex_word_digits)
  then show ?thesis by (simp add: sha256_bytes_def Let_def)
qed

lemma sha256_hex_wf [simp]: "is_sha256_hex (sha256_hex s)"
  by (simp add: sha256_hex_def)

end
