(* ===== verification/Evidence.thy ===== *)
theory Evidence
  imports Prelude
begin

text \<open>
  The canonical evidence vocabulary of \<open>domain/evidence\<close>: evidence states and run identity
  (\<open>run.py\<close>), flows (\<open>flow.py\<close>), email sessions (\<open>session.py\<close>), TLS handshakes (\<open>handshake.py\<close>)
  and certificates (\<open>certificate.py\<close>). One datatype per enumeration, with the enumeration's
  members as constructors (prefixed by an abbreviation of the class, since Python scopes them by
  class), the serialized \<open>value\<close> of each member, and one record per model class. Field names carry a
  class prefix for the same reason.

  Shown here: the serialized value determines the evidence state (\<open>es_of_value_value\<close>), the rank
  table of evidence states is injective (so that the weakest state of a list is well defined:
  interpretation \<open>es\<close> of \<open>ranked\<close>), and converting a timestamp to UTC is idempotent and keeps the
  instant.
\<close>

section \<open>Time\<close>

text \<open>
  A \<open>datetime\<close> is a wall clock in microseconds since 1970-01-01 together with the offset of its
  time zone from UTC in microseconds; \<open>None\<close> is a naive \<open>datetime\<close>. A \<open>date\<close> is a day number.
  Python's year range (1 to 9999) is not modelled.
\<close>

record py_datetime =
  dt_wall :: int
  dt_offset :: "int option"

type_synonym py_date = int

definition as_utc :: "py_datetime \<Rightarrow> py_datetime" where
  "as_utc v = (case dt_offset v of
     None \<Rightarrow> v\<lparr>dt_offset := Some 0\<rparr>
   | Some off \<Rightarrow> \<lparr>dt_wall = dt_wall v - off, dt_offset = Some 0\<rparr>)"

definition dt_date :: "py_datetime \<Rightarrow> py_date" where
  "dt_date v = dt_wall v div 86400000000"

text \<open>The instant of a \<open>datetime\<close>, a naive one read as UTC.\<close>

definition dt_instant :: "py_datetime \<Rightarrow> int" where
  "dt_instant v = dt_wall v - (case dt_offset v of None \<Rightarrow> 0 | Some off \<Rightarrow> off)"

section \<open>Run identity (run.py)\<close>

datatype evidence_state =
  ES_OBSERVED | ES_VERIFIED | ES_INFERRED | ES_INCOMPLETE | ES_CONFLICTING | ES_NOT_OBSERVABLE
  | ES_INDETERMINATE

fun es_value :: "evidence_state \<Rightarrow> string" where
  "es_value ES_OBSERVED = ''observed''"
| "es_value ES_VERIFIED = ''verified''"
| "es_value ES_INFERRED = ''inferred''"
| "es_value ES_INCOMPLETE = ''incomplete''"
| "es_value ES_CONFLICTING = ''conflicting''"
| "es_value ES_NOT_OBSERVABLE = ''not_observable''"
| "es_value ES_INDETERMINATE = ''indeterminate''"

definition all_es :: "evidence_state list" where
  "all_es = [ES_OBSERVED, ES_VERIFIED, ES_INFERRED, ES_INCOMPLETE, ES_CONFLICTING, ES_NOT_OBSERVABLE,
     ES_INDETERMINATE]"

text \<open>\<open>EvidenceState(raw)\<close>; \<open>None\<close> is the \<open>ValueError\<close>.\<close>

definition es_of_value :: "string \<Rightarrow> evidence_state option" where
  "es_of_value raw = find (\<lambda>s. es_value s = raw) all_es"

text \<open>The \<open>_STATE_RANK\<close> table, identical in \<open>dedup.py\<close> and \<open>rule_engine.py\<close>.\<close>

fun state_rank :: "evidence_state \<Rightarrow> nat" where
  "state_rank ES_CONFLICTING = 0"
| "state_rank ES_INCOMPLETE = 1"
| "state_rank ES_INDETERMINATE = 2"
| "state_rank ES_NOT_OBSERVABLE = 3"
| "state_rank ES_INFERRED = 4"
| "state_rank ES_OBSERVED = 5"
| "state_rank ES_VERIFIED = 6"

datatype policy_profile = PP_IETF_CURRENT | PP_NIST_FEDERAL | PP_HISTORICAL_AT_CAPTURE

fun pp_value :: "policy_profile \<Rightarrow> string" where
  "pp_value PP_IETF_CURRENT = ''ietf_current''"
| "pp_value PP_NIST_FEDERAL = ''nist_federal''"
| "pp_value PP_HISTORICAL_AT_CAPTURE = ''historical_at_capture''"

definition pp_of_value :: "string \<Rightarrow> policy_profile option" where
  "pp_of_value raw = find (\<lambda>p. pp_value p = raw) [PP_IETF_CURRENT, PP_NIST_FEDERAL, PP_HISTORICAL_AT_CAPTURE]"

text \<open>The normalization schema version is the literal \<open>v1\<close> and has no field here.\<close>

record analysis_run =
  ar_capture_sha256 :: string
  ar_analyzer_bundle_digest :: string
  ar_configuration_digest :: string
  ar_analysis_time :: py_datetime
  ar_policy_profile :: policy_profile
  ar_policy_pack_version :: string
  ar_trust_store_digest :: "string option"

record capture_preflight =
  cp_packet_count :: nat
  cp_file_time_precision :: string
  cp_packet_size_limit :: "int option"
  cp_packet_size_limit_min_inferred :: "int option"
  cp_packet_size_limit_max_inferred :: "int option"
  cp_truncated_packets_present :: bool
  cp_original_packet_bytes :: "int option"
  cp_capture_duration_seconds :: "rat option"
  cp_capture_start_time :: "py_datetime option"

section \<open>Flows (flow.py)\<close>

datatype reconstruction_quality = RQ_COMPLETE | RQ_INCOMPLETE | RQ_CONFLICTING

datatype reconstruction_reason =
  RR_MISSING_SYN | RR_MISSING_FIN | RR_MIDSTREAM_START | RR_SNAPLEN_TRUNCATION
  | RR_OVERLAPPING_RETRANSMISSION_CONFLICT | RR_SEGMENT_GAP | RR_CAPTURE_LOSS

datatype observed_condition = OC_OUT_OF_ORDER_SEGMENTS | OC_DUPLICATE_SEGMENTS

datatype stream_direction = SD_ORIG | SD_RESP

fun rq_value :: "reconstruction_quality \<Rightarrow> string" where
  "rq_value RQ_COMPLETE = ''complete''"
| "rq_value RQ_INCOMPLETE = ''incomplete''"
| "rq_value RQ_CONFLICTING = ''conflicting''"

fun rr_value :: "reconstruction_reason \<Rightarrow> string" where
  "rr_value RR_MISSING_SYN = ''missing_syn''"
| "rr_value RR_MISSING_FIN = ''missing_fin''"
| "rr_value RR_MIDSTREAM_START = ''midstream_start''"
| "rr_value RR_SNAPLEN_TRUNCATION = ''snaplen_truncation''"
| "rr_value RR_OVERLAPPING_RETRANSMISSION_CONFLICT = ''overlapping_retransmission_conflict''"
| "rr_value RR_SEGMENT_GAP = ''segment_gap''"
| "rr_value RR_CAPTURE_LOSS = ''capture_loss''"

fun oc_value :: "observed_condition \<Rightarrow> string" where
  "oc_value OC_OUT_OF_ORDER_SEGMENTS = ''out_of_order_segments''"
| "oc_value OC_DUPLICATE_SEGMENTS = ''duplicate_segments''"

fun sd_value :: "stream_direction \<Rightarrow> string" where
  "sd_value SD_ORIG = ''orig''"
| "sd_value SD_RESP = ''resp''"

record byte_range =
  br_start :: nat
  br_end :: nat
  br_direction :: stream_direction
  br_exact :: bool

record flow_endpoint =
  fe_host :: string
  fe_port :: nat

record reconstruction_verdict =
  rv_quality :: reconstruction_quality
  rv_reason_code :: "reconstruction_reason option"
  rv_observed_conditions :: "observed_condition list"
  rv_gap_bytes :: nat
  rv_gap_bytes_exact :: bool
  rv_conflicting_byte_ranges :: "byte_range list"
  rv_evidence_state :: evidence_state

record flow =
  fl_uid :: string
  fl_orig :: flow_endpoint
  fl_resp :: flow_endpoint
  fl_proto :: string
  fl_history :: string
  fl_conn_state :: string
  fl_missed_bytes :: nat
  fl_orig_bytes :: nat
  fl_resp_bytes :: nat
  fl_reconstruction_quality :: reconstruction_quality
  fl_reason_code :: "reconstruction_reason option"
  fl_observed_conditions :: "observed_condition list"
  fl_gap_bytes :: nat
  fl_gap_bytes_exact :: bool
  fl_conflicting_byte_ranges :: "byte_range list"
  fl_evidence_state :: evidence_state

section \<open>Sessions (session.py)\<close>

datatype mail_protocol = MP_SMTP | MP_IMAP | MP_POP3

datatype port_hint = PH_SMTP | PH_IMAP | PH_POP3 | PH_NONE

datatype payload_evidence = PE_SMTP | PE_IMAP | PE_POP3 | PE_INDETERMINATE | PE_NONE

datatype session_event_kind =
  SK_REQUEST | SK_REPLY | SK_CAPABILITY | SK_STARTTLS | SK_CONFIRMATION | SK_AMBIGUOUS_BANNER
  | SK_UNEXPECTED

datatype event_source = SRC_ZEEK | SRC_TSHARK | SRC_SSL

datatype upgrade_state =
  US_ADVERTISED | US_REQUESTED | US_ACCEPTED | US_TLS_ESTABLISHED | US_PLAINTEXT_FALLBACK
  | US_VIOLATION

fun mp_value :: "mail_protocol \<Rightarrow> string" where
  "mp_value MP_SMTP = ''smtp''"
| "mp_value MP_IMAP = ''imap''"
| "mp_value MP_POP3 = ''pop3''"

fun ph_value :: "port_hint \<Rightarrow> string" where
  "ph_value PH_SMTP = ''smtp''"
| "ph_value PH_IMAP = ''imap''"
| "ph_value PH_POP3 = ''pop3''"
| "ph_value PH_NONE = ''none''"

fun pe_value :: "payload_evidence \<Rightarrow> string" where
  "pe_value PE_SMTP = ''smtp''"
| "pe_value PE_IMAP = ''imap''"
| "pe_value PE_POP3 = ''pop3''"
| "pe_value PE_INDETERMINATE = ''indeterminate''"
| "pe_value PE_NONE = ''none''"

fun sk_value :: "session_event_kind \<Rightarrow> string" where
  "sk_value SK_REQUEST = ''request''"
| "sk_value SK_REPLY = ''reply''"
| "sk_value SK_CAPABILITY = ''capability''"
| "sk_value SK_STARTTLS = ''starttls''"
| "sk_value SK_CONFIRMATION = ''confirmation''"
| "sk_value SK_AMBIGUOUS_BANNER = ''ambiguous_banner''"
| "sk_value SK_UNEXPECTED = ''unexpected''"

fun src_value :: "event_source \<Rightarrow> string" where
  "src_value SRC_ZEEK = ''zeek''"
| "src_value SRC_TSHARK = ''tshark''"
| "src_value SRC_SSL = ''ssl''"

fun us_value :: "upgrade_state \<Rightarrow> string" where
  "us_value US_ADVERTISED = ''advertised''"
| "us_value US_REQUESTED = ''requested''"
| "us_value US_ACCEPTED = ''accepted''"
| "us_value US_TLS_ESTABLISHED = ''tls_established''"
| "us_value US_PLAINTEXT_FALLBACK = ''plaintext_fallback''"
| "us_value US_VIOLATION = ''violation''"

record protocol_event =
  pe_direction :: stream_direction
  pe_kind :: session_event_kind
  pe_command :: "string option"
  pe_argument :: "string option"
  pe_reply_code :: "nat option"
  pe_text :: "string option"
  pe_frame_number :: "nat option"
  pe_source :: "event_source option"
  pe_tag :: "string option"

record explicit_upgrade =
  eu_state :: "upgrade_state option"
  eu_evidence_state :: evidence_state
  eu_evidence_frames :: "nat list"
  eu_downgrade_consistent :: bool

record implicit_tls =
  it_correlated_protocol :: "mail_protocol option"
  it_evidence_state :: evidence_state
  it_source :: "string option"
  it_evidence_frames :: "nat list"

record email_session =
  es_uid :: string
  es_protocol :: "mail_protocol option"
  es_port_hint :: port_hint
  es_payload_evidence :: payload_evidence
  es_evidence_state :: evidence_state
  es_identification_confidence :: "rat option"
  es_corroboration :: string
  es_events :: "protocol_event list"
  es_explicit_upgrade :: "explicit_upgrade option"
  es_implicit_tls :: "implicit_tls option"

section \<open>Handshakes (handshake.py)\<close>

datatype handshake_visibility = HV_FULL | HV_PARTIAL | HV_NOT_OBSERVABLE

datatype version_source = VS_SUPPORTED_VERSIONS | VS_LEGACY_RECORD

datatype handshake_message_kind =
  HM_DIRECTION_FLIP | HM_HELLO_REQUEST | HM_CLIENT_HELLO | HM_SERVER_HELLO | HM_HELLO_RETRY_REQUEST
  | HM_HELLO_VERIFY_REQUEST | HM_NEW_SESSION_TICKET | HM_END_OF_EARLY_DATA | HM_ENCRYPTED_EXTENSIONS
  | HM_CERTIFICATE | HM_SERVER_KEY_EXCHANGE | HM_CERTIFICATE_REQUEST | HM_SERVER_HELLO_DONE
  | HM_CERTIFICATE_VERIFY | HM_CLIENT_KEY_EXCHANGE | HM_FINISHED | HM_CERTIFICATE_URL
  | HM_CERTIFICATE_STATUS | HM_SUPPLEMENTAL_DATA | HM_KEY_UPDATE | HM_MESSAGE_HASH
  | HM_CHANGE_CIPHER_SPEC | HM_ALERT | HM_HEARTBEAT | HM_UNKNOWN

fun hv_value :: "handshake_visibility \<Rightarrow> string" where
  "hv_value HV_FULL = ''full''"
| "hv_value HV_PARTIAL = ''partial''"
| "hv_value HV_NOT_OBSERVABLE = ''not_observable''"

fun vs_value :: "version_source \<Rightarrow> string" where
  "vs_value VS_SUPPORTED_VERSIONS = ''supported_versions''"
| "vs_value VS_LEGACY_RECORD = ''legacy_record''"

fun hm_value :: "handshake_message_kind \<Rightarrow> string" where
  "hm_value HM_DIRECTION_FLIP = ''direction_flip''"
| "hm_value HM_HELLO_REQUEST = ''hello_request''"
| "hm_value HM_CLIENT_HELLO = ''client_hello''"
| "hm_value HM_SERVER_HELLO = ''server_hello''"
| "hm_value HM_HELLO_RETRY_REQUEST = ''hello_retry_request''"
| "hm_value HM_HELLO_VERIFY_REQUEST = ''hello_verify_request''"
| "hm_value HM_NEW_SESSION_TICKET = ''new_session_ticket''"
| "hm_value HM_END_OF_EARLY_DATA = ''end_of_early_data''"
| "hm_value HM_ENCRYPTED_EXTENSIONS = ''encrypted_extensions''"
| "hm_value HM_CERTIFICATE = ''certificate''"
| "hm_value HM_SERVER_KEY_EXCHANGE = ''server_key_exchange''"
| "hm_value HM_CERTIFICATE_REQUEST = ''certificate_request''"
| "hm_value HM_SERVER_HELLO_DONE = ''server_hello_done''"
| "hm_value HM_CERTIFICATE_VERIFY = ''certificate_verify''"
| "hm_value HM_CLIENT_KEY_EXCHANGE = ''client_key_exchange''"
| "hm_value HM_FINISHED = ''finished''"
| "hm_value HM_CERTIFICATE_URL = ''certificate_url''"
| "hm_value HM_CERTIFICATE_STATUS = ''certificate_status''"
| "hm_value HM_SUPPLEMENTAL_DATA = ''supplemental_data''"
| "hm_value HM_KEY_UPDATE = ''key_update''"
| "hm_value HM_MESSAGE_HASH = ''message_hash''"
| "hm_value HM_CHANGE_CIPHER_SPEC = ''change_cipher_spec''"
| "hm_value HM_ALERT = ''alert''"
| "hm_value HM_HEARTBEAT = ''heartbeat''"
| "hm_value HM_UNKNOWN = ''unknown''"

record handshake_message =
  hm_kind :: handshake_message_kind
  hm_direction :: stream_direction
  hm_history_letter :: string
  hm_frame_number :: "nat option"
  hm_evidence_state :: evidence_state

record tls_version_evidence =
  tv_selected :: "string option"
  tv_source :: "version_source option"
  tv_evidence_state :: evidence_state
  tv_legacy_record_version :: "string option"
  tv_server_supported_version :: "string option"
  tv_client_supported_versions :: "string list"

record cipher_suite_evidence =
  cs_name :: "string option"
  cs_code :: "string option"
  cs_evidence_state :: evidence_state

record key_exchange_evidence =
  kx_mechanism :: "string option"
  kx_evidence_state :: evidence_state
  kx_source_fields :: "string list"
  kx_selected_group :: "string option"
  kx_selected_group_code :: "nat option"
  kx_dh_param_size :: "nat option"
  kx_psk_key_exchange_modes :: "string list"

record handshake_signature_evidence =
  hs_algorithm :: "string option"
  hs_evidence_state :: evidence_state

record tls_handshake =
  th_uid :: string
  th_ssl_history :: string
  th_established :: bool
  th_resumed :: bool
  th_hello_retry_request :: bool
  th_last_alert :: "string option"
  th_visibility :: handshake_visibility
  th_version :: tls_version_evidence
  th_cipher_suite :: cipher_suite_evidence
  th_key_exchange :: key_exchange_evidence
  th_messages :: "handshake_message list"
  th_server_certificate_state :: evidence_state
  th_certificate_verify_state :: evidence_state
  th_certificate_verify_signature :: handshake_signature_evidence
  th_evidence_state :: evidence_state

section \<open>Certificates (certificate.py)\<close>

datatype certificate_role = CR_SERVER | CR_CLIENT

datatype revocation_status = RS_GOOD | RS_REVOKED | RS_UNKNOWN | RS_STALE

datatype reference_identity_source = RI_SNI | RI_CONFIGURED

fun cr_value :: "certificate_role \<Rightarrow> string" where
  "cr_value CR_SERVER = ''server''"
| "cr_value CR_CLIENT = ''client''"

fun rs_value :: "revocation_status \<Rightarrow> string" where
  "rs_value RS_GOOD = ''good''"
| "rs_value RS_REVOKED = ''revoked''"
| "rs_value RS_UNKNOWN = ''unknown''"
| "rs_value RS_STALE = ''stale''"

fun ri_value :: "reference_identity_source \<Rightarrow> string" where
  "ri_value RI_SNI = ''sni''"
| "ri_value RI_CONFIGURED = ''configured''"

abbreviation max_chain_depth :: nat where
  "max_chain_depth \<equiv> 16"

record certificate_validation =
  cv_certificate_observed :: bool
  cv_syntax_valid :: "bool option"
  cv_path_valid_at_capture_time :: "bool option"
  cv_path_valid_at_analysis_time :: "bool option"
  cv_path_invalid_reasons_at_capture_time :: "string list"
  cv_path_invalid_reasons_at_analysis_time :: "string list"
  cv_identity_match :: "bool option"
  cv_identity_mismatch_reasons :: "string list"
  cv_reference_identity :: "string option"
  cv_reference_identity_source :: "reference_identity_source option"
  cv_revocation_status :: revocation_status
  cv_trust_profile_id :: string
  cv_trust_store_digest :: string
  cv_indeterminate_reasons :: "string list"

record certificate_evidence =
  ce_der_sha256 :: string
  ce_uid :: string
  ce_chain_index :: nat
  ce_role :: certificate_role
  ce_source_frames :: "nat list"
  ce_syntax_valid :: bool
  ce_syntax_error :: "string option"
  ce_subject :: "string option"
  ce_issuer :: "string option"
  ce_serial_number :: "string option"
  ce_not_before :: "py_datetime option"
  ce_not_after :: "py_datetime option"
  ce_valid_at_capture_time :: "bool option"
  ce_valid_at_analysis_time :: "bool option"
  ce_expires_within_warning_window :: "bool option"
  ce_public_key_algorithm :: "string option"
  ce_public_key_size :: "int option"
  ce_public_key_curve :: "string option"
  ce_effective_strength_bits :: "int option"
  ce_signature_algorithm :: "string option"
  ce_evidence_state :: evidence_state
  ce_validation :: "certificate_validation option"

section \<open>Lemmas\<close>

lemma es_of_value_value [simp]: "es_of_value (es_value s) = Some s"
  by (cases s) (simp_all add: es_of_value_def all_es_def)

lemma es_of_value_Some: "es_of_value raw = Some s \<Longrightarrow> es_value s = raw"
  using find_Some_mem [of "\<lambda>s. es_value s = raw" all_es s] by (simp add: es_of_value_def)

lemma pp_of_value_value [simp]: "pp_of_value (pp_value p) = Some p"
  by (cases p) (simp_all add: pp_of_value_def)

lemma state_rank_inj: "state_rank a = state_rank b \<Longrightarrow> a = b"
  by (cases a; cases b) simp_all

interpretation es: ranked state_rank
  by unfold_locales (rule state_rank_inj)

text \<open>The rank order makes the evidence states a linear order, weakest first.\<close>

instantiation evidence_state :: linorder
begin

definition less_eq_evidence_state :: "evidence_state \<Rightarrow> evidence_state \<Rightarrow> bool" where
  "less_eq_evidence_state a b = (state_rank a \<le> state_rank b)"

definition less_evidence_state :: "evidence_state \<Rightarrow> evidence_state \<Rightarrow> bool" where
  "less_evidence_state a b = (state_rank a < state_rank b)"

instance
  by standard (auto simp: less_eq_evidence_state_def less_evidence_state_def state_rank_inj)

end

lemma as_utc_idem [simp]: "as_utc (as_utc v) = as_utc v"
  by (simp add: as_utc_def split: option.splits)

lemma as_utc_instant [simp]: "dt_instant (as_utc v) = dt_instant v"
  by (simp add: as_utc_def dt_instant_def split: option.splits)

lemma as_utc_wall [simp]: "dt_wall (as_utc v) = dt_instant v"
  by (simp add: as_utc_def dt_instant_def split: option.splits)

end
