(* ===== verification/Json.thy ===== *)
theory Json
  imports Prelude
begin

text \<open>
  The dynamically typed values the program receives: rows of analyzer logs (decoded JSON), values of
  policy-pack operands (decoded YAML) and the dumps of evidence models that policy rules are
  evaluated on. An object is an association list in insertion order. Floating-point values are
  finite rationals; the non-finite ones, which neither Zeek nor the policy packs write, are left
  out.

  \<open>py_eq\<close> is Python's \<open>==\<close> on these values: booleans are the integers 0 and 1, an integer equals
  the float of the same value, lists are compared in order and objects as maps.
\<close>

datatype json =
    JNull
  | JBool bool
  | JInt int
  | JFloat rat
  | JStr string
  | JList "json list"
  | JObj "(string \<times> json) list"

type_synonym json_row = "(string, json) dict"

definition row_get :: "json_row \<Rightarrow> string \<Rightarrow> json" where
  \<comment> \<open>\<open>row.get(key)\<close>\<close>
  "row_get r k = (case map_of r k of None \<Rightarrow> JNull | Some v \<Rightarrow> v)"

fun json_num :: "json \<Rightarrow> rat option" where
  "json_num (JBool b) = Some (if b then 1 else 0)"
| "json_num (JInt i) = Some (of_int i)"
| "json_num (JFloat r) = Some r"
| "json_num _ = None"

fun py_eq :: "json \<Rightarrow> json \<Rightarrow> bool" where
  "py_eq JNull JNull = True"
| "py_eq (JStr a) (JStr b) = (a = b)"
| "py_eq (JList as) (JList bs) = list_all2 py_eq as bs"
| "py_eq (JObj as) (JObj bs) =
     (length as = length bs \<and>
      list_all (\<lambda>(k, v). list_ex (\<lambda>(k', v'). k' = k \<and> py_eq v v') bs) as)"
| "py_eq a b = (case (json_num a, json_num b) of (Some x, Some y) \<Rightarrow> x = y | _ \<Rightarrow> False)"

section \<open>Readers of untyped fields\<close>

text \<open>The normalizers share these readers; \<open>normalize_flows.py\<close> defines them.\<close>

fun as_mapping :: "json \<Rightarrow> json_row option" where
  "as_mapping (JObj r) = Some r"
| "as_mapping _ = None"

fun as_str :: "nat \<Rightarrow> json \<Rightarrow> string option" where
  "as_str max_len (JStr s) = (if s = [] \<or> max_len < length s then None else Some s)"
| "as_str max_len _ = None"

fun as_int :: "json \<Rightarrow> nat option result" where
  "as_int (JBool _) = Inr None"
| "as_int (JInt i) = Inr (if 0 \<le> i then Some (nat i) else None)"
| "as_int (JFloat r) = Inr (if of_int \<lfloor>r\<rfloor> = r \<and> 0 \<le> r then Some (nat \<lfloor>r\<rfloor>) else None)"
| "as_int (JStr s) =
     (if py_isdigit s then bindE (py_int_of_digits s) (\<lambda>n. Inr (Some n)) else Inr None)"
| "as_int _ = Inr None"

fun as_bool :: "json \<Rightarrow> bool option" where
  "as_bool (JBool b) = Some b"
| "as_bool _ = None"

section \<open>Lemmas\<close>

lemma as_str_bounds: "as_str n v = Some s \<Longrightarrow> s \<noteq> [] \<and> length s \<le> n"
  by (cases v) (auto split: if_splits)

lemma as_int_error: "as_int v = Inl e \<Longrightarrow> e = ValueError \<and> (\<exists>s. v = JStr s \<and> py_isdigit s)"
  by (cases v) (auto simp: py_int_of_digits_def py_simps split: if_splits)

lemma as_int_JInt [simp]: "as_int (JInt (int n)) = Inr (Some n)"
  by simp

end
