(* ===== verification/Flows.thy ===== *)
theory Flows
  imports Evidence Json
begin

text \<open>
  Flow reconstruction: the pure classifier of \<open>domain/evidence/flow.py\<close> and the normalizer of
  \<open>application/normalize_flows.py\<close> that joins the Zeek logs into typed facts, classifies each
  connection and sorts the resulting flows. The classifier's integer facts are naturals: the only
  place that builds them reads every count with \<open>_as_int\<close>, which never returns a negative number.

  Shown here: quality, reason and evidence state agree; each verdict has exactly the facts that
  justify it, in the order in which the code tests them; the normalizer emits well-formed flows in
  key order, and reports a conflict only for a connection with an inconsistent retransmission.
\<close>

section \<open>The classifier (flow.py)\<close>

record reconstruction_facts =
  rf_proto :: string
  rf_history :: string
  rf_conn_state :: string
  rf_missed_bytes :: nat
  rf_orig_bytes :: nat
  rf_resp_bytes :: nat
  rf_weird_names :: "string list"
  rf_capture_loss_gaps :: nat
  rf_truncated_packets :: bool
  rf_gap_ranges :: "byte_range list"
  rf_conflicting_ranges :: "byte_range list"
  rf_retransmission_count :: nat
  rf_out_of_order :: bool
  rf_duplicate_segments :: bool

fun quality_to_state :: "reconstruction_quality \<Rightarrow> evidence_state" where
  "quality_to_state RQ_COMPLETE = ES_OBSERVED"
| "quality_to_state RQ_INCOMPLETE = ES_INCOMPLETE"
| "quality_to_state RQ_CONFLICTING = ES_CONFLICTING"

definition has_orig_syn :: "string \<Rightarrow> bool" where
  "has_orig_syn history = (CHR ''S'' \<in> set history)"

definition has_resp_synack :: "string \<Rightarrow> bool" where
  "has_resp_synack history = (CHR ''h'' \<in> set history)"

definition has_fin :: "string \<Rightarrow> bool" where
  "has_fin history = (CHR ''F'' \<in> set history \<or> CHR ''f'' \<in> set history)"

definition has_rst :: "string \<Rightarrow> bool" where
  "has_rst history = (CHR ''R'' \<in> set history \<or> CHR ''r'' \<in> set history)"

definition has_data :: "string \<Rightarrow> bool" where
  "has_data history = (CHR ''D'' \<in> set history \<or> CHR ''d'' \<in> set history)"

definition range_bytes :: "byte_range list \<Rightarrow> nat" where
  "range_bytes ranges =
     foldl (\<lambda>total r. if br_start r \<le> br_end r then total + (br_end r - br_start r) else total) 0 ranges"

definition gap_at_stream_start :: "byte_range list \<Rightarrow> bool" where
  "gap_at_stream_start ranges = list_ex (\<lambda>r. br_start r \<le> 1) ranges"

definition observed_conditions :: "reconstruction_facts \<Rightarrow> bool \<Rightarrow> observed_condition list" where
  "observed_conditions facts conflicting =
     (if rf_out_of_order facts then [OC_OUT_OF_ORDER_SEGMENTS] else []) @
     (let has_duplicate = rf_duplicate_segments facts \<or> 0 < rf_retransmission_count facts
      in if has_duplicate \<and> \<not> conflicting then [OC_DUPLICATE_SEGMENTS] else [])"

definition verdict :: "reconstruction_quality \<Rightarrow> reconstruction_reason option \<Rightarrow> reconstruction_facts
    \<Rightarrow> nat \<Rightarrow> bool \<Rightarrow> byte_range list option \<Rightarrow> reconstruction_verdict" where
  "verdict quality reason facts gap_bytes gap_bytes_exact conflicting_ranges = \<lparr>
     rv_quality = quality,
     rv_reason_code = reason,
     rv_observed_conditions = observed_conditions facts (quality = RQ_CONFLICTING),
     rv_gap_bytes = gap_bytes,
     rv_gap_bytes_exact = gap_bytes_exact,
     rv_conflicting_byte_ranges = (case conflicting_ranges of None \<Rightarrow> [] | Some rs \<Rightarrow> rs),
     rv_evidence_state = quality_to_state quality\<rparr>"

definition classify_reconstruction :: "reconstruction_facts \<Rightarrow> reconstruction_verdict" where
  "classify_reconstruction facts =
    (if rf_proto facts \<noteq> ''tcp'' then
       (if rf_truncated_packets facts
        then verdict RQ_INCOMPLETE (Some RR_SNAPLEN_TRUNCATION) facts 0 False None
        else verdict RQ_COMPLETE None facts 0 True None)
     else if rf_conflicting_ranges facts \<noteq> [] then
       verdict RQ_CONFLICTING (Some RR_OVERLAPPING_RETRANSMISSION_CONFLICT) facts 0 True
         (Some (rf_conflicting_ranges facts))
     else if rf_truncated_packets facts then
       (let gap = if 0 < rf_missed_bytes facts then rf_missed_bytes facts
                  else range_bytes (rf_gap_ranges facts)
        in verdict RQ_INCOMPLETE (Some RR_SNAPLEN_TRUNCATION) facts gap (0 < gap) None)
     else if 0 < rf_missed_bytes facts \<or> rf_gap_ranges facts \<noteq> [] then
       (let gap = if 0 < rf_missed_bytes facts then rf_missed_bytes facts
                  else range_bytes (rf_gap_ranges facts);
            exact = 0 < rf_missed_bytes facts \<or>
                    (rf_gap_ranges facts \<noteq> [] \<and> list_all br_exact (rf_gap_ranges facts));
            no_syn = \<not> has_orig_syn (rf_history facts);
            reason = if no_syn \<or> gap_at_stream_start (rf_gap_ranges facts)
                     then RR_MIDSTREAM_START else RR_SEGMENT_GAP
        in verdict RQ_INCOMPLETE (Some reason) facts gap exact None)
     else if 0 < rf_capture_loss_gaps facts then
       verdict RQ_INCOMPLETE (Some RR_CAPTURE_LOSS) facts 0 False None
     else if \<not> has_orig_syn (rf_history facts) then
       verdict RQ_INCOMPLETE (Some RR_MISSING_SYN) facts 0 True None
     else
       (let handshake = has_resp_synack (rf_history facts) \<or> has_data (rf_history facts);
            established = handshake \<or> CHR ''A'' \<in> set (rf_history facts)
        in if established \<and> \<not> has_fin (rf_history facts) \<and> \<not> has_rst (rf_history facts)
           then verdict RQ_INCOMPLETE (Some RR_MISSING_FIN) facts 0 True None
           else verdict RQ_COMPLETE None facts 0 True None))"

section \<open>The normalizer (normalize\_flows.py)\<close>

definition proto :: "string option \<Rightarrow> string" where
  "proto raw = (case raw of None \<Rightarrow> ''unknown'' | Some r \<Rightarrow>
     (case map_of [(''tcp'', ''tcp''), (''udp'', ''udp''), (''icmp'', ''icmp''),
                   (''icmp6'', ''icmp6''), (''ipv6-icmp'', ''icmp6'')] (py_lower r) of
        None \<Rightarrow> ''unknown'' | Some p \<Rightarrow> p))"

text \<open>\<open>key.removeprefix("id.")\<close>\<close>

definition removeprefix :: "string \<Rightarrow> string \<Rightarrow> string" where
  "removeprefix p s = (if py_startswith s p then drop (length p) s else s)"

definition record_get :: "json_row \<Rightarrow> string list \<Rightarrow> json" where
  "record_get row keys =
     (case find (\<lambda>k. map_of row k \<noteq> None) keys of
        Some k \<Rightarrow> row_get row k
      | None \<Rightarrow>
          (case as_mapping (row_get row ''id'') of
             None \<Rightarrow> JNull
           | Some nested \<Rightarrow>
               (case find (\<lambda>k. map_of nested (removeprefix ''id.'' k) \<noteq> None) keys of
                  None \<Rightarrow> JNull
                | Some k \<Rightarrow> row_get nested (removeprefix ''id.'' k))))"

fun bounded_records :: "json \<Rightarrow> json_row list" where
  "bounded_records (JList rows) = List.map_filter as_mapping (take 10000 rows)"
| "bounded_records _ = []"

definition direction :: "bool option \<Rightarrow> stream_direction" where
  "direction is_orig = (if is_orig \<noteq> Some False then SD_ORIG else SD_RESP)"

definition mk_byte_range ::
    "nat option \<Rightarrow> nat option \<Rightarrow> nat option \<Rightarrow> bool option \<Rightarrow> bool \<Rightarrow> byte_range option" where
  "mk_byte_range start stop len is_orig exact =
     (let resolved_start = case start of Some s \<Rightarrow> s | None \<Rightarrow> 0;
          resolved_end = case stop of Some e \<Rightarrow> Some e | None \<Rightarrow>
            (case len of Some l \<Rightarrow> Some (resolved_start + l) | None \<Rightarrow> None)
      in case resolved_end of
           None \<Rightarrow> None
         | Some e \<Rightarrow> if e < resolved_start then None else
             Some \<lparr>br_start = resolved_start, br_end = e, br_direction = direction is_orig,
                   br_exact = exact \<and> start \<noteq> None\<rparr>)"

text \<open>The locals that the loop over \<open>recon_by_uid\<close> accumulates.\<close>

record recon_acc =
  ra_gap_ranges :: "byte_range list"
  ra_overlap_ranges :: "byte_range list"
  ra_rexmit_ranges :: "byte_range list"
  ra_retransmission_count :: nat
  ra_out_of_order :: bool
  ra_duplicate_segments :: bool
  ra_inconsistency :: bool
  ra_pending_conflict_len :: "nat option"

definition recon_init :: recon_acc where
  "recon_init = \<lparr>ra_gap_ranges = [], ra_overlap_ranges = [], ra_rexmit_ranges = [],
     ra_retransmission_count = 0, ra_out_of_order = False, ra_duplicate_segments = False,
     ra_inconsistency = False, ra_pending_conflict_len = None\<rparr>"

definition recon_event_type :: "json_row \<Rightarrow> string" where
  "recon_event_type event = or_str (as_str 128 (row_get event ''event_type'')) []"

definition recon_update :: "string \<Rightarrow> bool option \<Rightarrow> nat option \<Rightarrow> nat option \<Rightarrow> nat option
    \<Rightarrow> nat option \<Rightarrow> recon_acc \<Rightarrow> recon_acc" where
  "recon_update event_type is_orig seq len range_start range_end acc =
     (let start = or_else range_start seq in
      if event_type = ''seq_gap'' then
        acc\<lparr>ra_gap_ranges := ra_gap_ranges acc @
             opt_list (mk_byte_range start range_end len is_orig True)\<rparr>
      else if event_type = ''out_of_order'' then acc\<lparr>ra_out_of_order := True\<rparr>
      else if event_type = ''duplicate'' then acc\<lparr>ra_duplicate_segments := True\<rparr>
      else if event_type = ''overlap'' then
        acc\<lparr>ra_overlap_ranges := ra_overlap_ranges acc @
             opt_list (mk_byte_range start range_end len is_orig
                         (seq \<noteq> None \<or> range_start \<noteq> None))\<rparr>
      else if event_type = ''rexmit'' then
        acc\<lparr>ra_retransmission_count := ra_retransmission_count acc + 1,
            ra_rexmit_ranges := ra_rexmit_ranges acc @
             opt_list (mk_byte_range start range_end len is_orig (seq \<noteq> None))\<rparr>
      else if event_type = ''rexmit_inconsistency'' then
        acc\<lparr>ra_inconsistency := True, ra_pending_conflict_len := len\<rparr>
      else acc)"

definition recon_step :: "json_row \<Rightarrow> recon_acc \<Rightarrow> recon_acc result" where
  "recon_step event acc =
     bindE (as_int (row_get event ''seq'')) (\<lambda>seq.
     bindE (as_int (row_get event ''len'')) (\<lambda>len.
     bindE (as_int (row_get event ''range_start'')) (\<lambda>range_start.
     bindE (as_int (row_get event ''range_end'')) (\<lambda>range_end.
     Inr (recon_update (recon_event_type event) (as_bool (row_get event ''is_orig''))
            seq len range_start range_end acc)))))"

definition conflicting_ranges :: "recon_acc \<Rightarrow> byte_range list" where
  "conflicting_ranges acc =
     (if ra_inconsistency acc then
        (if ra_overlap_ranges acc \<noteq> [] then ra_overlap_ranges acc
         else if ra_rexmit_ranges acc \<noteq> [] then ra_rexmit_ranges acc
         else (case ra_pending_conflict_len acc of
                 None \<Rightarrow> []
               | Some n \<Rightarrow> opt_list (mk_byte_range (Some 0) (Some n) (Some n) (Some True) False)))
      else [])"

definition sum_capture_loss :: "json_row list \<Rightarrow> nat result" where
  "sum_capture_loss rows =
     foldE (\<lambda>row total. bindE (as_int (row_get row ''gaps''))
              (\<lambda>gaps. Inr (case gaps of None \<Rightarrow> total | Some g \<Rightarrow> total + g))) rows 0"

definition weird_step :: "json_row \<Rightarrow> (string, string list) dict \<Rightarrow> (string, string list) dict" where
  "weird_step row d =
     (case (as_str 64 (row_get row ''uid''), as_str 128 (row_get row ''name'')) of
        (Some uid, Some name) \<Rightarrow> group_step_capped 256 uid name d
      | _ \<Rightarrow> d)"

definition recon_group_step ::
    "json_row \<Rightarrow> (string, json_row list) dict \<Rightarrow> (string, json_row list) dict" where
  "recon_group_step row d =
     (case as_str 64 (row_get row ''uid'') of
        Some uid \<Rightarrow> group_step_capped 256 uid row d
      | None \<Rightarrow> d)"

definition get_list :: "(string, 'v list) dict \<Rightarrow> string \<Rightarrow> 'v list" where
  "get_list d k = (case map_of d k of None \<Rightarrow> [] | Some vs \<Rightarrow> vs)"

definition or_zero :: "nat option \<Rightarrow> nat" where
  "or_zero n = (case n of None \<Rightarrow> 0 | Some k \<Rightarrow> k)"

definition mk_flow :: "string \<Rightarrow> flow_endpoint \<Rightarrow> flow_endpoint \<Rightarrow> reconstruction_facts \<Rightarrow> flow" where
  "mk_flow uid orig resp facts =
     (let v = classify_reconstruction facts in
      \<lparr>fl_uid = uid, fl_orig = orig, fl_resp = resp, fl_proto = rf_proto facts,
       fl_history = rf_history facts, fl_conn_state = rf_conn_state facts,
       fl_missed_bytes = rf_missed_bytes facts, fl_orig_bytes = rf_orig_bytes facts,
       fl_resp_bytes = rf_resp_bytes facts, fl_reconstruction_quality = rv_quality v,
       fl_reason_code = rv_reason_code v, fl_observed_conditions = rv_observed_conditions v,
       fl_gap_bytes = rv_gap_bytes v, fl_gap_bytes_exact = rv_gap_bytes_exact v,
       fl_conflicting_byte_ranges = rv_conflicting_byte_ranges v,
       fl_evidence_state = rv_evidence_state v\<rparr>)"

text \<open>One row of \<open>conn.log\<close>, the body of the loop: the mandatory fields (\<open>None\<close> for \<open>continue\<close>),
  then the facts and the flow.\<close>

definition conn_endpoints :: "json_row \<Rightarrow> (string \<times> flow_endpoint \<times> flow_endpoint) option result" where
  "conn_endpoints row =
     bindE (as_int (record_get row [''id.orig_p''])) (\<lambda>orig_p.
     bindE (as_int (record_get row [''id.resp_p''])) (\<lambda>resp_p.
     Inr (Option.bind (as_str 64 (row_get row ''uid'')) (\<lambda>uid.
          Option.bind (as_str 253 (record_get row [''id.orig_h''])) (\<lambda>orig_h.
          Option.bind (as_str 253 (record_get row [''id.resp_h''])) (\<lambda>resp_h.
          Option.bind orig_p (\<lambda>orig_p. Option.bind resp_p (\<lambda>resp_p.
          if 65535 < orig_p \<or> 65535 < resp_p then None
          else Some (uid, \<lparr>fe_host = orig_h, fe_port = orig_p\<rparr>, \<lparr>fe_host = resp_h, fe_port = resp_p\<rparr>)))))))))"

definition conn_facts :: "string list \<Rightarrow> recon_acc \<Rightarrow> nat \<Rightarrow> bool \<Rightarrow> json_row \<Rightarrow> reconstruction_facts result" where
  "conn_facts weird_names acc capture_loss_gaps truncated row =
     bindE (as_int (row_get row ''missed_bytes'')) (\<lambda>missed.
     bindE (as_int (row_get row ''orig_bytes'')) (\<lambda>orig_bytes.
     bindE (as_int (row_get row ''resp_bytes'')) (\<lambda>resp_bytes.
     Inr \<lparr>rf_proto = proto (as_str 16 (row_get row ''proto'')),
          rf_history = or_str (as_str 256 (row_get row ''history'')) [],
          rf_conn_state = or_str (as_str 16 (row_get row ''conn_state'')) [],
          rf_missed_bytes = or_zero missed, rf_orig_bytes = or_zero orig_bytes,
          rf_resp_bytes = or_zero resp_bytes, rf_weird_names = weird_names,
          rf_capture_loss_gaps = capture_loss_gaps, rf_truncated_packets = truncated,
          rf_gap_ranges = ra_gap_ranges acc, rf_conflicting_ranges = conflicting_ranges acc,
          rf_retransmission_count = ra_retransmission_count acc,
          rf_out_of_order = ra_out_of_order acc,
          rf_duplicate_segments = ra_duplicate_segments acc\<rparr>)))"

definition flow_of_row :: "(string, string list) dict \<Rightarrow> (string, json_row list) dict \<Rightarrow> nat \<Rightarrow> bool
    \<Rightarrow> json_row \<Rightarrow> flow option result" where
  "flow_of_row weird_by_uid recon_by_uid capture_loss_gaps truncated row =
     bindE (conn_endpoints row) (\<lambda>eps. case eps of
       None \<Rightarrow> Inr None
     | Some (uid, orig, resp) \<Rightarrow>
         bindE (foldE recon_step (get_list recon_by_uid uid) recon_init) (\<lambda>acc.
         bindE (conn_facts (get_list weird_by_uid uid) acc capture_loss_gaps truncated row) (\<lambda>facts.
         Inr (Some (mk_flow uid orig resp facts)))))"

definition flow_key :: "flow \<Rightarrow> string \<times> string \<times> nat \<times> string \<times> nat \<times> string" where
  "flow_key f = (fl_proto f, fe_host (fl_orig f), fe_port (fl_orig f), fe_host (fl_resp f),
     fe_port (fl_resp f), fl_uid f)"

definition logs_get :: "(string, json) dict \<Rightarrow> string \<Rightarrow> json" where
  "logs_get logs name = (case map_of logs name of None \<Rightarrow> JList [] | Some v \<Rightarrow> v)"

definition normalize_flows :: "(string, json) dict \<Rightarrow> capture_preflight \<Rightarrow> flow list result" where
  "normalize_flows logs preflight =
     (let conn_rows = bounded_records (logs_get logs ''conn.log'');
          weird_rows = bounded_records (logs_get logs ''weird.log'');
          loss_rows = bounded_records (logs_get logs ''capture_loss.log'');
          recon_rows = bounded_records (logs_get logs ''sm_tcp_recon.log'')
      in bindE (sum_capture_loss loss_rows) (\<lambda>capture_loss_gaps.
         let weird_by_uid = fold weird_step weird_rows [];
             recon_by_uid = fold recon_group_step recon_rows []
         in bindE (mapE (flow_of_row weird_by_uid recon_by_uid capture_loss_gaps
                           (cp_truncated_packets_present preflight)) conn_rows) (\<lambda>flows.
            Inr (sort_key flow_key (List.map_filter (\<lambda>x. x) flows)))))"

section \<open>Lemmas: the classifier\<close>

named_theorems classify_defs \<open>definitions unfolded by case analysis of the classifier\<close>

declare classify_reconstruction_def [classify_defs]
declare verdict_def [classify_defs]
declare Let_def [classify_defs]

lemma classify_state:
  "rv_evidence_state (classify_reconstruction facts) =
     quality_to_state (rv_quality (classify_reconstruction facts))"
  by (simp add: classify_defs)

lemma classify_reason:
  "rv_reason_code (classify_reconstruction facts) = None \<longleftrightarrow>
     rv_quality (classify_reconstruction facts) = RQ_COMPLETE"
  by (simp add: classify_defs)

lemma classify_ranges:
  "rv_conflicting_byte_ranges (classify_reconstruction facts) =
     (if rv_quality (classify_reconstruction facts) = RQ_CONFLICTING
      then rf_conflicting_ranges facts else [])"
  by (simp add: classify_defs)

lemma classify_conflicting_iff:
  "rv_quality (classify_reconstruction facts) = RQ_CONFLICTING \<longleftrightarrow>
     rf_proto facts = ''tcp'' \<and> rf_conflicting_ranges facts \<noteq> []"
  by (simp add: classify_defs)

lemma classify_complete_gap:
  "rv_quality (classify_reconstruction facts) = RQ_COMPLETE \<Longrightarrow>
     rv_gap_bytes (classify_reconstruction facts) = 0 \<and> rv_gap_bytes_exact (classify_reconstruction facts)"
  by (simp add: classify_defs split: if_splits)

lemma classify_conflicting_no_duplicate:
  "rv_quality (classify_reconstruction facts) = RQ_CONFLICTING \<Longrightarrow>
     OC_DUPLICATE_SEGMENTS \<notin> set (rv_observed_conditions (classify_reconstruction facts))"
  by (simp add: classify_defs observed_conditions_def split: if_splits)

lemma foldl_range_bytes:
  "foldl (\<lambda>total r. if br_start r \<le> br_end r then total + (br_end r - br_start r) else total) n rs =
     n + (\<Sum>r\<leftarrow>rs. br_end r - br_start r)"
  by (induction rs arbitrary: n) auto

lemma range_bytes_sum: "range_bytes rs = (\<Sum>r\<leftarrow>rs. br_end r - br_start r)"
  by (simp add: range_bytes_def foldl_range_bytes)

section \<open>Lemmas: the normalizer\<close>

definition range_ok :: "byte_range \<Rightarrow> bool" where
  "range_ok r = (br_start r \<le> br_end r)"

lemma mk_byte_range_ok: "mk_byte_range start stop len is_orig exact = Some r \<Longrightarrow> range_ok r"
  by (auto simp: mk_byte_range_def range_ok_def Let_def split: option.splits if_splits)

lemma recon_step_error: "recon_step event acc = Inl e \<Longrightarrow> e = ValueError"
  by (auto simp: recon_step_def py_simps dest: as_int_error)

lemma recon_step_cases:
  assumes "recon_step event acc = Inr acc'"
  obtains is_orig seq len rs re
    where "acc' = recon_update (recon_event_type event) is_orig seq len rs re acc"
  using assms by (auto simp: recon_step_def py_simps)

text \<open>What the event loop maintains: every range is well formed, and the inconsistency flag is set
  exactly by the events seen so far.\<close>

definition acc_ok :: "recon_acc \<Rightarrow> bool" where
  "acc_ok acc = (list_all range_ok (ra_gap_ranges acc) \<and> list_all range_ok (ra_overlap_ranges acc)
     \<and> list_all range_ok (ra_rexmit_ranges acc))"

lemma opt_list_range_ok [simp]:
  "list_all range_ok (opt_list (mk_byte_range start stop len is_orig exact))"
  using mk_byte_range_ok by (cases "mk_byte_range start stop len is_orig exact") auto

lemma recon_update_ok:
  "acc_ok acc \<Longrightarrow> acc_ok (recon_update ty is_orig seq len rs re acc)"
  by (simp add: recon_update_def Let_def acc_ok_def)

lemma recon_update_inconsistency:
  "ra_inconsistency (recon_update ty is_orig seq len rs re acc) =
     (ra_inconsistency acc \<or> ty = ''rexmit_inconsistency'')"
  by (simp add: recon_update_def Let_def)

lemma recon_fold_ok:
  assumes "foldE recon_step events recon_init = Inr acc"
  shows "acc_ok acc"
  using assms
proof (rule foldE_invariant [where P = acc_ok])
  show "acc_ok recon_init" by (simp add: acc_ok_def recon_init_def)
  show "acc_ok b" if "acc_ok a" "recon_step x a = Inr b" for x a b
    using that(2) recon_update_ok [OF that(1)] by (elim recon_step_cases) simp
qed

lemma recon_fold_inconsistency:
  "foldE recon_step events acc = Inr acc' \<Longrightarrow>
     ra_inconsistency acc' =
       (ra_inconsistency acc \<or> (\<exists>e \<in> set events. recon_event_type e = ''rexmit_inconsistency''))"
proof (induction events arbitrary: acc)
  case (Cons e es)
  then obtain b where b: "recon_step e acc = Inr b" and "foldE recon_step es b = Inr acc'"
    by (auto simp: py_simps)
  then have "ra_inconsistency acc' =
      (ra_inconsistency b \<or> (\<exists>e \<in> set es. recon_event_type e = ''rexmit_inconsistency''))"
    using Cons.IH by blast
  moreover have "ra_inconsistency b = (ra_inconsistency acc \<or> recon_event_type e = ''rexmit_inconsistency'')"
    using b by (elim recon_step_cases) (simp add: recon_update_inconsistency)
  ultimately show ?case by auto
qed simp

lemma conflicting_ranges_ok: "acc_ok acc \<Longrightarrow> list_all range_ok (conflicting_ranges acc)"
  by (simp add: conflicting_ranges_def acc_ok_def split: option.split)

lemma proto_range: "proto raw \<in> {''tcp'', ''udp'', ''icmp'', ''icmp6'', ''unknown''}"
  by (cases raw) (simp_all add: proto_def split: option.split)

text \<open>What every emitted flow satisfies.\<close>

definition flow_wf :: "flow \<Rightarrow> bool" where
  "flow_wf f =
     (fl_uid f \<noteq> [] \<and> length (fl_uid f) \<le> 64
      \<and> fe_host (fl_orig f) \<noteq> [] \<and> length (fe_host (fl_orig f)) \<le> 253 \<and> fe_port (fl_orig f) \<le> 65535
      \<and> fe_host (fl_resp f) \<noteq> [] \<and> length (fe_host (fl_resp f)) \<le> 253 \<and> fe_port (fl_resp f) \<le> 65535
      \<and> fl_proto f \<in> {''tcp'', ''udp'', ''icmp'', ''icmp6'', ''unknown''}
      \<and> fl_evidence_state f = quality_to_state (fl_reconstruction_quality f)
      \<and> (fl_reason_code f = None \<longleftrightarrow> fl_reconstruction_quality f = RQ_COMPLETE)
      \<and> (fl_conflicting_byte_ranges f \<noteq> [] \<longleftrightarrow> fl_reconstruction_quality f = RQ_CONFLICTING)
      \<and> list_all range_ok (fl_conflicting_byte_ranges f))"

lemma conn_endpoints_ok:
  assumes "conn_endpoints row = Inr (Some (uid, orig, resp))"
  shows "uid \<noteq> [] \<and> length uid \<le> 64"
    and "fe_host orig \<noteq> [] \<and> length (fe_host orig) \<le> 253" and "fe_port orig \<le> 65535"
    and "fe_host resp \<noteq> [] \<and> length (fe_host resp) \<le> 253" and "fe_port resp \<le> 65535"
  using assms
  by (auto simp: conn_endpoints_def py_simps bind_eq_Some_conv split: if_splits dest: as_str_bounds)

lemma conn_facts_fields:
  assumes "conn_facts w acc g t row = Inr facts"
  shows "rf_conflicting_ranges facts = conflicting_ranges acc"
    and "rf_proto facts = proto (as_str 16 (row_get row ''proto''))"
  using assms by (auto simp: conn_facts_def py_simps)

lemma mk_flow_wf:
  assumes "list_all range_ok (rf_conflicting_ranges facts)"
    and "rf_proto facts \<in> {''tcp'', ''udp'', ''icmp'', ''icmp6'', ''unknown''}"
    and "uid \<noteq> [] \<and> length uid \<le> 64"
    and "fe_host orig \<noteq> [] \<and> length (fe_host orig) \<le> 253" and "fe_port orig \<le> 65535"
    and "fe_host resp \<noteq> [] \<and> length (fe_host resp) \<le> 253" and "fe_port resp \<le> 65535"
  shows "flow_wf (mk_flow uid orig resp facts)"
proof -
  have "(rv_conflicting_byte_ranges (classify_reconstruction facts) \<noteq> []) =
      (rv_quality (classify_reconstruction facts) = RQ_CONFLICTING)"
    using classify_conflicting_iff by (auto simp: classify_ranges)
  with assms show ?thesis
    unfolding flow_wf_def mk_flow_def Let_def
    by (simp only: flow.simps classify_state classify_reason classify_ranges) simp
qed

lemma flow_of_row_cases:
  assumes "flow_of_row w d g t row = Inr (Some f)"
  obtains uid orig resp acc facts
    where "conn_endpoints row = Inr (Some (uid, orig, resp))"
      and "foldE recon_step (get_list d uid) recon_init = Inr acc"
      and "conn_facts (get_list w uid) acc g t row = Inr facts"
      and "f = mk_flow uid orig resp facts"
  using assms by (auto simp: flow_of_row_def py_simps split: option.splits)

lemma flow_of_row_wf: "flow_of_row w d g t row = Inr (Some f) \<Longrightarrow> flow_wf f"
  by (elim flow_of_row_cases)
     (simp add: mk_flow_wf conn_endpoints_ok conn_facts_fields conflicting_ranges_ok recon_fold_ok
       proto_range del: insert_iff)

lemma flow_of_row_conflict:
  assumes "flow_of_row w d g t row = Inr (Some f)" and "fl_evidence_state f = ES_CONFLICTING"
  shows "\<exists>e \<in> set (get_list d (fl_uid f)). recon_event_type e = ''rexmit_inconsistency''"
  using assms(1)
proof (rule flow_of_row_cases)
  fix uid orig resp acc facts
  assume acc: "foldE recon_step (get_list d uid) recon_init = Inr acc"
    and facts: "conn_facts (get_list w uid) acc g t row = Inr facts"
    and f: "f = mk_flow uid orig resp facts"
  have "rv_quality (classify_reconstruction facts) = RQ_CONFLICTING"
    using assms(2) quality_to_state.elims [of "rv_quality (classify_reconstruction facts)"]
    by (cases "rv_quality (classify_reconstruction facts)")
       (simp_all add: f mk_flow_def Let_def classify_state)
  then have "conflicting_ranges acc \<noteq> []"
    using conn_facts_fields(1) [OF facts] by (simp add: classify_conflicting_iff)
  then have "ra_inconsistency acc" by (auto simp: conflicting_ranges_def split: if_splits)
  then show ?thesis
    using recon_fold_inconsistency [OF acc] by (simp add: recon_init_def f mk_flow_def Let_def)
qed

lemma conn_endpoints_error: "conn_endpoints row = Inl e \<Longrightarrow> e = ValueError"
  by (auto simp: conn_endpoints_def py_simps dest: as_int_error)

lemma conn_facts_error: "conn_facts w acc g t row = Inl e \<Longrightarrow> e = ValueError"
  by (auto simp: conn_facts_def py_simps dest: as_int_error)

lemma flow_of_row_error: "flow_of_row w d g t row = Inl e \<Longrightarrow> e = ValueError"
  by (auto simp: flow_of_row_def py_simps split: option.splits
      dest: conn_endpoints_error conn_facts_error foldE_Inl_ex recon_step_error)

lemma sum_capture_loss_error: "sum_capture_loss rows = Inl e \<Longrightarrow> e = ValueError"
  by (auto simp: sum_capture_loss_def py_simps dest!: foldE_Inl_ex dest: as_int_error)

text \<open>Grouping the reconstruction events: the events of a connection come from the log.\<close>

lemma recon_group_mem:
  assumes "e \<in> set (get_list (fold recon_group_step rows d) uid)"
    and "\<And>u x. x \<in> set (get_list d u) \<Longrightarrow> P x u"
    and "\<And>x u. x \<in> set rows \<Longrightarrow> as_str 64 (row_get x ''uid'') = Some u \<Longrightarrow> P x u"
  shows "P e uid"
  using assms
proof (induction rows arbitrary: d)
  case (Cons r rows)
  show ?case
  proof (rule Cons.IH)
    show "e \<in> set (get_list (fold recon_group_step rows (recon_group_step r d)) uid)"
      using Cons.prems(1) by simp
    show "P x u" if "x \<in> set (get_list (recon_group_step r d) u)" for u x
      using that Cons.prems(2) [of x u] Cons.prems(3) [of r u]
      by (auto simp: recon_group_step_def get_list_def group_step_capped_get
          split: option.splits if_splits)
    show "P x u" if "x \<in> set rows" "as_str 64 (row_get x ''uid'') = Some u" for x u
      using that Cons.prems(3) by simp
  qed
qed simp

lemma normalize_flows_cases:
  assumes "normalize_flows logs pre = Inr flows"
  obtains w g where
    "set flows = {f. \<exists>row \<in> set (bounded_records (logs_get logs ''conn.log'')).
       flow_of_row w (fold recon_group_step (bounded_records (logs_get logs ''sm_tcp_recon.log'')) [])
         g (cp_truncated_packets_present pre) row = Inr (Some f)}"
    and "length flows \<le> length (bounded_records (logs_get logs ''conn.log''))"
    and "sorted (map flow_key flows)"
proof -
  let ?c = "bounded_records (logs_get logs ''conn.log'')"
  let ?d = "fold recon_group_step (bounded_records (logs_get logs ''sm_tcp_recon.log'')) []"
  obtain w g fs where fs: "mapE (flow_of_row w ?d g (cp_truncated_packets_present pre)) ?c = Inr fs"
    and flows: "flows = sort_key flow_key (List.map_filter (\<lambda>x. x) fs)"
    using assms by (auto simp: normalize_flows_def Let_def py_simps)
  have "set flows = {f. \<exists>row \<in> set ?c.
       flow_of_row w ?d g (cp_truncated_packets_present pre) row = Inr (Some f)}"
    using mapE_set_iff [OF fs] by (simp add: flows set_eq_iff map_filter_mem)
  moreover have "length flows \<le> length ?c"
    using map_filter_length [of "\<lambda>x. x" fs] mapE_length [OF fs] by (simp add: flows)
  moreover have "sorted (map flow_key flows)" by (simp add: flows)
  ultimately show thesis using that by blast
qed

lemma bounded_records_length: "length (bounded_records v) \<le> 10000"
proof (cases v)
  case (JList rows)
  have "length (List.map_filter as_mapping (take 10000 rows)) \<le> length (take 10000 rows)"
    by (rule map_filter_length)
  then show ?thesis by (simp add: JList)
qed simp_all

section \<open>Properties\<close>

text \<open>The fields of a reconstruction verdict agree with each other, whatever the facts: the
  evidence state is the one of the quality, there is a reason exactly when the quality is not
  complete, the conflicting byte ranges are reported exactly for a conflicting flow and are then the
  given ones, a duplicate is never reported as a recoverable condition of a conflicting flow, and a
  complete flow has no gap.\<close>

theorem classify_reconstruction_consistent:
  "let v = classify_reconstruction facts in
     rv_evidence_state v = quality_to_state (rv_quality v)
     \<and> (rv_reason_code v = None \<longleftrightarrow> rv_quality v = RQ_COMPLETE)
     \<and> rv_conflicting_byte_ranges v =
         (if rv_quality v = RQ_CONFLICTING then rf_conflicting_ranges facts else [])
     \<and> (rv_quality v = RQ_CONFLICTING \<longleftrightarrow> rf_proto facts = ''tcp'' \<and> rf_conflicting_ranges facts \<noteq> [])
     \<and> \<not> (rv_quality v = RQ_CONFLICTING \<and> OC_DUPLICATE_SEGMENTS \<in> set (rv_observed_conditions v))
     \<and> (if rv_quality v = RQ_COMPLETE then rv_gap_bytes v = 0 \<and> rv_gap_bytes_exact v else True)"
  unfolding Let_def
  by (intro conjI classify_state classify_reason classify_ranges classify_conflicting_iff notI)
     (auto dest: classify_complete_gap classify_conflicting_no_duplicate)

text \<open>Exactly which facts make a flow complete: a non-TCP flow when no packet is truncated; a TCP
  flow when there is no conflicting overlap, no truncated packet, no missed byte or gap range, no
  capture loss, the originator's SYN was seen and, if anything followed the SYN, so was a FIN or a
  RST.\<close>

theorem classify_reconstruction_complete_iff:
  "rv_quality (classify_reconstruction facts) = RQ_COMPLETE \<longleftrightarrow>
     \<not> rf_truncated_packets facts
     \<and> (if rf_proto facts = ''tcp'' then
          rf_conflicting_ranges facts = [] \<and> rf_missed_bytes facts = 0 \<and> rf_gap_ranges facts = []
          \<and> rf_capture_loss_gaps facts = 0 \<and> CHR ''S'' \<in> set (rf_history facts)
          \<and> (if set (rf_history facts) \<inter> {CHR ''h'', CHR ''D'', CHR ''d'', CHR ''A''} = {} then True
             else set (rf_history facts) \<inter> {CHR ''F'', CHR ''f'', CHR ''R'', CHR ''r''} \<noteq> {})
        else True)"
  by (simp add: classify_defs has_orig_syn_def has_resp_synack_def has_data_def has_fin_def has_rst_def)

text \<open>The precedence the code implements between capture loss and sequence gaps: when a TCP flow
  without conflict or truncation has both, the gap decides, with its byte count, and the loss is not
  mentioned.\<close>

theorem classify_gap_before_loss:
  assumes "rf_proto facts = ''tcp''" and "rf_conflicting_ranges facts = []"
    and "\<not> rf_truncated_packets facts"
    and "0 < rf_missed_bytes facts \<or> rf_gap_ranges facts \<noteq> []" and "0 < rf_capture_loss_gaps facts"
  shows "rv_reason_code (classify_reconstruction facts) \<in> {Some RR_MIDSTREAM_START, Some RR_SEGMENT_GAP}
    \<and> rv_gap_bytes (classify_reconstruction facts) =
      (if 0 < rf_missed_bytes facts then rf_missed_bytes facts
       else \<Sum>r\<leftarrow>rf_gap_ranges facts. br_end r - br_start r)"
  using assms by (auto simp: classify_defs range_bytes_sum)

definition sample_facts :: reconstruction_facts where
  "sample_facts = \<lparr>rf_proto = ''tcp'', rf_history = ''ShADadFf'', rf_conn_state = ''SF'',
     rf_missed_bytes = 7, rf_orig_bytes = 100, rf_resp_bytes = 200, rf_weird_names = [],
     rf_capture_loss_gaps = 2, rf_truncated_packets = False, rf_gap_ranges = [],
     rf_conflicting_ranges = [], rf_retransmission_count = 0, rf_out_of_order = False,
     rf_duplicate_segments = False\<rparr>"

theorem classify_gap_before_loss_witness:
  "rv_reason_code (classify_reconstruction sample_facts) \<in> {Some RR_MIDSTREAM_START, Some RR_SEGMENT_GAP}
   \<and> rv_gap_bytes (classify_reconstruction sample_facts) = 7"
  using classify_gap_before_loss [of sample_facts] by (simp add: sample_facts_def)

text \<open>When the normalizer returns, it returns at most ten thousand flows in key order, every one of
  them well formed (\<open>flow_wf\<close>: bounded uid, hosts and ports, a protocol of the model's literal type,
  quality, reason, evidence state and conflicting ranges in agreement), and a flow is conflicting
  only if the reconstruction log holds an inconsistent retransmission of that connection.\<close>

theorem normalize_flows_wf:
  assumes "normalize_flows logs preflight = Inr flows"
  shows "length flows \<le> 10000 \<and> sorted (map flow_key flows) \<and> list_all flow_wf flows
    \<and> (\<forall>f \<in> set flows. fl_evidence_state f = ES_CONFLICTING \<longrightarrow>
      (\<exists>e \<in> set (bounded_records (logs_get logs ''sm_tcp_recon.log'')).
         as_str 64 (row_get e ''uid'') = Some (fl_uid f) \<and> recon_event_type e = ''rexmit_inconsistency''))"
  using assms
proof (elim normalize_flows_cases, goal_cases)
  case (1 w g)
  let ?rows = "bounded_records (logs_get logs ''sm_tcp_recon.log'')"
  have "\<exists>e \<in> set ?rows. as_str 64 (row_get e ''uid'') = Some (fl_uid f) \<and>
      recon_event_type e = ''rexmit_inconsistency''"
    if f: "f \<in> set flows" and st: "fl_evidence_state f = ES_CONFLICTING" for f
  proof -
    obtain row where "flow_of_row w (fold recon_group_step ?rows []) g
        (cp_truncated_packets_present preflight) row = Inr (Some f)"
      using f unfolding 1(1) by blast
    from flow_of_row_conflict [OF this st]
    obtain e where e: "e \<in> set (get_list (fold recon_group_step ?rows []) (fl_uid f))"
        "recon_event_type e = ''rexmit_inconsistency''" by blast
    have "e \<in> set ?rows \<and> as_str 64 (row_get e ''uid'') = Some (fl_uid f)"
      by (rule recon_group_mem [OF e(1)]) (simp_all add: get_list_def)
    with e(2) show ?thesis by blast
  qed
  moreover have "list_all flow_wf flows"
    using 1(1) flow_of_row_wf by (auto simp: list_all_iff)
  ultimately show ?case
    using 1(2,3) bounded_records_length [of "logs_get logs ''conn.log''"] by auto
qed

definition sample_logs :: "(string, json) dict" where
  "sample_logs =
     [(''conn.log'', JList [JObj
        [(''uid'', JStr ''C1''), (''id.orig_h'', JStr ''10.0.0.1''), (''id.orig_p'', JInt 40000),
         (''id.resp_h'', JStr ''10.0.0.2''), (''id.resp_p'', JInt 25), (''proto'', JStr ''tcp''),
         (''history'', JStr ''ShADadFf'')]])]"

definition sample_preflight :: capture_preflight where
  "sample_preflight = \<lparr>cp_packet_count = 20, cp_file_time_precision = ''microseconds'',
     cp_packet_size_limit = None, cp_packet_size_limit_min_inferred = None,
     cp_packet_size_limit_max_inferred = None, cp_truncated_packets_present = False,
     cp_original_packet_bytes = None, cp_capture_duration_seconds = None,
     cp_capture_start_time = None\<rparr>"

definition sample_flow :: flow where
  "sample_flow = \<lparr>fl_uid = ''C1'', fl_orig = \<lparr>fe_host = ''10.0.0.1'', fe_port = 40000\<rparr>,
     fl_resp = \<lparr>fe_host = ''10.0.0.2'', fe_port = 25\<rparr>, fl_proto = ''tcp'',
     fl_history = ''ShADadFf'', fl_conn_state = [], fl_missed_bytes = 0, fl_orig_bytes = 0,
     fl_resp_bytes = 0, fl_reconstruction_quality = RQ_COMPLETE, fl_reason_code = None,
     fl_observed_conditions = [], fl_gap_bytes = 0, fl_gap_bytes_exact = True,
     fl_conflicting_byte_ranges = [], fl_evidence_state = ES_OBSERVED\<rparr>"

lemma lower_tcp: "py_lower ''tcp'' = ''tcp''"
  by code_simp

lemmas normalize_defs = normalize_flows_def flow_of_row_def conn_endpoints_def conn_facts_def
  sum_capture_loss_def logs_get_def record_get_def row_get_def proto_def get_list_def or_zero_def
  or_str_def mk_flow_def recon_init_def conflicting_ranges_def classify_defs has_orig_syn_def
  has_resp_synack_def has_data_def has_fin_def has_rst_def observed_conditions_def
  List.map_filter_def

lemma sample_normalize: "normalize_flows sample_logs sample_preflight = Inr [sample_flow]"
  by (simp add: normalize_defs sample_logs_def sample_preflight_def sample_flow_def lower_tcp)

theorem normalize_flows_wf_witness:
  "normalize_flows sample_logs sample_preflight = Inr [sample_flow] \<and> flow_wf sample_flow"
  using normalize_flows_wf [OF sample_normalize] sample_normalize by simp

text \<open>The only exception the flow normalizer can raise on a decoded log is \<open>ValueError\<close>.\<close>

theorem normalize_flows_error:
  assumes "normalize_flows logs preflight = Inl e"
  shows "e = ValueError"
  using assms
  by (auto simp: normalize_flows_def Let_def py_simps
      dest: sum_capture_loss_error mapE_Inl_ex flow_of_row_error)

definition superscript_logs :: "(string, json) dict" where
  "superscript_logs = [(''capture_loss.log'', JList [JObj [(''gaps'', JStr [char_of (178 :: nat)])]])]"

theorem normalize_flows_error_witness:
  "\<exists>e. normalize_flows superscript_logs sample_preflight = Inl e \<and> e = ValueError"
proof -
  have "as_int (JStr [char_of (178 :: nat)]) = Inl ValueError"
    by (simp add: py_isdigit_def py_int_of_digits_def is_digit_def Let_def)
  then have "normalize_flows superscript_logs sample_preflight = Inl ValueError"
    by (simp add: normalize_flows_def logs_get_def row_get_def superscript_logs_def sum_capture_loss_def
        List.map_filter_def del: as_int.simps)
  then show ?thesis using normalize_flows_error [of superscript_logs sample_preflight] by blast
qed

end
