(* ===== verification/Starttls.thy ===== *)
theory Starttls
  imports Flows
begin

text \<open>
  Opportunistic and implicit TLS (\<open>domain/policies/starttls\<close>): the three explicit-upgrade machines
  (\<open>smtp_upgrade.py\<close>, \<open>imap_upgrade.py\<close>, \<open>pop3_upgrade.py\<close>), each a loop over the observed protocol
  events followed by a common evaluation of the flags, and the ALPN correlation of
  \<open>implicit_tls.py\<close>. The loop variables are the record \<open>upgrade_vars\<close>; the IMAP machine adds the
  pending tag. Every machine is a step function on these variables, one event at a time, with the
  branches in the order of the code; a branch that ends in \<open>continue\<close> ends the step.

  The locale \<open>upgrade_machine\<close> is the contract that the three step functions share. What it gives is
  proved once and interpreted for each protocol: TLS is reported only after an accepted upgrade and
  an observed ClientHello, a violation only without a ClientHello and after acceptance, a plaintext
  fallback exactly when credentials were sent before acceptance, and the evidence frames are sorted,
  distinct and taken from the input.
\<close>

section \<open>The machines' variables\<close>

record upgrade_vars =
  uv_advertised :: bool
  uv_requested :: bool
  uv_accepted :: bool
  uv_saw_capability_exchange :: bool
  uv_violation :: bool
  uv_plaintext_fallback :: bool
  uv_awaiting_reply :: bool
  uv_frames :: "nat list"

record imap_vars = upgrade_vars +
  iv_pending_tag :: "string option"

definition upgrade_init :: upgrade_vars where
  "upgrade_init = \<lparr>uv_advertised = False, uv_requested = False, uv_accepted = False,
     uv_saw_capability_exchange = False, uv_violation = False, uv_plaintext_fallback = False,
     uv_awaiting_reply = False, uv_frames = []\<rparr>"

definition imap_init :: imap_vars where
  "imap_init = upgrade_vars.extend upgrade_init (imap_vars.fields None)"

definition add_frame :: "protocol_event \<Rightarrow> 'z upgrade_vars_scheme \<Rightarrow> 'z upgrade_vars_scheme" where
  "add_frame event u =
     (case pe_frame_number event of
        None \<Rightarrow> u
      | Some n \<Rightarrow> if n \<in> set (uv_frames u) then u else u\<lparr>uv_frames := uv_frames u @ [n]\<rparr>)"

definition ev_command :: "protocol_event \<Rightarrow> string" where
  "ev_command event = py_upper (or_str (pe_command event) [])"

definition ev_text :: "protocol_event \<Rightarrow> string" where
  "ev_text event = py_upper (or_str (pe_text event) [])"

text \<open>The end of the loop body, the same text in the three files up to the two command sets.\<close>

definition observe_plain :: "string list \<Rightarrow> string list \<Rightarrow> bool \<Rightarrow> protocol_event
    \<Rightarrow> 'z upgrade_vars_scheme \<Rightarrow> 'z upgrade_vars_scheme" where
  "observe_plain credential_commands harmless_commands client_hello_observed event u =
    (let command = ev_command event in
     if pe_kind event = SK_STARTTLS then add_frame event (u\<lparr>uv_accepted := True\<rparr>)
     else if pe_kind event = SK_UNEXPECTED then
       (if uv_accepted u \<and> \<not> client_hello_observed
        then add_frame event (u\<lparr>uv_violation := True\<rparr>) else u)
     else if pe_kind event = SK_REQUEST \<and> command \<in> set credential_commands then
       (let u = add_frame event u in
        if uv_accepted u \<and> \<not> client_hello_observed then u\<lparr>uv_violation := True\<rparr>
        else if \<not> uv_accepted u then u\<lparr>uv_plaintext_fallback := True\<rparr>
        else u)
     else if pe_kind event = SK_REQUEST \<and> command \<notin> set harmless_commands
             \<and> uv_accepted u \<and> \<not> client_hello_observed then
       add_frame event (u\<lparr>uv_violation := True\<rparr>)
     else u)"

text \<open>After the loop: the ClientHello frames, the verdict and the sorted frames. The guard that turns
  \<open>TLS_ESTABLISHED\<close> back into \<open>ACCEPTED\<close> is kept as the code has it.\<close>

definition finish_upgrade :: "bool \<Rightarrow> nat list \<Rightarrow> 'z upgrade_vars_scheme \<Rightarrow> explicit_upgrade" where
  "finish_upgrade client_hello_observed client_hello_frames u =
    (let frames = if uv_accepted u \<and> client_hello_observed
           then foldl (\<lambda>fs f. if f \<in> set fs then fs else fs @ [f]) (uv_frames u) client_hello_frames
           else uv_frames u;
         downgrade_consistent = uv_saw_capability_exchange u \<and> \<not> uv_advertised u
           \<and> uv_requested u \<and> uv_accepted u;
         state = if uv_violation u then Some US_VIOLATION
           else if uv_plaintext_fallback u then Some US_PLAINTEXT_FALLBACK
           else if uv_accepted u \<and> client_hello_observed then Some US_TLS_ESTABLISHED
           else if uv_accepted u then Some US_ACCEPTED
           else if uv_requested u then Some US_REQUESTED
           else if uv_advertised u then Some US_ADVERTISED
           else None;
         state = if state = Some US_TLS_ESTABLISHED \<and> \<not> client_hello_observed
           then Some US_ACCEPTED else state
     in \<lparr>eu_state = state,
         eu_evidence_state = (if state \<noteq> None then ES_OBSERVED else ES_NOT_OBSERVABLE),
         eu_evidence_frames = sort frames,
         eu_downgrade_consistent = downgrade_consistent\<rparr>)"

section \<open>SMTP\<close>

definition smtp_capability_commands :: "string list" where
  "smtp_capability_commands = [''EHLO'', ''HELO'', ''LHLO'']"

definition smtp_credential_commands :: "string list" where
  "smtp_credential_commands = [''AUTH'']"

definition smtp_harmless_commands :: "string list" where
  "smtp_harmless_commands =
     [''EHLO'', ''HELO'', ''LHLO'', ''STARTTLS'', ''QUIT'', ''NOOP'', ''RSET'', ''HELP'']"

definition is_starttls_advertisement :: "protocol_event \<Rightarrow> bool" where
  "is_starttls_advertisement event =
    (if pe_kind event = SK_CAPABILITY \<and> ''STARTTLS'' \<in> set (py_split_ws (ev_text event)) then True
     else if pe_kind event = SK_REPLY \<and> ''STARTTLS'' \<in> set (py_split_ws (ev_text event)) then True
     else ev_command event = ''STARTTLS'' \<and> pe_kind event = SK_REPLY \<and> pe_reply_code event = Some 250)"

definition is_capability_reply :: "protocol_event \<Rightarrow> bool" where
  "is_capability_reply event =
    (if pe_kind event = SK_REPLY \<and> ev_command event \<in> set smtp_capability_commands then True
     else pe_kind event = SK_CAPABILITY)"

text \<open>The loop body, in two parts: what is noted of capabilities, and the rest of the body.\<close>

definition smtp_capabilities :: "protocol_event \<Rightarrow> upgrade_vars \<Rightarrow> upgrade_vars" where
  "smtp_capabilities event u =
    (let u = if is_capability_reply event then u\<lparr>uv_saw_capability_exchange := True\<rparr> else u
     in if is_starttls_advertisement event then add_frame event (u\<lparr>uv_advertised := True\<rparr>) else u)"

definition smtp_step :: "bool \<Rightarrow> protocol_event \<Rightarrow> upgrade_vars \<Rightarrow> upgrade_vars" where
  "smtp_step client_hello_observed event u =
    (let u = smtp_capabilities event u
     in if pe_kind event = SK_REQUEST \<and> ev_command event = ''STARTTLS'' then
          add_frame event (u\<lparr>uv_requested := True, uv_awaiting_reply := True\<rparr>)
        else if uv_awaiting_reply u \<and> pe_kind event = SK_REPLY then
          (let u = (case pe_reply_code event of
                      None \<Rightarrow> u
                    | Some code \<Rightarrow>
                        if 200 \<le> code \<and> code < 300 then add_frame event (u\<lparr>uv_accepted := True\<rparr>)
                        else if 400 \<le> code then add_frame event u
                        else u)
           in u\<lparr>uv_awaiting_reply := False\<rparr>)
        else observe_plain smtp_credential_commands smtp_harmless_commands client_hello_observed event u)"

definition smtp_upgrade :: "protocol_event list \<Rightarrow> bool \<Rightarrow> nat list \<Rightarrow> explicit_upgrade" where
  "smtp_upgrade events client_hello_observed client_hello_frames =
     finish_upgrade client_hello_observed client_hello_frames
       (fold (smtp_step client_hello_observed) events upgrade_init)"

section \<open>IMAP\<close>

definition imap_credential_commands :: "string list" where
  "imap_credential_commands = [''LOGIN'', ''AUTHENTICATE'']"

definition imap_harmless_commands :: "string list" where
  "imap_harmless_commands = [''CAPABILITY'', ''STARTTLS'', ''LOGOUT'', ''NOOP'', ''ID'']"

definition tokens :: "protocol_event \<Rightarrow> string list" where
  "tokens event = py_split_ws (py_replace_char (CHR '','') (CHR '' '') (ev_text event))"

definition imap_is_ok :: "protocol_event \<Rightarrow> bool" where
  "imap_is_ok event = (ev_text event = ''OK'' \<or> py_startswith (ev_text event) ''OK '')"

definition is_no_or_bad :: "protocol_event \<Rightarrow> bool" where
  "is_no_or_bad event = (py_startswith (ev_text event) ''NO'' \<or> py_startswith (ev_text event) ''BAD'')"

definition imap_capabilities :: "protocol_event \<Rightarrow> imap_vars \<Rightarrow> imap_vars" where
  "imap_capabilities event u =
    (let u = if pe_kind event = SK_CAPABILITY \<or>
                (pe_kind event = SK_REQUEST \<and> ev_command event = ''CAPABILITY'')
             then u\<lparr>uv_saw_capability_exchange := True\<rparr> else u;
         u = if pe_kind event = SK_CAPABILITY \<and> ''STARTTLS'' \<in> set (tokens event)
             then add_frame event (u\<lparr>uv_advertised := True\<rparr>) else u
     in if pe_kind event = SK_REPLY \<and> ''STARTTLS'' \<in> set (tokens event)
        then add_frame event (u\<lparr>uv_advertised := True, uv_saw_capability_exchange := True\<rparr>) else u)"

definition imap_step :: "bool \<Rightarrow> protocol_event \<Rightarrow> imap_vars \<Rightarrow> imap_vars" where
  "imap_step client_hello_observed event u =
    (let u = imap_capabilities event u
     in if pe_kind event = SK_REQUEST \<and> ev_command event = ''STARTTLS'' then
          add_frame event (u\<lparr>uv_requested := True, iv_pending_tag := pe_tag event,
                             uv_awaiting_reply := True\<rparr>)
        else if uv_awaiting_reply u \<and> pe_kind event = SK_REPLY then
          (let tag_matches = iv_pending_tag u = None \<or> pe_tag event = None
                 \<or> pe_tag event = iv_pending_tag u
           in if tag_matches \<and> imap_is_ok event then
                add_frame event (u\<lparr>uv_accepted := True, iv_pending_tag := None,
                                   uv_awaiting_reply := False\<rparr>)
              else if tag_matches \<and> is_no_or_bad event then
                add_frame event (u\<lparr>iv_pending_tag := None, uv_awaiting_reply := False\<rparr>)
              else u)
        else observe_plain imap_credential_commands imap_harmless_commands client_hello_observed event u)"

definition imap_upgrade :: "protocol_event list \<Rightarrow> bool \<Rightarrow> nat list \<Rightarrow> explicit_upgrade" where
  "imap_upgrade events client_hello_observed client_hello_frames =
     finish_upgrade client_hello_observed client_hello_frames
       (fold (imap_step client_hello_observed) events imap_init)"

section \<open>POP3\<close>

definition pop3_credential_commands :: "string list" where
  "pop3_credential_commands = [''USER'', ''PASS'', ''APOP'', ''AUTH'']"

definition pop3_harmless_commands :: "string list" where
  "pop3_harmless_commands = [''CAPA'', ''STLS'', ''QUIT'', ''NOOP'']"

definition pop3_is_ok :: "protocol_event \<Rightarrow> bool" where
  "pop3_is_ok event = (py_startswith (ev_text event) ''+OK'' \<or> py_startswith (ev_text event) ''OK'')"

definition pop3_is_err :: "protocol_event \<Rightarrow> bool" where
  "pop3_is_err event = (py_startswith (ev_text event) ''-ERR'' \<or> py_startswith (ev_text event) ''ERR'')"

definition pop3_capabilities :: "protocol_event \<Rightarrow> upgrade_vars \<Rightarrow> upgrade_vars" where
  "pop3_capabilities event u =
    (let u = if pe_kind event = SK_REQUEST \<and> ev_command event = ''CAPA''
             then u\<lparr>uv_saw_capability_exchange := True\<rparr> else u;
         u = if pe_kind event = SK_CAPABILITY then
               (let u = u\<lparr>uv_saw_capability_exchange := True\<rparr> in
                if ''STLS'' \<in> set (tokens event) \<or> ev_command event = ''STLS''
                then add_frame event (u\<lparr>uv_advertised := True\<rparr>) else u)
             else u
     in if pe_kind event = SK_REPLY \<and> ''STLS'' \<in> set (tokens event)
        then add_frame event (u\<lparr>uv_advertised := True, uv_saw_capability_exchange := True\<rparr>) else u)"

definition pop3_step :: "bool \<Rightarrow> protocol_event \<Rightarrow> upgrade_vars \<Rightarrow> upgrade_vars" where
  "pop3_step client_hello_observed event u =
    (let u = pop3_capabilities event u
     in if pe_kind event = SK_REQUEST \<and> ev_command event = ''STLS'' then
          add_frame event (u\<lparr>uv_requested := True, uv_awaiting_reply := True\<rparr>)
        else if uv_awaiting_reply u \<and> pe_kind event = SK_REPLY then
          (let u = (if pop3_is_ok event then add_frame event (u\<lparr>uv_accepted := True\<rparr>)
                    else if pop3_is_err event then add_frame event u
                    else u)
           in u\<lparr>uv_awaiting_reply := False\<rparr>)
        else observe_plain pop3_credential_commands pop3_harmless_commands client_hello_observed event u)"

definition pop3_upgrade :: "protocol_event list \<Rightarrow> bool \<Rightarrow> nat list \<Rightarrow> explicit_upgrade" where
  "pop3_upgrade events client_hello_observed client_hello_frames =
     finish_upgrade client_hello_observed client_hello_frames
       (fold (pop3_step client_hello_observed) events upgrade_init)"

section \<open>Implicit TLS\<close>

definition implicit_tls_ports :: "nat list" where
  "implicit_tls_ports = [465, 993, 995]"

definition protocol_from_alpn :: "string option \<Rightarrow> mail_protocol option" where
  "protocol_from_alpn negotiated_alpn =
     (case negotiated_alpn of
        None \<Rightarrow> None
      | Some alpn \<Rightarrow> map_of [(''smtp'', MP_SMTP), (''imap'', MP_IMAP), (''pop3'', MP_POP3)]
                      (py_lower (py_strip alpn)))"

definition correlate_implicit_tls :: "nat \<Rightarrow> bool \<Rightarrow> string option \<Rightarrow> nat list \<Rightarrow> implicit_tls" where
  "correlate_implicit_tls responder_port tls_on_connection negotiated_alpn alpn_frames =
    (let frames = sort (remdups (filter (\<lambda>f. 1 \<le> f) alpn_frames));
         selected = protocol_from_alpn negotiated_alpn
     in if selected \<noteq> None \<and> tls_on_connection then
          \<lparr>it_correlated_protocol = selected, it_evidence_state = ES_OBSERVED,
           it_source = Some ''alpn'', it_evidence_frames = frames\<rparr>
        else if responder_port \<in> set implicit_tls_ports \<and> tls_on_connection then
          \<lparr>it_correlated_protocol = None, it_evidence_state = ES_INDETERMINATE,
           it_source = Some ''none'', it_evidence_frames = frames\<rparr>
        else if responder_port \<in> set implicit_tls_ports then
          \<lparr>it_correlated_protocol = None, it_evidence_state = ES_INDETERMINATE,
           it_source = Some ''none'', it_evidence_frames = []\<rparr>
        else
          \<lparr>it_correlated_protocol = None, it_evidence_state = ES_NOT_OBSERVABLE,
           it_source = None, it_evidence_frames = []\<rparr>)"

section \<open>Assessing a session (normalize\_sessions.py)\<close>

record ssl_facts =
  sf_client_hello :: bool
  sf_next_protocol :: "string option"

definition client_hello_seen :: "ssl_facts option \<Rightarrow> nat list \<Rightarrow> bool" where
  "client_hello_seen ssl hello_frames =
     (hello_frames \<noteq> [] \<or> (case ssl of None \<Rightarrow> False | Some s \<Rightarrow> sf_client_hello s))"

text \<open>The dispatch on the session's protocol.\<close>

fun protocol_upgrade :: "mail_protocol \<Rightarrow> protocol_event list \<Rightarrow> bool \<Rightarrow> nat list \<Rightarrow> explicit_upgrade" where
  "protocol_upgrade MP_SMTP events client_hello frames = smtp_upgrade events client_hello frames"
| "protocol_upgrade MP_IMAP events client_hello frames = imap_upgrade events client_hello frames"
| "protocol_upgrade MP_POP3 events client_hello frames = pop3_upgrade events client_hello frames"

definition assess_session :: "email_session \<Rightarrow> flow \<Rightarrow> ssl_facts option \<Rightarrow> nat list \<Rightarrow> email_session" where
  "assess_session session flow ssl hello_frames =
    (let client_hello = client_hello_seen ssl hello_frames;
         upgrade = (case es_protocol session of
             Some p \<Rightarrow> protocol_upgrade p (es_events session) client_hello hello_frames
           | None \<Rightarrow> \<lparr>eu_state = None, eu_evidence_state = ES_NOT_OBSERVABLE,
                      eu_evidence_frames = [], eu_downgrade_consistent = False\<rparr>);
         implicit = correlate_implicit_tls (fe_port (fl_resp flow))
             (ssl \<noteq> None \<or> hello_frames \<noteq> [])
             (case ssl of None \<Rightarrow> None | Some s \<Rightarrow> sf_next_protocol s)
             (case ssl of None \<Rightarrow> []
              | Some s \<Rightarrow> if protocol_from_alpn (sf_next_protocol s) \<noteq> None then hello_frames else [])
     in session\<lparr>es_explicit_upgrade := Some upgrade, es_implicit_tls := Some implicit\<rparr>)"

section \<open>The contract of an upgrade machine\<close>

text \<open>What counts, in a trace, as an upgrade the server agreed to: an analyzer confirmation of the
  switch, or a positive reply some time after an upgrade request.\<close>

definition upgrade_evidenced ::
    "(protocol_event \<Rightarrow> bool) \<Rightarrow> (protocol_event \<Rightarrow> bool) \<Rightarrow> protocol_event list \<Rightarrow> bool" where
  "upgrade_evidenced is_request is_positive events =
     ((\<exists>e \<in> set events. pe_kind e = SK_STARTTLS) \<or>
      (\<exists>pre r mid a post. events = pre @ r # mid @ a # post \<and> is_request r \<and> is_positive a))"

lemma upgrade_evidenced_append: "upgrade_evidenced p q xs \<Longrightarrow> upgrade_evidenced p q (xs @ ys)"
  unfolding upgrade_evidenced_def by fastforce

lemma upgrade_evidenced_reply:
  assumes "r \<in> set xs" and "p r" and "q a"
  shows "upgrade_evidenced p q (xs @ [a])"
proof -
  obtain pre mid where "xs = pre @ r # mid" using assms(1) by (auto simp: in_set_conv_decomp)
  then have "xs @ [a] = pre @ r # mid @ a # []" by simp
  with assms(2,3) show ?thesis unfolding upgrade_evidenced_def by blast
qed

lemma append_new_distinct:
  "distinct fs \<Longrightarrow> distinct (foldl (\<lambda>fs f. if f \<in> set fs then fs else fs @ [f]) fs gs)"
  by (induction gs arbitrary: fs) auto

lemma append_new_set:
  "set (foldl (\<lambda>fs f. if f \<in> set fs then fs else fs @ [f]) fs gs) = set fs \<union> set gs"
  by (induction gs arbitrary: fs) auto

lemma add_frame_flags [simp]:
  "uv_advertised (add_frame e u) = uv_advertised u"
  "uv_requested (add_frame e u) = uv_requested u"
  "uv_accepted (add_frame e u) = uv_accepted u"
  "uv_saw_capability_exchange (add_frame e u) = uv_saw_capability_exchange u"
  "uv_violation (add_frame e u) = uv_violation u"
  "uv_plaintext_fallback (add_frame e u) = uv_plaintext_fallback u"
  "uv_awaiting_reply (add_frame e u) = uv_awaiting_reply u"
  by (simp_all add: add_frame_def split: option.split)

lemma add_frame_distinct [intro, simp]:
  "distinct (uv_frames u) \<Longrightarrow> distinct (uv_frames (add_frame e u))"
  by (simp add: add_frame_def split: option.split)

lemma add_frame_set [simp]:
  "set (uv_frames (add_frame e u)) = set (uv_frames u) \<union> set (opt_list (pe_frame_number e))"
  by (auto simp: add_frame_def split: option.split)

lemma observe_plain_flags [simp]:
  "uv_requested (observe_plain cs hs ch e u) = uv_requested u"
  "uv_awaiting_reply (observe_plain cs hs ch e u) = uv_awaiting_reply u"
  "uv_advertised (observe_plain cs hs ch e u) = uv_advertised u"
  "uv_saw_capability_exchange (observe_plain cs hs ch e u) = uv_saw_capability_exchange u"
  "uv_accepted (observe_plain cs hs ch e u) = (uv_accepted u \<or> pe_kind e = SK_STARTTLS)"
  by (simp_all add: observe_plain_def Let_def)

lemma observe_plain_violation:
  "uv_violation (observe_plain cs hs ch e u) \<Longrightarrow> uv_violation u \<or> (uv_accepted u \<and> \<not> ch)"
  by (auto simp: observe_plain_def Let_def split: if_splits)

lemma observe_plain_fallback [simp]:
  "uv_plaintext_fallback (observe_plain cs hs ch e u) =
     (uv_plaintext_fallback u \<or> (\<not> uv_accepted u \<and> pe_kind e = SK_REQUEST \<and> ev_command e \<in> set cs))"
  by (auto simp: observe_plain_def Let_def)

lemma observe_plain_distinct [simp]:
  "distinct (uv_frames u) \<Longrightarrow> distinct (uv_frames (observe_plain cs hs ch e u))"
  by (simp add: observe_plain_def Let_def)

lemma observe_plain_frames:
  "set (uv_frames (observe_plain cs hs ch e u)) \<subseteq> set (uv_frames u) \<union> set (opt_list (pe_frame_number e))"
  by (auto simp: observe_plain_def Let_def)

locale upgrade_machine =
  fixes step :: "bool \<Rightarrow> protocol_event \<Rightarrow> 'z upgrade_vars_scheme \<Rightarrow> 'z upgrade_vars_scheme"
    and init :: "'z upgrade_vars_scheme"
    and is_request is_positive is_credential :: "protocol_event \<Rightarrow> bool"
  assumes init_vars: "upgrade_vars.truncate init = upgrade_init"
    and requested_step: "uv_requested (step ch e u) = (uv_requested u \<or> is_request e)"
    and awaiting_step: "uv_awaiting_reply (step ch e u) \<Longrightarrow> uv_awaiting_reply u \<or> is_request e"
    and accepted_mono: "uv_accepted u \<Longrightarrow> uv_accepted (step ch e u)"
    and accepted_step: "uv_accepted (step ch e u) \<Longrightarrow>
      uv_accepted u \<or> pe_kind e = SK_STARTTLS \<or> (uv_awaiting_reply u \<and> is_positive e)"
    and violation_step: "uv_violation (step ch e u) \<Longrightarrow> uv_violation u \<or> (uv_accepted u \<and> \<not> ch)"
    and fallback_step: "uv_plaintext_fallback (step ch e u) =
      (uv_plaintext_fallback u \<or> (\<not> uv_accepted u \<and> is_credential e))"
    and frames_distinct_step: "distinct (uv_frames u) \<Longrightarrow> distinct (uv_frames (step ch e u))"
    and frames_step: "set (uv_frames (step ch e u)) \<subseteq>
      set (uv_frames u) \<union> set (opt_list (pe_frame_number e))"
begin

lemma init_simps:
  "\<not> uv_requested init" "\<not> uv_accepted init" "\<not> uv_violation init" "\<not> uv_plaintext_fallback init"
  "\<not> uv_awaiting_reply init" "uv_frames init = []"
  using init_vars by (simp_all add: upgrade_init_def upgrade_vars.truncate_def)

lemma run_requested: "uv_requested (fold (step ch) events init) \<longleftrightarrow> (\<exists>r \<in> set events. is_request r)"
  by (induction events rule: rev_induct) (auto simp: init_simps requested_step)

lemma run_awaiting: "uv_awaiting_reply (fold (step ch) events init) \<Longrightarrow> \<exists>r \<in> set events. is_request r"
  by (induction events rule: rev_induct) (auto simp: init_simps dest: awaiting_step)

lemma run_accepted:
  "uv_accepted (fold (step ch) events init) \<Longrightarrow> upgrade_evidenced is_request is_positive events"
proof (induction events rule: rev_induct)
  case Nil
  then show ?case by (simp add: init_simps)
next
  case (snoc e events)
  let ?u = "fold (step ch) events init"
  from snoc.prems consider "uv_accepted ?u" | "pe_kind e = SK_STARTTLS"
    | "uv_awaiting_reply ?u" "is_positive e"
    using accepted_step by force
  then show ?case
  proof cases
    case 1
    then show ?thesis using snoc.IH upgrade_evidenced_append by blast
  next
    case 2
    then show ?thesis by (simp add: upgrade_evidenced_def)
  next
    case 3
    then show ?thesis using run_awaiting upgrade_evidenced_reply by blast
  qed
qed

lemma run_accepted_mono:
  "uv_accepted (fold (step ch) pre init) \<Longrightarrow> uv_accepted (fold (step ch) (pre @ post) init)"
  by (induction post rule: rev_induct) (auto simp: accepted_mono simp flip: append_assoc)

lemma run_violation:
  "uv_violation (fold (step ch) events init) \<Longrightarrow> \<not> ch \<and> uv_accepted (fold (step ch) events init)"
  by (induction events rule: rev_induct) (auto simp: init_simps accepted_mono dest!: violation_step)

lemma run_fallback:
  "uv_plaintext_fallback (fold (step ch) events init) \<longleftrightarrow>
     (\<exists>pre e post. events = pre @ e # post \<and> is_credential e \<and> \<not> uv_accepted (fold (step ch) pre init))"
proof (induction events rule: rev_induct)
  case Nil
  then show ?case by (simp add: init_simps)
next
  case (snoc x xs)
  show ?case
    by (simp only: snoc_split_ex fold_append comp_def fold.simps id_apply fallback_step snoc.IH) blast
qed

lemma run_frames:
  "distinct (uv_frames (fold (step ch) events init))
   \<and> set (uv_frames (fold (step ch) events init)) \<subseteq> (\<Union>e \<in> set events. set (opt_list (pe_frame_number e)))"
  by (induction events rule: rev_induct)
     (use frames_step in \<open>auto simp: init_simps frames_distinct_step, blast\<close>)

lemma machine_established:
  assumes "eu_state (finish_upgrade ch frames (fold (step ch) events init)) = Some US_TLS_ESTABLISHED"
  shows "ch \<and> upgrade_evidenced is_request is_positive events
    \<and> \<not> (\<exists>pre e post. events = pre @ e # post \<and> is_credential e
           \<and> \<not> upgrade_evidenced is_request is_positive pre)"
proof -
  let ?u = "fold (step ch) events init"
  have flags: "ch" "uv_accepted ?u" "\<not> uv_plaintext_fallback ?u"
    using assms by (auto simp: finish_upgrade_def Let_def split: if_splits)
  moreover have "\<not> (\<exists>pre e post. events = pre @ e # post \<and> is_credential e
      \<and> \<not> upgrade_evidenced is_request is_positive pre)"
    using flags(3) run_fallback run_accepted by blast
  ultimately show ?thesis using run_accepted by blast
qed

lemma machine_violation:
  assumes "eu_state (finish_upgrade ch frames (fold (step ch) events init)) = Some US_VIOLATION"
  shows "\<not> ch" and "upgrade_evidenced is_request is_positive events"
proof -
  have "uv_violation (fold (step ch) events init)"
    using assms by (auto simp: finish_upgrade_def Let_def split: if_splits)
  then show "\<not> ch" "upgrade_evidenced is_request is_positive events"
    using run_violation run_accepted by blast+
qed

lemma machine_fallback:
  assumes "pre @ e # post = events" and "is_credential e"
    and "\<not> upgrade_evidenced is_request is_positive pre"
  shows "eu_state (finish_upgrade ch frames (fold (step ch) events init))
    \<in> {Some US_PLAINTEXT_FALLBACK, Some US_VIOLATION}"
proof -
  have "uv_plaintext_fallback (fold (step ch) events init)"
    using assms run_accepted unfolding run_fallback by blast
  then show ?thesis by (simp add: finish_upgrade_def Let_def)
qed

lemma machine_frames:
  defines "r \<equiv> \<lambda>ch frames events. finish_upgrade ch frames (fold (step ch) events init)"
  shows "sorted (eu_evidence_frames (r ch frames events))"
    and "distinct (eu_evidence_frames (r ch frames events))"
    and "set (eu_evidence_frames (r ch frames events)) \<subseteq>
      (\<Union>e \<in> set events. set (opt_list (pe_frame_number e))) \<union> set frames"
  using run_frames [of ch events]
  by (auto simp: r_def finish_upgrade_def Let_def append_new_distinct append_new_set)

end

section \<open>The three machines keep the contract\<close>

fun upgrade_request :: "mail_protocol \<Rightarrow> protocol_event \<Rightarrow> bool" where
  "upgrade_request MP_POP3 e = (pe_kind e = SK_REQUEST \<and> ev_command e = ''STLS'')"
| "upgrade_request _ e = (pe_kind e = SK_REQUEST \<and> ev_command e = ''STARTTLS'')"

fun positive_reply :: "mail_protocol \<Rightarrow> protocol_event \<Rightarrow> bool" where
  "positive_reply MP_SMTP e = (pe_kind e = SK_REPLY \<and>
     (case pe_reply_code e of None \<Rightarrow> False | Some c \<Rightarrow> 200 \<le> c \<and> c < 300))"
| "positive_reply MP_IMAP e = (pe_kind e = SK_REPLY \<and> imap_is_ok e)"
| "positive_reply MP_POP3 e = (pe_kind e = SK_REPLY \<and> pop3_is_ok e)"

fun sends_credentials :: "mail_protocol \<Rightarrow> protocol_event \<Rightarrow> bool" where
  "sends_credentials MP_SMTP e = (pe_kind e = SK_REQUEST \<and> ev_command e \<in> set smtp_credential_commands)"
| "sends_credentials MP_IMAP e = (pe_kind e = SK_REQUEST \<and> ev_command e \<in> set imap_credential_commands)"
| "sends_credentials MP_POP3 e = (pe_kind e = SK_REQUEST \<and> ev_command e \<in> set pop3_credential_commands)"

lemma credential_not_upgrade:
  "''STARTTLS'' \<notin> set smtp_credential_commands" "''STARTTLS'' \<notin> set imap_credential_commands"
  "''STLS'' \<notin> set pop3_credential_commands"
  by (simp_all add: smtp_credential_commands_def imap_credential_commands_def pop3_credential_commands_def)

lemma smtp_capabilities_flags [simp]:
  "uv_requested (smtp_capabilities e u) = uv_requested u"
  "uv_accepted (smtp_capabilities e u) = uv_accepted u"
  "uv_violation (smtp_capabilities e u) = uv_violation u"
  "uv_plaintext_fallback (smtp_capabilities e u) = uv_plaintext_fallback u"
  "uv_awaiting_reply (smtp_capabilities e u) = uv_awaiting_reply u"
  "distinct (uv_frames u) \<Longrightarrow> distinct (uv_frames (smtp_capabilities e u))"
  by (simp_all add: smtp_capabilities_def Let_def)

lemma smtp_capabilities_frames:
  "set (uv_frames (smtp_capabilities e u)) \<subseteq> set (uv_frames u) \<union> set (opt_list (pe_frame_number e))"
  by (auto simp: smtp_capabilities_def Let_def)

lemma imap_capabilities_flags [simp]:
  "uv_requested (imap_capabilities e u) = uv_requested u"
  "uv_accepted (imap_capabilities e u) = uv_accepted u"
  "uv_violation (imap_capabilities e u) = uv_violation u"
  "uv_plaintext_fallback (imap_capabilities e u) = uv_plaintext_fallback u"
  "uv_awaiting_reply (imap_capabilities e u) = uv_awaiting_reply u"
  "distinct (uv_frames u) \<Longrightarrow> distinct (uv_frames (imap_capabilities e u))"
  by (simp_all add: imap_capabilities_def Let_def)

lemma imap_capabilities_frames:
  "set (uv_frames (imap_capabilities e u)) \<subseteq> set (uv_frames u) \<union> set (opt_list (pe_frame_number e))"
  by (auto simp: imap_capabilities_def Let_def)

lemma pop3_capabilities_flags [simp]:
  "uv_requested (pop3_capabilities e u) = uv_requested u"
  "uv_accepted (pop3_capabilities e u) = uv_accepted u"
  "uv_violation (pop3_capabilities e u) = uv_violation u"
  "uv_plaintext_fallback (pop3_capabilities e u) = uv_plaintext_fallback u"
  "uv_awaiting_reply (pop3_capabilities e u) = uv_awaiting_reply u"
  "distinct (uv_frames u) \<Longrightarrow> distinct (uv_frames (pop3_capabilities e u))"
  by (simp_all add: pop3_capabilities_def Let_def)

lemma pop3_capabilities_frames:
  "set (uv_frames (pop3_capabilities e u)) \<subseteq> set (uv_frames u) \<union> set (opt_list (pe_frame_number e))"
  by (auto simp: pop3_capabilities_def Let_def)

lemmas step_laws = smtp_step_def imap_step_def pop3_step_def Let_def upgrade_vars.truncate_def
  imap_init_def upgrade_init_def upgrade_vars.extend_def imap_vars.fields_def

lemmas frame_bounds = subsetD [OF observe_plain_frames] subsetD [OF smtp_capabilities_frames]
  subsetD [OF imap_capabilities_frames] subsetD [OF pop3_capabilities_frames]

interpretation smtp: upgrade_machine smtp_step upgrade_init "upgrade_request MP_SMTP"
  "positive_reply MP_SMTP" "sends_credentials MP_SMTP"
  using credential_not_upgrade
  by unfold_locales
     (auto simp: step_laws split: option.splits if_splits dest!: observe_plain_violation frame_bounds)

interpretation imap: upgrade_machine imap_step imap_init "upgrade_request MP_IMAP"
  "positive_reply MP_IMAP" "sends_credentials MP_IMAP"
  using credential_not_upgrade
  by unfold_locales
     (auto simp: step_laws split: if_splits dest!: observe_plain_violation frame_bounds)

interpretation pop3: upgrade_machine pop3_step upgrade_init "upgrade_request MP_POP3"
  "positive_reply MP_POP3" "sends_credentials MP_POP3"
  using credential_not_upgrade
  by unfold_locales
     (auto simp: step_laws split: if_splits dest!: observe_plain_violation frame_bounds)

lemmas upgrade_unfold = protocol_upgrade.simps smtp_upgrade_def imap_upgrade_def pop3_upgrade_def

lemma upgrade_established:
  assumes "eu_state (protocol_upgrade p events ch frames) = Some US_TLS_ESTABLISHED"
  shows "ch \<and> upgrade_evidenced (upgrade_request p) (positive_reply p) events
    \<and> \<not> (\<exists>pre e post. events = pre @ e # post \<and> sends_credentials p e
           \<and> \<not> upgrade_evidenced (upgrade_request p) (positive_reply p) pre)"
  using assms
  by (cases p; simp only: upgrade_unfold)
     (rule smtp.machine_established imap.machine_established pop3.machine_established, assumption)+

lemma upgrade_violation:
  assumes "eu_state (protocol_upgrade p events ch frames) = Some US_VIOLATION"
  shows "\<not> ch \<and> upgrade_evidenced (upgrade_request p) (positive_reply p) events"
  using assms smtp.machine_violation imap.machine_violation pop3.machine_violation
  by (cases p; simp only: upgrade_unfold) blast+

lemma upgrade_fallback:
  assumes "events = pre @ e # post" and "sends_credentials p e"
    and "\<not> upgrade_evidenced (upgrade_request p) (positive_reply p) pre"
  shows "eu_state (protocol_upgrade p events ch frames) \<in> {Some US_PLAINTEXT_FALLBACK, Some US_VIOLATION}"
  using assms(2,3) smtp.machine_fallback [OF assms(1) [symmetric]]
    imap.machine_fallback [OF assms(1) [symmetric]] pop3.machine_fallback [OF assms(1) [symmetric]]
  by (cases p; simp only: upgrade_unfold)

lemma upgrade_frames:
  "sorted (eu_evidence_frames (protocol_upgrade p events ch frames))
   \<and> distinct (eu_evidence_frames (protocol_upgrade p events ch frames))
   \<and> set (eu_evidence_frames (protocol_upgrade p events ch frames)) \<subseteq>
      (\<Union>e \<in> set events. set (opt_list (pe_frame_number e))) \<union> set frames"
  using smtp.machine_frames imap.machine_frames pop3.machine_frames
  by (cases p; simp only: upgrade_unfold)

lemma assess_explicit:
  "es_explicit_upgrade (assess_session session flow ssl hello) =
     Some (case es_protocol session of
         Some p \<Rightarrow> protocol_upgrade p (es_events session) (client_hello_seen ssl hello) hello
       | None \<Rightarrow> \<lparr>eu_state = None, eu_evidence_state = ES_NOT_OBSERVABLE,
                  eu_evidence_frames = [], eu_downgrade_consistent = False\<rparr>)"
  by (simp add: assess_session_def Let_def)

lemma run_advertised_smtp:
  "uv_advertised (fold (smtp_step ch) events u) =
     (uv_advertised u \<or> (\<exists>e \<in> set events. is_starttls_advertisement e))"
proof (induction events arbitrary: u)
  case (Cons e events)
  have "uv_advertised (smtp_step ch e u) = (uv_advertised u \<or> is_starttls_advertisement e)"
    by (simp add: smtp_step_def smtp_capabilities_def Let_def split: option.split)
  then show ?case by (auto simp: Cons.IH)
qed simp

lemma run_capability_smtp:
  "uv_saw_capability_exchange (fold (smtp_step ch) events u) =
     (uv_saw_capability_exchange u \<or> (\<exists>e \<in> set events. is_capability_reply e))"
proof (induction events arbitrary: u)
  case (Cons e events)
  have "uv_saw_capability_exchange (smtp_step ch e u) =
      (uv_saw_capability_exchange u \<or> is_capability_reply e)"
    by (simp add: smtp_step_def smtp_capabilities_def Let_def split: option.split)
  then show ?case by (auto simp: Cons.IH)
qed simp

section \<open>Properties\<close>

text \<open>C1: TLS is never invented. A session assessed as \<open>TLS_ESTABLISHED\<close> has a mail protocol, an
  observed ClientHello, and a trace in which the analyzer confirmed the switch or a positive reply
  follows an upgrade request; and no credentials were sent at a point where the upgrade was not yet
  evidenced.\<close>

theorem assess_tls_established:
  assumes "es_explicit_upgrade (assess_session session flow ssl hello_frames) = Some eu"
    and "eu_state eu = Some US_TLS_ESTABLISHED"
  shows "client_hello_seen ssl hello_frames \<and>
    (\<exists>p. es_protocol session = Some p
       \<and> upgrade_evidenced (upgrade_request p) (positive_reply p) (es_events session)
       \<and> \<not> (\<exists>pre e post. es_events session = pre @ e # post \<and> sends_credentials p e
              \<and> \<not> upgrade_evidenced (upgrade_request p) (positive_reply p) pre))"
  using assms by (cases "es_protocol session") (auto simp: assess_explicit dest: upgrade_established)

definition sample_event :: "session_event_kind \<Rightarrow> string \<Rightarrow> nat \<Rightarrow> protocol_event" where
  "sample_event kind command frame = \<lparr>pe_direction = SD_ORIG, pe_kind = kind, pe_command = Some command,
     pe_argument = None, pe_reply_code = None, pe_text = None, pe_frame_number = Some frame,
     pe_source = Some SRC_ZEEK, pe_tag = None\<rparr>"

definition sample_session :: "mail_protocol \<Rightarrow> protocol_event list \<Rightarrow> email_session" where
  "sample_session p events = \<lparr>es_uid = ''C1'', es_protocol = Some p, es_port_hint = PH_SMTP,
     es_payload_evidence = PE_SMTP, es_evidence_state = ES_OBSERVED, es_identification_confidence = None,
     es_corroboration = ''zeek'', es_events = events, es_explicit_upgrade = None, es_implicit_tls = None\<rparr>"

definition upgraded_session :: email_session where
  "upgraded_session = sample_session MP_SMTP
     [sample_event SK_REQUEST ''STARTTLS'' 3, sample_event SK_STARTTLS ''STARTTLS'' 5]"

lemma ev_command_sample:
  "ev_command (sample_event k ''STARTTLS'' n) = ''STARTTLS''"
  "ev_command (sample_event k ''AUTH'' n) = ''AUTH''"
  "ev_command (sample_event k ''MAIL'' n) = ''MAIL''"
  "ev_command (sample_event k ''EHLO'' n) = ''EHLO''"
  by (simp_all add: ev_command_def sample_event_def py_upper_def or_str_def upper_char_def)

lemma ev_text_sample [simp]: "ev_text (sample_event k c n) = []"
  by (simp add: ev_text_def sample_event_def py_upper_def or_str_def)

lemmas sample_run = assess_explicit smtp_upgrade_def sample_session_def client_hello_seen_def smtp_step_def
  smtp_capabilities_def is_capability_reply_def is_starttls_advertisement_def
  smtp_capability_commands_def smtp_credential_commands_def smtp_harmless_commands_def
  upgrade_init_def finish_upgrade_def observe_plain_def add_frame_def ev_command_sample py_split_ws_def

lemma sample_event_fields [simp]:
  "pe_kind (sample_event k c n) = k"
  "pe_frame_number (sample_event k c n) = Some n"
  "pe_reply_code (sample_event k c n) = None"
  by (simp_all add: sample_event_def)

lemma upgraded_session_run:
  "es_explicit_upgrade (assess_session upgraded_session sample_flow None [7]) =
     Some \<lparr>eu_state = Some US_TLS_ESTABLISHED, eu_evidence_state = ES_OBSERVED,
           eu_evidence_frames = [3, 5, 7], eu_downgrade_consistent = False\<rparr>"
  by (simp add: upgraded_session_def sample_run)

theorem assess_tls_established_witness:
  "client_hello_seen None [7] \<and>
   (\<exists>p. es_protocol upgraded_session = Some p
      \<and> upgrade_evidenced (upgrade_request p) (positive_reply p) (es_events upgraded_session))"
  using assess_tls_established [OF upgraded_session_run] by auto

text \<open>A session is reported as a violation only when the server had agreed to the upgrade and no
  ClientHello was seen; with a ClientHello the outcome is never a violation.\<close>

theorem assess_violation:
  assumes "es_explicit_upgrade (assess_session session flow ssl hello_frames) = Some eu"
    and "eu_state eu = Some US_VIOLATION"
  shows "\<not> client_hello_seen ssl hello_frames \<and>
    (\<exists>p. es_protocol session = Some p
       \<and> upgrade_evidenced (upgrade_request p) (positive_reply p) (es_events session))"
  using assms by (cases "es_protocol session") (auto simp: assess_explicit dest: upgrade_violation)

definition violating_session :: email_session where
  "violating_session = sample_session MP_SMTP
     [sample_event SK_STARTTLS ''STARTTLS'' 5, sample_event SK_REQUEST ''MAIL'' 6]"

lemma violating_session_run:
  "es_explicit_upgrade (assess_session violating_session sample_flow None []) =
     Some \<lparr>eu_state = Some US_VIOLATION, eu_evidence_state = ES_OBSERVED,
           eu_evidence_frames = [5, 6], eu_downgrade_consistent = False\<rparr>"
  by (simp add: violating_session_def sample_run)

theorem assess_violation_witness:
  "\<not> client_hello_seen None [] \<and>
   (\<exists>p. es_protocol violating_session = Some p
      \<and> upgrade_evidenced (upgrade_request p) (positive_reply p) (es_events violating_session))"
  using assess_violation [OF violating_session_run] by auto


definition plaintext_session :: email_session where
  "plaintext_session = sample_session MP_SMTP
     [sample_event SK_REQUEST ''AUTH'' 2, sample_event SK_STARTTLS ''STARTTLS'' 5]"


text \<open>The evidence frames of an explicit upgrade are strictly increasing and every one of them is the
  frame of an event of the session or of a ClientHello; the evidence state is \<open>OBSERVED\<close> exactly when
  there is an upgrade state.\<close>

theorem assess_upgrade_frames:
  "\<exists>eu. es_explicit_upgrade (assess_session session flow ssl hello_frames) = Some eu
    \<and> sorted_wrt (<) (eu_evidence_frames eu)
    \<and> set (eu_evidence_frames eu) \<subseteq>
        {n. \<exists>e. e \<in> set (es_events session) \<and> pe_frame_number e = Some n} \<union> set hello_frames
    \<and> eu_evidence_state eu = (if eu_state eu = None then ES_NOT_OBSERVABLE else ES_OBSERVED)"
proof (cases "es_protocol session")
  case None
  then show ?thesis by (simp add: assess_explicit)
next
  case (Some p)
  let ?eu = "protocol_upgrade p (es_events session) (client_hello_seen ssl hello_frames) hello_frames"
  have "eu_evidence_state ?eu = (if eu_state ?eu = None then ES_NOT_OBSERVABLE else ES_OBSERVED)"
    by (cases p; simp only: upgrade_unfold) (simp_all add: finish_upgrade_def Let_def)
  moreover have "sorted_wrt (<) (eu_evidence_frames ?eu)"
    using upgrade_frames by (simp add: strict_sorted_iff)
  moreover have "set (eu_evidence_frames ?eu) \<subseteq>
      {n. \<exists>e. e \<in> set (es_events session) \<and> pe_frame_number e = Some n} \<union> set hello_frames"
    by (rule subset_trans [OF upgrade_frames [THEN conjunct2, THEN conjunct2]]) (auto simp: set_opt_list)
  ultimately show ?thesis by (simp add: assess_explicit Some)
qed

text \<open>\<open>downgrade_consistent\<close> for SMTP says exactly what its name promises: a capability exchange
  was seen, none of the events advertises STARTTLS, the client nevertheless requested it and the
  upgrade was accepted.\<close>

theorem smtp_downgrade_consistent:
  assumes "eu_downgrade_consistent (smtp_upgrade events client_hello hello_frames)"
  shows "(\<exists>e \<in> set events. is_capability_reply e) \<and> \<not> (\<exists>e \<in> set events. is_starttls_advertisement e)
    \<and> (\<exists>e \<in> set events. upgrade_request MP_SMTP e)
    \<and> upgrade_evidenced (upgrade_request MP_SMTP) (positive_reply MP_SMTP) events"
proof -
  let ?u = "fold (smtp_step client_hello) events upgrade_init"
  have "uv_saw_capability_exchange ?u" "\<not> uv_advertised ?u" "uv_requested ?u" "uv_accepted ?u"
    using assms by (simp_all add: smtp_upgrade_def finish_upgrade_def Let_def)
  then show ?thesis
    using run_capability_smtp [of client_hello events upgrade_init]
      run_advertised_smtp [of client_hello events upgrade_init]
      smtp.run_requested [of client_hello events] smtp.run_accepted [of client_hello events]
    by (simp add: upgrade_init_def)
qed

definition stripped_events :: "protocol_event list" where
  "stripped_events = [sample_event SK_REPLY ''EHLO'' 2, sample_event SK_REQUEST ''STARTTLS'' 3,
     sample_event SK_STARTTLS ''STARTTLS'' 5]"

theorem smtp_downgrade_consistent_witness:
  "(\<exists>e \<in> set stripped_events. is_capability_reply e)
   \<and> upgrade_evidenced (upgrade_request MP_SMTP) (positive_reply MP_SMTP) stripped_events"
proof -
  have "eu_downgrade_consistent (smtp_upgrade stripped_events True [7])"
    by (simp add: stripped_events_def sample_run)
  from smtp_downgrade_consistent [OF this] show ?thesis by blast
qed

definition error_reply_530 :: protocol_event where
  "error_reply_530 = \<lparr>pe_direction = SD_RESP, pe_kind = SK_REPLY, pe_command = Some ''MAIL'',
     pe_argument = None, pe_reply_code = Some 530, pe_text = Some ''MUST ISSUE A STARTTLS COMMAND FIRST'',
     pe_frame_number = Some 4, pe_source = Some SRC_ZEEK, pe_tag = None\<rparr>"

text \<open>The advertisement test also accepts the word in the text of any reply, an error reply included:
  the reply by which a server refuses a plaintext command makes STARTTLS count as advertised, so the
  same trace is no longer downgrade-consistent.\<close>

theorem smtp_error_reply_advertises:
  "is_starttls_advertisement error_reply_530
   \<and> eu_downgrade_consistent (smtp_upgrade stripped_events True [7])
   \<and> \<not> eu_downgrade_consistent (smtp_upgrade (error_reply_530 # stripped_events) True [7])"
proof -
  have adv: "is_starttls_advertisement error_reply_530"
    by (simp add: is_starttls_advertisement_def error_reply_530_def ev_text_def or_str_def py_upper_def
        upper_char_def py_split_ws_def is_space_def)
  moreover have "eu_downgrade_consistent (smtp_upgrade stripped_events True [7])"
    by (simp add: stripped_events_def sample_run)
  ultimately show ?thesis
    using run_advertised_smtp [of True "error_reply_530 # stripped_events" upgrade_init]
    by (simp add: smtp_upgrade_def finish_upgrade_def Let_def)
qed

text \<open>Implicit TLS is correlated by the selected ALPN only: a protocol is reported exactly when TLS
  was seen and the selected ALPN names it, so the port never decides; a TLS port without such an ALPN
  is indeterminate.\<close>

theorem implicit_tls_never_by_port:
  "it_correlated_protocol (correlate_implicit_tls port tls alpn frames) =
     (if tls then protocol_from_alpn alpn else None)
   \<and> (it_evidence_state (correlate_implicit_tls port tls alpn frames) = ES_OBSERVED \<longleftrightarrow>
        tls \<and> protocol_from_alpn alpn \<noteq> None)
   \<and> (it_evidence_state (correlate_implicit_tls port tls alpn frames) = ES_INDETERMINATE \<longleftrightarrow>
        port \<in> {465, 993, 995} \<and> \<not> (tls \<and> protocol_from_alpn alpn \<noteq> None))
   \<and> sorted (it_evidence_frames (correlate_implicit_tls port tls alpn frames))
   \<and> distinct (it_evidence_frames (correlate_implicit_tls port tls alpn frames))"
  by (auto simp: correlate_implicit_tls_def Let_def implicit_tls_ports_def)

end
