(* ===== verification/Tls.thy ===== *)
theory Tls
  imports Evidence
begin

text \<open>
  TLS policies (\<open>domain/policies/tls\<close>): the classification of the key exchange from observed
  handshake facts (\<open>key_exchange.py\<close>) and the forward-secrecy assessment of a normalized handshake
  (\<open>forward_secrecy.py\<close>). The keyword arguments of \<open>classify_key_exchange\<close> are the record
  \<open>kx_facts\<close>.

  Shown here: TLS 1.3 is never classified from the cipher suite; the suite-name grammar picks the
  longest matching key-exchange prefix, although the code takes the first in table order; and the
  exact conditions under which forward secrecy is reported present or absent, alone and composed with
  the classifier.
\<close>

section \<open>Key exchange (key\_exchange.py)\<close>

definition psk_ke :: nat where "psk_ke = 0"

definition psk_dhe_ke :: nat where "psk_dhe_ke = 1"

definition psk_mode_names :: "(nat, string) dict" where
  "psk_mode_names = [(psk_ke, ''psk_ke''), (psk_dhe_ke, ''psk_dhe_ke'')]"

definition tls12_kx_prefixes :: "(string \<times> string) list" where
  "tls12_kx_prefixes =
    [(''ECDHE_PSK'', ''ECDHE-PSK''), (''DHE_PSK'', ''DHE-PSK''), (''RSA_PSK'', ''RSA-PSK''),
     (''ECDHE'', ''ECDHE''), (''DHE'', ''DHE''), (''ECDH'', ''ECDH''), (''DH'', ''DH''),
     (''PSK'', ''PSK''), (''RSA'', ''RSA''), (''SRP_SHA'', ''SRP''), (''ECCPWD'', ''ECCPWD''),
     (''KRB5'', ''KRB5''), (''GOSTR341112_256'', ''GOST''), (''GOSTR341094'', ''GOST''),
     (''GOSTR341001'', ''GOST'')]"

record tls_parameter_index =
  tp_digest :: string
  tp_cipher_name_to_code :: "(string, string) dict"
  tp_cipher_code_to_name :: "(string, string) dict"
  tp_group_code_to_name :: "(nat, string) dict"
  tp_group_name_to_code :: "(string, nat) dict"

definition cipher_code :: "tls_parameter_index \<Rightarrow> string option \<Rightarrow> string option" where
  "cipher_code ix name =
     (case name of None \<Rightarrow> None
      | Some n \<Rightarrow> if truthy_str (map_of (tp_cipher_name_to_code ix) n)
          then map_of (tp_cipher_name_to_code ix) n
          else map_of (tp_cipher_name_to_code ix) (py_upper n))"

definition tp_group_name :: "tls_parameter_index \<Rightarrow> nat option \<Rightarrow> string option" where
  "tp_group_name ix code = Option.bind code (map_of (tp_group_code_to_name ix))"

definition tp_group_code :: "tls_parameter_index \<Rightarrow> string option \<Rightarrow> nat option" where
  "tp_group_code ix name =
     (case name of None \<Rightarrow> None
      | Some n \<Rightarrow> (case map_of (tp_group_name_to_code ix) n of
            Some code \<Rightarrow> Some code
          | None \<Rightarrow> map_option snd
              (find (\<lambda>(candidate, code). py_lower candidate = py_lower n) (tp_group_name_to_code ix))))"

definition empty_tls_parameter_index :: tls_parameter_index where
  "empty_tls_parameter_index = \<lparr>
     tp_digest = ''e3b0c44298fc1c149afbf4c8996fb92427ae41e4649b934ca495991b7852b855'',
     tp_cipher_name_to_code = [], tp_cipher_code_to_name = [], tp_group_code_to_name = [],
     tp_group_name_to_code = []\<rparr>"

record key_exchange_classification =
  kc_mechanism :: "string option"
  kc_evidence_state :: evidence_state
  kc_source_fields :: "string list"

definition mk_kc :: "string option \<Rightarrow> evidence_state \<Rightarrow> string list \<Rightarrow> key_exchange_classification" where
  "mk_kc m s f = \<lparr>kc_mechanism = m, kc_evidence_state = s, kc_source_fields = f\<rparr>"

definition psk_mode_name :: "nat \<Rightarrow> string option" where
  "psk_mode_name mode = map_of psk_mode_names mode"

record kx_facts =
  kf_negotiated_version :: "string option"
  kf_cipher_suite :: "string option"
  kf_server_key_share_group :: "nat option"
  kf_client_key_share_groups :: "nat list"
  kf_dh_param_size :: "nat option"
  kf_psk_key_exchange_modes :: "nat list"
  kf_curve :: "string option"
  kf_resumed :: bool
  kf_group_name :: "string option"

definition is_tls13 :: "string \<Rightarrow> bool" where
  "is_tls13 version =
     (let compact = py_remove_char (CHR ''.'') (py_remove_char (CHR '' '') (py_lower version))
      in compact \<in> {''tlsv13'', ''tls13'', ''tlsv1.3''})"

definition group_family :: "string option \<Rightarrow> nat option \<Rightarrow> string option \<Rightarrow> string option" where
  "group_family group_name group_code curve =
    (let label = py_lower (or_str group_name (or_str curve [])) in
     if py_substring ''mlkem'' label \<or> py_substring ''ml-kem'' label then Some ''(EC)DHE''
     else if py_startswith label ''ffdhe'' \<or> py_substring ''ffdhe'' label then Some ''DHE''
     else if label \<noteq> [] then Some ''ECDHE''
     else (case group_code of
             None \<Rightarrow> None
           | Some c \<Rightarrow> if 256 \<le> c \<and> c \<le> 260 then Some ''DHE''
                       else if 4585 \<le> c then Some ''(EC)DHE''
                       else Some ''ECDHE''))"

definition classify_tls13 :: "nat option \<Rightarrow> nat list \<Rightarrow> nat list \<Rightarrow> string option \<Rightarrow> bool \<Rightarrow> string option
    \<Rightarrow> key_exchange_classification" where
  "classify_tls13 server_group client_groups psk_modes curve resumed group_name =
    (let share_sources = (if server_group \<noteq> None then [''server_key_share_group'']
            else if truthy_str curve then [''curve''] else []);
         has_key_share = (server_group \<noteq> None \<or> truthy_str curve);
         family = group_family group_name server_group curve;
         psk_only_mode = (psk_ke \<in> set psk_modes \<and> psk_dhe_ke \<notin> set psk_modes);
         offers_dhe_psk = (psk_dhe_ke \<in> set psk_modes);
         sources = share_sources @ (if psk_modes \<noteq> [] then [''psk_key_exchange_modes''] else [])
            @ (if resumed then [''resumed''] else [])
     in if resumed \<and> has_key_share then mk_kc (Some ''PSK-(EC)DHE'') ES_OBSERVED sources
        else if resumed \<and> \<not> has_key_share then
          (if psk_only_mode \<or> \<not> offers_dhe_psk then mk_kc (Some ''PSK'') ES_INFERRED sources
           else mk_kc (Some ''PSK'') ES_INDETERMINATE sources)
        else if has_key_share then
          (case family of
             None \<Rightarrow> mk_kc (Some ''(EC)DHE'') ES_OBSERVED sources
           | Some f \<Rightarrow> mk_kc (Some f) ES_OBSERVED sources)
        else if client_groups \<noteq> [] then mk_kc None ES_INCOMPLETE [''client_key_share_groups'']
        else mk_kc None ES_INDETERMINATE sources)"

definition looks_like_tls13_suite :: "string \<Rightarrow> bool" where
  "looks_like_tls13_suite name =
    (if py_substring ''_WITH_'' name then False
     else py_startswith name ''TLS_AES_'' \<or> py_startswith name ''TLS_CHACHA20_''
       \<or> py_startswith name ''TLS_AEGIS_'')"

definition kx_prefix_matches :: "string \<Rightarrow> string \<Rightarrow> bool" where
  "kx_prefix_matches rest p = (rest = p \<or> py_startswith rest (p @ ''_''))"

definition tls12_mechanism_from_name :: "string \<Rightarrow> string option" where
  "tls12_mechanism_from_name name =
    (if \<not> py_startswith name ''TLS_'' then None
     else map_option snd
       (find (\<lambda>(p, mechanism). kx_prefix_matches (drop 4 name) p) tls12_kx_prefixes))"

definition classify_tls12 :: "string option \<Rightarrow> nat option \<Rightarrow> string option \<Rightarrow> key_exchange_classification" where
  "classify_tls12 cipher_suite dh_param_size curve =
    (case cipher_suite of
       None \<Rightarrow> mk_kc None ES_INCOMPLETE []
     | Some suite \<Rightarrow>
         if looks_like_tls13_suite suite then mk_kc None ES_INDETERMINATE [''cipher'']
         else (case tls12_mechanism_from_name suite of
             None \<Rightarrow> mk_kc None ES_INDETERMINATE [''cipher'']
           | Some mechanism \<Rightarrow> mk_kc (Some mechanism) ES_INFERRED
               ([''cipher'']
                @ (if mechanism \<in> {''ECDHE'', ''ECDH''} \<and> truthy_str curve then [''curve''] else [])
                @ (if mechanism \<in> {''DHE'', ''DH''} \<and> dh_param_size \<noteq> None then [''dh_param_size''] else []))))"

definition classify_key_exchange :: "kx_facts \<Rightarrow> key_exchange_classification" where
  "classify_key_exchange f =
    (case kf_negotiated_version f of
       None \<Rightarrow> mk_kc None ES_INCOMPLETE []
     | Some version \<Rightarrow>
         if is_tls13 version then
           classify_tls13 (kf_server_key_share_group f) (kf_client_key_share_groups f)
             (kf_psk_key_exchange_modes f) (kf_curve f) (kf_resumed f) (kf_group_name f)
         else classify_tls12 (kf_cipher_suite f) (kf_dh_param_size f) (kf_curve f))"

section \<open>Forward secrecy (forward\_secrecy.py)\<close>

definition usable_state :: "evidence_state \<Rightarrow> bool" where
  "usable_state s = (s \<in> {ES_OBSERVED, ES_VERIFIED, ES_INFERRED})"

definition tls12_present :: "string list" where "tls12_present = [''ECDHE'', ''DHE'']"

definition tls12_absent :: "string list" where "tls12_absent = [''RSA'', ''DH'', ''ECDH'']"

definition tls13_present :: "string list" where
  "tls13_present = [''ECDHE'', ''DHE'', ''(EC)DHE'', ''PSK-(EC)DHE'']"

datatype forward_secrecy_outcome = FS_PRESENT | FS_ABSENT | FS_INDETERMINATE

fun fs_value :: "forward_secrecy_outcome \<Rightarrow> string" where
  "fs_value FS_PRESENT = ''present''"
| "fs_value FS_ABSENT = ''absent''"
| "fs_value FS_INDETERMINATE = ''indeterminate''"

record forward_secrecy_assessment =
  fa_outcome :: forward_secrecy_outcome
  fa_evidence_state :: evidence_state
  fa_reason_code :: string
  fa_source_fields :: "string list"

definition fs_indeterminate :: "string \<Rightarrow> string list \<Rightarrow> forward_secrecy_assessment" where
  "fs_indeterminate reason source_fields = \<lparr>fa_outcome = FS_INDETERMINATE,
     fa_evidence_state = ES_INDETERMINATE, fa_reason_code = reason, fa_source_fields = source_fields\<rparr>"

definition fs_decided :: "forward_secrecy_outcome \<Rightarrow> evidence_state \<Rightarrow> string \<Rightarrow> forward_secrecy_assessment" where
  "fs_decided outcome kx_state reason = \<lparr>fa_outcome = outcome, fa_evidence_state = kx_state,
     fa_reason_code = reason,
     fa_source_fields = [''handshake.version.selected'', ''handshake.key_exchange.mechanism'']\<rparr>"

definition assess_forward_secrecy :: "tls_handshake \<Rightarrow> forward_secrecy_assessment" where
  "assess_forward_secrecy h =
    (let version = tv_selected (th_version h);
         version_state = tv_evidence_state (th_version h);
         mechanism = kx_mechanism (th_key_exchange h);
         kx_state = kx_evidence_state (th_key_exchange h)
     in if th_evidence_state h \<in> {ES_INCOMPLETE, ES_CONFLICTING} then
          fs_indeterminate ''handshake_incomplete'' [''handshake.evidence_state'']
        else if \<not> usable_state version_state \<or> version = None then
          fs_indeterminate ''version_unusable''
            [''handshake.version.selected'', ''handshake.version.evidence_state'']
        else if kx_state \<in> {ES_INCOMPLETE, ES_CONFLICTING, ES_NOT_OBSERVABLE} then
          fs_indeterminate ''key_exchange_unusable''
            [''handshake.key_exchange.mechanism'', ''handshake.key_exchange.evidence_state'']
        else case mechanism of
          None \<Rightarrow> fs_indeterminate ''key_exchange_missing'' [''handshake.key_exchange.mechanism'']
        | Some m \<Rightarrow>
            if version = Some ''TLSv13'' then
              (if m \<in> set tls13_present \<and> usable_state kx_state then
                 fs_decided FS_PRESENT kx_state ''tls13_ephemeral''
               else if m = ''PSK'' then
                 fs_indeterminate ''tls13_psk_only''
                   [''handshake.version.selected'', ''handshake.key_exchange.mechanism'',
                    ''handshake.resumed'']
               else fs_indeterminate ''tls13_unknown_mechanism''
                   [''handshake.version.selected'', ''handshake.key_exchange.mechanism''])
            else if version \<in> {Some ''TLSv12'', Some ''TLSv11'', Some ''TLSv10'', Some ''SSLv3''} then
              (if m \<in> set tls12_present \<and> usable_state kx_state then
                 fs_decided FS_PRESENT kx_state ''tls12_ephemeral''
               else if m \<in> set tls12_absent \<and> usable_state kx_state then
                 fs_decided FS_ABSENT kx_state ''static_key_exchange''
               else if kx_state = ES_INDETERMINATE then
                 fs_indeterminate ''key_exchange_indeterminate''
                   [''handshake.key_exchange.mechanism'', ''handshake.key_exchange.evidence_state'']
               else fs_indeterminate ''tls12_unknown_mechanism''
                   [''handshake.version.selected'', ''handshake.key_exchange.mechanism''])
            else fs_indeterminate ''unsupported_version'' [''handshake.version.selected''])"

section \<open>Lemmas\<close>

lemma mk_kc_simps [simp]:
  "kc_mechanism (mk_kc m s f) = m"
  "kc_evidence_state (mk_kc m s f) = s"
  "kc_source_fields (mk_kc m s f) = f"
  by (simp_all add: mk_kc_def)

text \<open>Table order and length agree: a later prefix that is longer than an earlier one never extends
  it by an underscore, so no two prefixes can both match with the shorter one first.\<close>

definition table_longest_first :: "(string \<times> string) list \<Rightarrow> bool" where
  "table_longest_first t =
     list_all (\<lambda>i. list_all (\<lambda>j. \<not> py_startswith (fst (t ! j)) (fst (t ! i) @ ''_'')) [Suc i..<length t])
       [0..<length t]"

lemma tls12_kx_prefixes_longest_first: "table_longest_first tls12_kx_prefixes"
  by code_simp

lemma longest_first_nth:
  "table_longest_first t \<Longrightarrow> i < j \<Longrightarrow> j < length t \<Longrightarrow> \<not> py_startswith (fst (t ! j)) (fst (t ! i) @ ''_'')"
  by (auto simp: table_longest_first_def list_all_iff)

lemma kx_prefix_matches_prefix: "kx_prefix_matches rest p \<Longrightarrow> prefix p rest"
  by (auto simp: kx_prefix_matches_def py_startswith_prefix dest: append_prefixD)

lemma matches_shorter_extends:
  assumes "kx_prefix_matches rest p" and "kx_prefix_matches rest q" and "length p < length q"
  shows "py_startswith q (p @ ''_'')"
proof -
  have q: "prefix q rest" using assms(2) by (rule kx_prefix_matches_prefix)
  then have "rest \<noteq> p" using assms(3) prefix_length_le by fastforce
  then have "prefix (p @ ''_'') rest" using assms(1) by (simp add: kx_prefix_matches_def py_startswith_prefix)
  then show ?thesis
    unfolding py_startswith_prefix using q by (rule prefix_length_prefix) (use assms(3) in simp)
qed

lemma find_first:
  assumes "find P xs = Some x"
  obtains i where "i < length xs" "xs ! i = x" "P x" "\<And>j. j < i \<Longrightarrow> \<not> P (xs ! j)"
  using assms by (auto simp: find_Some_iff)

lemma tls12_mechanism_longest:
  assumes "tls12_mechanism_from_name name = Some m"
  shows "\<exists>p. (p, m) \<in> set tls12_kx_prefixes \<and> py_startswith name (''TLS_'' @ p)
    \<and> kx_prefix_matches (drop 4 name) p
    \<and> (\<forall>(q, m') \<in> set tls12_kx_prefixes. kx_prefix_matches (drop 4 name) q \<longrightarrow> length q \<le> length p)"
proof -
  let ?t = tls12_kx_prefixes and ?r = "drop 4 name"
  have tls: "py_startswith name ''TLS_''"
    using assms by (simp add: tls12_mechanism_from_name_def split: if_splits)
  obtain p where "find (\<lambda>(p, mechanism). kx_prefix_matches ?r p) ?t = Some (p, m)"
    using assms by (auto simp: tls12_mechanism_from_name_def split: if_splits)
  then obtain i where i: "i < length ?t" "?t ! i = (p, m)" "kx_prefix_matches ?r p"
    and first: "\<And>j. j < i \<Longrightarrow> \<not> kx_prefix_matches ?r (fst (?t ! j))"
    by (elim find_first) (simp add: case_prod_unfold)
  have "length q \<le> length p" if "(q, m') \<in> set ?t" "kx_prefix_matches ?r q" for q m'
  proof (rule ccontr)
    assume "\<not> length q \<le> length p"
    then have ext: "py_startswith q (p @ ''_'')"
      by (intro matches_shorter_extends [OF i(3) that(2)]) simp
    from that(1) obtain j where j: "j < length ?t" "?t ! j = (q, m')"
      unfolding in_set_conv_nth by (elim exE conjE)
    have "i \<le> j" by (rule ccontr) (use first [of j] j(2) that(2) in simp)
    moreover have "i \<noteq> j" using \<open>\<not> length q \<le> length p\<close> i(2) j(2) by auto
    ultimately have "i < j" by simp
    then have "\<not> py_startswith (fst (?t ! j)) (fst (?t ! i) @ ''_'')"
      using longest_first_nth [OF tls12_kx_prefixes_longest_first] j(1) by blast
    with ext show False by (simp add: i(2) j(2))
  qed
  moreover have "py_startswith name (''TLS_'' @ p)"
    using tls kx_prefix_matches_prefix [OF i(3)] by (auto simp: py_startswith_prefix prefix_def)
  moreover have "(p, m) \<in> set ?t" using i(1,2) nth_mem by force
  ultimately show ?thesis using i(3) by blast
qed

lemma is_tls13_names:
  "is_tls13 ''TLSv13''" "\<not> is_tls13 ''TLSv12''" "\<not> is_tls13 ''TLSv11''" "\<not> is_tls13 ''TLSv10''"
  "\<not> is_tls13 ''SSLv3''"
  by code_simp+

lemma classify_tls13_mechanism:
  "kc_mechanism (classify_tls13 sg cg pm c r g) \<noteq> None \<and> kc_evidence_state (classify_tls13 sg cg pm c r g) = ES_OBSERVED
     \<longleftrightarrow> sg \<noteq> None \<or> truthy_str c"
  by (simp add: classify_tls13_def Let_def split: option.split)

lemma classify_tls13_psk:
  "\<not> (sg \<noteq> None \<or> truthy_str c) \<Longrightarrow> kc_mechanism (classify_tls13 sg cg pm c r g) \<in> {None, Some ''PSK''}"
  by (auto simp: classify_tls13_def Let_def)

lemma classify_tls13_share:
  "kc_mechanism (classify_tls13 sg cg pm c r g) = Some m \<Longrightarrow> m \<noteq> ''PSK'' \<Longrightarrow> sg \<noteq> None \<or> truthy_str c"
  by (rule ccontr, drule classify_tls13_psk [of sg c cg pm r g]) simp

lemma classify_tls12_cases:
  assumes "kc_mechanism (classify_tls12 suite d c) = Some m"
  obtains s where "suite = Some s" "tls12_mechanism_from_name s = Some m"
    "kc_evidence_state (classify_tls12 suite d c) = ES_INFERRED"
  using assms by (auto simp: classify_tls12_def split: option.splits if_splits)

lemma prefixes_mechanism:
  "(p, ''ECDHE'') \<in> set tls12_kx_prefixes \<longleftrightarrow> p = ''ECDHE''"
  "(p, ''DHE'') \<in> set tls12_kx_prefixes \<longleftrightarrow> p = ''DHE''"
  "(''ECDHE_PSK'', ''ECDHE-PSK'') \<in> set tls12_kx_prefixes"
  "(''DHE_PSK'', ''DHE-PSK'') \<in> set tls12_kx_prefixes"
  by (simp_all add: tls12_kx_prefixes_def)

lemma tls12_ephemeral_suite:
  assumes "tls12_mechanism_from_name s = Some m" and "m \<in> {''ECDHE'', ''DHE''}"
  shows "py_startswith s (''TLS_'' @ m) \<and> kx_prefix_matches (drop 4 s) m
    \<and> \<not> kx_prefix_matches (drop 4 s) (m @ ''_PSK'')"
proof -
  obtain p where p: "(p, m) \<in> set tls12_kx_prefixes" "py_startswith s (''TLS_'' @ p)"
      "kx_prefix_matches (drop 4 s) p"
    and longest: "\<And>q m'. (q, m') \<in> set tls12_kx_prefixes \<Longrightarrow> kx_prefix_matches (drop 4 s) q \<Longrightarrow> length q \<le> length p"
    using tls12_mechanism_longest [OF assms(1)] by blast
  have "p = m" using p(1) assms(2) by (auto simp: prefixes_mechanism)
  moreover have "(m @ ''_PSK'', m @ ''-PSK'') \<in> set tls12_kx_prefixes"
    using assms(2) by (auto simp: prefixes_mechanism)
  ultimately show ?thesis using p longest [of "m @ ''_PSK''" "m @ ''-PSK''"] by auto
qed

lemma assess_present_iff:
  "fa_outcome (assess_forward_secrecy h) = FS_PRESENT \<longleftrightarrow>
     th_evidence_state h \<notin> {ES_INCOMPLETE, ES_CONFLICTING} \<and> usable_state (tv_evidence_state (th_version h))
     \<and> usable_state (kx_evidence_state (th_key_exchange h))
     \<and> (\<exists>m. kx_mechanism (th_key_exchange h) = Some m
          \<and> (tv_selected (th_version h) = Some ''TLSv13'' \<and> m \<in> set tls13_present
             \<or> tv_selected (th_version h) \<in> {Some ''TLSv12'', Some ''TLSv11'', Some ''TLSv10'', Some ''SSLv3''}
               \<and> m \<in> set tls12_present))"
  by (cases "kx_mechanism (th_key_exchange h)"; cases "kx_evidence_state (th_key_exchange h)")
     (auto simp: assess_forward_secrecy_def Let_def fs_indeterminate_def fs_decided_def usable_state_def)

lemma assess_absent_iff:
  "fa_outcome (assess_forward_secrecy h) = FS_ABSENT \<longleftrightarrow>
     th_evidence_state h \<notin> {ES_INCOMPLETE, ES_CONFLICTING} \<and> usable_state (tv_evidence_state (th_version h))
     \<and> usable_state (kx_evidence_state (th_key_exchange h))
     \<and> tv_selected (th_version h) \<in> {Some ''TLSv12'', Some ''TLSv11'', Some ''TLSv10'', Some ''SSLv3''}
     \<and> (\<exists>m \<in> set tls12_absent. kx_mechanism (th_key_exchange h) = Some m)"
  by (cases "kx_mechanism (th_key_exchange h)"; cases "kx_evidence_state (th_key_exchange h)")
     (auto simp: assess_forward_secrecy_def Let_def fs_indeterminate_def fs_decided_def usable_state_def
       tls12_absent_def tls12_present_def)

section \<open>Properties\<close>

text \<open>For a TLS 1.3 version the classification does not depend on the cipher suite or on the
  Diffie-Hellman parameter size, and a key exchange is reported as observed exactly when the server's
  key share (or a curve) was seen.\<close>

theorem tls13_not_from_suite:
  assumes "is_tls13 v"
  shows "classify_key_exchange (f\<lparr>kf_negotiated_version := Some v, kf_cipher_suite := c, kf_dh_param_size := d\<rparr>)
      = classify_key_exchange (f\<lparr>kf_negotiated_version := Some v\<rparr>)
    \<and> (kc_mechanism (classify_key_exchange (f\<lparr>kf_negotiated_version := Some v\<rparr>)) \<noteq> None
      \<and> kc_evidence_state (classify_key_exchange (f\<lparr>kf_negotiated_version := Some v\<rparr>)) = ES_OBSERVED
      \<longleftrightarrow> kf_server_key_share_group f \<noteq> None \<or> truthy_str (kf_curve f))"
  using assms classify_tls13_mechanism by (simp add: classify_key_exchange_def)

definition sample_kx :: kx_facts where
  "sample_kx = \<lparr>kf_negotiated_version = Some ''TLSv13'', kf_cipher_suite = Some ''TLS_AES_128_GCM_SHA256'',
     kf_server_key_share_group = Some 29, kf_client_key_share_groups = [29], kf_dh_param_size = None,
     kf_psk_key_exchange_modes = [1], kf_curve = None, kf_resumed = False, kf_group_name = Some ''x25519''\<rparr>"

theorem tls13_not_from_suite_witness:
  "classify_key_exchange (sample_kx\<lparr>kf_negotiated_version := Some ''TLSv13'',
     kf_cipher_suite := Some ''TLS_RSA_WITH_RC4_128_MD5'', kf_dh_param_size := Some 512\<rparr>)
   = classify_key_exchange (sample_kx\<lparr>kf_negotiated_version := Some ''TLSv13''\<rparr>)"
  by (rule tls13_not_from_suite [OF is_tls13_names(1), THEN conjunct1])

text \<open>The suite-name grammar is longest match: the mechanism found for a TLS 1.2 suite is the one of
  a key-exchange prefix that follows \<open>TLS_\<close> in the name, and no longer prefix of the table matches.\<close>

theorem tls12_mechanism_longest_match:
  assumes "tls12_mechanism_from_name name = Some m"
  shows "\<exists>p. (p, m) \<in> set tls12_kx_prefixes \<and> py_startswith name (''TLS_'' @ p)
    \<and> kx_prefix_matches (drop 4 name) p
    \<and> (\<forall>(q, m') \<in> set tls12_kx_prefixes. kx_prefix_matches (drop 4 name) q \<longrightarrow> length q \<le> length p)"
  using assms by (rule tls12_mechanism_longest)

theorem tls12_mechanism_longest_match_witness:
  "\<exists>p. (p, ''ECDHE-PSK'') \<in> set tls12_kx_prefixes
    \<and> py_startswith ''TLS_ECDHE_PSK_WITH_AES_128_CBC_SHA'' (''TLS_'' @ p)"
proof -
  have "tls12_mechanism_from_name ''TLS_ECDHE_PSK_WITH_AES_128_CBC_SHA'' = Some ''ECDHE-PSK''"
    by code_simp
  from tls12_mechanism_longest_match [OF this] show ?thesis by blast
qed

text \<open>The grammar has no prefix for anonymous key exchange, so an anonymous suite, whose exchange is
  ephemeral, is reported as static Diffie-Hellman.\<close>

lemma tls12_anonymous_is_static:
  "tls12_mechanism_from_name ''TLS_DH_anon_WITH_AES_128_CBC_SHA'' = Some ''DH''
   \<and> tls12_mechanism_from_name ''TLS_ECDH_anon_WITH_AES_128_CBC_SHA'' = Some ''ECDH''"
  by code_simp

text \<open>When forward secrecy is reported present, and when absent: exactly the versions, mechanisms and
  evidence states that suffice. In particular TLS 1.3 is never reported without forward secrecy, and
  unusable evidence of the handshake, the version or the key exchange gives neither verdict.\<close>

theorem forward_secrecy_verdict_iff:
  defines "usable \<equiv> \<lambda>h. th_evidence_state h \<notin> {ES_INCOMPLETE, ES_CONFLICTING}
      \<and> usable_state (tv_evidence_state (th_version h)) \<and> usable_state (kx_evidence_state (th_key_exchange h))"
    and "tls12 \<equiv> {Some ''TLSv12'', Some ''TLSv11'', Some ''TLSv10'', Some ''SSLv3''}"
  shows "(fa_outcome (assess_forward_secrecy h) = FS_PRESENT \<longleftrightarrow>
      usable h \<and> (\<exists>m. kx_mechanism (th_key_exchange h) = Some m
        \<and> (tv_selected (th_version h) = Some ''TLSv13'' \<and> m \<in> {''ECDHE'', ''DHE'', ''(EC)DHE'', ''PSK-(EC)DHE''}
           \<or> tv_selected (th_version h) \<in> tls12 \<and> m \<in> {''ECDHE'', ''DHE''})))
    \<and> (fa_outcome (assess_forward_secrecy h) = FS_ABSENT \<longleftrightarrow>
      usable h \<and> tv_selected (th_version h) \<in> tls12
      \<and> kx_mechanism (th_key_exchange h) \<in> {Some ''RSA'', Some ''DH'', Some ''ECDH''})"
  unfolding usable_def tls12_def assess_present_iff assess_absent_iff
  by (auto simp: tls13_present_def tls12_present_def tls12_absent_def)

text \<open>Forward secrecy is sound with respect to the observed facts. For a handshake whose version and
  key exchange are the negotiated version and the classification of the facts, a verdict of present
  means that the server's key share (or a curve) was observed under TLS 1.3, or that the negotiated
  suite is an ephemeral, non-PSK one under an older version.\<close>

theorem forward_secrecy_sound:
  assumes "tv_selected (th_version h) = kf_negotiated_version f"
    and "kx_mechanism (th_key_exchange h) = kc_mechanism (classify_key_exchange f)"
    and "kx_evidence_state (th_key_exchange h) = kc_evidence_state (classify_key_exchange f)"
    and "fa_outcome (assess_forward_secrecy h) = FS_PRESENT"
  shows "kf_negotiated_version f = Some ''TLSv13''
      \<and> (kf_server_key_share_group f \<noteq> None \<or> truthy_str (kf_curve f))
    \<or> kf_negotiated_version f \<in> {Some ''TLSv12'', Some ''TLSv11'', Some ''TLSv10'', Some ''SSLv3''}
      \<and> (\<exists>suite p. kf_cipher_suite f = Some suite \<and> p \<in> {''ECDHE'', ''DHE''}
           \<and> py_startswith suite (''TLS_'' @ p) \<and> \<not> kx_prefix_matches (drop 4 suite) (p @ ''_PSK''))"
proof -
  obtain m where m: "kc_mechanism (classify_key_exchange f) = Some m"
    and cases: "kf_negotiated_version f = Some ''TLSv13'' \<and> m \<in> set tls13_present
      \<or> kf_negotiated_version f \<in> {Some ''TLSv12'', Some ''TLSv11'', Some ''TLSv10'', Some ''SSLv3''}
        \<and> m \<in> set tls12_present"
    using assms unfolding assess_present_iff by auto
  from cases show ?thesis
  proof (elim disjE conjE)
    assume v: "kf_negotiated_version f = Some ''TLSv13''" and "m \<in> set tls13_present"
    have "m \<noteq> ''PSK''" using \<open>m \<in> set tls13_present\<close> by (auto simp: tls13_present_def)
    moreover have "kc_mechanism (classify_tls13 (kf_server_key_share_group f) (kf_client_key_share_groups f)
        (kf_psk_key_exchange_modes f) (kf_curve f) (kf_resumed f) (kf_group_name f)) = Some m"
      using m v by (simp add: classify_key_exchange_def is_tls13_names)
    ultimately have "kf_server_key_share_group f \<noteq> None \<or> truthy_str (kf_curve f)"
      using classify_tls13_share by blast
    with v show ?thesis by blast
  next
    assume v: "kf_negotiated_version f \<in> {Some ''TLSv12'', Some ''TLSv11'', Some ''TLSv10'', Some ''SSLv3''}"
      and p: "m \<in> set tls12_present"
    have "classify_key_exchange f = classify_tls12 (kf_cipher_suite f) (kf_dh_param_size f) (kf_curve f)"
      using v by (auto simp: classify_key_exchange_def is_tls13_names)
    then obtain s where s: "kf_cipher_suite f = Some s" "tls12_mechanism_from_name s = Some m"
      using m classify_tls12_cases by metis
    have "m \<in> {''ECDHE'', ''DHE''}" using p by (simp add: tls12_present_def)
    with v s tls12_ephemeral_suite [OF s(2) this] show ?thesis by blast
  qed
qed

definition sample_handshake :: tls_handshake where
  "sample_handshake = \<lparr>th_uid = ''C1'', th_ssl_history = ''CsxknGIti'', th_established = True,
     th_resumed = False, th_hello_retry_request = False, th_last_alert = None, th_visibility = HV_FULL,
     th_version = \<lparr>tv_selected = Some ''TLSv12'', tv_source = Some VS_LEGACY_RECORD,
        tv_evidence_state = ES_OBSERVED, tv_legacy_record_version = None,
        tv_server_supported_version = None, tv_client_supported_versions = []\<rparr>,
     th_cipher_suite = \<lparr>cs_name = Some ''TLS_ECDHE_RSA_WITH_AES_128_GCM_SHA256'',
        cs_code = None, cs_evidence_state = ES_OBSERVED\<rparr>,
     th_key_exchange = \<lparr>kx_mechanism = Some ''ECDHE'', kx_evidence_state = ES_INFERRED,
        kx_source_fields = [''cipher''], kx_selected_group = None, kx_selected_group_code = None,
        kx_dh_param_size = None, kx_psk_key_exchange_modes = []\<rparr>,
     th_messages = [], th_server_certificate_state = ES_OBSERVED,
     th_certificate_verify_state = ES_NOT_OBSERVABLE,
     th_certificate_verify_signature = \<lparr>hs_algorithm = None, hs_evidence_state = ES_NOT_OBSERVABLE\<rparr>,
     th_evidence_state = ES_OBSERVED\<rparr>"

definition sample_kx12 :: kx_facts where
  "sample_kx12 = \<lparr>kf_negotiated_version = Some ''TLSv12'',
     kf_cipher_suite = Some ''TLS_ECDHE_RSA_WITH_AES_128_GCM_SHA256'',
     kf_server_key_share_group = None, kf_client_key_share_groups = [], kf_dh_param_size = None,
     kf_psk_key_exchange_modes = [], kf_curve = None, kf_resumed = False, kf_group_name = None\<rparr>"

lemma sample_kx12_run: "classify_key_exchange sample_kx12 = mk_kc (Some ''ECDHE'') ES_INFERRED [''cipher'']"
  by code_simp

theorem forward_secrecy_sound_witness:
  "\<exists>suite p. kf_cipher_suite sample_kx12 = Some suite \<and> p \<in> {''ECDHE'', ''DHE''}
     \<and> py_startswith suite (''TLS_'' @ p) \<and> \<not> kx_prefix_matches (drop 4 suite) (p @ ''_PSK'')"
proof -
  have "fa_outcome (assess_forward_secrecy sample_handshake) = FS_PRESENT"
    by (simp add: assess_present_iff sample_handshake_def usable_state_def tls12_present_def)
  from forward_secrecy_sound [OF _ _ _ this, of sample_kx12]
  show ?thesis by (simp add: sample_kx12_run) (simp add: sample_handshake_def sample_kx12_def)
qed

end
