(* ===== verification/Pki.thy ===== *)
theory Pki
  imports Evidence
begin

text \<open>
  Certificate policies (\<open>domain/policies/pki\<close>): effective key strength (\<open>key_strength.py\<close>), service
  identity matching (\<open>identity.py\<close>) and path validation (\<open>chain_validation.py\<close>).

  Three things are parameters, because they are other people's code: \<open>ip_address\<close>, the canonical
  text of an IP literal or \<open>None\<close> where the constructor raises \<open>ValueError\<close>; \<open>idna\<close>, the codec on a
  label with a non-ASCII character (on an ASCII label the codec returns the label); and \<open>verify\<close>, the
  path verifier of the \<open>cryptography\<close> package, which answers \<open>None\<close> when it accepts and the text of the
  \<open>VerificationError\<close> when it does not.

  Shown here: the strength tables are floors and strength never decreases with the key size; exactly
  which names a SAN entry matches, wildcards included; and a failed validation or match always names
  exactly one reason.
\<close>

section \<open>Key strength (key\_strength.py)\<close>

definition rsa_modulus_strength :: "(int \<times> int) list" where
  "rsa_modulus_strength =
     [(1024, 80), (2048, 112), (3072, 128), (4096, 152), (7680, 192), (15360, 256)]"

definition dsa_parameter_strength :: "(int \<times> int) list" where
  "dsa_parameter_strength = rsa_modulus_strength"

definition ecc_size_strength :: "(int \<times> int) list" where
  "ecc_size_strength = [(160, 80), (224, 112), (256, 128), (384, 192), (521, 256)]"

definition curve_strength :: "(string, int) dict" where
  "curve_strength =
    [(''secp192r1'', 80), (''prime192v1'', 80), (''secp224r1'', 112), (''secp256r1'', 128),
     (''prime256v1'', 128), (''p-256'', 128), (''secp384r1'', 192), (''p-384'', 192),
     (''secp521r1'', 256), (''p-521'', 256), (''secp256k1'', 128), (''sect163k1'', 80),
     (''sect233k1'', 112), (''sect283k1'', 128), (''brainpoolp256r1'', 128),
     (''brainpoolp384r1'', 192), (''brainpoolp512r1'', 256), (''x25519'', 128), (''ed25519'', 128),
     (''x448'', 224), (''ed448'', 224)]"

definition algorithm_fixed_strength :: "(string, int) dict" where
  "algorithm_fixed_strength = [(''ED25519'', 128), (''ED448'', 224), (''X25519'', 128), (''X448'', 224)]"

fun floor_loop :: "int option \<Rightarrow> (int \<times> int) list \<Rightarrow> int \<Rightarrow> int option" where
  "floor_loop matched [] n = matched"
| "floor_loop matched ((threshold, strength) # t) n =
     (if threshold \<le> n then floor_loop (Some strength) t n else matched)"

definition floor_lookup :: "(int \<times> int) list \<Rightarrow> int \<Rightarrow> int option" where
  "floor_lookup table n = floor_loop None table n"

definition effective_strength_bits :: "string option \<Rightarrow> int option \<Rightarrow> string option \<Rightarrow> int option" where
  "effective_strength_bits algorithm key_size curve =
    (case algorithm of
       None \<Rightarrow> None
     | Some a \<Rightarrow>
        (let token = py_remove_char (CHR ''-'') (py_upper (py_strip a));
             by_curve = Option.bind curve (\<lambda>c. map_of curve_strength (py_lower (py_strip c)))
         in case map_of algorithm_fixed_strength token of
              Some s \<Rightarrow> Some s
            | None \<Rightarrow>
               (case by_curve of
                  Some s \<Rightarrow> Some s
                | None \<Rightarrow>
                   (case key_size of
                      None \<Rightarrow> None
                    | Some n \<Rightarrow>
                        if n \<le> 0 then None
                        else if token \<in> {''RSA'', ''RSASSA'', ''RSAPSS''} then floor_lookup rsa_modulus_strength n
                        else if token = ''DSA'' then floor_lookup dsa_parameter_strength n
                        else if token \<in> {''ECDSA'', ''ECDH'', ''EC''} then floor_lookup ecc_size_strength n
                        else None))))"

section \<open>Service identity (identity.py)\<close>

datatype identity_reason_code = IR_SAN_MISMATCH | IR_SAN_MISSING | IR_REFERENCE_IDENTITY_UNAVAILABLE

datatype san_kind = SAN_DNS | SAN_IP

record san_entry =
  sn_kind :: san_kind
  sn_value :: string

record identity_match_result =
  im_match :: "bool option"
  im_reason_codes :: "identity_reason_code list"

text \<open>A general name of the SAN extension: a dNSName, an iPAddress (its canonical text) or another form.\<close>

datatype general_name = GN_DNS string | GN_IP string | GN_OTHER

definition is_ascii :: "string \<Rightarrow> bool" where
  "is_ascii s = list_all (\<lambda>c. of_char c < (128 :: nat)) s"

definition encode_label :: "(string \<Rightarrow> string option) \<Rightarrow> string \<Rightarrow> string option" where
  "encode_label idna label =
    (if label = ''*'' then Some label
     else if 63 < length label then None
     else if is_ascii label then Some label
     else idna label)"

fun encode_labels :: "(string \<Rightarrow> string option) \<Rightarrow> string list \<Rightarrow> string list option" where
  "encode_labels idna [] = Some []"
| "encode_labels idna (l # ls) =
     Option.bind (encode_label idna l) (\<lambda>e. map_option ((#) e) (encode_labels idna ls))"

definition normalize_dns :: "(string \<Rightarrow> string option) \<Rightarrow> string \<Rightarrow> string option" where
  "normalize_dns idna value =
    (let text = py_lower (py_rstrip_char (CHR ''.'') (py_strip value)) in
     if text = [] \<or> 253 < length text \<or> CHR '' '' \<in> set text then None
     else (let labels = py_split (CHR ''.'') text in
           if [] \<in> set labels then None
           else map_option (py_join ''.'') (encode_labels idna labels)))"

fun san_loop :: "(string \<Rightarrow> string option) \<Rightarrow> san_entry list \<Rightarrow> general_name list \<Rightarrow> san_entry list" where
  "san_loop idna entries [] = entries"
| "san_loop idna entries (g # gs) =
    (if 32 \<le> length entries then entries
     else case g of
       GN_DNS v \<Rightarrow>
         (case normalize_dns idna v of
            None \<Rightarrow> san_loop idna entries gs
          | Some n \<Rightarrow> san_loop idna (entries @ [\<lparr>sn_kind = SAN_DNS, sn_value = n\<rparr>]) gs)
     | GN_IP v \<Rightarrow> san_loop idna (entries @ [\<lparr>sn_kind = SAN_IP, sn_value = v\<rparr>]) gs
     | GN_OTHER \<Rightarrow> san_loop idna entries gs)"

definition extract_san_entries ::
    "(string \<Rightarrow> string option) \<Rightarrow> general_name list option \<Rightarrow> san_entry list" where
  "extract_san_entries idna extension =
     (case extension of None \<Rightarrow> [] | Some gs \<Rightarrow> san_loop idna [] gs)"

definition dns_name_matches :: "string \<Rightarrow> string \<Rightarrow> bool" where
  "dns_name_matches pattern hostname =
    (if CHR ''*'' \<notin> set pattern then pattern = hostname
     else if \<not> py_startswith pattern ''*.'' \<or> count_list pattern (CHR ''*'') \<noteq> 1 then False
     else (let pattern_labels = py_split (CHR ''.'') pattern;
               host_labels = py_split (CHR ''.'') hostname
           in if length pattern_labels < 2 \<or> length pattern_labels \<noteq> length host_labels then False
              else if hd pattern_labels \<noteq> ''*'' then False
              else if hd host_labels = [] \<or> hd host_labels = ''*'' then False
              else tl host_labels = tl pattern_labels))"

definition mk_match :: "bool option \<Rightarrow> identity_reason_code list \<Rightarrow> identity_match_result" where
  "mk_match m r = \<lparr>im_match = m, im_reason_codes = r\<rparr>"

definition match_service_identity :: "(string \<Rightarrow> string option) \<Rightarrow> (string \<Rightarrow> string option)
    \<Rightarrow> string option \<Rightarrow> san_entry list \<Rightarrow> identity_match_result" where
  "match_service_identity ip_address idna reference_identity san_entries =
    (case reference_identity of
       None \<Rightarrow> mk_match None [IR_REFERENCE_IDENTITY_UNAVAILABLE]
     | Some reference \<Rightarrow>
        if py_strip reference = [] then mk_match None [IR_REFERENCE_IDENTITY_UNAVAILABLE]
        else if san_entries = [] then mk_match (Some False) [IR_SAN_MISSING]
        else (case ip_address (py_strip reference) of
          Some expected \<Rightarrow>
            if list_ex (\<lambda>e. sn_kind e = SAN_IP \<and> sn_value e = expected) san_entries
            then mk_match (Some True) [] else mk_match (Some False) [IR_SAN_MISMATCH]
        | None \<Rightarrow>
           (case normalize_dns idna reference of
              None \<Rightarrow> mk_match (Some False) [IR_SAN_MISMATCH]
            | Some hostname \<Rightarrow>
                if list_ex (\<lambda>e. sn_kind e = SAN_DNS \<and> dns_name_matches (sn_value e) hostname) san_entries
                then mk_match (Some True) [] else mk_match (Some False) [IR_SAN_MISMATCH])))"

section \<open>Path validation (chain\_validation.py)\<close>

datatype path_reason_code =
  PR_SELF_SIGNED | PR_MISSING_INTERMEDIATE | PR_UNTRUSTED_ISSUER | PR_EXPIRED_AT_VERIFICATION_TIME
  | PR_NOT_YET_VALID_AT_VERIFICATION_TIME | PR_SIGNATURE_VERIFICATION_FAILED
  | PR_MAX_CHAIN_DEPTH_EXCEEDED | PR_INVALID_EXTENSIONS | PR_SYNTAX_INVALID_LEAF
  | PR_CERTIFICATE_NOT_OBSERVED | PR_CAPTURE_TIME_UNAVAILABLE

text \<open>What the code reads of a certificate: its names (compared for equality only) and its validity
  period as instants.\<close>

record x509_certificate =
  xc_der :: string
  xc_subject :: string
  xc_issuer :: string
  xc_not_valid_before_utc :: int
  xc_not_valid_after_utc :: int

record trust_store_snapshot =
  ts_profile_id :: string
  ts_digest :: string
  ts_anchors :: "x509_certificate list"

record chain_validation_input =
  ci_leaf :: x509_certificate
  ci_intermediates :: "x509_certificate list"
  ci_trust_store :: trust_store_snapshot
  ci_verification_time :: py_datetime

record chain_validation_result =
  cr_valid :: "bool option"
  cr_reason_codes :: "path_reason_code list"

type_synonym path_verifier =
  "x509_certificate list \<Rightarrow> int \<Rightarrow> nat \<Rightarrow> x509_certificate \<Rightarrow> x509_certificate list \<Rightarrow> string option"

definition build_trust_snapshot ::
    "x509_certificate list \<Rightarrow> string \<Rightarrow> string \<Rightarrow> trust_store_snapshot result" where
  "build_trust_snapshot anchors profile_id digest =
    (if anchors = [] then Inl ValueError
     else Inr \<lparr>ts_profile_id = profile_id, ts_digest = digest, ts_anchors = anchors\<rparr>)"

definition is_self_signed :: "x509_certificate \<Rightarrow> bool" where
  "is_self_signed c = (xc_subject c = xc_issuer c)"

definition anchor_subjects :: "trust_store_snapshot \<Rightarrow> string list" where
  "anchor_subjects snapshot = map xc_subject (ts_anchors snapshot)"

definition map_verification_failure :: "x509_certificate \<Rightarrow> x509_certificate list \<Rightarrow> trust_store_snapshot
    \<Rightarrow> py_datetime \<Rightarrow> string \<Rightarrow> path_reason_code list" where
  "map_verification_failure leaf intermediates snapshot verification_time error =
    (let message = py_lower error;
         instant = dt_wall (as_utc verification_time)
     in if py_substring ''not valid at validation time'' message then
          (if xc_not_valid_after_utc leaf < instant then [PR_EXPIRED_AT_VERIFICATION_TIME]
           else if instant < xc_not_valid_before_utc leaf then [PR_NOT_YET_VALID_AT_VERIFICATION_TIME]
           else [PR_EXPIRED_AT_VERIFICATION_TIME])
        else if py_substring ''signature'' message then [PR_SIGNATURE_VERIFICATION_FAILED]
        else if py_substring ''extension'' message \<or> py_substring ''eku'' message
             \<or> py_substring ''basic constraints'' message then [PR_INVALID_EXTENSIONS]
        else if py_substring ''path length'' message \<or> py_substring ''chain depth'' message
             \<or> py_substring ''maximum'' message then [PR_MAX_CHAIN_DEPTH_EXCEEDED]
        else if is_self_signed leaf \<and> xc_subject leaf \<notin> set (anchor_subjects snapshot)
          then [PR_SELF_SIGNED]
        else if intermediates = [] \<and> xc_issuer leaf \<notin> set (anchor_subjects snapshot)
          then [PR_MISSING_INTERMEDIATE]
        else [PR_UNTRUSTED_ISSUER])"

definition validate_certificate_path :: "path_verifier \<Rightarrow> chain_validation_input \<Rightarrow> chain_validation_result" where
  "validate_certificate_path verify payload =
    (let chain_length = 1 + length (ci_intermediates payload) in
     if max_chain_depth < chain_length then
       \<lparr>cr_valid = Some False, cr_reason_codes = [PR_MAX_CHAIN_DEPTH_EXCEEDED]\<rparr>
     else
       (let instant = as_utc (ci_verification_time payload) in
        case verify (ts_anchors (ci_trust_store payload)) (dt_wall instant) max_chain_depth
               (ci_leaf payload) (ci_intermediates payload) of
          Some error \<Rightarrow>
            \<lparr>cr_valid = Some False,
             cr_reason_codes = map_verification_failure (ci_leaf payload) (ci_intermediates payload)
               (ci_trust_store payload) instant error\<rparr>
        | None \<Rightarrow> \<lparr>cr_valid = Some True, cr_reason_codes = []\<rparr>))"

section \<open>Lemmas: key strength\<close>

text \<open>The laws of a strength table: thresholds and strengths increase together.\<close>

definition strength_table :: "(int \<times> int) list \<Rightarrow> bool" where
  "strength_table t = (sorted_wrt (\<lambda>a b. fst a < fst b \<and> snd a \<le> snd b) t)"

lemma floor_loop_spec:
  assumes "strength_table t"
  shows "floor_loop m t n =
    (let below = filter (\<lambda>e. fst e \<le> n) t in if below = [] then m else Some (snd (last below)))"
  using assms
proof (induction m t n rule: floor_loop.induct)
  case (2 m threshold strength t n)
  have above: "threshold < fst x" if "x \<in> set t" for x
    using 2(2) that by (simp add: strength_table_def)
  have "filter (\<lambda>e. fst e \<le> n) t = []" if "n < threshold"
    using that above by (force simp: filter_empty_conv)
  with 2 show ?case by (auto simp: strength_table_def Let_def)
qed simp

lemma floor_lookup_spec:
  "strength_table t \<Longrightarrow> floor_lookup t n =
    (let below = filter (\<lambda>e. fst e \<le> n) t in if below = [] then None else Some (snd (last below)))"
  unfolding floor_lookup_def by (rule floor_loop_spec)

lemma strength_le_last:
  "strength_table t \<Longrightarrow> x \<in> set t \<Longrightarrow> snd x \<le> snd (last t)"
proof (induction t rule: rev_induct)
  case (snoc y t)
  then show ?case by (auto simp: strength_table_def sorted_wrt_append)
qed simp

lemma floor_lookup_mono:
  assumes "strength_table t" and "a \<le> b" and "floor_lookup t a = Some s"
  shows "\<exists>s'. floor_lookup t b = Some s' \<and> s \<le> s'"
proof -
  let ?f = "\<lambda>n. filter (\<lambda>e. fst e \<le> n) t"
  have "?f a \<noteq> []" "s = snd (last (?f a))"
    using assms(3) by (auto simp: floor_lookup_spec [OF assms(1)] Let_def split: if_splits)
  moreover from this have "last (?f a) \<in> set (?f b)"
    using assms(2) last_in_set [of "?f a"] by auto
  moreover have "strength_table (?f b)"
    using assms(1) by (simp add: strength_table_def sorted_wrt_filter)
  ultimately have "s \<le> snd (last (?f b))" "?f b \<noteq> []"
    using strength_le_last [of "?f b" "last (?f a)"] by (blast, force)
  then show ?thesis by (simp add: floor_lookup_spec [OF assms(1)])
qed

lemma strength_tables:
  "strength_table rsa_modulus_strength" "strength_table dsa_parameter_strength"
  "strength_table ecc_size_strength"
  by (simp_all add: strength_table_def dsa_parameter_strength_def rsa_modulus_strength_def
      ecc_size_strength_def)

section \<open>Lemmas: identity\<close>

lemma mk_match_simps [simp]:
  "im_match (mk_match m r) = m"
  "im_reason_codes (mk_match m r) = r"
  by (simp_all add: mk_match_def)

lemma wildcard_matches_iff:
  assumes "CHR ''*'' \<in> set pattern"
  shows "dns_name_matches pattern hostname \<longleftrightarrow>
    (\<exists>label suffix. pattern = ''*.'' @ suffix \<and> CHR ''*'' \<notin> set suffix
       \<and> hostname = label @ ''.'' @ suffix \<and> label \<noteq> [] \<and> label \<noteq> ''*'' \<and> CHR ''.'' \<notin> set label)"
    (is "?lhs \<longleftrightarrow> ?rhs")
proof
  assume ?lhs
  then have m: "py_startswith pattern ''*.''" "count_list pattern (CHR ''*'') = 1"
      "length (py_split (CHR ''.'') pattern) = length (py_split (CHR ''.'') hostname)"
      "hd (py_split (CHR ''.'') hostname) \<noteq> []" "hd (py_split (CHR ''.'') hostname) \<noteq> ''*''"
      "tl (py_split (CHR ''.'') hostname) = tl (py_split (CHR ''.'') pattern)"
    using assms by (auto simp: dns_name_matches_def Let_def split: if_splits)
  obtain suffix where p: "pattern = ''*.'' @ suffix"
    using m(1) by (auto simp: py_startswith_prefix prefix_def)
  then have split_p: "py_split (CHR ''.'') pattern = ''*'' # py_split (CHR ''.'') suffix"
    using py_split_cons [of "CHR ''.''" "''*''" suffix] by simp
  have star: "CHR ''*'' \<notin> set suffix" using m(2) p by (simp add: count_list_0_iff)
  show ?rhs
  proof (rule py_split_cases [of "CHR ''.''" hostname])
    assume "py_split (CHR ''.'') hostname = [hostname]"
    then show ?thesis using m(3) split_p by simp
  next
    fix x y assume h: "hostname = x @ CHR ''.'' # y" "CHR ''.'' \<notin> set x"
      "py_split (CHR ''.'') hostname = x # py_split (CHR ''.'') y"
    then have "y = suffix" using m(6) split_p by (auto intro: py_split_inj)
    with h m(4,5) p star show ?thesis by auto
  qed
next
  assume ?rhs
  then obtain label suffix where p: "pattern = ''*.'' @ suffix" "CHR ''*'' \<notin> set suffix"
    and h: "hostname = label @ ''.'' @ suffix" "label \<noteq> []" "label \<noteq> ''*''" "CHR ''.'' \<notin> set label"
    by blast
  have "py_split (CHR ''.'') pattern = ''*'' # py_split (CHR ''.'') suffix"
    using py_split_cons [of "CHR ''.''" "''*''" suffix] p by simp
  moreover have "py_split (CHR ''.'') hostname = label # py_split (CHR ''.'') suffix"
    using py_split_cons [OF h(4)] h(1) by simp
  moreover have "py_startswith pattern ''*.''" using p by (simp add: py_startswith_prefix)
  moreover have "count_list pattern (CHR ''*'') = 1" using p by (simp add: count_list_0_iff)
  ultimately show ?lhs using h(2,3) p by (simp add: dns_name_matches_def Suc_le_eq)
qed

lemma failure_one_reason: "\<exists>r. map_verification_failure leaf ints snap t err = [r]"
  by (simp add: map_verification_failure_def Let_def)

section \<open>Properties\<close>

text \<open>Effective strength never decreases with the key size: for the same algorithm and curve, a
  larger key is mapped whenever a smaller one is, to at least the same strength.\<close>

theorem effective_strength_mono:
  assumes "effective_strength_bits algorithm (Some a) curve = Some s" and "a \<le> b"
  shows "\<exists>s'. effective_strength_bits algorithm (Some b) curve = Some s' \<and> s \<le> s'"
proof -
  have "\<exists>s'. floor_lookup t b = Some s' \<and> s \<le> s'"
    if "floor_lookup t a = Some s"
      "t \<in> {rsa_modulus_strength, dsa_parameter_strength, ecc_size_strength}" for t
    using that floor_lookup_mono [OF _ assms(2) that(1)] strength_tables by blast
  with assms show ?thesis
    by (auto simp: effective_strength_bits_def Let_def split: option.splits if_splits)
qed

theorem effective_strength_mono_witness:
  "\<exists>s'. effective_strength_bits (Some ''RSA'') (Some 4096) None = Some s' \<and> 112 \<le> s'"
proof -
  have "effective_strength_bits (Some ''RSA'') (Some 2048) None = Some 112" by code_simp
  from effective_strength_mono [OF this, of 4096] show ?thesis by simp
qed

text \<open>A strength table is read as a floor: an RSA key of size \<open>n\<close> has the strength of the greatest
  threshold that is at most \<open>n\<close>, and none below the first threshold.\<close>

theorem rsa_strength_floor:
  "effective_strength_bits (Some ''RSA'') (Some n) None =
    (let below = filter (\<lambda>e. fst e \<le> n) rsa_modulus_strength
     in if below = [] then None else Some (snd (last below)))"
proof -
  have tok: "py_remove_char (CHR ''-'') (py_upper (py_strip ''RSA'')) = ''RSA''" by code_simp
  have "filter (\<lambda>e. fst e \<le> n) rsa_modulus_strength = []" if "n \<le> 0"
    using that by (simp add: rsa_modulus_strength_def)
  then show ?thesis
    using floor_lookup_spec [OF strength_tables(1), of n]
    by (auto simp: effective_strength_bits_def tok Let_def algorithm_fixed_strength_def)
qed

text \<open>C32: What service identity matching accepts. A match is reported exactly when there is a reference
  identity and either it is an IP literal equal to an iPAddress entry, or it is a name and some
  dNSName entry equals it or is a wildcard for it: \<open>*.suffix\<close> with no further star, matching one
  non-empty label in front of the same suffix. Never a partial label, several labels or the bare
  suffix.\<close>

theorem identity_match_iff:
  "im_match (match_service_identity ip_address idna reference entries) = Some True \<longleftrightarrow>
    (\<exists>r. reference = Some r \<and> py_strip r \<noteq> [] \<and>
      (case ip_address (py_strip r) of
         Some ip \<Rightarrow> \<exists>e \<in> set entries. sn_kind e = SAN_IP \<and> sn_value e = ip
       | None \<Rightarrow> \<exists>h. normalize_dns idna r = Some h \<and>
           (\<exists>e \<in> set entries. sn_kind e = SAN_DNS \<and>
              (CHR ''*'' \<notin> set (sn_value e) \<and> sn_value e = h
               \<or> (\<exists>label suffix. sn_value e = ''*.'' @ suffix \<and> CHR ''*'' \<notin> set suffix
                   \<and> h = label @ ''.'' @ suffix \<and> label \<noteq> [] \<and> label \<noteq> ''*'' \<and> CHR ''.'' \<notin> set label)))))"
proof -
  have match: "dns_name_matches p h \<longleftrightarrow> CHR ''*'' \<notin> set p \<and> p = h
      \<or> (\<exists>label suffix. p = ''*.'' @ suffix \<and> CHR ''*'' \<notin> set suffix
          \<and> h = label @ ''.'' @ suffix \<and> label \<noteq> [] \<and> label \<noteq> ''*'' \<and> CHR ''.'' \<notin> set label)" for p h
  proof (cases "CHR ''*'' \<in> set p")
    case True
    then show ?thesis by (simp only: wildcard_matches_iff) simp
  next
    case False
    then show ?thesis by (auto simp: dns_name_matches_def)
  qed
  show ?thesis
    by (auto simp: match_service_identity_def match list_ex_iff split: option.splits)
qed

text \<open>An identity verdict always says why: a mismatch has exactly one reason, a match none, and the
  result is undecided exactly when there is no reference identity.\<close>

theorem identity_reasons:
  "let r = match_service_identity ip_address idna reference entries in
    (im_match r = Some True \<longleftrightarrow> im_reason_codes r = [])
    \<and> (im_match r = Some False \<longleftrightarrow> im_reason_codes r \<in> {[IR_SAN_MISSING], [IR_SAN_MISMATCH]})
    \<and> (im_match r = None \<longleftrightarrow> reference = None \<or> (\<exists>s. reference = Some s \<and> py_strip s = []))
    \<and> (im_match r = None \<longleftrightarrow> im_reason_codes r = [IR_REFERENCE_IDENTITY_UNAVAILABLE])"
  unfolding Let_def by (auto simp: match_service_identity_def split: option.splits)

text \<open>Path validation never gives a bare failure and never consults the verifier beyond the depth
  limit: the path is valid exactly when it is within the limit and the verifier, asked with the
  trust anchors, the verification time in UTC and that limit, accepts; otherwise there is exactly one
  reason.\<close>

theorem path_validation_verdict:
  "(cr_valid (validate_certificate_path verify p) = Some True \<longleftrightarrow>
      length (ci_intermediates p) < max_chain_depth
      \<and> verify (ts_anchors (ci_trust_store p)) (dt_instant (ci_verification_time p)) max_chain_depth
          (ci_leaf p) (ci_intermediates p) = None
      \<and> cr_reason_codes (validate_certificate_path verify p) = [])
   \<and> (cr_valid (validate_certificate_path verify p) = Some False \<longleftrightarrow>
      (\<exists>reason. cr_reason_codes (validate_certificate_path verify p) = [reason]))"
  using failure_one_reason
  by (auto simp: validate_certificate_path_def Let_def split: option.splits)

text \<open>A failure of validity in time is reported by the leaf's period alone: when the leaf is within
  its period, so that another certificate of the path is not, the reason given is expiry, even for
  one that is not yet valid.\<close>

lemma path_time_failure_defaults_to_expired:
  assumes "py_substring ''not valid at validation time'' (py_lower err)"
    and "xc_not_valid_before_utc leaf \<le> dt_instant t" and "dt_instant t \<le> xc_not_valid_after_utc leaf"
  shows "map_verification_failure leaf ints snap t err = [PR_EXPIRED_AT_VERIFICATION_TIME]"
  using assms by (simp add: map_verification_failure_def)

end
