(* ===== verification/Findings.thy ===== *)
theory Findings
  imports Evidence Hashing
begin

text \<open>
  Findings and their deduplication (\<open>domain/findings/finding.py\<close>, \<open>dedup.py\<close>): the record of a
  policy judgment, the pydantic constraints its constructor checks, and the grouping of session-level
  findings into one cluster per code, endpoint and policy identity.

  Shown here: deduplication returns for every admissible batch; it neither loses nor invents a
  finding; each cluster summarizes its members (worst outcome, highest severity and weakest basis
  among the decisive ones); and the result does not depend on the order of the input.
\<close>

section \<open>Findings (finding.py)\<close>

datatype finding_outcome = FO_NEGATIVE | FO_INDETERMINATE

datatype finding_severity = SV_HIGH | SV_MEDIUM | SV_LOW | SV_INFORMATIONAL

datatype evidence_record_type = RT_FLOW | RT_SESSION | RT_HANDSHAKE | RT_CERTIFICATE

fun fo_value :: "finding_outcome \<Rightarrow> string" where
  "fo_value FO_NEGATIVE = ''negative''"
| "fo_value FO_INDETERMINATE = ''indeterminate''"

fun sev_value :: "finding_severity \<Rightarrow> string" where
  "sev_value SV_HIGH = ''high''"
| "sev_value SV_MEDIUM = ''medium''"
| "sev_value SV_LOW = ''low''"
| "sev_value SV_INFORMATIONAL = ''informational''"

fun rt_value :: "evidence_record_type \<Rightarrow> string" where
  "rt_value RT_FLOW = ''flow''"
| "rt_value RT_SESSION = ''session''"
| "rt_value RT_HANDSHAKE = ''handshake''"
| "rt_value RT_CERTIFICATE = ''certificate''"

definition len_in :: "nat \<Rightarrow> nat \<Rightarrow> 'a list \<Rightarrow> bool" where
  \<comment> \<open>\<open>Field(min_length=lo, max_length=hi)\<close>\<close>
  "len_in lo hi xs = (lo \<le> length xs \<and> length xs \<le> hi)"

record evidence_reference =
  er_record_type :: evidence_record_type
  er_record_key :: string
  er_field_path :: string
  er_evidence_state :: evidence_state
  er_frame_number :: "nat option"

definition evidence_reference_ok :: "evidence_reference \<Rightarrow> bool" where
  "evidence_reference_ok r = (len_in 1 160 (er_record_key r) \<and> len_in 1 160 (er_field_path r)
     \<and> (case er_frame_number r of None \<Rightarrow> True | Some n \<Rightarrow> 1 \<le> n))"

record finding =
  fi_finding_id :: string
  fi_code :: string
  fi_outcome :: finding_outcome
  fi_title :: string
  fi_rationale :: string
  fi_standards :: "string list"
  fi_remediation_id :: string
  fi_severity :: finding_severity
  fi_evaluation_state :: evidence_state
  fi_basis_state :: evidence_state
  fi_policy_profile :: string
  fi_policy_pack_version :: string
  fi_rule_effective_from :: py_date
  fi_rule_effective_until :: "py_date option"
  fi_policy_evaluation_time :: py_datetime
  fi_affected_endpoint :: string
  fi_evidence_references :: "evidence_reference list"

definition finding_ok :: "finding \<Rightarrow> bool" where
  "finding_ok f =
    (is_sha256_hex (fi_finding_id f) \<and> len_in 1 64 (fi_code f) \<and> len_in 1 160 (fi_title f)
     \<and> len_in 1 1000 (fi_rationale f) \<and> len_in 0 8 (fi_standards f) \<and> len_in 1 64 (fi_remediation_id f)
     \<and> len_in 1 64 (fi_policy_profile f) \<and> is_sha256_hex (fi_policy_pack_version f)
     \<and> len_in 1 300 (fi_affected_endpoint f) \<and> len_in 0 32 (fi_evidence_references f)
     \<and> list_all evidence_reference_ok (fi_evidence_references f))"

section \<open>Deduplication (dedup.py)\<close>

fun severity_rank :: "finding_severity \<Rightarrow> nat" where
  "severity_rank SV_HIGH = 3"
| "severity_rank SV_MEDIUM = 2"
| "severity_rank SV_LOW = 1"
| "severity_rank SV_INFORMATIONAL = 0"

record occurrence_ref =
  ocr_finding_id :: string
  ocr_record_type :: evidence_record_type
  ocr_record_key :: string
  ocr_session_uid :: "string option"

definition occurrence_ref_ok :: "occurrence_ref \<Rightarrow> bool" where
  "occurrence_ref_ok r = (is_sha256_hex (ocr_finding_id r) \<and> len_in 1 160 (ocr_record_key r)
     \<and> (case ocr_session_uid r of None \<Rightarrow> True | Some u \<Rightarrow> length u \<le> 160))"

record endpoint_finding_cluster =
  cl_finding_id :: string
  cl_code :: string
  cl_outcome :: finding_outcome
  cl_title :: string
  cl_rationale :: string
  cl_standards :: "string list"
  cl_remediation_id :: string
  cl_severity :: finding_severity
  cl_evaluation_state :: evidence_state
  cl_basis_state :: evidence_state
  cl_policy_profile :: string
  cl_policy_pack_version :: string
  cl_rule_effective_from :: py_date
  cl_rule_effective_until :: "py_date option"
  cl_policy_evaluation_time :: py_datetime
  cl_affected_endpoint :: string
  cl_recurrence_count :: nat
  cl_unique_occurrences :: nat
  cl_contributing_finding_ids :: "string list"
  cl_contributing_occurrences :: "occurrence_ref list"
  cl_evidence_references :: "evidence_reference list"

definition cluster_ok :: "endpoint_finding_cluster \<Rightarrow> bool" where
  "cluster_ok c =
    (is_sha256_hex (cl_finding_id c) \<and> len_in 1 64 (cl_code c) \<and> len_in 1 160 (cl_title c)
     \<and> len_in 1 1000 (cl_rationale c) \<and> len_in 0 8 (cl_standards c) \<and> len_in 1 64 (cl_remediation_id c)
     \<and> len_in 1 64 (cl_policy_profile c) \<and> is_sha256_hex (cl_policy_pack_version c)
     \<and> len_in 1 300 (cl_affected_endpoint c)
     \<and> 1 \<le> cl_recurrence_count c \<and> cl_recurrence_count c \<le> 4096
     \<and> 1 \<le> cl_unique_occurrences c \<and> cl_unique_occurrences c \<le> 4096
     \<and> len_in 1 4096 (cl_contributing_finding_ids c) \<and> len_in 1 4096 (cl_contributing_occurrences c)
     \<and> len_in 0 1024 (cl_evidence_references c))"

definition session_uid_for_finding :: "finding \<Rightarrow> string option" where
  "session_uid_for_finding finding =
    (case find (\<lambda>r. er_record_type r = RT_SESSION) (fi_evidence_references finding) of
       Some r \<Rightarrow> Some (er_record_key r)
     | None \<Rightarrow>
        (case find (\<lambda>r. er_record_type r \<in> {RT_HANDSHAKE, RT_FLOW, RT_CERTIFICATE})
                (fi_evidence_references finding) of
           None \<Rightarrow> None
         | Some r \<Rightarrow> if er_record_type r = RT_CERTIFICATE
             then Some (before_first (CHR '':'') (er_record_key r)) else Some (er_record_key r)))"

definition occurrence_key :: "finding \<Rightarrow> string" where
  "occurrence_key finding =
    (case fi_evidence_references finding of
       [] \<Rightarrow> ''finding:'' @ fi_finding_id finding
     | r # _ \<Rightarrow> rt_value (er_record_type r) @ '':'' @ er_record_key r)"

definition mk_occurrence_ref :: "finding \<Rightarrow> occurrence_ref result" where
  "mk_occurrence_ref finding =
    (let r = \<lparr>ocr_finding_id = fi_finding_id finding,
              ocr_record_type = (case fi_evidence_references finding of
                 [] \<Rightarrow> RT_SESSION | r # _ \<Rightarrow> er_record_type r),
              ocr_record_key = (case fi_evidence_references finding of
                 [] \<Rightarrow> fi_finding_id finding | r # _ \<Rightarrow> er_record_key r),
              ocr_session_uid = session_uid_for_finding finding\<rparr>
     in check_model (occurrence_ref_ok r) r)"

definition group_key :: "finding \<Rightarrow> string \<times> string \<times> string \<times> string" where
  "group_key f = (fi_code f, fi_affected_endpoint f, fi_policy_profile f, fi_policy_pack_version f)"

definition aggregate_id :: "finding list \<Rightarrow> string" where
  "aggregate_id members =
    (let first = hd members in
     sha256_hex (py_join ''|''
       ([''endpoint'', fi_code first, fi_affected_endpoint first, fi_policy_profile first,
         fi_policy_pack_version first] @ sort (map fi_finding_id members))))"

definition pick_primary :: "finding list \<Rightarrow> finding list" where
  "pick_primary members =
    (let negatives = filter (\<lambda>f. fi_outcome f = FO_NEGATIVE) members
     in if negatives \<noteq> [] then negatives else members)"

definition max_severity :: "finding list \<Rightarrow> finding_severity" where
  "max_severity members = fi_severity (arg_max_list (\<lambda>f. severity_rank (fi_severity f)) members)"

definition weakest_basis :: "finding list \<Rightarrow> evidence_state" where
  "weakest_basis members = fi_basis_state (arg_min_list (\<lambda>f. state_rank (fi_basis_state f)) members)"

definition reference_key :: "evidence_reference \<Rightarrow> string \<times> string \<times> string \<times> string \<times> nat option" where
  "reference_key r = (rt_value (er_record_type r), er_record_key r, er_field_path r,
     es_value (er_evidence_state r), er_frame_number r)"

definition reference_order :: "evidence_reference \<Rightarrow> string \<times> string \<times> string \<times> string \<times> nat" where
  "reference_order r = (rt_value (er_record_type r), er_record_key r, er_field_path r,
     es_value (er_evidence_state r), (case er_frame_number r of None \<Rightarrow> 0 | Some n \<Rightarrow> n))"

definition merge_references :: "finding list \<Rightarrow> evidence_reference list" where
  "merge_references members =
    (let unique = fold (\<lambda>r. dict_setdefault (reference_key r) r)
           (concat (map fi_evidence_references members)) []
     in take 1024 (sort_key reference_order (map snd unique)))"

text \<open>\<open>max\<close> over \<open>datetime\<close> values: naive and aware ones cannot be compared.\<close>

definition same_awareness :: "py_datetime list \<Rightarrow> bool" where
  "same_awareness ts = (list_all (\<lambda>t. dt_offset t = None) ts \<or> list_all (\<lambda>t. dt_offset t \<noteq> None) ts)"

definition max_time :: "py_datetime list \<Rightarrow> py_datetime result" where
  "max_time ts = (if same_awareness ts then Inr (arg_max_list dt_instant ts) else Inl TypeError)"

definition cluster_from_group :: "finding list \<Rightarrow> endpoint_finding_cluster result" where
  "cluster_from_group members =
    (let ordered = sort_key fi_finding_id members;
         primary = pick_primary ordered;
         representative = arg_min_list fi_finding_id primary;
         outcome = if list_ex (\<lambda>f. fi_outcome f = FO_NEGATIVE) ordered then FO_NEGATIVE
                   else FO_INDETERMINATE;
         evaluation_state = if outcome = FO_NEGATIVE then ES_VERIFIED else ES_INDETERMINATE;
         occurrence_keys = remdups (map occurrence_key ordered)
     in bindE (mapE mk_occurrence_ref ordered) (\<lambda>occurrences.
        bindE (max_time (map fi_policy_evaluation_time ordered)) (\<lambda>evaluation_time.
        let c = \<lparr>cl_finding_id = aggregate_id ordered,
          cl_code = fi_code representative,
          cl_outcome = outcome,
          cl_title = fi_title representative,
          cl_rationale = fi_rationale representative,
          cl_standards = fi_standards representative,
          cl_remediation_id = fi_remediation_id representative,
          cl_severity = max_severity primary,
          cl_evaluation_state = evaluation_state,
          cl_basis_state = weakest_basis primary,
          cl_policy_profile = fi_policy_profile representative,
          cl_policy_pack_version = fi_policy_pack_version representative,
          cl_rule_effective_from = Min (set (map fi_rule_effective_from ordered)),
          cl_rule_effective_until = fi_rule_effective_until representative,
          cl_policy_evaluation_time = evaluation_time,
          cl_affected_endpoint = fi_affected_endpoint representative,
          cl_recurrence_count = length ordered,
          cl_unique_occurrences = length occurrence_keys,
          cl_contributing_finding_ids = map fi_finding_id ordered,
          cl_contributing_occurrences = sort_key ocr_finding_id occurrences,
          cl_evidence_references = merge_references ordered\<rparr>
        in check_model (cluster_ok c) c)))"

definition cluster_order :: "endpoint_finding_cluster \<Rightarrow> string \<times> string \<times> string \<times> string" where
  "cluster_order c = (cl_code c, cl_affected_endpoint c, cl_policy_profile c, cl_finding_id c)"

definition dedup_findings :: "finding list \<Rightarrow> endpoint_finding_cluster list result" where
  "dedup_findings findings =
     bindE (mapE cluster_from_group (map snd (group_by group_key findings)))
       (\<lambda>clusters. Inr (sort_key cluster_order clusters))"

section \<open>Lemmas\<close>

lemma severity_rank_inj: "severity_rank a = severity_rank b \<Longrightarrow> a = b"
  by (cases a; cases b) simp_all

interpretation sev: ranked severity_rank
  by unfold_locales (rule severity_rank_inj)

lemma pick_primary_ne: "members \<noteq> [] \<Longrightarrow> pick_primary members \<noteq> []"
  by (simp add: pick_primary_def Let_def)

lemma pick_primary_subset: "set (pick_primary members) \<subseteq> set members"
  by (auto simp: pick_primary_def Let_def)

text \<open>Inversion of the construction of a cluster: its fields in terms of the ordered members.\<close>

lemma cluster_from_group_cases:
  assumes "cluster_from_group members = Inr c"
  obtains ordered where "ordered = sort_key fi_finding_id members"
    and "cluster_ok c"
    and "cl_contributing_finding_ids c = map fi_finding_id ordered"
    and "cl_recurrence_count c = length ordered"
    and "cl_unique_occurrences c = card (occurrence_key ` set ordered)"
    and "cl_outcome c = (if \<exists>f \<in> set ordered. fi_outcome f = FO_NEGATIVE then FO_NEGATIVE else FO_INDETERMINATE)"
    and "cl_severity c = max_severity (pick_primary ordered)"
    and "cl_basis_state c = weakest_basis (pick_primary ordered)"
    and "cl_finding_id c = aggregate_id ordered"
    and "cl_code c = fi_code (arg_min_list fi_finding_id (pick_primary ordered))"
    and "cl_affected_endpoint c = fi_affected_endpoint (arg_min_list fi_finding_id (pick_primary ordered))"
    and "cl_policy_profile c = fi_policy_profile (arg_min_list fi_finding_id (pick_primary ordered))"
  using assms
  by (auto simp: cluster_from_group_def Let_def py_simps list_ex_iff length_remdups_card_conv
      simp del: max_time_def)

lemma group_members:
  assumes "ms \<in> set (map snd (group_by group_key fs))"
  shows "ms \<noteq> []" and "set ms \<subseteq> set fs" and "\<exists>k. ms = filter (\<lambda>f. group_key f = k) fs"
proof -
  obtain k where "(k, ms) \<in> set (group_by group_key fs)" using assms by auto
  then have k: "ms = filter (\<lambda>f. group_key f = k) fs" "ms \<noteq> []" unfolding group_by_member by blast+
  from k show "ms \<noteq> []" "set ms \<subseteq> set fs" by auto
  from k(1) show "\<exists>k. ms = filter (\<lambda>f. group_key f = k) fs" by (rule exI)
qed

subsection \<open>Admissible batches never raise\<close>

lemma find_ref_ok:
  assumes "finding_ok f" and "find P (fi_evidence_references f) = Some r"
  shows "len_in 1 160 (er_record_key r)"
  using assms find_Some_mem [OF assms(2)]
  by (auto simp: finding_ok_def evidence_reference_ok_def list_all_iff)

lemma session_uid_len:
  assumes "finding_ok f" and "session_uid_for_finding f = Some u"
  shows "length u \<le> 160"
  using assms find_ref_ok [OF assms(1)]
  by (auto simp: session_uid_for_finding_def len_in_def before_first_def
      split: option.splits if_splits
      intro: order_trans [OF length_takeWhile_le])

lemma is_sha256_hex_len: "is_sha256_hex s \<Longrightarrow> len_in 1 160 s"
  by (simp add: is_sha256_hex_def len_in_def)

lemma mk_occurrence_ref_ok:
  assumes "finding_ok f"
  shows "\<exists>r. mk_occurrence_ref f = Inr r \<and> ocr_finding_id r = fi_finding_id f"
proof -
  have "is_sha256_hex (fi_finding_id f)" "list_all evidence_reference_ok (fi_evidence_references f)"
    using assms by (simp_all add: finding_ok_def)
  then show ?thesis
    using session_uid_len [OF assms] is_sha256_hex_len
    by (auto simp: mk_occurrence_ref_def Let_def py_simps occurrence_ref_ok_def evidence_reference_ok_def
        split: list.splits option.splits)
qed

lemma mapE_occurrences:
  assumes "list_all finding_ok fs"
  shows "\<exists>os. mapE mk_occurrence_ref fs = Inr os \<and> length os = length fs"
  using assms
proof (induction fs)
  case (Cons f fs)
  then show ?case using mk_occurrence_ref_ok [of f] by auto
qed simp

lemma cluster_from_group_total:
  assumes "members \<noteq> []" and "list_all finding_ok members" and "length members \<le> 4096"
    and "same_awareness (map fi_policy_evaluation_time members)"
  shows "\<exists>c. cluster_from_group members = Inr c"
proof -
  let ?o = "sort_key fi_finding_id members"
  let ?r = "arg_min_list fi_finding_id (pick_primary ?o)"
  have ne: "?o \<noteq> []" using assms(1) by (metis set_empty set_sort)
  obtain os where os: "mapE mk_occurrence_ref ?o = Inr os" "length os = length members"
    using mapE_occurrences [of ?o] assms(2) by (auto simp: list_all_iff)
  have t: "same_awareness (map fi_policy_evaluation_time ?o)"
    using assms(4) by (auto simp: same_awareness_def list_all_iff)
  have "?r \<in> set members"
    using arg_min_list_in [OF pick_primary_ne [OF ne], of fi_finding_id] pick_primary_subset [of ?o] by auto
  then have "finding_ok ?r" using assms(2) by (simp add: list_all_iff)
  moreover have "length members \<ge> 1" using assms(1) by (simp add: Suc_le_eq)
  moreover have "1 \<le> length (remdups (map occurrence_key ?o))" using ne by (simp add: Suc_le_eq)
  moreover have "length (remdups (map occurrence_key ?o)) \<le> 4096"
    using length_remdups_leq [of "map occurrence_key ?o"] assms(3) by simp
  ultimately show ?thesis
    using os t assms(3)
    by (simp add: cluster_from_group_def Let_def py_simps max_time_def cluster_ok_def len_in_def
        finding_ok_def aggregate_id_def merge_references_def)
qed

lemma mapE_ex:
  "(\<And>x. x \<in> set xs \<Longrightarrow> \<exists>y. f x = Inr y) \<Longrightarrow> \<exists>ys. mapE f xs = Inr ys"
proof (induction xs)
  case (Cons x xs)
  obtain y ys where "f x = Inr y" "mapE f xs = Inr ys" using Cons by fastforce
  then show ?case by simp
qed simp

subsection \<open>What a cluster says\<close>

lemma mapE_map_projr: "mapE f xs = Inr ys \<Longrightarrow> ys = map (\<lambda>x. projr (f x)) xs"
  by (induction xs arbitrary: ys) (auto simp: py_simps)

lemma mset_concat_cong: "mset xs = mset ys \<Longrightarrow> mset (concat (map g xs)) = mset (concat (map g ys))"
  by (simp add: mset_concat comp_def flip: sum_mset_sum_list)

lemma cluster_ids:
  "cluster_from_group ms = Inr c \<Longrightarrow> mset (cl_contributing_finding_ids c) = mset (map fi_finding_id ms)"
  by (elim cluster_from_group_cases) simp

lemma dedup_ids:
  assumes "dedup_findings fs = Inr cs"
  shows "mset (concat (map cl_contributing_finding_ids cs)) = mset (map fi_finding_id fs)"
proof -
  let ?g = "map snd (group_by group_key fs)"
  obtain cl where cl: "mapE cluster_from_group ?g = Inr cl" "cs = sort_key cluster_order cl"
    using assms by (auto simp: dedup_findings_def py_simps)
  have "mset (concat (map cl_contributing_finding_ids cs)) = mset (concat (map cl_contributing_finding_ids cl))"
    unfolding cl(2) by (rule mset_concat_cong) simp
  also have "\<dots> = mset (concat (map (map fi_finding_id) ?g))"
    using cl(1) unfolding mapE_Inr_iff
    by (induction rule: list_all2_induct) (simp_all add: cluster_ids)
  also have "\<dots> = image_mset fi_finding_id (mset (concat ?g))" by (simp only: mset_map flip: map_concat)
  finally show ?thesis by (simp add: group_by_partition)
qed

lemma representative_mem:
  "ms \<noteq> [] \<Longrightarrow> arg_min_list fi_finding_id (pick_primary (sort_key fi_finding_id ms)) \<in> set ms"
  using arg_min_list_in [OF pick_primary_ne, of "sort_key fi_finding_id ms" fi_finding_id]
    pick_primary_subset [of "sort_key fi_finding_id ms"]
  by (metis set_empty set_sort subsetD)

lemma cluster_key:
  assumes "cluster_from_group ms = Inr c" and "ms \<noteq> []" and "\<And>f. f \<in> set ms \<Longrightarrow> group_key f = k"
  shows "k = (cl_code c, cl_affected_endpoint c, cl_policy_profile c, snd (snd (snd k)))"
proof -
  let ?r = "arg_min_list fi_finding_id (pick_primary (sort_key fi_finding_id ms))"
  have "group_key ?r = k" using assms(3) representative_mem [OF assms(2)] by blast
  with assms(1) show ?thesis by (elim cluster_from_group_cases) (auto simp: group_key_def)
qed

text \<open>The decisive members of a cluster: the negative ones if there are any.\<close>

lemma pick_primary_set:
  "set (pick_primary ms) = (if \<exists>f \<in> set ms. fi_outcome f = FO_NEGATIVE
     then {f \<in> set ms. fi_outcome f = FO_NEGATIVE} else set ms)"
  by (auto simp: pick_primary_def Let_def filter_empty_conv)

lemma max_severity_grade:
  "ms \<noteq> [] \<Longrightarrow> max_severity ms \<in> fi_severity ` set ms
     \<and> (\<forall>f \<in> set ms. severity_rank (fi_severity f) \<le> severity_rank (max_severity ms))"
  unfolding max_severity_def by (intro conjI ballI sev.strongest_mem sev.strongest_ge)

lemma weakest_basis_grade:
  "ms \<noteq> [] \<Longrightarrow> weakest_basis ms \<in> fi_basis_state ` set ms
     \<and> (\<forall>f \<in> set ms. state_rank (weakest_basis ms) \<le> state_rank (fi_basis_state f))"
  unfolding weakest_basis_def by (intro conjI ballI es.weakest_mem es.weakest_le)

lemma dedup_member:
  assumes "dedup_findings fs = Inr cs" and "c \<in> set cs"
  obtains k where "cluster_from_group (filter (\<lambda>f. group_key f = k) fs) = Inr c"
    and "filter (\<lambda>f. group_key f = k) fs \<noteq> []"
proof -
  obtain cl where "mapE cluster_from_group (map snd (group_by group_key fs)) = Inr cl" "c \<in> set cl"
    using assms by (auto simp: dedup_findings_def py_simps)
  then obtain ms where ms: "ms \<in> set (map snd (group_by group_key fs))" "cluster_from_group ms = Inr c"
    by (auto simp: mapE_set_iff)
  show thesis using group_members [OF ms(1)] ms(2) that by blast
qed

subsection \<open>Order of the input\<close>

lemma mapE_Inr_ex: "mapE f xs = Inr ys \<Longrightarrow> x \<in> set xs \<Longrightarrow> \<exists>y. f x = Inr y"
  by (induction xs arbitrary: ys) (auto simp: py_simps)

lemma mapE_map: "mapE f (map g xs) = mapE (\<lambda>x. f (g x)) xs"
  by (induction xs) simp_all

lemma mapE_perm:
  assumes "mapE h xs = Inr zs" and "mset xs = mset ys"
  shows "mapE h ys = Inr (map (\<lambda>x. projr (h x)) ys)" and "zs = map (\<lambda>x. projr (h x)) xs"
proof -
  show zs: "zs = map (\<lambda>x. projr (h x)) xs" using assms(1) by (rule mapE_map_projr)
  have "set ys = set xs" using assms(2) mset_eq_setD by metis
  then show "mapE h ys = Inr (map (\<lambda>x. projr (h x)) ys)"
    using mapE_Inr_ex [OF assms(1)] by (intro mapE_total) force
qed

lemma cluster_from_group_cong:
  assumes "mset ms = mset ns" and "inj_on fi_finding_id (set ms)"
  shows "cluster_from_group ms = cluster_from_group ns"
  using sort_key_mset_cong [OF assms] by (simp only: cluster_from_group_def)

lemma dedup_by_key:
  "dedup_findings fs =
     bindE (mapE (\<lambda>k. cluster_from_group (filter (\<lambda>f. group_key f = k) fs))
              (map fst (group_by group_key fs)))
       (\<lambda>clusters. Inr (sort_key cluster_order clusters))"
  unfolding dedup_findings_def group_by_values [of group_key fs] mapE_map by (rule refl)

lemma dedup_perm:
  assumes perm: "mset fs = mset gs" and inj: "inj_on fi_finding_id (set fs)"
    and pack: "\<And>f. f \<in> set fs \<Longrightarrow> fi_policy_pack_version f = v" and fs: "dedup_findings fs = Inr cs"
  shows "dedup_findings gs = Inr cs"
proof -
  let ?h = "\<lambda>k. cluster_from_group (filter (\<lambda>f. group_key f = k) fs)"
  let ?ks = "map fst (group_by group_key fs)" and ?ls = "map fst (group_by group_key gs)"
  let ?c = "\<lambda>k. projr (?h k)"
  have ks: "mset ?ks = mset ?ls" by (rule group_by_keys_perm) (metis perm mset_eq_setD)
  obtain cl where cl: "mapE ?h ?ks = Inr cl" "cs = sort_key cluster_order cl"
    using fs by (auto simp: dedup_by_key py_simps)
  note ls = mapE_perm [OF cl(1) ks]
  have h: "cluster_from_group (filter (\<lambda>f. group_key f = k) gs) = ?h k" for k
    using perm inj by (intro cluster_from_group_cong [symmetric])
      (auto simp: mset_filter intro: inj_on_subset)
  have key: "k = (cl_code (?c k), cl_affected_endpoint (?c k), cl_policy_profile (?c k), v)"
    if k: "k \<in> set ?ks" for k
  proof -
    obtain c where c: "?h k = Inr c" using mapE_Inr_ex [OF cl(1) k] by blast
    have "k \<in> group_key ` set fs" using k by (simp only: group_by_keys)
    then have ne: "filter (\<lambda>f. group_key f = k) fs \<noteq> []" and "snd (snd (snd k)) = v"
      using pack by (auto simp: filter_empty_conv group_key_def)
    then show ?thesis using cluster_key [OF c ne, of k] c by simp
  qed
  have "inj_on cluster_order (?c ` set ?ks)"
  proof (rule inj_onI)
    fix a b assume "a \<in> ?c ` set ?ks" "b \<in> ?c ` set ?ks" "cluster_order a = cluster_order b"
    then obtain k l where "k \<in> set ?ks" "l \<in> set ?ks" "a = ?c k" "b = ?c l" by blast
    moreover from this have "k = l"
      using key [of k] key [of l] \<open>cluster_order a = cluster_order b\<close> by (simp add: cluster_order_def)
    ultimately show "a = b" by simp
  qed
  then have "sort_key cluster_order (map ?c ?ks) = sort_key cluster_order (map ?c ?ls)"
    using ks by (intro sort_key_mset_cong) (simp_all only: mset_map set_map)
  then show ?thesis using ls cl(2) by (simp only: dedup_by_key h bindE_simps)
qed

lemma dedup_total:
  assumes "list_all finding_ok fs" and "length fs \<le> 4096"
    and "same_awareness (map fi_policy_evaluation_time fs)"
  shows "\<exists>cs. dedup_findings fs = Inr cs"
proof -
  have "\<exists>c. cluster_from_group ms = Inr c" if ms: "ms \<in> set (map snd (group_by group_key fs))" for ms
  proof (rule cluster_from_group_total)
    obtain k where k: "ms = filter (\<lambda>f. group_key f = k) fs" using group_members(3) [OF ms] by (elim exE)
    show "ms \<noteq> []" by (rule group_members(1) [OF ms])
    show "list_all finding_ok ms" using assms(1) by (simp add: k list_all_iff)
    show "length ms \<le> 4096" unfolding k by (rule order_trans [OF length_filter_le assms(2)])
    show "same_awareness (map fi_policy_evaluation_time ms)"
      using assms(3) by (auto simp: k same_awareness_def list_all_iff)
  qed
  then obtain cl where "mapE cluster_from_group (map snd (group_by group_key fs)) = Inr cl"
    using mapE_ex by blast
  then show ?thesis by (simp add: dedup_findings_def)
qed

definition sample_finding :: "char \<Rightarrow> finding_outcome \<Rightarrow> finding" where
  "sample_finding d oc = \<lparr>fi_finding_id = replicate 64 d, fi_code = ''SM-TLS-001'', fi_outcome = oc,
     fi_title = ''title'', fi_rationale = ''rationale'', fi_standards = [], fi_remediation_id = ''fix'',
     fi_severity = SV_HIGH, fi_evaluation_state = ES_VERIFIED, fi_basis_state = ES_OBSERVED,
     fi_policy_profile = ''ietf_current'', fi_policy_pack_version = replicate 64 (CHR ''0''),
     fi_rule_effective_from = 0, fi_rule_effective_until = None,
     fi_policy_evaluation_time = \<lparr>dt_wall = 0, dt_offset = Some 0\<rparr>,
     fi_affected_endpoint = ''10.0.0.2:25'', fi_evidence_references = []\<rparr>"

definition sample_findings :: "finding list" where
  "sample_findings = [sample_finding (CHR ''a'') FO_INDETERMINATE, sample_finding (CHR ''b'') FO_NEGATIVE]"

lemma sample_findings_ok:
  "list_all finding_ok sample_findings" "length sample_findings = 2"
  "same_awareness (map fi_policy_evaluation_time sample_findings)"
  "inj_on fi_finding_id (set sample_findings)"
  "f \<in> set sample_findings \<Longrightarrow> fi_policy_pack_version f = replicate 64 (CHR ''0'')"
  by (auto simp: sample_findings_def sample_finding_def finding_ok_def len_in_def is_sha256_hex_def
      is_lower_hex_def same_awareness_def list_all_iff replicate_eq_replicate)

section \<open>Properties\<close>

text \<open>Deduplication never raises on an admissible batch: at most 4096 findings that satisfy the
  constraints of their model, with evaluation times that are all naive or all aware.\<close>

theorem dedup_never_raises:
  assumes "list_all finding_ok findings" and "length findings \<le> 4096"
    and "same_awareness (map fi_policy_evaluation_time findings)"
  shows "\<exists>clusters. dedup_findings findings = Inr clusters"
  using assms by (rule dedup_total)

theorem dedup_never_raises_witness: "\<exists>clusters. dedup_findings sample_findings = Inr clusters"
  by (rule dedup_never_raises) (simp_all add: sample_findings_ok)

text \<open>C28: Deduplication conserves the findings: the clusters' contributing identifiers, taken together,
  are the identifiers of the input, each as often as it occurs there; the recurrence counts add up to
  the number of findings; and the clusters come out in the order of their key.\<close>

theorem dedup_conserves:
  assumes "dedup_findings findings = Inr clusters"
  shows "mset (concat (map cl_contributing_finding_ids clusters)) = mset (map fi_finding_id findings)
    \<and> sum_list (map cl_recurrence_count clusters) = length findings
    \<and> sorted (map cluster_order clusters)"
proof -
  have "cl_recurrence_count c = length (cl_contributing_finding_ids c)" if "c \<in> set clusters" for c
    by (rule dedup_member [OF assms that]) (elim cluster_from_group_cases, simp)
  then have "sum_list (map cl_recurrence_count clusters) = length (concat (map cl_contributing_finding_ids clusters))"
    by (simp add: length_concat comp_def cong: map_cong)
  moreover have "length (concat (map cl_contributing_finding_ids clusters)) = length findings"
    using arg_cong [OF dedup_ids [OF assms], of size] by simp
  moreover have "sorted (map cluster_order clusters)"
    using assms by (auto simp: dedup_findings_def py_simps)
  ultimately show ?thesis using dedup_ids [OF assms] by simp
qed

theorem dedup_conserves_witness:
  "\<exists>clusters. dedup_findings sample_findings = Inr clusters
     \<and> sum_list (map cl_recurrence_count clusters) = 2"
  using dedup_total [OF sample_findings_ok(1) _ sample_findings_ok(3)] sample_findings_ok(2)
    dedup_conserves [of sample_findings] by force

text \<open>C29: A cluster is a faithful summary of the findings that share its key. It is negative exactly if one
  of them is; its severity is the highest and its basis state the weakest among the decisive members
  (the negative ones if there are any); its occurrences are counted once per distinct record.\<close>

theorem dedup_cluster_summary:
  assumes "dedup_findings findings = Inr clusters" and "c \<in> set clusters"
  shows "\<exists>k. let members = filter (\<lambda>f. group_key f = k) findings;
      decisive = {f \<in> set members. fi_outcome f = cl_outcome c}
    in k = (cl_code c, cl_affected_endpoint c, cl_policy_profile c, snd (snd (snd k)))
     \<and> cl_contributing_finding_ids c = sort (map fi_finding_id members)
     \<and> (cl_outcome c = FO_NEGATIVE \<longleftrightarrow> (\<exists>f \<in> set members. fi_outcome f = FO_NEGATIVE))
     \<and> cl_severity c \<in> fi_severity ` decisive
     \<and> (\<forall>f \<in> decisive. severity_rank (fi_severity f) \<le> severity_rank (cl_severity c))
     \<and> cl_basis_state c \<in> fi_basis_state ` decisive
     \<and> (\<forall>f \<in> decisive. state_rank (cl_basis_state c) \<le> state_rank (fi_basis_state f))
     \<and> cl_recurrence_count c = length members
     \<and> cl_unique_occurrences c = card (occurrence_key ` set members)"
proof -
  obtain k where c: "cluster_from_group (filter (\<lambda>f. group_key f = k) findings) = Inr c"
    and ne: "filter (\<lambda>f. group_key f = k) findings \<noteq> []"
    using dedup_member [OF assms] by blast
  let ?m = "filter (\<lambda>f. group_key f = k) findings" let ?o = "sort_key fi_finding_id ?m"
  let ?d = "{f \<in> set ?m. fi_outcome f = cl_outcome c}"
  have key: "k = (cl_code c, cl_affected_endpoint c, cl_policy_profile c, snd (snd (snd k)))"
    by (rule cluster_key [OF c ne]) simp
  have ids: "map fi_finding_id ?o = sort (map fi_finding_id ?m)"
    by (rule properties_for_sort [symmetric]) simp_all
  from c show ?thesis
  proof (rule cluster_from_group_cases)
    fix ordered
    assume o: "ordered = ?o" and f: "cl_contributing_finding_ids c = map fi_finding_id ordered"
      "cl_recurrence_count c = length ordered" "cl_unique_occurrences c = card (occurrence_key ` set ordered)"
      "cl_outcome c = (if \<exists>f \<in> set ordered. fi_outcome f = FO_NEGATIVE then FO_NEGATIVE else FO_INDETERMINATE)"
      "cl_severity c = max_severity (pick_primary ordered)"
      "cl_basis_state c = weakest_basis (pick_primary ordered)"
    have out: "cl_outcome c = FO_NEGATIVE \<longleftrightarrow> (\<exists>f \<in> set ?m. fi_outcome f = FO_NEGATIVE)"
      using f(4) by (simp add: o)
    have d: "set (pick_primary ordered) = ?d"
      using out by (auto simp: o pick_primary_set) (metis finding_outcome.exhaust)+
    have p: "pick_primary ordered \<noteq> []" using ne by (intro pick_primary_ne) (metis o set_empty set_sort)
    show ?thesis
      by (rule exI [of _ k], unfold Let_def, intro conjI key out)
         (use max_severity_grade [OF p] weakest_basis_grade [OF p] f d ids o in simp_all)
  qed
qed

theorem dedup_cluster_summary_witness:
  "\<exists>clusters. dedup_findings sample_findings = Inr clusters
     \<and> list_all (\<lambda>c. cl_severity c = SV_HIGH) clusters"
proof -
  obtain cs where cs: "dedup_findings sample_findings = Inr cs"
    using dedup_total [OF sample_findings_ok(1) _ sample_findings_ok(3)] sample_findings_ok(2) by auto
  have "cl_severity c = SV_HIGH" if "c \<in> set cs" for c
  proof -
    have "fi_severity f = SV_HIGH" if "f \<in> set sample_findings" for f
      using that by (auto simp: sample_findings_def sample_finding_def)
    with dedup_cluster_summary [OF cs that] show ?thesis by (auto simp: Let_def)
  qed
  with cs show ?thesis by (auto simp: list_all_iff)
qed

text \<open>The order of the input does not matter, when identifiers tell findings apart and one policy pack
  version produced them all: any reordering of the batch gives the same clusters in the same order.\<close>

theorem dedup_order_irrelevant:
  assumes "mset findings = mset reordered" and "inj_on fi_finding_id (set findings)"
    and "\<forall>f \<in> set findings. fi_policy_pack_version f = v"
    and "dedup_findings findings = Inr clusters"
  shows "dedup_findings reordered = Inr clusters"
  by (rule dedup_perm [OF assms(1,2) bspec [OF assms(3)] assms(4)])

theorem dedup_order_irrelevant_witness:
  "\<exists>clusters. dedup_findings sample_findings = Inr clusters
     \<and> dedup_findings (rev sample_findings) = Inr clusters"
proof -
  obtain cs where cs: "dedup_findings sample_findings = Inr cs"
    using dedup_total [OF sample_findings_ok(1) _ sample_findings_ok(3)] sample_findings_ok(2) by auto
  have "dedup_findings (rev sample_findings) = Inr cs"
    by (rule dedup_order_irrelevant [OF _ sample_findings_ok(4) ballI [OF sample_findings_ok(5)] cs]) simp
  with cs show ?thesis by blast
qed

end
