(* ===== verification/Scoring.thy ===== *)
theory Scoring
  imports Findings
begin

text \<open>
  Priority scores and posture (\<open>domain/findings/scoring.py\<close>, \<open>posture.py\<close>) and the orchestration
  \<open>score_findings\<close> of \<open>application/run_analysis.py\<close>. The scored finding repeats every field of the
  cluster it comes from and adds the score, so its record extends the cluster's.

  Shown here: the score is the plain sum of its six addends and never exceeds 100, so the \<open>min\<close> in the
  code never bites; it grows with severity, confidence and recurrence; the coverage matrix counts the
  checks of every cell exactly and its validator never fails; and scoring returns for every valid
  request, with a priority list that is a sorted permutation of the clusters and a risk score that is
  zero only under complete coverage.
\<close>

section \<open>Scores (scoring.py)\<close>

fun severity_points :: "finding_severity \<Rightarrow> nat" where
  "severity_points SV_HIGH = 50"
| "severity_points SV_MEDIUM = 30"
| "severity_points SV_LOW = 15"
| "severity_points SV_INFORMATIONAL = 0"

fun confidence_points :: "evidence_state \<Rightarrow> nat" where
  "confidence_points ES_VERIFIED = 20"
| "confidence_points ES_OBSERVED = 16"
| "confidence_points ES_INFERRED = 12"
| "confidence_points ES_INCOMPLETE = 6"
| "confidence_points ES_CONFLICTING = 3"
| "confidence_points ES_INDETERMINATE = 2"
| "confidence_points ES_NOT_OBSERVABLE = 0"

definition recurrence_step :: nat where "recurrence_step = 2"

definition recurrence_cap :: nat where "recurrence_cap = 10"

datatype exposure_class = EX_PUBLIC | EX_PARTNER | EX_INTERNAL | EX_ISOLATED | EX_UNKNOWN

datatype asset_criticality = AC_CRITICAL | AC_HIGH | AC_MEDIUM | AC_LOW | AC_UNKNOWN

datatype blast_radius = BR_ORGANIZATION | BR_MULTI_ASSET | BR_SINGLE_ENDPOINT | BR_UNKNOWN

fun exposure_points :: "exposure_class \<Rightarrow> nat" where
  "exposure_points EX_PUBLIC = 10"
| "exposure_points EX_PARTNER = 8"
| "exposure_points EX_INTERNAL = 5"
| "exposure_points EX_ISOLATED = 2"
| "exposure_points EX_UNKNOWN = 4"

fun criticality_points :: "asset_criticality \<Rightarrow> nat" where
  "criticality_points AC_CRITICAL = 5"
| "criticality_points AC_HIGH = 4"
| "criticality_points AC_MEDIUM = 3"
| "criticality_points AC_LOW = 1"
| "criticality_points AC_UNKNOWN = 2"

fun blast_radius_points :: "blast_radius \<Rightarrow> nat" where
  "blast_radius_points BR_ORGANIZATION = 5"
| "blast_radius_points BR_MULTI_ASSET = 3"
| "blast_radius_points BR_SINGLE_ENDPOINT = 1"
| "blast_radius_points BR_UNKNOWN = 1"

record asset_context =
  ac_endpoint :: string
  ac_exposure :: exposure_class
  ac_asset_criticality :: asset_criticality
  ac_blast_radius :: blast_radius

definition asset_context_ok :: "asset_context \<Rightarrow> bool" where
  "asset_context_ok a = len_in 1 300 (ac_endpoint a)"

record score_input =
  si_severity :: finding_severity
  si_basis_state :: evidence_state
  si_exposure :: exposure_class
  si_unique_occurrences :: nat
  si_asset_criticality :: asset_criticality
  si_blast_radius :: blast_radius

definition score_input_ok :: "score_input \<Rightarrow> bool" where
  "score_input_ok i = (1 \<le> si_unique_occurrences i \<and> si_unique_occurrences i \<le> 1000000)"

record score_components =
  sc_severity :: nat
  sc_confidence :: nat
  sc_exposure :: nat
  sc_recurrence :: nat
  sc_asset_criticality :: nat
  sc_blast_radius :: nat

definition score_components_ok :: "score_components \<Rightarrow> bool" where
  "score_components_ok c = (sc_severity c \<le> 50 \<and> sc_confidence c \<le> 20 \<and> sc_exposure c \<le> 10
     \<and> sc_recurrence c \<le> 10 \<and> sc_asset_criticality c \<le> 5 \<and> sc_blast_radius c \<le> 5)"

record score_vector =
  sv_score :: nat
  sv_components :: score_components

definition recurrence_points :: "nat \<Rightarrow> nat result" where
  "recurrence_points unique_occurrences =
    (if unique_occurrences < 1 then Inl ValueError
     else Inr (min recurrence_cap (recurrence_step * (unique_occurrences - 1))))"

definition compute_score :: "score_input \<Rightarrow> score_vector result" where
  "compute_score inputs =
    bindE (recurrence_points (si_unique_occurrences inputs)) (\<lambda>recurrence.
    let c = \<lparr>sc_severity = severity_points (si_severity inputs),
             sc_confidence = confidence_points (si_basis_state inputs),
             sc_exposure = exposure_points (si_exposure inputs),
             sc_recurrence = recurrence,
             sc_asset_criticality = criticality_points (si_asset_criticality inputs),
             sc_blast_radius = blast_radius_points (si_blast_radius inputs)\<rparr>
    in bindE (check_model (score_components_ok c) c) (\<lambda>components.
       let total = sc_severity components + sc_confidence components + sc_exposure components
             + sc_recurrence components + sc_asset_criticality components + sc_blast_radius components;
           v = \<lparr>sv_score = min 100 total, sv_components = components\<rparr>
       in check_model (sv_score v \<le> 100) v))"

section \<open>Posture (posture.py)\<close>

fun outcome_rank :: "finding_outcome \<Rightarrow> nat" where
  "outcome_rank FO_NEGATIVE = 0"
| "outcome_rank FO_INDETERMINATE = 1"

fun severity_order :: "finding_severity \<Rightarrow> nat" where
  "severity_order SV_HIGH = 0"
| "severity_order SV_MEDIUM = 1"
| "severity_order SV_LOW = 2"
| "severity_order SV_INFORMATIONAL = 3"

datatype check_category = CC_TRANSPORT | CC_MAIL_PROTOCOL | CC_TLS_HANDSHAKE | CC_CERTIFICATE

datatype coverage_protocol = CP_SMTP | CP_IMAP | CP_POP3 | CP_UNCLASSIFIED

datatype policy_check_outcome = PC_PASS | PC_FAIL | PC_UNKNOWN | PC_NOT_OBSERVABLE

datatype assessment_state = AS_COMPLETE | AS_LIMITED | AS_NONE

fun cc_value :: "check_category \<Rightarrow> string" where
  "cc_value CC_TRANSPORT = ''transport''"
| "cc_value CC_MAIL_PROTOCOL = ''mail_protocol''"
| "cc_value CC_TLS_HANDSHAKE = ''tls_handshake''"
| "cc_value CC_CERTIFICATE = ''certificate''"

fun cp_value :: "coverage_protocol \<Rightarrow> string" where
  "cp_value CP_SMTP = ''smtp''"
| "cp_value CP_IMAP = ''imap''"
| "cp_value CP_POP3 = ''pop3''"
| "cp_value CP_UNCLASSIFIED = ''unclassified''"

record policy_check =
  pk_check_id :: string
  pk_code :: string
  pk_category :: check_category
  pk_protocol :: coverage_protocol
  pk_affected_endpoint :: string
  pk_record_type :: evidence_record_type
  pk_record_key :: string
  pk_outcome :: policy_check_outcome
  pk_evidence_state :: evidence_state
  pk_title :: string

definition policy_check_ok :: "policy_check \<Rightarrow> bool" where
  "policy_check_ok p = (is_sha256_hex (pk_check_id p) \<and> len_in 1 64 (pk_code p)
     \<and> len_in 1 300 (pk_affected_endpoint p) \<and> len_in 1 160 (pk_record_key p) \<and> len_in 1 160 (pk_title p))"

record coverage_counts =
  cn_applicable_count :: nat
  cn_passed_count :: nat
  cn_failed_count :: nat
  cn_unknown_count :: nat
  cn_not_observable_count :: nat

definition reconcile :: "coverage_counts \<Rightarrow> bool" where
  "reconcile c = (cn_passed_count c + cn_failed_count c + cn_unknown_count c + cn_not_observable_count c
     = cn_applicable_count c)"

record coverage_matrix =
  cm_overall :: coverage_counts
  cm_by_protocol :: "(string, coverage_counts) dict"
  cm_by_category :: "(string, coverage_counts) dict"
  cm_by_protocol_and_category :: "(string, (string, coverage_counts) dict) dict"

record scored_endpoint_finding = endpoint_finding_cluster +
  se_score :: nat
  se_components :: score_components
  se_exposure :: exposure_class
  se_asset_criticality :: asset_criticality
  se_blast_radius :: blast_radius

definition scored_ok :: "scored_endpoint_finding \<Rightarrow> bool" where
  "scored_ok c =
    (is_sha256_hex (cl_finding_id c) \<and> len_in 1 64 (cl_code c) \<and> len_in 1 160 (cl_title c)
     \<and> len_in 1 1000 (cl_rationale c) \<and> len_in 0 8 (cl_standards c) \<and> len_in 1 64 (cl_remediation_id c)
     \<and> len_in 1 64 (cl_policy_profile c) \<and> is_sha256_hex (cl_policy_pack_version c)
     \<and> len_in 1 300 (cl_affected_endpoint c)
     \<and> 1 \<le> cl_recurrence_count c \<and> 1 \<le> cl_unique_occurrences c
     \<and> len_in 1 4096 (cl_contributing_finding_ids c) \<and> len_in 1 4096 (cl_contributing_occurrences c)
     \<and> len_in 0 1024 (cl_evidence_references c) \<and> se_score c \<le> 100)"

record posture_assessment =
  po_assessment_state :: assessment_state
  po_risk_score :: "nat option"
  po_prioritized_findings :: "scored_endpoint_finding list"
  po_coverage :: coverage_matrix

definition scored_from_cluster :: "endpoint_finding_cluster \<Rightarrow> nat \<Rightarrow> score_components \<Rightarrow> exposure_class
    \<Rightarrow> asset_criticality \<Rightarrow> blast_radius \<Rightarrow> scored_endpoint_finding result" where
  "scored_from_cluster cluster score components exposure asset_criticality blast_radius =
    (let s = endpoint_finding_cluster.extend cluster
           (scored_endpoint_finding.fields score components exposure asset_criticality blast_radius)
     in check_model (scored_ok s) s)"

definition priority_key :: "scored_endpoint_finding \<Rightarrow> int \<times> nat \<times> nat \<times> string \<times> string \<times> string" where
  "priority_key s = (- int (se_score s), outcome_rank (cl_outcome s), severity_order (cl_severity s),
     cl_code s, cl_affected_endpoint s, cl_finding_id s)"

definition prioritize_findings :: "scored_endpoint_finding list \<Rightarrow> scored_endpoint_finding list" where
  "prioritize_findings findings = sort_key priority_key findings"

definition zero_counts :: coverage_counts where
  "zero_counts = \<lparr>cn_applicable_count = 0, cn_passed_count = 0, cn_failed_count = 0,
     cn_unknown_count = 0, cn_not_observable_count = 0\<rparr>"

definition increment :: "coverage_counts \<Rightarrow> policy_check_outcome \<Rightarrow> coverage_counts result" where
  "increment counts outcome =
    (let c = \<lparr>cn_applicable_count = cn_applicable_count counts + 1,
              cn_passed_count = cn_passed_count counts + (if outcome = PC_PASS then 1 else 0),
              cn_failed_count = cn_failed_count counts + (if outcome = PC_FAIL then 1 else 0),
              cn_unknown_count = cn_unknown_count counts + (if outcome = PC_UNKNOWN then 1 else 0),
              cn_not_observable_count = cn_not_observable_count counts
                + (if outcome = PC_NOT_OBSERVABLE then 1 else 0)\<rparr>
     in check_model (reconcile c) c)"

definition get_counts :: "(string, coverage_counts) dict \<Rightarrow> string \<Rightarrow> coverage_counts" where
  "get_counts d k = (case map_of d k of None \<Rightarrow> zero_counts | Some c \<Rightarrow> c)"

definition count_step :: "policy_check \<Rightarrow> coverage_matrix \<Rightarrow> coverage_matrix result" where
  "count_step check m =
    (let protocol = cp_value (pk_protocol check); category = cc_value (pk_category check);
         outcome = pk_outcome check;
         row = (case map_of (cm_by_protocol_and_category m) protocol of None \<Rightarrow> [] | Some r \<Rightarrow> r)
     in bindE (increment (cm_overall m) outcome) (\<lambda>overall.
        bindE (increment (get_counts (cm_by_protocol m) protocol) outcome) (\<lambda>p.
        bindE (increment (get_counts (cm_by_category m) category) outcome) (\<lambda>c.
        bindE (increment (get_counts row category) outcome) (\<lambda>cell.
        Inr \<lparr>cm_overall = overall,
             cm_by_protocol = AList.update protocol p (cm_by_protocol m),
             cm_by_category = AList.update category c (cm_by_category m),
             cm_by_protocol_and_category =
               AList.update protocol (AList.update category cell row) (cm_by_protocol_and_category m)\<rparr>)))))"

definition empty_matrix :: coverage_matrix where
  "empty_matrix = \<lparr>cm_overall = zero_counts, cm_by_protocol = [], cm_by_category = [],
     cm_by_protocol_and_category = []\<rparr>"

definition aggregate_coverage :: "policy_check list \<Rightarrow> coverage_matrix result" where
  "aggregate_coverage checks =
    bindE (foldE count_step checks empty_matrix) (\<lambda>m.
      Inr \<lparr>cm_overall = cm_overall m,
           cm_by_protocol = sort_key fst (cm_by_protocol m),
           cm_by_category = sort_key fst (cm_by_category m),
           cm_by_protocol_and_category =
             map (\<lambda>(p, row). (p, sort_key fst row)) (sort_key fst (cm_by_protocol_and_category m))\<rparr>)"

definition mk_assessment_state :: "coverage_counts \<Rightarrow> assessment_state" where
  "mk_assessment_state coverage =
    (if cn_applicable_count coverage = 0 then AS_NONE
     else if 0 < cn_unknown_count coverage \<or> 0 < cn_not_observable_count coverage then AS_LIMITED
     else AS_COMPLETE)"

definition mk_risk_score :: "assessment_state \<Rightarrow> scored_endpoint_finding list \<Rightarrow> nat option" where
  "mk_risk_score state findings =
    (if findings \<noteq> [] then Some (Max (set (map se_score findings)))
     else if state = AS_COMPLETE then Some 0
     else None)"

definition posture_ok :: "posture_assessment \<Rightarrow> bool" where
  "posture_ok p = ((case po_risk_score p of None \<Rightarrow> True | Some r \<Rightarrow> r \<le> 100)
     \<and> length (po_prioritized_findings p) \<le> 4096)"

definition build_posture :: "scored_endpoint_finding list \<Rightarrow> policy_check list \<Rightarrow> posture_assessment result" where
  "build_posture findings checks =
    (let ordered = prioritize_findings findings in
     bindE (aggregate_coverage checks) (\<lambda>coverage.
     let state = mk_assessment_state (cm_overall coverage);
         p = \<lparr>po_assessment_state = state, po_risk_score = mk_risk_score state ordered,
              po_prioritized_findings = ordered, po_coverage = coverage\<rparr>
     in check_model (posture_ok p) p))"

definition empty_posture_assessment :: "posture_assessment result" where
  "empty_posture_assessment = build_posture [] []"

section \<open>Scoring a request (run\_analysis.py)\<close>

record score_request =
  sq_findings :: "finding list"
  sq_policy_checks :: "policy_check list"
  sq_asset_context :: "asset_context list"

definition score_request_ok :: "score_request \<Rightarrow> bool" where
  "score_request_ok r = (list_all finding_ok (sq_findings r) \<and> length (sq_findings r) \<le> 4096
     \<and> list_all policy_check_ok (sq_policy_checks r) \<and> length (sq_policy_checks r) \<le> 16384
     \<and> list_all asset_context_ok (sq_asset_context r) \<and> length (sq_asset_context r) \<le> 1024)"

definition score_cluster :: "(string, asset_context) dict \<Rightarrow> endpoint_finding_cluster
    \<Rightarrow> scored_endpoint_finding result" where
  "score_cluster context_by_endpoint cluster =
    (let context = map_of context_by_endpoint (cl_affected_endpoint cluster);
         exposure = (case context of None \<Rightarrow> EX_UNKNOWN | Some c \<Rightarrow> ac_exposure c);
         criticality = (case context of None \<Rightarrow> AC_UNKNOWN | Some c \<Rightarrow> ac_asset_criticality c);
         blast = (case context of None \<Rightarrow> BR_UNKNOWN | Some c \<Rightarrow> ac_blast_radius c);
         i = \<lparr>si_severity = cl_severity cluster, si_basis_state = cl_basis_state cluster,
              si_exposure = exposure, si_unique_occurrences = cl_unique_occurrences cluster,
              si_asset_criticality = criticality, si_blast_radius = blast\<rparr>
     in bindE (check_model (score_input_ok i) i) (\<lambda>inputs.
        bindE (compute_score inputs) (\<lambda>vector.
        scored_from_cluster cluster (sv_score vector) (sv_components vector) exposure criticality blast)))"

definition score_findings :: "score_request \<Rightarrow> posture_assessment result" where
  "score_findings request =
    (let context_by_endpoint = dict_of_last ac_endpoint (sq_asset_context request) in
     bindE (dedup_findings (sq_findings request)) (\<lambda>clusters.
     bindE (mapE (score_cluster context_by_endpoint) clusters) (\<lambda>scored.
     build_posture scored (sq_policy_checks request))))"

section \<open>Lemmas: scores\<close>

lemma severity_points_le [simp]: "severity_points s \<le> 50" by (cases s) simp_all

lemma confidence_points_le [simp]: "confidence_points e \<le> 20" by (cases e) simp_all

lemma exposure_points_le [simp]: "exposure_points x \<le> 10" by (cases x) simp_all

lemma criticality_points_le [simp]: "criticality_points a \<le> 5" by (cases a) simp_all

lemma blast_radius_points_le [simp]: "blast_radius_points b \<le> 5" by (cases b) simp_all

definition recurrence_addend :: "nat \<Rightarrow> nat" where
  "recurrence_addend n = min 10 (2 * (n - 1))"

definition score_total :: "score_input \<Rightarrow> nat" where
  "score_total i = severity_points (si_severity i) + confidence_points (si_basis_state i)
     + exposure_points (si_exposure i) + recurrence_addend (si_unique_occurrences i)
     + criticality_points (si_asset_criticality i) + blast_radius_points (si_blast_radius i)"

lemma score_total_le: "score_total i \<le> 100"
proof -
  have "recurrence_addend (si_unique_occurrences i) \<le> 10" by (simp add: recurrence_addend_def)
  then have "score_total i \<le> 50 + 20 + 10 + 10 + 5 + 5"
    unfolding score_total_def
    by (intro add_mono severity_points_le confidence_points_le exposure_points_le criticality_points_le
        blast_radius_points_le)
  then show ?thesis by simp
qed

lemma compute_score_total:
  assumes "1 \<le> si_unique_occurrences i"
  shows "\<exists>v. compute_score i = Inr v \<and> sv_score v = score_total i
    \<and> sv_components v = \<lparr>sc_severity = severity_points (si_severity i),
        sc_confidence = confidence_points (si_basis_state i), sc_exposure = exposure_points (si_exposure i),
        sc_recurrence = recurrence_addend (si_unique_occurrences i),
        sc_asset_criticality = criticality_points (si_asset_criticality i),
        sc_blast_radius = blast_radius_points (si_blast_radius i)\<rparr>"
  using assms score_total_le [of i]
  by (simp add: compute_score_def recurrence_points_def recurrence_cap_def recurrence_step_def Let_def
      score_components_ok_def recurrence_addend_def score_total_def)

lemma severity_points_mono: "severity_rank a \<le> severity_rank b \<Longrightarrow> severity_points a \<le> severity_points b"
  by (cases a; cases b) simp_all

section \<open>Lemmas: coverage\<close>

text \<open>The specification of a cell: the counts of a list of checks.\<close>

definition counts_of :: "policy_check list \<Rightarrow> coverage_counts" where
  "counts_of cs = \<lparr>cn_applicable_count = length cs,
     cn_passed_count = length (filter (\<lambda>c. pk_outcome c = PC_PASS) cs),
     cn_failed_count = length (filter (\<lambda>c. pk_outcome c = PC_FAIL) cs),
     cn_unknown_count = length (filter (\<lambda>c. pk_outcome c = PC_UNKNOWN) cs),
     cn_not_observable_count = length (filter (\<lambda>c. pk_outcome c = PC_NOT_OBSERVABLE) cs)\<rparr>"

definition cell_of :: "(policy_check \<Rightarrow> bool) \<Rightarrow> policy_check list \<Rightarrow> coverage_counts option" where
  "cell_of P cs = (if filter P cs = [] then None else Some (counts_of (filter P cs)))"

lemma reconcile_counts: "reconcile (counts_of cs)"
proof (induction cs)
  case (Cons c cs)
  then show ?case by (cases "pk_outcome c") (simp_all add: reconcile_def counts_of_def)
qed (simp add: reconcile_def counts_of_def)

lemma increment_counts: "increment (counts_of cs) (pk_outcome c) = Inr (counts_of (cs @ [c]))"
  using reconcile_counts [of "cs @ [c]"]
  by (cases "pk_outcome c") (simp_all add: increment_def Let_def py_simps counts_of_def)

lemma counts_of_Nil: "counts_of [] = zero_counts"
  by (simp add: counts_of_def zero_counts_def)

lemma increment_cell:
  assumes "map_of d k = cell_of P cs" and "P c"
  shows "increment (get_counts d k) (pk_outcome c) = Inr (counts_of (filter P (cs @ [c])))"
    and "cell_of P (cs @ [c]) = Some (counts_of (filter P (cs @ [c])))"
  using assms increment_counts [of "filter P cs" c]
  by (auto simp: get_counts_def cell_of_def simp flip: counts_of_Nil split: if_splits)

lemma cell_of_skip: "\<not> P c \<Longrightarrow> cell_of P (cs @ [c]) = cell_of P cs"
  by (simp add: cell_of_def)

abbreviation in_protocol :: "string \<Rightarrow> policy_check \<Rightarrow> bool" where
  "in_protocol p c \<equiv> cp_value (pk_protocol c) = p"

abbreviation in_category :: "string \<Rightarrow> policy_check \<Rightarrow> bool" where
  "in_category k c \<equiv> cc_value (pk_category c) = k"

text \<open>What the loop of \<open>aggregate_coverage\<close> maintains about the checks seen so far.\<close>

definition row_of :: "coverage_matrix \<Rightarrow> string \<Rightarrow> (string, coverage_counts) dict" where
  "row_of m p = (case map_of (cm_by_protocol_and_category m) p of None \<Rightarrow> [] | Some r \<Rightarrow> r)"

definition matrix_counts :: "coverage_matrix \<Rightarrow> policy_check list \<Rightarrow> bool" where
  "matrix_counts m cs \<longleftrightarrow>
     cm_overall m = counts_of cs
     \<and> (\<forall>p. map_of (cm_by_protocol m) p = cell_of (in_protocol p) cs)
     \<and> (\<forall>k. map_of (cm_by_category m) k = cell_of (in_category k) cs)
     \<and> (\<forall>p k. map_of (row_of m p) k = cell_of (\<lambda>c. in_protocol p c \<and> in_category k c) cs)"

lemma count_step_counts:
  assumes "matrix_counts m cs"
  shows "\<exists>m'. count_step c m = Inr m' \<and> matrix_counts m' (cs @ [c])"
proof -
  let ?p = "cp_value (pk_protocol c)" and ?k = "cc_value (pk_category c)"
  have o: "cm_overall m = counts_of cs"
    and p: "\<And>p. map_of (cm_by_protocol m) p = cell_of (in_protocol p) cs"
    and k: "\<And>k. map_of (cm_by_category m) k = cell_of (in_category k) cs"
    and r: "\<And>p k. map_of (row_of m p) k = cell_of (\<lambda>c. in_protocol p c \<and> in_category k c) cs"
    using assms by (auto simp: matrix_counts_def)
  note ip = increment_cell [OF p [of ?p], of c, simplified]
    and ik = increment_cell [OF k [of ?k], of c, simplified]
    and ir = increment_cell [OF r [of ?p ?k], of c, simplified]
  show ?thesis
    by (simp add: count_step_def Let_def o increment_counts ip(1) ik(1) ir(1) flip: row_of_def)
       (auto simp: matrix_counts_def row_of_def update_conv' p k r [unfolded row_of_def] ip(2) ik(2) ir(2)
         cell_of_skip)
qed

lemma foldE_counts:
  "matrix_counts m pre \<Longrightarrow> \<exists>m'. foldE count_step cs m = Inr m' \<and> matrix_counts m' (pre @ cs)"
proof (induction cs arbitrary: m pre)
  case (Cons c cs)
  obtain m' where "count_step c m = Inr m'" "matrix_counts m' (pre @ [c])"
    using count_step_counts [OF Cons.prems] by blast
  then show ?case using Cons.IH [of m' "pre @ [c]"] by simp
qed simp

lemma map_of_sort_key_fst:
  assumes "distinct (map fst d)"
  shows "map_of (sort_key fst d) k = map_of d k"
proof -
  have "mset (map fst (sort_key fst d)) = mset (map fst d)" by simp
  then have "distinct (map fst (sort_key fst d))"
    using assms mset_eq_imp_distinct_iff by blast
  then have "map_of (sort_key fst d) = map_of d" using assms by (simp add: map_of_inject_set)
  then show ?thesis by simp
qed

lemma row_of_update:
  "cm_by_protocol_and_category m' = AList.update q r (cm_by_protocol_and_category m) \<Longrightarrow>
     row_of m' p = (if p = q then r else row_of m p)"
  by (simp add: row_of_def update_conv')

lemma row_of_sorted:
  assumes "distinct (map fst (cm_by_protocol_and_category m))"
    and "cm_by_protocol_and_category m' =
      map (\<lambda>(p, row). (p, sort_key fst row)) (sort_key fst (cm_by_protocol_and_category m))"
  shows "row_of m' p = sort_key fst (row_of m p)"
  using assms by (simp add: row_of_def map_of_map map_of_sort_key_fst split: option.split)

text \<open>The dictionaries of the matrix have one entry per key.\<close>

definition matrix_keys :: "coverage_matrix \<Rightarrow> bool" where
  "matrix_keys m = (distinct (map fst (cm_by_protocol m)) \<and> distinct (map fst (cm_by_category m))
     \<and> distinct (map fst (cm_by_protocol_and_category m))
     \<and> (\<forall>p. distinct (map fst (row_of m p))))"

lemma count_step_keys: "matrix_keys m \<Longrightarrow> count_step c m = Inr m' \<Longrightarrow> matrix_keys m'"
  by (auto simp: count_step_def Let_def py_simps matrix_keys_def distinct_update
      row_of_update [of _ _ _ m] simp flip: row_of_def)

lemma foldE_keys: "foldE count_step cs m = Inr m' \<Longrightarrow> matrix_keys m \<Longrightarrow> matrix_keys m'"
  by (erule foldE_invariant [where P = matrix_keys]) (simp_all add: count_step_keys)

lemma aggregate_coverage_counts:
  "\<exists>m. aggregate_coverage cs = Inr m \<and> matrix_counts m cs"
proof -
  have "matrix_counts empty_matrix []"
    by (simp add: matrix_counts_def empty_matrix_def counts_of_Nil cell_of_def row_of_def)
  then obtain m where m: "foldE count_step cs empty_matrix = Inr m" "matrix_counts m cs"
    using foldE_counts [of empty_matrix "[]" cs] by auto
  have "matrix_keys empty_matrix" by (simp add: matrix_keys_def empty_matrix_def row_of_def)
  then have keys: "matrix_keys m" by (rule foldE_keys [OF m(1)])
  let ?m = "\<lparr>cm_overall = cm_overall m, cm_by_protocol = sort_key fst (cm_by_protocol m),
    cm_by_category = sort_key fst (cm_by_category m),
    cm_by_protocol_and_category =
      map (\<lambda>(p, row). (p, sort_key fst row)) (sort_key fst (cm_by_protocol_and_category m))\<rparr>"
  have "map_of (row_of ?m p) k = map_of (row_of m p) k" for p k
    using keys row_of_sorted [of m ?m p] by (simp add: matrix_keys_def map_of_sort_key_fst)
  then have "matrix_counts ?m cs"
    using m(2) keys by (simp add: matrix_counts_def matrix_keys_def map_of_sort_key_fst)
  then show ?thesis using m(1) by (auto simp: aggregate_coverage_def)
qed

section \<open>Lemmas: scoring a request\<close>

lemma scored_fields:
  defines "ext c x cs e a b \<equiv> endpoint_finding_cluster.extend c (scored_endpoint_finding.fields x cs e a b)"
  shows "endpoint_finding_cluster.truncate (ext c x cs e a b) = c"
    and "se_score (ext c x cs e a b) = x"
  by (simp_all add: ext_def endpoint_finding_cluster.defs scored_endpoint_finding.defs)

lemma score_cluster_total:
  assumes "cluster_ok c"
  shows "\<exists>s. score_cluster ctx c = Inr s \<and> endpoint_finding_cluster.truncate s = c
    \<and> se_score s \<le> 100"
proof -
  have occ: "1 \<le> cl_unique_occurrences c" "cl_unique_occurrences c \<le> 1000000"
    using assms by (auto simp: cluster_ok_def)
  define i where "i = (let context = map_of ctx (cl_affected_endpoint c) in
    \<lparr>si_severity = cl_severity c, si_basis_state = cl_basis_state c,
     si_exposure = (case context of None \<Rightarrow> EX_UNKNOWN | Some c \<Rightarrow> ac_exposure c),
     si_unique_occurrences = cl_unique_occurrences c,
     si_asset_criticality = (case context of None \<Rightarrow> AC_UNKNOWN | Some c \<Rightarrow> ac_asset_criticality c),
     si_blast_radius = (case context of None \<Rightarrow> BR_UNKNOWN | Some c \<Rightarrow> ac_blast_radius c)\<rparr>)"
  obtain v where v: "compute_score i = Inr v" "sv_score v = score_total i"
    using compute_score_total [of i] occ by (auto simp: i_def Let_def)
  have "score_input_ok i" using occ by (simp add: score_input_ok_def i_def Let_def)
  then have "score_cluster ctx c = scored_from_cluster c (sv_score v) (sv_components v)
      (si_exposure i) (si_asset_criticality i) (si_blast_radius i)"
    using v by (simp add: score_cluster_def i_def Let_def)
  moreover have "sv_score v \<le> 100" using v(2) score_total_le by simp
  ultimately show ?thesis
    using assms
    by (simp add: scored_from_cluster_def Let_def py_simps scored_ok_def cluster_ok_def
        endpoint_finding_cluster.defs scored_endpoint_finding.defs)
qed

lemma mapE_score_clusters:
  assumes "list_all cluster_ok cs"
  shows "\<exists>ss. mapE (score_cluster ctx) cs = Inr ss \<and> map endpoint_finding_cluster.truncate ss = cs
    \<and> list_all (\<lambda>s. se_score s \<le> 100) ss"
  using assms
proof (induction cs)
  case (Cons c cs)
  obtain s where "score_cluster ctx c = Inr s" "endpoint_finding_cluster.truncate s = c" "se_score s \<le> 100"
    using score_cluster_total [of c ctx] Cons.prems by auto
  with Cons show ?case by auto
qed simp

lemma dedup_clusters_ok:
  assumes "dedup_findings fs = Inr cs"
  shows "list_all cluster_ok cs" and "length cs \<le> length fs"
proof -
  have ok: "cluster_ok c" if "c \<in> set cs" for c
    by (rule dedup_member [OF assms that]) (elim cluster_from_group_cases, simp)
  then show "list_all cluster_ok cs" by (simp add: list_all_iff)
  have grow: "length xs \<le> length (concat (map f xs))" if "\<forall>x \<in> set xs. f x \<noteq> []" for f :: "endpoint_finding_cluster \<Rightarrow> string list" and xs
    using that by (induction xs) (auto simp: Suc_le_eq neq_Nil_conv)
  have "length cs \<le> length (concat (map cl_contributing_finding_ids cs))"
  proof -
    have "cl_contributing_finding_ids c \<noteq> []" if "c \<in> set cs" for c
      using ok [OF that] by (auto simp: cluster_ok_def len_in_def)
    then show ?thesis using grow by blast
  qed
  also have "\<dots> = length fs" using arg_cong [OF dedup_ids [OF assms], of size] by simp
  finally show "length cs \<le> length fs" .
qed

lemma build_posture_total:
  assumes "list_all (\<lambda>s. se_score s \<le> 100) ss" and "length ss \<le> 4096"
  shows "\<exists>p. build_posture ss checks = Inr p \<and> matrix_counts (po_coverage p) checks
    \<and> po_prioritized_findings p = prioritize_findings ss
    \<and> po_assessment_state p = mk_assessment_state (counts_of checks)
    \<and> po_risk_score p = mk_risk_score (po_assessment_state p) ss"
proof -
  obtain m where m: "aggregate_coverage checks = Inr m" "matrix_counts m checks"
    using aggregate_coverage_counts by blast
  then have o: "cm_overall m = counts_of checks" by (simp add: matrix_counts_def)
  let ?st = "mk_assessment_state (counts_of checks)"
  let ?p = "\<lparr>po_assessment_state = ?st, po_risk_score = mk_risk_score ?st (prioritize_findings ss),
    po_prioritized_findings = prioritize_findings ss, po_coverage = m\<rparr>"
  have risk: "mk_risk_score st (prioritize_findings ss) = mk_risk_score st ss" for st
    by (simp add: mk_risk_score_def prioritize_findings_def) (metis set_empty set_sort)
  have "Max (se_score ` set ss) \<le> 100" if "ss \<noteq> []"
    using that assms(1) by (subst Max_le_iff) (auto simp: list_all_iff)
  moreover have "length (prioritize_findings ss) \<le> 4096"
    using assms(2) by (simp add: prioritize_findings_def)
  ultimately have "posture_ok ?p"
    unfolding posture_ok_def risk posture_assessment.simps by (auto simp: mk_risk_score_def)
  then show ?thesis using m o risk by (simp add: build_posture_def Let_def)
qed

section \<open>Properties\<close>

text \<open>The published score is exactly the sum of its six named addends and lies in 0 to 100: the cap in
  the code never changes it. No input that satisfies the constraints of its model is rejected.\<close>

theorem compute_score_sum:
  assumes "score_input_ok i"
  shows "\<exists>v. compute_score i = Inr v \<and> sv_score v \<le> 100
    \<and> sv_score v = sc_severity (sv_components v) + sc_confidence (sv_components v)
        + sc_exposure (sv_components v) + sc_recurrence (sv_components v)
        + sc_asset_criticality (sv_components v) + sc_blast_radius (sv_components v)
    \<and> sc_recurrence (sv_components v) = min 10 (2 * (si_unique_occurrences i - 1))
    \<and> sc_severity (sv_components v) = severity_points (si_severity i)
    \<and> sc_confidence (sv_components v) = confidence_points (si_basis_state i)"
proof -
  obtain v where v: "compute_score i = Inr v" "sv_score v = score_total i"
    "sv_components v = \<lparr>sc_severity = severity_points (si_severity i),
        sc_confidence = confidence_points (si_basis_state i), sc_exposure = exposure_points (si_exposure i),
        sc_recurrence = recurrence_addend (si_unique_occurrences i),
        sc_asset_criticality = criticality_points (si_asset_criticality i),
        sc_blast_radius = blast_radius_points (si_blast_radius i)\<rparr>"
    using compute_score_total [of i] assms by (auto simp: score_input_ok_def)
  then show ?thesis using score_total_le [of i] by (simp add: score_total_def recurrence_addend_def)
qed

definition sample_input :: "nat \<Rightarrow> score_input" where
  "sample_input n = \<lparr>si_severity = SV_HIGH, si_basis_state = ES_VERIFIED, si_exposure = EX_PUBLIC,
     si_unique_occurrences = n, si_asset_criticality = AC_CRITICAL, si_blast_radius = BR_ORGANIZATION\<rparr>"

theorem compute_score_sum_witness:
  "\<exists>v. compute_score (sample_input 9) = Inr v \<and> sv_score v \<le> 100
     \<and> sc_recurrence (sv_components v) = 10"
proof -
  have "score_input_ok (sample_input 9)" by (simp add: score_input_ok_def sample_input_def)
  from compute_score_sum [OF this] obtain v where "compute_score (sample_input 9) = Inr v" "sv_score v \<le> 100"
    "sc_recurrence (sv_components v) = min 10 (2 * (si_unique_occurrences (sample_input 9) - 1))" by blast
  then show ?thesis by (simp add: sample_input_def)
qed

text \<open>Priority is monotone: with the same inventory labels and basis, a finding of at least the
  severity and at least as many occurrences never scores lower.\<close>

theorem compute_score_mono:
  assumes "score_input_ok i" and "score_input_ok j"
    and "severity_rank (si_severity i) \<le> severity_rank (si_severity j)"
    and "si_unique_occurrences i \<le> si_unique_occurrences j"
    and "si_basis_state i = si_basis_state j" and "si_exposure i = si_exposure j"
    and "si_asset_criticality i = si_asset_criticality j" and "si_blast_radius i = si_blast_radius j"
  shows "\<exists>v w. compute_score i = Inr v \<and> compute_score j = Inr w \<and> sv_score v \<le> sv_score w"
proof -
  have "score_total i \<le> score_total j"
    unfolding score_total_def assms(5-8) recurrence_addend_def
    using severity_points_mono [OF assms(3)] assms(4) by (intro add_mono) (auto simp: min_def)
  then show ?thesis
    using compute_score_total [of i] compute_score_total [of j] assms(1,2)
    by (auto simp: score_input_ok_def)
qed

theorem compute_score_mono_witness:
  "\<exists>v w. compute_score (sample_input 1) = Inr v \<and> compute_score (sample_input 3) = Inr w
     \<and> sv_score v \<le> sv_score w"
  by (rule compute_score_mono) (simp_all add: sample_input_def score_input_ok_def)

text \<open>The coverage matrix is exact and its validator never fails: for any list of checks the overall
  counts, the counts per protocol, per category and per pair are those of the checks of the cell,
  cells without checks are absent, and in each the four outcomes add up to the applicable ones.\<close>

theorem coverage_exact:
  "\<exists>m. aggregate_coverage checks = Inr m
    \<and> cm_overall m = counts_of checks
    \<and> (\<forall>p. map_of (cm_by_protocol m) p = cell_of (\<lambda>c. cp_value (pk_protocol c) = p) checks)
    \<and> (\<forall>k. map_of (cm_by_category m) k = cell_of (\<lambda>c. cc_value (pk_category c) = k) checks)
    \<and> (\<forall>p k. map_of (row_of m p) k =
          cell_of (\<lambda>c. cp_value (pk_protocol c) = p \<and> cc_value (pk_category c) = k) checks)
    \<and> reconcile (cm_overall m)"
  using aggregate_coverage_counts [of checks] reconcile_counts [of checks]
  by (auto simp: matrix_counts_def)

text \<open>Scoring a valid request always produces a posture. Its priority list contains exactly the
  clusters of the request's findings, each scored at most 100, in priority order.\<close>

theorem score_findings_total:
  assumes "score_request_ok request"
    and "same_awareness (map fi_policy_evaluation_time (sq_findings request))"
  shows "\<exists>clusters posture. dedup_findings (sq_findings request) = Inr clusters
    \<and> score_findings request = Inr posture
    \<and> mset (map endpoint_finding_cluster.truncate (po_prioritized_findings posture)) = mset clusters
    \<and> sorted (map priority_key (po_prioritized_findings posture))
    \<and> list_all (\<lambda>s. se_score s \<le> 100) (po_prioritized_findings posture)
    \<and> cm_overall (po_coverage posture) = counts_of (sq_policy_checks request)"
proof -
  have fs: "list_all finding_ok (sq_findings request)" "length (sq_findings request) \<le> 4096"
    using assms(1) by (simp_all add: score_request_ok_def)
  obtain cs where cs: "dedup_findings (sq_findings request) = Inr cs"
    using dedup_total [OF fs assms(2)] by blast
  obtain ss where ss: "mapE (score_cluster (dict_of_last ac_endpoint (sq_asset_context request))) cs = Inr ss"
      "map endpoint_finding_cluster.truncate ss = cs" "list_all (\<lambda>s. se_score s \<le> 100) ss"
    using mapE_score_clusters [OF dedup_clusters_ok(1) [OF cs]] by blast
  have "length ss \<le> 4096"
    using dedup_clusters_ok(2) [OF cs] fs(2) arg_cong [OF ss(2), of length] by simp
  then obtain p where p: "build_posture ss (sq_policy_checks request) = Inr p"
      "matrix_counts (po_coverage p) (sq_policy_checks request)"
      "po_prioritized_findings p = prioritize_findings ss"
    using build_posture_total [OF ss(3)] by blast
  have "mset (map endpoint_finding_cluster.truncate (po_prioritized_findings p)) = mset cs"
    unfolding p(3) prioritize_findings_def using ss(2) by (metis mset_map mset_sort)
  then show ?thesis
    using cs ss p by (auto simp: score_findings_def prioritize_findings_def list_all_iff matrix_counts_def)
qed

definition sample_request :: score_request where
  "sample_request = \<lparr>sq_findings = sample_findings, sq_policy_checks = [], sq_asset_context = []\<rparr>"

theorem score_findings_total_witness:
  "\<exists>clusters posture. dedup_findings sample_findings = Inr clusters
    \<and> score_findings sample_request = Inr posture
    \<and> mset (map endpoint_finding_cluster.truncate (po_prioritized_findings posture)) = mset clusters"
proof -
  have "score_request_ok sample_request"
    "same_awareness (map fi_policy_evaluation_time (sq_findings sample_request))"
    using sample_findings_ok(1-3) by (simp_all add: score_request_ok_def sample_request_def)
  from score_findings_total [OF this] show ?thesis by (simp add: sample_request_def) blast
qed

lemma assessment_complete_iff:
  "mk_assessment_state (counts_of checks) = AS_COMPLETE \<longleftrightarrow>
     checks \<noteq> [] \<and> list_all (\<lambda>c. pk_outcome c \<in> {PC_PASS, PC_FAIL}) checks"
proof -
  have "oc \<in> {PC_PASS, PC_FAIL} \<longleftrightarrow> oc \<noteq> PC_UNKNOWN \<and> oc \<noteq> PC_NOT_OBSERVABLE" for oc by (cases oc) simp_all
  then show ?thesis
    by (auto simp: mk_assessment_state_def counts_of_def list_all_iff filter_empty_conv)
qed

text \<open>What scoring returns, in terms of the clusters of the findings.\<close>

lemma score_findings_posture:
  assumes "score_findings request = Inr posture" and "list_all finding_ok (sq_findings request)" and "length (sq_findings request) \<le> 4096"
  obtains clusters scored where "dedup_findings (sq_findings request) = Inr clusters"
    and "map endpoint_finding_cluster.truncate scored = clusters"
    and "po_prioritized_findings posture = prioritize_findings scored"
    and "matrix_counts (po_coverage posture) (sq_policy_checks request)"
    and "po_risk_score posture = mk_risk_score (mk_assessment_state (counts_of (sq_policy_checks request))) scored"
proof -
  obtain cs ss where cs: "dedup_findings (sq_findings request) = Inr cs"
      "mapE (score_cluster (dict_of_last ac_endpoint (sq_asset_context request))) cs = Inr ss"
      "build_posture ss (sq_policy_checks request) = Inr posture"
    using assms(1) by (auto simp: score_findings_def Let_def py_simps)
  have ss: "map endpoint_finding_cluster.truncate ss = cs" "list_all (\<lambda>s. se_score s \<le> 100) ss"
    using mapE_score_clusters [OF dedup_clusters_ok(1) [OF cs(1)], of "dict_of_last ac_endpoint (sq_asset_context request)"] cs(2) by auto
  have "length ss \<le> 4096"
    using dedup_clusters_ok(2) [OF cs(1)] assms(3) arg_cong [OF ss(1), of length] by simp
  from build_posture_total [OF ss(2) this, of "sq_policy_checks request"] cs(3)
  have "matrix_counts (po_coverage posture) (sq_policy_checks request)" "po_prioritized_findings posture = prioritize_findings ss"
    "po_risk_score posture = mk_risk_score (mk_assessment_state (counts_of (sq_policy_checks request))) ss" by auto
  then show thesis using that cs(1) ss(1) by blast
qed

text \<open>C21: The risk score never understates: with findings it is the highest score among them; without, it is
  zero only when there are checks and every one of them passed or failed; and there is no risk score
  when coverage is limited or empty.\<close>

theorem risk_score_meaning:
  assumes "list_all (\<lambda>s. se_score s \<le> 100) findings" and "length findings \<le> 4096"
  shows "\<exists>p. build_posture findings checks = Inr p
    \<and> (if findings \<noteq> [] then po_risk_score p = Some (Max (se_score ` set findings))
       else po_risk_score p = (if checks \<noteq> [] \<and>
              list_all (\<lambda>c. pk_outcome c \<in> {PC_PASS, PC_FAIL}) checks then Some 0 else None))"
proof -
  obtain p where p: "build_posture findings checks = Inr p"
      "po_assessment_state p = mk_assessment_state (counts_of checks)"
      "po_risk_score p = mk_risk_score (po_assessment_state p) findings"
    using build_posture_total [OF assms] by blast
  then show ?thesis by (auto simp: mk_risk_score_def assessment_complete_iff)
qed

theorem risk_score_meaning_witness:
  "\<exists>p. build_posture [] [] = Inr p \<and> po_risk_score p = None"
  using risk_score_meaning [of "[]" "[]"] by simp

end
