(* ===== verification/Rules_Correct.thy ===== *)
theory Rules_Correct
  imports Rules
begin

text \<open>
  What the policy engine guarantees. The abstract specification is a three-valued logic: a predicate is
  true, false or unknown on a context, and a list of predicates is their strong Kleene conjunction
  (\<open>truth\<close>, \<open>kleene\<close>, \<open>rule_spec\<close>). The engine refines it whenever no comparison raises, and the theory
  shows which packs and batches guarantee that. The other groups: verdicts rest on usable evidence,
  checks and findings agree, the basis of a finding is its weakest evidence, inline tests see the values
  they state, and a batch returns well-formed findings.
\<close>

section \<open>Specification\<close>

definition truth :: "predicate \<Rightarrow> json \<Rightarrow> bool option" where
  \<comment> \<open>the truth value of a predicate; \<open>None\<close> when the evidence is unusable, absent or of the wrong type\<close>
  "truth p context =
    (if (\<exists>sp. pr_state_path p = Some sp \<and> unusable_raw (get_path context sp))
        \<or> get_path context (pr_path p) = JNull then None
     else case compare (pr_operator p) (get_path context (pr_path p)) (pr_value p) of
       Inr b \<Rightarrow> Some b | Inl e \<Rightarrow> None)"

definition kleene :: "bool option list \<Rightarrow> bool option" where
  "kleene ts = (if Some False \<in> set ts then Some False else if None \<in> set ts then None else Some True)"

definition rule_spec :: "policy_rule \<Rightarrow> json \<Rightarrow> py_datetime \<Rightarrow> rule_eval_result" where
  "rule_spec rule context instant =
    (if rule_active rule instant \<and> role_admitted rule context
        \<and> kleene (map (\<lambda>p. truth p context) (pu_where rule)) = Some True
     then case kleene (map (\<lambda>p. truth p context) (pu_assertion rule)) of
            Some True \<Rightarrow> RE_PASS
          | None \<Rightarrow> RE_INDETERMINATE
          | Some False \<Rightarrow> if pu_fail_outcome rule = FO_INDETERMINATE then RE_INDETERMINATE else RE_NEGATIVE
     else RE_NOT_APPLICABLE)"

definition tri :: "bool option \<Rightarrow> predicate_tri_state" where
  "tri t = (case t of None \<Rightarrow> TS_UNUSABLE | Some True \<Rightarrow> TS_PASS | Some False \<Rightarrow> TS_FAIL)"

definition no_raise :: "predicate \<Rightarrow> json \<Rightarrow> bool" where
  "no_raise p context = (case eval_predicate p context of Inr t \<Rightarrow> True | Inl e \<Rightarrow> False)"

definition rule_no_raise :: "policy_rule \<Rightarrow> json \<Rightarrow> bool" where
  "rule_no_raise rule context = list_all (\<lambda>p. no_raise p context) (pu_where rule @ pu_assertion rule)"

section \<open>Predicates\<close>

lemma eval_predicate_truth: "no_raise p c \<Longrightarrow> eval_predicate p c = Inr (tri (truth p c))"
  by (auto simp: no_raise_def eval_predicate_def truth_def tri_def Let_def split: option.splits sum.splits if_splits)

lemma tri_simps [simp]:
  "tri t = TS_FAIL \<longleftrightarrow> t = Some False" "tri t = TS_PASS \<longleftrightarrow> t = Some True" "tri t = TS_UNUSABLE \<longleftrightarrow> t = None"
  by (auto simp: tri_def split: option.splits bool.splits)

lemma kleene_Nil [simp]: "kleene [] = Some True"
  by (simp add: kleene_def)

lemma kleene_Cons: "kleene (t # ts) =
  (case t of Some False \<Rightarrow> Some False | Some True \<Rightarrow> kleene ts
   | None \<Rightarrow> if kleene ts = Some False then Some False else None)"
  by (auto simp: kleene_def split: option.splits bool.splits)

lemma kleene_eq_True: "kleene ts = Some True \<longleftrightarrow> (\<forall>t \<in> set ts. t = Some True)"
proof -
  have "(\<forall>t \<in> set ts. t = Some True) \<longleftrightarrow> Some False \<notin> set ts \<and> None \<notin> set ts"
    by (metis (full_types) not_Some_eq option.distinct(1) option.inject)
  then show ?thesis by (simp add: kleene_def)
qed

lemma kleene_eq_False: "kleene ts = Some False \<longleftrightarrow> Some False \<in> set ts"
  by (simp add: kleene_def)

lemma kleene_perm: "set ts = set us \<Longrightarrow> kleene ts = kleene us"
  by (simp add: kleene_def)

text \<open>The loop over predicates computes the Kleene conjunction and collects the evidence states of the
  unusable predicates.\<close>

definition unusable_of :: "predicate list \<Rightarrow> json \<Rightarrow> evidence_state list" where
  "unusable_of ps context =
     map (\<lambda>p. evidence_state_for_predicate p context) (filter (\<lambda>p. truth p context = None) ps)"

lemma eval_loop_kleene:
  assumes "list_all (\<lambda>p. no_raise p c) ps"
  shows "eval_loop ps c acc =
    (let k = kleene (map (\<lambda>p. truth p c) ps); u = acc @ unusable_of ps c in
     Inr (if k = Some False then (TS_FAIL, []) else if u = [] then (TS_PASS, []) else (TS_UNUSABLE, u)))"
  using assms
proof (induction ps arbitrary: acc)
  case (Cons p ps)
  then have "eval_predicate p c = Inr (tri (truth p c))" by (simp add: eval_predicate_truth)
  with Cons show ?case
    by (cases "truth p c")
       (auto simp: unusable_of_def kleene_Cons Let_def tri_def split: bool.splits predicate_tri_state.splits)
qed (simp add: unusable_of_def)

lemma unusable_of_Nil: "unusable_of ps c = [] \<longleftrightarrow> None \<notin> set (map (\<lambda>p. truth p c) ps)"
  by (simp add: unusable_of_def filter_empty_conv image_iff) (metis not_None_eq)

lemma eval_predicates_with_unusable_kleene:
  assumes "list_all (\<lambda>p. no_raise p c) ps"
  shows "eval_predicates_with_unusable ps c =
    (let k = kleene (map (\<lambda>p. truth p c) ps) in
     Inr (tri k, if k = Some False then [] else unusable_of ps c))"
  unfolding eval_predicates_with_unusable_def eval_loop_kleene [OF assms] Let_def
  using unusable_of_Nil [of ps c] by (auto simp: kleene_def tri_def split: if_splits)

lemma eval_predicates_kleene:
  "list_all (\<lambda>p. no_raise p c) ps \<Longrightarrow> eval_predicates ps c = Inr (tri (kleene (map (\<lambda>p. truth p c) ps)))"
  by (simp add: eval_predicates_def eval_predicates_with_unusable_kleene Let_def)

section \<open>Rules\<close>

lemma rule_coverage_spec:
  assumes "rule_no_raise rule c"
  shows "evaluate_rule_with_coverage rule c t = Inr (
    let w = kleene (map (\<lambda>p. truth p c) (pu_where rule)); a = kleene (map (\<lambda>p. truth p c) (pu_assertion rule));
        st = weakest_or_observed (predicate_states (pu_assertion rule) c)
    in if \<not> (rule_active rule t \<and> role_admitted rule c) then mk_coverage RE_NOT_APPLICABLE None
       else case w of
         Some False \<Rightarrow> mk_coverage RE_NOT_APPLICABLE None
       | None \<Rightarrow> mk_coverage RE_NOT_APPLICABLE (Some (coverage_from_unusable (unusable_of (pu_where rule) c)))
       | Some True \<Rightarrow> (case a of
           Some True \<Rightarrow> mk_coverage RE_PASS (Some (PC_PASS, st))
         | None \<Rightarrow> mk_coverage RE_INDETERMINATE (Some (coverage_from_unusable (unusable_of (pu_assertion rule) c)))
         | Some False \<Rightarrow> if pu_fail_outcome rule = FO_INDETERMINATE
             then mk_coverage RE_INDETERMINATE (Some (PC_UNKNOWN, st))
             else mk_coverage RE_NEGATIVE (Some (PC_FAIL, st))))"
proof -
  have "list_all (\<lambda>p. no_raise p c) (pu_where rule)" "list_all (\<lambda>p. no_raise p c) (pu_assertion rule)"
    using assms by (simp_all add: rule_no_raise_def)
  then show ?thesis
    by (simp add: evaluate_rule_with_coverage_def eval_predicates_with_unusable_kleene Let_def tri_def
        split: option.splits bool.splits)
qed

lemma rule_result_spec:
  "rule_no_raise rule c \<Longrightarrow> evaluate_rule_on_context rule c t = Inr (rule_spec rule c t)"
  by (simp add: evaluate_rule_on_context_def rule_coverage_spec rule_spec_def Let_def mk_coverage_def
      split: option.splits bool.splits)

text \<open>Without the side condition: what a returned verdict implies.\<close>

lemma eval_predicate_cases:
  assumes "eval_predicate p c = Inr t"
  shows "truth p c = (case t of TS_PASS \<Rightarrow> Some True | TS_FAIL \<Rightarrow> Some False | TS_UNUSABLE \<Rightarrow> None)"
  using eval_predicate_truth [of p c] assms
  by (auto simp: no_raise_def tri_def split: option.splits bool.splits)

lemma eval_loop_verdict:
  assumes "eval_loop ps c acc = Inr (t, u)"
  shows "(t = TS_FAIL \<longrightarrow> (\<exists>p \<in> set ps. truth p c = Some False))
    \<and> (t = TS_PASS \<longrightarrow> acc = [] \<and> (\<forall>p \<in> set ps. truth p c = Some True))
    \<and> (t = TS_UNUSABLE \<longrightarrow> acc \<noteq> [] \<or> (\<exists>p \<in> set ps. truth p c = None))"
  using assms
proof (induction ps arbitrary: acc)
  case (Cons p ps)
  then obtain s where "eval_predicate p c = Inr s" by (auto simp: py_simps)
  with Cons eval_predicate_cases [of p c s] show ?case by (cases s) fastforce+
qed (auto split: if_splits)

lemma eval_predicates_verdict:
  assumes "eval_predicates_with_unusable ps c = Inr (t, u)"
  shows "t = TS_FAIL \<Longrightarrow> \<exists>p \<in> set ps. truth p c = Some False"
    and "t = TS_PASS \<Longrightarrow> \<forall>p \<in> set ps. truth p c = Some True"
    and "t = TS_UNUSABLE \<Longrightarrow> \<exists>p \<in> set ps. truth p c = None"
  using eval_loop_verdict [OF assms [unfolded eval_predicates_with_unusable_def]] by auto

text \<open>Every way an evaluation of a rule can end, with the coverage it reports.\<close>

lemma rule_coverage_cases:
  assumes "evaluate_rule_with_coverage rule c t = Inr cov"
  obtains (inactive) "cov = mk_coverage RE_NOT_APPLICABLE None"
  | (where_unknown) us where "cov = mk_coverage RE_NOT_APPLICABLE (Some (coverage_from_unusable us))"
      "\<exists>p \<in> set (pu_where rule). truth p c = None"
  | (pass) st where "cov = mk_coverage RE_PASS (Some (PC_PASS, st))"
      "rule_active rule t" "role_admitted rule c" "\<forall>p \<in> set (pu_where rule @ pu_assertion rule). truth p c = Some True"
  | (unknown) us where "cov = mk_coverage RE_INDETERMINATE (Some (coverage_from_unusable us))"
      "rule_active rule t" "role_admitted rule c" "\<forall>p \<in> set (pu_where rule). truth p c = Some True"
      "\<exists>p \<in> set (pu_assertion rule). truth p c = None"
  | (soft) st where "cov = mk_coverage RE_INDETERMINATE (Some (PC_UNKNOWN, st))"
      "pu_fail_outcome rule = FO_INDETERMINATE" "rule_active rule t" "role_admitted rule c"
      "\<forall>p \<in> set (pu_where rule). truth p c = Some True" "\<exists>p \<in> set (pu_assertion rule). truth p c = Some False"
  | (negative) st where "cov = mk_coverage RE_NEGATIVE (Some (PC_FAIL, st))"
      "pu_fail_outcome rule = FO_NEGATIVE" "rule_active rule t" "role_admitted rule c"
      "\<forall>p \<in> set (pu_where rule). truth p c = Some True" "\<exists>p \<in> set (pu_assertion rule). truth p c = Some False"
proof (cases "rule_active rule t \<and> role_admitted rule c")
  case False
  then show thesis using assms inactive by (auto simp: evaluate_rule_with_coverage_def split: if_splits)
next
  case True
  with assms obtain w wu where w: "eval_predicates_with_unusable (pu_where rule) c = Inr (w, wu)"
    by (auto simp: evaluate_rule_with_coverage_def py_simps)
  note wv = eval_predicates_verdict [OF w]
  show thesis
  proof (cases w)
    case TS_PASS
    with assms True w obtain a au where a: "eval_predicates_with_unusable (pu_assertion rule) c = Inr (a, au)"
      by (auto simp: evaluate_rule_with_coverage_def py_simps)
    note av = eval_predicates_verdict [OF a]
    have fo: "pu_fail_outcome rule \<noteq> FO_INDETERMINATE \<Longrightarrow> pu_fail_outcome rule = FO_NEGATIVE"
      by (cases "pu_fail_outcome rule") auto
    note e = assms [unfolded evaluate_rule_with_coverage_def w a bindE_simps prod.case TS_PASS Let_def]
    show thesis
    proof (cases a)
      case a_pass: TS_PASS
      then show thesis using e True wv(2) av(2) TS_PASS by (intro pass) auto
    next
      case TS_FAIL
      then show thesis
        using e True wv(2) av(1) TS_PASS soft negative fo
        by (cases "pu_fail_outcome rule") auto
    next
      case TS_UNUSABLE
      then show thesis using e True wv(2) av(3) TS_PASS by (intro unknown) auto
    qed
  qed (use assms True w wv inactive where_unknown in \<open>auto simp: evaluate_rule_with_coverage_def\<close>)
qed

section \<open>References\<close>

lemma weaken_sound: "(q, s) \<in> set (weaken p st d) \<Longrightarrow> (q, s) = (p, st) \<or> (q, s) \<in> set d"
  by (induction p st d rule: weaken.induct) (auto split: if_splits)

lemma weaken_bound:
  "(q, s) \<in> set d \<or> (q, s) = (p, st) \<Longrightarrow> \<exists>s'. (q, s') \<in> set (weaken p st d) \<and> state_rank s' \<le> state_rank s"
proof (induction p st d rule: weaken.induct)
  case (2 path state p s d)
  then show ?case by (cases "p = path") (auto split: if_splits intro: less_imp_le)
qed auto

lemma weaken_keys: "fst ` set (weaken p st d) = insert p (fst ` set d)"
  by (induction p st d rule: weaken.induct) auto

lemma weaken_length: "length (weaken p st d) \<le> Suc (length d)"
  by (induction p st d rule: weaken.induct) auto

definition weakest_by_path :: "(string \<times> evidence_state) list \<Rightarrow> (string, evidence_state) dict" where
  "weakest_by_path pairs = fold (\<lambda>(path, state). weaken path state) pairs []"

lemma fold_weaken_sound: "set (fold (\<lambda>(p, s). weaken p s) pairs d) \<subseteq> set pairs \<union> set d"
proof (induction pairs arbitrary: d)
  case (Cons x pairs)
  then show ?case using weaken_sound [of _ _ "fst x" "snd x" d] by (cases x) fastforce
qed simp

lemma fold_weaken_bound:
  assumes "(q, s) \<in> set pairs \<union> set d"
  shows "\<exists>s'. (q, s') \<in> set (fold (\<lambda>(p, s). weaken p s) pairs d) \<and> state_rank s' \<le> state_rank s"
  using assms
proof (induction pairs arbitrary: d s)
  case (Cons x pairs)
  obtain p st where x: "x = (p, st)" by (cases x)
  obtain s1 where "(q, s1) \<in> set pairs \<union> set (weaken p st d)" "state_rank s1 \<le> state_rank s"
    using Cons.prems weaken_bound [of q s d p st] x by auto
  with Cons.IH [of s1 "weaken p st d"] x show ?case by (auto intro: order_trans)
qed auto

lemma fold_weaken_length: "length (fold (\<lambda>(p, s). weaken p s) pairs d) \<le> length pairs + length d"
proof (induction pairs arbitrary: d)
  case (Cons x pairs)
  obtain p st where x: "x = (p, st)" by (cases x)
  show ?case using weaken_length [of p st d] Cons [of "weaken p st d"] by (simp add: x)
qed simp

lemma weakest_by_path_props:
  "set (weakest_by_path pairs) \<subseteq> set pairs"
  "(q, s) \<in> set pairs \<Longrightarrow> \<exists>s'. (q, s') \<in> set (weakest_by_path pairs) \<and> state_rank s' \<le> state_rank s"
  "length (weakest_by_path pairs) \<le> length pairs"
  "pairs \<noteq> [] \<Longrightarrow> weakest_by_path pairs \<noteq> []"
proof -
  show "set (weakest_by_path pairs) \<subseteq> set pairs" "length (weakest_by_path pairs) \<le> length pairs"
    using fold_weaken_sound [of pairs "[]"] fold_weaken_length [of pairs "[]"] by (auto simp: weakest_by_path_def)
  show ex: "\<exists>s'. (q, s') \<in> set (weakest_by_path pairs) \<and> state_rank s' \<le> state_rank s"
    if "(q, s) \<in> set pairs" for q s
    using fold_weaken_bound [of q s pairs "[]"] that by (auto simp: weakest_by_path_def)
  show "weakest_by_path pairs \<noteq> []" if "pairs \<noteq> []"
    using that ex by (cases pairs) fastforce+
qed

definition mk_reference :: "policy_target \<Rightarrow> string \<Rightarrow> string \<times> evidence_state \<Rightarrow> evidence_reference" where
  "mk_reference target key x = \<lparr>er_record_type = record_type_of target, er_record_key = key,
     er_field_path = fst x, er_evidence_state = snd x, er_frame_number = None\<rparr>"

lemma references_eq:
  "references rule c key target =
    bindE (mapE (\<lambda>x. check_model (evidence_reference_ok (mk_reference target key x)) (mk_reference target key x))
      (weakest_by_path (reference_pairs rule c)))
    (\<lambda>refs. Inr (sort_key (\<lambda>r. (rt_value (er_record_type r), er_record_key r, er_field_path r)) refs))"
  unfolding references_def Let_def mk_reference_def weakest_by_path_def case_prod_beta by (rule refl)

lemma references_set:
  assumes "references rule c key target = Inr refs"
  shows "refs \<noteq> [] \<or> reference_pairs rule c = []"
    and "list_all evidence_reference_ok refs"
    and "length refs = length (weakest_by_path (reference_pairs rule c))"
    and "r \<in> set refs \<Longrightarrow> er_record_key r = key \<and> er_record_type r = record_type_of target"
    and "(\<lambda>r. (er_field_path r, er_evidence_state r)) ` set refs = set (weakest_by_path (reference_pairs rule c))"
proof -
  let ?u = "weakest_by_path (reference_pairs rule c)"
  let ?mk = "mk_reference target key"
  obtain rs where eq: "rs = map ?mk ?u" and ok: "list_all evidence_reference_ok rs"
    and rs: "refs = sort_key (\<lambda>r. (rt_value (er_record_type r), er_record_key r, er_field_path r)) rs"
    using assms by (auto simp: references_eq py_simps mapE_check)
  show "list_all evidence_reference_ok refs" using ok rs by (simp add: list_all_iff)
  show len: "length refs = length ?u" using rs eq by simp
  then show "refs \<noteq> [] \<or> reference_pairs rule c = []" using weakest_by_path_props(4) by fastforce
  show "r \<in> set refs \<Longrightarrow> er_record_key r = key \<and> er_record_type r = record_type_of target"
    using rs eq by (auto simp: mk_reference_def)
  show "(\<lambda>r. (er_field_path r, er_evidence_state r)) ` set refs = set ?u"
    using rs eq by (simp add: image_image mk_reference_def)
qed

lemma weakest_state_refs:
  assumes "references rule c key target = Inr refs" and "reference_pairs rule c \<noteq> []"
  shows "weakest_state refs \<in> snd ` set (reference_pairs rule c)"
    and "(q, s) \<in> set (reference_pairs rule c) \<Longrightarrow> state_rank (weakest_state refs) \<le> state_rank s"
proof -
  note refs = references_set [OF assms(1)]
  let ?u = "weakest_by_path (reference_pairs rule c)"
  have ne: "refs \<noteq> []" using refs(1) assms(2) by blast
  then have w: "weakest_state refs = er_evidence_state (arg_min_list (\<lambda>r. state_rank (er_evidence_state r)) refs)"
    by (simp add: weakest_state_def)
  have st: "er_evidence_state ` set refs = snd ` set ?u" unfolding refs(5) [symmetric] image_image by simp
  have "weakest_state refs \<in> er_evidence_state ` set refs" unfolding w by (rule es.weakest_mem [OF ne])
  then show "weakest_state refs \<in> snd ` set (reference_pairs rule c)"
    unfolding st using weakest_by_path_props(1) by blast
  assume "(q, s) \<in> set (reference_pairs rule c)"
  then obtain s' where "s' \<in> snd ` set ?u" "state_rank s' \<le> state_rank s"
    using weakest_by_path_props(2) by force
  then obtain r where "r \<in> set refs" "state_rank (er_evidence_state r) \<le> state_rank s"
    using st by (metis imageE)
  then show "state_rank (weakest_state refs) \<le> state_rank s"
    unfolding w using es.weakest_le [of r refs er_evidence_state] by linarith
qed

section \<open>Findings and checks of one record\<close>

lemma to_finding_props:
  assumes "to_finding rk pack rule c oc record = Inr f"
  shows "finding_ok f" and "fi_code f = pu_id rule" and "fi_outcome f = oc"
    and "fi_affected_endpoint f = endpoint_from_context c" and "fi_policy_pack_version f = rk_pack_digest rk"
    and "fi_policy_evaluation_time f = rk_instant rk"
    and "references rule c (record_key record) (pu_target rule) = Inr (fi_evidence_references f)"
    and "fi_basis_state f = weakest_state (fi_evidence_references f)"
    and "fi_evaluation_state f = (if oc = FO_INDETERMINATE then ES_INDETERMINATE else ES_VERIFIED)"
    and "fi_finding_id f = judgment_id rk pack rule (fo_value oc) (record_key record)"
  using assms by (auto simp: to_finding_def Let_def py_simps)

lemma to_check_props:
  assumes "to_check rk pack rule c record oc st = Inr k"
  shows "policy_check_ok k" and "pk_code k = pu_id rule" and "pk_outcome k = oc"
    and "pk_affected_endpoint k = endpoint_from_context c" and "pk_record_key k = record_key record"
    and "pk_record_type k = record_type_of (pu_target rule)" and "pk_evidence_state k = st"
  using assms by (auto simp: to_check_def Let_def py_simps)

lemma coverage_from_unusable_outcome: "fst (coverage_from_unusable us) \<in> {PC_UNKNOWN, PC_NOT_OBSERVABLE}"
  by (simp add: coverage_from_unusable_def Let_def)

text \<open>A finding and a check that judge the same rule on the same record, with matching outcomes.\<close>

definition same_judgment :: "finding \<Rightarrow> policy_check \<Rightarrow> bool" where
  "same_judgment f k =
    (fi_code f = pk_code k \<and> fi_affected_endpoint f = pk_affected_endpoint k
     \<and> list_all (\<lambda>r. er_record_key r = pk_record_key k \<and> er_record_type r = pk_record_type k) (fi_evidence_references f)
     \<and> (fi_outcome f = FO_NEGATIVE \<longleftrightarrow> pk_outcome k = PC_FAIL) \<and> pk_outcome k \<noteq> PC_PASS)"

definition judged :: "run_key \<Rightarrow> policy_check list \<times> finding list \<Rightarrow> bool" where
  "judged rk r = (case r of
     ([], []) \<Rightarrow> True
   | ([k], []) \<Rightarrow> policy_check_ok k \<and> pk_outcome k \<noteq> PC_FAIL
   | ([k], [f]) \<Rightarrow> policy_check_ok k \<and> finding_ok f \<and> same_judgment f k
        \<and> fi_policy_pack_version f = rk_pack_digest rk \<and> fi_policy_evaluation_time f = rk_instant rk
   | _ \<Rightarrow> False)"

lemma to_check_passed:
  "to_check rk pack rule c record oc st = Inr k \<Longrightarrow> oc \<noteq> PC_FAIL \<Longrightarrow> judged rk ([k], [])"
  using to_check_props(1,3) [where oc = oc and k = k] by (auto simp: judged_def)

lemma judgments_agree:
  assumes "to_check rk pack rule c record oc st = Inr k" and "to_finding rk pack rule c fo record = Inr f"
    and "fo = FO_NEGATIVE \<longleftrightarrow> oc = PC_FAIL" and "oc \<noteq> PC_PASS"
  shows "judged rk ([k], [f])"
  using to_check_props [OF assms(1)] to_finding_props [OF assms(2)] assms(3,4)
    references_set(4) [OF to_finding_props(7) [OF assms(2)]]
  by (simp add: judged_def same_judgment_def list_all_iff)

lemma evaluate_record_judged:
  assumes "evaluate_record rk pack b rule record = Inr r"
  shows "judged rk r"
proof -
  obtain c cov where cov: "evaluate_rule_with_coverage rule c (rk_instant rk) = Inr cov"
    and r: "bindE (case (rc_check_outcome cov, rc_coverage_state cov) of
             (Some oc, Some st) \<Rightarrow> bindE (to_check rk pack rule c record oc st) (\<lambda>k. Inr [k])
           | _ \<Rightarrow> Inr []) (\<lambda>checks.
      bindE (case finding_outcome_for rule (rc_result cov) of
             Some oc \<Rightarrow> bindE (to_finding rk pack rule c oc record) (\<lambda>f. Inr [f])
           | None \<Rightarrow> Inr []) (\<lambda>findings. Inr (checks, findings))) = Inr r"
    using assms unfolding evaluate_record_def bindE_eq_Inr by blast
  note un = coverage_from_unusable_outcome
  from cov show ?thesis
  proof (cases rule: rule_coverage_cases)
    case (where_unknown us)
    then show ?thesis using r un [of us]
      by (auto simp: mk_coverage_def finding_outcome_for_def py_simps intro: to_check_passed)
  next
    case (unknown us)
    then show ?thesis using r un [of us] judgments_agree [where fo = FO_INDETERMINATE]
      by (auto simp: mk_coverage_def finding_outcome_for_def py_simps)
  next
    case (soft st)
    then show ?thesis using r judgments_agree [where fo = FO_INDETERMINATE]
      by (auto simp: mk_coverage_def finding_outcome_for_def py_simps)
  next
    case (negative st)
    then show ?thesis using r judgments_agree [where fo = FO_NEGATIVE]
      by (auto simp: mk_coverage_def finding_outcome_for_def py_simps)
  next
    case inactive
    then show ?thesis using r by (auto simp: mk_coverage_def finding_outcome_for_def judged_def)
  next
    case (pass st)
    then show ?thesis using r
      by (auto simp: mk_coverage_def finding_outcome_for_def py_simps intro: to_check_passed)
  qed
qed

section \<open>Batches\<close>

text \<open>The results of a batch, one pair per rule and record, before they are sorted.\<close>

definition batch_run :: "string \<Rightarrow> string \<Rightarrow> py_datetime \<Rightarrow> run_key" where
  "batch_run digest sha t = \<lparr>rk_capture_sha256 = sha, rk_pack_digest = digest, rk_instant = as_utc t\<rparr>"

lemma batch_results:
  assumes "evaluate_policy_batch pack digest sha t b = Inr e"
  obtains rs where "mapE (evaluate_rule (batch_run digest sha t) pack b) (pp_rules pack) = Inr rs"
    and "mset (pv_findings e) = mset (concat (map snd (concat rs)))"
    and "mset (pv_checks e) = mset (concat (map fst (concat rs)))"
    and "list_all (judged (batch_run digest sha t)) (concat rs)"
proof -
  let ?rk = "batch_run digest sha t"
  obtain rs where rs: "mapE (evaluate_rule ?rk pack b) (pp_rules pack) = Inr rs"
    and e: "e = \<lparr>pv_findings = sort_key finding_sort_key (concat (map snd (concat rs))),
          pv_checks = sort_key check_sort_key (concat (map fst (concat rs)))\<rparr>"
    using assms by (auto simp: evaluate_policy_batch_def Let_def py_simps batch_run_def)
  have "judged ?rk r" if "r \<in> set (concat rs)" for r
  proof -
    obtain l where l: "l \<in> set rs" "r \<in> set l" using \<open>r \<in> set (concat rs)\<close> by auto
    then obtain rule where "evaluate_rule ?rk pack b rule = Inr l" using mapE_Inr_set [OF rs] by blast
    then obtain rd where "evaluate_record ?rk pack b rule rd = Inr r"
      using l(2) mapE_Inr_set [of "evaluate_record ?rk pack b rule" _ l r]
      by (auto simp: evaluate_rule_def split: if_splits)
    then show ?thesis by (rule evaluate_record_judged)
  qed
  then show thesis using that [OF rs] e by (simp add: list_all_iff)
qed

lemma judged_cases:
  assumes "judged rk r"
  obtains "r = ([], [])"
  | k where "r = ([k], [])" "policy_check_ok k" "pk_outcome k \<noteq> PC_FAIL"
  | k f where "r = ([k], [f])" "policy_check_ok k" "finding_ok f" "same_judgment f k"
      "fi_policy_pack_version f = rk_pack_digest rk" "fi_policy_evaluation_time f = rk_instant rk"
  using assms unfolding judged_def by (auto split: prod.splits list.splits)

lemma judged_counts:
  assumes "list_all (judged rk) rs"
  shows "length (filter (\<lambda>f. fi_outcome f = FO_NEGATIVE) (concat (map snd rs))) =
         length (filter (\<lambda>k. pk_outcome k = PC_FAIL) (concat (map fst rs)))"
  using assms
proof (induction rs)
  case (Cons r rs)
  then have "judged rk r" by simp
  then show ?case by (cases rule: judged_cases) (use Cons in \<open>auto simp: same_judgment_def\<close>)
qed simp

section \<open>Evaluation never raises on built contexts\<close>

text \<open>A predicate that cannot raise: it satisfies the constraints of its model and does not test the one
  list-valued path for membership.\<close>

definition predicate_safe :: "predicate \<Rightarrow> bool" where
  "predicate_safe p = (predicate_ok p \<and>
     (if pr_operator p \<in> {PO_IN, PO_NOT_IN} then pr_path p \<noteq> ''derived.observed_commands'' else True))"

definition pack_safe :: "policy_pack \<Rightarrow> bool" where
  "pack_safe pack = (policy_pack_ok pack
     \<and> list_all (\<lambda>role. list_all predicate_safe (ro_all role)) (pp_roles pack)
     \<and> list_all (\<lambda>r. list_all predicate_safe (pu_where r @ pu_assertion r)
         \<and> length (pu_where r) + length (pu_assertion r) + (if pu_roles r = [] then 0 else 1) \<le> 32) (pp_rules pack))"

fun str_list :: "json \<Rightarrow> bool" where
  "str_list (JList xs) = list_all hashable xs"
| "str_list _ = False"

lemma bounded_item_hashable: "list_all bounded_item ys \<Longrightarrow> list_all hashable ys"
  by (auto simp: list_all_iff elim!: bounded_item.elims)

lemma any_member_total: "list_all hashable ns \<Longrightarrow> \<exists>b. any_member xs ns = Inr b"
  by (induction ns) auto

lemma contains_any_total:
  "hashable v \<or> str_list v \<Longrightarrow> list_all hashable ns \<Longrightarrow> \<exists>b. contains_any v ns = Inr b"
  using any_member_total by (cases v) auto

lemma compare_total:
  assumes "hashable v \<or> str_list v \<and> oper \<notin> {PO_IN, PO_NOT_IN}" and "bounded_value e"
  shows "compare oper v e = Inl x \<Longrightarrow> x = PolicyEngineError"
proof (cases "as_list e")
  case None
  then show "compare oper v e = Inl x \<Longrightarrow> x = PolicyEngineError"
    by (auto simp: compare_def split: policy_operator.splits option.splits)
next
  case (Some ys)
  then have ys: "list_all hashable ys"
    using assms(2) bounded_item_hashable by (cases e) auto
  obtain b where "hashable v \<or> str_list v \<Longrightarrow> contains_any v ys = Inr b"
    using contains_any_total [OF _ ys] by blast
  with Some ys assms(1) show "compare oper v e = Inl x \<Longrightarrow> x = PolicyEngineError"
    by (cases oper) (auto simp: compare_def set_member_def split: option.splits)
qed

lemma no_raise_typed:
  assumes "predicate_safe p"
    and "hashable (get_path c (pr_path p))
      \<or> pr_path p = ''derived.observed_commands'' \<and> str_list (get_path c (pr_path p))"
  shows "no_raise p c"
proof -
  have "x = PolicyEngineError" if "compare (pr_operator p) (get_path c (pr_path p)) (pr_value p) = Inl x" for x
    using that assms by (intro compare_total [of "get_path c (pr_path p)" "pr_operator p" "pr_value p"])
      (auto simp: predicate_safe_def predicate_ok_def split: if_splits)
  then show ?thesis by (auto simp: no_raise_def eval_predicate_def Let_def split: sum.splits)
qed

text \<open>The admissible paths, by the record they read.\<close>

definition leaf_paths :: "string \<Rightarrow> string list list" where
  "leaf_paths section_name = List.map_filter
     (\<lambda>p. case py_split (CHR ''.'') p of r # ps \<Rightarrow> if r = section_name then Some ps else None | [] \<Rightarrow> None) allowed_paths"

lemma leaf_paths_simps:
  "leaf_paths ''flow'' = [[''uid''], [''resp'', ''host''], [''resp'', ''port''], [''orig'', ''host''],
     [''orig'', ''port''], [''evidence_state'']]"
  "leaf_paths ''session'' = [[''uid''], [''protocol''], [''evidence_state''], [''explicit_upgrade'', ''state''],
     [''explicit_upgrade'', ''evidence_state''], [''implicit_tls'', ''correlated_protocol''],
     [''implicit_tls'', ''evidence_state'']]"
  "leaf_paths ''derived'' = [[''service_role''], [''forward_secrecy'', ''outcome''],
     [''forward_secrecy'', ''evidence_state''], [''observed_commands''], [''transport_tls_established'']]"
  by code_simp+

lemma leaf_paths_handshake:
  "leaf_paths ''handshake'' = [[''uid''], [''established''], [''resumed''], [''evidence_state''], [''visibility''],
     [''version'', ''selected''], [''version'', ''evidence_state''], [''cipher_suite'', ''name''],
     [''cipher_suite'', ''code''], [''cipher_suite'', ''evidence_state''], [''key_exchange'', ''mechanism''],
     [''key_exchange'', ''evidence_state''], [''key_exchange'', ''dh_param_size''],
     [''certificate_verify_signature'', ''algorithm''], [''certificate_verify_signature'', ''evidence_state'']]"
  by code_simp

lemma leaf_paths_certificate:
  "leaf_paths ''certificate'' = [[''uid''], [''chain_index''], [''role''], [''der_sha256''], [''evidence_state''],
     [''public_key_algorithm''], [''public_key_size''], [''public_key_curve''], [''effective_strength_bits''],
     [''signature_algorithm''], [''valid_at_capture_time''], [''valid_at_analysis_time''],
     [''validation'', ''path_valid_at_capture_time''], [''validation'', ''path_valid_at_analysis_time''],
     [''validation'', ''identity_match'']]"
  by code_simp

lemma allowed_roots:
  "list_all (\<lambda>p. hd (py_split (CHR ''.'') p) \<in> {''flow'', ''session'', ''handshake'', ''certificate'', ''derived''}) allowed_paths"
  by code_simp

lemma allowed_path_leaf:
  assumes "p \<in> set allowed_paths"
  obtains r ps where "py_split (CHR ''.'') p = r # ps" and "ps \<in> set (leaf_paths r)"
    and "r \<in> {''flow'', ''session'', ''handshake'', ''certificate'', ''derived''}"
proof (cases "py_split (CHR ''.'') p")
  case (Cons r ps)
  then have "ps \<in> set (leaf_paths r)"
    unfolding leaf_paths_def map_filter_mem using assms by (intro bexI [of _ p]) simp_all
  moreover have "r \<in> {''flow'', ''session'', ''handshake'', ''certificate'', ''derived''}"
    using bspec [OF allowed_roots [unfolded list_all_iff] assms] unfolding Cons list.sel .
  ultimately show thesis by (rule that [OF Cons])
qed simp

lemmas dump_simps = jopt_def jnat_def jstate_def dump_endpoint_def row_get_def

lemma get_parts_JNull [simp]: "get_parts JNull ps = JNull"
  by (cases ps) simp_all

lemma hashable_jopt: "hashable (get_parts (jopt f x) ps) \<longleftrightarrow> (case x of None \<Rightarrow> True | Some a \<Rightarrow> hashable (get_parts (f a) ps))"
  by (simp add: jopt_def split: option.splits)

lemma hashable_opt: "(\<And>a. hashable (f a)) \<Longrightarrow> hashable (jopt f x)"
  by (simp add: jopt_def split: option.splits)

lemma flow_leaf: "list_all (\<lambda>ps. hashable (get_parts (jopt dump_flow f) ps)) (leaf_paths ''flow'')"
  unfolding leaf_paths_simps
  by (cases f) (simp_all add: dump_flow_def dump_simps)

lemma session_leaf: "list_all (\<lambda>ps. hashable (get_parts (jopt dump_session s) ps)) (leaf_paths ''session'')"
  unfolding leaf_paths_simps hashable_jopt
  by (cases s) (simp_all add: dump_session_def row_get_def hashable_jopt hashable_opt jstate_def split: option.splits)

lemma handshake_leaf: "list_all (\<lambda>ps. hashable (get_parts (jopt dump_handshake h) ps)) (leaf_paths ''handshake'')"
  unfolding leaf_paths_handshake hashable_jopt
  by (cases h) (simp_all add: dump_handshake_def row_get_def hashable_opt jstate_def jnat_def)

lemma certificate_leaf: "list_all (\<lambda>ps. hashable (get_parts (jopt dump_certificate c) ps)) (leaf_paths ''certificate'')"
  unfolding leaf_paths_certificate hashable_jopt
  by (cases c) (simp_all add: dump_certificate_def row_get_def hashable_jopt hashable_opt jstate_def jnat_def split: option.splits)

definition derived_typed :: "json \<Rightarrow> bool" where
  "derived_typed d = list_all (\<lambda>ps. if ps = [''observed_commands''] then hashable (get_parts d ps) \<or> str_list (get_parts d ps)
     else hashable (get_parts d ps)) (leaf_paths ''derived'')"

lemma derived_typed_empty: "derived_typed (JObj [])"
  by (simp add: derived_typed_def leaf_paths_simps row_get_def)

lemma derived_typed_derived: "derived pack f s h = Inr d \<Longrightarrow> derived_typed d"
  by (cases h) (auto simp: derived_def py_simps derived_typed_def leaf_paths_simps dump_simps Let_def list_all_iff)

definition context_typed :: "json \<Rightarrow> bool" where
  "context_typed c = list_all (\<lambda>p. hashable (get_path c p)
     \<or> p = ''derived.observed_commands'' \<and> str_list (get_path c p)) allowed_paths"

lemma context_typed_parts:
  assumes "derived_typed d"
  shows "context_typed (JObj [(''flow'', jopt dump_flow f), (''session'', jopt dump_session s),
    (''handshake'', jopt dump_handshake h), (''certificate'', jopt dump_certificate c), (''derived'', d)])"
    (is "context_typed ?c")
  unfolding context_typed_def list_all_iff
proof
  fix p assume "p \<in> set allowed_paths"
  then obtain r ps where split: "py_split (CHR ''.'') p = r # ps" and ps: "ps \<in> set (leaf_paths r)"
    and r: "r \<in> {''flow'', ''session'', ''handshake'', ''certificate'', ''derived''}"
    by (rule allowed_path_leaf)
  have path: "get_path ?c p = get_parts ?c (r # ps)" by (simp add: get_path_def split)
  show "hashable (get_path ?c p) \<or> p = ''derived.observed_commands'' \<and> str_list (get_path ?c p)"
  proof (cases "r = ''derived''")
    case True
    then have d: "get_path ?c p = get_parts d ps" by (simp add: path row_get_def)
    have "p = ''derived.observed_commands''" if "ps = [''observed_commands'']"
    proof (rule py_split_inj)
      show "py_split CHR ''.'' p = py_split CHR ''.'' ''derived.observed_commands''"
        unfolding split True that by code_simp
    qed
    moreover have "if ps = [''observed_commands''] then hashable (get_parts d ps) \<or> str_list (get_parts d ps)
        else hashable (get_parts d ps)"
      by (rule bspec [OF assms [unfolded derived_typed_def list_all_iff] ps [unfolded True]])
    ultimately show ?thesis unfolding d by (cases "ps = [''observed_commands'']") simp_all
  next
    case False
    then have "hashable (get_parts ?c (r # ps))"
      using r ps flow_leaf [of f] session_leaf [of s] handshake_leaf [of h] certificate_leaf [of c]
      unfolding list_all_iff by (elim insertE emptyE) (simp_all add: row_get_def)
    then show ?thesis unfolding path by (rule disjI1)
  qed
qed

lemma context_no_raise: "context_typed c \<Longrightarrow> predicate_safe p \<Longrightarrow> no_raise p c"
  by (rule no_raise_typed)
     (auto simp: context_typed_def list_all_iff predicate_safe_def predicate_ok_def known_path_def)

lemma role_context_typed: "context_typed (role_context f s)"
  using context_typed_parts [OF derived_typed_empty, of "Some f" "Some s" None None]
  by (simp add: role_context_def jopt_def)

lemma service_role_total:
  assumes "list_all (\<lambda>role. list_all predicate_safe (ro_all role)) (pp_roles pack)"
  shows "\<exists>r. service_role pack f s = Inr r"
proof (cases f; cases s)
  fix a b assume fs: "f = Some a" "s = Some b"
  have "\<exists>t. eval_predicates (ro_all role) (role_context a b) = Inr t" if "role \<in> set (pp_roles pack)" for role
    using assms that context_no_raise [OF role_context_typed]
    by (auto simp: list_all_iff intro!: exI eval_predicates_kleene)
  then obtain ms where "mapE (\<lambda>role. bindE (eval_predicates (ro_all role) (role_context a b))
      (\<lambda>state. Inr (if state = TS_PASS then [ro_id role] else []))) (pp_roles pack) = Inr ms"
    using mapE_ex [of "pp_roles pack"] by (metis (no_types, lifting) bindE_simps(2))
  then show ?thesis by (simp add: service_role_def fs)
qed (simp_all add: service_role_def)

lemma build_context_total:
  assumes "list_all (\<lambda>role. list_all predicate_safe (ro_all role)) (pp_roles pack)"
  shows "\<exists>c. build_context pack b rd = Inr c \<and> context_typed c"
proof -
  let ?f = "lookup_flow b (record_uid rd)" and ?s = "lookup_session b (record_uid rd)"
  let ?h = "case rd of REC_HANDSHAKE h \<Rightarrow> Some h | _ \<Rightarrow> lookup_handshake b (record_uid rd)"
  obtain d where d: "derived pack ?f ?s ?h = Inr d"
    using service_role_total [OF assms, of ?f ?s] by (auto simp: derived_def)
  with context_typed_parts [OF derived_typed_derived [OF d]] show ?thesis
    by (simp add: build_context_def Let_def)
qed

text \<open>The evidence a run accepts: identifiers within the bounds of an evidence reference, ports and
  chain positions as their models bound them, digests of certificates well formed.\<close>

definition batch_ok :: "evidence_batch \<Rightarrow> bool" where
  "batch_ok b =
    (list_all (\<lambda>f. len_in 1 160 (fl_uid f) \<and> length (fe_host (fl_resp f)) \<le> 255
        \<and> fe_port (fl_resp f) \<le> 65535) (eb_flows b)
     \<and> list_all (\<lambda>s. len_in 1 160 (es_uid s)) (eb_sessions b)
     \<and> list_all (\<lambda>h. len_in 1 160 (th_uid h)) (eb_handshakes b)
     \<and> list_all (\<lambda>c. length (ce_uid c) \<le> 64 \<and> ce_chain_index c < max_chain_depth
        \<and> is_sha256_hex (ce_der_sha256 c)) (eb_certificates b))"

lemma record_key_len:
  assumes "batch_ok b" and "rd \<in> set (records_for_target target b)"
  shows "len_in 1 160 (record_key rd)"
proof (cases rd)
  case (REC_CERTIFICATE c)
  then have "c \<in> set (eb_certificates b)"
    using assms(2) by (auto simp: records_for_target_def split: policy_target.splits)
  then have "length (ce_uid c) \<le> 64" "ce_chain_index c < 16" "length (ce_der_sha256 c) = 64"
    using assms(1) by (auto simp: batch_ok_def list_all_iff is_sha256_hex_def)
  moreover have "length (nat_digits (ce_chain_index c)) \<le> 2"
    using nat_digits_length [of "ce_chain_index c" 1] \<open>ce_chain_index c < 16\<close> by simp
  moreover have "length (cr_value (ce_role c)) \<le> 6" by (cases "ce_role c") simp_all
  ultimately show ?thesis by (simp add: REC_CERTIFICATE record_key_def len_in_def)
qed (use assms in \<open>auto simp: batch_ok_def records_for_target_def record_key_def list_all_iff split: policy_target.splits\<close>)

lemma endpoint_len:
  assumes "batch_ok b" and "build_context pack b rd = Inr c"
  shows "len_in 1 300 (endpoint_from_context c)"
proof -
  let ?f = "lookup_flow b (record_uid rd)"
  have flow: "get_parts c [''flow'', ''resp''] = (case ?f of None \<Rightarrow> JNull | Some f \<Rightarrow> dump_endpoint (fl_resp f))"
    using assms(2) by (auto simp: build_context_def Let_def py_simps row_get_def jopt_def dump_flow_def split: option.splits)
  show ?thesis
  proof (cases ?f)
    case None
    then show ?thesis using flow by (simp add: endpoint_from_context_def len_in_def)
  next
    case (Some f)
    then have "f \<in> set (eb_flows b)" unfolding lookup_flow_def using dict_of_last_mem by fastforce
    then have "length (fe_host (fl_resp f)) \<le> 255" "fe_port (fl_resp f) < 10 ^ Suc 4"
      using assms(1) by (auto simp: batch_ok_def list_all_iff)
    moreover from this have "length (nat_digits (fe_port (fl_resp f))) \<le> 5"
      using nat_digits_length [of "fe_port (fl_resp f)" 4] by simp
    ultimately show ?thesis
      using flow Some
      by (simp add: endpoint_from_context_def dump_endpoint_def row_get_def jnat_def py_str_int_def len_in_def Let_def)
  qed
qed

lemma to_check_total:
  assumes "policy_rule_ok rule" and "len_in 1 160 (record_key rd)" and "len_in 1 300 (endpoint_from_context c)"
  shows "\<exists>k. to_check rk pack rule c rd oc st = Inr k"
  using assms
  by (simp add: to_check_def Let_def py_simps policy_check_ok_def policy_rule_ok_def judgment_id_def)

lemma reference_paths_len:
  assumes "policy_rule_ok rule" and "(q, s) \<in> set (reference_pairs rule c)"
  shows "len_in 1 160 q"
proof -
  have "len_in 1 160 (pr_path p)" if "p \<in> set (pu_where rule) \<union> set (pu_assertion rule)" for p
    using assms(1) that by (auto simp: policy_rule_ok_def list_all_iff predicate_ok_def)
  then show ?thesis using assms(2) by (auto simp: reference_pairs_def len_in_def split: if_splits)
qed

lemma references_total:
  assumes "policy_rule_ok rule" and "len_in 1 160 key"
  shows "\<exists>refs. references rule c key target = Inr refs"
proof -
  have "evidence_reference_ok (mk_reference target key x)" if "x \<in> set (weakest_by_path (reference_pairs rule c))" for x
    using that weakest_by_path_props(1) [of "reference_pairs rule c"] reference_paths_len [OF assms(1), of "fst x" "snd x" c] assms(2)
    by (auto simp: evidence_reference_ok_def mk_reference_def)
  then have "list_all evidence_reference_ok (map (mk_reference target key) (weakest_by_path (reference_pairs rule c)))"
    by (auto simp: list_all_iff)
  then show ?thesis by (simp add: references_eq py_simps mapE_check)
qed

lemma to_finding_total:
  assumes "policy_rule_ok rule" and "len_in 1 160 (record_key rd)" and "len_in 1 300 (endpoint_from_context c)"
    and "is_sha256_hex (rk_pack_digest rk)"
    and "length (pu_where rule) + length (pu_assertion rule) + (if pu_roles rule = [] then 0 else 1) \<le> 32"
  shows "\<exists>f. to_finding rk pack rule c oc rd = Inr f"
proof -
  obtain refs where refs: "references rule c (record_key rd) (pu_target rule) = Inr refs"
    using references_total [OF assms(1,2)] by blast
  have "length (reference_pairs rule c) \<le> 32" using assms(5) by (simp add: reference_pairs_def split: if_splits)
  then have "length refs \<le> 32"
    using references_set(3) [OF refs] weakest_by_path_props(3) [of "reference_pairs rule c"] by linarith
  moreover have "len_in 1 64 (pp_value (pp_profile pack))" by (cases "pp_profile pack") (simp_all add: len_in_def)
  ultimately show ?thesis
    using refs references_set(2) [OF refs] assms
    by (simp add: to_finding_def Let_def py_simps finding_ok_def policy_rule_ok_def judgment_id_def len_in_def)
qed

lemma rule_no_raise_context:
  "context_typed c \<Longrightarrow> list_all predicate_safe (pu_where rule @ pu_assertion rule) \<Longrightarrow> rule_no_raise rule c"
  using context_no_raise by (auto simp: rule_no_raise_def list_all_iff)

lemma evaluate_record_total:
  assumes "pack_safe pack" and "batch_ok b" and "is_sha256_hex (rk_pack_digest rk)"
    and rule: "rule \<in> set (pp_rules pack)" and rd: "rd \<in> set (records_for_target (pu_target rule) b)"
  shows "\<exists>r. evaluate_record rk pack b rule rd = Inr r"
proof -
  have r: "policy_rule_ok rule" "list_all predicate_safe (pu_where rule @ pu_assertion rule)"
    "length (pu_where rule) + length (pu_assertion rule) + (if pu_roles rule = [] then 0 else 1) \<le> 32"
    using assms(1) rule unfolding pack_safe_def policy_pack_ok_def list_all_iff by blast+
  obtain c where c: "build_context pack b rd = Inr c" "context_typed c"
    using build_context_total assms(1) unfolding pack_safe_def by blast
  obtain cov where cov: "evaluate_rule_with_coverage rule c (rk_instant rk) = Inr cov"
    using rule_coverage_spec [OF rule_no_raise_context [OF c(2) r(2)]] by blast
  note len = record_key_len [OF assms(2) rd] endpoint_len [OF assms(2) c(1)]
  have "\<exists>ks. (case (rc_check_outcome cov, rc_coverage_state cov) of
      (Some oc, Some st) \<Rightarrow> bindE (to_check rk pack rule c rd oc st) (\<lambda>k. Inr [k]) | _ \<Rightarrow> Inr []) = Inr ks"
    using to_check_total [OF r(1) len, of rk pack] by (auto simp: py_simps split: option.splits)
  moreover have "\<exists>fs. (case finding_outcome_for rule (rc_result cov) of
      Some oc \<Rightarrow> bindE (to_finding rk pack rule c oc rd) (\<lambda>f. Inr [f]) | None \<Rightarrow> Inr []) = Inr fs"
    using to_finding_total [OF r(1) len assms(3) r(3), of pack] by (auto simp: py_simps split: option.splits)
  ultimately show ?thesis using c(1) cov by (auto simp: evaluate_record_def)
qed

lemma batch_total:
  assumes "pack_safe pack" and "batch_ok b" and "is_sha256_hex digest"
  shows "\<exists>e. evaluate_policy_batch pack digest sha t b = Inr e"
proof -
  let ?rk = "batch_run digest sha t"
  have "\<exists>l. evaluate_rule ?rk pack b rule = Inr l" if "rule \<in> set (pp_rules pack)" for rule
    using evaluate_record_total [OF assms(1,2) _ that, of ?rk] assms(3)
      mapE_ex [of "records_for_target (pu_target rule) b" "evaluate_record ?rk pack b rule"]
    by (auto simp: evaluate_rule_def batch_run_def)
  then obtain rs where "mapE (evaluate_rule ?rk pack b) (pp_rules pack) = Inr rs" using mapE_ex by blast
  then show ?thesis by (simp add: evaluate_policy_batch_def Let_def batch_run_def)
qed

section \<open>Inline tests\<close>

lemma get_set_path_same: "ps \<noteq> [] \<Longrightarrow> get_parts (JObj (set_path ps v d)) ps = v"
  by (induction ps v d rule: set_path.induct) (auto simp: row_get_def update_conv' Let_def)

lemma get_set_path_other:
  "\<not> prefix ps qs \<Longrightarrow> \<not> prefix qs ps \<Longrightarrow> get_parts (JObj (set_path ps v d)) qs = get_parts (JObj d) qs"
proof (induction ps v d arbitrary: qs rule: set_path.induct)
  case (2 p v cursor)
  then show ?case by (cases qs) (auto simp: row_get_def update_conv')
next
  case (3 p q ps v cursor)
  obtain r rs where qs: "qs = r # rs" using 3(3) by (cases qs) auto
  have rs: "rs \<noteq> []" if "r = p" using 3(3) that by (auto simp: qs)
  have old: "get_parts (JObj (case map_of cursor p of Some (JObj d) \<Rightarrow> d | _ \<Rightarrow> [])) rs = get_parts (row_get cursor p) rs"
    if "r = p" using rs [OF that] by (cases rs) (auto simp: row_get_def split: option.splits json.splits)
  show ?case
  proof (cases "r = p")
    case True
    then show ?thesis using 3 old by (simp add: qs row_get_def update_conv' Let_def)
  next
    case False
    then show ?thesis by (simp add: qs row_get_def update_conv' Let_def)
  qed
qed simp

definition path_free :: "string \<Rightarrow> string \<Rightarrow> bool" where
  "path_free p q = (\<not> prefix (py_split (CHR ''.'') p) (py_split (CHR ''.'') q))"

lemma fold_set_path:
  assumes "distinct (map fst vs)" and "\<And>q. q \<in> fst ` set vs \<Longrightarrow> q \<noteq> p \<Longrightarrow> path_free p q \<and> path_free q p"
  shows "get_path (JObj (fold (\<lambda>(path, v). set_path (py_split (CHR ''.'') path) v) vs d)) p =
    (case map_of vs p of Some v \<Rightarrow> v | None \<Rightarrow> get_path (JObj d) p)"
  using assms
proof (induction vs arbitrary: d)
  case (Cons x vs)
  obtain q w where x: "x = (q, w)" by (cases x)
  have IH: "get_path (JObj (fold (\<lambda>(path, v). set_path (py_split (CHR ''.'') path) v) vs e)) p =
    (case map_of vs p of Some v \<Rightarrow> v | None \<Rightarrow> get_path (JObj e) p)" for e
    using Cons by auto
  show ?case
  proof (cases "q = p")
    case True
    then have "map_of vs p = None" using Cons.prems(1) x by (simp add: map_of_eq_None_iff)
    then show ?thesis using IH by (simp add: x True get_path_def get_set_path_same)
  next
    case False
    then have "path_free p q" "path_free q p" using Cons.prems(2) x by auto
    then have "get_path (JObj (set_path (py_split (CHR ''.'') q) w d)) p = get_path (JObj d) p"
      unfolding get_path_def path_free_def by (rule get_set_path_other [rotated])
    then show ?thesis using IH False by (simp add: x split: option.split)
  qed
qed simp

definition prefix_free :: "string list list \<Rightarrow> bool" where
  "prefix_free L = list_all (\<lambda>ps. list_all (\<lambda>qs. if prefix ps qs then ps = qs else True) L) L"

lemma leaf_paths_prefix_free:
  "prefix_free (leaf_paths ''flow'')" "prefix_free (leaf_paths ''session'')" "prefix_free (leaf_paths ''handshake'')"
  "prefix_free (leaf_paths ''certificate'')" "prefix_free (leaf_paths ''derived'')"
  unfolding leaf_paths_simps leaf_paths_handshake leaf_paths_certificate by code_simp+

lemma allowed_path_free:
  assumes "p \<in> set allowed_paths" and "q \<in> set allowed_paths" and "p \<noteq> q"
  shows "path_free p q"
proof (rule allowed_path_leaf [OF assms(1)], rule allowed_path_leaf [OF assms(2)])
  fix r ps r' qs
  assume p: "py_split CHR ''.'' p = r # ps" "ps \<in> set (leaf_paths r)"
    and q: "py_split CHR ''.'' q = r' # qs" "qs \<in> set (leaf_paths r')"
    and r: "r \<in> {''flow'', ''session'', ''handshake'', ''certificate'', ''derived''}"
  have "prefix_free (leaf_paths r)"
    using r leaf_paths_prefix_free by (elim insertE emptyE) simp_all
  then have "ps = qs" if "r = r'" "prefix ps qs"
    using p(2) q(2) that unfolding prefix_free_def list_all_iff by (metis (full_types))
  moreover have "r # ps \<noteq> r' # qs" using p(1) q(1) py_split_inj assms(3) by metis
  ultimately show ?thesis unfolding path_free_def p(1) q(1) by auto
qed

lemma inline_context_values:
  assumes "inline_test_ok test" and "distinct (map fst (it_values test))" and "p \<in> set allowed_paths"
  shows "get_path (context_from_values (it_values test)) p =
    (case map_of (it_values test) p of Some v \<Rightarrow> v | None \<Rightarrow> get_path (JObj inline_root) p)"
  unfolding context_from_values_def
proof (rule fold_set_path [OF assms(2)])
  fix q assume "q \<in> fst ` set (it_values test)" and "q \<noteq> p"
  then have "q \<in> set allowed_paths" using assms(1) unfolding inline_test_ok_def list_all_iff by fastforce
  then show "path_free p q \<and> path_free q p" using allowed_path_free assms(3) \<open>q \<noteq> p\<close> by metis
qed

section \<open>Sample pack\<close>

definition sample_test :: inline_rule_test where
  "sample_test = \<lparr>it_id = ''pass'', it_at = 20000,
     it_values = [(''handshake.established'', JBool True), (''handshake.version.selected'', JStr ''TLSv13'')],
     it_expected = RE_PASS\<rparr>"

definition sample_rule :: policy_rule where
  "sample_rule = \<lparr>pu_id = ''SM-TLS-001'', pu_target = PT_HANDSHAKE, pu_effective_from = 0,
     pu_effective_until = None, pu_roles = [],
     pu_where = [\<lparr>pr_path = ''handshake.established'', pr_operator = PO_EQ, pr_value = JBool True,
        pr_state_path = None\<rparr>],
     pu_assertion = [\<lparr>pr_path = ''handshake.version.selected'', pr_operator = PO_IN,
        pr_value = JList [JStr ''TLSv12'', JStr ''TLSv13''],
        pr_state_path = Some ''handshake.version.evidence_state''\<rparr>],
     pu_fail_outcome = FO_NEGATIVE,
     pu_severity = \<lparr>rs_negative = SV_HIGH, rs_indeterminate = SV_LOW\<rparr>,
     pu_title = ''Obsolete TLS version'', pu_rationale = ''RFC 8996'', pu_standards = [''RFC 8996''],
     pu_remediation_id = ''enable-tls13'', pu_tests = [sample_test]\<rparr>"

definition sample_pack :: policy_pack where
  "sample_pack = \<lparr>pp_profile = PP_IETF_CURRENT, pp_version = ''1'', pp_evaluation_clock = EC_ANALYSIS_TIME,
     pp_roles = [], pp_rules = [sample_rule]\<rparr>"

definition sample_batch :: evidence_batch where
  "sample_batch = \<lparr>eb_flows = [], eb_sessions = [], eb_handshakes = [sample_handshake], eb_certificates = []\<rparr>"

definition sample_context :: "string \<Rightarrow> json" where
  "sample_context version = context_from_values
     [(''handshake.established'', JBool True), (''handshake.version.selected'', JStr version)]"

definition sample_instant :: py_datetime where
  "sample_instant = \<lparr>dt_wall = 1728000000000000, dt_offset = Some 0\<rparr>"

lemma sample_context_values:
  "get_path (sample_context v) ''handshake.established'' = JBool True"
  "get_path (sample_context v) ''handshake.version.selected'' = JStr v"
  "get_path (sample_context v) ''handshake.version.evidence_state'' = JNull"
  by (simp_all add: sample_context_def context_from_values_def get_path_def py_split_def inline_root_def row_get_def)

lemma sample_rule_no_raise: "rule_no_raise sample_rule (sample_context v)"
  by (simp add: rule_no_raise_def sample_rule_def no_raise_def eval_predicate_def sample_context_values
      compare_def set_member_def unusable_raw_def)

lemma sample_rule_verdict:
  "rule_spec sample_rule (sample_context v) sample_instant = (if v \<in> {''TLSv12'', ''TLSv13''} then RE_PASS else RE_NEGATIVE)"
  by (simp add: rule_spec_def sample_rule_def truth_def kleene_def sample_context_values compare_def set_member_def
      unusable_raw_def rule_active_def role_admitted_def sample_instant_def dt_date_def)

lemma sample_pack_safe: "pack_safe sample_pack"
  unfolding pack_safe_def policy_pack_ok_def by code_simp

lemma sample_batch_ok: "batch_ok sample_batch"
  by (simp add: batch_ok_def sample_batch_def sample_handshake_def len_in_def)

lemma sample_digest_ok: "is_sha256_hex (replicate 64 (CHR ''0''))"
  by (simp add: is_sha256_hex_def is_lower_hex_def list_all_iff)

lemma judged_list:
  assumes "list_all (judged rk) rs"
  shows "f \<in> set (concat (map snd rs)) \<Longrightarrow> finding_ok f \<and> fi_policy_pack_version f = rk_pack_digest rk
      \<and> fi_policy_evaluation_time f = rk_instant rk \<and> (\<exists>k \<in> set (concat (map fst rs)). same_judgment f k)"
    and "k \<in> set (concat (map fst rs)) \<Longrightarrow> policy_check_ok k \<and>
      (pk_outcome k = PC_FAIL \<longrightarrow> (\<exists>f \<in> set (concat (map snd rs)). same_judgment f k))"
    and "length (concat (map snd rs)) \<le> length (concat (map fst rs))"
proof -
  show "f \<in> set (concat (map snd rs)) \<Longrightarrow> finding_ok f \<and> fi_policy_pack_version f = rk_pack_digest rk
      \<and> fi_policy_evaluation_time f = rk_instant rk \<and> (\<exists>k \<in> set (concat (map fst rs)). same_judgment f k)"
  proof -
    assume "f \<in> set (concat (map snd rs))"
    then obtain r where r: "r \<in> set rs" "f \<in> set (snd r)" by auto
    then have "judged rk r" using assms by (simp add: list_all_iff)
    then show ?thesis using r by (cases rule: judged_cases) force+
  qed
  show "k \<in> set (concat (map fst rs)) \<Longrightarrow> policy_check_ok k \<and>
      (pk_outcome k = PC_FAIL \<longrightarrow> (\<exists>f \<in> set (concat (map snd rs)). same_judgment f k))"
  proof -
    assume "k \<in> set (concat (map fst rs))"
    then obtain r where r: "r \<in> set rs" "k \<in> set (fst r)" by auto
    then have "judged rk r" using assms by (simp add: list_all_iff)
    then show ?thesis using r by (cases rule: judged_cases) force+
  qed
  show "length (concat (map snd rs)) \<le> length (concat (map fst rs))"
    using assms
  proof (induction rs)
    case (Cons r rs)
    then have "judged rk r" by simp
    then show ?case by (cases rule: judged_cases) (use Cons in auto)
  qed simp
qed

lemma batch_wf:
  assumes "evaluate_policy_batch pack digest sha t b = Inr e"
  shows "list_all finding_ok (pv_findings e)" and "list_all policy_check_ok (pv_checks e)"
    and "f \<in> set (pv_findings e) \<Longrightarrow> fi_policy_pack_version f = digest \<and> fi_policy_evaluation_time f = as_utc t"
    and "f \<in> set (pv_findings e) \<Longrightarrow> \<exists>k \<in> set (pv_checks e). same_judgment f k"
    and "k \<in> set (pv_checks e) \<Longrightarrow> pk_outcome k = PC_FAIL \<Longrightarrow> \<exists>f \<in> set (pv_findings e). same_judgment f k"
    and "length (filter (\<lambda>f. fi_outcome f = FO_NEGATIVE) (pv_findings e)) =
         length (filter (\<lambda>k. pk_outcome k = PC_FAIL) (pv_checks e))"
    and "length (pv_findings e) \<le> length (pv_checks e)"
proof -
  obtain rs where "mset (pv_findings e) = mset (concat (map snd (concat rs)))"
    and "mset (pv_checks e) = mset (concat (map fst (concat rs)))"
    and j: "list_all (judged (batch_run digest sha t)) (concat rs)"
    using batch_results [OF assms] by blast
  note ms = this(1,2) and sets = mset_eq_setD [OF this(1)] mset_eq_setD [OF this(2)] and jl = judged_list [OF j]
  show "list_all finding_ok (pv_findings e)" "list_all policy_check_ok (pv_checks e)"
    unfolding list_all_iff sets using jl(1,2) by blast+
  show "f \<in> set (pv_findings e) \<Longrightarrow> fi_policy_pack_version f = digest \<and> fi_policy_evaluation_time f = as_utc t"
    unfolding sets using jl(1) [of f] by (simp add: batch_run_def)
  show "f \<in> set (pv_findings e) \<Longrightarrow> \<exists>k \<in> set (pv_checks e). same_judgment f k"
    unfolding sets using jl(1) by blast
  show "k \<in> set (pv_checks e) \<Longrightarrow> pk_outcome k = PC_FAIL \<Longrightarrow> \<exists>f \<in> set (pv_findings e). same_judgment f k"
    unfolding sets using jl(2) by blast
  show "length (filter (\<lambda>f. fi_outcome f = FO_NEGATIVE) (pv_findings e)) =
         length (filter (\<lambda>k. pk_outcome k = PC_FAIL) (pv_checks e))"
    using judged_counts [OF j] ms by (metis mset_filter size_mset)
  show "length (pv_findings e) \<le> length (pv_checks e)"
    using jl(3) ms by (metis size_mset)
qed

lemma weaken_fresh: "p \<notin> fst ` set d \<Longrightarrow> length (weaken p st d) = Suc (length d)"
  by (induction p st d rule: weaken.induct) auto

lemma weakest_by_path_distinct:
  assumes "distinct (map fst pairs)"
  shows "length (weakest_by_path pairs) = length pairs"
proof -
  have "length (fold (\<lambda>(p, s). weaken p s) pairs d) = length pairs + length d"
    if "distinct (map fst pairs)" "fst ` set pairs \<inter> fst ` set d = {}" for d
    using that
  proof (induction pairs arbitrary: d)
    case (Cons x pairs)
    obtain p st where x: "x = (p, st)" by (cases x)
    have "fst ` set pairs \<inter> fst ` set (weaken p st d) = {}"
      using Cons.prems by (auto simp: weaken_keys x)
    with Cons x show ?case by (simp add: weaken_fresh)
  qed simp
  from this [of "[]"] assms show ?thesis by (simp add: weakest_by_path_def)
qed

section \<open>Properties\<close>

text \<open>C6: The engine implements three-valued logic. On every context on which no comparison raises, the
  verdict of a rule is the one of the specification: not applicable unless the rule is active, its
  role is admitted and the Kleene conjunction of its conditions is true; then pass, indeterminate or
  negative as the Kleene conjunction of its assertions is true, unknown or false.\<close>

theorem engine_refines_kleene:
  assumes "rule_no_raise rule context"
  shows "evaluate_rule_on_context rule context instant = Inr (rule_spec rule context instant)"
  using assms by (rule rule_result_spec)

theorem engine_refines_kleene_witness:
  "evaluate_rule_on_context sample_rule (sample_context ''TLSv10'') sample_instant = Inr RE_NEGATIVE"
  unfolding engine_refines_kleene [OF sample_rule_no_raise] sample_rule_verdict by simp

text \<open>C7: A negative verdict rests on usable evidence. The rule is active and its role admitted, every
  condition compared true and some assertion compared false, each on a value that is present and
  whose named evidence state, if any, is usable.\<close>

theorem negative_needs_evidence:
  assumes "evaluate_rule_on_context rule context instant = Inr RE_NEGATIVE"
  shows "let usable = (\<lambda>p b. get_path context (pr_path p) \<noteq> JNull
           \<and> (case pr_state_path p of None \<Rightarrow> True | Some sp \<Rightarrow> \<not> unusable_raw (get_path context sp))
           \<and> compare (pr_operator p) (get_path context (pr_path p)) (pr_value p) = Inr b)
    in rule_active rule instant \<and> role_admitted rule context \<and> pu_fail_outcome rule = FO_NEGATIVE
     \<and> list_all (\<lambda>p. usable p True) (pu_where rule) \<and> list_ex (\<lambda>p. usable p False) (pu_assertion rule)"
proof -
  have usable: "get_path context (pr_path p) \<noteq> JNull
      \<and> (case pr_state_path p of None \<Rightarrow> True | Some sp \<Rightarrow> \<not> unusable_raw (get_path context sp))
      \<and> compare (pr_operator p) (get_path context (pr_path p)) (pr_value p) = Inr b"
    if "truth p context = Some b" for p b
    using that by (auto simp: truth_def split: if_splits sum.splits option.splits)
  obtain cov where "evaluate_rule_with_coverage rule context instant = Inr cov" "rc_result cov = RE_NEGATIVE"
    using assms by (auto simp: evaluate_rule_on_context_def py_simps)
  then show ?thesis
  proof (cases rule: rule_coverage_cases)
    case (negative st)
    then show ?thesis using usable unfolding Let_def list_all_iff list_ex_iff by blast
  qed (simp_all add: mk_coverage_def)
qed

theorem negative_needs_evidence_witness:
  "evaluate_rule_on_context sample_rule (sample_context ''TLSv10'') sample_instant = Inr RE_NEGATIVE
   \<and> rule_active sample_rule sample_instant"
proof -
  have v: "evaluate_rule_on_context sample_rule (sample_context ''TLSv10'') sample_instant = Inr RE_NEGATIVE"
    unfolding rule_result_spec [OF sample_rule_no_raise] sample_rule_verdict by simp
  show ?thesis using v negative_needs_evidence [OF v] unfolding Let_def by blast
qed

text \<open>C18: Evaluating a pack never raises when no membership test reads the list-valued path, no rule names
  more than 32 references, and the evidence keeps its identifiers within bounds. Every finding and every
  check satisfies its model; all findings carry the digest of the pack and the evaluation instant in
  UTC; and both lists come out sorted by their keys.\<close>

theorem batch_total_wf:
  assumes "pack_safe pack" and "batch_ok b" and "is_sha256_hex digest"
  shows "\<exists>e. evaluate_policy_batch pack digest sha t b = Inr e
    \<and> list_all finding_ok (pv_findings e) \<and> list_all policy_check_ok (pv_checks e)
    \<and> list_all (\<lambda>f. fi_policy_pack_version f = digest \<and> fi_policy_evaluation_time f = as_utc t) (pv_findings e)
    \<and> sorted (map finding_sort_key (pv_findings e)) \<and> sorted (map check_sort_key (pv_checks e))"
proof -
  obtain e where e: "evaluate_policy_batch pack digest sha t b = Inr e" using batch_total [OF assms] by blast
  moreover from e have "sorted (map finding_sort_key (pv_findings e))" "sorted (map check_sort_key (pv_checks e))"
    by (auto simp: evaluate_policy_batch_def Let_def py_simps)
  moreover have "list_all (\<lambda>f. fi_policy_pack_version f = digest \<and> fi_policy_evaluation_time f = as_utc t) (pv_findings e)"
    using batch_wf(3) [OF e] by (simp add: list_all_iff)
  ultimately show ?thesis using batch_wf(1,2) [OF e] by blast
qed

theorem batch_total_wf_witness:
  "\<exists>e. evaluate_policy_batch sample_pack (replicate 64 (CHR ''0'')) ''s'' sample_instant sample_batch = Inr e
    \<and> list_all finding_ok (pv_findings e)"
  using batch_total_wf [OF sample_pack_safe sample_batch_ok sample_digest_ok, of "''s''" sample_instant] by blast

text \<open>C13: Findings and coverage checks tell the same story. Every finding has a check of the same rule, endpoint
  and record, which is not a pass and which failed exactly if the finding is negative; every failed
  check has such a finding; there are as many negative findings as failed checks, and never more
  findings than checks.\<close>

theorem batch_checks_findings_agree:
  assumes "evaluate_policy_batch pack digest sha t b = Inr e"
  shows "(\<forall>f \<in> set (pv_findings e). \<exists>k \<in> set (pv_checks e). same_judgment f k)
    \<and> (\<forall>k \<in> set (pv_checks e). pk_outcome k = PC_FAIL \<longrightarrow> (\<exists>f \<in> set (pv_findings e). same_judgment f k))
    \<and> length (filter (\<lambda>f. fi_outcome f = FO_NEGATIVE) (pv_findings e)) =
        length (filter (\<lambda>k. pk_outcome k = PC_FAIL) (pv_checks e))
    \<and> length (pv_findings e) \<le> length (pv_checks e)"
  using batch_wf(4-7) [OF assms] by blast

theorem batch_checks_findings_agree_witness:
  "\<exists>e. evaluate_policy_batch sample_pack (replicate 64 (CHR ''0'')) ''s'' sample_instant sample_batch = Inr e
    \<and> length (pv_findings e) \<le> length (pv_checks e)"
  using batch_total [OF sample_pack_safe sample_batch_ok sample_digest_ok, of "''s''" sample_instant]
    batch_checks_findings_agree [of sample_pack "replicate 64 (CHR ''0'')" "''s''" sample_instant sample_batch] by blast

text \<open>The basis of a finding is the weakest evidence it rests on: one of the states of the rule's
  conditions and assertions (and of the inferred role, when the rule names roles), and none of them
  is weaker. A verdict counts as verified only if it is not indeterminate.\<close>

theorem finding_basis_weakest:
  assumes "to_finding rk pack rule context outcome record = Inr f" and "policy_rule_ok rule"
  shows "fi_basis_state f \<in> snd ` set (reference_pairs rule context)
    \<and> list_all (\<lambda>(path, s). state_rank (fi_basis_state f) \<le> state_rank s) (reference_pairs rule context)
    \<and> (fi_evaluation_state f = ES_VERIFIED \<longleftrightarrow> outcome = FO_NEGATIVE)"
proof -
  note p = to_finding_props [OF assms(1)]
  have "reference_pairs rule context \<noteq> []"
    using assms(2) by (auto simp: reference_pairs_def policy_rule_ok_def len_in_def)
  note w = weakest_state_refs [OF p(7) this]
  have "fi_evaluation_state f = ES_VERIFIED \<longleftrightarrow> outcome = FO_NEGATIVE" using p(9) by (cases outcome) simp_all
  then show ?thesis using w unfolding p(8) list_all_iff by auto
qed

theorem finding_basis_weakest_witness:
  "\<exists>f. to_finding \<lparr>rk_capture_sha256 = ''s'', rk_pack_digest = replicate 64 (CHR ''0''), rk_instant = sample_instant\<rparr>
      sample_pack sample_rule (sample_context ''TLSv10'') FO_NEGATIVE (REC_HANDSHAKE sample_handshake) = Inr f
    \<and> fi_evaluation_state f = ES_VERIFIED"
proof -
  let ?rk = "\<lparr>rk_capture_sha256 = ''s'', rk_pack_digest = replicate 64 (CHR ''0''), rk_instant = sample_instant\<rparr>"
  have ok: "policy_rule_ok sample_rule"
    using sample_pack_safe by (simp add: pack_safe_def policy_pack_ok_def sample_pack_def)
  have "get_parts (sample_context ''TLSv10'') [''flow'', ''resp''] = JNull"
    by (simp add: sample_context_def context_from_values_def py_split_def inline_root_def row_get_def)
  then have "len_in 1 300 (endpoint_from_context (sample_context ''TLSv10''))"
    by (simp add: endpoint_from_context_def len_in_def)
  then obtain f where f: "to_finding ?rk sample_pack sample_rule (sample_context ''TLSv10'') FO_NEGATIVE
      (REC_HANDSHAKE sample_handshake) = Inr f"
    using to_finding_total [OF ok, of "REC_HANDSHAKE sample_handshake" "sample_context ''TLSv10''" ?rk] sample_digest_ok
    by (auto simp: sample_rule_def record_key_def sample_handshake_def len_in_def)
  then show ?thesis using finding_basis_weakest [OF f ok] by blast
qed

text \<open>An inline test of a rule is evaluated on the values it states: every admissible path reads its
  stated value, and an unstated path reads the default of the synthetic context.\<close>

theorem inline_test_sees_values:
  assumes "inline_test_ok test" and "distinct (map fst (it_values test))"
  shows "list_all (\<lambda>p. get_path (context_from_values (it_values test)) p =
    (case map_of (it_values test) p of Some v \<Rightarrow> v | None \<Rightarrow> get_path (JObj inline_root) p)) allowed_paths"
  using inline_context_values [OF assms] by (simp add: list_all_iff)

theorem inline_test_sees_values_witness:
  "get_path (context_from_values (it_values sample_test)) ''handshake.version.selected'' = JStr ''TLSv13''"
proof -
  have "inline_test_ok sample_test" "distinct (map fst (it_values sample_test))" by code_simp+
  note v = inline_test_sees_values [OF this, unfolded list_all_iff]
  have "''handshake.version.selected'' \<in> set allowed_paths" by code_simp
  from bspec [OF v this] show ?thesis by (simp add: sample_test_def)
qed

text \<open>A membership test on the observed commands is an admissible predicate that no evidence can
  satisfy: on every context built from a batch it raises a TypeError, which the evaluation does not
  catch, because the value of the path is a list.\<close>

theorem membership_on_commands_raises:
  assumes "build_context pack b rd = Inr context" and "list_all bounded_item xs"
  shows "eval_predicate \<lparr>pr_path = ''derived.observed_commands'', pr_operator = PO_IN, pr_value = JList xs,
      pr_state_path = None\<rparr> context = Inl TypeError"
proof -
  have split: "py_split (CHR ''.'') ''derived.observed_commands'' = [''derived'', ''observed_commands'']" by code_simp
  obtain ys where "get_path context ''derived.observed_commands'' = JList ys"
    using assms(1) unfolding get_path_def split
    by (auto simp: build_context_def Let_def py_simps derived_def row_get_def)
  then show ?thesis by (simp add: eval_predicate_def compare_def set_member_def)
qed

theorem membership_on_commands_raises_witness:
  "\<exists>context. build_context sample_pack sample_batch (REC_HANDSHAKE sample_handshake) = Inr context \<and>
     eval_predicate \<lparr>pr_path = ''derived.observed_commands'', pr_operator = PO_IN, pr_value = JList [JStr ''AUTH''],
       pr_state_path = None\<rparr> context = Inl TypeError"
proof -
  obtain c where c: "build_context sample_pack sample_batch (REC_HANDSHAKE sample_handshake) = Inr c"
    using build_context_total [of sample_pack] sample_pack_safe unfolding pack_safe_def by blast
  then show ?thesis using membership_on_commands_raises [OF c, of "[JStr ''AUTH'']"] by simp
qed

text \<open>The bound on references is needed. A rule with 16 conditions, 16 assertions and a role list is
  admissible, but when its 33 reference paths are distinct every finding it would report is rejected
  with a ValidationError, since a finding holds at most 32 references.\<close>

theorem too_many_references_rejected:
  assumes "distinct (map fst (reference_pairs rule context))" and "32 < length (reference_pairs rule context)"
  shows "to_finding rk pack rule context outcome record = Inl ValidationError"
proof (cases "to_finding rk pack rule context outcome record")
  case (Inl e)
  have refs: "references rule context (record_key record) (pu_target rule) = Inl x \<Longrightarrow> x = ValidationError" for x
    by (auto simp: references_eq py_simps dest!: mapE_Inl_ex)
  from Inl have "e = ValidationError"
    unfolding to_finding_def Let_def bindE_eq_Inl check_model_eq_Inl by (auto dest: refs)
  with Inl show ?thesis by simp
next
  case (Inr f)
  note p = to_finding_props [OF Inr]
  have "length (fi_evidence_references f) = length (reference_pairs rule context)"
    unfolding references_set(3) [OF p(7)] by (rule weakest_by_path_distinct [OF assms(1)])
  then show ?thesis using p(1) assms(2) by (simp add: finding_ok_def len_in_def)
qed

definition crowded_rule :: policy_rule where
  "crowded_rule =
    (let test_present = (\<lambda>path. \<lparr>pr_path = path, pr_operator = PO_NOT_EQ, pr_value = JStr [], pr_state_path = None\<rparr>)
     in sample_rule\<lparr>pu_roles := [''mta''], pu_where := map test_present (take 16 allowed_paths),
          pu_assertion := map test_present (take 16 (drop 16 allowed_paths))\<rparr>)"

theorem too_many_references_rejected_witness:
  "policy_rule_ok crowded_rule \<and>
   to_finding \<lparr>rk_capture_sha256 = ''s'', rk_pack_digest = replicate 64 (CHR ''0''), rk_instant = sample_instant\<rparr>
     sample_pack crowded_rule (sample_context ''TLSv10'') FO_NEGATIVE (REC_HANDSHAKE sample_handshake) = Inl ValidationError"
proof -
  have paths: "map fst (reference_pairs crowded_rule c) = take 32 allowed_paths @ [''derived.service_role'']" for c
    by (simp add: reference_pairs_def crowded_rule_def Let_def comp_def take_add [of 16 16, simplified])
  have "distinct (take 32 allowed_paths @ [''derived.service_role''])" "length allowed_paths = 48" by code_simp+
  then have "distinct (map fst (reference_pairs crowded_rule c))" "length (map fst (reference_pairs crowded_rule c)) = 33" for c
    unfolding paths by simp_all
  then have "distinct (map fst (reference_pairs crowded_rule c))" "32 < length (reference_pairs crowded_rule c)" for c
    by simp_all
  note too_many_references_rejected [OF this]
  moreover have "policy_rule_ok crowded_rule" by code_simp
  ultimately show ?thesis by blast
qed

end
