(* ===== verification/Effects.thy ===== *)
theory Effects
  imports Prelude
begin

text \<open>
  Stateful Python code as functions from a state to a result and a new state: an exception leaves the
  state as it was when it was raised, so what ran before it remains. \<open>doS\<close> sequences two operations,
  \<open>tryS\<close> is \<open>try: ... except Exception\<close>, \<open>handleS\<close> re-raises under another class (\<open>except E as exc: raise
  F\<close>), \<open>finallyS\<close> is \<open>finally\<close>. \<open>pureS\<close> lifts an operation that only reads the state.

  Shown here: equations for each combinator and the rule that a sequence keeps an invariant of the
  state if its parts do (\<open>keeps\<close>).
\<close>

type_synonym ('s, 'a) op = "'s \<Rightarrow> 'a result \<times> 's"

definition returnS :: "'a \<Rightarrow> ('s, 'a) op" where
  "returnS a s = (Inr a, s)"

definition raiseS :: "py_exn \<Rightarrow> ('s, 'a) op" where
  "raiseS e s = (Inl e, s)"

definition doS :: "('s, 'a) op \<Rightarrow> ('a \<Rightarrow> ('s, 'b) op) \<Rightarrow> ('s, 'b) op" where
  "doS m f s = (case m s of (Inl e, t) \<Rightarrow> (Inl e, t) | (Inr a, t) \<Rightarrow> f a t)"

definition pureS :: "('s \<Rightarrow> 'a result) \<Rightarrow> ('s, 'a) op" where
  "pureS f s = (f s, s)"

definition getS :: "('s \<Rightarrow> 'a) \<Rightarrow> ('s, 'a) op" where
  "getS f s = (Inr (f s), s)"

definition modifyS :: "('s \<Rightarrow> 's) \<Rightarrow> ('s, unit) op" where
  "modifyS f s = (Inr (), f s)"

definition guardS :: "bool \<Rightarrow> py_exn \<Rightarrow> ('s, unit) op" where
  \<comment> \<open>\<open>if not b: raise e\<close>\<close>
  "guardS b e = (if b then returnS () else raiseS e)"

definition tryS :: "('s, 'a) op \<Rightarrow> (py_exn \<Rightarrow> ('s, 'a) op) \<Rightarrow> ('s, 'a) op" where
  "tryS m h s = (case m s of (Inl e, t) \<Rightarrow> h e t | (Inr a, t) \<Rightarrow> (Inr a, t))"

definition finallyS :: "('s, 'a) op \<Rightarrow> ('s \<Rightarrow> 's) \<Rightarrow> ('s, 'a) op" where
  "finallyS m f s = (case m s of (r, t) \<Rightarrow> (r, f t))"

text \<open>An operation on a part of the state.\<close>

definition onS :: "('s \<Rightarrow> 't) \<Rightarrow> (('t \<Rightarrow> 't) \<Rightarrow> 's \<Rightarrow> 's) \<Rightarrow> ('t, 'a) op \<Rightarrow> ('s, 'a) op" where
  "onS get upd m s = (case m (get s) of (r, t) \<Rightarrow> (r, upd (\<lambda>_. t) s))"

lemmas op_defs = returnS_def raiseS_def doS_def pureS_def getS_def modifyS_def guardS_def tryS_def
  finallyS_def onS_def

section \<open>Invariants of operations\<close>

definition keeps :: "('s \<Rightarrow> bool) \<Rightarrow> ('s, 'a) op \<Rightarrow> bool" where
  "keeps P m = (\<forall>s. P s \<longrightarrow> P (snd (m s)))"

lemma keepsI: "(\<And>s. P s \<Longrightarrow> P (snd (m s))) \<Longrightarrow> keeps P m"
  by (simp add: keeps_def)

lemma keepsD: "keeps P m \<Longrightarrow> P s \<Longrightarrow> m s = (r, t) \<Longrightarrow> P t"
  by (metis keeps_def snd_conv)

lemma keeps_doS: "keeps P m \<Longrightarrow> (\<And>a. keeps P (f a)) \<Longrightarrow> keeps P (doS m f)"
  unfolding keeps_def doS_def by (simp split: prod.splits sum.splits) (metis snd_conv)

lemma keeps_tryS: "keeps P m \<Longrightarrow> (\<And>e. keeps P (h e)) \<Longrightarrow> keeps P (tryS m h)"
  unfolding keeps_def tryS_def by (simp split: prod.splits sum.splits) (metis snd_conv)

lemma keeps_pure [simp]:
  "keeps P (returnS a)" "keeps P (raiseS e)" "keeps P (pureS f)" "keeps P (getS g)" "keeps P (guardS b e)"
  by (simp_all add: keeps_def op_defs)

lemma doS_Inr:
  "doS m f s = (Inr b, u) \<longleftrightarrow> (\<exists>a t. m s = (Inr a, t) \<and> f a t = (Inr b, u))"
  by (auto simp: doS_def split: prod.splits sum.splits)

lemma doS_Inl:
  "doS m f s = (Inl e, u) \<longleftrightarrow> m s = (Inl e, u) \<or> (\<exists>a t. m s = (Inr a, t) \<and> f a t = (Inl e, u))"
  by (auto simp: doS_def split: prod.splits sum.splits)

lemma keeps_finallyS: "keeps P m \<Longrightarrow> (\<And>s. P s \<Longrightarrow> P (f s)) \<Longrightarrow> keeps P (finallyS m f)"
  unfolding keeps_def finallyS_def by (simp split: prod.splits) (metis snd_conv)

lemma keeps_modifyS: "(\<And>s. P s \<Longrightarrow> P (f s)) \<Longrightarrow> keeps P (modifyS f)"
  by (simp add: keeps_def modifyS_def)

section \<open>Triples\<close>

text \<open>\<open>triple P m Q E\<close>: from a state with \<open>P\<close>, the operation ends in a state with \<open>Q\<close> of its value, or raises in a state
  with \<open>E\<close> of the exception.\<close>

definition triple :: "('s \<Rightarrow> bool) \<Rightarrow> ('s, 'a) op \<Rightarrow> ('a \<Rightarrow> 's \<Rightarrow> bool) \<Rightarrow> (py_exn \<Rightarrow> 's \<Rightarrow> bool) \<Rightarrow> bool" where
  "triple P m Q E = (\<forall>s. P s \<longrightarrow> (case m s of (Inr a, t) \<Rightarrow> Q a t | (Inl e, t) \<Rightarrow> E e t))"

lemma tripleI:
  "(\<And>s. P s \<Longrightarrow> case m s of (Inr a, t) \<Rightarrow> Q a t | (Inl e, t) \<Rightarrow> E e t) \<Longrightarrow> triple P m Q E"
  by (simp add: triple_def)

lemma tripleD:
  assumes "triple P m Q E" and "P s"
  shows "m s = (Inr a, t) \<Longrightarrow> Q a t" and "m s = (Inl e, t) \<Longrightarrow> E e t"
  using assms by (auto simp: triple_def split: prod.splits sum.splits)

lemma triple_do:
  assumes "triple P m R E" and "\<And>a. triple (R a) (f a) Q E"
  shows "triple P (doS m f) Q E"
proof (rule tripleI)
  fix s assume P: "P s"
  show "case doS m f s of (Inr a, t) \<Rightarrow> Q a t | (Inl e, t) \<Rightarrow> E e t"
  proof (cases "m s")
    case (Pair r t)
    then show ?thesis
      using tripleD [OF assms(1) P] assms(2) by (cases r) (auto simp: doS_def triple_def)
  qed
qed

lemma triple_return: "(\<And>s. P s \<Longrightarrow> Q a s) \<Longrightarrow> triple P (returnS a) Q E"
  by (simp add: triple_def returnS_def)

lemma triple_raiseS: "(\<And>s. P s \<Longrightarrow> E e s) \<Longrightarrow> triple P (raiseS e) Q E"
  by (simp add: triple_def raiseS_def)

lemma triple_guardS:
  "(\<And>s. P s \<Longrightarrow> b \<Longrightarrow> Q () s) \<Longrightarrow> (\<And>s. P s \<Longrightarrow> \<not> b \<Longrightarrow> E e s) \<Longrightarrow> triple P (guardS b e) Q E"
  by (simp add: triple_def op_defs)

lemma triple_pureS:
  "(\<And>s. P s \<Longrightarrow> case f s of Inr x \<Rightarrow> Q x s | Inl e \<Rightarrow> E e s) \<Longrightarrow> triple P (pureS f) Q E"
  by (auto simp: triple_def pureS_def split: sum.splits)

lemma triple_pre: "triple P m Q E \<Longrightarrow> (\<And>s. P' s \<Longrightarrow> P s) \<Longrightarrow> triple P' m Q E"
  by (auto simp: triple_def)

lemma triple_if:
  "(b \<Longrightarrow> triple P m Q E) \<Longrightarrow> (\<not> b \<Longrightarrow> triple P n Q E) \<Longrightarrow> triple P (if b then m else n) Q E"
  by simp

end
