(* ===== verification/Jobs.thy ===== *)
theory Jobs
  imports Effects Hashing Evidence Findings
begin

text \<open>
  Capture-analysis jobs (\<open>domain/jobs/models.py\<close>) and the filesystem job store
  (\<open>adapters/persistence/job_store.py\<close>): the job record, the directories of the store as a map from run
  identifiers, and every operation of the store as a stateful operation.

  The store's root is a plain directory that only the store writes to: there are no symbolic links,
  and temporary files never outlive an operation. A status file is the persisted job (time stamps in
  UTC, cut to the second, as the serializer writes them) together with the length of its JSON text. The
  clock is a sequence of readings. The random upload identifier is an argument.
\<close>

section \<open>Jobs (models.py)\<close>

abbreviation max_capture_bytes :: nat where "max_capture_bytes \<equiv> 67108864"

abbreviation max_html_bytes :: nat where "max_html_bytes \<equiv> 16777216"

abbreviation max_pdf_bytes :: nat where "max_pdf_bytes \<equiv> 33554432"

abbreviation max_report_bytes :: nat where "max_report_bytes \<equiv> 8388608"

datatype analysis_status = ST_QUEUED | ST_RUNNING | ST_COMPLETED | ST_FAILED | ST_CANCELLED

datatype analysis_stage =
  SG_INTAKE | SG_DETERMINISTIC_ANALYSIS | SG_POLICY_SCORING | SG_ML_ADVISORY | SG_REPORT_RENDERING
  | SG_PUBLICATION

fun st_value :: "analysis_status \<Rightarrow> string" where
  "st_value ST_QUEUED = ''queued''"
| "st_value ST_RUNNING = ''running''"
| "st_value ST_COMPLETED = ''completed''"
| "st_value ST_FAILED = ''failed''"
| "st_value ST_CANCELLED = ''cancelled''"

fun sg_value :: "analysis_stage \<Rightarrow> string" where
  "sg_value SG_INTAKE = ''intake''"
| "sg_value SG_DETERMINISTIC_ANALYSIS = ''deterministic_analysis''"
| "sg_value SG_POLICY_SCORING = ''policy_scoring''"
| "sg_value SG_ML_ADVISORY = ''ml_advisory''"
| "sg_value SG_REPORT_RENDERING = ''report_rendering''"
| "sg_value SG_PUBLICATION = ''publication''"

record artifact_availability =
  aa_canonical :: bool
  aa_html :: bool
  aa_pdf :: bool

definition no_artifacts :: artifact_availability where
  "no_artifacts = \<lparr>aa_canonical = False, aa_html = False, aa_pdf = False\<rparr>"

record analysis_job =
  aj_run_id :: string
  aj_case_id :: string
  aj_status :: analysis_status
  aj_stage :: analysis_stage
  aj_capture_sha256 :: "string option"
  aj_original_filename :: string
  aj_capture_format :: string
  aj_policy_profile :: string
  aj_expected_hostname :: "string option"
  aj_created_at :: py_datetime
  aj_updated_at :: py_datetime
  aj_error_message :: "string option"
  aj_artifacts :: artifact_availability
  aj_cancel_requested :: bool

definition opt_ok :: "('a \<Rightarrow> bool) \<Rightarrow> 'a option \<Rightarrow> bool" where
  "opt_ok P x = (case x of None \<Rightarrow> True | Some a \<Rightarrow> P a)"

definition analysis_job_ok :: "analysis_job \<Rightarrow> bool" where
  "analysis_job_ok j =
    (is_identifier (aj_run_id j) \<and> is_identifier (aj_case_id j)
     \<and> opt_ok is_sha256_hex (aj_capture_sha256 j) \<and> len_in 1 255 (aj_original_filename j)
     \<and> aj_capture_format j \<in> {''pcap'', ''pcapng''} \<and> len_in 1 64 (aj_policy_profile j)
     \<and> opt_ok (\<lambda>h. length h \<le> 253) (aj_expected_hostname j)
     \<and> opt_ok (\<lambda>m. length m \<le> 1000) (aj_error_message j))"

definition is_terminal :: "analysis_job \<Rightarrow> bool" where
  "is_terminal j = (aj_status j \<in> {ST_COMPLETED, ST_FAILED, ST_CANCELLED})"

definition to_second :: "py_datetime \<Rightarrow> py_datetime" where
  "to_second t = \<lparr>dt_wall = dt_instant t div 1000000 * 1000000, dt_offset = Some 0\<rparr>"

definition persisted :: "analysis_job \<Rightarrow> analysis_job" where
  \<comment> \<open>reading back \<open>model_dump(mode="json")\<close>\<close>
  "persisted j = j\<lparr>aj_created_at := to_second (aj_created_at j), aj_updated_at := to_second (aj_updated_at j)\<rparr>"

section \<open>Status files\<close>

text \<open>The length of \<open>json.dumps(payload, indent=2, sort_keys=True) + "\n"\<close>; non-ASCII and control characters
  are escaped, a time stamp has 20 characters.\<close>

definition json_char_size :: "char \<Rightarrow> nat" where
  "json_char_size c = (let n = (of_char c :: nat) in
     if n \<in> {34, 92, 8, 9, 10, 12, 13} then 2 else if 32 \<le> n \<and> n \<le> 126 then 1 else 6)"

definition json_str_size :: "string \<Rightarrow> nat" where
  "json_str_size s = 2 + sum_list (map json_char_size s)"

definition json_opt_size :: "string option \<Rightarrow> nat" where
  "json_opt_size x = (case x of None \<Rightarrow> 4 | Some s \<Rightarrow> json_str_size s)"

definition json_bool_size :: "bool \<Rightarrow> nat" where
  "json_bool_size b = (if b then 4 else 5)"

definition json_entry_size :: "nat \<Rightarrow> string \<Rightarrow> nat \<Rightarrow> nat" where
  "json_entry_size indent k v = indent + (length k + 2) + 2 + v + 1"

definition status_size :: "analysis_job \<Rightarrow> nat" where
  "status_size j =
    (let a = aj_artifacts j;
         artifacts = 2 + json_entry_size 4 ''html'' (json_bool_size (aa_html a))
           + json_entry_size 4 ''json'' (json_bool_size (aa_canonical a))
           + json_entry_size 4 ''pdf'' (json_bool_size (aa_pdf a)) + 2 + 3;
         entries = map (\<lambda>(k, v). json_entry_size 2 k v)
           [(''artifacts'', artifacts), (''cancel_requested'', json_bool_size (aj_cancel_requested j)),
            (''capture_format'', json_str_size (aj_capture_format j)),
            (''capture_sha256'', json_opt_size (aj_capture_sha256 j)), (''case_id'', json_str_size (aj_case_id j)),
            (''created_at'', 22), (''error_message'', json_opt_size (aj_error_message j)),
            (''expected_hostname'', json_opt_size (aj_expected_hostname j)),
            (''original_filename'', json_str_size (aj_original_filename j)),
            (''policy_profile'', json_str_size (aj_policy_profile j)), (''run_id'', json_str_size (aj_run_id j)),
            (''stage'', json_str_size (sg_value (aj_stage j))), (''status'', json_str_size (st_value (aj_status j))),
            (''updated_at'', 22)]
     in 2 + sum_list entries + (length entries - 1) + 2)"

section \<open>The store (job\_store.py)\<close>

record job_dir =
  jd_status :: "analysis_job option"
  jd_capture :: "(string \<times> bytes) option"
  jd_artifacts :: "(string, bytes) dict"
  jd_cancel_flag :: bool

record job_store =
  js_max_jobs :: nat
  js_max_data_bytes :: nat
  js_jobs :: "(string, job_dir) dict"
  js_quarantine :: "(string, bytes) dict"
  js_clock :: "nat \<Rightarrow> py_datetime"
  js_ticks :: nat

definition new_store :: "nat \<Rightarrow> nat \<Rightarrow> (nat \<Rightarrow> py_datetime) \<Rightarrow> job_store result" where
  "new_store max_jobs max_data_bytes clock =
    (if max_jobs < 1 \<or> max_data_bytes < 1 then Inl ValueError
     else Inr \<lparr>js_max_jobs = max_jobs, js_max_data_bytes = max_data_bytes, js_jobs = [], js_quarantine = [],
            js_clock = clock, js_ticks = 0\<rparr>)"

definition now_utc :: "(job_store, py_datetime) op" where
  "now_utc s = (Inr (js_clock s (js_ticks s)), s\<lparr>js_ticks := Suc (js_ticks s)\<rparr>)"

definition dir_size :: "job_dir \<Rightarrow> nat" where
  "dir_size d = (case jd_status d of None \<Rightarrow> 0 | Some j \<Rightarrow> status_size j)
     + (case jd_capture d of None \<Rightarrow> 0 | Some (name, b) \<Rightarrow> length b)
     + sum_list (map (\<lambda>(name, b). length b) (jd_artifacts d)) + (if jd_cancel_flag d then 2 else 0)"

definition usage_bytes :: "job_store \<Rightarrow> nat" where
  "usage_bytes s = sum_list (map (\<lambda>(rid, d). dir_size d) (js_jobs s))
     + sum_list (map (\<lambda>(u, b). length b) (js_quarantine s))"

definition read_status :: "analysis_job \<Rightarrow> analysis_job result" where
  "read_status j = (if 65536 < status_size j then Inl AnalysisJobError
     else if analysis_job_ok j then Inr j else Inl AnalysisJobError)"

definition get_job :: "string \<Rightarrow> job_store \<Rightarrow> analysis_job option result" where
  "get_job run_id s =
    (if \<not> is_identifier run_id then Inr None
     else case map_of (js_jobs s) run_id of
       None \<Rightarrow> Inr None
     | Some d \<Rightarrow> (case jd_status d of None \<Rightarrow> Inr None | Some j \<Rightarrow> bindE (read_status j) (\<lambda>j. Inr (Some j))))"

definition list_jobs :: "job_store \<Rightarrow> analysis_job list result" where
  "list_jobs s =
     mapE read_status (List.map_filter (\<lambda>(rid, d). jd_status d) (sort_key fst (js_jobs s)))"

definition write_dir :: "string \<Rightarrow> job_dir \<Rightarrow> job_store \<Rightarrow> job_store" where
  "write_dir run_id d s = s\<lparr>js_jobs := AList.update run_id d (js_jobs s)\<rparr>"

definition the_dir :: "string \<Rightarrow> job_store \<Rightarrow> job_dir" where
  "the_dir run_id s = (case map_of (js_jobs s) run_id of Some d \<Rightarrow> d
     | None \<Rightarrow> \<lparr>jd_status = None, jd_capture = None, jd_artifacts = [], jd_cancel_flag = False\<rparr>)"

text \<open>The keyword arguments of \<open>update_job\<close>.\<close>

record job_update =
  ju_status :: "analysis_status option"
  ju_stage :: "analysis_stage option"
  ju_error_message :: "string option"
  ju_artifacts :: "artifact_availability option"
  ju_cancel_requested :: "bool option"

definition no_update :: job_update where
  "no_update = \<lparr>ju_status = None, ju_stage = None, ju_error_message = None, ju_artifacts = None,
     ju_cancel_requested = None\<rparr>"

definition set_opt :: "'a option \<Rightarrow> 'a \<Rightarrow> 'a" where
  "set_opt new old = (case new of None \<Rightarrow> old | Some v \<Rightarrow> v)"

definition apply_update :: "job_update \<Rightarrow> py_datetime \<Rightarrow> analysis_job \<Rightarrow> analysis_job" where
  \<comment> \<open>\<open>current.model_copy(update=updates)\<close>, which does not validate\<close>
  "apply_update u now j = j\<lparr>aj_updated_at := now, aj_status := set_opt (ju_status u) (aj_status j),
     aj_stage := set_opt (ju_stage u) (aj_stage j),
     aj_error_message := (case ju_error_message u of None \<Rightarrow> aj_error_message j | Some m \<Rightarrow> Some m),
     aj_artifacts := set_opt (ju_artifacts u) (aj_artifacts j),
     aj_cancel_requested := set_opt (ju_cancel_requested u) (aj_cancel_requested j)\<rparr>"

text \<open>What \<open>update_job\<close> does after reading the job: everything up to writing the status file. Between the two, another
  process may write.\<close>

definition write_update :: "string \<Rightarrow> job_update \<Rightarrow> analysis_job \<Rightarrow> (job_store, analysis_job) op" where
  "write_update run_id u current =
    doS now_utc (\<lambda>now.
    doS (guardS (ju_status u = None \<or> \<not> is_terminal current) JobConflictError) (\<lambda>_.
    let updated = apply_update u now current in
    doS (modifyS (\<lambda>s. let d = the_dir run_id s in
      write_dir run_id (d\<lparr>jd_status := Some (persisted updated),
        jd_cancel_flag := set_opt (ju_cancel_requested u) (jd_cancel_flag d)\<rparr>) s)) (\<lambda>_.
    returnS updated)))"

definition update_job :: "string \<Rightarrow> job_update \<Rightarrow> (job_store, analysis_job) op" where
  "update_job run_id u =
    doS (pureS (get_job run_id)) (\<lambda>found. case found of
      None \<Rightarrow> raiseS JobNotFoundError
    | Some current \<Rightarrow> write_update run_id u current)"

definition request_cancel :: "string \<Rightarrow> (job_store, analysis_job) op" where
  "request_cancel run_id =
    doS (pureS (get_job run_id)) (\<lambda>found. case found of
      None \<Rightarrow> raiseS JobNotFoundError
    | Some current \<Rightarrow>
        if is_terminal current then raiseS JobConflictError
        else if aj_status current = ST_QUEUED
        then update_job run_id (no_update\<lparr>ju_status := Some ST_CANCELLED, ju_cancel_requested := Some True\<rparr>)
        else update_job run_id (no_update\<lparr>ju_cancel_requested := Some True\<rparr>))"

definition is_cancel_requested :: "string \<Rightarrow> job_store \<Rightarrow> bool result" where
  "is_cancel_requested run_id s =
    bindE (get_job run_id s) (\<lambda>found. case found of
      None \<Rightarrow> Inr False
    | Some j \<Rightarrow> Inr (aj_cancel_requested j \<or> jd_cancel_flag (the_dir run_id s)))"

definition claim_key :: "analysis_job \<Rightarrow> int \<times> string" where
  "claim_key j = (dt_instant (aj_created_at j), aj_run_id j)"

fun claim_loop :: "analysis_job list \<Rightarrow> (job_store, analysis_job option) op" where
  "claim_loop [] = returnS None"
| "claim_loop (j # js) =
     tryS (doS (update_job (aj_run_id j) (no_update\<lparr>ju_status := Some ST_RUNNING\<rparr>)) (\<lambda>u. returnS (Some u)))
       (\<lambda>e. if e = JobConflictError then claim_loop js else raiseS e)"

fun cancel_loop :: "analysis_job list \<Rightarrow> (job_store, unit) op" where
  "cancel_loop [] = returnS ()"
| "cancel_loop (j # js) =
     doS (update_job (aj_run_id j) (no_update\<lparr>ju_status := Some ST_CANCELLED\<rparr>)) (\<lambda>_. cancel_loop js)"

definition claim_next :: "(job_store, analysis_job option) op" where
  "claim_next =
    doS (pureS list_jobs) (\<lambda>jobs.
    doS (claim_loop (sort_key claim_key
          (filter (\<lambda>j. aj_status j = ST_QUEUED \<and> \<not> aj_cancel_requested j) jobs))) (\<lambda>claimed.
    case claimed of
      Some j \<Rightarrow> returnS (Some j)
    | None \<Rightarrow>
        doS (pureS list_jobs) (\<lambda>jobs.
        doS (cancel_loop (filter (\<lambda>j. aj_status j = ST_QUEUED \<and> aj_cancel_requested j) jobs)) (\<lambda>_.
        returnS None))))"

definition find_duplicate :: "string \<Rightarrow> string \<Rightarrow> string option \<Rightarrow> job_store \<Rightarrow> analysis_job option result" where
  "find_duplicate capture_sha256 profile hostname s =
    bindE (list_jobs s) (\<lambda>jobs.
    let matches = sort_key claim_key (filter (\<lambda>j. aj_capture_sha256 j = Some capture_sha256
          \<and> aj_policy_profile j = profile \<and> aj_expected_hostname j = hostname
          \<and> (\<not> is_terminal j \<or> aj_status j = ST_COMPLETED)) jobs)
    in Inr (if matches = [] then None else Some (last matches)))"

section \<open>Captures and artifacts\<close>

record staged_capture =
  sg_upload_id :: string
  sg_sha256 :: string
  sg_size_bytes :: nat
  sg_header :: bytes

text \<open>A source of chunks: what it yields, and the exception it ends with, if any.\<close>

record chunk_source =
  ck_chunks :: "bytes list"
  ck_error :: "py_exn option"

definition stage_capture :: "string \<Rightarrow> chunk_source \<Rightarrow> string \<Rightarrow> (job_store, staged_capture) op" where
  "stage_capture upload_id source capture_format =
    doS (guardS (capture_format \<in> {''pcap'', ''pcapng''}) AnalysisJobError) (\<lambda>_.
    doS (getS js_quarantine) (\<lambda>q.
    doS (guardS (map_of q upload_id = None) AnalysisJobError) (\<lambda>_.
    case ck_error source of
      Some e \<Rightarrow> raiseS e
    | None \<Rightarrow>
       (let content = concat (ck_chunks source) in
        doS (guardS (content \<noteq> []) AnalysisJobError) (\<lambda>_.
        doS (modifyS (\<lambda>s. s\<lparr>js_quarantine := AList.update upload_id content (js_quarantine s)\<rparr>)) (\<lambda>_.
        returnS \<lparr>sg_upload_id = upload_id, sg_sha256 = sha256_bytes content, sg_size_bytes = length content,
          sg_header = take 4 content\<rparr>))))))"

definition abort_staged :: "string \<Rightarrow> job_store \<Rightarrow> job_store" where
  "abort_staged upload_id s =
    (if is_identifier upload_id then s\<lparr>js_quarantine := AList.delete upload_id (js_quarantine s)\<rparr> else s)"

definition commit_staged :: "string \<Rightarrow> analysis_job \<Rightarrow> (job_store, analysis_job) op" where
  "commit_staged upload_id job =
    doS (guardS (is_identifier upload_id \<and> is_identifier (aj_run_id job)) AnalysisJobError) (\<lambda>_.
    doS (getS (\<lambda>s. map_of (js_quarantine s) upload_id)) (\<lambda>staged. case staged of
      None \<Rightarrow> raiseS AnalysisJobError
    | Some content \<Rightarrow>
        doS (getS id) (\<lambda>s.
        doS (guardS (length (js_jobs s) < js_max_jobs s) StorageQuotaError) (\<lambda>_.
        doS (guardS (usage_bytes s + length content \<le> js_max_data_bytes s) StorageQuotaError) (\<lambda>_.
        doS (guardS (map_of (js_jobs s) (aj_run_id job) = None) AnalysisJobError) (\<lambda>_.
        doS (modifyS (\<lambda>s. write_dir (aj_run_id job)
              \<lparr>jd_status = Some (persisted job), jd_capture = Some (''capture.'' @ aj_capture_format job, content),
               jd_artifacts = [], jd_cancel_flag = False\<rparr>
              (s\<lparr>js_quarantine := AList.delete upload_id (js_quarantine s)\<rparr>))) (\<lambda>_.
        returnS job)))))))"

definition capture_path :: "string \<Rightarrow> job_store \<Rightarrow> bytes result" where
  \<comment> \<open>the file the returned path names, by its content\<close>
  "capture_path run_id s =
    bindE (get_job run_id s) (\<lambda>found. case found of
      None \<Rightarrow> Inl JobNotFoundError
    | Some j \<Rightarrow> (case jd_capture (the_dir run_id s) of
         Some (name, b) \<Rightarrow> if name = ''capture.'' @ aj_capture_format j then Inr b else Inl AnalysisJobError
       | None \<Rightarrow> Inl AnalysisJobError))"

definition artifact_limits :: "(string, nat) dict" where
  "artifact_limits = [(''report.json'', max_report_bytes), (''report.html'', max_html_bytes),
     (''report.pdf'', max_pdf_bytes)]"

definition write_artifact :: "string \<Rightarrow> string \<Rightarrow> bytes \<Rightarrow> (job_store, unit) op" where
  "write_artifact run_id name payload =
    (case map_of artifact_limits name of
       None \<Rightarrow> raiseS AnalysisJobError
     | Some limit \<Rightarrow>
        doS (guardS (length payload \<le> limit) AnalysisJobError) (\<lambda>_.
        doS (pureS (get_job run_id)) (\<lambda>found.
        doS (guardS (found \<noteq> None) JobNotFoundError) (\<lambda>_.
        modifyS (\<lambda>s. let d = the_dir run_id s in
          write_dir run_id (d\<lparr>jd_artifacts := AList.update name payload (jd_artifacts d)\<rparr>) s)))))"

definition read_artifact :: "string \<Rightarrow> string \<Rightarrow> job_store \<Rightarrow> bytes option result" where
  "read_artifact run_id name s =
    (case map_of artifact_limits name of
       None \<Rightarrow> Inl AnalysisJobError
     | Some limit \<Rightarrow>
        bindE (get_job run_id s) (\<lambda>found. case found of
          None \<Rightarrow> Inl JobNotFoundError
        | Some j \<Rightarrow> (case map_of (jd_artifacts (the_dir run_id s)) name of
             None \<Rightarrow> Inr None
           | Some b \<Rightarrow> if limit < length b then Inl AnalysisJobError else Inr (Some b))))"

section \<open>Sizes of status files\<close>

lemma json_char_size_le: "json_char_size c \<le> 6"
  by (simp add: json_char_size_def Let_def)

lemma json_str_size_le: "length s \<le> n \<Longrightarrow> json_str_size s \<le> 2 + 6 * n"
proof -
  have "sum_list (map json_char_size s) \<le> 6 * length s"
    by (induction s) (simp_all add: add_mono json_char_size_le)
  then show "length s \<le> n \<Longrightarrow> json_str_size s \<le> 2 + 6 * n" by (simp add: json_str_size_def)
qed

lemma json_opt_size_le: "opt_ok (\<lambda>s. length s \<le> n) x \<Longrightarrow> json_opt_size x \<le> 4 + 6 * n"
  using json_str_size_le by (fastforce simp: json_opt_size_def opt_ok_def split: option.splits)

lemma is_identifier_length: "is_identifier s \<Longrightarrow> length s \<le> 160"
  by (cases s) auto

lemma status_size_le:
  assumes "analysis_job_ok j"
  shows "status_size j \<le> 65536"
proof -
  have "length (aj_run_id j) \<le> 160" "length (aj_case_id j) \<le> 160"
    using assms by (simp_all add: analysis_job_ok_def is_identifier_length)
  moreover have "length (aj_capture_format j) \<le> 6" "length (sg_value (aj_stage j)) \<le> 22" "length (st_value (aj_status j)) \<le> 9"
    using assms by (auto simp: analysis_job_ok_def) (cases "aj_stage j"; cases "aj_status j"; simp)+
  moreover have "opt_ok (\<lambda>s. length s \<le> 64) (aj_capture_sha256 j)" "opt_ok (\<lambda>m. length m \<le> 1000) (aj_error_message j)"
    "opt_ok (\<lambda>h. length h \<le> 253) (aj_expected_hostname j)" "length (aj_original_filename j) \<le> 255"
    "length (aj_policy_profile j) \<le> 64"
    using assms by (auto simp: analysis_job_ok_def opt_ok_def is_sha256_hex_def len_in_def split: option.splits)
  ultimately have "json_str_size (aj_run_id j) \<le> 962" "json_str_size (aj_case_id j) \<le> 962"
    "json_str_size (aj_capture_format j) \<le> 38" "json_str_size (sg_value (aj_stage j)) \<le> 134"
    "json_str_size (st_value (aj_status j)) \<le> 56" "json_opt_size (aj_capture_sha256 j) \<le> 388"
    "json_opt_size (aj_error_message j) \<le> 6004" "json_opt_size (aj_expected_hostname j) \<le> 1522"
    "json_str_size (aj_original_filename j) \<le> 1532" "json_str_size (aj_policy_profile j) \<le> 386"
    by (auto dest!: json_str_size_le json_opt_size_le)
  moreover have "json_bool_size b \<le> 5" for b by (simp add: json_bool_size_def)
  then have "json_bool_size (aa_html (aj_artifacts j)) \<le> 5" "json_bool_size (aa_canonical (aj_artifacts j)) \<le> 5"
    "json_bool_size (aa_pdf (aj_artifacts j)) \<le> 5" "json_bool_size (aj_cancel_requested j) \<le> 5" by blast+
  ultimately show ?thesis by (simp add: status_size_def Let_def json_entry_size_def)
qed

lemma read_status_ok: "analysis_job_ok j \<Longrightarrow> read_status j = Inr j"
  using status_size_le [of j] by (simp add: read_status_def)

section \<open>Invariant of the store\<close>

definition dir_ok :: "string \<Rightarrow> job_dir \<Rightarrow> bool" where
  "dir_ok rid d =
    (is_identifier rid
     \<and> (\<forall>j. jd_status d = Some j \<longrightarrow> aj_run_id j = rid \<and> analysis_job_ok j \<and> persisted j = j
          \<and> (\<exists>b. jd_capture d = Some (''capture.'' @ aj_capture_format j, b) \<and> aj_capture_sha256 j = Some (sha256_bytes b)))
     \<and> (\<forall>name b. map_of (jd_artifacts d) name = Some b \<longrightarrow>
          (\<exists>limit. map_of artifact_limits name = Some limit \<and> length b \<le> limit)))"

definition store_ok :: "job_store \<Rightarrow> bool" where
  "store_ok s = (distinct (map fst (js_jobs s)) \<and> length (js_jobs s) \<le> js_max_jobs s
     \<and> (\<forall>rid d. map_of (js_jobs s) rid = Some d \<longrightarrow> dir_ok rid d))"

text \<open>The abstract view of a store: its jobs by identifier.\<close>

definition job_of :: "job_store \<Rightarrow> string \<Rightarrow> analysis_job option" where
  "job_of s rid = Option.bind (map_of (js_jobs s) rid) jd_status"

lemma to_second_idem [simp]: "to_second (to_second t) = to_second t"
  by (simp add: to_second_def dt_instant_def)

lemma persisted_idem [simp]: "persisted (persisted j) = persisted j"
  by (simp add: persisted_def)

lemma persisted_fields [simp]:
  "aj_run_id (persisted j) = aj_run_id j" "aj_status (persisted j) = aj_status j" "aj_stage (persisted j) = aj_stage j"
  "aj_capture_sha256 (persisted j) = aj_capture_sha256 j" "aj_policy_profile (persisted j) = aj_policy_profile j"
  "aj_expected_hostname (persisted j) = aj_expected_hostname j" "aj_cancel_requested (persisted j) = aj_cancel_requested j"
  "aj_capture_format (persisted j) = aj_capture_format j" "aj_artifacts (persisted j) = aj_artifacts j"
  "aj_case_id (persisted j) = aj_case_id j" "aj_error_message (persisted j) = aj_error_message j"
  "aj_original_filename (persisted j) = aj_original_filename j"
  "is_terminal (persisted j) = is_terminal j" "analysis_job_ok (persisted j) = analysis_job_ok j"
  by (simp_all add: persisted_def is_terminal_def analysis_job_ok_def)

lemma store_ok_dir: "store_ok s \<Longrightarrow> map_of (js_jobs s) rid = Some d \<Longrightarrow> dir_ok rid d"
  by (simp add: store_ok_def)

lemma job_of_ok:
  assumes "store_ok s" and "job_of s rid = Some j"
  shows "analysis_job_ok j" and "aj_run_id j = rid" and "is_identifier rid" and "persisted j = j"
proof -
  obtain d where d: "map_of (js_jobs s) rid = Some d" "jd_status d = Some j"
    using assms(2) by (auto simp: job_of_def bind_eq_Some_conv)
  have "dir_ok rid d" by (rule store_ok_dir [OF assms(1) d(1)])
  then show "analysis_job_ok j" "aj_run_id j = rid" "is_identifier rid" "persisted j = j" using d(2) by (auto simp: dir_ok_def)
qed

lemma get_job_eq: "store_ok s \<Longrightarrow> get_job rid s = Inr (job_of s rid)"
proof (cases "job_of s rid")
  case None
  then show "store_ok s \<Longrightarrow> ?thesis" by (auto simp: get_job_def job_of_def bind_eq_None_conv split: option.splits)
next
  case (Some j)
  assume s: "store_ok s"
  note ok = job_of_ok [OF s Some]
  show ?thesis using Some ok read_status_ok [OF ok(1)]
    by (auto simp: get_job_def job_of_def bind_eq_Some_conv)
qed

definition all_jobs :: "job_store \<Rightarrow> analysis_job list" where
  "all_jobs s = List.map_filter (\<lambda>(rid, d). jd_status d) (sort_key fst (js_jobs s))"

lemma all_jobs_set: "store_ok s \<Longrightarrow> j \<in> set (all_jobs s) \<longleftrightarrow> job_of s (aj_run_id j) = Some j"
proof -
  assume s: "store_ok s"
  then have d: "distinct (map fst (js_jobs s))" by (simp add: store_ok_def)
  have "j \<in> set (all_jobs s) \<longleftrightarrow> (\<exists>rid d. (rid, d) \<in> set (js_jobs s) \<and> jd_status d = Some j)"
    by (force simp: all_jobs_def map_filter_mem)
  also have "\<dots> \<longleftrightarrow> (\<exists>rid. job_of s rid = Some j)"
    using map_of_eq_Some_iff [OF d] by (auto simp: job_of_def bind_eq_Some_conv)
  also have "\<dots> \<longleftrightarrow> job_of s (aj_run_id j) = Some j" using job_of_ok(2) [OF s] by blast
  finally show ?thesis .
qed

lemma list_jobs_eq: "store_ok s \<Longrightarrow> list_jobs s = Inr (all_jobs s)"
proof -
  assume s: "store_ok s"
  have "read_status j = Inr j" if "j \<in> set (all_jobs s)" for j
    using that job_of_ok(1) [OF s] read_status_ok all_jobs_set [OF s] by blast
  then have "mapE read_status (all_jobs s) = Inr (map (\<lambda>j. j) (all_jobs s))" by (rule mapE_total)
  then show ?thesis by (simp add: list_jobs_def all_jobs_def)
qed

section \<open>Updating a job\<close>

definition tick :: "job_store \<Rightarrow> job_store" where
  "tick s = s\<lparr>js_ticks := Suc (js_ticks s)\<rparr>"

definition updated_job :: "job_update \<Rightarrow> job_store \<Rightarrow> analysis_job \<Rightarrow> analysis_job" where
  "updated_job u s j = apply_update u (js_clock s (js_ticks s)) j"

definition update_store :: "string \<Rightarrow> job_update \<Rightarrow> analysis_job \<Rightarrow> job_store \<Rightarrow> job_store" where
  "update_store rid u j s = (let d = the_dir rid s in
     write_dir rid (d\<lparr>jd_status := Some (persisted (updated_job u s j)),
       jd_cancel_flag := set_opt (ju_cancel_requested u) (jd_cancel_flag d)\<rparr>) (tick s))"

lemma tick_simps [simp]:
  "js_jobs (tick s) = js_jobs s" "job_of (tick s) = job_of s" "store_ok (tick s) = store_ok s"
  "js_quarantine (tick s) = js_quarantine s" "js_max_jobs (tick s) = js_max_jobs s" "js_clock (tick s) = js_clock s"
  by (auto simp: tick_def job_of_def fun_eq_iff store_ok_def)

lemma the_dir_tick [simp]: "the_dir rid (tick s) = the_dir rid s"
  by (simp add: the_dir_def)

lemma write_update_eq:
  "write_update rid u j s = (if ju_status u \<noteq> None \<and> is_terminal j then (Inl JobConflictError, tick s)
     else (Inr (updated_job u s j), update_store rid u j s))"
  by (auto simp: write_update_def op_defs now_utc_def updated_job_def update_store_def Let_def tick_def the_dir_def)

lemma update_job_eq:
  assumes "store_ok s"
  shows "update_job rid u s = (case job_of s rid of
      None \<Rightarrow> (Inl JobNotFoundError, s)
    | Some j \<Rightarrow> if ju_status u \<noteq> None \<and> is_terminal j then (Inl JobConflictError, tick s)
        else (Inr (updated_job u s j), update_store rid u j s))"
  by (auto simp: update_job_def get_job_eq [OF assms] doS_def pureS_def raiseS_def write_update_eq split: option.splits)

lemma update_fields [simp]:
  "aj_run_id (updated_job u s j) = aj_run_id j" "aj_status (updated_job u s j) = set_opt (ju_status u) (aj_status j)"
  "aj_capture_sha256 (updated_job u s j) = aj_capture_sha256 j" "aj_created_at (updated_job u s j) = aj_created_at j"
  "aj_capture_format (updated_job u s j) = aj_capture_format j" "aj_case_id (updated_job u s j) = aj_case_id j"
  "aj_cancel_requested (updated_job u s j) = set_opt (ju_cancel_requested u) (aj_cancel_requested j)"
  "aj_artifacts (updated_job u s j) = set_opt (ju_artifacts u) (aj_artifacts j)"
  "aj_policy_profile (updated_job u s j) = aj_policy_profile j" "aj_expected_hostname (updated_job u s j) = aj_expected_hostname j"
  by (simp_all add: updated_job_def apply_update_def)

lemma set_opt_simps [simp]: "set_opt None x = x" "set_opt (Some v) x = v"
  by (simp_all add: set_opt_def)

lemma no_update_simps [simp]:
  "ju_status no_update = None" "ju_stage no_update = None" "ju_error_message no_update = None"
  "ju_artifacts no_update = None" "ju_cancel_requested no_update = None"
  by (simp_all add: no_update_def)

definition update_ok :: "job_update \<Rightarrow> bool" where
  "update_ok u = opt_ok (\<lambda>m. length m \<le> 1000) (ju_error_message u)"

lemma updated_job_ok: "analysis_job_ok j \<Longrightarrow> update_ok u \<Longrightarrow> analysis_job_ok (updated_job u s j)"
  by (auto simp: analysis_job_ok_def updated_job_def apply_update_def update_ok_def opt_ok_def split: option.splits)

lemma write_dir_get: "map_of (js_jobs (write_dir rid d s)) r = (if r = rid then Some d else map_of (js_jobs s) r)"
  by (simp add: write_dir_def update_conv')

lemma write_dir_existing_length:
  "map_of (js_jobs s) rid \<noteq> None \<Longrightarrow> length (js_jobs (write_dir rid d s)) = length (js_jobs s)"
proof -
  have "length (AList.update k v xs) = length xs" if "map_of xs k \<noteq> None" for k and v :: job_dir and xs
    using that by (induction xs) (auto split: if_splits)
  then show "map_of (js_jobs s) rid \<noteq> None \<Longrightarrow> ?thesis" by (simp add: write_dir_def)
qed

lemma write_dir_ok:
  assumes "store_ok s" and "map_of (js_jobs s) rid \<noteq> None" and "dir_ok rid d"
  shows "store_ok (write_dir rid d s)"
proof -
  have "distinct (map fst (js_jobs (write_dir rid d s)))"
    using assms(1) by (simp add: write_dir_def store_ok_def distinct_update)
  moreover have "js_max_jobs (write_dir rid d s) = js_max_jobs s" by (simp add: write_dir_def)
  ultimately show ?thesis
    using assms write_dir_existing_length [OF assms(2)] by (auto simp: store_ok_def write_dir_get)
qed

lemma job_of_SomeE:
  assumes "job_of s rid = Some j"
  obtains d where "map_of (js_jobs s) rid = Some d" and "jd_status d = Some j" and "the_dir rid s = d"
  using assms by (auto simp: job_of_def bind_eq_Some_conv the_dir_def)

lemma update_store_ok:
  assumes "store_ok s" and "job_of s rid = Some j" and "update_ok u"
  shows "store_ok (update_store rid u j s)"
proof (rule job_of_SomeE [OF assms(2)])
  fix d assume d: "map_of (js_jobs s) rid = Some d" "jd_status d = Some j" "the_dir rid s = d"
  have ok: "dir_ok rid d" by (rule store_ok_dir [OF assms(1) d(1)])
  have "analysis_job_ok (updated_job u s j)"
    by (rule updated_job_ok [OF job_of_ok(1) [OF assms(1,2)] assms(3)])
  with ok d(2) have "dir_ok rid (d\<lparr>jd_status := Some (persisted (updated_job u s j)),
      jd_cancel_flag := set_opt (ju_cancel_requested u) (jd_cancel_flag d)\<rparr>)"
    by (simp add: dir_ok_def)
  then show ?thesis using assms(1) d by (auto simp: update_store_def Let_def intro!: write_dir_ok)
qed

lemma update_store_job:
  "job_of (update_store rid u j s) r = (if r = rid then Some (persisted (updated_job u s j)) else job_of s r)"
  by (simp add: job_of_def update_store_def Let_def write_dir_get)

lemma update_job_keeps: "update_ok u \<Longrightarrow> keeps store_ok (update_job rid u)"
  by (rule keepsI) (auto simp: update_job_eq update_store_ok split: option.splits)

lemma no_update_ok [simp]:
  "update_ok (no_update\<lparr>ju_status := x\<rparr>)" "update_ok (no_update\<lparr>ju_cancel_requested := y\<rparr>)"
  "update_ok (no_update\<lparr>ju_status := x, ju_cancel_requested := y\<rparr>)" "update_ok (no_update\<lparr>ju_stage := z\<rparr>)"
  by (simp_all add: update_ok_def opt_ok_def no_update_def)

section \<open>Claiming and cancelling\<close>

lemma request_cancel_eq:
  assumes "store_ok s"
  shows "request_cancel rid s = (case job_of s rid of
      None \<Rightarrow> (Inl JobNotFoundError, s)
    | Some j \<Rightarrow> if is_terminal j then (Inl JobConflictError, s)
        else let u = (if aj_status j = ST_QUEUED then no_update\<lparr>ju_status := Some ST_CANCELLED, ju_cancel_requested := Some True\<rparr>
                      else no_update\<lparr>ju_cancel_requested := Some True\<rparr>)
             in (Inr (updated_job u s j), update_store rid u j s))"
  by (auto simp: request_cancel_def get_job_eq [OF assms] update_job_eq [OF assms] op_defs Let_def split: option.splits)

lemma request_cancel_keeps: "keeps store_ok (request_cancel rid)"
  by (rule keepsI) (auto simp: request_cancel_eq Let_def intro!: update_store_ok split: option.splits)

definition claimable :: "job_store \<Rightarrow> analysis_job list" where
  "claimable s = filter (\<lambda>j. aj_status j = ST_QUEUED \<and> \<not> aj_cancel_requested j) (all_jobs s)"

definition stale :: "job_store \<Rightarrow> analysis_job list" where
  "stale s = filter (\<lambda>j. aj_status j = ST_QUEUED \<and> aj_cancel_requested j) (all_jobs s)"

lemma queued_not_terminal: "aj_status j = ST_QUEUED \<Longrightarrow> \<not> is_terminal j"
  by (simp add: is_terminal_def)

lemma claim_next_some:
  assumes "store_ok s" and "sort_key claim_key (claimable s) = j # js"
  shows "claim_next s = (let u = no_update\<lparr>ju_status := Some ST_RUNNING\<rparr> in
    (Inr (Some (updated_job u s j)), update_store (aj_run_id j) u j s))"
proof -
  have "j \<in> set (claimable s)" using assms(2) by (metis list.set_intros(1) set_sort)
  then have j: "job_of s (aj_run_id j) = Some j" "aj_status j = ST_QUEUED"
    using all_jobs_set [OF assms(1)] by (auto simp: claimable_def)
  then show ?thesis
    using assms queued_not_terminal [OF j(2)]
    by (simp add: claim_next_def claimable_def list_jobs_eq op_defs update_job_eq Let_def)
qed

lemma cancel_loop_frame:
  assumes "store_ok s" and "\<forall>j \<in> set js. job_of s (aj_run_id j) = Some j \<and> aj_status j = ST_QUEUED"
    and "distinct (map aj_run_id js)"
  shows "\<exists>t. cancel_loop js s = (Inr (), t) \<and> store_ok t
    \<and> (\<forall>r. if r \<in> aj_run_id ` set js then \<exists>k. job_of t r = Some k \<and> aj_status k = ST_CANCELLED else job_of t r = job_of s r)"
  using assms
proof (induction js arbitrary: s)
  case (Cons j js)
  let ?u = "no_update\<lparr>ju_status := Some ST_CANCELLED\<rparr>"
  have j: "job_of s (aj_run_id j) = Some j" "\<not> is_terminal j"
    using Cons.prems(2) queued_not_terminal by auto
  let ?t = "update_store (aj_run_id j) ?u j s"
  have up: "update_job (aj_run_id j) ?u s = (Inr (updated_job ?u s j), ?t)"
    using j by (simp add: update_job_eq [OF Cons.prems(1)])
  have t: "store_ok ?t" using update_store_ok [OF Cons.prems(1) j(1)] by simp
  have q: "\<forall>k \<in> set js. job_of ?t (aj_run_id k) = Some k \<and> aj_status k = ST_QUEUED"
  proof
    fix k assume k: "k \<in> set js"
    then have "aj_run_id k \<noteq> aj_run_id j" using Cons.prems(3) by (metis distinct.simps(2) image_eqI list.simps(9) set_map)
    then show "job_of ?t (aj_run_id k) = Some k \<and> aj_status k = ST_QUEUED"
      using Cons.prems(2) k by (simp add: update_store_job)
  qed
  have dist: "distinct (map aj_run_id js)" using Cons.prems(3) by simp
  obtain v where v: "cancel_loop js ?t = (Inr (), v)" "store_ok v"
    "\<forall>r. if r \<in> aj_run_id ` set js then \<exists>k. job_of v r = Some k \<and> aj_status k = ST_CANCELLED else job_of v r = job_of ?t r"
    using Cons.IH [OF t q dist] by blast
  have "\<exists>k. job_of v (aj_run_id j) = Some k \<and> aj_status k = ST_CANCELLED"
    using v(3) [rule_format, of "aj_run_id j"] Cons.prems(3) by (auto simp: update_store_job)
  moreover have "cancel_loop (j # js) s = (Inr (), v)" using up v(1) by (simp add: doS_def)
  moreover have "job_of v r = job_of s r" if "r \<notin> aj_run_id ` set (j # js)" for r
    using v(3) [rule_format, of r] that by (simp add: update_store_job)
  moreover have "\<exists>k. job_of v r = Some k \<and> aj_status k = ST_CANCELLED" if "r \<in> aj_run_id ` set js" for r
    using v(3) [rule_format, of r] that by simp
  ultimately show ?case using v(2) by (intro exI [of _ v]) simp
qed (simp add: op_defs)

lemma all_jobs_distinct:
  assumes "store_ok s"
  shows "distinct (map aj_run_id (all_jobs s))"
proof -
  have key: "aj_run_id j = rid" if "(rid, d) \<in> set (js_jobs s)" "jd_status d = Some j" for rid d j
    using that assms map_of_eq_Some_iff [of "js_jobs s"] store_ok_dir [OF assms] by (auto simp: store_ok_def dir_ok_def)
  have "map aj_run_id (List.map_filter (\<lambda>(rid, d). jd_status d) ds) = map fst (filter (\<lambda>(rid, d). jd_status d \<noteq> None) ds)"
    if "set ds \<subseteq> set (js_jobs s)" for ds
    using that
  proof (induction ds)
    case (Cons x ds)
    then show ?case using key by (cases x) (auto simp: List.map_filter_def)
  qed (simp add: List.map_filter_def)
  moreover have "distinct (map fst (filter P (sort_key fst (js_jobs s))))" for P
    using assms by (intro distinct_map_filter) (simp add: store_ok_def distinct_map)
  ultimately show ?thesis by (simp add: all_jobs_def)
qed

lemma claim_next_none:
  assumes "store_ok s" and "claimable s = []"
  shows "\<exists>t. claim_next s = (Inr None, t) \<and> store_ok t
    \<and> (\<forall>r. if r \<in> aj_run_id ` set (stale s) then \<exists>k. job_of t r = Some k \<and> aj_status k = ST_CANCELLED
           else job_of t r = job_of s r)"
proof -
  have "\<forall>j \<in> set (stale s). job_of s (aj_run_id j) = Some j \<and> aj_status j = ST_QUEUED"
    using all_jobs_set [OF assms(1)] by (auto simp: stale_def)
  moreover have "distinct (map aj_run_id (stale s))"
    unfolding stale_def by (intro distinct_map_filter all_jobs_distinct [OF assms(1)])
  ultimately obtain t where t: "cancel_loop (stale s) s = (Inr (), t)" "store_ok t"
      "\<forall>r. if r \<in> aj_run_id ` set (stale s) then \<exists>k. job_of t r = Some k \<and> aj_status k = ST_CANCELLED
           else job_of t r = job_of s r"
    using cancel_loop_frame [OF assms(1)] by blast
  have "claim_next s = (Inr None, t)"
    using t(1) assms by (simp add: claim_next_def list_jobs_eq [OF assms(1)] op_defs claimable_def stale_def)
  with t show ?thesis by blast
qed

lemma claim_next_keeps: "keeps store_ok claim_next"
proof (rule keepsI)
  fix s assume s: "store_ok s"
  show "store_ok (snd (claim_next s))"
  proof (cases "sort_key claim_key (claimable s)")
    case Nil
    then have "claimable s = []" by (metis set_empty set_sort)
    then show ?thesis using claim_next_none [OF s] by force
  next
    case (Cons j js)
    then have "j \<in> set (claimable s)" by (metis list.set_intros(1) set_sort)
    then have "job_of s (aj_run_id j) = Some j" using all_jobs_set [OF s] by (auto simp: claimable_def)
    then show ?thesis using claim_next_some [OF s Cons] update_store_ok [OF s] by (simp add: Let_def)
  qed
qed

section \<open>Captures and artifacts\<close>

lemma write_artifact_eq:
  assumes "store_ok s"
  shows "write_artifact rid name payload s =
    (case map_of artifact_limits name of
       None \<Rightarrow> (Inl AnalysisJobError, s)
     | Some limit \<Rightarrow> if limit < length payload then (Inl AnalysisJobError, s)
        else if job_of s rid = None then (Inl JobNotFoundError, s)
        else (Inr (), let d = the_dir rid s in write_dir rid (d\<lparr>jd_artifacts := AList.update name payload (jd_artifacts d)\<rparr>) s))"
  by (auto simp: write_artifact_def get_job_eq [OF assms] op_defs Let_def split: option.splits)

lemma artifact_dir_ok:
  assumes "dir_ok rid d" and "map_of artifact_limits name = Some limit" and "length payload \<le> limit"
  shows "dir_ok rid (d\<lparr>jd_artifacts := AList.update name payload (jd_artifacts d)\<rparr>)"
  using assms by (auto simp: dir_ok_def update_conv')

lemma write_artifact_keeps: "keeps store_ok (write_artifact rid name payload)"
proof (rule keepsI)
  fix s assume s: "store_ok s"
  show "store_ok (snd (write_artifact rid name payload s))"
  proof (cases "job_of s rid")
    case None
    then show ?thesis using s by (simp add: write_artifact_eq split: option.splits)
  next
    case (Some j)
    then obtain d where d: "map_of (js_jobs s) rid = Some d" "the_dir rid s = d" by (rule job_of_SomeE)
    show ?thesis
      using s Some d store_ok_dir [OF s d(1)]
      by (auto simp: write_artifact_eq Let_def intro!: write_dir_ok artifact_dir_ok split: option.splits)
  qed
qed

lemma stage_capture_keeps: "keeps store_ok (stage_capture uid source fmt)"
  by (rule keepsI) (auto simp: stage_capture_def op_defs store_ok_def Let_def split: option.splits)

lemma abort_staged_ok: "store_ok s \<Longrightarrow> store_ok (abort_staged uid s)"
  by (simp add: abort_staged_def store_ok_def)

text \<open>A committed job has to describe the staged bytes.\<close>

definition job_matches :: "analysis_job \<Rightarrow> bytes \<Rightarrow> bool" where
  "job_matches j b = (analysis_job_ok j \<and> aj_capture_sha256 j = Some (sha256_bytes b))"

lemma commit_staged_eq:
  "commit_staged uid j s =
    (if \<not> (is_identifier uid \<and> is_identifier (aj_run_id j)) then (Inl AnalysisJobError, s)
     else case map_of (js_quarantine s) uid of
       None \<Rightarrow> (Inl AnalysisJobError, s)
     | Some content \<Rightarrow>
        if js_max_jobs s \<le> length (js_jobs s) \<or> js_max_data_bytes s < usage_bytes s + length content
        then (Inl StorageQuotaError, s)
        else if map_of (js_jobs s) (aj_run_id j) \<noteq> None then (Inl AnalysisJobError, s)
        else (Inr j, write_dir (aj_run_id j)
              \<lparr>jd_status = Some (persisted j), jd_capture = Some (''capture.'' @ aj_capture_format j, content),
               jd_artifacts = [], jd_cancel_flag = False\<rparr>
              (s\<lparr>js_quarantine := AList.delete uid (js_quarantine s)\<rparr>)))"
  by (auto simp: commit_staged_def op_defs split: option.splits)

lemma update_new_length: "map_of xs k = None \<Longrightarrow> length (AList.update k v xs) = Suc (length xs)"
  by (induction xs) (auto split: if_splits)

lemma commit_staged_ok:
  assumes "store_ok s" and "commit_staged uid j s = (r, t)"
    and "\<And>b. map_of (js_quarantine s) uid = Some b \<Longrightarrow> job_matches j b"
  shows "store_ok t"
proof (cases "t = s")
  case False
  then obtain b where b: "map_of (js_quarantine s) uid = Some b" "length (js_jobs s) < js_max_jobs s"
    "map_of (js_jobs s) (aj_run_id j) = None" "is_identifier (aj_run_id j)"
    "t = write_dir (aj_run_id j)
              \<lparr>jd_status = Some (persisted j), jd_capture = Some (''capture.'' @ aj_capture_format j, b),
               jd_artifacts = [], jd_cancel_flag = False\<rparr>
              (s\<lparr>js_quarantine := AList.delete uid (js_quarantine s)\<rparr>)"
    using assms(2) by (auto simp: commit_staged_eq split: if_splits option.splits)
  have "dir_ok (aj_run_id j) \<lparr>jd_status = Some (persisted j), jd_capture = Some (''capture.'' @ aj_capture_format j, b),
      jd_artifacts = [], jd_cancel_flag = False\<rparr>"
    using assms(3) [OF b(1)] b(4) by (auto simp: dir_ok_def job_matches_def)
  then show ?thesis
    using assms(1) b(2,3) unfolding b(5)
    by (auto simp: store_ok_def write_dir_def update_conv' distinct_update update_new_length)
qed (use assms(1) in simp)

end
