(* ===== verification/Intake.thy ===== *)
theory Intake
  imports Jobs
begin

text \<open>
  Capture intake (\<open>application/capture_intake.py\<close>): file names, formats and magic numbers, case
  identifiers, the bounded upload, and \<open>ingest_capture\<close>, which stages an upload, looks for a duplicate
  and enqueues a job. The random identifiers and the clock reading are arguments.

  Shown here: a name derived for a case is always an identifier; an upload never leaves a quarantined
  file behind; and an intake either answers with an existing job of the same identity, or enqueues
  exactly one new job that holds the uploaded bytes, or fails and leaves the jobs as they were.
\<close>

section \<open>Requests\<close>

record capture_intake_request =
  ci_original_filename :: string
  ci_policy_profile :: policy_profile
  ci_expected_hostname :: "string option"
  ci_case_id :: "string option"
  ci_max_capture_bytes :: nat

definition intake_request_ok :: "capture_intake_request \<Rightarrow> bool" where
  "intake_request_ok r = (len_in 1 255 (ci_original_filename r)
     \<and> opt_ok (\<lambda>h. length h \<le> 253) (ci_expected_hostname r) \<and> opt_ok (\<lambda>c. length c \<le> 160) (ci_case_id r)
     \<and> 1 \<le> ci_max_capture_bytes r)"

fun bounded_loop :: "nat \<Rightarrow> nat \<Rightarrow> bytes list \<Rightarrow> bytes list \<times> bool" where
  "bounded_loop max_bytes seen [] = ([], False)"
| "bounded_loop max_bytes seen (c # cs) =
     (if c = [] then bounded_loop max_bytes seen cs
      else if max_bytes < seen + length c then ([], True)
      else (case bounded_loop max_bytes (seen + length c) cs of (ys, e) \<Rightarrow> (c # ys, e)))"

definition bounded_chunks :: "nat \<Rightarrow> bytes list \<Rightarrow> chunk_source" where
  "bounded_chunks max_bytes chunks =
    (case bounded_loop max_bytes 0 chunks of (ys, e) \<Rightarrow>
       \<lparr>ck_chunks = ys, ck_error = (if e then Some CaptureTooLargeError else None)\<rparr>)"

text \<open>\<open>PurePosixPath(s).name\<close>: the last component that is neither empty nor a dot.\<close>

definition posix_name :: "string \<Rightarrow> string" where
  "posix_name s = (case filter (\<lambda>p. p \<noteq> [] \<and> p \<noteq> ''.'') (py_split (CHR ''/'') s) of [] \<Rightarrow> [] | ps \<Rightarrow> last ps)"

definition basename :: "string \<Rightarrow> string result" where
  "basename filename =
    (let name = posix_name (py_replace_char (CHR 0x5C) (CHR ''/'') filename) in
     if name = [] \<or> name = ''.'' \<or> name = ''..'' then Inl CaptureIntakeError
     else if 255 < length name then Inl CaptureIntakeError
     else Inr name)"

definition capture_format_for_filename :: "string \<Rightarrow> string result" where
  "capture_format_for_filename filename =
    (let lower = py_lower filename in
     if py_endswith lower ''.pcapng'' then Inr ''pcapng''
     else if py_endswith lower ''.pcap'' then Inr ''pcap''
     else Inl InvalidCaptureError)"

definition pcapng_magic :: bytes where
  "pcapng_magic = [10, 13, 13, 10]"

definition pcap_magics :: "bytes list" where
  "pcap_magics = [[212, 195, 178, 161], [161, 178, 195, 212], [77, 60, 178, 161], [161, 178, 60, 77]]"

definition validate_magic :: "bytes \<Rightarrow> string \<Rightarrow> unit result" where
  "validate_magic header capture_format =
    (if length header < 4 then Inl InvalidCaptureError
     else if capture_format = ''pcapng''
     then (if take 4 header \<noteq> pcapng_magic then Inl InvalidCaptureError else Inr ())
     else if take 4 header \<notin> set pcap_magics then Inl InvalidCaptureError
     else Inr ())"

section \<open>Case identifiers\<close>

text \<open>\<open>re.sub("[^A-Za-z0-9._-]+", "-", s)\<close>: each maximal run of unsafe characters becomes one dash. The flag
  says that the previous character was unsafe.\<close>

fun sub_unsafe :: "bool \<Rightarrow> string \<Rightarrow> string" where
  "sub_unsafe prev [] = []"
| "sub_unsafe prev (c # cs) =
     (if is_id_char c then c # sub_unsafe False cs
      else if prev then sub_unsafe True cs
      else CHR ''-'' # sub_unsafe True cs)"

definition is_edge :: "char \<Rightarrow> bool" where
  "is_edge c = (c \<in> {CHR ''-'', CHR ''.'', CHR ''_''})"

definition strip_edges :: "string \<Rightarrow> string" where
  \<comment> \<open>\<open>s.strip("-._")\<close>\<close>
  "strip_edges s = rev (dropWhile is_edge (rev (dropWhile is_edge s)))"

definition case_id_for :: "string option \<Rightarrow> string \<Rightarrow> string \<Rightarrow> string result" where
  "case_id_for requested filename digest =
    (case requested of
       Some r \<Rightarrow> (let text = py_strip r in if is_identifier text then Inr text else Inl CaptureIntakeError)
     | None \<Rightarrow>
        (let stem = before_last (CHR ''.'') filename;
             cleaned = strip_edges (sub_unsafe False stem);
             cleaned = (case cleaned of [] \<Rightarrow> ''cap''
                | c # cs \<Rightarrow> if is_alpha c \<or> is_digit c then cleaned else ''cap'')
         in Inr (take 140 cleaned @ ''-'' @ take 8 digest)))"

section \<open>Intake\<close>

definition is_job_error :: "py_exn \<Rightarrow> bool" where
  \<comment> \<open>\<open>isinstance(exc, AnalysisJobError)\<close>\<close>
  "is_job_error e = (e \<in> {AnalysisJobError, JobNotFoundError, JobConflictError, StorageQuotaError})"

definition new_job :: "capture_intake_request \<Rightarrow> string \<Rightarrow> string \<Rightarrow> staged_capture \<Rightarrow> string \<Rightarrow> py_datetime
    \<Rightarrow> analysis_job result" where
  "new_job request filename capture_format staged run_id created =
    bindE (case_id_for (ci_case_id request) filename (sg_sha256 staged)) (\<lambda>case_id.
    let job = \<lparr>aj_run_id = run_id, aj_case_id = case_id, aj_status = ST_QUEUED, aj_stage = SG_INTAKE,
        aj_capture_sha256 = Some (sg_sha256 staged), aj_original_filename = filename,
        aj_capture_format = capture_format, aj_policy_profile = pp_value (ci_policy_profile request),
        aj_expected_hostname = ci_expected_hostname request, aj_created_at = created, aj_updated_at = created,
        aj_error_message = None, aj_artifacts = no_artifacts, aj_cancel_requested = False\<rparr>
    in check_model (analysis_job_ok job) job)"

text \<open>The body of the \<open>try\<close> after staging. The \<open>finally\<close> clause of the caller removes the staged file; once
  it has been committed or aborted there is nothing left to remove.\<close>

definition ingest_staged :: "capture_intake_request \<Rightarrow> string \<Rightarrow> string \<Rightarrow> string \<Rightarrow> py_datetime \<Rightarrow> staged_capture
    \<Rightarrow> (job_store, analysis_job) op" where
  "ingest_staged request filename capture_format run_id created staged =
    doS (pureS (\<lambda>_. validate_magic (sg_header staged) capture_format)) (\<lambda>_.
    doS (pureS (find_duplicate (sg_sha256 staged) (pp_value (ci_policy_profile request))
        (ci_expected_hostname request))) (\<lambda>duplicate. case duplicate of
      Some d \<Rightarrow>
        if \<not> is_terminal d \<or> aj_status d = ST_COMPLETED
        then doS (modifyS (abort_staged (sg_upload_id staged))) (\<lambda>_. returnS d)
        else doS (pureS (\<lambda>_. new_job request filename capture_format staged run_id created))
               (\<lambda>job. commit_staged (sg_upload_id staged) job)
    | None \<Rightarrow> doS (pureS (\<lambda>_. new_job request filename capture_format staged run_id created))
               (\<lambda>job. commit_staged (sg_upload_id staged) job)))"

definition wrap_job_errors :: "('s, 'a) op \<Rightarrow> ('s, 'a) op" where
  "wrap_job_errors m = tryS m (\<lambda>e. if e = StorageQuotaError then raiseS e
     else if is_job_error e then raiseS CaptureIntakeError else raiseS e)"

definition aware :: "py_datetime \<Rightarrow> py_datetime" where
  "aware t = (if dt_offset t = None then t\<lparr>dt_offset := Some 0\<rparr> else t)"

definition ingest_capture :: "capture_intake_request \<Rightarrow> bytes list \<Rightarrow> string \<Rightarrow> string \<Rightarrow> py_datetime
    \<Rightarrow> (job_store, analysis_job) op" where
  "ingest_capture request chunks run_id upload_id created =
    doS (pureS (\<lambda>_. basename (ci_original_filename request))) (\<lambda>filename.
    doS (pureS (\<lambda>_. capture_format_for_filename filename)) (\<lambda>capture_format.
    wrap_job_errors (
      doS (stage_capture upload_id (bounded_chunks (ci_max_capture_bytes request) chunks) capture_format) (\<lambda>staged.
      finallyS (ingest_staged request filename capture_format run_id (aware created) staged)
        (abort_staged (sg_upload_id staged))))))"

section \<open>Case identifiers\<close>

lemma sub_unsafe_safe: "list_all is_id_char (sub_unsafe prev s)"
  by (induction prev s rule: sub_unsafe.induct) (auto simp: is_id_char_def)

lemma strip_edges_subset: "set (strip_edges s) \<subseteq> set s"
  unfolding strip_edges_def by (auto dest!: set_dropWhileD)

lemma hex_is_id_char: "is_lower_hex c \<Longrightarrow> is_id_char c"
  by (auto simp: is_lower_hex_def is_id_char_def is_digit_def is_alpha_def Let_def)

lemma identifier_intro:
  "is_alpha c \<or> is_digit c \<Longrightarrow> list_all is_id_char cs \<Longrightarrow> length cs \<le> 159 \<Longrightarrow> is_identifier (c # cs)"
  by simp

lemma case_id_for_ok:
  assumes "is_sha256_hex digest" and "case_id_for requested filename digest = Inr c"
  shows "is_identifier c"
proof (cases requested)
  case None
  define cleaned where "cleaned = (case strip_edges (sub_unsafe False (before_last (CHR ''.'') filename)) of
      [] \<Rightarrow> ''cap''
    | c # cs \<Rightarrow> if is_alpha c \<or> is_digit c then c # cs else ''cap'')"
  have cap: "list_all is_id_char ''cap''" by (simp add: is_id_char_def is_alpha_def)
  have "list_all is_id_char (strip_edges (sub_unsafe False (before_last (CHR ''.'') filename)))"
    using sub_unsafe_safe strip_edges_subset by (fastforce simp: list_all_iff)
  then have safe: "list_all is_id_char cleaned" using cap by (auto simp: cleaned_def split: list.splits if_splits)
  have "is_alpha (CHR ''c'')" by (simp add: is_alpha_def)
  then have "\<exists>d ds. cleaned = d # ds \<and> (is_alpha d \<or> is_digit d)"
    by (cases "strip_edges (sub_unsafe False (before_last (CHR ''.'') filename))") (simp_all add: cleaned_def)
  then obtain d ds where d: "cleaned = d # ds" "is_alpha d \<or> is_digit d" by blast
  have c: "c = take 140 cleaned @ ''-'' @ take 8 digest"
    using assms(2) None by (auto simp: case_id_for_def cleaned_def Let_def split: list.splits if_splits)
  have "list_all is_id_char (take 8 digest)"
    using assms(1) hex_is_id_char in_set_takeD [of _ 8 digest] by (auto simp: is_sha256_hex_def list_all_iff)
  then have "list_all is_id_char (take 139 ds @ ''-'' @ take 8 digest)"
    using safe d(1) by (auto simp: list_all_iff is_id_char_def dest: in_set_takeD)
  then show ?thesis unfolding c d(1) using d(2) by (simp add: take_Cons' numeral_eq_Suc list_all_iff)
next
  case (Some r)
  then show ?thesis using assms(2) by (auto simp: case_id_for_def Let_def split: if_splits)
qed

section \<open>Bounded uploads\<close>

lemma bounded_loop_spec:
  "bounded_loop m n cs = (ys, e) \<Longrightarrow> n \<le> m \<Longrightarrow>
    (e \<longleftrightarrow> m < n + length (concat cs)) \<and> (if e then True else concat ys = concat cs)"
proof (induction m n cs arbitrary: ys e rule: bounded_loop.induct)
  case (2 m n c cs)
  show ?case
  proof (cases "c = [] \<or> m < n + length c")
    case True
    then show ?thesis using 2 by (auto split: if_splits)
  next
    case False
    obtain zs f where z: "bounded_loop m (n + length c) cs = (zs, f)" by (cases "bounded_loop m (n + length c) cs") auto
    have "ys = c # zs" "e = f" using 2(3) False z by auto
    moreover have "(f \<longleftrightarrow> m < n + length c + length (concat cs)) \<and> (if f then True else concat zs = concat cs)"
      using 2(2) [OF _ _ z] False by auto
    ultimately show ?thesis by auto
  qed
qed auto

lemma bounded_chunks_spec:
  "ck_error (bounded_chunks m cs) = (if m < length (concat cs) then Some CaptureTooLargeError else None)"
  "length (concat cs) \<le> m \<Longrightarrow> concat (ck_chunks (bounded_chunks m cs)) = concat cs"
  using bounded_loop_spec [of m 0 cs] by (auto simp: bounded_chunks_def split: prod.splits if_splits)

section \<open>Duplicates\<close>

definition same_identity :: "string \<Rightarrow> string \<Rightarrow> string option \<Rightarrow> analysis_job \<Rightarrow> bool" where
  "same_identity sha profile hostname j = (aj_capture_sha256 j = Some sha \<and> aj_policy_profile j = profile
     \<and> aj_expected_hostname j = hostname \<and> (\<not> is_terminal j \<or> aj_status j = ST_COMPLETED))"

lemma find_duplicate_spec:
  assumes "store_ok s"
  obtains (none) "find_duplicate sha profile hostname s = Inr None"
      "\<And>rid j. job_of s rid = Some j \<Longrightarrow> \<not> same_identity sha profile hostname j"
  | (some) j where "find_duplicate sha profile hostname s = Inr (Some j)" "job_of s (aj_run_id j) = Some j"
      "same_identity sha profile hostname j"
proof -
  let ?m = "filter (same_identity sha profile hostname) (all_jobs s)"
  have eq: "find_duplicate sha profile hostname s = Inr (if ?m = [] then None else Some (last (sort_key claim_key ?m)))"
  proof -
    have "sort_key claim_key ?m = [] \<longleftrightarrow> ?m = []" by (metis set_empty set_sort)
    moreover have "find_duplicate sha profile hostname s =
        Inr (if sort_key claim_key ?m = [] then None else Some (last (sort_key claim_key ?m)))"
      unfolding find_duplicate_def list_jobs_eq [OF assms] bindE_simps Let_def same_identity_def [abs_def] by (rule refl)
    ultimately show ?thesis by presburger
  qed
  show thesis
  proof (cases "?m = []")
    case True
    have "\<not> same_identity sha profile hostname j" if "job_of s rid = Some j" for rid j
      using True all_jobs_set [OF assms] job_of_ok(2) [OF assms that] that by (auto simp: filter_empty_conv)
    with none eq True show thesis by simp
  next
    case False
    then have "last (sort_key claim_key ?m) \<in> set ?m" by (metis last_in_set set_empty set_sort)
    then show thesis using some eq False all_jobs_set [OF assms] by auto
  qed
qed

section \<open>Outcome of an intake\<close>

lemma delete_fresh: "map_of q k = None \<Longrightarrow> AList.delete k (AList.update k v q) = q"
  by (induction q) (auto split: if_splits)

lemma validate_magic_cases:
  "validate_magic h f = Inr u \<or> validate_magic h f = Inl InvalidCaptureError"
  by (simp add: validate_magic_def)

lemma capture_format_cases:
  "capture_format_for_filename f \<in> {Inr ''pcap'', Inr ''pcapng'', Inl InvalidCaptureError}"
  by (simp add: capture_format_for_filename_def Let_def)

lemma basename_ok: "basename f = Inr n \<Longrightarrow> len_in 1 255 n"
  by (auto simp: basename_def Let_def len_in_def Suc_le_eq split: if_splits)

lemma basename_error: "basename f = Inl e \<Longrightarrow> e = CaptureIntakeError"
  by (auto simp: basename_def Let_def split: if_splits)

lemma case_id_for_error: "case_id_for r f d = Inl e \<Longrightarrow> e = CaptureIntakeError"
  by (auto simp: case_id_for_def Let_def split: option.splits if_splits list.splits)

lemma pp_value_len: "len_in 1 64 (pp_value p)"
  by (cases p) (simp_all add: len_in_def)

lemma new_job_ok:
  assumes "intake_request_ok req" and "len_in 1 255 name" and "fmt \<in> {''pcap'', ''pcapng''}"
    and "is_sha256_hex (sg_sha256 st)" and "is_identifier rid"
  shows "new_job req name fmt st rid t = Inl e \<Longrightarrow> e = CaptureIntakeError"
    and "new_job req name fmt st rid t = Inr j \<Longrightarrow> analysis_job_ok j \<and> aj_run_id j = rid \<and> aj_status j = ST_QUEUED
      \<and> aj_capture_sha256 j = Some (sg_sha256 st) \<and> aj_policy_profile j = pp_value (ci_policy_profile req)
      \<and> aj_expected_hostname j = ci_expected_hostname req \<and> \<not> aj_cancel_requested j"
proof -
  have ok: "opt_ok (\<lambda>h. length h \<le> 253) (ci_expected_hostname req)" using assms(1) by (simp add: intake_request_ok_def)
  have none: "opt_ok P None" for P :: "string \<Rightarrow> bool" by (simp add: opt_ok_def)
  show "new_job req name fmt st rid t = Inl e \<Longrightarrow> e = CaptureIntakeError"
    using assms ok case_id_for_ok [OF assms(4)] case_id_for_error pp_value_len
    by (auto simp: new_job_def py_simps Let_def analysis_job_ok_def none opt_ok_def)
  show "new_job req name fmt st rid t = Inr j \<Longrightarrow> analysis_job_ok j \<and> aj_run_id j = rid \<and> aj_status j = ST_QUEUED
      \<and> aj_capture_sha256 j = Some (sg_sha256 st) \<and> aj_policy_profile j = pp_value (ci_policy_profile req)
      \<and> aj_expected_hostname j = ci_expected_hostname req \<and> \<not> aj_cancel_requested j"
    by (auto simp: new_job_def py_simps Let_def)
qed

text \<open>What an intake may return, relative to the store before and after.\<close>

definition intake_outcome :: "capture_intake_request \<Rightarrow> bytes \<Rightarrow> string \<Rightarrow> job_store \<Rightarrow> analysis_job result \<Rightarrow> job_store \<Rightarrow> bool" where
  "intake_outcome req content rid s r t = (case r of
     Inl e \<Rightarrow> job_of t = job_of s \<and> e \<in> {CaptureIntakeError, CaptureTooLargeError, InvalidCaptureError, StorageQuotaError}
   | Inr j \<Rightarrow> same_identity (sha256_bytes content) (pp_value (ci_policy_profile req)) (ci_expected_hostname req) j
       \<and> (if job_of s (aj_run_id j) = Some j then job_of t = job_of s
          else aj_run_id j = rid \<and> aj_status j = ST_QUEUED \<and> \<not> aj_cancel_requested j
            \<and> (\<forall>r k. job_of s r = Some k \<longrightarrow>
                  \<not> same_identity (sha256_bytes content) (pp_value (ci_policy_profile req)) (ci_expected_hostname req) k)
            \<and> map_of (js_jobs s) rid = None \<and> job_of t = (job_of s)(rid \<mapsto> persisted j)
            \<and> capture_path rid t = Inr content \<and> length content \<le> ci_max_capture_bytes req
            \<and> usage_bytes s + 2 * length content \<le> js_max_data_bytes s))"

lemma usage_update_fresh:
  assumes "map_of (js_quarantine s) uid = None"
  shows "usage_bytes (s\<lparr>js_quarantine := AList.update uid b (js_quarantine s)\<rparr>) = usage_bytes s + length b"
proof -
  have "sum_list (map (\<lambda>(u, b). length b) (AList.update uid b q)) = sum_list (map (\<lambda>(u, b). length b) q) + length b"
    if "map_of q uid = None" for q :: "(string, bytes) dict"
    using that by (induction q) (auto split: if_splits)
  then show ?thesis using assms by (simp add: usage_bytes_def)
qed

lemma quarantine_frame [simp]:
  "job_of (s\<lparr>js_quarantine := q\<rparr>) = job_of s" "store_ok (s\<lparr>js_quarantine := q\<rparr>) = store_ok s"
  by (simp_all add: job_of_def store_ok_def fun_eq_iff)

lemma abort_fresh: "map_of (js_quarantine s) uid = None \<Longrightarrow> abort_staged uid s = s"
  by (simp add: abort_staged_def delete_idem AList.delete_id map_of_eq_None_iff)

lemma abort_staged_fresh:
  "is_identifier uid \<Longrightarrow> map_of (js_quarantine s) uid = None \<Longrightarrow>
     abort_staged uid (s\<lparr>js_quarantine := AList.update uid b (js_quarantine s)\<rparr>) = s"
  by (simp add: abort_staged_def delete_fresh)

lemma ingest_staged_cases:
  assumes "store_ok s" and "ingest_staged req name fmt rid t0 st s = (r, t)"
  obtains (magic) "r = Inl InvalidCaptureError" "t = s"
  | (duplicate) j where "r = Inr j" "t = abort_staged (sg_upload_id st) s" "job_of s (aj_run_id j) = Some j"
      "same_identity (sg_sha256 st) (pp_value (ci_policy_profile req)) (ci_expected_hostname req) j"
  | (name) e where "new_job req name fmt st rid t0 = Inl e" "r = Inl e" "t = s"
  | (commit) j where "new_job req name fmt st rid t0 = Inr j" "commit_staged (sg_upload_id st) j s = (r, t)"
      "\<And>rid j. job_of s rid = Some j \<Longrightarrow> \<not> same_identity (sg_sha256 st) (pp_value (ci_policy_profile req)) (ci_expected_hostname req) j"
proof (cases "validate_magic (sg_header st) fmt")
  case (Inl e)
  then show thesis using magic assms(2) validate_magic_cases [of "sg_header st" fmt] by (auto simp: ingest_staged_def op_defs)
next
  case (Inr u)
  from assms(1) show thesis
  proof (rule find_duplicate_spec [of s "sg_sha256 st" "pp_value (ci_policy_profile req)" "ci_expected_hostname req"])
    assume d: "find_duplicate (sg_sha256 st) (pp_value (ci_policy_profile req)) (ci_expected_hostname req) s = Inr None"
      and no: "\<And>rid j. job_of s rid = Some j \<Longrightarrow> \<not> same_identity (sg_sha256 st) (pp_value (ci_policy_profile req)) (ci_expected_hostname req) j"
    show thesis
    proof (cases "new_job req name fmt st rid t0")
      case (Inl e)
      then show thesis using name [OF Inl] assms(2) Inr d by (simp add: ingest_staged_def op_defs)
    next
      case j: (Inr j)
      then show thesis using commit [OF j _ no] assms(2) Inr d by (simp add: ingest_staged_def op_defs)
    qed
  next
    fix j assume d: "find_duplicate (sg_sha256 st) (pp_value (ci_policy_profile req)) (ci_expected_hostname req) s = Inr (Some j)"
      and j: "job_of s (aj_run_id j) = Some j" "same_identity (sg_sha256 st) (pp_value (ci_policy_profile req)) (ci_expected_hostname req) j"
    have "\<not> is_terminal j \<or> aj_status j = ST_COMPLETED" using j(2) by (simp add: same_identity_def)
    then show thesis using duplicate [OF _ _ j] assms(2) Inr d by (simp add: ingest_staged_def op_defs)
  qed
qed

lemma wrap_job_errors_eq: "wrap_job_errors m s = (case m s of (Inr a, t) \<Rightarrow> (Inr a, t)
   | (Inl e, t) \<Rightarrow> (Inl (if e \<noteq> StorageQuotaError \<and> is_job_error e then CaptureIntakeError else e), t))"
  by (auto simp: wrap_job_errors_def op_defs split: prod.splits sum.splits)

lemma commit_outcome:
  assumes s: "store_ok s" and fresh: "map_of (js_quarantine s) uid = None" and ids: "is_identifier uid"
    and j: "analysis_job_ok j" "aj_capture_sha256 j = Some (sha256_bytes content)"
    and run: "commit_staged uid j (s\<lparr>js_quarantine := AList.update uid content (js_quarantine s)\<rparr>) = (r, t)"
  obtains (quota) "r = Inl StorageQuotaError" "abort_staged uid t = s"
  | (clash) "r = Inl AnalysisJobError" "abort_staged uid t = s"
  | (stored) "r = Inr j" "abort_staged uid t = t" "store_ok t" "js_quarantine t = js_quarantine s"
      "map_of (js_jobs s) (aj_run_id j) = None" "job_of t = (job_of s)(aj_run_id j \<mapsto> persisted j)"
      "capture_path (aj_run_id j) t = Inr content" "usage_bytes s + 2 * length content \<le> js_max_data_bytes s"
proof -
  let ?s1 = "s\<lparr>js_quarantine := AList.update uid content (js_quarantine s)\<rparr>"
  let ?d = "\<lparr>jd_status = Some (persisted j), jd_capture = Some (''capture.'' @ aj_capture_format j, content),
               jd_artifacts = [], jd_cancel_flag = False\<rparr>"
  have q: "map_of (js_quarantine ?s1) uid = Some content" by (simp add: update_conv')
  have rid: "is_identifier (aj_run_id j)" using j(1) by (simp add: analysis_job_ok_def)
  have match: "job_matches j b" if "map_of (js_quarantine ?s1) uid = Some b" for b
    using that q j by (simp add: job_matches_def)
  have t: "store_ok t" using commit_staged_ok [OF _ run match] s by simp
  have restored: "abort_staged uid ?s1 = s" by (rule abort_staged_fresh [OF ids fresh])
  note eq = run [unfolded commit_staged_eq q option.case]
  show thesis
  proof (cases "js_max_jobs s \<le> length (js_jobs s) \<or> js_max_data_bytes s < usage_bytes ?s1 + length content")
    case True
    then show thesis using eq quota restored ids rid by auto
  next
    case False
    show thesis
    proof (cases "map_of (js_jobs s) (aj_run_id j)")
      case (Some d)
      then show thesis using eq clash restored ids rid False by auto
    next
      case None
      have r: "r = Inr j" and teq: "t = write_dir (aj_run_id j) ?d s"
        using eq None False ids rid fresh by (auto simp: delete_fresh)
      have jobs: "job_of t = (job_of s)(aj_run_id j \<mapsto> persisted j)"
        unfolding teq by (rule ext) (simp add: job_of_def write_dir_get)
      have qt: "js_quarantine t = js_quarantine s" unfolding teq by (simp add: write_dir_def)
      have "capture_path (aj_run_id j) t = Inr content"
        unfolding capture_path_def get_job_eq [OF t] jobs by (simp add: teq the_dir_def write_dir_get)
      moreover have "abort_staged uid t = t" by (rule abort_fresh) (simp add: qt fresh)
      moreover have "usage_bytes s + 2 * length content \<le> js_max_data_bytes s"
        using False by (simp add: usage_update_fresh [OF fresh])
      ultimately show thesis using stored [OF r _ t qt None jobs] by blast
    qed
  qed
qed

lemma ingest_staged_outcome:
  assumes s: "store_ok s" and fresh: "map_of (js_quarantine s) uid = None" and ids: "is_identifier uid" "is_identifier rid"
    and req: "intake_request_ok req" and name: "len_in 1 255 name" and fmt: "fmt \<in> {''pcap'', ''pcapng''}"
    and len: "length content \<le> ci_max_capture_bytes req"
    and st: "sg_upload_id st = uid" "sg_sha256 st = sha256_bytes content"
    and run: "wrap_job_errors (finallyS (ingest_staged req name fmt rid t0 st) (abort_staged uid))
      (s\<lparr>js_quarantine := AList.update uid content (js_quarantine s)\<rparr>) = (r, t)"
  shows "store_ok t \<and> js_quarantine t = js_quarantine s \<and> intake_outcome req content rid s r t"
proof -
  let ?s1 = "s\<lparr>js_quarantine := AList.update uid content (js_quarantine s)\<rparr>"
  obtain r1 t1 where inner: "ingest_staged req name fmt rid t0 st ?s1 = (r1, t1)"
    by (cases "ingest_staged req name fmt rid t0 st ?s1")
  have out: "(r, t) = (case r1 of Inr a \<Rightarrow> (Inr a, abort_staged uid t1)
      | Inl e \<Rightarrow> (Inl (if e \<noteq> StorageQuotaError \<and> is_job_error e then CaptureIntakeError else e), abort_staged uid t1))"
    using run inner by (simp add: wrap_job_errors_eq finallyS_def split: sum.splits)
  have restored: "abort_staged uid ?s1 = s" by (rule abort_staged_fresh [OF ids(1) fresh])
  have s1: "store_ok ?s1" using s by simp
  have sha: "is_sha256_hex (sg_sha256 st)" by (simp add: st)
  note job = new_job_ok [OF req name fmt sha ids(2)]
  from s1 inner show ?thesis
  proof (cases rule: ingest_staged_cases)
    case magic
    then show ?thesis using out s restored by (simp add: intake_outcome_def is_job_error_def)
  next
    case (duplicate j)
    have "t = s" "r = Inr j" using out duplicate(1,2) restored abort_fresh [OF fresh] st(1) by auto
    then show ?thesis using s duplicate(3,4) st(2) by (simp add: intake_outcome_def)
  next
    case (name e)
    then have "e = CaptureIntakeError" using job(1) by blast
    then show ?thesis using out name s restored by (simp add: intake_outcome_def is_job_error_def)
  next
    case (commit j)
    note j = job(2) [OF commit(1)]
    have jo: "analysis_job_ok j" "aj_capture_sha256 j = Some (sha256_bytes content)" "aj_run_id j = rid" using j st(2) by simp_all
    note run1 = commit(2) [unfolded st(1)]
    from s fresh ids(1) jo(1,2) run1 show ?thesis
    proof (cases rule: commit_outcome)
      case quota
      then show ?thesis using out s by (simp add: intake_outcome_def)
    next
      case clash
      then show ?thesis using out s by (simp add: intake_outcome_def is_job_error_def)
    next
      case stored
      have "job_of s rid = None" using stored(5) jo(3) by (simp add: job_of_def)
      moreover have "r = Inr j" "t = t1" using out stored(1,2) by simp_all
      moreover have "\<not> same_identity (sha256_bytes content) (pp_value (ci_policy_profile req)) (ci_expected_hostname req) k"
        if "job_of s q = Some k" for q k
        using commit(3) [of q k] that st(2) by simp
      moreover have "same_identity (sha256_bytes content) (pp_value (ci_policy_profile req)) (ci_expected_hostname req) j"
        using j st(2) by (simp add: same_identity_def is_terminal_def)
      ultimately show ?thesis
        using stored j len jo(3) by (simp add: intake_outcome_def)
    qed
  qed
qed

lemma stage_capture_eq:
  "map_of (js_quarantine s) uid = None \<Longrightarrow> fmt \<in> {''pcap'', ''pcapng''} \<Longrightarrow>
   stage_capture uid (bounded_chunks m cs) fmt s =
     (if m < length (concat cs) then (Inl CaptureTooLargeError, s)
      else if concat cs = [] then (Inl AnalysisJobError, s)
      else (Inr \<lparr>sg_upload_id = uid, sg_sha256 = sha256_bytes (concat cs), sg_size_bytes = length (concat cs),
              sg_header = take 4 (concat cs)\<rparr>,
            s\<lparr>js_quarantine := AList.update uid (concat cs) (js_quarantine s)\<rparr>))"
  using bounded_chunks_spec [where m = m and cs = cs]
  by (simp add: stage_capture_def op_defs Let_def del: length_concat concat_eq_Nil_conv)

lemma ingest_outcome:
  assumes s: "store_ok s" and req: "intake_request_ok req" and ids: "is_identifier rid" "is_identifier uid"
    and fresh: "map_of (js_quarantine s) uid = None" and run: "ingest_capture req chunks rid uid created s = (r, t)"
  shows "store_ok t \<and> js_quarantine t = js_quarantine s \<and> intake_outcome req (concat chunks) rid s r t"
proof -
  have failed: ?thesis if "r = Inl e" "t = s" "e \<in> {CaptureIntakeError, CaptureTooLargeError, InvalidCaptureError}" for e
    using that s by (auto simp: intake_outcome_def)
  show ?thesis
  proof (cases "basename (ci_original_filename req)")
    case (Inl e)
    then show ?thesis using failed [of e] run basename_error [OF Inl] by (simp add: ingest_capture_def op_defs)
  next
    case name: (Inr name)
    show ?thesis
    proof (cases "capture_format_for_filename name")
      case (Inl e)
      then show ?thesis
        using failed [of e] run name capture_format_cases [of name] by (simp add: ingest_capture_def op_defs)
    next
      case fmt: (Inr fmt)
      then have f: "fmt \<in> {''pcap'', ''pcapng''}" using capture_format_cases [of name] by auto
      let ?st = "\<lparr>sg_upload_id = uid, sg_sha256 = sha256_bytes (concat chunks), sg_size_bytes = length (concat chunks),
              sg_header = take 4 (concat chunks)\<rparr>"
      have run1: "wrap_job_errors (doS (stage_capture uid (bounded_chunks (ci_max_capture_bytes req) chunks) fmt) (\<lambda>staged.
          finallyS (ingest_staged req name fmt rid (aware created) staged) (abort_staged (sg_upload_id staged)))) s = (r, t)"
        using run name fmt by (simp add: ingest_capture_def doS_def pureS_def)
      show ?thesis
      proof (cases "ci_max_capture_bytes req < length (concat chunks) \<or> concat chunks = []")
        case True
        then have "(\<exists>e \<in> {CaptureTooLargeError, CaptureIntakeError}. r = Inl e) \<and> t = s"
          using run1 by (auto simp: wrap_job_errors_eq doS_def stage_capture_eq [OF fresh f] is_job_error_def
              simp del: length_concat split: if_splits)
        then show ?thesis using failed by auto
      next
        case False
        then have len: "length (concat chunks) \<le> ci_max_capture_bytes req" by simp
        have "wrap_job_errors (finallyS (ingest_staged req name fmt rid (aware created) ?st) (abort_staged uid))
            (s\<lparr>js_quarantine := AList.update uid (concat chunks) (js_quarantine s)\<rparr>) = (r, t)"
          using run1 False by (simp add: wrap_job_errors_eq doS_def stage_capture_eq [OF fresh f] del: length_concat concat_eq_Nil_conv)
        then show ?thesis
          by (intro ingest_staged_outcome [OF s fresh ids(2,1) req basename_ok [OF name] f len, of ?st]) simp_all
      qed
    qed
  qed
qed

section \<open>Properties\<close>

definition empty_store :: job_store where
  "empty_store = \<lparr>js_max_jobs = 64, js_max_data_bytes = 2147483648, js_jobs = [], js_quarantine = [],
     js_clock = (\<lambda>n. \<lparr>dt_wall = int n, dt_offset = Some 0\<rparr>), js_ticks = 0\<rparr>"

definition sample_intake :: capture_intake_request where
  "sample_intake = \<lparr>ci_original_filename = ''mail.pcap'', ci_policy_profile = PP_IETF_CURRENT,
     ci_expected_hostname = None, ci_case_id = None, ci_max_capture_bytes = max_capture_bytes\<rparr>"

lemma empty_store_ok: "store_ok empty_store" "map_of (js_quarantine empty_store) u = None"
  by (simp_all add: store_ok_def empty_store_def)

lemma sample_intake_ok: "intake_request_ok sample_intake" "is_identifier ''r1''" "is_identifier ''u1''"
  by (simp_all add: intake_request_ok_def sample_intake_def len_in_def opt_ok_def is_alpha_def is_digit_def is_id_char_def)

text \<open>C37: An intake leaves no quarantined file behind and keeps the invariant of the store. If it answers with
  a job, the job has the identity of the upload: it is an active or completed job that was there before,
  and then the store is unchanged, or a queued job under the fresh identifier, and then there was no
  such job, the stored capture is the uploaded bytes and nothing else changed. If it fails, the jobs
  are unchanged and the error is one of the four of the intake.\<close>

theorem ingest_all_or_nothing:
  assumes "store_ok s" and "intake_request_ok request" and "is_identifier run_id" and "is_identifier upload_id"
    and "map_of (js_quarantine s) upload_id = None"
    and "ingest_capture request chunks run_id upload_id created s = (r, t)"
  shows "store_ok t \<and> js_quarantine t = js_quarantine s \<and> intake_outcome request (concat chunks) run_id s r t"
  by (rule ingest_outcome [OF assms])

theorem ingest_all_or_nothing_witness:
  "\<exists>r t. ingest_capture sample_intake [[212, 195, 178, 161]] ''r1'' ''u1'' \<lparr>dt_wall = 0, dt_offset = None\<rparr> empty_store = (r, t)
     \<and> store_ok t \<and> js_quarantine t = []"
proof -
  obtain r t where rt: "ingest_capture sample_intake [[212, 195, 178, 161]] ''r1'' ''u1'' \<lparr>dt_wall = 0, dt_offset = None\<rparr>
      empty_store = (r, t)" by (cases "ingest_capture sample_intake [[212, 195, 178, 161]] ''r1'' ''u1''
      \<lparr>dt_wall = 0, dt_offset = None\<rparr> empty_store")
  show ?thesis
    using ingest_all_or_nothing [OF empty_store_ok(1) sample_intake_ok(1-3) empty_store_ok(2) rt] rt
    by (simp add: empty_store_def)
qed

text \<open>The quota counts an upload twice. A staged upload is part of the usage that the commit adds its size
  to, so it is refused whenever the usage before the upload plus twice its size exceeds the bound, even
  when the store would hold it within the bound.\<close>

theorem quota_counts_upload_twice:
  assumes "map_of (js_quarantine s) upload_id = None" and "is_identifier upload_id" and "is_identifier (aj_run_id job)"
    and "js_max_data_bytes s < usage_bytes s + 2 * length content"
  shows "fst (commit_staged upload_id job (s\<lparr>js_quarantine := AList.update upload_id content (js_quarantine s)\<rparr>))
    = Inl StorageQuotaError"
  using assms(2-4) by (simp add: commit_staged_eq update_conv' usage_update_fresh [OF assms(1)])

definition sample_job :: analysis_job where
  "sample_job = \<lparr>aj_run_id = ''r1'', aj_case_id = ''c1'', aj_status = ST_QUEUED, aj_stage = SG_INTAKE,
     aj_capture_sha256 = None, aj_original_filename = ''mail.pcap'', aj_capture_format = ''pcap'',
     aj_policy_profile = ''ietf_current'', aj_expected_hostname = None,
     aj_created_at = \<lparr>dt_wall = 0, dt_offset = Some 0\<rparr>, aj_updated_at = \<lparr>dt_wall = 0, dt_offset = Some 0\<rparr>,
     aj_error_message = None, aj_artifacts = no_artifacts, aj_cancel_requested = False\<rparr>"

theorem quota_counts_upload_twice_witness:
  "usage_bytes (empty_store\<lparr>js_max_data_bytes := 5\<rparr>) + length [1, 2, 3, 4 :: int] \<le> 5 \<and>
   fst (commit_staged ''u1'' sample_job (empty_store\<lparr>js_max_data_bytes := 5,
     js_quarantine := AList.update ''u1'' [1, 2, 3, 4] []\<rparr>)) = Inl StorageQuotaError"
  using quota_counts_upload_twice [of "empty_store\<lparr>js_max_data_bytes := 5\<rparr>" "''u1''" sample_job "[1, 2, 3, 4]"]
    sample_intake_ok(2,3)
  by (simp add: empty_store_def sample_job_def usage_bytes_def)

end
