(* ===== verification/Job_System.thy ===== *)
theory Job_System
  imports Intake
begin

text \<open>
  The job store as a system of two processes: the web API, which takes captures in and requests
  cancellations, and the worker, which claims jobs, updates them and stores artifacts. Each step is one operation of
  the store; a run is any interleaving.

  Shown here: in every run the store stays well formed and a job only moves forward (a terminal status is final, its
  identity and its capture never change); the worker claims the oldest job and nothing else changes. Below the
  granularity of operations the store has no lock: two runs of reads and writes are shown that two processes can
  produce and no sequence of operations can.
\<close>

section \<open>Systems whose parts only move forward\<close>

text \<open>A transition system on which a partial view of the state exists: a step keeps the invariant and moves every
  part in view forward.\<close>

locale forward_system =
  fixes step :: "'s \<Rightarrow> 's \<Rightarrow> bool"
    and inv :: "'s \<Rightarrow> bool"
    and view :: "'s \<Rightarrow> 'k \<Rightarrow> 'v option"
    and forward :: "'v \<Rightarrow> 'v \<Rightarrow> bool"
  assumes step_inv: "step s t \<Longrightarrow> inv s \<Longrightarrow> inv t"
    and step_forward: "step s t \<Longrightarrow> inv s \<Longrightarrow> view s k = Some v \<Longrightarrow> \<exists>w. view t k = Some w \<and> forward v w"
    and forward_refl: "forward v v"
    and forward_trans: "forward u v \<Longrightarrow> forward v w \<Longrightarrow> forward u w"
begin

lemma reach_inv: "step\<^sup>*\<^sup>* s t \<Longrightarrow> inv s \<Longrightarrow> inv t"
  by (induction rule: rtranclp_induct) (auto intro: step_inv)

lemma reach_forward:
  assumes "step\<^sup>*\<^sup>* s t" and "inv s" and "view s k = Some v"
  shows "\<exists>w. view t k = Some w \<and> forward v w"
  using assms(1)
proof (induction rule: rtranclp_induct)
  case base
  then show ?case using assms(3) forward_refl by blast
next
  case (step t u)
  then obtain w where w: "view t k = Some w" "forward v w" by blast
  have "inv t" by (rule reach_inv [OF step.hyps(1) assms(2)])
  then show ?case using step_forward [OF step.hyps(2) _ w(1)] forward_trans [OF w(2)] by blast
qed

end

section \<open>Steps\<close>

inductive api_step :: "job_store \<Rightarrow> job_store \<Rightarrow> bool" where
  api_intake: "intake_request_ok request \<Longrightarrow> is_identifier run_id \<Longrightarrow> is_identifier upload_id
    \<Longrightarrow> map_of (js_quarantine s) upload_id = None \<Longrightarrow> ingest_capture request chunks run_id upload_id created s = (r, t)
    \<Longrightarrow> api_step s t"
| api_cancel: "request_cancel run_id s = (r, t) \<Longrightarrow> api_step s t"

inductive worker_step :: "job_store \<Rightarrow> job_store \<Rightarrow> bool" where
  worker_claim: "claim_next s = (r, t) \<Longrightarrow> worker_step s t"
| worker_update: "update_ok u \<Longrightarrow> ju_status u \<noteq> Some ST_QUEUED \<Longrightarrow> update_job run_id u s = (r, t) \<Longrightarrow> worker_step s t"
| worker_artifact: "write_artifact run_id name payload s = (r, t) \<Longrightarrow> worker_step s t"

definition job_step :: "job_store \<Rightarrow> job_store \<Rightarrow> bool" where
  "job_step s t = (api_step s t \<or> worker_step s t)"

section \<open>Progress of a job\<close>

fun status_rank :: "analysis_status \<Rightarrow> nat" where
  "status_rank ST_QUEUED = 0"
| "status_rank ST_RUNNING = 1"
| "status_rank _ = 2"

text \<open>The identity of a job never changes, its status never falls back, and a terminal status is final.\<close>

definition progresses :: "analysis_job \<Rightarrow> analysis_job \<Rightarrow> bool" where
  "progresses j k = (aj_run_id k = aj_run_id j \<and> aj_case_id k = aj_case_id j \<and> aj_capture_sha256 k = aj_capture_sha256 j
     \<and> aj_capture_format k = aj_capture_format j \<and> aj_policy_profile k = aj_policy_profile j
     \<and> aj_expected_hostname k = aj_expected_hostname j
     \<and> status_rank (aj_status j) \<le> status_rank (aj_status k) \<and> (is_terminal j \<longrightarrow> aj_status k = aj_status j))"

lemma status_rank_terminal: "is_terminal j \<longleftrightarrow> status_rank (aj_status j) = 2"
  by (cases "aj_status j") (simp_all add: is_terminal_def)

lemma status_rank_le [simp]: "status_rank s \<le> 2"
  by (cases s) simp_all

lemma progresses_refl: "progresses j j"
  by (simp add: progresses_def)

lemma progresses_trans: "progresses i j \<Longrightarrow> progresses j k \<Longrightarrow> progresses i k"
  by (auto simp: progresses_def status_rank_terminal)

lemma progresses_update:
  assumes "ju_status u = None \<or> \<not> is_terminal j" and "ju_status u \<noteq> Some ST_QUEUED"
  shows "progresses j (persisted (updated_job u s j))"
proof (cases "ju_status u")
  case None
  then show ?thesis by (simp add: progresses_def)
next
  case (Some st)
  then have "\<not> is_terminal j" "st \<noteq> ST_QUEUED" using assms by auto
  then show ?thesis
    using Some by (cases "aj_status j"; cases st) (simp_all add: progresses_def is_terminal_def)
qed

text \<open>What is in view of a run: each job with its capture file.\<close>

definition job_view :: "job_store \<Rightarrow> string \<Rightarrow> (analysis_job \<times> (string \<times> bytes) option) option" where
  "job_view s rid = Option.bind (map_of (js_jobs s) rid) (\<lambda>d. map_option (\<lambda>j. (j, jd_capture d)) (jd_status d))"

definition view_forward :: "analysis_job \<times> (string \<times> bytes) option \<Rightarrow> analysis_job \<times> (string \<times> bytes) option \<Rightarrow> bool" where
  "view_forward v w = (progresses (fst v) (fst w) \<and> snd w = snd v)"

lemma job_view_job_of: "job_of s rid = map_option fst (job_view s rid)"
  by (cases "map_of (js_jobs s) rid") (simp_all add: job_view_def job_of_def option.map_comp comp_def option.map_ident)

lemma job_view_dir:
  "job_view s rid = Some (j, c) \<longleftrightarrow> (\<exists>d. map_of (js_jobs s) rid = Some d \<and> jd_status d = Some j \<and> jd_capture d = c)"
  by (auto simp: job_view_def bind_eq_Some_conv)

lemma update_store_view:
  assumes "job_view s rid = Some (j, c)"
  shows "job_view (update_store rid u j s) r =
    (if r = rid then Some (persisted (updated_job u s j), c) else job_view s r)"
proof -
  obtain d where d: "map_of (js_jobs s) rid = Some d" "jd_capture d = c" using assms by (auto simp: job_view_dir)
  then have "the_dir rid s = d" by (simp add: the_dir_def)
  then show ?thesis using d by (simp add: update_store_def Let_def job_view_def write_dir_get)
qed

lemma job_view_tick [simp]: "job_view (tick s) = job_view s"
  by (simp add: job_view_def fun_eq_iff)

lemma job_of_view: "job_of s rid = Some j \<Longrightarrow> \<exists>c. job_view s rid = Some (j, c)"
  by (auto simp: job_view_job_of)

section \<open>Every operation moves jobs forward\<close>

definition forwards :: "(job_store, 'a) op \<Rightarrow> bool" where
  "forwards m = (\<forall>s rid v. job_view s rid = Some v \<longrightarrow> (\<exists>w. job_view (snd (m s)) rid = Some w \<and> view_forward v w))"

lemma view_forward_refl: "view_forward v v"
  by (simp add: view_forward_def progresses_refl)

lemma view_forward_trans: "view_forward u v \<Longrightarrow> view_forward v w \<Longrightarrow> view_forward u w"
  unfolding view_forward_def using progresses_trans by simp blast

lemma forwardsI:
  "(\<And>s rid v. job_view s rid = Some v \<Longrightarrow> \<exists>w. job_view (snd (m s)) rid = Some w \<and> view_forward v w) \<Longrightarrow> forwards m"
  by (simp add: forwards_def)

lemma forwardsD: "forwards m \<Longrightarrow> m s = (r, t) \<Longrightarrow> job_view s rid = Some v \<Longrightarrow> \<exists>w. job_view t rid = Some w \<and> view_forward v w"
  by (metis forwards_def snd_conv)

lemma forwards_frame: "(\<And>s. job_view (snd (m s)) = job_view s) \<Longrightarrow> forwards m"
  by (rule forwardsI) (simp add: view_forward_refl)

lemma forwards_pure [simp]:
  "forwards (returnS a)" "forwards (raiseS e)" "forwards (pureS f)" "forwards (getS g)" "forwards (guardS b e)"
  by (simp_all add: forwards_def op_defs view_forward_refl)

lemma forwards_doS:
  assumes "forwards m" and "\<And>a. forwards (f a)"
  shows "forwards (doS m f)"
proof (rule forwardsI)
  fix s rid v assume v: "job_view s rid = Some v"
  obtain r t where m: "m s = (r, t)" by (cases "m s")
  obtain w where w: "job_view t rid = Some w" "view_forward v w" using forwardsD [OF assms(1) m v] by blast
  show "\<exists>w. job_view (snd (doS m f s)) rid = Some w \<and> view_forward v w"
  proof (cases r)
    case (Inl e)
    then show ?thesis using m w by (simp add: doS_def)
  next
    case (Inr a)
    obtain u where "job_view (snd (f a t)) rid = Some u" "view_forward w u"
      using assms(2) [of a, unfolded forwards_def, rule_format, OF w(1)] by blast
    then show ?thesis using Inr m view_forward_trans [OF w(2)] by (simp add: doS_def)
  qed
qed

lemma forwards_tryS:
  assumes "forwards m" and "\<And>e. forwards (h e)"
  shows "forwards (tryS m h)"
proof (rule forwardsI)
  fix s rid v assume v: "job_view s rid = Some v"
  obtain r t where m: "m s = (r, t)" by (cases "m s")
  obtain w where w: "job_view t rid = Some w" "view_forward v w" using forwardsD [OF assms(1) m v] by blast
  show "\<exists>w. job_view (snd (tryS m h s)) rid = Some w \<and> view_forward v w"
  proof (cases r)
    case (Inr a)
    then show ?thesis using m w by (simp add: tryS_def)
  next
    case (Inl e)
    obtain u where "job_view (snd (h e t)) rid = Some u" "view_forward w u"
      using assms(2) [of e, unfolded forwards_def, rule_format, OF w(1)] by blast
    then show ?thesis using Inl m view_forward_trans [OF w(2)] by (simp add: tryS_def)
  qed
qed

lemma forwards_finallyS: "forwards m \<Longrightarrow> (\<And>s. job_view (f s) = job_view s) \<Longrightarrow> forwards (finallyS m f)"
  by (auto simp: forwards_def finallyS_def split: prod.splits) (metis snd_conv)

lemma get_job_view: "get_job rid s = Inr (Some j) \<Longrightarrow> \<exists>c. job_view s rid = Some (j, c)"
  by (auto simp: get_job_def job_view_dir read_status_def py_simps split: if_splits option.splits)

lemma update_job_cases:
  assumes "update_job rid u s = (r, t)"
  obtains (same) "job_view t = job_view s"
  | (written) j where "get_job rid s = Inr (Some j)" and "ju_status u = None \<or> \<not> is_terminal j"
      and "t = update_store rid u j s"
  using assms unfolding update_job_def
  by (auto simp: doS_def pureS_def raiseS_def write_update_eq split: option.splits sum.splits if_splits)

lemma update_job_forwards:
  assumes "ju_status u \<noteq> Some ST_QUEUED"
  shows "forwards (update_job rid u)"
proof (rule forwardsI)
  fix s r v assume v: "job_view s r = Some v"
  obtain x t where t: "update_job rid u s = (x, t)" by (cases "update_job rid u s")
  from t show "\<exists>w. job_view (snd (update_job rid u s)) r = Some w \<and> view_forward v w"
  proof (cases rule: update_job_cases)
    case same
    then show ?thesis using v t by (simp add: view_forward_refl)
  next
    case (written j)
    obtain c where c: "job_view s rid = Some (j, c)" using get_job_view [OF written(1)] by blast
    show ?thesis
    proof (cases "r = rid")
      case True
      then have "v = (j, c)" using v c by simp
      then show ?thesis
        using True written(3) t progresses_update [OF written(2) assms]
        by (simp add: update_store_view [OF c] view_forward_def)
    next
      case False
      then show ?thesis using v t written(3) by (simp add: update_store_view [OF c] view_forward_refl)
    qed
  qed
qed

lemma request_cancel_forwards: "forwards (request_cancel rid)"
  unfolding request_cancel_def
  by (intro forwards_doS) (auto simp: update_job_forwards split: option.splits)

lemma claim_loop_forwards: "forwards (claim_loop js)"
  by (induction js) (auto intro!: forwards_tryS forwards_doS update_job_forwards)

lemma cancel_loop_forwards: "forwards (cancel_loop js)"
  by (induction js) (auto intro!: forwards_doS update_job_forwards)

lemma claim_next_forwards: "forwards claim_next"
  unfolding claim_next_def
  by (intro forwards_doS claim_loop_forwards) (auto intro!: forwards_doS cancel_loop_forwards split: option.splits)

lemma write_artifact_view: "job_view (snd (write_artifact rid name b s)) r = job_view s r"
proof -
  have "job_view (write_dir rid (d\<lparr>jd_artifacts := a\<rparr>) s) r = job_view s r" if "map_of (js_jobs s) rid = Some d" for d a
    using that by (simp add: job_view_def write_dir_get)
  then show ?thesis
    by (auto simp: write_artifact_def op_defs Let_def the_dir_def get_job_def split: option.splits sum.splits if_splits)
qed

lemma stage_view: "job_view (snd (stage_capture uid source fmt s)) = job_view s"
  by (simp add: stage_capture_def op_defs Let_def job_view_def fun_eq_iff split: option.splits)

lemma abort_view: "job_view (abort_staged uid s) = job_view s"
  by (simp add: abort_staged_def job_view_def fun_eq_iff)

lemma commit_forwards: "forwards (commit_staged uid j)"
proof (rule forwardsI)
  fix s r v assume v: "job_view s r = Some v"
  have "map_of (js_jobs s) (aj_run_id j) = None \<Longrightarrow> r \<noteq> aj_run_id j" using v by (auto simp: job_view_def)
  then have "job_view (snd (commit_staged uid j s)) r = job_view s r"
    by (auto simp: commit_staged_eq job_view_def write_dir_get split: option.splits)
  then show "\<exists>w. job_view (snd (commit_staged uid j s)) r = Some w \<and> view_forward v w" using v view_forward_refl by simp
qed

lemma ingest_forwards: "forwards (ingest_capture request chunks rid uid created)"
proof -
  have ab: "forwards (modifyS (abort_staged u))" for u by (rule forwards_frame) (simp add: modifyS_def abort_view)
  have "forwards (ingest_staged request name fmt rid t st)" for name fmt t st
    unfolding ingest_staged_def
    by (intro forwards_doS) (auto intro!: forwards_doS commit_forwards ab split: option.splits)
  then show ?thesis
    unfolding ingest_capture_def wrap_job_errors_def
    by (intro forwards_doS forwards_tryS forwards_finallyS) (auto simp: forwards_frame stage_view abort_view)
qed

lemma job_step_forward:
  assumes "job_step s t" and "job_view s k = Some v"
  shows "\<exists>w. job_view t k = Some w \<and> view_forward v w"
  using assms(1) unfolding job_step_def
proof (elim disjE)
  assume "api_step s t"
  then show ?thesis
    by cases (use assms(2) forwardsD ingest_forwards request_cancel_forwards in blast)+
next
  assume "worker_step s t"
  then show ?thesis
  proof cases
    case (worker_artifact rid name b r)
    then show ?thesis using write_artifact_view [of rid name b s k] assms(2) view_forward_refl by auto
  qed (use assms(2) forwardsD claim_next_forwards update_job_forwards in blast)+
qed

lemma job_step_inv:
  assumes "job_step s t" and "store_ok s"
  shows "store_ok t"
  using assms(1) unfolding job_step_def
proof (elim disjE)
  assume "api_step s t"
  then show ?thesis
  proof cases
    case (api_intake request rid uid chunks created r)
    then show ?thesis using ingest_outcome [OF assms(2)] by blast
  next
    case (api_cancel rid r)
    then show ?thesis using keepsD [OF request_cancel_keeps assms(2)] by blast
  qed
next
  assume "worker_step s t"
  then show ?thesis
  proof cases
    case (worker_claim r)
    then show ?thesis by (rule keepsD [OF claim_next_keeps assms(2)])
  next
    case (worker_update u rid r)
    then show ?thesis by (intro keepsD [OF update_job_keeps assms(2)])
  next
    case (worker_artifact rid name b r)
    then show ?thesis by (intro keepsD [OF write_artifact_keeps assms(2)])
  qed
qed

interpretation jobs: forward_system job_step store_ok job_view view_forward
  by (unfold_locales; (rule job_step_inv job_step_forward view_forward_refl view_forward_trans; assumption)?)

text \<open>C19: In every run of the API and the worker, operation by operation in any order, the store stays well formed,
  no job is lost, and a job only moves forward: its identity (case, capture hash, format, profile, hostname) never
  changes, its status never falls back, a completed, failed or cancelled job keeps its status, and the stored capture
  file stays the one that was committed.\<close>

theorem jobs_only_move_forward:
  assumes "job_step\<^sup>*\<^sup>* s t" and "store_ok s" and "job_of s rid = Some j"
  shows "store_ok t \<and> (\<exists>k. job_of t rid = Some k \<and> progresses j k \<and> capture_path rid t = capture_path rid s)"
proof -
  have t: "store_ok t" by (rule jobs.reach_inv [OF assms(1,2)])
  obtain c where c: "job_view s rid = Some (j, c)" using job_of_view [OF assms(3)] by blast
  obtain w where w: "job_view t rid = Some w" "view_forward (j, c) w" using jobs.reach_forward [OF assms(1,2) c] by blast
  obtain k where k: "w = (k, c)" "progresses j k" using w(2) by (cases w) (auto simp: view_forward_def)
  have cap: "capture_path rid u = (case c of Some (name, b) \<Rightarrow> if name = ''capture.'' @ aj_capture_format i then Inr b else Inl AnalysisJobError
      | None \<Rightarrow> Inl AnalysisJobError)" if "store_ok u" "job_view u rid = Some (i, c)" for u i
    using that get_job_eq [OF that(1), of rid]
    by (auto simp: capture_path_def job_view_dir job_of_def the_dir_def split: option.splits)
  have "job_of t rid = Some k" using w(1) k(1) by (simp add: job_view_job_of)
  moreover have "capture_path rid t = capture_path rid s"
  proof -
    have "aj_capture_format k = aj_capture_format j" using k(2) by (simp add: progresses_def)
    then show ?thesis using cap [OF t, of k] cap [OF assms(2) c] w(1) k(1) by (cases c) auto
  qed
  ultimately show ?thesis using t k(2) by blast
qed

section \<open>Claims\<close>

text \<open>Claiming on a well-formed store takes the oldest queued job that nobody asked to cancel (ties by run
  identifier), marks it running and changes no other job. When there is none, it returns nothing, and every queued job
  with a cancellation request becomes cancelled; all other jobs stay as they are.\<close>

theorem claim_next_oldest:
  assumes "store_ok s"
  shows "if claimable s = []
    then \<exists>t. claim_next s = (Inr None, t) \<and> store_ok t
      \<and> (\<forall>r. if r \<in> aj_run_id ` set (stale s) then \<exists>k. job_of t r = Some k \<and> aj_status k = ST_CANCELLED
             else job_of t r = job_of s r)
    else \<exists>j k t. j \<in> set (claimable s) \<and> (\<forall>i \<in> set (claimable s). claim_key j \<le> claim_key i)
      \<and> claim_next s = (Inr (Some k), t) \<and> store_ok t \<and> aj_status k = ST_RUNNING
      \<and> job_of t = (job_of s)(aj_run_id j \<mapsto> persisted k) \<and> aj_run_id k = aj_run_id j"
proof (cases "claimable s = []")
  case True
  then show ?thesis using claim_next_none [OF assms] by simp
next
  case False
  then obtain j js where js: "sort_key claim_key (claimable s) = j # js"
    by (cases "sort_key claim_key (claimable s)") (metis set_empty set_sort, blast)
  let ?u = "no_update\<lparr>ju_status := Some ST_RUNNING\<rparr>"
  let ?k = "updated_job ?u s j" and ?t = "update_store (aj_run_id j) ?u j s"
  have j: "j \<in> set (claimable s)" using js by (metis list.set_intros(1) set_sort)
  then have of: "job_of s (aj_run_id j) = Some j" using all_jobs_set [OF assms] by (simp add: claimable_def)
  have "sorted (map claim_key (j # js))" using js by (metis sorted_sort_key)
  moreover have "set (claimable s) = set (j # js)" using js by (metis set_sort)
  ultimately have "\<forall>i \<in> set (claimable s). claim_key j \<le> claim_key i" by auto
  moreover have "claim_next s = (Inr (Some ?k), ?t)" using claim_next_some [OF assms js] by (simp add: Let_def)
  moreover have "store_ok ?t" using update_store_ok [OF assms of] by simp
  moreover have "job_of ?t = (job_of s)(aj_run_id j \<mapsto> persisted ?k)" by (simp add: fun_eq_iff update_store_job)
  moreover have "aj_status ?k = ST_RUNNING" "aj_run_id ?k = aj_run_id j" by simp_all
  ultimately show ?thesis unfolding if_not_P [OF False] using j by blast
qed

text \<open>A store with two queued jobs, the older one second by name.\<close>

definition stored :: "analysis_job \<Rightarrow> string \<times> job_dir" where
  "stored j = (aj_run_id j, \<lparr>jd_status = Some (j\<lparr>aj_capture_sha256 := Some (sha256_bytes [212, 195, 178, 161])\<rparr>),
     jd_capture = Some (''capture.'' @ aj_capture_format j, [212, 195, 178, 161]), jd_artifacts = [], jd_cancel_flag = False\<rparr>)"

definition two_jobs :: job_store where
  "two_jobs = empty_store\<lparr>js_jobs := [stored (sample_job\<lparr>aj_created_at := \<lparr>dt_wall = 1000000, dt_offset = Some 0\<rparr>\<rparr>),
     stored (sample_job\<lparr>aj_run_id := ''r2''\<rparr>)]\<rparr>"

lemma sample_jobs_ok:
  "analysis_job_ok (sample_job\<lparr>aj_capture_sha256 := Some (sha256_bytes b)\<rparr>)" "is_identifier ''r2''"
  by (simp_all add: analysis_job_ok_def sample_job_def len_in_def is_alpha_def is_digit_def is_id_char_def opt_ok_def)

lemma stored_ok: "analysis_job_ok (j\<lparr>aj_capture_sha256 := Some (sha256_bytes [212, 195, 178, 161])\<rparr>) \<Longrightarrow> persisted j = j \<Longrightarrow>
    dir_ok (fst (stored j)) (snd (stored j))"
proof -
  assume ok: "analysis_job_ok (j\<lparr>aj_capture_sha256 := Some (sha256_bytes [212, 195, 178, 161])\<rparr>)" and p: "persisted j = j"
  have "persisted (j\<lparr>aj_capture_sha256 := Some (sha256_bytes [212, 195, 178, 161])\<rparr>) = (persisted j)\<lparr>aj_capture_sha256 := Some (sha256_bytes [212, 195, 178, 161])\<rparr>"
    by (simp add: persisted_def)
  then show ?thesis using ok p by (auto simp: dir_ok_def stored_def analysis_job_ok_def)
qed

lemma two_jobs_ok: "store_ok two_jobs"
proof -
  have "persisted sample_job = sample_job" by (simp add: persisted_def sample_job_def to_second_def dt_instant_def)
  then have "persisted (sample_job\<lparr>aj_run_id := ''r2''\<rparr>) = sample_job\<lparr>aj_run_id := ''r2''\<rparr>"
    "persisted (sample_job\<lparr>aj_created_at := \<lparr>dt_wall = 1000000, dt_offset = Some 0\<rparr>\<rparr>)
       = sample_job\<lparr>aj_created_at := \<lparr>dt_wall = 1000000, dt_offset = Some 0\<rparr>\<rparr>"
    by (simp_all add: persisted_def sample_job_def to_second_def dt_instant_def)
  moreover have "analysis_job_ok (sample_job\<lparr>aj_run_id := ''r2'', aj_capture_sha256 := Some (sha256_bytes [212, 195, 178, 161])\<rparr>)"
    "analysis_job_ok (sample_job\<lparr>aj_created_at := x, aj_capture_sha256 := Some (sha256_bytes [212, 195, 178, 161])\<rparr>)" for x
    using sample_jobs_ok by (simp_all add: analysis_job_ok_def)
  ultimately have "dir_ok (fst (stored (sample_job\<lparr>aj_run_id := ''r2''\<rparr>))) (snd (stored (sample_job\<lparr>aj_run_id := ''r2''\<rparr>)))"
    "dir_ok (fst (stored (sample_job\<lparr>aj_created_at := \<lparr>dt_wall = 1000000, dt_offset = Some 0\<rparr>\<rparr>)))
       (snd (stored (sample_job\<lparr>aj_created_at := \<lparr>dt_wall = 1000000, dt_offset = Some 0\<rparr>\<rparr>)))"
    by (simp_all add: stored_ok)
  then show ?thesis by (auto simp: store_ok_def two_jobs_def empty_store_def stored_def sample_job_def)
qed

lemma two_jobs_of:
  "job_of two_jobs ''r1'' = Some (sample_job\<lparr>aj_created_at := \<lparr>dt_wall = 1000000, dt_offset = Some 0\<rparr>,
     aj_capture_sha256 := Some (sha256_bytes [212, 195, 178, 161])\<rparr>)"
  "job_of two_jobs ''r2'' = Some (sample_job\<lparr>aj_run_id := ''r2'', aj_capture_sha256 := Some (sha256_bytes [212, 195, 178, 161])\<rparr>)"
  by (simp_all add: job_of_def two_jobs_def stored_def sample_job_def)

theorem jobs_only_move_forward_witness:
  "\<exists>t k. job_step\<^sup>*\<^sup>* two_jobs t \<and> request_cancel ''r1'' two_jobs = (Inr k, t) \<and> store_ok t
    \<and> (\<exists>k. job_of t ''r2'' = Some k \<and> aj_case_id k = ''c1'')"
proof -
  obtain k t where kt: "request_cancel ''r1'' two_jobs = (Inr k, t)"
    using two_jobs_of(1) by (simp add: request_cancel_eq [OF two_jobs_ok] Let_def is_terminal_def sample_job_def)
  then have "job_step\<^sup>*\<^sup>* two_jobs t" by (intro r_into_rtranclp) (auto simp: job_step_def intro: api_cancel)
  then show ?thesis
    using jobs_only_move_forward [OF _ two_jobs_ok two_jobs_of(2)] kt by (fastforce simp: progresses_def sample_job_def)
qed

theorem claim_next_oldest_witness:
  "\<exists>k t. claim_next two_jobs = (Inr (Some k), t) \<and> aj_run_id k \<in> {''r1'', ''r2''} \<and> aj_status k = ST_RUNNING"
proof -
  let ?j = "sample_job\<lparr>aj_run_id := ''r2'', aj_capture_sha256 := Some (sha256_bytes [212, 195, 178, 161])\<rparr>"
  have "?j \<in> set (all_jobs two_jobs)"
    using two_jobs_of(2) by (simp add: all_jobs_set [OF two_jobs_ok])
  then have "?j \<in> set (claimable two_jobs)" by (simp add: claimable_def) (simp add: sample_job_def)
  then have "claimable two_jobs \<noteq> []" by (metis empty_iff empty_set)
  then obtain j k t where *: "j \<in> set (claimable two_jobs)" "claim_next two_jobs = (Inr (Some k), t)"
      "aj_status k = ST_RUNNING" "aj_run_id k = aj_run_id j"
    using claim_next_oldest [OF two_jobs_ok] by auto
  have "job_of two_jobs (aj_run_id j) = Some j" using *(1) all_jobs_set [OF two_jobs_ok] by (simp add: claimable_def)
  then have "aj_run_id j \<in> {''r1'', ''r2''}"
    by (auto simp: job_of_def two_jobs_def stored_def sample_job_def split: if_splits)
  then show ?thesis using * by auto
qed

section \<open>Reads and writes that interleave\<close>

text \<open>Writing back a job that was read earlier keeps the store well formed.\<close>

lemma stale_update_ok:
  assumes "store_ok t" and "job_of t rid = Some k" and "progresses j k" and "store_ok s" and "job_of s rid = Some j"
    and "update_ok u"
  shows "store_ok (update_store rid u j t)"
proof (rule job_of_SomeE [OF assms(2)])
  fix d assume d: "map_of (js_jobs t) rid = Some d" "jd_status d = Some k" "the_dir rid t = d"
  have "analysis_job_ok (updated_job u t j)" "aj_run_id j = rid"
    using updated_job_ok [OF job_of_ok(1) [OF assms(4,5)] assms(6)] job_of_ok(2) [OF assms(4,5)] by auto
  with store_ok_dir [OF assms(1) d(1)] d(2) assms(3)
  have "dir_ok rid (d\<lparr>jd_status := Some (persisted (updated_job u t j)),
      jd_cancel_flag := set_opt (ju_cancel_requested u) (jd_cancel_flag d)\<rparr>)"
    by (auto simp: dir_ok_def progresses_def)
  then show ?thesis using assms(1) d by (auto simp: update_store_def Let_def intro!: write_dir_ok)
qed

text \<open>A cancellation can undo a completion. The API's update reads a running job; before it writes, the worker
  completes the job; the API then writes its copy back. The job, whose completed status had been stored, is stored as
  running again with a cancellation request, and since only queued jobs are claimed, no worker will look at it: no
  interleaving of whole operations can do that.\<close>

theorem cancel_undoes_completion:
  assumes "store_ok s" and "job_of s rid = Some j" and "aj_status j = ST_RUNNING"
  defines "done \<equiv> snd (update_job rid (no_update\<lparr>ju_status := Some ST_COMPLETED\<rparr>) s)"
  defines "late \<equiv> snd (write_update rid (no_update\<lparr>ju_cancel_requested := Some True\<rparr>) j done)"
  shows "get_job rid s = Inr (Some j)
    \<and> (\<exists>k. job_of done rid = Some k \<and> aj_status k = ST_COMPLETED)
    \<and> (\<exists>k. job_of late rid = Some k \<and> aj_status k = ST_RUNNING \<and> aj_cancel_requested k)
    \<and> rid \<notin> aj_run_id ` set (claimable late) \<and> \<not> job_step\<^sup>*\<^sup>* done late"
proof -
  let ?c = "no_update\<lparr>ju_status := Some ST_COMPLETED\<rparr>" and ?x = "no_update\<lparr>ju_cancel_requested := Some True\<rparr>"
  have nt: "\<not> is_terminal j" using assms(3) by (simp add: is_terminal_def)
  have d: "done = update_store rid ?c j s"
    unfolding done_def using assms(2) nt by (simp add: update_job_eq [OF assms(1)])
  have ok: "store_ok done" unfolding d by (rule update_store_ok [OF assms(1,2)]) simp
  have l: "late = update_store rid ?x j done" unfolding late_def by (simp add: write_update_eq)
  have jd: "job_of done rid = Some (persisted (updated_job ?c s j))" by (simp add: d update_store_job)
  have jl: "job_of late rid = Some (persisted (updated_job ?x done j))" by (simp add: l update_store_job)
  have "\<not> job_step\<^sup>*\<^sup>* done late"
  proof
    assume "job_step\<^sup>*\<^sup>* done late"
    moreover obtain c where "job_view done rid = Some (persisted (updated_job ?c s j), c)" using job_of_view [OF jd] by blast
    ultimately have "\<exists>w. job_view late rid = Some w \<and> view_forward (persisted (updated_job ?c s j), c) w"
      using jobs.reach_forward [OF _ ok] by blast
    then show False
      using jl assms(3) by (auto simp: job_view_job_of view_forward_def progresses_def is_terminal_def)
  qed
  moreover have "rid \<notin> aj_run_id ` set (claimable late)"
  proof
    assume "rid \<in> aj_run_id ` set (claimable late)"
    then obtain k where k: "k \<in> set (all_jobs late)" "aj_status k = ST_QUEUED" "aj_run_id k = rid"
      by (auto simp: claimable_def)
    have "store_ok late"
      unfolding l using stale_update_ok [OF ok jd _ assms(1,2)] progresses_update [of ?c j s] nt by simp
    then have "job_of late rid = Some k" using k all_jobs_set by blast
    then show False using jl assms(3) k(2) by auto
  qed
  ultimately show ?thesis using jd jl assms(3) get_job_eq [OF assms(1)] assms(2) by simp
qed

text \<open>A store whose job is running.\<close>

definition running_store :: job_store where
  "running_store = snd (claim_next two_jobs)"

lemma running_store_ok: "store_ok running_store \<and> (\<exists>rid j. job_of running_store rid = Some j \<and> aj_status j = ST_RUNNING)"
proof -
  have "sort_key claim_key (claimable two_jobs) \<noteq> []"
    by (simp add: claimable_def all_jobs_def two_jobs_def stored_def List.map_filter_def sample_job_def)
  then obtain j js where js: "sort_key claim_key (claimable two_jobs) = j # js" by (meson neq_Nil_conv)
  have ok: "store_ok running_store"
    unfolding running_store_def using claim_next_keeps two_jobs_ok by (simp add: keeps_def)
  have "job_of running_store (aj_run_id j) = Some (persisted (updated_job (no_update\<lparr>ju_status := Some ST_RUNNING\<rparr>) two_jobs j))"
    unfolding running_store_def by (simp add: claim_next_some [OF two_jobs_ok js] Let_def update_store_job)
  then show ?thesis using ok by fastforce
qed

theorem cancel_undoes_completion_witness:
  "\<exists>rid j. job_of running_store rid = Some j \<and> (\<exists>k. job_of (snd (write_update rid (no_update\<lparr>ju_cancel_requested := Some True\<rparr>) j
      (snd (update_job rid (no_update\<lparr>ju_status := Some ST_COMPLETED\<rparr>) running_store)))) rid = Some k \<and> aj_status k = ST_RUNNING)"
proof -
  obtain rid j where "job_of running_store rid = Some j" "aj_status j = ST_RUNNING" using running_store_ok by blast
  then show ?thesis using cancel_undoes_completion [of running_store rid j] running_store_ok by blast
qed

text \<open>Two workers can claim the same job. Both list the store before either writes; each then runs its own
  claim loop on what it listed. Both return the oldest job as claimed.\<close>

theorem two_workers_claim_one_job:
  assumes "store_ok s" and "claimable s \<noteq> []"
  defines "queued \<equiv> sort_key claim_key (claimable s)"
  shows "\<exists>j k s1 s2. claim_loop queued s = (Inr (Some j), s1) \<and> claim_loop queued s1 = (Inr (Some k), s2)
    \<and> aj_run_id j = aj_run_id k \<and> aj_status j = ST_RUNNING \<and> aj_status k = ST_RUNNING"
proof -
  let ?u = "no_update\<lparr>ju_status := Some ST_RUNNING\<rparr>"
  obtain i js where q: "queued = i # js"
    using assms(2) unfolding queued_def by (cases "sort_key claim_key (claimable s)") (metis set_empty set_sort, blast)
  then have "i \<in> set (claimable s)" unfolding queued_def by (metis list.set_intros(1) set_sort)
  then have i: "job_of s (aj_run_id i) = Some i" "aj_status i = ST_QUEUED"
    using all_jobs_set [OF assms(1)] by (simp_all add: claimable_def)
  let ?j = "updated_job ?u s i" and ?t = "update_store (aj_run_id i) ?u i s"
  have a: "claim_loop queued s = (Inr (Some ?j), ?t)"
    using i queued_not_terminal [OF i(2)] by (simp add: q op_defs update_job_eq [OF assms(1)])
  have t: "store_ok ?t" using update_store_ok [OF assms(1) i(1)] by simp
  have jt: "job_of ?t (aj_run_id i) = Some (persisted ?j)" by (simp add: update_store_job)
  have "claim_loop queued ?t = (Inr (Some (updated_job ?u ?t (persisted ?j))), update_store (aj_run_id i) ?u (persisted ?j) ?t)"
    using jt by (simp add: q op_defs update_job_eq [OF t] is_terminal_def)
  then show ?thesis using a by (intro exI conjI) (assumption, assumption, simp_all)
qed

theorem two_workers_claim_one_job_witness:
  "\<exists>j k s1 s2. claim_loop (sort_key claim_key (claimable two_jobs)) two_jobs = (Inr (Some j), s1)
    \<and> claim_loop (sort_key claim_key (claimable two_jobs)) s1 = (Inr (Some k), s2) \<and> aj_run_id j = aj_run_id k"
proof -
  have "claimable two_jobs \<noteq> []"
    by (simp add: claimable_def all_jobs_def two_jobs_def stored_def List.map_filter_def sample_job_def)
  then show ?thesis using two_workers_claim_one_job [OF two_jobs_ok] by blast
qed

end
