(* ===== verification/Catalog.thy ===== *)
theory Catalog
  imports Jobs Json
begin

text \<open>
  The report catalog: the publisher (\<open>adapters/persistence/writable_catalog.py\<close>), which writes a report and
  replaces \<open>catalog.json\<close>, and the read-only repository (\<open>adapters/persistence/report_repository.py\<close>),
  which trusts only what the catalog names.

  The report root is a directory of plain files without symbolic links. A report file is named by the
  components of its path below the root. The catalog file holds a JSON value and the length of its text,
  or text that does not decode.

  Shown here: what is published can be read back, other reports are unaffected, and a full catalog
  refuses a new case but keeps serving the old ones.
\<close>

section \<open>JSON text\<close>

text \<open>The length of \<open>json.dumps(v, indent=2)\<close> at an indentation; sorting keys does not change it.\<close>

fun json_text_size :: "nat \<Rightarrow> json \<Rightarrow> nat" where
  "json_text_size ind JNull = 4"
| "json_text_size ind (JBool b) = json_bool_size b"
| "json_text_size ind (JInt i) = length (py_str_int i)"
| "json_text_size ind (JFloat r) = 0"
| "json_text_size ind (JStr s) = json_str_size s"
| "json_text_size ind (JList xs) = (if xs = [] then 2
     else 2 + sum_list (map (\<lambda>x. ind + 2 + json_text_size (ind + 2) x) xs) + 2 * (length xs - 1) + 1 + ind + 1)"
| "json_text_size ind (JObj kvs) = (if kvs = [] then 2
     else 2 + sum_list (map (\<lambda>(k, v). ind + 2 + json_str_size k + 2 + json_text_size (ind + 2) v) kvs)
       + 2 * (length kvs - 1) + 1 + ind + 1)"

section \<open>The report root\<close>

datatype catalog_file = CAT_TEXT nat | CAT_JSON json nat

record report_root =
  rr_exists :: bool
  rr_files :: "(string list, bytes) dict"
  rr_catalog :: "catalog_file option"
  rr_max_report_bytes :: nat
  rr_max_report_count :: nat

definition catalog_schema_version :: string where
  "catalog_schema_version = ''securemail.report-catalog/v1''"

abbreviation max_catalog_bytes :: nat where "max_catalog_bytes \<equiv> 1048576"

definition catalog_size :: "catalog_file \<Rightarrow> nat" where
  "catalog_size c = (case c of CAT_TEXT n \<Rightarrow> n | CAT_JSON v n \<Rightarrow> n)"

section \<open>Reading (report\_repository.py)\<close>

text \<open>\<open>_Catalog.model_validate\<close>: exactly the declared fields, with their bounds.\<close>

definition has_fields :: "string list \<Rightarrow> json_row \<Rightarrow> bool" where
  "has_fields names r = (set (map fst r) = set names)"

fun catalog_item :: "json \<Rightarrow> (string \<times> string) result" where
  "catalog_item (JObj r) =
     (case (row_get r ''case_id'', row_get r ''report'') of
        (JStr c, JStr p) \<Rightarrow> check_model (has_fields [''case_id'', ''report''] r \<and> len_in 1 160 c \<and> len_in 1 512 p) (c, p)
      | _ \<Rightarrow> Inl ValidationError)"
| "catalog_item _ = Inl ValidationError"

fun parse_catalog :: "json \<Rightarrow> (string \<times> (string \<times> string) list) result" where
  "parse_catalog (JObj r) =
     (case (row_get r ''schema_version'', row_get r ''reports'') of
        (JStr v, JList xs) \<Rightarrow>
          if has_fields [''schema_version'', ''reports''] r then bindE (mapE catalog_item xs) (\<lambda>items. Inr (v, items))
          else Inl ValidationError
      | _ \<Rightarrow> Inl ValidationError)"
| "parse_catalog _ = Inl ValidationError"

text \<open>\<open>PurePath(raw).parts\<close> without the root, and \<open>suffix\<close>.\<close>

definition path_parts :: "string \<Rightarrow> string list" where
  "path_parts raw = filter (\<lambda>p. p \<noteq> [] \<and> p \<noteq> ''.'') (py_split (CHR ''/'') raw)"

definition path_suffix :: "string \<Rightarrow> string" where
  "path_suffix name =
    (if CHR ''.'' \<in> set name
     then (let stem = before_last (CHR ''.'') name; ext = drop (length stem) name
           in if stem \<noteq> [] \<and> ext \<noteq> ''.'' then ext else [])
     else [])"

definition validated_report_path :: "string \<Rightarrow> string list result" where
  "validated_report_path raw =
    (let parts = path_parts raw in
     if py_startswith raw ''/'' \<or> ''..'' \<in> set parts then Inl ReportRepositoryError
     else if parts = [] \<or> py_lower (path_suffix (last parts)) \<noteq> ''.json'' then Inl ReportRepositoryError
     else if parts = [''catalog.json''] then Inl ReportRepositoryError
     else Inr parts)"

definition path_step :: "string \<times> string \<Rightarrow> (string, string list) dict \<Rightarrow> (string, string list) dict result" where
  "path_step item paths =
    (case item of (case_id, report) \<Rightarrow>
      if \<not> is_identifier case_id then Inl ReportRepositoryError
      else if map_of paths case_id \<noteq> None then Inl ReportRepositoryError
      else bindE (validated_report_path report) (\<lambda>path.
        if path \<in> snd ` set paths then Inl ReportRepositoryError
        else Inr (paths @ [(case_id, path)])))"

definition load_catalog_paths :: "report_root \<Rightarrow> (string, string list) dict result" where
  "load_catalog_paths r =
    (if \<not> rr_exists r then Inr []
     else case rr_catalog r of
       None \<Rightarrow> Inr []
     | Some c \<Rightarrow>
        if max_catalog_bytes < catalog_size c then Inl ReportRepositoryError
        else (case c of
          CAT_TEXT n \<Rightarrow> Inl ReportRepositoryError
        | CAT_JSON v n \<Rightarrow> (case parse_catalog v of
            Inl e \<Rightarrow> Inl ReportRepositoryError
          | Inr (version, items) \<Rightarrow>
              if version \<noteq> catalog_schema_version then Inl ReportRepositoryError
              else if rr_max_report_count r < length items then Inl ReportRepositoryError
              else foldE path_step items [])))"

definition read_bounded_report :: "report_root \<Rightarrow> string list \<Rightarrow> bytes result" where
  "read_bounded_report r path =
    (case map_of (rr_files r) path of
       None \<Rightarrow> Inl ReportRepositoryError
     | Some b \<Rightarrow> if rr_max_report_bytes r < length b then Inl ReportRepositoryError else Inr b)"

definition get_report :: "string \<Rightarrow> report_root \<Rightarrow> bytes option result" where
  "get_report case_id r =
    bindE (load_catalog_paths r) (\<lambda>paths. case map_of paths case_id of
      None \<Rightarrow> Inr None
    | Some path \<Rightarrow> bindE (read_bounded_report r path) (\<lambda>b. Inr (Some b)))"

record report_catalog_entry =
  rce_case_id :: string
  rce_size_bytes :: nat

definition list_reports :: "report_root \<Rightarrow> report_catalog_entry list result" where
  "list_reports r =
    bindE (load_catalog_paths r) (\<lambda>paths.
    bindE (mapE (\<lambda>(case_id, path). bindE (read_bounded_report r path) (\<lambda>b.
        Inr \<lparr>rce_case_id = case_id, rce_size_bytes = length b\<rparr>)) paths) (\<lambda>entries.
    Inr (sort_key rce_case_id entries)))"

section \<open>Publishing (writable\_catalog.py)\<close>

fun load_item :: "json \<Rightarrow> (string \<times> string) result" where
  "load_item (JObj r) =
     (case (map_of r ''case_id'', map_of r ''report'') of
        (Some (JStr c), Some (JStr p)) \<Rightarrow> Inr (c, p)
      | _ \<Rightarrow> Inl ReportRepositoryError)"
| "load_item _ = Inl ReportRepositoryError"

definition load_items :: "catalog_file option \<Rightarrow> (string \<times> string) list result" where
  "load_items c =
    (case c of
       None \<Rightarrow> Inr []
     | Some (CAT_TEXT n) \<Rightarrow> Inl ReportRepositoryError
     | Some (CAT_JSON (JObj r) n) \<Rightarrow>
         if row_get r ''schema_version'' \<noteq> JStr catalog_schema_version then Inl ReportRepositoryError
         else (case row_get r ''reports'' of
             JList xs \<Rightarrow> mapE load_item xs
           | _ \<Rightarrow> Inl ReportRepositoryError)
     | Some (CAT_JSON v n) \<Rightarrow> Inl ReportRepositoryError)"

definition catalog_json :: "(string \<times> string) list \<Rightarrow> json" where
  "catalog_json items = JObj [(''schema_version'', JStr catalog_schema_version),
     (''reports'', JList (map (\<lambda>(c, p). JObj [(''case_id'', JStr c), (''report'', JStr p)]) items))]"

definition catalog_of :: "(string \<times> string) list \<Rightarrow> catalog_file" where
  "catalog_of items = CAT_JSON (catalog_json items) (json_text_size 0 (catalog_json items) + 1)"

definition publish_report :: "string \<Rightarrow> bytes \<Rightarrow> (report_root, unit) op" where
  "publish_report case_id canonical =
    doS (guardS (is_identifier case_id) ReportRepositoryError) (\<lambda>_.
    doS (getS rr_max_report_bytes) (\<lambda>limit.
    doS (guardS (length canonical \<le> limit) ReportRepositoryError) (\<lambda>_.
    let filename = case_id @ ''.report.json'' in
    doS (modifyS (\<lambda>r. r\<lparr>rr_exists := True, rr_files := AList.update [filename] canonical (rr_files r)\<rparr>)) (\<lambda>_.
    doS (pureS (\<lambda>r. load_items (rr_catalog r))) (\<lambda>items.
    let items = sort_key fst (filter (\<lambda>(c, p). c \<noteq> case_id) items @ [(case_id, filename)]) in
    doS (getS rr_max_report_count) (\<lambda>count.
    doS (guardS (length items \<le> count) ReportRepositoryError) (\<lambda>_.
    modifyS (\<lambda>r. r\<lparr>rr_catalog := Some (catalog_of items)\<rparr>))))))))"

section \<open>Published catalogs\<close>

definition report_name :: "string \<Rightarrow> string" where
  "report_name c = c @ ''.report.json''"

definition items_for :: "string list \<Rightarrow> (string \<times> string) list" where
  "items_for cs = map (\<lambda>c. (c, report_name c)) cs"

text \<open>The root serves exactly the given cases.\<close>

definition serves :: "report_root \<Rightarrow> string list \<Rightarrow> bool" where
  "serves r cs = (distinct cs \<and> list_all is_identifier cs \<and> length cs \<le> rr_max_report_count r
     \<and> rr_max_report_count r \<le> 256
     \<and> (case rr_catalog r of None \<Rightarrow> cs = [] | Some f \<Rightarrow> rr_exists r \<and> f = catalog_of (items_for cs))
     \<and> list_all (\<lambda>c. \<exists>b. map_of (rr_files r) [report_name c] = Some b \<and> length b \<le> rr_max_report_bytes r) cs)"

lemma fst_items_for [simp]: "map fst (items_for cs) = cs"
  by (simp add: items_for_def comp_def)

lemma load_items_catalog: "load_items (Some (catalog_of (items_for cs))) = Inr (items_for cs)"
proof -
  have "mapE load_item (map (\<lambda>c. JObj [(''case_id'', JStr c), (''report'', JStr (report_name c))]) cs) = Inr (items_for cs)"
    unfolding items_for_def mapE_map by (rule mapE_total) simp
  then show ?thesis
    by (simp add: load_items_def catalog_of_def catalog_json_def row_get_def items_for_def comp_def)
qed

lemma report_name_length: "is_identifier c \<Longrightarrow> len_in 1 160 c \<and> len_in 1 512 (report_name c)"
  by (cases c) (auto simp: len_in_def report_name_def)

lemma parse_catalog_items:
  assumes "list_all is_identifier cs"
  shows "parse_catalog (catalog_json (items_for cs)) = Inr (catalog_schema_version, items_for cs)"
proof -
  have "mapE catalog_item (map (\<lambda>c. JObj [(''case_id'', JStr c), (''report'', JStr (report_name c))]) cs) = Inr (items_for cs)"
    unfolding items_for_def mapE_map using assms report_name_length
    by (intro mapE_total) (simp add: row_get_def has_fields_def list_all_iff)
  then show ?thesis
    by (simp add: catalog_json_def row_get_def has_fields_def items_for_def comp_def)
qed

text \<open>Every published file name is a valid catalog path.\<close>

lemma identifier_chars: "is_identifier c \<Longrightarrow> x \<in> set c \<Longrightarrow> is_id_char x"
  by (cases c) (auto simp: list_all_iff is_id_char_def)

lemma before_last_append: "d \<notin> set y \<Longrightarrow> before_last d (x @ d # y) = x"
proof -
  assume "d \<notin> set y"
  then have "c \<noteq> d" if "c \<in> set (rev y)" for c using that by auto
  then have "dropWhile (\<lambda>c. c \<noteq> d) (rev y @ d # rev x) = d # rev x" by (subst dropWhile_append2) auto
  then show ?thesis by (simp add: before_last_def)
qed

lemma validated_report_name:
  assumes "is_identifier c"
  shows "validated_report_path (report_name c) = Inr [report_name c]"
proof -
  obtain x xs where c: "c = x # xs" "is_alpha x \<or> is_digit x" using assms by (cases c) auto
  have "\<not> is_id_char (CHR ''/'')" by (simp add: is_id_char_def is_alpha_def is_digit_def)
  then have "CHR ''/'' \<notin> set c" using identifier_chars [OF assms] by blast
  then have "CHR ''/'' \<notin> set (report_name c)" by (simp add: report_name_def)
  then have sp: "py_split (CHR ''/'') (report_name c) = [report_name c]" by (rule py_split_single)
  have len: "length (report_name c) \<ge> 13" by (simp add: report_name_def c(1))
  then have ne: "report_name c \<noteq> []" "report_name c \<noteq> ''.''" "report_name c \<noteq> ''..''" "report_name c \<noteq> ''catalog.json''"
    by auto
  have parts: "path_parts (report_name c) = [report_name c]" unfolding path_parts_def sp using ne by simp
  have "before_last (CHR ''.'') ((c @ ''.report'') @ CHR ''.'' # ''json'') = c @ ''.report''" by (rule before_last_append) simp
  then have stem: "before_last (CHR ''.'') (report_name c) = c @ ''.report''" by (simp add: report_name_def)
  have suffix: "path_suffix (report_name c) = ''.json''"
    unfolding path_suffix_def stem Let_def by (simp add: report_name_def)
  have "x \<noteq> CHR ''/''" using c(2) by (auto simp: is_alpha_def is_digit_def)
  then have rel: "\<not> py_startswith (report_name c) ''/''" by (simp add: py_startswith_def report_name_def c(1))
  have "py_lower ''.json'' = ''.json''" by code_simp
  then show ?thesis using ne rel by (simp add: validated_report_path_def parts suffix)
qed

lemma path_step_items:
  assumes "list_all is_identifier cs" and "distinct (ds @ cs)"
  shows "foldE path_step (items_for cs) (map (\<lambda>c. (c, [report_name c])) ds) = Inr (map (\<lambda>c. (c, [report_name c])) (ds @ cs))"
  using assms
proof (induction cs arbitrary: ds)
  case (Cons c cs)
  have "map_of (map (\<lambda>c. (c, [report_name c])) ds) c = None" using Cons.prems(2) by (simp add: map_of_eq_None_iff image_image)
  moreover have "[report_name c] \<notin> snd ` set (map (\<lambda>c. (c, [report_name c])) ds)"
    using Cons.prems(2) by (auto simp: report_name_def)
  ultimately have "path_step (c, report_name c) (map (\<lambda>c. (c, [report_name c])) ds) =
      Inr (map (\<lambda>c. (c, [report_name c])) (ds @ [c]))"
    using Cons.prems(1) validated_report_name [of c] by (simp add: path_step_def)
  then show ?case using Cons.IH [of "ds @ [c]"] Cons.prems by (simp add: items_for_def)
qed (simp add: items_for_def)

text \<open>A catalog of at most 256 published reports stays below the size the repository reads.\<close>

lemma identifier_json_size: "is_identifier c \<Longrightarrow> json_str_size c \<le> 962"
  using json_str_size_le [of c 160] is_identifier_length [of c] by simp

lemma item_size:
  assumes "is_identifier c"
  shows "json_text_size 4 (JObj [(''case_id'', JStr c), (''report'', JStr (report_name c))]) \<le> 2100"
proof -
  have "json_str_size (report_name c) = json_str_size c + 12"
    by (simp add: report_name_def json_str_size_def json_char_size_def Let_def)
  moreover have "json_str_size ''case_id'' = 9" "json_str_size ''report'' = 8" by code_simp+
  ultimately show ?thesis using identifier_json_size [OF assms] by simp
qed

lemma catalog_of_size:
  assumes "list_all is_identifier cs" and "length cs \<le> 256"
  shows "catalog_size (catalog_of (items_for cs)) \<le> max_catalog_bytes"
proof -
  let ?item = "\<lambda>c. JObj [(''case_id'', JStr c), (''report'', JStr (report_name c))]"
  have "sum_list (map (\<lambda>c. 4 + json_text_size 4 (?item c)) cs) \<le> 2104 * length cs"
    using assms(1)
  proof (induction cs)
    case (Cons c cs)
    then show ?case using item_size [of c] by (simp del: json_text_size.simps)
  qed simp
  then have "json_text_size 2 (JList (map ?item cs)) \<le> 2104 * length cs + 2 * length cs + 10"
    by (cases cs) (simp_all add: comp_def del: json_text_size.simps(7))
  then have "json_text_size 2 (JList (map ?item cs)) \<le> 540000" using assms(2) by simp
  moreover have "json_str_size ''schema_version'' = 16" "json_str_size ''reports'' = 9"
    "json_str_size catalog_schema_version = 30" by code_simp+
  ultimately show ?thesis
    by (simp add: catalog_size_def catalog_of_def catalog_json_def items_for_def comp_def numeral_2_eq_2
        del: json_text_size.simps(6))
qed

lemma load_catalog_paths_serves:
  assumes "serves r cs"
  shows "load_catalog_paths r = Inr (map (\<lambda>c. (c, [report_name c])) cs)"
proof (cases "rr_catalog r")
  case None
  then show ?thesis using assms by (simp add: serves_def load_catalog_paths_def)
next
  case (Some f)
  then have f: "f = CAT_JSON (catalog_json (items_for cs)) (catalog_size f)" "rr_exists r" "distinct cs"
      "list_all is_identifier cs" "length cs \<le> rr_max_report_count r" "length cs \<le> 256" "f = catalog_of (items_for cs)"
    using assms by (auto simp: serves_def catalog_of_def catalog_size_def)
  have sz: "catalog_size f \<le> max_catalog_bytes" using catalog_of_size [OF f(4,6)] f(7) by simp
  have "load_catalog_paths r = foldE path_step (items_for cs) []"
    using Some f(2,5) sz parse_catalog_items [OF f(4)]
    by (simp add: load_catalog_paths_def f(7) catalog_of_def catalog_size_def items_for_def)
  then show ?thesis using path_step_items [of cs "[]"] f(3,4) by simp
qed

lemma map_of_names: "map_of (map (\<lambda>c. (c, [report_name c])) cs) c = (if c \<in> set cs then Some [report_name c] else None)"
  by (induction cs) auto

lemma get_report_serves:
  assumes "serves r cs"
  shows "get_report c r = Inr (if c \<in> set cs then map_of (rr_files r) [report_name c] else None)"
proof (cases "c \<in> set cs")
  case True
  then obtain b where "map_of (rr_files r) [report_name c] = Some b" "length b \<le> rr_max_report_bytes r"
    using assms by (auto simp: serves_def list_all_iff)
  then show ?thesis
    using True by (simp add: get_report_def load_catalog_paths_serves [OF assms] map_of_names read_bounded_report_def)
next
  case False
  then show ?thesis by (simp add: get_report_def load_catalog_paths_serves [OF assms] map_of_names)
qed

section \<open>Publishing\<close>

definition published :: "string \<Rightarrow> string list \<Rightarrow> string list" where
  "published c cs = sort (filter (\<lambda>d. d \<noteq> c) cs @ [c])"

lemma items_for_published:
  "sort_key fst (filter (\<lambda>(d, p). d \<noteq> c) (items_for cs) @ [(c, report_name c)]) = items_for (published c cs)"
proof -
  have f: "filter (\<lambda>(d, p). d \<noteq> c) (items_for cs) @ [(c, report_name c)] = items_for (filter (\<lambda>d. d \<noteq> c) cs @ [c])"
    by (simp add: items_for_def filter_map comp_def)
  have ins: "insort_key fst (d, report_name d) (items_for ds) = items_for (insort d ds)" for d ds
    by (induction ds) (simp_all add: items_for_def)
  have "sort_key fst (items_for ds) = items_for (sort ds)" for ds
  proof (induction ds)
    case (Cons d ds)
    have "sort_key fst (items_for (d # ds)) = insort_key fst (d, report_name d) (sort_key fst (items_for ds))"
      by (simp add: items_for_def)
    then show ?case by (simp add: Cons.IH ins)
  qed (simp add: items_for_def)
  then show ?thesis unfolding f published_def .
qed

lemma set_published [simp]: "set (published c cs) = insert c (set cs)"
  by (auto simp: published_def)

lemma distinct_published: "distinct cs \<Longrightarrow> distinct (published c cs)"
  by (simp add: published_def)

lemma length_published:
  "distinct cs \<Longrightarrow> length (published c cs) = (if c \<in> set cs then length cs else Suc (length cs))"
  using distinct_card [OF distinct_published, of cs c] distinct_card [of cs] by (simp add: card_insert_if split: if_splits)

lemma load_items_serves: "serves r cs \<Longrightarrow> load_items (rr_catalog r) = Inr (items_for cs)"
  by (cases "rr_catalog r") (simp_all add: serves_def load_items_catalog, simp add: load_items_def items_for_def)

text \<open>Publishing on a root that serves \<open>cs\<close>, in closed form.\<close>

definition with_report :: "string \<Rightarrow> bytes \<Rightarrow> report_root \<Rightarrow> report_root" where
  "with_report c b r = r\<lparr>rr_exists := True, rr_files := AList.update [report_name c] b (rr_files r)\<rparr>"

lemma publish_report_serves:
  assumes "serves r cs" and "is_identifier c" and "length b \<le> rr_max_report_bytes r"
  shows "publish_report c b r =
    (if length (published c cs) \<le> rr_max_report_count r
     then (Inr (), (with_report c b r)\<lparr>rr_catalog := Some (catalog_of (items_for (published c cs)))\<rparr>)
     else (Inl ReportRepositoryError, with_report c b r))"
proof -
  have len: "length (sort_key fst (filter (\<lambda>(d, p). d \<noteq> c) (items_for cs) @ [(c, report_name c)])) = length (published c cs)"
    unfolding items_for_published by (simp add: items_for_def)
  have "load_items (rr_catalog (with_report c b r)) = Inr (items_for cs)"
    using load_items_serves [OF assms(1)] by (simp add: with_report_def)
  then show ?thesis
    using assms(2,3) len
    by (simp add: publish_report_def op_defs Let_def with_report_def items_for_published report_name_def [symmetric]
        del: is_identifier.simps length_sort)
qed

lemma serves_with_report:
  assumes "serves r cs" and "length b \<le> rr_max_report_bytes r"
  shows "serves (with_report c b r) cs"
  using assms
  by (auto simp: serves_def with_report_def list_all_iff AList.update_conv' split: option.splits)

lemma serves_published:
  assumes "serves r cs" and "is_identifier c" and "length b \<le> rr_max_report_bytes r"
    and "length (published c cs) \<le> rr_max_report_count r"
  shows "serves ((with_report c b r)\<lparr>rr_catalog := Some (catalog_of (items_for (published c cs)))\<rparr>) (published c cs)"
  using assms distinct_published [of cs c]
  by (auto simp: serves_def with_report_def list_all_iff AList.update_conv')

lemma publish_outcome:
  assumes "serves r cs" and "is_identifier c" and "length b \<le> rr_max_report_bytes r"
  defines "out \<equiv> publish_report c b r"
  shows "if c \<in> set cs \<or> length cs < rr_max_report_count r
    then fst out = Inr () \<and> serves (snd out) (published c cs) \<and> get_report c (snd out) = Inr (Some b)
      \<and> (\<forall>d. d \<noteq> c \<longrightarrow> get_report d (snd out) = get_report d r)
    else fst out = Inl ReportRepositoryError \<and> serves (snd out) cs \<and> (\<forall>d. get_report d (snd out) = get_report d r)"
proof -
  have cs: "distinct cs" "length cs \<le> rr_max_report_count r" using assms(1) by (simp_all add: serves_def)
  have other: "map_of (rr_files (with_report c b r)) [report_name d] = map_of (rr_files r) [report_name d]" if "d \<noteq> c" for d
    using that by (simp add: with_report_def AList.update_conv' report_name_def)
  have own: "map_of (rr_files (with_report c b r)) [report_name c] = Some b"
    by (simp add: with_report_def AList.update_conv')
  note eq = publish_report_serves [OF assms(1-3), folded out_def]
  show ?thesis
  proof (cases "c \<in> set cs \<or> length cs < rr_max_report_count r")
    case True
    then have fits: "length (published c cs) \<le> rr_max_report_count r"
      using cs length_published [OF cs(1), of c] by auto
    note sv = serves_published [OF assms(1-3) fits]
    show ?thesis using True fits eq sv get_report_serves [OF sv] get_report_serves [OF assms(1)] own other by simp
  next
    case False
    then have full: "\<not> length (published c cs) \<le> rr_max_report_count r"
      using cs length_published [OF cs(1), of c] by auto
    note sv = serves_with_report [OF assms(1,3), of c]
    have "get_report d (with_report c b r) = get_report d r" for d
      using get_report_serves [OF sv, of d] get_report_serves [OF assms(1), of d] other [of d] False by auto
    then show ?thesis using False full eq sv by simp
  qed
qed

text \<open>The publisher refuses what is too large or not named by an identifier before it writes anything.\<close>

lemma publish_refused:
  "\<not> is_identifier c \<or> rr_max_report_bytes r < length b \<Longrightarrow> publish_report c b r = (Inl ReportRepositoryError, r)"
  by (auto simp: publish_report_def op_defs Let_def)

lemma publish_serves:
  assumes "serves r cs" and "publish_report c b r = (x, t)"
  shows "\<exists>ds. serves t ds" and "x = Inr () \<Longrightarrow> get_report c t = Inr (Some b)"
proof -
  have "(\<exists>ds. serves t ds) \<and> (x = Inr () \<longrightarrow> get_report c t = Inr (Some b))"
  proof (cases "is_identifier c \<and> length b \<le> rr_max_report_bytes r")
    case True
    then show ?thesis using publish_outcome [OF assms(1), of c b] assms(2) by (auto split: if_splits)
  next
    case False
    then show ?thesis using publish_refused [of c r b] assms by auto
  qed
  then show "\<exists>ds. serves t ds" "x = Inr () \<Longrightarrow> get_report c t = Inr (Some b)" by blast+
qed

text \<open>C30: On a report root that serves the cases \<open>cs\<close>, publishing a report for a case within the byte limit
  either succeeds, and then the repository returns exactly the published bytes for that case and what it
  returned before for every other case; or the case is new and the catalog is full, and then the publisher
  reports an error and every case is served as before. Either way the repository keeps working: publishing
  never leaves a catalog the repository refuses to read.\<close>

theorem publish_then_get:
  assumes "serves r cs" and "is_identifier c" and "length b \<le> rr_max_report_bytes r"
  defines "out \<equiv> publish_report c b r"
  shows "if c \<in> set cs \<or> length cs < rr_max_report_count r
    then fst out = Inr () \<and> serves (snd out) (published c cs) \<and> get_report c (snd out) = Inr (Some b)
      \<and> (\<forall>d. d \<noteq> c \<longrightarrow> get_report d (snd out) = get_report d r)
    else fst out = Inl ReportRepositoryError \<and> serves (snd out) cs \<and> (\<forall>d. get_report d (snd out) = get_report d r)"
  unfolding out_def by (rule publish_outcome [OF assms(1-3)])

definition sample_root :: report_root where
  "sample_root = \<lparr>rr_exists = False, rr_files = [], rr_catalog = None, rr_max_report_bytes = 1000, rr_max_report_count = 1\<rparr>"

theorem publish_then_get_witness:
  "get_report ''case-1'' (snd (publish_report ''case-1'' [123, 125] sample_root)) = Inr (Some [123, 125])
   \<and> get_report ''case-2'' (snd (publish_report ''case-1'' [123, 125] sample_root)) = Inr None"
proof -
  have sv: "serves sample_root []" by (simp add: serves_def sample_root_def)
  have id: "is_identifier ''case-1''" by code_simp
  have old: "get_report ''case-2'' sample_root = Inr None" by (simp add: get_report_serves [OF sv])
  have lim: "length [123, 125 :: int] \<le> rr_max_report_bytes sample_root" "0 < rr_max_report_count sample_root"
    by (simp_all add: sample_root_def)
  show ?thesis using publish_then_get [OF sv id lim(1)] lim(2) old by simp
qed

end
