(* ===== verification/Reports.thy ===== *)
theory Reports
  imports Evidence Scoring Hashing Jobs
begin

text \<open>
  Canonical reports: the evidence document (\<open>domain/evidence/run.py\<close>), the report envelope and its
  validators (\<open>domain/reports/schema.py\<close>), assembling a report from a finished document
  (\<open>application/assemble_report.py\<close>) and deriving the requested artifacts from it
  (\<open>application/render_report.py\<close>).

  Literal fields (schema versions, renderer names, time zone) have one value and no field here. A report
  stands for its JSON payload, \<open>model_dump(mode="json")\<close>, which is a function of it; the canonicalizer and the
  two renderers are parameters on it.

  Shown here: assembling succeeds exactly when the capture's file name fits the artifact list, and what it
  builds passes every validator of the schema; the list of formats a user asks for is parsed without loss; HTML and
  PDF come from one payload.
\<close>

section \<open>Evidence documents (run.py)\<close>

record evidence_document =
  ed_run_identity :: analysis_run
  ed_capture_preflight :: capture_preflight
  ed_flows :: "flow list"
  ed_sessions :: "email_session list"
  ed_handshakes :: "tls_handshake list"
  ed_certificates :: "certificate_evidence list"
  ed_findings :: "finding list"
  ed_policy_checks :: "policy_check list"
  ed_posture :: posture_assessment

definition analysis_run_ok :: "analysis_run \<Rightarrow> bool" where
  "analysis_run_ok r = (is_sha256_hex (ar_capture_sha256 r) \<and> is_sha256_hex (ar_analyzer_bundle_digest r)
     \<and> is_sha256_hex (ar_configuration_digest r) \<and> is_sha256_hex (ar_policy_pack_version r))"

definition evidence_document_ok :: "evidence_document \<Rightarrow> bool" where
  "evidence_document_ok d = (analysis_run_ok (ed_run_identity d) \<and> list_all finding_ok (ed_findings d)
     \<and> list_all policy_check_ok (ed_policy_checks d) \<and> length (ed_policy_checks d) \<le> 16384
     \<and> posture_ok (ed_posture d))"

section \<open>The report schema (schema.py)\<close>

datatype availability = AV_PRESENT | AV_UNAVAILABLE | AV_NOT_APPLICABLE

datatype source_record_kind = SR_CASE | SR_CAPTURE | SR_ANALYSIS_RUN

record source_record =
  sr_kind :: source_record_kind
  sr_identifier :: "string option"
  sr_availability :: availability

definition source_record_ok :: "source_record \<Rightarrow> bool" where
  "source_record_ok r = opt_ok (\<lambda>i. length i \<le> 160) (sr_identifier r)"

record artifact_hash =
  ah_name :: string
  ah_sha256 :: "string option"
  ah_availability :: availability

definition artifact_hash_ok :: "artifact_hash \<Rightarrow> bool" where
  "artifact_hash_ok a = (len_in 1 160 (ah_name a) \<and> opt_ok is_sha256_hex (ah_sha256 a)
     \<and> (ah_availability a = AV_PRESENT \<longleftrightarrow> ah_sha256 a \<noteq> None))"

datatype font_style = FT_NORMAL | FT_ITALIC

record font_resource =
  fr_filename :: string
  fr_sha256 :: string
  fr_family :: string
  fr_weight :: nat
  fr_style :: font_style

definition font_resource_ok :: "font_resource \<Rightarrow> bool" where
  "font_resource_ok f = (len_in 1 160 (fr_filename f) \<and> is_sha256_hex (fr_sha256 f) \<and> len_in 1 80 (fr_family f)
     \<and> 100 \<le> fr_weight f \<and> fr_weight f \<le> 900)"

record renderer_manifest =
  rm_pdf_renderer_version :: string
  rm_template_sha256 :: string
  rm_fonts :: "font_resource list"

definition renderer_manifest_ok :: "renderer_manifest \<Rightarrow> bool" where
  "renderer_manifest_ok m = (len_in 1 32 (rm_pdf_renderer_version m) \<and> is_sha256_hex (rm_template_sha256 m)
     \<and> len_in 1 16 (rm_fonts m) \<and> list_all font_resource_ok (rm_fonts m))"

record signature_metadata =
  sm_algorithm :: "string option"
  sm_timestamp :: "py_datetime option"

record posture_summary =
  ps_assessment_state :: assessment_state
  ps_risk_score :: "nat option"
  ps_finding_count :: nat
  ps_unknown_count :: nat
  ps_not_observable_count :: nat

definition posture_summary_ok :: "posture_summary \<Rightarrow> bool" where
  "posture_summary_ok s = opt_ok (\<lambda>r. r \<le> 100) (ps_risk_score s)"

record report_manifest =
  rp_generated_at :: py_datetime
  rp_case_id :: "string option"
  rp_capture_id :: "string option"
  rp_analysis_run_id :: "string option"
  rp_source_capture_sha256 :: string
  rp_working_copy_sha256 :: "string option"
  rp_working_copy_availability :: availability
  rp_source_records :: "source_record list"
  rp_artifact_hashes :: "artifact_hash list"
  rp_renderer :: renderer_manifest
  rp_signature :: signature_metadata
  rp_posture_summary :: posture_summary
  rp_random_seed :: "string option"
  rp_configuration_digest :: string
  rp_analyzer_bundle_digest :: string
  rp_policy_profile :: string
  rp_policy_pack_version :: string
  rp_trust_store_digest :: "string option"
  rp_os_container :: "string option"
  rp_os_container_availability :: availability
  rp_dependency_versions :: "(string, string) dict"

definition report_manifest_ok :: "report_manifest \<Rightarrow> bool" where
  "report_manifest_ok m =
    (opt_ok (\<lambda>s. length s \<le> 160) (rp_case_id m) \<and> opt_ok (\<lambda>s. length s \<le> 160) (rp_capture_id m)
     \<and> opt_ok (\<lambda>s. length s \<le> 160) (rp_analysis_run_id m) \<and> is_sha256_hex (rp_source_capture_sha256 m)
     \<and> opt_ok is_sha256_hex (rp_working_copy_sha256 m)
     \<and> len_in 1 16 (rp_source_records m) \<and> list_all source_record_ok (rp_source_records m)
     \<and> length (rp_artifact_hashes m) \<le> 32 \<and> list_all artifact_hash_ok (rp_artifact_hashes m)
     \<and> renderer_manifest_ok (rp_renderer m) \<and> posture_summary_ok (rp_posture_summary m)
     \<and> opt_ok (\<lambda>s. length s \<le> 64) (rp_random_seed m) \<and> is_sha256_hex (rp_configuration_digest m)
     \<and> is_sha256_hex (rp_analyzer_bundle_digest m) \<and> len_in 1 64 (rp_policy_profile m)
     \<and> is_sha256_hex (rp_policy_pack_version m) \<and> opt_ok is_sha256_hex (rp_trust_store_digest m)
     \<and> opt_ok (\<lambda>s. length s \<le> 160) (rp_os_container m) \<and> length (rp_dependency_versions m) \<le> 32
     \<and> (rp_working_copy_availability m = AV_PRESENT \<longleftrightarrow> rp_working_copy_sha256 m \<noteq> None)
     \<and> (rp_os_container_availability m = AV_PRESENT \<longleftrightarrow> rp_os_container m \<noteq> None))"

record capture_limitations =
  li_truncated_packets_present :: bool
  li_incomplete_flow_count :: nat
  li_conflicting_flow_count :: nat
  li_not_observable_certificate_count :: nat
  li_unknown_check_count :: nat
  li_not_observable_check_count :: nat
  li_notes :: "string list"

definition capture_limitations_ok :: "capture_limitations \<Rightarrow> bool" where
  "capture_limitations_ok l = (length (li_notes l) \<le> 32)"

record stage_error =
  sx_stage :: string
  sx_message :: string
  sx_evidence_state :: evidence_state

definition stage_error_ok :: "stage_error \<Rightarrow> bool" where
  "stage_error_ok e = (len_in 1 80 (sx_stage e) \<and> len_in 1 1000 (sx_message e))"

record advisory_item =
  av_code :: string
  av_reason :: string

definition advisory_item_ok :: "advisory_item \<Rightarrow> bool" where
  "advisory_item_ok i = (len_in 1 64 (av_code i) \<and> len_in 1 1000 (av_reason i))"

record advisory_section =
  as_present :: bool
  as_items :: "advisory_item list"

definition advisory_section_ok :: "advisory_section \<Rightarrow> bool" where
  "advisory_section_ok s = (length (as_items s) \<le> 256 \<and> list_all advisory_item_ok (as_items s)
     \<and> (as_present s \<longleftrightarrow> as_items s \<noteq> []))"

record analyst_section =
  an_present :: bool
  an_notes :: "string list"

definition analyst_section_ok :: "analyst_section \<Rightarrow> bool" where
  "analyst_section_ok s = (length (an_notes s) \<le> 64 \<and> (an_present s \<longleftrightarrow> an_notes s \<noteq> []))"

record canonical_report =
  rpt_manifest :: report_manifest
  rpt_evidence :: evidence_document
  rpt_limitations :: capture_limitations
  rpt_stage_errors :: "stage_error list"
  rpt_suppressed_findings :: "finding list"
  rpt_exceptions :: "string list"
  rpt_advisory :: advisory_section
  rpt_analyst_conclusions :: analyst_section

definition quality_count :: "reconstruction_quality \<Rightarrow> flow list \<Rightarrow> nat" where
  "quality_count q flows = length (filter (\<lambda>f. fl_reconstruction_quality f = q) flows)"

definition hidden_certificate_count :: "tls_handshake list \<Rightarrow> nat" where
  "hidden_certificate_count handshakes =
     length (filter (\<lambda>h. th_server_certificate_state h = ES_NOT_OBSERVABLE) handshakes)"

definition manifest_tracks_evidence :: "canonical_report \<Rightarrow> bool" where
  "manifest_tracks_evidence r =
    (let run = ed_run_identity (rpt_evidence r); manifest = rpt_manifest r;
         posture = ed_posture (rpt_evidence r); summary = rp_posture_summary manifest;
         overall = cm_overall (po_coverage posture); limitations = rpt_limitations r
     in rp_source_capture_sha256 manifest = ar_capture_sha256 run
      \<and> rp_configuration_digest manifest = ar_configuration_digest run
      \<and> rp_analyzer_bundle_digest manifest = ar_analyzer_bundle_digest run
      \<and> rp_policy_profile manifest = pp_value (ar_policy_profile run)
      \<and> rp_policy_pack_version manifest = ar_policy_pack_version run
      \<and> rp_trust_store_digest manifest = ar_trust_store_digest run
      \<and> ps_assessment_state summary = po_assessment_state posture
      \<and> ps_risk_score summary = po_risk_score posture
      \<and> ps_finding_count summary = length (po_prioritized_findings posture)
      \<and> ps_unknown_count summary = cn_unknown_count overall
      \<and> ps_not_observable_count summary = cn_not_observable_count overall
      \<and> li_truncated_packets_present limitations = cp_truncated_packets_present (ed_capture_preflight (rpt_evidence r))
      \<and> li_incomplete_flow_count limitations = quality_count RQ_INCOMPLETE (ed_flows (rpt_evidence r))
      \<and> li_conflicting_flow_count limitations = quality_count RQ_CONFLICTING (ed_flows (rpt_evidence r))
      \<and> li_not_observable_certificate_count limitations = hidden_certificate_count (ed_handshakes (rpt_evidence r))
      \<and> li_unknown_check_count limitations = cn_unknown_count overall
      \<and> li_not_observable_check_count limitations = cn_not_observable_count overall)"

definition canonical_report_ok :: "canonical_report \<Rightarrow> bool" where
  "canonical_report_ok r =
    (report_manifest_ok (rpt_manifest r) \<and> evidence_document_ok (rpt_evidence r)
     \<and> capture_limitations_ok (rpt_limitations r)
     \<and> length (rpt_stage_errors r) \<le> 256 \<and> list_all stage_error_ok (rpt_stage_errors r)
     \<and> length (rpt_suppressed_findings r) \<le> 256 \<and> list_all finding_ok (rpt_suppressed_findings r)
     \<and> length (rpt_exceptions r) \<le> 64 \<and> advisory_section_ok (rpt_advisory r)
     \<and> analyst_section_ok (rpt_analyst_conclusions r) \<and> manifest_tracks_evidence r)"

section \<open>Assembling (assemble\_report.py)\<close>

record assemble_report_request =
  aq_case_id :: string
  aq_analysis_run_id :: string
  aq_capture_filename :: string
  aq_generated_at :: "py_datetime option"
  aq_dependency_versions :: "(string, string) dict"

definition assemble_request_ok :: "assemble_report_request \<Rightarrow> bool" where
  "assemble_request_ok q = (len_in 1 160 (aq_case_id q) \<and> len_in 1 160 (aq_analysis_run_id q)
     \<and> len_in 1 255 (aq_capture_filename q) \<and> length (aq_dependency_versions q) \<le> 32)"

definition limitation_notes :: "bool \<Rightarrow> nat \<Rightarrow> nat \<Rightarrow> nat \<Rightarrow> string list" where
  "limitation_notes truncated incomplete conflicting not_observable_certs =
    (if truncated then [''Capture contains truncated packets; reconstruction may be incomplete.''] else [])
    @ (if incomplete \<noteq> 0 then [nat_digits incomplete @ '' flow(s) have incomplete TCP reconstruction.''] else [])
    @ (if conflicting \<noteq> 0 then [nat_digits conflicting @ '' flow(s) have conflicting TCP reconstructions.''] else [])
    @ (if not_observable_certs \<noteq> 0
       then [nat_digits not_observable_certs @ '' handshake(s) have certificates that are not observable.''] else [])"

definition report_limitations :: "evidence_document \<Rightarrow> capture_limitations" where
  "report_limitations document =
    (let incomplete = quality_count RQ_INCOMPLETE (ed_flows document);
         conflicting = quality_count RQ_CONFLICTING (ed_flows document);
         not_observable_certs = hidden_certificate_count (ed_handshakes document);
         truncated = cp_truncated_packets_present (ed_capture_preflight document);
         overall = cm_overall (po_coverage (ed_posture document))
     in \<lparr>li_truncated_packets_present = truncated, li_incomplete_flow_count = incomplete,
         li_conflicting_flow_count = conflicting, li_not_observable_certificate_count = not_observable_certs,
         li_unknown_check_count = cn_unknown_count overall,
         li_not_observable_check_count = cn_not_observable_count overall,
         li_notes = take 32 (limitation_notes truncated incomplete conflicting not_observable_certs)\<rparr>)"

definition summarize_posture :: "posture_assessment \<Rightarrow> posture_summary" where
  "summarize_posture posture =
     \<lparr>ps_assessment_state = po_assessment_state posture, ps_risk_score = po_risk_score posture,
      ps_finding_count = length (po_prioritized_findings posture),
      ps_unknown_count = cn_unknown_count (cm_overall (po_coverage posture)),
      ps_not_observable_count = cn_not_observable_count (cm_overall (po_coverage posture))\<rparr>"

definition report_sources :: "assemble_report_request \<Rightarrow> string \<Rightarrow> source_record list" where
  "report_sources request capture_sha256 =
     [\<lparr>sr_kind = SR_CASE, sr_identifier = Some (aq_case_id request), sr_availability = AV_PRESENT\<rparr>,
      \<lparr>sr_kind = SR_CAPTURE, sr_identifier = Some (take 32 capture_sha256), sr_availability = AV_PRESENT\<rparr>,
      \<lparr>sr_kind = SR_ANALYSIS_RUN, sr_identifier = Some (aq_analysis_run_id request), sr_availability = AV_PRESENT\<rparr>]"

definition mk_manifest :: "evidence_document \<Rightarrow> assemble_report_request \<Rightarrow> renderer_manifest \<Rightarrow> py_datetime
    \<Rightarrow> report_manifest" where
  "mk_manifest document request renderer generated_at =
    (let run = ed_run_identity document; capture_sha256 = ar_capture_sha256 run in
     \<lparr>rp_generated_at = generated_at, rp_case_id = Some (aq_case_id request),
      rp_capture_id = Some (take 32 capture_sha256), rp_analysis_run_id = Some (aq_analysis_run_id request),
      rp_source_capture_sha256 = capture_sha256, rp_working_copy_sha256 = Some capture_sha256,
      rp_working_copy_availability = AV_PRESENT, rp_source_records = report_sources request capture_sha256,
      rp_artifact_hashes = [\<lparr>ah_name = aq_capture_filename request, ah_sha256 = Some capture_sha256,
        ah_availability = AV_PRESENT\<rparr>],
      rp_renderer = renderer, rp_signature = \<lparr>sm_algorithm = None, sm_timestamp = None\<rparr>,
      rp_posture_summary = summarize_posture (ed_posture document), rp_random_seed = None,
      rp_configuration_digest = ar_configuration_digest run,
      rp_analyzer_bundle_digest = ar_analyzer_bundle_digest run,
      rp_policy_profile = pp_value (ar_policy_profile run),
      rp_policy_pack_version = ar_policy_pack_version run, rp_trust_store_digest = ar_trust_store_digest run,
      rp_os_container = None, rp_os_container_availability = AV_UNAVAILABLE,
      rp_dependency_versions = aq_dependency_versions request\<rparr>)"

definition assemble_report :: "py_datetime \<Rightarrow> evidence_document \<Rightarrow> assemble_report_request \<Rightarrow> renderer_manifest
    \<Rightarrow> canonical_report result" where
  \<comment> \<open>\<open>now\<close> is the reading of the clock where the request gives no time\<close>
  "assemble_report now document request renderer =
    (let generated_at = as_utc (case aq_generated_at request of None \<Rightarrow> now | Some t \<Rightarrow> t);
         limitations = report_limitations document;
         manifest = mk_manifest document request renderer generated_at
     in bindE (check_model (capture_limitations_ok limitations) limitations) (\<lambda>limitations.
        bindE (check_model (report_manifest_ok manifest) manifest) (\<lambda>manifest.
        let r = \<lparr>rpt_manifest = manifest, rpt_evidence = document, rpt_limitations = limitations,
                 rpt_stage_errors = [], rpt_suppressed_findings = [], rpt_exceptions = [],
                 rpt_advisory = \<lparr>as_present = False, as_items = []\<rparr>,
                 rpt_analyst_conclusions = \<lparr>an_present = False, an_notes = []\<rparr>\<rparr>
        in check_model (canonical_report_ok r) r)))"

section \<open>Rendering (render\_report.py)\<close>

definition allowed_report_formats :: "string list" where
  "allowed_report_formats = [''json'', ''html'', ''pdf'']"

record rendered_report =
  rd_payload :: canonical_report
  rd_json_bytes :: bytes
  rd_sha256 :: string
  rd_html :: "string option"
  rd_pdf :: "bytes option"

text \<open>\<open>seen\<close> and \<open>ordered\<close> hold the same tokens, so one list stands for both.\<close>

fun format_loop :: "string list \<Rightarrow> string list \<Rightarrow> string list result" where
  "format_loop ordered [] = Inr ordered"
| "format_loop ordered (token # tokens) =
     (if token \<in> set ordered then format_loop ordered tokens
      else if token \<in> set allowed_report_formats then format_loop (ordered @ [token]) tokens
      else Inl ReportError)"

definition parse_report_formats :: "string \<Rightarrow> string list result" where
  "parse_report_formats raw =
    (let tokens = map (\<lambda>item. py_lower (py_strip item)) (filter (\<lambda>item. py_strip item \<noteq> []) (py_split (CHR '','') raw))
     in if tokens = [] then Inl ReportError else format_loop [] tokens)"

definition render_report :: "(canonical_report \<Rightarrow> bytes result) \<Rightarrow> (bytes \<Rightarrow> string) \<Rightarrow> (canonical_report \<Rightarrow> string result)
    \<Rightarrow> (string \<Rightarrow> bytes result) \<Rightarrow> canonical_report \<Rightarrow> string list \<Rightarrow> rendered_report result" where
  "render_report canonicalize digest render_html render_pdf report formats =
    (if \<not> list_all (\<lambda>f. f \<in> set allowed_report_formats) formats then Inl ReportError
     else if formats = [] then Inl ReportError
     else bindE (canonicalize report) (\<lambda>json_bytes.
       let sha256 = digest json_bytes; needs_html = ''html'' \<in> set formats \<or> ''pdf'' \<in> set formats in
       bindE (if needs_html then bindE (render_html report) (\<lambda>h. Inr (Some h)) else Inr None) (\<lambda>html.
       bindE (if ''pdf'' \<in> set formats
              then (case html of None \<Rightarrow> Inl ReportError | Some h \<Rightarrow> bindE (render_pdf h) (\<lambda>p. Inr (Some p)))
              else Inr None) (\<lambda>pdf.
       check_model (is_sha256_hex sha256)
         \<lparr>rd_payload = report, rd_json_bytes = json_bytes, rd_sha256 = sha256, rd_html = html, rd_pdf = pdf\<rparr>))))"

definition sha256_digest :: "bytes \<Rightarrow> string" where
  "sha256_digest canonical_bytes = sha256_bytes canonical_bytes"

section \<open>Lemmas\<close>

lemma opt_ok_simps [simp]: "opt_ok P None" "opt_ok P (Some x) = P x"
  by (simp_all add: opt_ok_def)

lemma limitation_notes_length: "length (limitation_notes a b c d) \<le> 4"
  by (simp add: limitation_notes_def)

lemma pp_value_length: "len_in 1 64 (pp_value p)"
  by (cases p) (simp_all add: len_in_def)

lemma report_sources_ok:
  assumes "assemble_request_ok q"
  shows "len_in 1 16 (report_sources q c) \<and> list_all source_record_ok (report_sources q c)"
  using assms by (simp add: report_sources_def assemble_request_ok_def source_record_ok_def len_in_def)

text \<open>The constraints of the manifest reduce to the file name's: every other field is bounded by the
  document, the request or the renderer.\<close>

lemma mk_manifest_ok:
  assumes "evidence_document_ok d" and "opt_ok is_sha256_hex (ar_trust_store_digest (ed_run_identity d))"
    and "assemble_request_ok q" and "renderer_manifest_ok m"
  shows "report_manifest_ok (mk_manifest d q m t) \<longleftrightarrow> length (aq_capture_filename q) \<le> 160"
proof -
  have run: "analysis_run_ok (ed_run_identity d)" and post: "posture_ok (ed_posture d)"
    using assms(1) by (simp_all add: evidence_document_ok_def)
  have "posture_summary_ok (summarize_posture (ed_posture d))"
    using post by (simp add: posture_summary_ok_def summarize_posture_def posture_ok_def opt_ok_def)
  then show ?thesis
    using run assms(2-4) report_sources_ok [OF assms(3), of "ar_capture_sha256 (ed_run_identity d)"]
      pp_value_length [of "ar_policy_profile (ed_run_identity d)"]
    by (auto simp: report_manifest_ok_def mk_manifest_def Let_def analysis_run_ok_def
        assemble_request_ok_def artifact_hash_ok_def len_in_def)
qed

lemma assembled_tracks:
  "manifest_tracks_evidence \<lparr>rpt_manifest = mk_manifest d q m t, rpt_evidence = d, rpt_limitations = report_limitations d,
     rpt_stage_errors = es, rpt_suppressed_findings = fs, rpt_exceptions = xs, rpt_advisory = a, rpt_analyst_conclusions = c\<rparr>"
  by (simp add: manifest_tracks_evidence_def mk_manifest_def summarize_posture_def report_limitations_def Let_def)

lemma report_limitations_ok: "capture_limitations_ok (report_limitations d)"
  by (simp add: capture_limitations_ok_def report_limitations_def Let_def)

lemma assemble_report_eq:
  fixes now :: py_datetime
  assumes "evidence_document_ok d" and "opt_ok is_sha256_hex (ar_trust_store_digest (ed_run_identity d))"
    and "assemble_request_ok q" and "renderer_manifest_ok m"
  defines "t \<equiv> as_utc (case aq_generated_at q of None \<Rightarrow> now | Some t \<Rightarrow> t)"
  shows "assemble_report now d q m =
    (if length (aq_capture_filename q) \<le> 160
     then Inr \<lparr>rpt_manifest = mk_manifest d q m t, rpt_evidence = d, rpt_limitations = report_limitations d,
                 rpt_stage_errors = [], rpt_suppressed_findings = [], rpt_exceptions = [],
                 rpt_advisory = \<lparr>as_present = False, as_items = []\<rparr>,
                 rpt_analyst_conclusions = \<lparr>an_present = False, an_notes = []\<rparr>\<rparr>
     else Inl ValidationError)"
  using mk_manifest_ok [OF assms(1-4), of t] assms(1) assembled_tracks report_limitations_ok
  by (simp add: assemble_report_def Let_def t_def [symmetric] canonical_report_ok_def advisory_section_ok_def
      analyst_section_ok_def)

lemma format_loop_spec:
  assumes "distinct ordered" and "set ordered \<subseteq> set allowed_report_formats"
  shows "if set tokens \<subseteq> set allowed_report_formats
    then \<exists>r. format_loop ordered tokens = Inr r \<and> distinct r \<and> set r = set ordered \<union> set tokens
    else format_loop ordered tokens = Inl ReportError"
  using assms
proof (induction tokens arbitrary: ordered)
  case (Cons t ts)
  show ?case
  proof (cases "t \<in> set ordered")
    case True
    then show ?thesis using Cons.IH [OF Cons.prems] Cons.prems(2) by (auto simp: insert_absorb split: if_splits)
  next
    case False
    then show ?thesis
      using Cons.IH [of "ordered @ [t]"] Cons.prems by (cases "t \<in> set allowed_report_formats") (auto split: if_splits)
  qed
qed simp

text \<open>C38: For a well-formed document (its trust-store digest, if any, a SHA-256), a valid request and a valid renderer
  manifest, assembling a report succeeds exactly when the capture's file name has at most 160 characters, although the
  request admits 255. The report then passes every validator of the schema, carries the document unchanged and
  copies its assessment state and risk score; a longer name raises a validation error.\<close>

theorem assemble_report_valid:
  assumes "evidence_document_ok d" and "opt_ok is_sha256_hex (ar_trust_store_digest (ed_run_identity d))"
    and "assemble_request_ok q" and "renderer_manifest_ok m"
  shows "if length (aq_capture_filename q) \<le> 160
    then \<exists>r. assemble_report now d q m = Inr r \<and> canonical_report_ok r \<and> rpt_evidence r = d
      \<and> ps_risk_score (rp_posture_summary (rpt_manifest r)) = po_risk_score (ed_posture d)
      \<and> ps_assessment_state (rp_posture_summary (rpt_manifest r)) = po_assessment_state (ed_posture d)
    else assemble_report now d q m = Inl ValidationError"
proof (cases "length (aq_capture_filename q) \<le> 160")
  case True
  then obtain r where r: "assemble_report now d q m = Inr r" using assemble_report_eq [OF assms] by simp
  then have "rpt_evidence r = d" "canonical_report_ok r"
    by (auto simp: assemble_report_def Let_def py_simps)
  moreover from this have "manifest_tracks_evidence r" by (simp add: canonical_report_ok_def)
  ultimately show ?thesis using True r by (auto simp: manifest_tracks_evidence_def Let_def)
qed (use assemble_report_eq [OF assms] in simp)

text \<open>A sample document, request and renderer.\<close>

abbreviation zero_digest :: string where "zero_digest \<equiv> replicate 64 (CHR ''0'')"

definition sample_document :: evidence_document where
  "sample_document =
    \<lparr>ed_run_identity = \<lparr>ar_capture_sha256 = zero_digest, ar_analyzer_bundle_digest = zero_digest,
       ar_configuration_digest = zero_digest, ar_analysis_time = \<lparr>dt_wall = 0, dt_offset = None\<rparr>,
       ar_policy_profile = PP_IETF_CURRENT, ar_policy_pack_version = zero_digest, ar_trust_store_digest = None\<rparr>,
     ed_capture_preflight = \<lparr>cp_packet_count = 1, cp_file_time_precision = ''microseconds'', cp_packet_size_limit = None,
       cp_packet_size_limit_min_inferred = None, cp_packet_size_limit_max_inferred = None,
       cp_truncated_packets_present = True, cp_original_packet_bytes = None, cp_capture_duration_seconds = None,
       cp_capture_start_time = None\<rparr>,
     ed_flows = [], ed_sessions = [], ed_handshakes = [], ed_certificates = [], ed_findings = [], ed_policy_checks = [],
     ed_posture = \<lparr>po_assessment_state = AS_NONE, po_risk_score = None, po_prioritized_findings = [],
       po_coverage = empty_matrix\<rparr>\<rparr>"

definition sample_assemble_request :: "nat \<Rightarrow> assemble_report_request" where
  "sample_assemble_request n = \<lparr>aq_case_id = ''case-1'', aq_analysis_run_id = ''r1'',
     aq_capture_filename = replicate n (CHR ''a''), aq_generated_at = None, aq_dependency_versions = []\<rparr>"

definition sample_renderer :: renderer_manifest where
  "sample_renderer = \<lparr>rm_pdf_renderer_version = ''62'', rm_template_sha256 = zero_digest,
     rm_fonts = [\<lparr>fr_filename = ''a.ttf'', fr_sha256 = zero_digest, fr_family = ''A'', fr_weight = 400, fr_style = FT_NORMAL\<rparr>]\<rparr>"

lemma zero_digest_ok: "is_sha256_hex zero_digest"
  by (simp add: is_sha256_hex_def list_all_iff is_lower_hex_def)

lemma sample_document_ok: "evidence_document_ok sample_document"
  by (simp add: sample_document_def evidence_document_ok_def analysis_run_ok_def posture_ok_def zero_digest_ok)

lemma sample_renderer_ok: "renderer_manifest_ok sample_renderer"
  by (simp add: sample_renderer_def renderer_manifest_ok_def font_resource_ok_def len_in_def zero_digest_ok)

lemma sample_assemble_request_ok: "1 \<le> n \<Longrightarrow> n \<le> 255 \<Longrightarrow> assemble_request_ok (sample_assemble_request n)"
  by (simp add: sample_assemble_request_def assemble_request_ok_def len_in_def)

theorem assemble_report_valid_witness:
  "(\<exists>r. assemble_report \<lparr>dt_wall = 0, dt_offset = None\<rparr> sample_document (sample_assemble_request 160) sample_renderer = Inr r
      \<and> canonical_report_ok r)
   \<and> assemble_report \<lparr>dt_wall = 0, dt_offset = None\<rparr> sample_document (sample_assemble_request 161) sample_renderer
      = Inl ValidationError"
proof -
  have td: "opt_ok is_sha256_hex (ar_trust_store_digest (ed_run_identity sample_document))"
    by (simp add: sample_document_def)
  have len: "length (aq_capture_filename (sample_assemble_request n)) = n" for n
    by (simp add: sample_assemble_request_def)
  note ok = assemble_report_valid [OF sample_document_ok td sample_assemble_request_ok sample_renderer_ok]
  show ?thesis using ok [of 160] ok [of 161] unfolding len by auto
qed

text \<open>Parsing \<open>--format\<close>: every token is a known format, or the request is refused.\<close>

lemma parse_report_formats_spec:
  "parse_report_formats raw = Inr r \<Longrightarrow> r \<noteq> [] \<and> distinct r \<and> set r \<subseteq> set allowed_report_formats"
  using format_loop_spec [of "[]" "map (\<lambda>item. py_lower (py_strip item)) (filter (\<lambda>item. py_strip item \<noteq> []) (py_split (CHR '','') raw))"]
  by (auto simp: parse_report_formats_def Let_def split: if_splits)

text \<open>A rendered report holds what was asked for, all derived from the one payload.\<close>

lemma render_report_Inr:
  assumes "render_report canonicalize digest render_html render_pdf report formats = Inr out"
  shows "canonicalize report = Inr (rd_json_bytes out)" and "rd_sha256 out = digest (rd_json_bytes out)"
    and "''pdf'' \<in> set formats \<Longrightarrow> \<exists>h p. rd_html out = Some h \<and> render_html report = Inr h \<and> rd_pdf out = Some p \<and> render_pdf h = Inr p"
  using assms unfolding render_report_def by (auto simp: Let_def py_simps split: if_splits option.splits)

end
