(* ===== verification/Advisory.thy ===== *)
theory Advisory
  imports Reports Tls Effects
begin

text \<open>
  Advisory scoring: the feature schema and score records (\<open>domain/ml/models.py\<close>), the pipeline that turns
  evidence into endpoint windows, scores them and attaches an advisory section to a report
  (\<open>application/advisory_pipeline.py\<close>), and the bounded window history (\<open>adapters/persistence/ml_history_store.py\<close>).

  The scorers are values of the \<open>AnomalyScorer\<close> protocol and parameters here: a scorer maps windows to scores or
  raises. The theory \<open>Detectors\<close> defines the two of the package. Floating-point rates are rationals: each is the mean of zeros and ones. The history file is the list of
  its non-blank lines, each a window or text that does not validate.

  Shown here: the windows account for every session and are well formed; attaching advisories changes nothing but
  the advisory section and always yields a valid one; the history keeps the newest windows and reads back what was
  appended.
\<close>

section \<open>Features and scores (models.py)\<close>

definition feature_schema_version :: string where
  "feature_schema_version = ''securemail.advisory_features/v1''"

datatype protocol_role = PR_SMTP_MX | PR_SMTP_SUBMISSION | PR_IMAP_ACCESS | PR_POP3_ACCESS

fun protocol_role_value :: "protocol_role \<Rightarrow> string" where
  "protocol_role_value PR_SMTP_MX = ''smtp_mx''"
| "protocol_role_value PR_SMTP_SUBMISSION = ''smtp_submission''"
| "protocol_role_value PR_IMAP_ACCESS = ''imap_access''"
| "protocol_role_value PR_POP3_ACCESS = ''pop3_access''"

record endpoint_window =
  ew_endpoint_id :: string
  ew_site_id :: string
  ew_protocol_role :: protocol_role
  ew_day_index :: nat
  ew_session_count :: nat
  ew_tls13_share :: rat
  ew_tls12_share :: rat
  ew_tls10_share :: rat
  ew_handshake_failure_rate :: rat
  ew_alert_rate :: rat
  ew_starttls_success_rate :: rat
  ew_starttls_fallback_rate :: rat
  ew_forward_secrecy_present_rate :: rat
  ew_certificate_churn_rate :: rat
  ew_incomplete_reconstruction_rate :: rat
  ew_not_observable_rate :: rat
  ew_dominant_tls_version :: string
  ew_issuer_id :: string
  ew_in_maintenance :: bool
  ew_is_new_endpoint :: bool
  ew_capture_quality_ok :: bool

definition unit_rate :: "rat \<Rightarrow> bool" where
  "unit_rate x = (0 \<le> x \<and> x \<le> 1)"

definition endpoint_window_ok :: "endpoint_window \<Rightarrow> bool" where
  "endpoint_window_ok w =
    (len_in 1 160 (ew_endpoint_id w) \<and> len_in 1 64 (ew_site_id w)
     \<and> list_all unit_rate [ew_tls13_share w, ew_tls12_share w, ew_tls10_share w, ew_handshake_failure_rate w,
         ew_alert_rate w, ew_starttls_success_rate w, ew_starttls_fallback_rate w, ew_forward_secrecy_present_rate w,
         ew_certificate_churn_rate w, ew_incomplete_reconstruction_rate w, ew_not_observable_rate w]
     \<and> len_in 1 32 (ew_dominant_tls_version w) \<and> len_in 1 64 (ew_issuer_id w))"

definition numeric_features :: "endpoint_window \<Rightarrow> (string, rat) dict" where
  "numeric_features w =
    [(''tls13_share'', ew_tls13_share w), (''tls12_share'', ew_tls12_share w), (''tls10_share'', ew_tls10_share w),
     (''handshake_failure_rate'', ew_handshake_failure_rate w), (''alert_rate'', ew_alert_rate w),
     (''starttls_success_rate'', ew_starttls_success_rate w), (''starttls_fallback_rate'', ew_starttls_fallback_rate w),
     (''forward_secrecy_present_rate'', ew_forward_secrecy_present_rate w),
     (''certificate_churn_rate'', ew_certificate_churn_rate w),
     (''incomplete_reconstruction_rate'', ew_incomplete_reconstruction_rate w),
     (''not_observable_rate'', ew_not_observable_rate w)]"

definition numeric_value :: "endpoint_window \<Rightarrow> string \<Rightarrow> rat result" where
  "numeric_value window name = (case map_of (numeric_features window) name of None \<Rightarrow> Inl KeyError | Some v \<Rightarrow> Inr v)"

definition categorical_value :: "endpoint_window \<Rightarrow> string \<Rightarrow> string result" where
  "categorical_value window name =
    (case map_of [(''dominant_tls_version'', ew_dominant_tls_version window), (''issuer_id'', ew_issuer_id window),
        (''protocol_role'', protocol_role_value (ew_protocol_role window))] name of
       None \<Rightarrow> Inl KeyError | Some v \<Rightarrow> Inr v)"

datatype feature_value = FV_NUM rat | FV_STR string

record feature_contribution =
  fc_feature :: string
  fc_evidence_field :: string
  fc_value :: feature_value
  fc_reference :: "feature_value option"
  fc_score :: rat

definition feature_contribution_ok :: "feature_contribution \<Rightarrow> bool" where
  "feature_contribution_ok c = (len_in 1 80 (fc_feature c) \<and> len_in 1 160 (fc_evidence_field c))"

record window_score =
  ws_endpoint_id :: string
  ws_day_index :: nat
  ws_detector :: string
  ws_score :: rat
  ws_threshold :: rat
  ws_above_threshold :: bool
  ws_suppressed :: bool
  ws_skip_reason :: "string option"
  ws_percentile :: "rat option"
  ws_contributions :: "feature_contribution list"
  ws_reason :: string
  ws_model_digest :: string
  ws_feature_schema_version :: string

definition percentile_ok :: "rat option \<Rightarrow> bool" where
  "percentile_ok p = opt_ok (\<lambda>x. 0 \<le> x \<and> x \<le> 100) p"

definition window_score_ok :: "window_score \<Rightarrow> bool" where
  "window_score_ok s =
    (len_in 1 160 (ws_endpoint_id s) \<and> len_in 1 64 (ws_detector s) \<and> opt_ok (\<lambda>r. length r \<le> 160) (ws_skip_reason s)
     \<and> percentile_ok (ws_percentile s) \<and> length (ws_contributions s) \<le> 8
     \<and> list_all feature_contribution_ok (ws_contributions s) \<and> len_in 1 1000 (ws_reason s)
     \<and> is_sha256_hex (ws_model_digest s) \<and> len_in 1 64 (ws_feature_schema_version s))"

record anomaly_result =
  an_anomaly_id :: string
  an_code :: string
  an_label :: string
  an_detector :: string
  an_score :: rat
  an_threshold :: rat
  an_percentile :: "rat option"
  an_cohort :: string
  an_feature_schema_version :: string
  an_model_digest :: string
  an_endpoint_id :: string
  an_day_index :: nat
  an_reason :: string
  an_reason_codes :: "string list"
  an_evidence_fields :: "string list"

definition anomaly_result_ok :: "anomaly_result \<Rightarrow> bool" where
  "anomaly_result_ok a =
    (is_sha256_hex (an_anomaly_id a) \<and> len_in 1 64 (an_code a) \<and> len_in 1 160 (an_label a) \<and> len_in 1 64 (an_detector a)
     \<and> percentile_ok (an_percentile a) \<and> len_in 1 160 (an_cohort a) \<and> len_in 1 64 (an_feature_schema_version a)
     \<and> is_sha256_hex (an_model_digest a) \<and> len_in 1 160 (an_endpoint_id a) \<and> len_in 1 1000 (an_reason a)
     \<and> length (an_reason_codes a) \<le> 8 \<and> length (an_evidence_fields a) \<le> 8)"

section \<open>Endpoint windows (advisory\_pipeline.py)\<close>

abbreviation min_history_windows :: nat where "min_history_windows \<equiv> 14"

abbreviation isolation_forest_min_train_windows :: nat where "isolation_forest_min_train_windows \<equiv> 40"

definition incomplete_rate_gate :: rat where "incomplete_rate_gate = 2 / 5"

definition code_for_feature :: "(string, string) dict" where
  "code_for_feature =
    [(''tls10_share'', ''ADVISORY_TLS_VERSION_SHIFT''), (''tls12_share'', ''ADVISORY_TLS_VERSION_SHIFT''),
     (''tls13_share'', ''ADVISORY_TLS_VERSION_SHIFT''), (''dominant_tls_version'', ''ADVISORY_TLS_VERSION_SHIFT''),
     (''handshake_failure_rate'', ''ADVISORY_HANDSHAKE_FAILURE_RATE''), (''alert_rate'', ''ADVISORY_ALERT_RATE''),
     (''starttls_fallback_rate'', ''ADVISORY_STARTTLS_FALLBACK_RATE''),
     (''starttls_success_rate'', ''ADVISORY_STARTTLS_FALLBACK_RATE''),
     (''forward_secrecy_present_rate'', ''ADVISORY_FORWARD_SECRECY_RATE''),
     (''issuer_id'', ''ADVISORY_CERTIFICATE_ISSUER''), (''certificate_churn_rate'', ''ADVISORY_CERTIFICATE_ISSUER'')]"

definition opaque_issuer :: "string option \<Rightarrow> string" where
  "opaque_issuer raw = (if \<not> truthy_str raw then ''iss_unknown'' else ''iss_'' @ take 12 (sha256_hex (the raw)))"

definition role_for :: "email_session \<Rightarrow> flow option \<Rightarrow> protocol_role" where
  "role_for session flow =
    (let port = (case flow of None \<Rightarrow> None | Some f \<Rightarrow> Some (fe_port (fl_resp f))) in
     if port = Some 25 then PR_SMTP_MX
     else if port \<in> {Some 465, Some 587} then PR_SMTP_SUBMISSION
     else if port \<in> {Some 143, Some 993} then PR_IMAP_ACCESS
     else if port \<in> {Some 110, Some 995} then PR_POP3_ACCESS
     else case es_protocol session of
       Some MP_SMTP \<Rightarrow> PR_SMTP_MX
     | Some MP_IMAP \<Rightarrow> PR_IMAP_ACCESS
     | Some MP_POP3 \<Rightarrow> PR_POP3_ACCESS
     | None \<Rightarrow> PR_SMTP_MX)"

definition mean :: "rat list \<Rightarrow> rat" where
  "mean values = (if values = [] then 0 else sum_list values / of_nat (length values))"

definition rate :: "nat \<Rightarrow> nat \<Rightarrow> rat" where
  \<comment> \<open>\<open>_mean([1.0] * k + [0.0] * max(n - k, 0))\<close>\<close>
  "rate k n = mean (replicate k 1 @ replicate (n - k) 0)"

type_synonym window_row = "email_session \<times> flow option \<times> tls_handshake option"

record window_acc =
  wa_tls13 :: nat
  wa_tls12 :: nat
  wa_tls10 :: nat
  wa_versioned :: nat
  wa_failures :: nat
  wa_alerts :: nat
  wa_hs_count :: nat
  wa_starttls_ok :: nat
  wa_starttls_fallback :: nat
  wa_starttls_n :: nat
  wa_fs_present :: nat
  wa_fs_n :: nat
  wa_incomplete :: nat
  wa_not_obs :: nat
  wa_flow_n :: nat
  wa_issuers :: "string list"
  wa_role :: protocol_role

definition empty_acc :: window_acc where
  "empty_acc = \<lparr>wa_tls13 = 0, wa_tls12 = 0, wa_tls10 = 0, wa_versioned = 0, wa_failures = 0, wa_alerts = 0,
     wa_hs_count = 0, wa_starttls_ok = 0, wa_starttls_fallback = 0, wa_starttls_n = 0, wa_fs_present = 0, wa_fs_n = 0,
     wa_incomplete = 0, wa_not_obs = 0, wa_flow_n = 0, wa_issuers = [], wa_role = PR_SMTP_MX\<rparr>"

definition bump :: "bool \<Rightarrow> nat \<Rightarrow> nat" where
  "bump b n = (if b then n + 1 else n)"

definition flow_step :: "email_session \<Rightarrow> flow option \<Rightarrow> window_acc \<Rightarrow> window_acc" where
  "flow_step session flow a =
    (let a = a\<lparr>wa_role := role_for session flow\<rparr> in
     case flow of
       None \<Rightarrow> a
     | Some f \<Rightarrow> a\<lparr>wa_flow_n := wa_flow_n a + 1,
           wa_incomplete := bump (fl_reconstruction_quality f = RQ_INCOMPLETE) (wa_incomplete a)\<rparr>)"

definition upgrade_step :: "email_session \<Rightarrow> window_acc \<Rightarrow> window_acc" where
  "upgrade_step session a =
    (case Option.bind (es_explicit_upgrade session) eu_state of
       None \<Rightarrow> a
     | Some state \<Rightarrow> a\<lparr>wa_starttls_n := wa_starttls_n a + 1,
           wa_starttls_fallback := bump (state = US_PLAINTEXT_FALLBACK) (wa_starttls_fallback a),
           wa_starttls_ok := bump (state \<in> {US_TLS_ESTABLISHED, US_ACCEPTED}) (wa_starttls_ok a)\<rparr>)"

definition version_step :: "tls_handshake \<Rightarrow> window_acc \<Rightarrow> window_acc" where
  "version_step handshake a =
    (let selected = tv_selected (th_version handshake) in
     if \<not> truthy_str selected then a
     else let a = a\<lparr>wa_versioned := wa_versioned a + 1\<rparr> in
       if selected = Some ''TLSv13'' then a\<lparr>wa_tls13 := wa_tls13 a + 1\<rparr>
       else if selected = Some ''TLSv12'' then a\<lparr>wa_tls12 := wa_tls12 a + 1\<rparr>
       else if selected \<in> {Some ''TLSv10'', Some ''TLSv11'', Some ''SSLv3''} then a\<lparr>wa_tls10 := wa_tls10 a + 1\<rparr>
       else a)"

definition handshake_step :: "certificate_evidence list \<Rightarrow> tls_handshake \<Rightarrow> window_acc \<Rightarrow> window_acc" where
  \<comment> \<open>\<open>certs\<close> are the session's certificates\<close>
  "handshake_step certs handshake a =
    (let a = a\<lparr>wa_hs_count := wa_hs_count a + 1,
           wa_failures := bump (\<not> th_established handshake) (wa_failures a),
           wa_alerts := bump (truthy_str (th_last_alert handshake)) (wa_alerts a),
           wa_not_obs := bump (th_server_certificate_state handshake = ES_NOT_OBSERVABLE) (wa_not_obs a)\<rparr>;
         a = version_step handshake a;
         a = a\<lparr>wa_fs_n := wa_fs_n a + 1,
           wa_fs_present := bump (fa_outcome (assess_forward_secrecy handshake) = FS_PRESENT) (wa_fs_present a)\<rparr>;
         leaves = filter (\<lambda>c. ce_chain_index c = 0 \<and> ce_role c = CR_SERVER) certs
     in if leaves = [] then a else a\<lparr>wa_issuers := wa_issuers a @ [opaque_issuer (ce_issuer (hd leaves))]\<rparr>)"

definition row_step :: "(string, certificate_evidence list) dict \<Rightarrow> window_row \<Rightarrow> window_acc \<Rightarrow> window_acc" where
  "row_step certificates row a =
    (case row of (session, flow, handshake) \<Rightarrow>
      let a = upgrade_step session (flow_step session flow a) in
      case handshake of
        None \<Rightarrow> a
      | Some h \<Rightarrow> handshake_step (case map_of certificates (es_uid session) of None \<Rightarrow> [] | Some cs \<Rightarrow> cs) h a)"

definition dominant_version :: "window_acc \<Rightarrow> string" where
  "dominant_version a =
    (if wa_versioned a \<noteq> 0 \<and> wa_tls13 a \<le> wa_tls10 a \<and> wa_tls12 a \<le> wa_tls10 a then ''TLSv10''
     else if wa_versioned a \<noteq> 0 \<and> wa_tls13 a < wa_tls12 a then ''TLSv12''
     else ''TLSv13'')"

definition window_of :: "string \<Rightarrow> nat \<Rightarrow> window_acc \<Rightarrow> endpoint_window" where
  "window_of endpoint_id session_count a =
    (let incomplete_rate = rate (wa_incomplete a) (wa_flow_n a) in
     \<lparr>ew_endpoint_id = endpoint_id, ew_site_id = ''capture'', ew_protocol_role = wa_role a, ew_day_index = 0,
      ew_session_count = session_count, ew_tls13_share = rate (wa_tls13 a) (wa_versioned a),
      ew_tls12_share = rate (wa_tls12 a) (wa_versioned a), ew_tls10_share = rate (wa_tls10 a) (wa_versioned a),
      ew_handshake_failure_rate = rate (wa_failures a) (wa_hs_count a), ew_alert_rate = rate (wa_alerts a) (wa_hs_count a),
      ew_starttls_success_rate = rate (wa_starttls_ok a) (wa_starttls_n a),
      ew_starttls_fallback_rate = rate (wa_starttls_fallback a) (wa_starttls_n a),
      ew_forward_secrecy_present_rate = rate (wa_fs_present a) (wa_fs_n a),
      ew_certificate_churn_rate = (if length (remdups (wa_issuers a)) \<le> 1 then 0 else 1),
      ew_incomplete_reconstruction_rate = incomplete_rate,
      ew_not_observable_rate = rate (wa_not_obs a) (wa_hs_count a), ew_dominant_tls_version = dominant_version a,
      ew_issuer_id = (if wa_issuers a = [] then ''iss_unknown'' else hd (wa_issuers a)),
      ew_in_maintenance = False, ew_is_new_endpoint = True,
      ew_capture_quality_ok = (incomplete_rate \<le> incomplete_rate_gate)\<rparr>)"

definition session_endpoint :: "flow list \<Rightarrow> email_session \<Rightarrow> string" where
  "session_endpoint flows session =
    (case map_of (dict_of_last fl_uid flows) (es_uid session) of
       Some f \<Rightarrow> fe_host (fl_resp f) @ '':'' @ nat_digits (fe_port (fl_resp f))
     | None \<Rightarrow> ''session:'' @ es_uid session)"

definition extract_endpoint_windows :: "evidence_document \<Rightarrow> endpoint_window list result" where
  "extract_endpoint_windows document =
    (let flows = dict_of_last fl_uid (ed_flows document);
         handshakes = dict_of_last th_uid (ed_handshakes document);
         certificates = group_by ce_uid (ed_certificates document);
         grouped = group_by (session_endpoint (ed_flows document)) (ed_sessions document);
         row = (\<lambda>s. (s, map_of flows (es_uid s), map_of handshakes (es_uid s)))
     in mapE (\<lambda>(endpoint_id, sessions).
          let w = window_of endpoint_id (length sessions) (fold (row_step certificates) (map row sessions) empty_acc)
          in check_model (endpoint_window_ok w) w) (sort_key fst grouped))"

section \<open>Scores and sections\<close>

definition anomaly_id :: "window_score \<Rightarrow> string" where
  "anomaly_id s = sha256_hex (py_join ''|'' [ws_endpoint_id s, nat_digits (ws_day_index s), ws_detector s,
     ws_model_digest s, ws_reason s])"

definition code_for :: "window_score \<Rightarrow> string" where
  "code_for s =
    (case ws_contributions s of
       [] \<Rightarrow> ''ADVISORY_MULTIVARIATE_DEVIATION''
     | c # cs \<Rightarrow>
        if ws_detector s = ''isolation_forest'' \<and> cs \<noteq> [] then ''ADVISORY_MULTIVARIATE_DEVIATION''
        else (case map_of code_for_feature (fc_feature c) of
            None \<Rightarrow> ''ADVISORY_MULTIVARIATE_DEVIATION'' | Some code \<Rightarrow> code))"

definition reportable :: "window_score \<Rightarrow> bool" where
  "reportable s = (ws_above_threshold s \<and> \<not> ws_suppressed s \<and> ws_skip_reason s = None)"

definition score_order :: "window_score \<Rightarrow> rat \<times> string \<times> nat" where
  "score_order s = (- ws_score s, ws_endpoint_id s, ws_day_index s)"

definition mk_anomaly :: "string \<Rightarrow> window_score \<Rightarrow> anomaly_result result" where
  "mk_anomaly cohort s =
    (let a = \<lparr>an_anomaly_id = anomaly_id s, an_code = code_for s, an_label = ''advisory_anomaly'',
              an_detector = ws_detector s, an_score = ws_score s, an_threshold = ws_threshold s,
              an_percentile = ws_percentile s, an_cohort = cohort,
              an_feature_schema_version = ws_feature_schema_version s, an_model_digest = ws_model_digest s,
              an_endpoint_id = ws_endpoint_id s, an_day_index = ws_day_index s, an_reason = ws_reason s,
              an_reason_codes = map fc_feature (ws_contributions s),
              an_evidence_fields = map fc_evidence_field (ws_contributions s)\<rparr>
     in check_model (anomaly_result_ok a) a)"

fun anomaly_loop :: "string \<Rightarrow> string list \<Rightarrow> window_score list \<Rightarrow> anomaly_result list result" where
  "anomaly_loop cohort seen [] = Inr []"
| "anomaly_loop cohort seen (s # ss) =
     (let key = ws_endpoint_id s @ '':'' @ ws_detector s in
      if key \<in> set seen then anomaly_loop cohort seen ss
      else bindE (mk_anomaly cohort s) (\<lambda>a. bindE (anomaly_loop cohort (key # seen) ss) (\<lambda>as. Inr (a # as))))"

definition anomalies_from_scores :: "string \<Rightarrow> window_score list \<Rightarrow> anomaly_result list result" where
  "anomalies_from_scores cohort scores = anomaly_loop cohort [] (sort_key score_order (filter reportable scores))"

definition mk_item :: "string \<Rightarrow> string \<Rightarrow> advisory_item result" where
  "mk_item code reason = (let i = \<lparr>av_code = code, av_reason = reason\<rparr> in check_model (advisory_item_ok i) i)"

definition mk_section :: "advisory_item list \<Rightarrow> advisory_section result" where
  "mk_section items = (let s = \<lparr>as_present = True, as_items = items\<rparr> in check_model (advisory_section_ok s) s)"

definition result_items :: "anomaly_result list \<Rightarrow> advisory_item list result" where
  "result_items results = mapE (\<lambda>a. mk_item (an_code a) (an_reason a)) results"

definition advisory_section_from_results :: "anomaly_result list \<Rightarrow> advisory_section result" where
  "advisory_section_from_results results =
    (if results = []
     then bindE (mk_item ''ADVISORY_NONE''
            ''Advisory scoring ran; no endpoint-window deviation met the review threshold. Deterministic findings are unchanged. field session.uid.'')
            (\<lambda>i. mk_section [i])
     else bindE (result_items (take 256 results)) mk_section)"

definition assign_day_index :: "nat \<Rightarrow> endpoint_window list \<Rightarrow> endpoint_window list" where
  "assign_day_index day windows =
     map (\<lambda>w. w\<lparr>ew_day_index := day, ew_site_id := ''local'', ew_is_new_endpoint := (day = 0)\<rparr>) windows"

definition advisory_section_for_history :: "nat \<Rightarrow> window_score list \<Rightarrow> string \<Rightarrow> advisory_section result" where
  "advisory_section_for_history history_count current_scores cohort =
    (if history_count < min_history_windows
     then bindE (mk_item ''ADVISORY_INSUFFICIENT_HISTORY''
            (''Local ML history has '' @ nat_digits history_count
             @ '' endpoint-windows; baseline needs 14 and Isolation Forest needs 40. Deterministic findings are unchanged. field session.uid.''))
            (\<lambda>i. mk_section [i])
     else
       bindE (if history_count < isolation_forest_min_train_windows
              then bindE (mk_item ''ADVISORY_INSUFFICIENT_HISTORY''
                     (''Isolation Forest needs 40 training windows; '' @ nat_digits history_count
                      @ '' are stored. Baseline scoring ran. Deterministic findings are unchanged. field session.uid.''))
                     (\<lambda>i. Inr [i])
              else Inr []) (\<lambda>items.
       bindE (anomalies_from_scores cohort current_scores) (\<lambda>anomalies.
       if anomalies \<noteq> [] then bindE (result_items anomalies) (\<lambda>more. mk_section (take 256 (items @ more)))
       else if items = [] then advisory_section_from_results []
       else mk_section (take 256 items))))"

type_synonym scorer = "endpoint_window list \<Rightarrow> window_score list result"

definition score_windows :: "scorer list \<Rightarrow> endpoint_window list \<Rightarrow> window_score list result" where
  "score_windows scorers windows =
    (case mapE (\<lambda>scorer. scorer windows) scorers of
       Inl MlDependencyError \<Rightarrow> Inl AdvisoryPipelineError
     | Inl e \<Rightarrow> Inl e
     | Inr parts \<Rightarrow> Inr (concat parts))"

definition next_day :: "endpoint_window list \<Rightarrow> nat" where
  "next_day history = (if history = [] then 0 else Max (set (map ew_day_index history)) + 1)"

text \<open>Both entry points copy the report with a new advisory section; \<open>model_copy\<close> keeps the nested evidence
  object, so the identity checks after it hold.\<close>

definition attach_advisories_with_history :: "scorer list \<Rightarrow> endpoint_window list \<Rightarrow> string \<Rightarrow> canonical_report
    \<Rightarrow> (canonical_report \<times> endpoint_window list) result" where
  "attach_advisories_with_history scorers history cohort report =
    bindE (extract_endpoint_windows (rpt_evidence report)) (\<lambda>extracted.
    let day = next_day history; current = assign_day_index day extracted in
    bindE (score_windows scorers (history @ current)) (\<lambda>scores.
    let current_scores = filter (\<lambda>s. ws_day_index s = day) scores in
    bindE (advisory_section_for_history (length history) current_scores cohort) (\<lambda>section.
    Inr (report\<lparr>rpt_advisory := section\<rparr>, current))))"

definition attach_advisories :: "scorer list \<Rightarrow> string \<Rightarrow> canonical_report \<Rightarrow> canonical_report result" where
  "attach_advisories scorers cohort report =
    bindE (extract_endpoint_windows (rpt_evidence report)) (\<lambda>windows.
    bindE (score_windows scorers windows) (\<lambda>scores.
    bindE (anomalies_from_scores cohort scores) (\<lambda>results.
    bindE (advisory_section_from_results results) (\<lambda>section.
    Inr (report\<lparr>rpt_advisory := section\<rparr>)))))"

section \<open>The window history (ml\_history\_store.py)\<close>

datatype history_line = HL_WINDOW endpoint_window | HL_INVALID

record ml_history =
  mh_lines :: "history_line list option"
  mh_max_windows :: nat

definition new_history :: "nat \<Rightarrow> ml_history result" where
  "new_history max_windows = (if max_windows < 1 then Inl ValueError
     else Inr \<lparr>mh_lines = None, mh_max_windows = max_windows\<rparr>)"

definition last_n :: "nat \<Rightarrow> 'a list \<Rightarrow> 'a list" where
  \<comment> \<open>\<open>xs[-n:]\<close> for a positive \<open>n\<close>\<close>
  "last_n n xs = drop (length xs - n) xs"

definition history_order :: "endpoint_window \<Rightarrow> nat \<times> string" where
  "history_order w = (ew_day_index w, ew_endpoint_id w)"

definition load_windows :: "ml_history \<Rightarrow> endpoint_window list result" where
  "load_windows h =
    (case mh_lines h of
       None \<Rightarrow> Inr []
     | Some lines \<Rightarrow>
        bindE (mapE (\<lambda>l. case l of HL_WINDOW w \<Rightarrow> if endpoint_window_ok w then Inr w else Inl MlHistoryError
                     | HL_INVALID \<Rightarrow> Inl MlHistoryError) lines) (\<lambda>windows.
        Inr (last_n (mh_max_windows h) (sort_key history_order windows))))"

definition append_windows :: "endpoint_window list \<Rightarrow> (ml_history, endpoint_window list) op" where
  "append_windows windows =
    doS (pureS load_windows) (\<lambda>retained.
    doS (getS mh_max_windows) (\<lambda>limit.
    let retained = last_n limit (retained @ windows) in
    doS (modifyS (\<lambda>h. h\<lparr>mh_lines := Some (map HL_WINDOW retained)\<rparr>)) (\<lambda>_.
    returnS retained)))"

section \<open>Lemmas: windows\<close>

lemma mean_unit:
  assumes "list_all unit_rate xs"
  shows "unit_rate (mean xs)"
proof -
  have "0 \<le> sum_list xs \<and> sum_list xs \<le> of_nat (length xs)"
    using assms by (induction xs) (auto simp: unit_rate_def)
  then show ?thesis by (cases xs) (auto simp: mean_def unit_rate_def divide_le_eq_1)
qed

lemma rate_unit: "unit_rate (rate k n)"
  unfolding rate_def by (rule mean_unit) (auto simp: list_all_iff unit_rate_def)

lemma rate_eq: "k \<le> n \<Longrightarrow> rate k n = (if n = 0 then 0 else of_nat k / of_nat n)"
  by (auto simp: rate_def mean_def sum_list_replicate)

lemma opaque_issuer_length: "len_in 1 64 (opaque_issuer raw)"
  by (simp add: opaque_issuer_def len_in_def min.coboundedI2)

definition issuers_ok :: "window_acc \<Rightarrow> bool" where
  "issuers_ok a = list_all (len_in 1 64) (wa_issuers a)"

lemma version_step_issuers: "wa_issuers (version_step h a) = wa_issuers a"
  by (simp add: version_step_def Let_def)

lemma row_step_issuers: "issuers_ok a \<Longrightarrow> issuers_ok (row_step certs row a)"
  by (simp add: row_step_def issuers_ok_def flow_step_def upgrade_step_def handshake_step_def version_step_issuers
      opaque_issuer_length [simplified] Let_def split: prod.splits option.splits)

lemma rows_issuers: "issuers_ok a \<Longrightarrow> issuers_ok (fold (row_step certs) rows a)"
  by (induction rows arbitrary: a) (simp_all add: row_step_issuers)

lemma window_of_ok:
  assumes "issuers_ok a"
  shows "endpoint_window_ok (window_of e n a) \<longleftrightarrow> len_in 1 160 e"
proof -
  have "len_in 1 32 (dominant_version a)" by (simp add: dominant_version_def len_in_def)
  moreover have "len_in 1 64 (if wa_issuers a = [] then ''iss_unknown'' else hd (wa_issuers a))"
    using assms by (cases "wa_issuers a") (auto simp: issuers_ok_def len_in_def)
  moreover have "len_in 1 64 ''capture''" by (simp add: len_in_def)
  moreover have "unit_rate (if b then 0 else 1)" for b by (simp add: unit_rate_def)
  ultimately show ?thesis by (simp add: endpoint_window_ok_def window_of_def Let_def rate_unit)
qed

lemma window_of_fields [simp]:
  "ew_endpoint_id (window_of e n a) = e" "ew_session_count (window_of e n a) = n"
  by (simp_all add: window_of_def Let_def)

lemma session_endpoint_ne: "1 \<le> length (session_endpoint flows s)"
  by (simp add: session_endpoint_def split: option.splits)

definition window_at :: "evidence_document \<Rightarrow> string \<Rightarrow> email_session list \<Rightarrow> endpoint_window" where
  "window_at d e ss = window_of e (length ss) (fold (row_step (group_by ce_uid (ed_certificates d)))
     (map (\<lambda>s. (s, map_of (dict_of_last fl_uid (ed_flows d)) (es_uid s), map_of (dict_of_last th_uid (ed_handshakes d)) (es_uid s))) ss)
     empty_acc)"

lemma window_at_fields [simp]: "ew_endpoint_id (window_at d e ss) = e" "ew_session_count (window_at d e ss) = length ss"
  by (simp_all add: window_at_def)

lemma window_at_ok: "endpoint_window_ok (window_at d e ss) \<longleftrightarrow> len_in 1 160 e"
  unfolding window_at_def by (rule window_of_ok, rule rows_issuers) (simp add: issuers_ok_def empty_acc_def)

definition session_groups :: "evidence_document \<Rightarrow> (string \<times> email_session list) list" where
  "session_groups d = sort_key fst (group_by (session_endpoint (ed_flows d)) (ed_sessions d))"

lemma extract_eq:
  "extract_endpoint_windows d = mapE (\<lambda>(e, ss). check_model (endpoint_window_ok (window_at d e ss)) (window_at d e ss)) (session_groups d)"
  by (simp add: extract_endpoint_windows_def session_groups_def window_at_def Let_def cong: prod.case_cong)

lemma session_groups_keys: "set (map fst (session_groups d)) = session_endpoint (ed_flows d) ` set (ed_sessions d)"
  unfolding session_groups_def using group_by_keys [of "session_endpoint (ed_flows d)" "ed_sessions d"] by simp

lemma session_groups_strict: "sorted_wrt (<) (map fst (session_groups d))"
proof -
  have "distinct (map fst (session_groups d))"
    unfolding session_groups_def
    by (metis distinct_map group_by_distinct mset_eq_imp_distinct_iff mset_sort mset_map)
  moreover have "sorted (map fst (session_groups d))" by (simp add: session_groups_def)
  ultimately show ?thesis by (simp add: strict_sorted_iff)
qed

lemma session_groups_members:
  assumes "(e, ss) \<in> set (session_groups d)"
  shows "ss = filter (\<lambda>s. session_endpoint (ed_flows d) s = e) (ed_sessions d)"
  using assms group_by_member [of e ss "session_endpoint (ed_flows d)" "ed_sessions d"]
  by (simp add: session_groups_def)

lemma session_groups_total: "sum_list (map (\<lambda>(e, ss). length ss) (session_groups d)) = length (ed_sessions d)"
proof -
  let ?g = "group_by (session_endpoint (ed_flows d)) (ed_sessions d)"
  have "mset (map (\<lambda>(e, ss). length ss) (session_groups d)) = mset (map (\<lambda>(e, ss). length ss) ?g)"
    by (simp add: session_groups_def)
  then have "sum_list (map (\<lambda>(e, ss). length ss) (session_groups d)) = sum_list (map (\<lambda>(e, ss). length ss) ?g)"
    by (metis sum_mset_sum_list)
  also have "\<dots> = length (concat (map snd ?g))" by (simp add: length_concat comp_def case_prod_unfold)
  also have "\<dots> = length (ed_sessions d)"
    using group_by_partition [of "session_endpoint (ed_flows d)" "ed_sessions d"] by (metis size_mset)
  finally show ?thesis .
qed

lemma extract_Inr:
  assumes "extract_endpoint_windows d = Inr ws"
  shows "ws = map (\<lambda>(e, ss). window_at d e ss) (session_groups d)" and "list_all endpoint_window_ok ws"
    and "sorted_wrt (<) (map ew_endpoint_id ws)"
proof -
  have *: "ws = map (\<lambda>(e, ss). window_at d e ss) (session_groups d) \<and> list_all endpoint_window_ok ws"
    using assms unfolding extract_eq case_prod_unfold by (rule mapE_check [THEN iffD1])
  then show "ws = map (\<lambda>(e, ss). window_at d e ss) (session_groups d)" "list_all endpoint_window_ok ws"
    by blast+
  have "map ew_endpoint_id ws = map fst (session_groups d)" using * by (simp add: case_prod_unfold comp_def)
  then show "sorted_wrt (<) (map ew_endpoint_id ws)" using session_groups_strict by simp
qed

text \<open>Extracting endpoint windows succeeds exactly when every session's endpoint identifier has at most 160
  characters. The windows are then well formed (every rate between 0 and 1), one per responder endpoint in increasing
  order of identifier, and account for every session once: a window's session count is the number of sessions of its
  endpoint, and the counts add up to the number of sessions.\<close>

theorem windows_cover_sessions:
  "if list_all (\<lambda>s. length (session_endpoint (ed_flows d) s) \<le> 160) (ed_sessions d)
   then \<exists>ws. extract_endpoint_windows d = Inr ws \<and> list_all endpoint_window_ok ws
     \<and> sorted_wrt (<) (map ew_endpoint_id ws)
     \<and> set (map ew_endpoint_id ws) = session_endpoint (ed_flows d) ` set (ed_sessions d)
     \<and> list_all (\<lambda>w. ew_session_count w =
          length (filter (\<lambda>s. session_endpoint (ed_flows d) s = ew_endpoint_id w) (ed_sessions d))) ws
     \<and> sum_list (map ew_session_count ws) = length (ed_sessions d)
   else extract_endpoint_windows d = Inl ValidationError"
proof (cases "list_all (\<lambda>s. length (session_endpoint (ed_flows d) s) \<le> 160) (ed_sessions d)")
  case True
  let ?ws = "map (\<lambda>(e, ss). window_at d e ss) (session_groups d)"
  have ids: "map ew_endpoint_id ?ws = map fst (session_groups d)"
    and cnt: "map ew_session_count ?ws = map (\<lambda>(e, ss). length ss) (session_groups d)"
    by (simp_all add: case_prod_unfold comp_def)
  have ok: "endpoint_window_ok (window_at d e ss)" if "(e, ss) \<in> set (session_groups d)" for e ss
  proof -
    have "e \<in> session_endpoint (ed_flows d) ` set (ed_sessions d)"
      using that session_groups_keys [of d] by force
    then show ?thesis using True session_endpoint_ne by (auto simp: window_at_ok len_in_def list_all_iff)
  qed
  have "extract_endpoint_windows d = Inr ?ws"
    unfolding extract_eq by (rule mapE_total) (use ok in auto)
  moreover have "list_all endpoint_window_ok ?ws" using ok by (auto simp: list_all_iff)
  moreover have "list_all (\<lambda>w. ew_session_count w =
          length (filter (\<lambda>s. session_endpoint (ed_flows d) s = ew_endpoint_id w) (ed_sessions d))) ?ws"
    using session_groups_members by (fastforce simp: list_all_iff)
  moreover have "sorted_wrt (<) (map ew_endpoint_id ?ws)" unfolding ids by (rule session_groups_strict)
  moreover have "set (map ew_endpoint_id ?ws) = session_endpoint (ed_flows d) ` set (ed_sessions d)"
    unfolding ids by (rule session_groups_keys)
  moreover have "sum_list (map ew_session_count ?ws) = length (ed_sessions d)" unfolding cnt by (rule session_groups_total)
  ultimately show ?thesis using True by (simp only: if_True) blast
next
  case False
  then obtain s where "s \<in> set (ed_sessions d)" "160 < length (session_endpoint (ed_flows d) s)"
    by (auto simp: list_all_iff)
  then obtain ss where g: "(session_endpoint (ed_flows d) s, ss) \<in> set (session_groups d)"
    using session_groups_keys [of d] by force
  have "extract_endpoint_windows d = Inl ValidationError"
  proof (cases "extract_endpoint_windows d")
    case (Inl e)
    then show ?thesis unfolding extract_eq by (auto dest!: mapE_Inl_ex simp: py_simps)
  next
    case (Inr ws)
    then obtain w where "check_model (endpoint_window_ok (window_at d (session_endpoint (ed_flows d) s) ss))
        (window_at d (session_endpoint (ed_flows d) s) ss) = Inr w"
      unfolding extract_eq using mapE_Inr_ex [OF _ g] by fastforce
    then show ?thesis using \<open>160 < _\<close> by (simp add: py_simps window_at_ok len_in_def)
  qed
  then show ?thesis using False by simp
qed

section \<open>Lemmas: sections\<close>

lemma code_for_length: "len_in 1 64 (code_for s)"
proof -
  have "list_all (\<lambda>(f, c). len_in 1 64 c) code_for_feature" by code_simp
  then have "len_in 1 64 c" if "map_of code_for_feature f = Some c" for f c
    using map_of_SomeD [OF that] by (auto simp: list_all_iff)
  moreover have "len_in 1 64 ''ADVISORY_MULTIVARIATE_DEVIATION''" by code_simp
  ultimately show ?thesis by (simp add: code_for_def split: list.splits option.splits)
qed

definition valid_results :: "anomaly_result list \<Rightarrow> bool" where
  "valid_results as = list_all anomaly_result_ok as"

lemma mk_anomaly_ok:
  assumes "window_score_ok s" and "len_in 1 160 cohort"
  shows "\<exists>a. mk_anomaly cohort s = Inr a \<and> anomaly_result_ok a"
proof -
  have "len_in 1 160 ''advisory_anomaly''" by code_simp
  then show ?thesis
    using assms code_for_length [of s]
    by (simp add: mk_anomaly_def Let_def anomaly_result_ok_def window_score_ok_def anomaly_id_def)
qed

lemma anomaly_loop_ok:
  assumes "list_all window_score_ok ss" and "len_in 1 160 cohort"
  shows "\<exists>as. anomaly_loop cohort seen ss = Inr as \<and> valid_results as"
  using assms(1)
proof (induction ss arbitrary: seen)
  case (Cons s ss)
  have s: "window_score_ok s" and ss: "list_all window_score_ok ss" using Cons.prems by simp_all
  obtain a where a: "mk_anomaly cohort s = Inr a" "anomaly_result_ok a" using mk_anomaly_ok [OF s assms(2)] by blast
  show ?case
  proof (cases "ws_endpoint_id s @ '':'' @ ws_detector s \<in> set seen")
    case True
    then show ?thesis using Cons.IH [OF ss, of seen] by (simp add: Let_def)
  next
    case False
    obtain as where "anomaly_loop cohort ((ws_endpoint_id s @ '':'' @ ws_detector s) # seen) ss = Inr as" "valid_results as"
      using Cons.IH [OF ss] by blast
    then show ?thesis using False a by (simp add: Let_def valid_results_def)
  qed
qed (simp add: valid_results_def)

lemma anomalies_ok:
  assumes "list_all window_score_ok ss" and "len_in 1 160 cohort"
  shows "\<exists>as. anomalies_from_scores cohort ss = Inr as \<and> valid_results as"
  unfolding anomalies_from_scores_def
  by (rule anomaly_loop_ok [OF _ assms(2)]) (use assms(1) in \<open>auto simp: list_all_iff\<close>)

lemma result_items_ok:
  assumes "valid_results as"
  shows "\<exists>is. result_items as = Inr is \<and> list_all advisory_item_ok is \<and> length is = length as"
proof -
  let ?i = "\<lambda>a. \<lparr>av_code = an_code a, av_reason = an_reason a\<rparr>"
  have ok: "advisory_item_ok (?i a)" if "a \<in> set as" for a
    using that assms by (auto simp: valid_results_def list_all_iff anomaly_result_ok_def advisory_item_ok_def)
  then have "result_items as = Inr (map ?i as)"
    unfolding result_items_def by (intro mapE_total) (simp add: mk_item_def Let_def)
  then show ?thesis using ok by (auto simp: list_all_iff)
qed

lemma mk_section_ok:
  assumes "list_all advisory_item_ok is" and "is \<noteq> []" and "length is \<le> 256"
  shows "mk_section is = Inr \<lparr>as_present = True, as_items = is\<rparr> \<and> advisory_section_ok \<lparr>as_present = True, as_items = is\<rparr>"
  using assms by (simp add: mk_section_def Let_def advisory_section_ok_def)

lemma history_items:
  assumes "n < 40"
  shows "advisory_item_ok \<lparr>av_code = ''ADVISORY_INSUFFICIENT_HISTORY'', av_reason = ''Local ML history has '' @ nat_digits n
     @ '' endpoint-windows; baseline needs 14 and Isolation Forest needs 40. Deterministic findings are unchanged. field session.uid.''\<rparr>"
    and "advisory_item_ok \<lparr>av_code = ''ADVISORY_INSUFFICIENT_HISTORY'', av_reason = ''Isolation Forest needs 40 training windows; ''
     @ nat_digits n @ '' are stored. Baseline scoring ran. Deterministic findings are unchanged. field session.uid.''\<rparr>"
  using assms nat_digits_length [of n 1] by (simp_all add: advisory_item_ok_def len_in_def)

lemma none_section: "\<exists>s. advisory_section_from_results [] = Inr s \<and> advisory_section_ok s \<and> as_present s"
proof -
  let ?i = "\<lparr>av_code = ''ADVISORY_NONE'', av_reason = ''Advisory scoring ran; no endpoint-window deviation met the review threshold. Deterministic findings are unchanged. field session.uid.''\<rparr>"
  have "advisory_item_ok ?i" by (simp add: advisory_item_ok_def len_in_def)
  then show ?thesis
    using mk_section_ok [of "[?i]"] by (simp add: advisory_section_from_results_def mk_item_def Let_def)
qed

lemma history_section_ok:
  assumes "list_all window_score_ok ss" and "len_in 1 160 cohort"
  shows "\<exists>s. advisory_section_for_history n ss cohort = Inr s \<and> advisory_section_ok s \<and> as_present s"
proof (cases "n < 14")
  case True
  then show ?thesis
    using history_items(1) [of n] mk_section_ok [of "[_]"]
    by (auto simp: advisory_section_for_history_def mk_item_def Let_def)
next
  case False
  obtain as where as: "anomalies_from_scores cohort ss = Inr as" "valid_results as"
    using anomalies_ok [OF assms] by blast
  obtain more where more: "result_items as = Inr more" "list_all advisory_item_ok more" "length more = length as"
    using result_items_ok [OF as(2)] by blast
  have "\<exists>items. (if n < 40 then bindE (mk_item ''ADVISORY_INSUFFICIENT_HISTORY'' (''Isolation Forest needs 40 training windows; ''
        @ nat_digits n @ '' are stored. Baseline scoring ran. Deterministic findings are unchanged. field session.uid.''))
        (\<lambda>i. Inr [i]) else Inr []) = Inr items \<and> list_all advisory_item_ok items \<and> length items \<le> 1"
    using history_items(2) [of n] by (simp add: mk_item_def Let_def)
  then obtain items where items: "(if n < 40 then bindE (mk_item ''ADVISORY_INSUFFICIENT_HISTORY'' (''Isolation Forest needs 40 training windows; ''
        @ nat_digits n @ '' are stored. Baseline scoring ran. Deterministic findings are unchanged. field session.uid.''))
        (\<lambda>i. Inr [i]) else Inr []) = Inr items" "list_all advisory_item_ok items" "length items \<le> 1" by blast
  have eq: "advisory_section_for_history n ss cohort =
      (if as \<noteq> [] then mk_section (take 256 (items @ more))
       else if items = [] then advisory_section_from_results [] else mk_section (take 256 items))"
    unfolding advisory_section_for_history_def items(1) using False as more(1) by simp
  have tk: "list_all advisory_item_ok (take 256 xs)" if "list_all advisory_item_ok xs" for xs
    using that by (auto simp: list_all_iff dest: in_set_takeD)
  show ?thesis
  proof (cases "as = []")
    case True
    then show ?thesis unfolding eq
      using none_section mk_section_ok [OF tk [OF items(2)]] by (cases "items = []") auto
  next
    case False
    then have "take 256 (items @ more) \<noteq> []" using more(3) by (cases more) auto
    moreover have "list_all advisory_item_ok (take 256 (items @ more))" using items(2) more(2) by (intro tk) simp
    ultimately show ?thesis unfolding eq using False mk_section_ok [of "take 256 (items @ more)"] by simp
  qed
qed

lemma assign_day_index_fields:
  "map ew_endpoint_id (assign_day_index day ws) = map ew_endpoint_id ws"
  "list_all (\<lambda>w. ew_day_index w = day) (assign_day_index day ws)"
  "list_all endpoint_window_ok ws \<Longrightarrow> list_all endpoint_window_ok (assign_day_index day ws)"
  by (auto simp: assign_day_index_def list_all_iff endpoint_window_ok_def len_in_def)

lemma next_day_gt: "list_all (\<lambda>w. ew_day_index w < next_day hs) hs"
  by (auto simp: next_day_def list_all_iff less_Suc_eq_le)

lemma attach_total:
  assumes "extract_endpoint_windows (rpt_evidence r) = Inr ws"
    and "mapE (\<lambda>sc. sc (hist @ assign_day_index (next_day hist) ws)) scorers = Inr parts"
    and "list_all window_score_ok (concat parts)" and "len_in 1 160 cohort"
  shows "\<exists>section. attach_advisories_with_history scorers hist cohort r =
      Inr (r\<lparr>rpt_advisory := section\<rparr>, assign_day_index (next_day hist) ws)
    \<and> advisory_section_ok section \<and> as_present section
    \<and> (canonical_report_ok r \<longrightarrow> canonical_report_ok (r\<lparr>rpt_advisory := section\<rparr>))
    \<and> list_all (\<lambda>w. ew_day_index w < next_day hist) hist"
proof -
  let ?scores = "filter (\<lambda>s. ws_day_index s = next_day hist) (concat parts)"
  have "list_all window_score_ok ?scores" using assms(3) by (auto simp: list_all_iff)
  then obtain sc where sec: "advisory_section_for_history (length hist) ?scores cohort = Inr sc"
      "advisory_section_ok sc" "as_present sc"
    using history_section_ok [OF _ assms(4)] by blast
  have "attach_advisories_with_history scorers hist cohort r =
      Inr (r\<lparr>rpt_advisory := sc\<rparr>, assign_day_index (next_day hist) ws)"
    using assms(1,2) sec(1) by (simp add: attach_advisories_with_history_def Let_def score_windows_def)
  moreover have "canonical_report_ok r \<longrightarrow> canonical_report_ok (r\<lparr>rpt_advisory := sc\<rparr>)"
    using sec(2) by (simp add: canonical_report_ok_def manifest_tracks_evidence_def Let_def)
  ultimately show ?thesis using sec next_day_gt by blast
qed

text \<open>C31: When window extraction succeeds and the scorers return well-formed scores, attaching advisories against the
  stored history succeeds. The report changes in its advisory section only (its evidence and findings are those of
  the given report), the new section is present and valid, so a valid report stays valid; and the windows
  returned for storing are those of the report, all on one day that is later than every stored one.\<close>

theorem advisories_change_advisory_only:
  assumes "extract_endpoint_windows (rpt_evidence r) = Inr ws"
    and "mapE (\<lambda>sc. sc (hist @ assign_day_index (next_day hist) ws)) scorers = Inr parts"
    and "list_all window_score_ok (concat parts)" and "len_in 1 160 cohort"
  shows "\<exists>section. attach_advisories_with_history scorers hist cohort r =
      Inr (r\<lparr>rpt_advisory := section\<rparr>, assign_day_index (next_day hist) ws)
    \<and> advisory_section_ok section \<and> as_present section
    \<and> (canonical_report_ok r \<longrightarrow> canonical_report_ok (r\<lparr>rpt_advisory := section\<rparr>))
    \<and> list_all (\<lambda>w. ew_day_index w < next_day hist) hist"
  by (rule attach_total [OF assms])

text \<open>A scorer that flags the first window it sees.\<close>

definition sample_scorer :: scorer where
  "sample_scorer windows = Inr (map (\<lambda>w. \<lparr>ws_endpoint_id = ew_endpoint_id w, ws_day_index = ew_day_index w,
     ws_detector = ''baseline'', ws_score = 1, ws_threshold = 0, ws_above_threshold = True, ws_suppressed = False,
     ws_skip_reason = None, ws_percentile = None, ws_contributions = [], ws_reason = ''field session.uid'',
     ws_model_digest = zero_digest, ws_feature_schema_version = feature_schema_version\<rparr>) (take 1 windows))"

definition sample_session :: email_session where
  "sample_session = \<lparr>es_uid = ''C1'', es_protocol = Some MP_SMTP, es_port_hint = PH_SMTP, es_payload_evidence = PE_SMTP,
     es_evidence_state = ES_OBSERVED, es_identification_confidence = None, es_corroboration = ''none'', es_events = [],
     es_explicit_upgrade = None, es_implicit_tls = None\<rparr>"

definition sample_report :: canonical_report where
  "sample_report = \<lparr>rpt_manifest = mk_manifest (sample_document\<lparr>ed_sessions := [sample_session]\<rparr>) (sample_assemble_request 8)
       sample_renderer \<lparr>dt_wall = 0, dt_offset = Some 0\<rparr>,
     rpt_evidence = sample_document\<lparr>ed_sessions := [sample_session]\<rparr>,
     rpt_limitations = report_limitations (sample_document\<lparr>ed_sessions := [sample_session]\<rparr>), rpt_stage_errors = [],
     rpt_suppressed_findings = [], rpt_exceptions = [], rpt_advisory = \<lparr>as_present = False, as_items = []\<rparr>,
     rpt_analyst_conclusions = \<lparr>an_present = False, an_notes = []\<rparr>\<rparr>"

lemma sample_endpoint: "session_endpoint [] sample_session = ''session:C1''"
  by (simp add: session_endpoint_def dict_of_last_def sample_session_def)

lemma sample_extract:
  "extract_endpoint_windows (rpt_evidence sample_report) = Inr [window_at (rpt_evidence sample_report) ''session:C1'' [sample_session]]"
proof -
  let ?d = "rpt_evidence sample_report"
  have d: "ed_flows ?d = []" "ed_sessions ?d = [sample_session]"
    by (simp_all add: sample_report_def sample_document_def)
  have g: "session_groups ?d = [(''session:C1'', [sample_session])]"
    by (simp add: session_groups_def d group_by_def sample_endpoint)
  have "endpoint_window_ok (window_at ?d ''session:C1'' [sample_session])" unfolding window_at_ok by (simp add: len_in_def)
  then show ?thesis by (simp add: extract_eq g)
qed

theorem advisories_change_advisory_only_witness:
  "\<exists>ws section. extract_endpoint_windows (rpt_evidence sample_report) = Inr ws \<and> length ws = 1
    \<and> attach_advisories_with_history [sample_scorer] [] ''local'' sample_report
        = Inr (sample_report\<lparr>rpt_advisory := section\<rparr>, assign_day_index 0 ws) \<and> advisory_section_ok section"
proof -
  let ?w = "window_at (rpt_evidence sample_report) ''session:C1'' [sample_session]"
  note ws = sample_extract
  let ?ws = "[] @ assign_day_index (next_day []) [?w]"
  have parts: "mapE (\<lambda>sc. sc ?ws) [sample_scorer] = Inr [projr (sample_scorer ?ws)]"
    by (simp add: sample_scorer_def)
  have "list_all window_score_ok (concat [projr (sample_scorer ?ws)])"
    by (simp add: sample_scorer_def window_score_ok_def len_in_def percentile_ok_def assign_day_index_def zero_digest_ok
        feature_schema_version_def)
  moreover have "len_in 1 160 ''local''" by (simp add: len_in_def)
  ultimately show ?thesis
    using advisories_change_advisory_only [OF ws parts] ws by (auto simp: next_day_def)
qed

section \<open>Lemmas: history\<close>

definition history_ok :: "ml_history \<Rightarrow> bool" where
  "history_ok h = (1 \<le> mh_max_windows h \<and> (case mh_lines h of None \<Rightarrow> True
     | Some ls \<Rightarrow> \<exists>ws. ls = map HL_WINDOW ws \<and> list_all endpoint_window_ok ws \<and> sorted (map history_order ws)
         \<and> length ws \<le> mh_max_windows h))"

lemma last_n_short: "length xs \<le> n \<Longrightarrow> last_n n xs = xs"
  by (simp add: last_n_def)

lemma last_n_length: "length (last_n n xs) \<le> n"
  by (simp add: last_n_def)

lemma last_n_suffix: "\<exists>ys. xs = ys @ last_n n xs"
  unfolding last_n_def by (metis append_take_drop_id)

lemma load_valid:
  assumes "mh_lines h = Some (map HL_WINDOW ws)" and "list_all endpoint_window_ok ws" and "sorted (map history_order ws)"
    and "length ws \<le> mh_max_windows h"
  shows "load_windows h = Inr ws"
proof -
  have "mapE (\<lambda>l. case l of HL_WINDOW w \<Rightarrow> if endpoint_window_ok w then Inr w else Inl MlHistoryError
      | HL_INVALID \<Rightarrow> Inl MlHistoryError) (map HL_WINDOW ws) = Inr ws"
    unfolding mapE_map using assms(2) by (induction ws) simp_all
  then show ?thesis
    using assms(1,3,4) by (simp add: load_windows_def sort_key_id_if_sorted last_n_short)
qed

lemma history_ok_load:
  assumes "history_ok h"
  obtains ws where "load_windows h = Inr ws" and "list_all endpoint_window_ok ws" and "sorted (map history_order ws)"
    and "length ws \<le> mh_max_windows h"
proof (cases "mh_lines h")
  case None
  then show ?thesis using that [of "[]"] by (simp add: load_windows_def)
next
  case (Some ls)
  then show ?thesis using assms that load_valid [of h] by (auto simp: history_ok_def)
qed

lemma same_day_sorted:
  assumes "list_all (\<lambda>w. ew_day_index w = day) ws" and "sorted (map ew_endpoint_id ws)"
  shows "sorted (map history_order ws)"
  using assms by (induction ws) (auto simp: history_order_def list_all_iff)

lemma later_day_sorted:
  assumes "list_all (\<lambda>w. ew_day_index w = day) ws" and "list_all (\<lambda>w. ew_day_index w < day) hs"
    and "sorted (map history_order ws)"
  shows "sorted (map history_order (hs @ ws)) = sorted (map history_order hs)"
  using assms by (auto simp: sorted_append history_order_def list_all_iff)

lemma append_spec:
  assumes "history_ok h" and "load_windows h = Inr old" and "extract_endpoint_windows d = Inr ws"
  defines "new \<equiv> assign_day_index (next_day old) ws" and "n \<equiv> mh_max_windows h"
  shows "\<exists>h'. append_windows new h = (Inr (last_n n (old @ new)), h') \<and> load_windows h' = Inr (last_n n (old @ new))
    \<and> length (last_n n (old @ new)) \<le> n \<and> history_ok h'"
proof -
  obtain old' where "load_windows h = Inr old'" "list_all endpoint_window_ok old'" "sorted (map history_order old')"
    using history_ok_load [OF assms(1)] by metis
  then have o: "list_all endpoint_window_ok old" "sorted (map history_order old)" using assms(2) by simp_all
  note ids = extract_Inr(2,3) [OF assms(3)]
  have new: "list_all endpoint_window_ok new" "list_all (\<lambda>w. ew_day_index w = next_day old) new"
    unfolding new_def using assign_day_index_fields(2,3) ids(1) by auto
  have "sorted (map ew_endpoint_id new)"
    using ids(2) unfolding new_def assign_day_index_fields(1) by (simp add: strict_sorted_iff)
  then have "sorted (map history_order new)" by (rule same_day_sorted [OF new(2)])
  then have srt: "sorted (map history_order (old @ new))"
    using o(2) by (simp only: later_day_sorted [OF new(2) next_day_gt \<open>sorted (map history_order new)\<close>])
  let ?r = "last_n n (old @ new)"
  obtain pre where pre: "old @ new = pre @ ?r" using last_n_suffix [of "old @ new" n] by metis
  have r: "list_all endpoint_window_ok ?r" "sorted (map history_order ?r)" "length ?r \<le> n"
  proof -
    show "list_all endpoint_window_ok ?r" using o(1) new(1) pre by (metis list_all_append)
    show "sorted (map history_order ?r)" using srt pre by (metis map_append sorted_append)
  qed (rule last_n_length)
  let ?h = "h\<lparr>mh_lines := Some (map HL_WINDOW ?r)\<rparr>"
  have "append_windows new h = (Inr ?r, ?h)"
    using assms(2) by (simp add: append_windows_def op_defs Let_def n_def)
  moreover have "load_windows ?h = Inr ?r" using r by (intro load_valid) (simp_all add: n_def)
  moreover have "history_ok ?h" using assms(1) r unfolding history_ok_def n_def by auto
  ultimately show ?thesis using r(3) by blast
qed

text \<open>Appending the windows of a run to a well-formed history returns the newest windows of the history followed by
  the run's, at most the configured number, and reading the history back gives exactly what was returned; the
  history stays well formed.\<close>

theorem history_round_trip:
  assumes "history_ok h" and "load_windows h = Inr old" and "extract_endpoint_windows d = Inr ws"
  defines "new \<equiv> assign_day_index (next_day old) ws" and "n \<equiv> mh_max_windows h"
  shows "\<exists>h'. append_windows new h = (Inr (last_n n (old @ new)), h') \<and> load_windows h' = Inr (last_n n (old @ new))
    \<and> length (last_n n (old @ new)) \<le> n \<and> history_ok h'"
  unfolding new_def n_def by (rule append_spec [OF assms(1-3)])

theorem history_round_trip_witness:
  "history_ok \<lparr>mh_lines = None, mh_max_windows = 512\<rparr>
   \<and> (\<exists>h' ws. extract_endpoint_windows (rpt_evidence sample_report) = Inr ws
       \<and> append_windows (assign_day_index 0 ws) \<lparr>mh_lines = None, mh_max_windows = 512\<rparr> = (Inr (last_n 512 (assign_day_index 0 ws)), h')
       \<and> load_windows h' = Inr (last_n 512 (assign_day_index 0 ws)))"
proof -
  have h: "history_ok \<lparr>mh_lines = None, mh_max_windows = 512\<rparr>" by (simp add: history_ok_def)
  have l: "load_windows \<lparr>mh_lines = None, mh_max_windows = 512\<rparr> = Inr []" by (simp add: load_windows_def)
  obtain ws where ws: "extract_endpoint_windows (rpt_evidence sample_report) = Inr ws"
    using sample_extract by blast
  show ?thesis using history_round_trip [OF h l ws] h ws by (auto simp: next_day_def)
qed

end
