(* ===== verification/Der.thy ===== *)
theory Der
  imports Hashing
begin

text \<open>
  The bound on the ASN.1 nesting of certificate bytes (\<open>der_nesting_depth\<close> of
  \<open>application/normalize_certificates.py\<close>): a walk over tag, length and value that never decodes a value. A byte is an
  integer from 0 to 255 and a position a natural number. The walk returns one more than the bound on a length it
  does not trust.

  Shown here: the walk reads inside the bytes and ends (the termination proof), and it returns a depth within the
  bound exactly on a sequence of well-formed elements of that depth, where the elements are given by an inductive
  definition that mentions no positions.
\<close>

section \<open>The walk\<close>

definition max_asn1_depth :: nat where "max_asn1_depth = 16"

definition continues :: "int \<Rightarrow> bool" where
  \<comment> \<open>\<open>byte & 0x80\<close>\<close>
  "continues b = (b div 128 mod 2 = 1)"

definition constructed :: "int \<Rightarrow> bool" where
  \<comment> \<open>\<open>tag & 0x20\<close>\<close>
  "constructed tag = (tag div 32 mod 2 = 1)"

definition int_from_bytes :: "bytes \<Rightarrow> nat" where
  \<comment> \<open>\<open>int.from_bytes(b, "big")\<close>\<close>
  "int_from_bytes bs = foldl (\<lambda>n b. n * 256 + nat b) 0 bs"

function skip_tag :: "bytes \<Rightarrow> nat \<Rightarrow> nat \<Rightarrow> nat" where
  "skip_tag data stop cursor =
    (if cursor < stop \<and> continues (data ! cursor) then skip_tag data stop (Suc cursor) else cursor)"
  by auto
termination by (relation "measure (\<lambda>(data, stop, cursor). stop - cursor)") auto

declare skip_tag.simps [simp del]

text \<open>The length octets at \<open>cursor\<close>: where the value starts and ends. \<open>None\<close> is a length that is not trusted.\<close>

definition der_length :: "bytes \<Rightarrow> nat \<Rightarrow> nat \<Rightarrow> (nat \<times> nat) option" where
  "der_length data stop cursor =
    (if stop \<le> cursor then None
     else (let first = data ! cursor; cursor = Suc cursor;
               value = (\<lambda>start n. if stop < start + n then None else Some (start, start + n))
           in if first = 128 then None
              else if continues first then
                (let length_bytes = nat (first mod 128) in
                 if length_bytes = 0 \<or> 4 < length_bytes \<or> stop < cursor + length_bytes then None
                 else value (cursor + length_bytes) (int_from_bytes (take length_bytes (drop cursor data))))
              else value cursor (nat first)))"

definition der_header :: "bytes \<Rightarrow> nat \<Rightarrow> nat \<Rightarrow> (int \<times> nat \<times> nat) option" where
  "der_header data stop cursor =
    (let tag = data ! cursor;
         after = (if tag mod 32 = 31 then Suc (skip_tag data stop (Suc cursor)) else Suc cursor)
     in map_option (\<lambda>(start, value_end). (tag, start, value_end)) (der_length data stop after))"

lemma skip_tag_ge: "cursor \<le> skip_tag data stop cursor"
  by (induction data stop cursor rule: skip_tag.induct) (subst skip_tag.simps, auto)

lemma der_length_bounds: "der_length data stop cursor = Some (start, value_end) \<Longrightarrow> cursor < start \<and> start \<le> value_end \<and> value_end \<le> stop"
  by (auto simp: der_length_def Let_def split: if_splits)

lemma der_header_bounds:
  assumes "der_header data stop cursor = Some (tag, start, value_end)"
  shows "cursor < start \<and> start \<le> value_end \<and> value_end \<le> stop"
  using assms skip_tag_ge [of "Suc cursor" data stop]
  by (auto simp: der_header_def Let_def split: if_splits dest!: der_length_bounds)

function der_loop :: "bytes \<Rightarrow> nat \<Rightarrow> nat \<Rightarrow> nat \<Rightarrow> nat \<Rightarrow> nat \<Rightarrow> nat" where
  "der_loop data max_depth stop depth cursor deepest =
    (if stop \<le> cursor then deepest
     else if length data \<le> cursor then max_depth + 1
     else case der_header data stop cursor of
       None \<Rightarrow> max_depth + 1
     | Some (tag, start, value_end) \<Rightarrow>
         if constructed tag then
           (let inner = (if max_depth < Suc depth then Suc depth
                         else der_loop data max_depth value_end (Suc depth) start (Suc depth));
                deepest = max deepest inner
            in if max_depth < deepest then deepest else der_loop data max_depth stop depth value_end deepest)
         else der_loop data max_depth stop depth value_end deepest)"
  by auto
termination
  by (relation "measure (\<lambda>(data, max_depth, stop, depth, cursor, deepest). stop - cursor)")
     (auto dest: der_header_bounds)

declare der_loop.simps [simp del]

definition der_walk :: "bytes \<Rightarrow> nat \<Rightarrow> nat \<Rightarrow> nat \<Rightarrow> nat \<Rightarrow> nat" where
  \<comment> \<open>the inner function \<open>walk\<close>\<close>
  "der_walk data max_depth offset stop depth =
    (if max_depth < depth then depth else der_loop data max_depth stop depth offset depth)"

definition der_nesting_depth :: "bytes \<Rightarrow> nat" where
  "der_nesting_depth data = (if data = [] then 0 else der_walk data max_asn1_depth 0 (length data) 0)"

section \<open>Well-formed elements\<close>

definition is_byte :: "int \<Rightarrow> bool" where
  "is_byte b = (0 \<le> b \<and> b < 256)"

text \<open>Identifier octets: one, or the escape 31 followed by octets of which exactly the last is below 128.\<close>

inductive tag_octets :: "int \<Rightarrow> bytes \<Rightarrow> bool" where
  low: "t mod 32 \<noteq> 31 \<Longrightarrow> tag_octets t [t]"
| high: "t mod 32 = 31 \<Longrightarrow> list_all continues more \<Longrightarrow> \<not> continues final \<Longrightarrow> tag_octets t (t # more @ [final])"

text \<open>Length octets: the short form, or the long form with one to four octets.\<close>

inductive length_octets :: "nat \<Rightarrow> bytes \<Rightarrow> bool" where
  short: "n < 128 \<Longrightarrow> length_octets n [int n]"
| long: "1 \<le> length bs \<Longrightarrow> length bs \<le> 4 \<Longrightarrow> length_octets (int_from_bytes bs) ((128 + int (length bs)) # bs)"

text \<open>\<open>der_elements data d\<close>: the bytes are a sequence of elements nested \<open>d\<close> deep.\<close>

inductive der_elements :: "bytes \<Rightarrow> nat \<Rightarrow> bool" where
  none: "der_elements [] 0"
| primitive: "tag_octets t ts \<Longrightarrow> \<not> constructed t \<Longrightarrow> length_octets (length v) ls \<Longrightarrow> der_elements rest d
    \<Longrightarrow> der_elements (ts @ ls @ v @ rest) d"
| nested: "tag_octets t ts \<Longrightarrow> constructed t \<Longrightarrow> length_octets (length v) ls \<Longrightarrow> der_elements v d\<^sub>1 \<Longrightarrow> der_elements rest d\<^sub>2
    \<Longrightarrow> der_elements (ts @ ls @ v @ rest) (max (Suc d\<^sub>1) d\<^sub>2)"

section \<open>The walk accepts every well-formed sequence\<close>

lemma skip_tag_run:
  assumes "list_all continues more" and "\<not> continues final" and "length pre + length more < stop"
  shows "skip_tag (pre @ more @ final # post) stop (length pre) = length pre + length more"
  using assms
proof (induction more arbitrary: pre)
  case Nil
  then show ?case by (subst skip_tag.simps) (simp add: nth_append)
next
  case (Cons m more)
  then show ?case using Cons.IH [of "pre @ [m]"] by (subst skip_tag.simps) (simp add: nth_append)
qed

lemma der_length_run:
  assumes "length_octets n ls" and "length pre + length ls + n \<le> stop"
  shows "der_length (pre @ ls @ post) stop (length pre) = Some (length pre + length ls, length pre + length ls + n)"
  using assms(1)
proof cases
  case short
  then show ?thesis using assms(2) by (auto simp: der_length_def Let_def continues_def nth_append)
next
  case (long bs)
  have "continues (128 + int (length bs))" "nat ((128 + int (length bs)) mod 128) = length bs"
    using long(3,4) by (auto simp: continues_def)
  then show ?thesis using assms(2) long by (auto simp: der_length_def Let_def nth_append)
qed

lemma der_header_run:
  assumes "tag_octets t ts" and "length_octets n ls" and "length pre + length ts + length ls + n \<le> stop"
  shows "der_header (pre @ ts @ ls @ post) stop (length pre)
    = Some (t, length pre + length ts + length ls, length pre + length ts + length ls + n)"
proof -
  have len: "der_length ((pre @ ts) @ ls @ post) stop (length (pre @ ts))
      = Some (length (pre @ ts) + length ls, length (pre @ ts) + length ls + n)"
    by (rule der_length_run) (use assms(2,3) in simp_all)
  from assms(1) show ?thesis
  proof cases
    case low
    then show ?thesis using len by (simp add: der_header_def nth_append)
  next
    case (high more final)
    have "skip_tag ((pre @ [t]) @ more @ final # ls @ post) stop (length (pre @ [t])) = length (pre @ [t]) + length more"
      by (rule skip_tag_run) (use high assms(3) in simp_all)
    then show ?thesis using len high by (simp add: der_header_def nth_append)
  qed
qed

lemma octets_nonempty: "tag_octets t ts \<Longrightarrow> ts \<noteq> []"
  by (induction rule: tag_octets.induct) simp_all

lemma max_nested: "max (max a (Suc (b + c))) (b + d) = max a (b + max (Suc c) d)"
  by auto

lemma der_loop_run:
  assumes "der_elements bs d" and "depth + d \<le> m" and "deepest \<le> m" and "depth \<le> deepest"
  shows "der_loop (pre @ bs @ post) m (length pre + length bs) depth (length pre) deepest = max deepest (depth + d)"
  using assms
proof (induction arbitrary: pre post depth deepest rule: der_elements.induct)
  case none
  then show ?case by (subst der_loop.simps) simp
next
  case (primitive t ts v ls rest d)
  let ?data = "pre @ (ts @ ls @ v @ rest) @ post"
  have h: "der_header ?data (length pre + length (ts @ ls @ v @ rest)) (length pre)
      = Some (t, length pre + length ts + length ls, length pre + length ts + length ls + length v)"
    using der_header_run [OF primitive.hyps(1,3), of pre _ "v @ rest @ post"] by simp
  have "der_loop ((pre @ ts @ ls @ v) @ rest @ post) m (length (pre @ ts @ ls @ v) + length rest) depth (length (pre @ ts @ ls @ v)) deepest
      = max deepest (depth + d)"
    using primitive.IH primitive.prems by blast
  then show ?case using h primitive.hyps(2) octets_nonempty [OF primitive.hyps(1)]
    by (subst der_loop.simps) (simp add: add.assoc)
next
  case (nested t ts v ls d\<^sub>1 rest d\<^sub>2)
  let ?data = "pre @ (ts @ ls @ v @ rest) @ post"
  have h: "der_header ?data (length pre + length (ts @ ls @ v @ rest)) (length pre)
      = Some (t, length pre + length ts + length ls, length pre + length ts + length ls + length v)"
    using der_header_run [OF nested.hyps(1,3), of pre _ "v @ rest @ post"] by simp
  have inner: "der_loop ((pre @ ts @ ls) @ v @ rest @ post) m (length (pre @ ts @ ls) + length v) (Suc depth) (length (pre @ ts @ ls)) (Suc depth)
      = max (Suc depth) (Suc depth + d\<^sub>1)"
    using nested.IH(1) [of "Suc depth" "Suc depth" "pre @ ts @ ls" "rest @ post"] nested.prems by simp
  have outer: "der_loop ((pre @ ts @ ls @ v) @ rest @ post) m (length (pre @ ts @ ls @ v) + length rest) depth (length (pre @ ts @ ls @ v))
      (max deepest (Suc depth + d\<^sub>1)) = max (max deepest (Suc depth + d\<^sub>1)) (depth + d\<^sub>2)"
    using nested.IH(2) [of depth "max deepest (Suc depth + d\<^sub>1)" "pre @ ts @ ls @ v" post] nested.prems by simp
  have bounds: "\<not> m < Suc depth" "\<not> m < max deepest (Suc (depth + d\<^sub>1))" using nested.prems by auto
  show ?case using h nested.hyps(2) octets_nonempty [OF nested.hyps(1)] inner outer
    by (subst der_loop.simps) (simp add: add.assoc bounds max_nested Let_def)
qed

section \<open>The walk accepts nothing else\<close>

definition part :: "nat \<Rightarrow> nat \<Rightarrow> bytes \<Rightarrow> bytes" where
  "part a b data = take (b - a) (drop a data)"

lemma part_append: "a \<le> b \<Longrightarrow> b \<le> c \<Longrightarrow> part a b data @ part b c data = part a c data"
  using take_add [of "b - a" "c - b" "drop a data"] by (simp add: part_def)

lemma part_length: "b \<le> length data \<Longrightarrow> length (part a b data) = b - a"
  by (simp add: part_def)

lemma part_Suc: "a < b \<Longrightarrow> b \<le> length data \<Longrightarrow> part a b data = data ! a # part (Suc a) b data"
  by (simp add: part_def Cons_nth_drop_Suc [symmetric] take_Cons')

lemma part_snoc: "a \<le> b \<Longrightarrow> b < length data \<Longrightarrow> part a (Suc b) data = part a b data @ [data ! b]"
  by (simp add: part_def Suc_diff_le take_Suc_conv_app_nth)

lemma skip_tag_sound:
  assumes "cursor \<le> stop" and "stop \<le> length data"
  shows "cursor \<le> skip_tag data stop cursor \<and> skip_tag data stop cursor \<le> stop
    \<and> list_all continues (part cursor (skip_tag data stop cursor) data)
    \<and> (skip_tag data stop cursor < stop \<longrightarrow> \<not> continues (data ! skip_tag data stop cursor))"
  using assms
proof (induction data stop cursor rule: skip_tag.induct)
  case (1 data stop cursor)
  show ?case
  proof (cases "cursor < stop \<and> continues (data ! cursor)")
    case True
    then have step: "skip_tag data stop cursor = skip_tag data stop (Suc cursor)" by (subst skip_tag.simps) simp
    have ih: "Suc cursor \<le> skip_tag data stop (Suc cursor)" "skip_tag data stop (Suc cursor) \<le> stop"
      "list_all continues (part (Suc cursor) (skip_tag data stop (Suc cursor)) data)"
      "skip_tag data stop (Suc cursor) < stop \<longrightarrow> \<not> continues (data ! skip_tag data stop (Suc cursor))"
      using "1.IH" True "1.prems" by auto
    show ?thesis using ih True "1.prems"(2) unfolding step by (simp add: part_Suc)
  next
    case False
    then have "skip_tag data stop cursor = cursor" by (subst skip_tag.simps) auto
    then show ?thesis using False "1.prems" by (auto simp: part_def)
  qed
qed

lemma continues_byte: "is_byte b \<Longrightarrow> continues b \<longleftrightarrow> 128 \<le> b"
proof -
  assume "is_byte b"
  then have "b div 128 = 0 \<or> b div 128 = 1" "128 \<le> b \<longleftrightarrow> b div 128 = 1" by (auto simp: is_byte_def)
  then show ?thesis by (auto simp: continues_def)
qed

lemma high_byte: "128 \<le> (b::int) \<Longrightarrow> b < 256 \<Longrightarrow> b = 128 + b mod 128"
  by presburger

lemma der_length_sound:
  assumes "der_length data stop cursor = Some (start, value_end)" and "stop \<le> length data" and "list_all is_byte data"
  shows "length_octets (value_end - start) (part cursor start data)"
proof -
  have c: "cursor < stop" using assms(1) by (auto simp: der_length_def split: if_splits)
  then have byte: "is_byte (data ! cursor)" using assms(2,3) by (simp add: list_all_length)
  show ?thesis
  proof (cases "continues (data ! cursor)")
    case True
    define n where "n = nat (data ! cursor mod 128)"
    have n: "1 \<le> n" "n \<le> 4" "Suc cursor + n \<le> stop" "start = Suc cursor + n"
      "value_end = start + int_from_bytes (take n (drop (Suc cursor) data))"
      using assms(1) c True unfolding n_def by (auto simp: der_length_def Let_def split: if_splits)
    have "128 \<le> data ! cursor" "data ! cursor < 256" using byte True continues_byte by (auto simp: is_byte_def)
    then have "data ! cursor = 128 + int n" unfolding n_def using high_byte [of "data ! cursor"] by simp
    moreover have "part cursor start data = data ! cursor # take n (drop (Suc cursor) data)"
      using n(3,4) assms(2) by (subst part_Suc) (simp_all add: part_def)
    moreover have "length (take n (drop (Suc cursor) data)) = n" using n(3) assms(2) by simp
    ultimately show ?thesis using length_octets.long [of "take n (drop (Suc cursor) data)"] n by simp
  next
    case False
    then have "0 \<le> data ! cursor" "data ! cursor < 128" using byte continues_byte by (auto simp: is_byte_def)
    moreover have "start = Suc cursor" "value_end = start + nat (data ! cursor)"
      using assms(1) c False by (auto simp: der_length_def Let_def split: if_splits)
    moreover have "part cursor (Suc cursor) data = [data ! cursor]"
      using c assms(2) by (subst part_Suc) (simp_all add: part_def)
    ultimately show ?thesis using length_octets.short [of "nat (data ! cursor)"] by simp
  qed
qed

lemma der_header_sound:
  assumes "der_header data stop cursor = Some (t, start, value_end)" and "cursor < stop" and "stop \<le> length data"
    and "list_all is_byte data"
  obtains ts ls where "tag_octets t ts" and "length_octets (value_end - start) ls" and "part cursor start data = ts @ ls"
proof -
  define after where "after = (if data ! cursor mod 32 = 31 then Suc (skip_tag data stop (Suc cursor)) else Suc cursor)"
  have t: "t = data ! cursor" and len: "der_length data stop after = Some (start, value_end)"
    using assms(1) unfolding after_def by (auto simp: der_header_def Let_def split: if_splits)
  have bounds: "after < start" "start \<le> stop" using der_length_bounds [OF len] by auto
  have "tag_octets t (part cursor after data)"
  proof (cases "data ! cursor mod 32 = 31")
    case True
    let ?k = "skip_tag data stop (Suc cursor)"
    have k: "Suc cursor \<le> ?k" "?k < stop" "list_all continues (part (Suc cursor) ?k data)" "\<not> continues (data ! ?k)"
      using skip_tag_sound [of "Suc cursor" stop data] assms(2,3) bounds True by (auto simp: after_def)
    have "part cursor after data = data ! cursor # part (Suc cursor) ?k data @ [data ! ?k]"
      using True k assms(3) part_Suc [of cursor "Suc ?k" data] part_snoc [of "Suc cursor" ?k data] unfolding after_def by simp
    then show ?thesis using tag_octets.high [of t "part (Suc cursor) ?k data" "data ! ?k"] True k t by simp
  next
    case False
    then have "part cursor after data = [t]"
      using assms(2,3) t unfolding after_def by (simp add: part_Suc) (simp add: part_def)
    then show ?thesis using tag_octets.low [of t] False t by simp
  qed
  moreover have "length_octets (value_end - start) (part after start data)" using der_length_sound [OF len assms(3,4)] .
  moreover have "cursor \<le> after" using skip_tag_ge [of "Suc cursor" data stop] by (auto simp: after_def)
  then have "part cursor start data = part cursor after data @ part after start data"
    using bounds(1) by (simp add: part_append)
  ultimately show thesis by (rule that)
qed

lemma der_loop_sound:
  assumes "der_loop data m stop depth cursor deepest \<le> m" and "cursor \<le> stop" and "stop \<le> length data"
    and "list_all is_byte data" and "depth \<le> deepest"
  shows "\<exists>d. der_elements (part cursor stop data) d \<and> der_loop data m stop depth cursor deepest = max deepest (depth + d)"
  using assms
proof (induction data m stop depth cursor deepest rule: der_loop.induct)
  case (1 data m stop depth cursor deepest)
  show ?case
  proof (cases "cursor = stop")
    case True
    then show ?thesis using der_elements.none "1.prems"(5)
      by (intro exI [of _ 0]) (subst der_loop.simps, simp add: part_def)
  next
    case False
    then have c: "\<not> stop \<le> cursor" "\<not> length data \<le> cursor" using "1.prems" by auto
    obtain t start v where h: "der_header data stop cursor = Some (t, start, v)"
      using "1.prems"(1) c by (subst (asm) der_loop.simps) (auto split: option.splits)
    note b = der_header_bounds [OF h]
    obtain ts ls where hd: "tag_octets t ts" "length_octets (v - start) ls" "part cursor start data = ts @ ls"
      using der_header_sound [OF h] c "1.prems" by (metis not_le)
    have len: "length_octets (length (part start v data)) ls" using hd(2) b "1.prems"(3) by (simp add: part_length)
    have whole: "part cursor stop data = ts @ ls @ part start v data @ part v stop data"
      using b hd(3) part_append [of cursor start stop data] part_append [of start v stop data] by simp
    show ?thesis
    proof (cases "constructed t")
      case False
      then have run: "der_loop data m stop depth cursor deepest = der_loop data m stop depth v deepest"
        using h c by (subst der_loop.simps) simp
      obtain d where "der_elements (part v stop data) d" "der_loop data m stop depth v deepest = max deepest (depth + d)"
        using "1.IH"(3) [OF c h refl refl False] "1.prems" run b by auto
      then show ?thesis using der_elements.primitive [OF hd(1) False len] run whole by metis
    next
      case True
      define inner where "inner = (if m < Suc depth then Suc depth else der_loop data m v (Suc depth) start (Suc depth))"
      have run: "der_loop data m stop depth cursor deepest =
          (if m < max deepest inner then max deepest inner else der_loop data m stop depth v (max deepest inner))"
        using h c True unfolding inner_def by (subst der_loop.simps) (simp add: Let_def)
      then have ok: "\<not> m < max deepest inner" using "1.prems"(1) by (auto split: if_splits)
      then have dm: "\<not> m < Suc depth" "inner = der_loop data m v (Suc depth) start (Suc depth)" by (auto simp: inner_def split: if_splits)
      have im: "inner \<le> m" using ok by simp
      obtain d\<^sub>1 where d1: "der_elements (part start v data) d\<^sub>1" "inner = max (Suc depth) (Suc depth + d\<^sub>1)"
        using "1.IH"(1) [OF c h refl refl True dm(1)] im dm(2) b "1.prems" by auto
      have le: "depth \<le> max deepest inner" using "1.prems"(5) by simp
      obtain d\<^sub>2 where d2: "der_elements (part v stop data) d\<^sub>2"
          "der_loop data m stop depth v (max deepest inner) = max (max deepest inner) (depth + d\<^sub>2)"
        using "1.IH"(2) [OF c h refl refl True inner_def refl ok] le run ok b "1.prems" by auto
      have "der_loop data m stop depth cursor deepest = max deepest (depth + max (Suc d\<^sub>1) d\<^sub>2)"
        using run ok d1(2) d2(2) by (simp add: max_nested)
      then show ?thesis using der_elements.nested [OF hd(1) True len d1(1) d2(1)] whole by metis
    qed
  qed
qed

lemma der_elements_Nil: "der_elements bs d \<Longrightarrow> bs = [] \<Longrightarrow> d = 0"
  by (induction rule: der_elements.induct) (auto dest: octets_nonempty)

section \<open>Properties\<close>

text \<open>C40: The nesting depth of certificate bytes is exact. The walk returns a depth within the bound if and only if the
  bytes are a sequence of well-formed elements nested that deep; a bad length, a truncated element or too many
  levels give a result beyond the bound.\<close>

theorem der_nesting_depth_exact:
  assumes "list_all is_byte data"
  shows "der_nesting_depth data = d \<and> d \<le> 16 \<longleftrightarrow> der_elements data d \<and> d \<le> 16"
proof (cases "data = []")
  case True
  then show ?thesis using der_elements_Nil der_elements.none by (auto simp: der_nesting_depth_def)
next
  case False
  then have run: "der_nesting_depth data = der_loop data 16 (length data) 0 0 0"
    by (simp add: der_nesting_depth_def der_walk_def max_asn1_depth_def)
  have whole: "part 0 (length data) data = data" by (simp add: part_def)
  show ?thesis
  proof
    assume "der_elements data d \<and> d \<le> 16"
    then show "der_nesting_depth data = d \<and> d \<le> 16" using der_loop_run [of data d 0 16 0 "[]" "[]"] run by simp
  next
    assume d: "der_nesting_depth data = d \<and> d \<le> 16"
    then obtain e where "der_elements data e" "der_loop data 16 (length data) 0 0 0 = max 0 (0 + e)"
      using der_loop_sound [of data 16 "length data" 0 0 0] assms run whole by auto
    then show "der_elements data d \<and> d \<le> 16" using d run by simp
  qed
qed

text \<open>A SEQUENCE that holds an INTEGER.\<close>

lemma sample_elements: "der_elements [48, 3, 2, 1, 5] 1"
proof -
  have "der_elements ([2] @ [1] @ [5] @ []) 0"
    by (rule der_elements.primitive [of 2]) (auto intro: tag_octets.low length_octets.short [of 1, simplified] der_elements.none simp: constructed_def)
  then have "der_elements [2, 1, 5] 0" by simp
  moreover have "tag_octets 48 [48]" by (rule tag_octets.low) simp
  moreover have "length_octets (length [2, 1, 5 :: int]) [3]" using length_octets.short [of "length [2, 1, 5 :: int]"] by simp
  ultimately have "der_elements ([48] @ [3] @ [2, 1, 5] @ []) (max (Suc 0) 0)"
    by (intro der_elements.nested) (auto intro: der_elements.none simp: constructed_def)
  then show ?thesis by simp
qed

theorem der_nesting_depth_exact_witness: "der_nesting_depth [48, 3, 2, 1, 5] = 1 \<and> der_elements [48, 3, 2, 1, 5] 1"
proof -
  have "list_all is_byte [48, 3, 2, 1, 5]" by (simp add: is_byte_def)
  from der_nesting_depth_exact [OF this, of 1] show ?thesis using sample_elements by simp
qed

end
