(* ===== verification/Sessions.thy ===== *)
theory Sessions
  imports Starttls
begin

text \<open>
  The session normalizer (\<open>application/normalize_sessions.py\<close>): the rows of Zeek's \<open>sm_email.log\<close> and the frames
  of an optional TShark pass become redacted protocol events, the events of the two analyzers are merged, the mail
  protocol is resolved from them and from the negotiated ALPN, and every session is assessed with the machines
  of \<^theory_text>\<open>Starttls\<close>.

  A timestamp is an exact rational: rounding to a double is not modelled, and neither are the non-finite values
  (the texts \<open>nan\<close> and \<open>inf\<close>), which neither analyzer writes. A Python set is a list whose order and repetitions
  are not used. The mutable fields of \<open>_Stamped\<close> are updated in place in the list that holds it.

  Shown here: no argument or text of a command that may carry a secret reaches a session; merging keeps every event,
  and two observations are merged only if they agree and lie within two seconds of each other; the protocol of a
  session is never taken from a port; and sessions come out once per connection, in key order.
\<close>

section \<open>Readers\<close>

text \<open>\<open>float(s)\<close>: optional sign, digits with single underscores between them, fraction and exponent.\<close>

fun digit_part :: "string \<Rightarrow> bool" where
  "digit_part [] = False"
| "digit_part [c] = is_digit c"
| "digit_part (c # d # cs) = (is_digit c \<and> (digit_part (d # cs) \<or> (d = CHR ''_'' \<and> digit_part cs)))"

definition plain_digits :: "string \<Rightarrow> string" where
  "plain_digits s = filter is_digit s"

definition split_sign :: "string \<Rightarrow> bool \<times> string" where
  "split_sign s = (case s of c # cs \<Rightarrow> if c = CHR ''-'' then (True, cs) else if c = CHR ''+'' then (False, cs) else (False, s)
     | [] \<Rightarrow> (False, []))"

definition is_exponent_char :: "char \<Rightarrow> bool" where
  "is_exponent_char c = (c = CHR ''e'' \<or> c = CHR ''E'')"

definition py_float_of_string :: "string \<Rightarrow> rat option" where
  \<comment> \<open>\<open>None\<close> when \<open>float(s)\<close> raises \<open>ValueError\<close>\<close>
  "py_float_of_string s =
    (let (neg, body) = split_sign (num_strip s);
         mantissa = takeWhile (\<lambda>c. \<not> is_exponent_char c) body;
         exponent = drop (length mantissa) body;
         whole = takeWhile (\<lambda>c. c \<noteq> CHR ''.'') mantissa;
         fraction = drop (Suc (length whole)) mantissa;
         (eneg, edigits) = split_sign (tl exponent);
         e = digits_to_nat (plain_digits edigits);
         m = of_nat (digits_to_nat (plain_digits whole @ plain_digits fraction)) / 10 ^ length (plain_digits fraction);
         v = (if exponent = [] then m else if eneg then m / 10 ^ e else m * 10 ^ e)
     in if (whole = [] \<or> digit_part whole) \<and> (fraction = [] \<or> digit_part fraction) \<and> (whole \<noteq> [] \<or> fraction \<noteq> [])
           \<and> (exponent = [] \<or> digit_part edigits)
        then Some (if neg then - v else v) else None)"

text \<open>\<open>float(i)\<close> of an integer that a double cannot hold raises \<open>OverflowError\<close>.\<close>

definition double_limit :: int where
  "double_limit = 2 ^ 1024 - 2 ^ 970"

fun as_float :: "json \<Rightarrow> rat option result" where
  "as_float (JBool _) = Inr None"
| "as_float (JInt i) = (if double_limit \<le> \<bar>i\<bar> then Inl OverflowError else Inr (Some (of_int i)))"
| "as_float (JFloat r) = Inr (Some r)"
| "as_float (JStr s) = Inr (py_float_of_string s)"
| "as_float _ = Inr None"

text \<open>\<open>_as_str\<close> of this module also joins the strings of a list.\<close>

fun nonempty_str :: "json \<Rightarrow> string option" where
  "nonempty_str (JStr s) = (if s = [] then None else Some s)"
| "nonempty_str _ = None"

fun as_text :: "nat \<Rightarrow> json \<Rightarrow> string option" where
  "as_text max_len (JStr s) = (if s = [] \<or> max_len < length s then None else Some s)"
| "as_text max_len (JList items) =
     (let parts = List.map_filter nonempty_str items in
      if parts = [] then None else Some (take max_len (py_join '','' parts)))"
| "as_text max_len _ = None"

definition bound_text :: "string option \<Rightarrow> string option" where
  "bound_text value = (case value of None \<Rightarrow> None
     | Some v \<Rightarrow> let stripped = py_strip v in if stripped = [] then None else Some (take 128 stripped))"

definition secret_commands :: "string list" where
  "secret_commands = [''AUTH'', ''LOGIN'', ''USER'', ''PASS'', ''APOP'', ''AUTHENTICATE'', ''AUTH_ANSWER'', ''**'',
     ''MAIL'', ''RCPT'']"

definition redact :: "string option \<Rightarrow> string option \<Rightarrow> string option" where
  \<comment> \<open>\<open>_redact_argument\<close> and \<open>_redact_text\<close>, which are the same function\<close>
  "redact command value = (case bound_text value of None \<Rightarrow> None
     | Some bounded \<Rightarrow> (case command of
         None \<Rightarrow> Some bounded
       | Some c \<Rightarrow> if py_upper c \<in> set secret_commands then Some ''<redacted>'' else Some bounded))"

section \<open>Events\<close>

definition all_event_kinds :: "session_event_kind list" where
  "all_event_kinds = [SK_REQUEST, SK_REPLY, SK_CAPABILITY, SK_STARTTLS, SK_CONFIRMATION, SK_AMBIGUOUS_BANNER, SK_UNEXPECTED]"

definition kind_from_name :: "string option \<Rightarrow> session_event_kind option" where
  "kind_from_name raw = (case raw of None \<Rightarrow> None
     | Some s \<Rightarrow> map_of (map (\<lambda>k. (sk_value k, k)) all_event_kinds) (py_lower s))"

definition protocol_from_name :: "string option \<Rightarrow> mail_protocol option" where
  "protocol_from_name raw = (case raw of None \<Rightarrow> None
     | Some s \<Rightarrow> map_of [(''smtp'', MP_SMTP), (''imap'', MP_IMAP), (''pop3'', MP_POP3)] (py_lower s))"

definition event_direction :: "bool option \<Rightarrow> stream_direction" where
  "event_direction is_orig = (if is_orig \<noteq> Some False then SD_ORIG else SD_RESP)"

definition protocol_event_ok :: "protocol_event \<Rightarrow> bool" where
  "protocol_event_ok e = (case pe_frame_number e of None \<Rightarrow> True | Some n \<Rightarrow> 1 \<le> n)"

definition mk_event :: "protocol_event \<Rightarrow> protocol_event result" where
  "mk_event e = check_model (protocol_event_ok e) e"

definition event_from_email_row :: "json_row \<Rightarrow> protocol_event option result" where
  "event_from_email_row row =
    (case kind_from_name (as_text 32 (row_get row ''event_type'')) of
       None \<Rightarrow> Inr None
     | Some kind \<Rightarrow>
        (let command = map_option py_upper (as_text 32 (row_get row ''command''));
             argument = redact command (as_text 128 (row_get row ''argument''));
             text = redact command (as_text 256 (row_get row ''text''))
         in bindE (as_int (row_get row ''reply_code'')) (\<lambda>reply_code.
            bindE (mk_event \<lparr>pe_direction = event_direction (as_bool (row_get row ''is_orig'')), pe_kind = kind,
              pe_command = command, pe_argument = argument, pe_reply_code = reply_code, pe_text = text,
              pe_frame_number = None, pe_source = Some SRC_ZEEK, pe_tag = None\<rparr>) (\<lambda>e. Inr (Some e)))))"

definition tshark_protocol :: "json_row \<Rightarrow> mail_protocol option" where
  "tshark_protocol frame =
    (let present = (\<lambda>key. truthy_str (as_text 32 (row_get frame key))) in
     if present ''imap.request.command'' \<or> present ''imap.response.status'' then Some MP_IMAP
     else if present ''pop.request.command'' \<or> present ''pop.response.indicator'' then Some MP_POP3
     else if present ''smtp.req.command'' \<or> present ''smtp.response.code'' then Some MP_SMTP
     else None)"

definition tshark_request :: "string \<Rightarrow> nat option \<Rightarrow> string option \<Rightarrow> protocol_event" where
  "tshark_request command frame_number tag = \<lparr>pe_direction = SD_ORIG, pe_kind = SK_REQUEST, pe_command = Some command,
     pe_argument = redact (Some command) None, pe_reply_code = None, pe_text = None, pe_frame_number = frame_number,
     pe_source = Some SRC_TSHARK, pe_tag = tag\<rparr>"

definition tshark_reply :: "nat option \<Rightarrow> string option \<Rightarrow> nat option \<Rightarrow> string option \<Rightarrow> protocol_event" where
  "tshark_reply reply_code text frame_number tag = \<lparr>pe_direction = SD_RESP, pe_kind = SK_REPLY, pe_command = None,
     pe_argument = None, pe_reply_code = reply_code, pe_text = text, pe_frame_number = frame_number,
     pe_source = Some SRC_TSHARK, pe_tag = tag\<rparr>"

definition frame_number_of :: "json_row \<Rightarrow> nat option result" where
  "frame_number_of frame = bindE (as_int (row_get frame ''frame.number'')) (\<lambda>n.
     Inr (case n of None \<Rightarrow> None | Some k \<Rightarrow> if k < 1 then None else Some k))"

definition tshark_event :: "json_row \<Rightarrow> mail_protocol \<Rightarrow> protocol_event option result" where
  "tshark_event frame protocol =
    bindE (frame_number_of frame) (\<lambda>frame_number.
    let tag = as_text 32 (row_get frame ''imap.tag'');
        made = (\<lambda>e. bindE (mk_event e) (\<lambda>e. Inr (Some e))) in
    case protocol of
      MP_IMAP \<Rightarrow>
       (case as_text 32 (row_get frame ''imap.request.command'') of
          Some request \<Rightarrow> made (tshark_request (py_upper request) frame_number tag)
        | None \<Rightarrow> (case as_text 32 (row_get frame ''imap.response.status'') of
            Some status \<Rightarrow> made (tshark_reply None (bound_text (Some (py_upper status))) frame_number tag)
          | None \<Rightarrow> Inr None))
    | MP_POP3 \<Rightarrow>
       (case as_text 32 (row_get frame ''pop.request.command'') of
          Some request \<Rightarrow> made (tshark_request (py_upper request) frame_number None)
        | None \<Rightarrow> (case as_text 32 (row_get frame ''pop.response.indicator'') of
            Some indicator \<Rightarrow> made (tshark_reply None (bound_text (Some (py_upper indicator))) frame_number None)
          | None \<Rightarrow> Inr None))
    | MP_SMTP \<Rightarrow>
       (case as_text 32 (row_get frame ''smtp.req.command'') of
          Some request \<Rightarrow>
            (let command = py_upper request;
                 command = (if command = ''STAR'' then ''STARTTLS'' else command)
             in made (tshark_request command frame_number None))
        | None \<Rightarrow> bindE (as_int (row_get frame ''smtp.response.code'')) (\<lambda>code. case code of
            Some c \<Rightarrow> made (tshark_reply (Some c) None frame_number None)
          | None \<Rightarrow> Inr None)))"

section \<open>Which connection a frame belongs to\<close>

definition port_hint_for_flow :: "flow \<Rightarrow> port_hint" where
  "port_hint_for_flow f =
    (let hint = (\<lambda>port. if port \<in> {25, 465, 587} then Some PH_SMTP
           else if port \<in> {143, 993} then Some PH_IMAP
           else if port \<in> {110, 995} then Some PH_POP3 else None)
     in case hint (fe_port (fl_resp f)) of Some h \<Rightarrow> h
        | None \<Rightarrow> (case hint (fe_port (fl_orig f)) of Some h \<Rightarrow> h | None \<Rightarrow> PH_NONE))"

definition flow_addresses :: "flow \<Rightarrow> (string \<times> nat) list" where
  "flow_addresses f = [(fe_host (fl_orig f), fe_port (fl_orig f)), (fe_host (fl_resp f), fe_port (fl_resp f))]"

definition frame_endpoints :: "json_row \<Rightarrow> (string \<times> nat) list result" where
  "frame_endpoints frame =
    bindE (as_int (row_get frame ''tcp.srcport'')) (\<lambda>src_port.
    bindE (as_int (row_get frame ''tcp.dstport'')) (\<lambda>dst_port.
    let endpoint = (\<lambda>port host_key. case (as_text 253 (row_get frame host_key), port) of
          (Some host, Some p) \<Rightarrow> if p \<le> 65535 then Some (host, p) else None
        | _ \<Rightarrow> None)
    in Inr (List.map_filter (endpoint src_port) [''ip.src'', ''ipv6.src'']
            @ List.map_filter (endpoint dst_port) [''ip.dst'', ''ipv6.dst''])))"

definition match_frame_uid :: "json_row \<Rightarrow> flow list \<Rightarrow> string option result" where
  "match_frame_uid frame flows =
    bindE (frame_endpoints frame) (\<lambda>endpoints.
    if length (remdups endpoints) < 2 then Inr None
    else (case filter (\<lambda>f. set endpoints \<subseteq> set (flow_addresses f)) flows of
        [f] \<Rightarrow> Inr (Some (fl_uid f))
      | _ \<Rightarrow> Inr None))"

definition is_client_hello_frame :: "json_row \<Rightarrow> bool" where
  "is_client_hello_frame frame =
    (let raw = row_get frame ''tls.handshake.type'' in
     if py_eq raw (JInt 1) then True
     else (case raw of JStr s \<Rightarrow> py_strip (hd (py_split (CHR '','') s)) \<in> {''1'', ''1.0''} | _ \<Rightarrow> False))"

definition ssl_step :: "json_row \<Rightarrow> (string, ssl_facts) dict \<Rightarrow> (string, ssl_facts) dict" where
  "ssl_step row facts =
    (case as_text 64 (row_get row ''uid'') of
       None \<Rightarrow> facts
     | Some uid \<Rightarrow>
         let history = or_str (as_text 64 (row_get row ''ssl_history'')) [] in
         AList.update uid \<lparr>sf_client_hello = (CHR ''C'' \<in> set history),
           sf_next_protocol = as_text 32 (row_get row ''next_protocol'')\<rparr> facts)"

definition ssl_facts_of :: "(string, json) dict \<Rightarrow> (string, ssl_facts) dict" where
  "ssl_facts_of logs = fold ssl_step (bounded_records (logs_get logs ''ssl.log'')) []"

section \<open>Merging the two analyzers' events\<close>

record stamped =
  sd_ts :: rat
  sd_order :: nat
  sd_uid :: string
  sd_protocol :: "mail_protocol option"
  sd_event :: protocol_event
  sd_matched :: bool

definition same_reply :: "protocol_event \<Rightarrow> protocol_event \<Rightarrow> bool result" where
  \<comment> \<open>the branch for two replies; \<open>ztext.split()[0]\<close> raises on a blank text\<close>
  "same_reply z t =
    (case (pe_reply_code z, pe_reply_code t) of
       (Some a, Some b) \<Rightarrow> Inr (a = b)
     | _ \<Rightarrow>
        (let zcmd = ev_command z; tcmd = ev_command t; ztext = ev_text z; ttext = ev_text t in
         if ztext \<noteq> [] \<and> py_split_ws ztext = [] then Inl IndexError
         else (let first_zeek_token = (if ztext \<noteq> [] then hd (py_split_ws ztext) else []) in
           Inr (ttext \<noteq> [] \<and> ztext \<noteq> []
                 \<and> (py_substring ttext ztext \<or> py_startswith ztext ttext \<or> py_startswith ttext first_zeek_token)
                \<or> zcmd \<noteq> [] \<and> zcmd = tcmd))))"

definition compatible :: "protocol_event \<Rightarrow> protocol_event \<Rightarrow> bool result" where
  "compatible z t =
    (if pe_direction z \<noteq> pe_direction t then Inr False
     else if pe_tag z \<noteq> None \<and> pe_tag t \<noteq> None \<and> pe_tag z \<noteq> pe_tag t then Inr False
     else if pe_kind z = SK_REQUEST \<and> pe_kind t = SK_REQUEST then Inr (ev_command z = ev_command t)
     else if pe_kind z = SK_REPLY \<and> pe_kind t = SK_REPLY then same_reply z t
     else Inr False)"

definition with_tshark_evidence :: "protocol_event \<Rightarrow> protocol_event \<Rightarrow> protocol_event" where
  "with_tshark_evidence z t =
    z\<lparr>pe_frame_number := (case pe_frame_number t of Some n \<Rightarrow> if n \<noteq> 0 then Some n else pe_frame_number z
                           | None \<Rightarrow> pe_frame_number z),
      pe_tag := (if truthy_str (pe_tag t) then pe_tag t else pe_tag z)\<rparr>"

definition is_duplicate_capability :: "protocol_event option \<Rightarrow> protocol_event \<Rightarrow> bool" where
  "is_duplicate_capability previous current =
    (case previous of None \<Rightarrow> False
     | Some p \<Rightarrow> pe_kind current = SK_CAPABILITY \<and> pe_kind p = SK_CAPABILITY
         \<and> pe_text p = pe_text current \<and> pe_direction p = pe_direction current)"

fun best_loop :: "stamped \<Rightarrow> nat \<Rightarrow> stamped list \<Rightarrow> nat option \<Rightarrow> rat \<Rightarrow> nat option result" where
  "best_loop extra i [] best best_delta = Inr best"
| "best_loop extra i (c # cs) best best_delta =
    (if sd_matched c \<or> sd_uid c \<noteq> sd_uid extra then best_loop extra (Suc i) cs best best_delta
     else bindE (compatible (sd_event c) (sd_event extra)) (\<lambda>ok.
       if \<not> ok then best_loop extra (Suc i) cs best best_delta
       else (let delta = \<bar>sd_ts c - sd_ts extra\<bar> in
         if delta \<le> best_delta then best_loop extra (Suc i) cs (Some i) delta
         else best_loop extra (Suc i) cs best best_delta)))"

text \<open>One round of the outer loop: the Zeek events, and the TShark event with its flag.\<close>

definition merge_step :: "stamped \<Rightarrow> stamped list \<times> stamped list \<Rightarrow> (stamped list \<times> stamped list) result" where
  "merge_step extra = (\<lambda>(zeek, done).
    if pe_kind (sd_event extra) = SK_REQUEST \<and> pe_command (sd_event extra) = None
    then Inr (zeek, done @ [extra\<lparr>sd_matched := True\<rparr>])
    else bindE (best_loop extra 0 zeek None 2) (\<lambda>best. case best of
      None \<Rightarrow> Inr (zeek, done @ [extra])
    | Some i \<Rightarrow> Inr (zeek[i := (zeek ! i)\<lparr>sd_event := with_tshark_evidence (sd_event (zeek ! i)) (sd_event extra),
          sd_matched := True\<rparr>], done @ [extra\<lparr>sd_matched := True\<rparr>])))"

definition merge_events :: "stamped list \<Rightarrow> stamped list \<Rightarrow> stamped list result" where
  "merge_events zeek tshark =
    bindE (foldE merge_step tshark (zeek, [])) (\<lambda>(zeek, tshark).
    Inr (sort_key (\<lambda>item. (sd_ts item, sd_order item)) (zeek @ filter (\<lambda>t. \<not> sd_matched t) tshark)))"

fun bound_events :: "protocol_event option \<Rightarrow> nat \<Rightarrow> stamped list \<Rightarrow> protocol_event list" where
  "bound_events previous n [] = []"
| "bound_events previous n (item # items) =
    (if is_duplicate_capability previous (sd_event item) then bound_events previous n items
     else if 256 \<le> n then []
     else sd_event item # bound_events (Some (sd_event item)) (Suc n) items)"

section \<open>Identity\<close>

fun payload_of :: "mail_protocol \<Rightarrow> payload_evidence" where
  "payload_of MP_SMTP = PE_SMTP"
| "payload_of MP_IMAP = PE_IMAP"
| "payload_of MP_POP3 = PE_POP3"

definition resolve_identity :: "mail_protocol list \<Rightarrow> bool \<Rightarrow> mail_protocol list \<Rightarrow> mail_protocol option
    \<Rightarrow> mail_protocol option \<times> payload_evidence \<times> evidence_state \<times> rat option" where
  "resolve_identity confirming saw_ambiguous tshark_protocols alpn_protocol =
    (let combined = remdups (confirming @ tshark_protocols @ opt_list alpn_protocol);
         sources_disagree = tshark_protocols \<noteq> [] \<and> confirming \<noteq> [] \<and> set confirming \<noteq> set tshark_protocols
     in if sources_disagree then (None, PE_INDETERMINATE, ES_CONFLICTING, Some (1 / 2))
        else if 1 < length combined then (None, PE_INDETERMINATE, ES_CONFLICTING, None)
        else (case combined of
            p # _ \<Rightarrow> (Some p, payload_of p, ES_OBSERVED, None)
          | [] \<Rightarrow> if saw_ambiguous then (None, PE_INDETERMINATE, ES_INDETERMINATE, None)
                  else (None, PE_NONE, ES_INDETERMINATE, None)))"

section \<open>The normalizer\<close>

definition confirming_kinds :: "session_event_kind list" where
  "confirming_kinds = [SK_REQUEST, SK_REPLY, SK_CAPABILITY, SK_STARTTLS, SK_CONFIRMATION, SK_UNEXPECTED]"

record zeek_acc =
  za_events :: "(string, stamped list) dict"
  za_confirming :: "(string, mail_protocol list) dict"
  za_ambiguous :: "string list"
  za_seen :: "string list"
  za_order :: nat
  za_previous :: "(string, protocol_event) dict"

definition zeek_init :: zeek_acc where
  "zeek_init = \<lparr>za_events = [], za_confirming = [], za_ambiguous = [], za_seen = [], za_order = 0, za_previous = []\<rparr>"

definition add_zeek :: "string \<Rightarrow> rat \<Rightarrow> mail_protocol option \<Rightarrow> protocol_event \<Rightarrow> zeek_acc \<Rightarrow> zeek_acc" where
  "add_zeek uid ts protocol event a =
    (let item = \<lparr>sd_ts = ts, sd_order = za_order a, sd_uid = uid, sd_protocol = protocol, sd_event = event, sd_matched = False\<rparr>;
         a = a\<lparr>za_previous := AList.update uid event (za_previous a),
               za_seen := (if map_of (za_events a) uid = None then za_seen a @ [uid] else za_seen a),
               za_order := Suc (za_order a),
               za_events := group_step uid item (za_events a)\<rparr>
     in if pe_kind event = SK_AMBIGUOUS_BANNER then a\<lparr>za_ambiguous := uid # za_ambiguous a\<rparr>
        else (case protocol of
            Some p \<Rightarrow> if pe_kind event \<in> set confirming_kinds
                      then a\<lparr>za_confirming := group_step uid p (za_confirming a)\<rparr> else a
          | None \<Rightarrow> a))"

definition zeek_step :: "(string, flow) dict \<Rightarrow> json_row \<Rightarrow> zeek_acc \<Rightarrow> zeek_acc result" where
  "zeek_step flow_by_uid row a =
    (case as_text 64 (row_get row ''uid'') of
       None \<Rightarrow> Inr a
     | Some uid \<Rightarrow>
        if map_of flow_by_uid uid = None then Inr a
        else bindE (event_from_email_row row) (\<lambda>event. case event of
          None \<Rightarrow> Inr a
        | Some event \<Rightarrow>
            if is_duplicate_capability (map_of (za_previous a) uid) event then Inr a
            else bindE (as_float (row_get row ''ts'')) (\<lambda>ts.
              Inr (add_zeek uid (case ts of Some t \<Rightarrow> t | None \<Rightarrow> of_nat (za_order a))
                     (protocol_from_name (as_text 16 (row_get row ''protocol''))) event a))))"

record tshark_acc =
  ta_protocols :: "(string, mail_protocol list) dict"
  ta_events :: "(string, stamped list) dict"
  ta_hello :: "(string, nat list) dict"
  ta_used :: bool
  ta_seen :: "string list"
  ta_order :: nat

definition tshark_init :: "zeek_acc \<Rightarrow> tshark_acc" where
  "tshark_init z = \<lparr>ta_protocols = [], ta_events = [], ta_hello = [], ta_used = False, ta_seen = za_seen z,
     ta_order = za_order z\<rparr>"

definition note_hello :: "string \<Rightarrow> json_row \<Rightarrow> tshark_acc \<Rightarrow> tshark_acc result" where
  "note_hello uid frame a =
    (if \<not> is_client_hello_frame frame then Inr a
     else bindE (as_int (row_get frame ''frame.number'')) (\<lambda>n. case n of
       Some k \<Rightarrow> if 1 \<le> k \<and> k \<notin> set (get_list (ta_hello a) uid)
                 then Inr (a\<lparr>ta_hello := group_step uid k (ta_hello a)\<rparr>) else Inr a
     | None \<Rightarrow> Inr a))"

definition add_tshark :: "(string, stamped list) dict \<Rightarrow> string \<Rightarrow> rat \<Rightarrow> mail_protocol \<Rightarrow> protocol_event \<Rightarrow> tshark_acc \<Rightarrow> tshark_acc" where
  "add_tshark zeek_by_uid uid ts protocol event a =
    (let item = \<lparr>sd_ts = ts, sd_order = ta_order a, sd_uid = uid, sd_protocol = Some protocol, sd_event = event, sd_matched = False\<rparr>
     in a\<lparr>ta_seen := (if map_of zeek_by_uid uid = None \<and> map_of (ta_events a) uid = None then ta_seen a @ [uid] else ta_seen a),
          ta_events := group_step uid item (ta_events a),
          ta_order := Suc (ta_order a)\<rparr>)"

definition tshark_step :: "flow list \<Rightarrow> (string, stamped list) dict \<Rightarrow> json_row \<Rightarrow> tshark_acc \<Rightarrow> tshark_acc result" where
  "tshark_step flows zeek_by_uid frame a =
    bindE (match_frame_uid frame flows) (\<lambda>uid. case uid of
      None \<Rightarrow> Inr a
    | Some uid \<Rightarrow>
       bindE (note_hello uid frame (a\<lparr>ta_used := True\<rparr>)) (\<lambda>a.
       case tshark_protocol frame of
         None \<Rightarrow> Inr a
       | Some protocol \<Rightarrow>
          (let a = a\<lparr>ta_protocols := group_step uid protocol (ta_protocols a)\<rparr> in
           bindE (tshark_event frame protocol) (\<lambda>extra. case extra of
             None \<Rightarrow> Inr a
           | Some event \<Rightarrow>
              bindE (as_float (row_get frame ''frame.time_epoch'')) (\<lambda>ts.
              Inr (add_tshark zeek_by_uid uid (case ts of Some t \<Rightarrow> t | None \<Rightarrow> of_nat (ta_order a)) protocol event a))))))"

text \<open>\<open>list(dict.fromkeys(xs))\<close>: the first occurrences.\<close>

definition py_unique :: "'a list \<Rightarrow> 'a list" where
  "py_unique xs = rev (remdups (rev xs))"

definition email_session_ok :: "email_session \<Rightarrow> bool" where
  "email_session_ok s = ((case es_identification_confidence s of None \<Rightarrow> True | Some c \<Rightarrow> 0 \<le> c \<and> c \<le> 1)
     \<and> es_corroboration s \<in> {''zeek'', ''zeek+tshark''})"

definition session_events :: "zeek_acc \<Rightarrow> tshark_acc \<Rightarrow> string \<Rightarrow> protocol_event list result" where
  "session_events z t uid =
    bindE (merge_events (get_list (za_events z) uid) (get_list (ta_events t) uid)) (\<lambda>merged.
    Inr (bound_events None 0 merged))"

text \<open>The body of the last loop: the identity (\<open>None\<close> for \<open>continue\<close>), the corroboration and the session.\<close>

type_synonym identity = "mail_protocol option \<times> payload_evidence \<times> evidence_state \<times> rat option"

definition session_identity :: "zeek_acc \<Rightarrow> tshark_acc \<Rightarrow> ssl_facts option \<Rightarrow> flow \<Rightarrow> string \<Rightarrow> identity option" where
  "session_identity z t ssl flow uid =
    (let alpn_protocol = (case ssl of Some s \<Rightarrow> protocol_from_alpn (sf_next_protocol s) | None \<Rightarrow> None);
         ambiguous = uid \<in> set (za_ambiguous z);
         (protocol, payload, state, confidence) = resolve_identity (get_list (za_confirming z) uid) ambiguous
           (get_list (ta_protocols t) uid) alpn_protocol;
         implicit_candidate = fe_port (fl_resp flow) \<in> set implicit_tls_ports \<and> ssl \<noteq> None
     in if payload = PE_NONE \<and> \<not> ambiguous \<and> \<not> implicit_candidate then None
        else if implicit_candidate \<and> payload = PE_NONE then
          (case alpn_protocol of
             Some p \<Rightarrow> Some (Some p, payload_of p, ES_OBSERVED, confidence)
           | None \<Rightarrow> Some (None, PE_INDETERMINATE, ES_INDETERMINATE, confidence))
        else Some (protocol, payload, state, confidence))"

definition session_corroboration :: "tshark_acc \<Rightarrow> string \<Rightarrow> string" where
  "session_corroboration t uid =
    (let in_tshark = map_of (ta_protocols t) uid \<noteq> None;
         corroboration = (if ta_used t \<and> in_tshark then ''zeek+tshark'' else ''zeek'')
     in if ta_used t \<and> get_list (ta_hello t) uid \<noteq> [] \<and> \<not> in_tshark then ''zeek+tshark'' else corroboration)"

definition session_of :: "zeek_acc \<Rightarrow> tshark_acc \<Rightarrow> (string, ssl_facts) dict \<Rightarrow> (string, protocol_event list) dict
    \<Rightarrow> (string, flow) dict \<Rightarrow> string \<Rightarrow> email_session option result" where
  "session_of z t ssl_by_uid events_by_uid flow_by_uid uid =
    (case map_of flow_by_uid uid of
       None \<Rightarrow> Inr None
     | Some flow \<Rightarrow>
        (let ssl = map_of ssl_by_uid uid in
         case session_identity z t ssl flow uid of
           None \<Rightarrow> Inr None
         | Some (protocol, payload, state, confidence) \<Rightarrow>
            (let session = \<lparr>es_uid = uid, es_protocol = protocol, es_port_hint = port_hint_for_flow flow,
                   es_payload_evidence = payload, es_evidence_state = state, es_identification_confidence = confidence,
                   es_corroboration = session_corroboration t uid, es_events = get_list events_by_uid uid,
                   es_explicit_upgrade = None, es_implicit_tls = None\<rparr>
             in bindE (check_model (email_session_ok session) session) (\<lambda>session.
                Inr (Some (assess_session session flow ssl (get_list (ta_hello t) uid)))))))"

definition session_key :: "(string, flow) dict \<Rightarrow> email_session \<Rightarrow> string \<times> string \<times> nat \<times> string \<times> nat \<times> string" where
  "session_key flow_by_uid s =
    (let f = the (map_of flow_by_uid (es_uid s)) in
     (case es_protocol s of Some p \<Rightarrow> mp_value p | None \<Rightarrow> [], fe_host (fl_orig f), fe_port (fl_orig f),
      fe_host (fl_resp f), fe_port (fl_resp f), es_uid s))"

definition normalize_sessions :: "(string, json) dict \<Rightarrow> flow list \<Rightarrow> json \<Rightarrow> email_session list result" where
  \<comment> \<open>\<open>tshark_frames\<close> as a value: \<open>JNull\<close> for \<open>None\<close>\<close>
  "normalize_sessions logs flows tshark_frames =
    (let flow_by_uid = dict_of_last fl_uid flows;
         ssl_by_uid = ssl_facts_of logs in
     bindE (foldE (zeek_step flow_by_uid) (bounded_records (logs_get logs ''sm_email.log'')) zeek_init) (\<lambda>z.
     bindE (foldE (tshark_step flows (za_events z)) (bounded_records tshark_frames) (tshark_init z)) (\<lambda>t.
     bindE (mapE (\<lambda>uid. bindE (session_events z t uid) (\<lambda>es. Inr (uid, es)))
              (py_unique (ta_seen t @ map fst (ta_protocols t) @ map fst ssl_by_uid))) (\<lambda>events_by_uid.
     bindE (mapE (session_of z t ssl_by_uid events_by_uid flow_by_uid)
              (py_unique (ta_seen t @ map fst (ta_protocols t)
                 @ filter (\<lambda>uid. map_of ssl_by_uid uid \<noteq> None) (map fst flow_by_uid)))) (\<lambda>sessions.
     Inr (sort_key (session_key flow_by_uid) (List.map_filter (\<lambda>x. x) sessions)))))))"

definition needs_tshark_corroboration :: "email_session list \<Rightarrow> flow list \<Rightarrow> (string, json) dict option \<Rightarrow> bool" where
  "needs_tshark_corroboration sessions flows logs =
    (if list_ex (\<lambda>s. es_protocol s \<noteq> None \<or> es_payload_evidence s \<in> {PE_SMTP, PE_IMAP, PE_POP3}) sessions then True
     else if (case logs of None \<Rightarrow> False
           | Some l \<Rightarrow> list_ex (\<lambda>row. as_text 64 (row_get row ''uid'') \<noteq> None) (bounded_records (logs_get l ''ssl.log''))) then True
     else list_ex (\<lambda>f. fe_port (fl_resp f) \<in> set implicit_tls_ports) flows)"

end
