(* ===== verification/Handshakes.thy ===== *)
theory Handshakes
  imports Tls Sessions
begin

text \<open>
  The handshake normalizer (\<open>application/normalize_handshakes.py\<close>): one row of Zeek's \<open>ssl.log\<close> becomes one TLS
  handshake. Its message history is expanded letter by letter, and the frames of an optional TShark pass are
  attached to the messages; the selected version, the cipher suite and the key exchange are read from the row, the
  last through \<open>classify_key_exchange\<close> of \<^theory_text>\<open>Tls\<close>.

  The readers \<open>_as_int\<close>, \<open>_as_bool\<close> and \<open>_bounded_records\<close> are those of \<^theory_text>\<open>Json\<close> and \<^theory_text>\<open>Flows\<close>; \<open>_as_str\<close> is
  \<^const>\<open>as_str\<close>, which unlike the reader of \<^theory_text>\<open>Sessions\<close> does not join lists. The copy of a frozen message with
  updated fields is a record update. Proofs are in \<open>Handshakes_Correct\<close>.
\<close>

section \<open>Numbers and lists\<close>

definition as_int_list :: "nat \<Rightarrow> json \<Rightarrow> nat list result" where
  "as_int_list limit value =
    (let ints = (\<lambda>items. bindE (mapE as_int (take limit items)) (\<lambda>parsed. Inr (List.map_filter (\<lambda>n. n) parsed)))
     in case value of
          JInt i \<Rightarrow> Inr (if 0 \<le> i then [nat i] else [])
        | JStr s \<Rightarrow> ints (map JStr (filter (\<lambda>part. part \<noteq> []) (map py_strip (py_split (CHR '','') s))))
        | JList items \<Rightarrow> ints items
        | _ \<Rightarrow> Inr [])"

text \<open>\<open>int(s, 16)\<close> of a text that starts with \<open>0x\<close> or \<open>0X\<close>: single underscores may separate the digits, also after the
  prefix, and white space may follow them. \<open>None\<close> when it raises \<open>ValueError\<close>.\<close>

definition hex_value :: "char \<Rightarrow> nat option" where
  "hex_value c =
    (if is_digit c then Some (of_char c - 48)
     else if CHR ''a'' \<le> lower_char c \<and> lower_char c \<le> CHR ''f'' then Some (of_char (lower_char c) - 87)
     else None)"

fun hex_part :: "string \<Rightarrow> bool" where
  "hex_part [] = False"
| "hex_part [c] = (hex_value c \<noteq> None)"
| "hex_part (c # d # cs) = (hex_value c \<noteq> None \<and> (hex_part (d # cs) \<or> (d = CHR ''_'' \<and> hex_part cs)))"

definition py_int_hex :: "string \<Rightarrow> nat option" where
  "py_int_hex s =
    (let body = drop 2 (num_strip s);
         digits = (if py_startswith body ''_'' then tl body else body)
     in if hex_part digits then Some (foldl (\<lambda>n d. n * 16 + d) 0 (List.map_filter hex_value digits)) else None)"

text \<open>\<open>f"{n:04x}"\<close>\<close>

fun hex_digits :: "nat \<Rightarrow> string" where
  "hex_digits n = (let digit = (\<lambda>d. char_of (if d < 10 then 48 + d else 87 + d))
     in if n < 16 then [digit n] else hex_digits (n div 16) @ [digit (n mod 16)])"

declare hex_digits.simps [simp del]

definition hex4 :: "nat \<Rightarrow> string" where
  "hex4 n = (let s = hex_digits n in replicate (4 - length s) (CHR ''0'') @ s)"

section \<open>The selected version\<close>

definition tls_versions :: "(nat, string) dict" where
  "tls_versions = [(768, ''SSLv3''), (769, ''TLSv10''), (770, ''TLSv11''), (771, ''TLSv12''), (772, ''TLSv13'')]"

definition version_aliases :: "(string, string) dict" where
  "version_aliases = [(''tlsv10'', ''TLSv10''), (''tls10'', ''TLSv10''), (''tlsv1'', ''TLSv10''), (''tlsv11'', ''TLSv11''),
     (''tls11'', ''TLSv11''), (''tlsv12'', ''TLSv12''), (''tls12'', ''TLSv12''), (''tlsv13'', ''TLSv13''),
     (''tls13'', ''TLSv13''), (''sslv3'', ''SSLv3''), (''ssl3'', ''SSLv3'')]"

definition version_of_number :: "json \<Rightarrow> string option result" where
  "version_of_number value = bindE (as_int value) (\<lambda>n. Inr (Option.bind n (map_of tls_versions)))"

definition decode_tls_version :: "json \<Rightarrow> string option result" where
  "decode_tls_version value = (case value of
     JStr s \<Rightarrow>
      (let text = py_strip s in
       if text = [] \<or> 16 < length text then Inr None
       else (let compact = py_remove_char (CHR ''.'') (py_remove_char (CHR '' '') (py_lower text)) in
         case map_of version_aliases compact of
           Some v \<Rightarrow> Inr (Some v)
         | None \<Rightarrow> if text \<in> snd ` set tls_versions then Inr (Some text) else version_of_number (JStr text)))
   | _ \<Rightarrow> version_of_number value)"

definition has_server_hello :: "string \<Rightarrow> bool" where
  "has_server_hello ssl_history = (CHR ''s'' \<in> set ssl_history \<or> CHR ''j'' \<in> set ssl_history)"

definition py_or :: "string option \<Rightarrow> string option \<Rightarrow> string option" where
  "py_or a b = (if truthy_str a then a else b)"

definition resolve_selected_version :: "json_row \<Rightarrow> string \<Rightarrow> tls_version_evidence result" where
  "resolve_selected_version row ssl_history =
    bindE (as_int_list 64 (row_get row ''client_supported_versions'')) (\<lambda>client_versions.
    bindE (mapE (\<lambda>n. decode_tls_version (JInt (int n))) client_versions) (\<lambda>decoded.
    bindE (decode_tls_version (row_get row ''server_supported_version'')) (\<lambda>server_supported.
    bindE (decode_tls_version (row_get row ''server_version'')) (\<lambda>legacy.
    bindE (decode_tls_version (row_get row ''version'')) (\<lambda>zeek_version.
    let has_server = has_server_hello ssl_history;
        legacy = (if legacy = None then (if has_server then zeek_version else None) else legacy);
        made = (\<lambda>selected source state legacy. \<lparr>tv_selected = selected, tv_source = source, tv_evidence_state = state,
          tv_legacy_record_version = legacy, tv_server_supported_version = server_supported,
          tv_client_supported_versions = List.map_filter (\<lambda>v. v) decoded\<rparr>)
    in Inr (if server_supported \<noteq> None \<and> has_server then
              made server_supported (Some VS_SUPPORTED_VERSIONS) ES_OBSERVED legacy
            else if has_server \<and> (legacy \<noteq> None \<or> zeek_version \<noteq> None) then
              made (py_or legacy zeek_version) (Some VS_LEGACY_RECORD) ES_OBSERVED (py_or legacy zeek_version)
            else if CHR ''C'' \<in> set ssl_history then made None None ES_INCOMPLETE legacy
            else made None None ES_NOT_OBSERVABLE legacy))))))"

section \<open>Messages\<close>

definition history_kind :: "(char, handshake_message_kind) dict" where
  "history_kind =
    [(CHR ''^'', HM_DIRECTION_FLIP), (CHR ''h'', HM_HELLO_REQUEST), (CHR ''c'', HM_CLIENT_HELLO), (CHR ''s'', HM_SERVER_HELLO),
     (CHR ''j'', HM_HELLO_RETRY_REQUEST), (CHR ''v'', HM_HELLO_VERIFY_REQUEST), (CHR ''t'', HM_NEW_SESSION_TICKET),
     (CHR ''e'', HM_END_OF_EARLY_DATA), (CHR ''o'', HM_ENCRYPTED_EXTENSIONS), (CHR ''x'', HM_CERTIFICATE),
     (CHR ''k'', HM_SERVER_KEY_EXCHANGE), (CHR ''r'', HM_CERTIFICATE_REQUEST), (CHR ''n'', HM_SERVER_HELLO_DONE),
     (CHR ''y'', HM_CERTIFICATE_VERIFY), (CHR ''g'', HM_CLIENT_KEY_EXCHANGE), (CHR ''f'', HM_FINISHED),
     (CHR ''w'', HM_CERTIFICATE_URL), (CHR ''u'', HM_CERTIFICATE_STATUS), (CHR ''a'', HM_SUPPLEMENTAL_DATA),
     (CHR ''p'', HM_KEY_UPDATE), (CHR ''m'', HM_MESSAGE_HASH), (CHR ''i'', HM_CHANGE_CIPHER_SPEC), (CHR ''l'', HM_ALERT),
     (CHR ''b'', HM_HEARTBEAT), (CHR ''z'', HM_UNKNOWN)]"

definition tshark_type_to_kind :: "(nat, handshake_message_kind) dict" where
  "tshark_type_to_kind =
    [(1, HM_CLIENT_HELLO), (2, HM_SERVER_HELLO), (4, HM_NEW_SESSION_TICKET), (5, HM_END_OF_EARLY_DATA),
     (8, HM_ENCRYPTED_EXTENSIONS), (11, HM_CERTIFICATE), (12, HM_SERVER_KEY_EXCHANGE), (13, HM_CERTIFICATE_REQUEST),
     (14, HM_SERVER_HELLO_DONE), (15, HM_CERTIFICATE_VERIFY), (16, HM_CLIENT_KEY_EXCHANGE), (20, HM_FINISHED),
     (24, HM_KEY_UPDATE)]"

definition char_isupper :: "char \<Rightarrow> bool" where
  \<comment> \<open>\<open>str.isupper\<close> of one character below 256\<close>
  "char_isupper c = (let n = (of_char c :: nat) in (65 \<le> n \<and> n \<le> 90) \<or> (192 \<le> n \<and> n \<le> 222 \<and> n \<noteq> 215))"

definition message_of_letter :: "char \<Rightarrow> handshake_message" where
  "message_of_letter letter =
    (if letter = CHR ''^'' then
       \<lparr>hm_kind = HM_DIRECTION_FLIP, hm_direction = SD_ORIG, hm_history_letter = [letter], hm_frame_number = None,
        hm_evidence_state = ES_OBSERVED\<rparr>
     else
       \<lparr>hm_kind = (case map_of history_kind (lower_char letter) of Some k \<Rightarrow> k | None \<Rightarrow> HM_UNKNOWN),
        hm_direction = (if char_isupper letter then SD_ORIG else SD_RESP), hm_history_letter = [letter],
        hm_frame_number = None, hm_evidence_state = ES_INFERRED\<rparr>)"

definition messages_from_ssl_history :: "string \<Rightarrow> handshake_message list" where
  "messages_from_ssl_history ssl_history = map message_of_letter (take 100 ssl_history)"

definition tshark_handshake_types :: "json_row \<Rightarrow> nat list result" where
  "tshark_handshake_types frame = as_int_list 16 (row_get frame ''tls.handshake.type'')"

definition tshark_selected_group :: "json_row \<Rightarrow> nat option result" where
  "tshark_selected_group frame =
    (let first = row_get frame ''tls.handshake.extensions_key_share_selected_group'';
         raw = (if first = JNull then row_get frame ''tls.handshake.extensions.key_share.selected_group'' else first)
     in bindE (as_int raw) (\<lambda>parsed. case parsed of
          Some n \<Rightarrow> Inr (Some n)
        | None \<Rightarrow> Inr (case raw of
            JStr s \<Rightarrow> if py_startswith (py_lower s) ''0x'' then py_int_hex s else None
          | _ \<Rightarrow> None)))"

text \<open>The variables of \<open>_attach_frames\<close>: the indexes still waiting for a frame, by kind, and the messages.\<close>

record attach_state =
  at_pending :: "(handshake_message_kind, nat list) dict"
  at_updated :: "handshake_message list"

definition pending_indexes :: "attach_state \<Rightarrow> handshake_message_kind \<Rightarrow> nat list" where
  "pending_indexes a kind = (case map_of (at_pending a) kind of None \<Rightarrow> [] | Some is \<Rightarrow> is)"

definition pending_init :: "handshake_message list \<Rightarrow> (handshake_message_kind, nat list) dict" where
  "pending_init messages =
    fold (\<lambda>(i, m). if hm_kind m = HM_DIRECTION_FLIP then (\<lambda>d. d) else group_step (hm_kind m) i) (enumerate 0 messages) []"

definition attach_init :: "handshake_message list \<Rightarrow> attach_state" where
  "attach_init messages = \<lparr>at_pending = pending_init messages, at_updated = messages\<rparr>"

definition frame_kind :: "nat option \<Rightarrow> nat \<Rightarrow> handshake_message_kind option" where
  "frame_kind selected_group handshake_type =
    (if handshake_type = 2 \<and> selected_group \<noteq> None then Some HM_HELLO_RETRY_REQUEST
     else map_of tshark_type_to_kind handshake_type)"

definition attach_message :: "handshake_message_kind \<Rightarrow> nat \<Rightarrow> handshake_message \<Rightarrow> handshake_message" where
  "attach_message kind frame_number m = m\<lparr>hm_kind := kind, hm_frame_number := Some frame_number, hm_evidence_state := ES_OBSERVED\<rparr>"

definition attach_at :: "handshake_message_kind \<Rightarrow> handshake_message_kind \<Rightarrow> nat \<Rightarrow> attach_state \<Rightarrow> attach_state" where
  \<comment> \<open>take the first index waiting under \<open>queue\<close>\<close>
  "attach_at queue kind frame_number a =
    (case pending_indexes a queue of
       [] \<Rightarrow> a
     | target # rest \<Rightarrow> a\<lparr>at_pending := AList.update queue rest (at_pending a),
         at_updated := (at_updated a)[target := attach_message kind frame_number (at_updated a ! target)]\<rparr>)"

definition attach_type :: "nat \<Rightarrow> nat option \<Rightarrow> nat \<Rightarrow> attach_state \<Rightarrow> attach_state" where
  "attach_type frame_number selected_group handshake_type a =
    (case frame_kind selected_group handshake_type of
       None \<Rightarrow> a
     | Some kind \<Rightarrow>
         if pending_indexes a kind \<noteq> [] then attach_at kind kind frame_number a
         else if kind = HM_HELLO_RETRY_REQUEST \<and> pending_indexes a HM_SERVER_HELLO \<noteq> []
         then attach_at HM_SERVER_HELLO kind frame_number a
         else a)"

definition attach_frame :: "json_row \<Rightarrow> attach_state \<Rightarrow> attach_state result" where
  "attach_frame frame a =
    bindE (frame_number_of frame) (\<lambda>number. case number of
      None \<Rightarrow> Inr a
    | Some frame_number \<Rightarrow>
        bindE (tshark_handshake_types frame) (\<lambda>types.
        bindE (tshark_selected_group frame) (\<lambda>selected_group.
        Inr (fold (attach_type frame_number selected_group) types a))))"

definition attach_frames :: "handshake_message list \<Rightarrow> json_row list \<Rightarrow> handshake_message list result" where
  "attach_frames messages frames = bindE (foldE attach_frame frames (attach_init messages)) (\<lambda>a. Inr (at_updated a))"

section \<open>States and visibility\<close>

definition handshake_tls13 :: "string option \<Rightarrow> bool" where
  "handshake_tls13 version = (version = Some ''TLSv13'')"

definition visibility :: "string \<Rightarrow> string option \<Rightarrow> bool \<Rightarrow> evidence_state \<Rightarrow> evidence_state \<Rightarrow> handshake_visibility" where
  "visibility ssl_history selected_version established server_certificate_state certificate_verify_state =
    (if ssl_history = [] then HV_NOT_OBSERVABLE
     else if handshake_tls13 selected_version then
       (if server_certificate_state = ES_OBSERVED \<and> certificate_verify_state = ES_OBSERVED then HV_FULL else HV_PARTIAL)
     else (let saw_certificate = CHR ''x'' \<in> set ssl_history \<or> CHR ''n'' \<in> set ssl_history in
       if established \<and> has_server_hello ssl_history \<and> saw_certificate then HV_FULL else HV_PARTIAL))"

definition handshake_evidence_state :: "flow option \<Rightarrow> tls_version_evidence \<Rightarrow> bool \<Rightarrow> evidence_state" where
  "handshake_evidence_state flow version established =
    (if (case flow of None \<Rightarrow> False | Some f \<Rightarrow> fl_reconstruction_quality f = RQ_CONFLICTING) then ES_CONFLICTING
     else (let truncated_reasons = [''snaplen_truncation'', ''segment_gap'', ''capture_loss'', ''midstream_start''];
               truncated = (case flow of None \<Rightarrow> False
                 | Some f \<Rightarrow> fl_reconstruction_quality f = RQ_INCOMPLETE
                     \<and> (case fl_reason_code f of None \<Rightarrow> False | Some r \<Rightarrow> rr_value r \<in> set truncated_reasons))
           in if truncated \<and> \<not> established then ES_INCOMPLETE
              else if tv_evidence_state version = ES_INCOMPLETE then ES_INCOMPLETE
              else if tv_selected version \<noteq> None then ES_OBSERVED
              else tv_evidence_state version))"

definition certificate_states :: "string \<Rightarrow> string option \<Rightarrow> evidence_state \<times> evidence_state" where
  \<comment> \<open>both branches on the version are the same in the source\<close>
  "certificate_states ssl_history selected_version =
    (let state = (\<lambda>letter. if letter \<in> set ssl_history then ES_OBSERVED else ES_NOT_OBSERVABLE)
     in if handshake_tls13 selected_version then (state (CHR ''x''), state (CHR ''y''))
        else (state (CHR ''x''), state (CHR ''y'')))"

section \<open>The CertificateVerify signature\<close>

definition signature_schemes :: "(nat, string) dict" where
  "signature_schemes =
    [(0x0101, ''rsa_pkcs1_md5''), (0x0201, ''rsa_pkcs1_sha1''), (0x0202, ''dsa_sha1''), (0x0203, ''ecdsa_sha1''),
     (0x0401, ''rsa_pkcs1_sha256''), (0x0501, ''rsa_pkcs1_sha384''), (0x0601, ''rsa_pkcs1_sha512''),
     (0x0403, ''ecdsa_secp256r1_sha256''), (0x0503, ''ecdsa_secp384r1_sha384''), (0x0603, ''ecdsa_secp521r1_sha512''),
     (0x0804, ''rsa_pss_rsae_sha256''), (0x0805, ''rsa_pss_rsae_sha384''), (0x0806, ''rsa_pss_rsae_sha512''),
     (0x0807, ''ed25519''), (0x0808, ''ed448'')]"

definition scheme_or :: "nat \<Rightarrow> string \<Rightarrow> string" where
  "scheme_or n fallback = (case map_of signature_schemes n of Some s \<Rightarrow> s | None \<Rightarrow> fallback)"

definition decode_signature_scheme :: "json \<Rightarrow> string option result" where
  "decode_signature_scheme value = (case value of
     JStr s \<Rightarrow>
      (let text = py_strip s in
       if text = [] \<or> 128 < length text then Inr None
       else (let lowered = py_replace_char (CHR ''-'') (CHR ''_'') (py_lower text) in
         if py_startswith lowered ''0x'' then
           Inr (Some (case py_int_hex lowered of None \<Rightarrow> lowered | Some n \<Rightarrow> scheme_or n lowered))
         else if py_isdigit lowered then
           bindE (py_int_of_digits lowered) (\<lambda>n. Inr (Some (scheme_or n lowered)))
         else Inr (Some lowered)))
   | _ \<Rightarrow> bindE (as_int value) (\<lambda>parsed.
       Inr (map_option (\<lambda>n. scheme_or n (''0x'' @ hex4 n)) parsed)))"

definition raw_signature :: "json_row \<Rightarrow> json" where
  "raw_signature frame =
    (let first = row_get frame ''tls.handshake.sig_hash_alg'';
         raw = (if first = JNull then row_get frame ''tls.handshake.signature_scheme'' else first)
     in case raw of
          JStr s \<Rightarrow> if CHR '','' \<in> set s then JStr (py_strip (last (py_split (CHR '','') s))) else raw
        | _ \<Rightarrow> raw)"

definition signature_evidence :: "string option \<Rightarrow> evidence_state \<Rightarrow> handshake_signature_evidence" where
  "signature_evidence algorithm state = \<lparr>hs_algorithm = algorithm, hs_evidence_state = state\<rparr>"

fun verify_loop :: "json_row list \<Rightarrow> handshake_signature_evidence result" where
  "verify_loop [] = Inr (signature_evidence None ES_INCOMPLETE)"
| "verify_loop (frame # frames) =
    bindE (tshark_handshake_types frame) (\<lambda>types.
    if 15 \<notin> set types then verify_loop frames
    else bindE (decode_signature_scheme (raw_signature frame)) (\<lambda>algorithm. case algorithm of
        Some a \<Rightarrow> Inr (signature_evidence (Some a) ES_OBSERVED)
      | None \<Rightarrow> verify_loop frames))"

definition certificate_verify_signature :: "string \<Rightarrow> json_row list \<Rightarrow> handshake_signature_evidence result" where
  "certificate_verify_signature ssl_history frames =
    (if CHR ''y'' \<notin> set ssl_history \<and> CHR ''Y'' \<notin> set ssl_history
     then Inr (signature_evidence None ES_NOT_OBSERVABLE)
     else verify_loop frames)"

section \<open>Cipher suite and key exchange\<close>

definition cipher_evidence :: "json_row \<Rightarrow> tls_parameter_index \<Rightarrow> bool \<Rightarrow> cipher_suite_evidence" where
  "cipher_evidence row index server_hello =
    (let name = as_str 128 (row_get row ''cipher'') in
     if \<not> server_hello then \<lparr>cs_name = None, cs_code = None, cs_evidence_state = ES_INCOMPLETE\<rparr>
     else case name of
       None \<Rightarrow> \<lparr>cs_name = None, cs_code = None, cs_evidence_state = ES_NOT_OBSERVABLE\<rparr>
     | Some n \<Rightarrow> (case cipher_code index (Some n) of
         None \<Rightarrow> \<lparr>cs_name = Some n, cs_code = None, cs_evidence_state = ES_INFERRED\<rparr>
       | Some code \<Rightarrow> \<lparr>cs_name = Some n, cs_code = Some code, cs_evidence_state = ES_OBSERVED\<rparr>))"

definition key_exchange_ok :: "key_exchange_evidence \<Rightarrow> bool" where
  "key_exchange_ok k = (case kx_selected_group_code k of None \<Rightarrow> True | Some c \<Rightarrow> c \<le> 65535)"

text \<open>The group: its registered name or the curve Zeek names, and the code sent or the curve's registered one.\<close>

definition selected_group :: "tls_parameter_index \<Rightarrow> nat option \<Rightarrow> string option \<Rightarrow> string option \<times> nat option" where
  "selected_group index server_group curve =
    (let group_name = tp_group_name index server_group in
     if group_name = None \<and> curve \<noteq> None
     then (curve, if server_group = None then tp_group_code index curve else server_group)
     else (group_name, server_group))"

definition kx_facts_of :: "json_row \<Rightarrow> string option \<Rightarrow> tls_parameter_index \<Rightarrow> bool \<Rightarrow> kx_facts result" where
  \<comment> \<open>the arguments of \<open>classify_key_exchange\<close>\<close>
  "kx_facts_of row version index resumed =
    bindE (as_int (row_get row ''server_key_share_group'')) (\<lambda>server_group.
    bindE (as_int_list 64 (row_get row ''client_key_share_groups'')) (\<lambda>client_groups.
    bindE (as_int (row_get row ''dh_param_size'')) (\<lambda>dh_param_size.
    bindE (as_int_list 64 (row_get row ''psk_key_exchange_modes'')) (\<lambda>psk_modes.
    let curve = as_str 128 (row_get row ''curve'');
        (group_name, server_group) = selected_group index server_group curve
    in Inr \<lparr>kf_negotiated_version = version, kf_cipher_suite = as_str 128 (row_get row ''cipher''),
         kf_server_key_share_group = server_group, kf_client_key_share_groups = client_groups,
         kf_dh_param_size = dh_param_size, kf_psk_key_exchange_modes = psk_modes, kf_curve = curve,
         kf_resumed = resumed, kf_group_name = group_name\<rparr>))))"

definition kx_evidence_of :: "kx_facts \<Rightarrow> key_exchange_evidence" where
  "kx_evidence_of facts =
    (let classified = classify_key_exchange facts in
     \<lparr>kx_mechanism = kc_mechanism classified, kx_evidence_state = kc_evidence_state classified,
      kx_source_fields = kc_source_fields classified, kx_selected_group = kf_group_name facts,
      kx_selected_group_code = kf_server_key_share_group facts, kx_dh_param_size = kf_dh_param_size facts,
      kx_psk_key_exchange_modes = List.map_filter psk_mode_name (kf_psk_key_exchange_modes facts)\<rparr>)"

definition key_exchange_evidence_of :: "json_row \<Rightarrow> tls_version_evidence \<Rightarrow> tls_parameter_index \<Rightarrow> bool \<Rightarrow> key_exchange_evidence result" where
  "key_exchange_evidence_of row version index resumed =
    bindE (kx_facts_of row (tv_selected version) index resumed) (\<lambda>facts.
    check_model (key_exchange_ok (kx_evidence_of facts)) (kx_evidence_of facts))"

section \<open>Which connection a frame belongs to\<close>

definition handshake_endpoints :: "json_row \<Rightarrow> (string \<times> nat) list result" where
  "handshake_endpoints frame =
    bindE (as_int (row_get frame ''tcp.srcport'')) (\<lambda>src_port.
    bindE (as_int (row_get frame ''tcp.dstport'')) (\<lambda>dst_port.
    let endpoint = (\<lambda>port host_key. case (as_str 253 (row_get frame host_key), port) of
          (Some host, Some p) \<Rightarrow> if p \<le> 65535 then Some (host, p) else None
        | _ \<Rightarrow> None)
    in Inr (List.map_filter (endpoint src_port) [''ip.src'', ''ipv6.src'']
            @ List.map_filter (endpoint dst_port) [''ip.dst'', ''ipv6.dst''])))"

definition handshake_frame_uid :: "json_row \<Rightarrow> flow list \<Rightarrow> string option result" where
  "handshake_frame_uid frame flows =
    bindE (handshake_endpoints frame) (\<lambda>endpoints.
    if length (remdups endpoints) < 2 then Inr None
    else (case filter (\<lambda>f. set endpoints \<subseteq> set (flow_addresses f) \<or> set endpoints = set (flow_addresses f)) flows of
        [f] \<Rightarrow> Inr (Some (fl_uid f))
      | _ \<Rightarrow> Inr None))"

definition group_frame :: "flow list \<Rightarrow> json_row \<Rightarrow> (string, json_row list) dict \<Rightarrow> (string, json_row list) dict result" where
  "group_frame flows frame d =
    bindE (tshark_handshake_types frame) (\<lambda>types.
    if types = [] then Inr d
    else bindE (handshake_frame_uid frame flows) (\<lambda>uid. case uid of
        None \<Rightarrow> Inr d
      | Some u \<Rightarrow> Inr (group_step u frame d)))"

section \<open>The normalizer\<close>

definition handshake_from_row :: "json_row \<Rightarrow> flow option \<Rightarrow> tls_parameter_index \<Rightarrow> json_row list \<Rightarrow> tls_handshake option result" where
  "handshake_from_row row flow index frames =
    (case as_str 64 (row_get row ''uid'') of
       None \<Rightarrow> Inr None
     | Some uid \<Rightarrow>
        (let history = or_str (as_str 100 (row_get row ''ssl_history'')) [];
             established = (as_bool (row_get row ''established'') = Some True);
             resumed = (as_bool (row_get row ''resumed'') = Some True)
         in bindE (resolve_selected_version row history) (\<lambda>version.
            bindE (attach_frames (messages_from_ssl_history history) frames) (\<lambda>messages.
            bindE (key_exchange_evidence_of row version index resumed) (\<lambda>key_exchange.
            bindE (certificate_verify_signature history frames) (\<lambda>signature.
            let (cert_state, verify_state) = certificate_states history (tv_selected version)
            in Inr (Some \<lparr>th_uid = uid, th_ssl_history = history, th_established = established, th_resumed = resumed,
                 th_hello_retry_request = (list_ex (\<lambda>m. hm_kind m = HM_HELLO_RETRY_REQUEST) messages \<or> CHR ''j'' \<in> set history),
                 th_last_alert = as_str 64 (row_get row ''last_alert''),
                 th_visibility = visibility history (tv_selected version) established cert_state verify_state,
                 th_version = version, th_cipher_suite = cipher_evidence row index (has_server_hello history),
                 th_key_exchange = key_exchange, th_messages = messages, th_server_certificate_state = cert_state,
                 th_certificate_verify_state = verify_state, th_certificate_verify_signature = signature,
                 th_evidence_state = handshake_evidence_state flow version established\<rparr>)))))))"

definition normalize_handshakes :: "(string, json) dict \<Rightarrow> flow list \<Rightarrow> tls_parameter_index \<Rightarrow> json \<Rightarrow> tls_handshake list result" where
  \<comment> \<open>\<open>tshark_frames\<close> as a value: \<open>JNull\<close> for \<open>None\<close>\<close>
  "normalize_handshakes logs flows tls_parameters tshark_frames =
    (let flow_by_uid = dict_of_last fl_uid flows in
     bindE (foldE (group_frame flows) (bounded_records tshark_frames) []) (\<lambda>frames_by_uid.
     bindE (mapE (\<lambda>row. let uid = as_str 64 (row_get row ''uid'') in
              handshake_from_row row (Option.bind uid (map_of flow_by_uid)) tls_parameters
                (get_list frames_by_uid (or_str uid [])))
            (bounded_records (logs_get logs ''ssl.log''))) (\<lambda>handshakes.
     Inr (sort_key (\<lambda>h. (th_uid h, th_ssl_history h)) (List.map_filter (\<lambda>h. h) handshakes)))))"

end
