(* ===== verification/Certificates.thy ===== *)
theory Certificates
  imports Der Pki Handshakes
begin

text \<open>
  The certificate normalizer (\<open>application/normalize_certificates.py\<close>) and the two artifact stores it can be given
  (\<open>adapters/artifacts/certificate_store.py\<close> and \<open>_MemoryArtifactStore\<close> of \<open>run_analysis.py\<close>): the certificates that Zeek
  extracted are matched with the rows of \<open>ssl.log\<close> by fingerprint, or through the file logs, and each becomes one
  record per connection, role and position; the leaf a server sent is then validated against a trust store.

  The \<open>cryptography\<close> package is a parameter, the record \<open>pki_library\<close>: \<open>load\<close> is \<open>load_der_x509_certificate\<close>, and a
  loaded certificate is the record \<open>x509_facts\<close> of what the code reads of it. The package decodes lazily, so a reader
  may raise after a successful load: such a field is a \<open>result\<close>. A timestamp is an exact rational, an instant is
  in microseconds, and the datetimes compared are aware, as \<open>run_analysis\<close> makes them. The store is a state; its
  operations are passed as the record \<open>artifact_ops\<close> and their laws are the locale \<open>artifact_store\<close>. The file system
  of a store has no faults. Proofs are in \<open>Certificates_Correct\<close>.
\<close>

section \<open>Readers\<close>

definition as_str_list :: "nat \<Rightarrow> nat \<Rightarrow> json \<Rightarrow> string list" where
  "as_str_list max_len limit value = (case value of
     JStr s \<Rightarrow> map py_lower (filter (\<lambda>p. length p \<le> max_len)
       (take limit (filter (\<lambda>p. p \<noteq> []) (map py_strip (py_split (CHR '','') s)))))
   | JList items \<Rightarrow> map py_lower (List.map_filter (as_str max_len) (take limit items))
   | _ \<Rightarrow> [])"

definition bounded_text :: "nat \<Rightarrow> string \<Rightarrow> string" where
  \<comment> \<open>\<open>_bound_text\<close> of a text that is not \<open>None\<close>\<close>
  "bounded_text max_len s = (if length s \<le> max_len then s else take max_len s)"

definition fingerprint_token :: "string \<Rightarrow> string" where
  "fingerprint_token value = py_lower (py_strip (py_remove_char (CHR '':'') value))"

text \<open>\<open>datetime.fromtimestamp(x, tz=UTC)\<close>: rounds half to even to microseconds; a year that is not in 1..9999 raises
  \<open>ValueError\<close>, one that the C library cannot express \<open>OSError\<close>, and seconds beyond 64 bits \<open>OverflowError\<close>.\<close>

definition round_half_even :: "rat \<Rightarrow> int" where
  "round_half_even x =
    (let n = \<lfloor>x\<rfloor>; d = x - of_int n
     in if d < 1 / 2 then n else if 1 / 2 < d then n + 1 else if even n then n else n + 1)"

definition utc_from_timestamp :: "rat \<Rightarrow> py_datetime result" where
  "utc_from_timestamp x =
    (let us = round_half_even (x * 1000000); seconds = us div 1000000
     in if seconds < - (2 ^ 63) \<or> 2 ^ 63 \<le> seconds then Inl OverflowError
        else if seconds < - 67768040609740800 \<or> 67768036191676799 < seconds then Inl OSError
        else if seconds < - 62135596800 \<or> 253402300799 < seconds then Inl ValueError
        else Inr \<lparr>dt_wall = us, dt_offset = Some 0\<rparr>)"

definition epoch_to_datetime :: "json \<Rightarrow> py_datetime option result" where
  "epoch_to_datetime value =
    (let some = (\<lambda>r. bindE (utc_from_timestamp r) (\<lambda>t. Inr (Some t))) in
     case value of
       JInt i \<Rightarrow> if i < 0 then Inr None else if double_limit \<le> i then Inl OverflowError else some (of_int i)
     | JFloat r \<Rightarrow> if r < 0 then Inr None else some r
     | JStr s \<Rightarrow> (case py_float_of_string s of None \<Rightarrow> Inr None
         | Some r \<Rightarrow> (case utc_from_timestamp r of
             Inl e \<Rightarrow> if e = ValueError then Inr None else Inl e
           | Inr t \<Rightarrow> Inr (Some t)))
     | _ \<Rightarrow> Inr None)"

section \<open>Parsing a certificate\<close>

datatype public_key =
    PK_RSA int | PK_DSA int | PK_EC int string | PK_ED25519 | PK_ED448
  | PK_OTHER string \<comment> \<open>the name of another key class\<close>

record x509_facts =
  xf_certificate :: x509_certificate
  xf_public_key :: "public_key result"
  xf_serial_number :: int
  xf_subject_text :: "string result"
  xf_issuer_text :: "string result"
  xf_not_valid_before :: "int result"
  xf_not_valid_after :: "int result"
  xf_signature_oid :: string
  xf_san :: "general_name list option result" \<comment> \<open>\<open>None\<close> without the extension\<close>

record pki_library =
  pl_load :: "bytes \<Rightarrow> x509_facts result"
  pl_verify :: path_verifier
  pl_ip_address :: "string \<Rightarrow> string option"
  pl_idna :: "string \<Rightarrow> string option"

definition signature_algorithm_names :: "(string, string) dict" where
  "signature_algorithm_names =
    [(''1.2.840.113549.1.1.5'', ''sha1WithRSAEncryption''), (''1.2.840.113549.1.1.14'', ''sha224WithRSAEncryption''),
     (''1.2.840.113549.1.1.11'', ''sha256WithRSAEncryption''), (''1.2.840.113549.1.1.12'', ''sha384WithRSAEncryption''),
     (''1.2.840.113549.1.1.13'', ''sha512WithRSAEncryption''), (''1.2.840.113549.1.1.10'', ''rsassaPss''),
     (''1.2.840.10045.4.1'', ''ecdsa-with-SHA1''), (''1.2.840.10045.4.3.1'', ''ecdsa-with-SHA224''),
     (''1.2.840.10045.4.3.2'', ''ecdsa-with-SHA256''), (''1.2.840.10045.4.3.3'', ''ecdsa-with-SHA384''),
     (''1.2.840.10045.4.3.4'', ''ecdsa-with-SHA512''), (''1.2.840.10040.4.3'', ''dsaWithSHA1''),
     (''2.16.840.1.101.3.4.3.1'', ''dsa-with-SHA224''), (''2.16.840.1.101.3.4.3.2'', ''dsa-with-SHA256''),
     (''1.3.101.112'', ''Ed25519''), (''1.3.101.113'', ''Ed448'')]"

definition removesuffix :: "string \<Rightarrow> string \<Rightarrow> string" where
  "removesuffix ending s = (if py_endswith s ending then take (length s - length ending) s else s)"

fun public_key_facts :: "public_key \<Rightarrow> string option \<times> int option \<times> string option" where
  "public_key_facts (PK_RSA n) = (Some ''RSA'', Some n, None)"
| "public_key_facts (PK_DSA n) = (Some ''DSA'', Some n, None)"
| "public_key_facts (PK_EC n curve) = (Some ''ECDSA'', Some n, Some curve)"
| "public_key_facts PK_ED25519 = (Some ''Ed25519'', Some 256, Some ''ed25519'')"
| "public_key_facts PK_ED448 = (Some ''Ed448'', Some 456, Some ''ed448'')"
| "public_key_facts (PK_OTHER name) =
     (let kind = removesuffix ''PublicKey'' name in (if kind = [] then None else Some kind, None, None))"

definition py_hex :: "int \<Rightarrow> string" where
  \<comment> \<open>\<open>format(n, "x")\<close>\<close>
  "py_hex i = (if i < 0 then CHR ''-'' # hex_digits (nat (- i)) else hex_digits (nat i))"

record parsed_certificate =
  pc_syntax_valid :: bool
  pc_syntax_error :: "string option"
  pc_subject :: "string option"
  pc_issuer :: "string option"
  pc_serial_number :: "string option"
  pc_not_before :: "py_datetime option"
  pc_not_after :: "py_datetime option"
  pc_public_key_algorithm :: "string option"
  pc_public_key_size :: "int option"
  pc_public_key_curve :: "string option"
  pc_effective_strength_bits :: "int option"
  pc_signature_algorithm :: "string option"

definition unparsed :: "string \<Rightarrow> parsed_certificate" where
  "unparsed error = \<lparr>pc_syntax_valid = False, pc_syntax_error = Some error, pc_subject = None, pc_issuer = None,
     pc_serial_number = None, pc_not_before = None, pc_not_after = None, pc_public_key_algorithm = None,
     pc_public_key_size = None, pc_public_key_curve = None, pc_effective_strength_bits = None, pc_signature_algorithm = None\<rparr>"

definition max_certificate_der_bytes :: nat where "max_certificate_der_bytes = 65536"

definition max_certificates_per_run :: nat where "max_certificates_per_run = 256"

definition utc_instant :: "int \<Rightarrow> py_datetime" where
  "utc_instant i = \<lparr>dt_wall = i, dt_offset = Some 0\<rparr>"

definition read_certificate :: "x509_facts \<Rightarrow> parsed_certificate result" where
  \<comment> \<open>the part of \<open>parse_certificate_der\<close> after the \<open>try\<close> statement\<close>
  "read_certificate c =
    bindE (xf_public_key c) (\<lambda>key.
    bindE (xf_subject_text c) (\<lambda>subject.
    bindE (xf_issuer_text c) (\<lambda>issuer.
    bindE (xf_not_valid_before c) (\<lambda>not_before.
    bindE (xf_not_valid_after c) (\<lambda>not_after.
    let (algorithm, size, curve) = public_key_facts key in
    Inr \<lparr>pc_syntax_valid = True, pc_syntax_error = None, pc_subject = Some (bounded_text 512 subject),
      pc_issuer = Some (bounded_text 512 issuer), pc_serial_number = Some (bounded_text 128 (py_hex (xf_serial_number c))),
      pc_not_before = Some (utc_instant not_before), pc_not_after = Some (utc_instant not_after),
      pc_public_key_algorithm = algorithm, pc_public_key_size = size, pc_public_key_curve = curve,
      pc_effective_strength_bits = effective_strength_bits algorithm size curve,
      pc_signature_algorithm = Some (case map_of signature_algorithm_names (xf_signature_oid c) of
        Some name \<Rightarrow> name | None \<Rightarrow> xf_signature_oid c)\<rparr>)))))"

definition parse_certificate_der :: "pki_library \<Rightarrow> bytes \<Rightarrow> parsed_certificate result" where
  "parse_certificate_der lib payload =
    (if max_certificate_der_bytes < length payload then Inr (unparsed ''certificate_exceeds_size_limit'')
     else if max_asn1_depth < der_nesting_depth payload then Inr (unparsed ''certificate_asn1_nesting_exceeds_limit'')
     else (case pl_load lib payload of
         Inl e \<Rightarrow> Inr (unparsed (if e = ValueError then ''certificate_der_invalid'' else ''certificate_parse_failed''))
       | Inr certificate \<Rightarrow> read_certificate certificate))"

definition validity_at :: "py_datetime \<Rightarrow> py_datetime \<Rightarrow> py_datetime \<Rightarrow> bool" where
  "validity_at instant not_before not_after =
     (dt_instant not_before \<le> dt_instant instant \<and> dt_instant instant \<le> dt_instant not_after)"

definition expires_within_warning :: "py_datetime \<Rightarrow> py_datetime \<Rightarrow> int \<Rightarrow> bool" where
  "expires_within_warning instant not_after window =
    (if dt_instant not_after < dt_instant instant then False
     else dt_instant not_after - dt_instant instant \<le> window)"

section \<open>Linking certificates to connections\<close>

definition certificate_frames :: "tls_handshake option \<Rightarrow> nat list" where
  "certificate_frames handshake = (case handshake of None \<Rightarrow> []
     | Some h \<Rightarrow> py_unique (List.map_filter (\<lambda>m. if hm_kind m = HM_CERTIFICATE then hm_frame_number m else None) (th_messages h)))"

record extracted_certificate =
  xt_sha256 :: string
  xt_fuid :: "string option"
  xt_payload :: bytes

record extracted_index =
  ix_sha256 :: "(string, extracted_certificate) dict"
  ix_sha1 :: "(string, extracted_certificate) dict"
  ix_fuid :: "(string, extracted_certificate) dict"

definition index_step :: "extracted_certificate \<Rightarrow> extracted_index \<Rightarrow> extracted_index" where
  "index_step item ix = \<lparr>ix_sha256 = AList.update (xt_sha256 item) item (ix_sha256 ix),
     ix_sha1 = AList.update (sha1_bytes (xt_payload item)) item (ix_sha1 ix),
     ix_fuid = (if truthy_str (xt_fuid item) then AList.update (the (xt_fuid item)) item (ix_fuid ix) else ix_fuid ix)\<rparr>"

definition index_extracted :: "extracted_certificate list \<Rightarrow> extracted_index" where
  "index_extracted extracted =
     fold index_step (take max_certificates_per_run extracted) \<lparr>ix_sha256 = [], ix_sha1 = [], ix_fuid = []\<rparr>"

definition match_fingerprint :: "extracted_index \<Rightarrow> string \<Rightarrow> extracted_certificate option" where
  "match_fingerprint ix fingerprint =
    (let token = fingerprint_token fingerprint in
     if length token = 64 then map_of (ix_sha256 ix) token
     else if length token = 40 then map_of (ix_sha1 ix) token
     else None)"

definition file_row_applies :: "string \<Rightarrow> string \<Rightarrow> json_row \<Rightarrow> bool" where
  "file_row_applies uid log_name row =
    ((case as_str 64 (row_get row ''uid'') of
        None \<Rightarrow> uid \<in> set (as_str_list 64 8 (row_get row ''conn_uids''))
      | Some row_uid \<Rightarrow> row_uid = uid)
     \<and> (log_name = ''files.log'' \<longrightarrow> as_str 16 (row_get row ''source'') \<in> {None, Some ''SSL''}))"

definition file_of_row :: "extracted_index \<Rightarrow> json_row \<Rightarrow> extracted_certificate option" where
  "file_of_row ix row =
    (let by = (\<lambda>dict key. Option.bind key (map_of dict)) in
     or_else (by (ix_sha256 ix) (map_option py_lower (as_str 64 (row_get row ''sha256''))))
      (or_else (by (ix_sha1 ix) (map_option py_lower (as_str 40 (row_get row ''sha1''))))
        (by (ix_fuid ix) (as_str 64 (row_get row ''fuid'')))))"

definition files_step :: "extracted_index \<Rightarrow> string \<Rightarrow> string \<times> json_row \<Rightarrow> extracted_certificate list \<Rightarrow> extracted_certificate list" where
  \<comment> \<open>\<open>seen\<close> holds the digests of the certificates found\<close>
  "files_step ix uid = (\<lambda>(log_name, row) found.
     if \<not> file_row_applies uid log_name row then found
     else case file_of_row ix row of
       None \<Rightarrow> found
     | Some item \<Rightarrow> if xt_sha256 item \<in> set (map xt_sha256 found) then found else found @ [item])"

definition files_for_uid :: "(string, json) dict \<Rightarrow> extracted_index \<Rightarrow> string \<Rightarrow> extracted_certificate list" where
  "files_for_uid logs ix uid =
     fold (files_step ix uid)
       (concat (map (\<lambda>log_name. map (Pair log_name) (bounded_records (logs_get logs log_name))) [''sm_cert.log'', ''files.log''])) []"

definition truncated_fuids :: "(string, json) dict \<Rightarrow> string option list" where
  "truncated_fuids logs = map (\<lambda>row. as_str 64 (row_get row ''fuid''))
     (filter (\<lambda>row. as_bool (row_get row ''truncated'') = Some True) (bounded_records (logs_get logs ''sm_cert.log'')))"

section \<open>One record\<close>

definition to_evidence :: "pki_library \<Rightarrow> py_datetime \<Rightarrow> int \<Rightarrow> bytes \<Rightarrow> string \<Rightarrow> string \<Rightarrow> nat \<Rightarrow> certificate_role \<Rightarrow> nat list
    \<Rightarrow> py_datetime option \<Rightarrow> bool \<Rightarrow> certificate_evidence result" where
  "to_evidence lib analysis_time warning_window payload digest uid chain_index role source_frames capture_time truncated =
    bindE (parse_certificate_der lib payload) (\<lambda>parsed.
    let syntax_valid = (pc_syntax_valid parsed \<and> \<not> truncated);
        syntax_error = (if truncated \<and> syntax_valid then Some ''certificate_extract_truncated'' else pc_syntax_error parsed);
        syntax_valid = (if truncated \<and> syntax_valid then False else syntax_valid);
        period = (case (pc_not_before parsed, pc_not_after parsed) of (Some a, Some b) \<Rightarrow> Some (a, b) | _ \<Rightarrow> None);
        base = \<lparr>ce_der_sha256 = digest, ce_uid = uid, ce_chain_index = chain_index, ce_role = role,
          ce_source_frames = source_frames, ce_syntax_valid = False, ce_syntax_error = None, ce_subject = None,
          ce_issuer = None, ce_serial_number = None, ce_not_before = None, ce_not_after = None,
          ce_valid_at_capture_time = None, ce_valid_at_analysis_time = None, ce_expires_within_warning_window = None,
          ce_public_key_algorithm = None, ce_public_key_size = None, ce_public_key_curve = None,
          ce_effective_strength_bits = None, ce_signature_algorithm = None, ce_evidence_state = ES_OBSERVED, ce_validation = None\<rparr>
    in check_model (is_sha256_hex digest)
      (if \<not> syntax_valid then
         base\<lparr>ce_syntax_error := map_option (bounded_text 128) syntax_error,
              ce_evidence_state := (if truncated then ES_INCOMPLETE else ES_OBSERVED)\<rparr>
       else
         base\<lparr>ce_syntax_valid := True, ce_subject := pc_subject parsed, ce_issuer := pc_issuer parsed,
              ce_serial_number := pc_serial_number parsed, ce_not_before := pc_not_before parsed, ce_not_after := pc_not_after parsed,
              ce_valid_at_capture_time := Option.bind period (\<lambda>(a, b). map_option (\<lambda>t. validity_at t a b) capture_time),
              ce_valid_at_analysis_time := map_option (\<lambda>(a, b). validity_at analysis_time a b) period,
              ce_expires_within_warning_window := map_option (\<lambda>(a, b). expires_within_warning analysis_time b warning_window) period,
              ce_public_key_algorithm := pc_public_key_algorithm parsed, ce_public_key_size := pc_public_key_size parsed,
              ce_public_key_curve := pc_public_key_curve parsed, ce_effective_strength_bits := pc_effective_strength_bits parsed,
              ce_signature_algorithm := pc_signature_algorithm parsed\<rparr>))"

section \<open>Artifact stores\<close>

record 's artifact_ops =
  ao_put :: "bytes \<Rightarrow> 's \<Rightarrow> (string \<times> 's) result"
  ao_get :: "string \<Rightarrow> 's \<Rightarrow> (bytes \<times> 's) result"

text \<open>\<open>_MemoryArtifactStore\<close>: its state is the dictionary.\<close>

definition memory_put :: "bytes \<Rightarrow> (string, bytes) dict \<Rightarrow> (string \<times> (string, bytes) dict) result" where
  "memory_put payload items = (let digest = sha256_bytes payload in Inr (digest, AList.update digest payload items))"

definition memory_get :: "string \<Rightarrow> (string, bytes) dict \<Rightarrow> (bytes \<times> (string, bytes) dict) result" where
  "memory_get digest items = (case map_of items digest of None \<Rightarrow> Inl KeyError | Some payload \<Rightarrow> Inr (payload, items))"

definition memory_ops :: "(string, bytes) dict artifact_ops" where
  "memory_ops = \<lparr>ao_put = memory_put, ao_get = memory_get\<rparr>"

text \<open>\<open>CertificateStore\<close>: the cache, and the directory if there is a root.\<close>

record certificate_store =
  cst_memory :: "(string, bytes) dict"
  cst_disk :: "(string, bytes) dict option"

definition store_put :: "bytes \<Rightarrow> certificate_store \<Rightarrow> (string \<times> certificate_store) result" where
  "store_put payload st =
    (if payload = [] then Inl CertificateStoreError
     else if max_certificate_der_bytes < length payload then Inl CertificateStoreError
     else (let digest = sha256_bytes payload; st = st\<lparr>cst_memory := AList.update digest payload (cst_memory st)\<rparr> in
       case cst_disk st of
         None \<Rightarrow> Inr (digest, st)
       | Some disk \<Rightarrow>
           (let disk = AList.update digest payload disk; stored = the (map_of disk digest) in
            if sha256_bytes stored \<noteq> digest then Inl CertificateStoreError
            else Inr (digest, st\<lparr>cst_disk := Some disk\<rparr>))))"

definition store_get :: "string \<Rightarrow> certificate_store \<Rightarrow> (bytes \<times> certificate_store) result" where
  "store_get digest st =
    (if \<not> is_sha256_hex digest then Inl CertificateStoreError
     else case map_of (cst_memory st) digest of
       Some cached \<Rightarrow> Inr (cached, st)
     | None \<Rightarrow> (case cst_disk st of
           None \<Rightarrow> Inl KeyError
         | Some disk \<Rightarrow> (case map_of disk digest of
             None \<Rightarrow> Inl KeyError
           | Some payload \<Rightarrow>
               if sha256_bytes payload \<noteq> digest then Inl CertificateStoreError
               else Inr (payload, st\<lparr>cst_memory := AList.update digest payload (cst_memory st)\<rparr>))))"

definition store_ops :: "certificate_store artifact_ops" where
  "store_ops = \<lparr>ao_put = store_put, ao_get = store_get\<rparr>"

section \<open>Validating the leaf of a server\<close>

fun path_reason_value :: "path_reason_code \<Rightarrow> string" where
  "path_reason_value PR_SELF_SIGNED = ''self_signed''"
| "path_reason_value PR_MISSING_INTERMEDIATE = ''missing_intermediate''"
| "path_reason_value PR_UNTRUSTED_ISSUER = ''untrusted_issuer''"
| "path_reason_value PR_EXPIRED_AT_VERIFICATION_TIME = ''expired_at_verification_time''"
| "path_reason_value PR_NOT_YET_VALID_AT_VERIFICATION_TIME = ''not_yet_valid_at_verification_time''"
| "path_reason_value PR_SIGNATURE_VERIFICATION_FAILED = ''signature_verification_failed''"
| "path_reason_value PR_MAX_CHAIN_DEPTH_EXCEEDED = ''max_chain_depth_exceeded''"
| "path_reason_value PR_INVALID_EXTENSIONS = ''invalid_extensions''"
| "path_reason_value PR_SYNTAX_INVALID_LEAF = ''syntax_invalid_leaf''"
| "path_reason_value PR_CERTIFICATE_NOT_OBSERVED = ''certificate_not_observed''"
| "path_reason_value PR_CAPTURE_TIME_UNAVAILABLE = ''capture_time_unavailable''"

fun identity_reason_value :: "identity_reason_code \<Rightarrow> string" where
  "identity_reason_value IR_SAN_MISMATCH = ''san_mismatch''"
| "identity_reason_value IR_SAN_MISSING = ''san_missing''"
| "identity_reason_value IR_REFERENCE_IDENTITY_UNAVAILABLE = ''reference_identity_unavailable''"

record certificate_run =
  cn_library :: pki_library
  cn_analysis_time :: py_datetime
  cn_expiry_warning :: int
  cn_expected_hostname :: "string option"

definition identity_step :: "json_row \<Rightarrow> (string, py_datetime option \<times> string option) dict
    \<Rightarrow> (string, py_datetime option \<times> string option) dict result" where
  "identity_step row out =
    (case as_str 64 (row_get row ''uid'') of
       None \<Rightarrow> Inr out
     | Some uid \<Rightarrow> bindE (epoch_to_datetime (row_get row ''ts'')) (\<lambda>ts.
         Inr (AList.update uid (ts, as_str 253 (row_get row ''server_name'')) out)))"

definition ssl_identity_by_uid :: "(string, json) dict \<Rightarrow> (string, py_datetime option \<times> string option) dict result" where
  "ssl_identity_by_uid logs = foldE identity_step (bounded_records (logs_get logs ''ssl.log'')) []"

definition load_x509 :: "pki_library \<Rightarrow> 's artifact_ops \<Rightarrow> string \<Rightarrow> 's \<Rightarrow> (x509_facts option \<times> 's) result" where
  "load_x509 lib ops digest st =
    (case ao_get ops digest st of
       Inl e \<Rightarrow> if e = KeyError then Inr (None, st) else Inl e
     | Inr (payload, st) \<Rightarrow> (case pl_load lib payload of
         Inl e \<Rightarrow> if e = ValueError then Inr (None, st) else Inl e
       | Inr certificate \<Rightarrow> Inr (Some certificate, st)))"

definition reference_identity :: "string option \<Rightarrow> string option \<Rightarrow> string option \<times> reference_identity_source option" where
  "reference_identity expected_hostname server_name =
    (if truthy_str expected_hostname then (expected_hostname, Some RI_CONFIGURED)
     else if truthy_str server_name then (server_name, Some RI_SNI)
     else (None, None))"

definition unvalidated :: "trust_store_snapshot \<Rightarrow> string option \<times> reference_identity_source option \<Rightarrow> bool \<Rightarrow> string list \<Rightarrow> certificate_validation" where
  \<comment> \<open>the fields every \<open>CertificateValidation\<close> of \<open>_validate_server_leaf\<close> has\<close>
  "unvalidated snapshot reference syntax_valid indeterminate = \<lparr>cv_certificate_observed = True, cv_syntax_valid = Some syntax_valid,
     cv_path_valid_at_capture_time = None, cv_path_valid_at_analysis_time = None,
     cv_path_invalid_reasons_at_capture_time = [], cv_path_invalid_reasons_at_analysis_time = [],
     cv_identity_match = None, cv_identity_mismatch_reasons = [], cv_reference_identity = fst reference,
     cv_reference_identity_source = snd reference, cv_revocation_status = RS_UNKNOWN,
     cv_trust_profile_id = ts_profile_id snapshot, cv_trust_store_digest = ts_digest snapshot,
     cv_indeterminate_reasons = take 8 indeterminate\<rparr>"

definition certificate_validation_ok :: "certificate_validation \<Rightarrow> bool" where
  "certificate_validation_ok v = (is_sha256_hex (cv_trust_store_digest v)
     \<and> length (cv_path_invalid_reasons_at_capture_time v) \<le> 8 \<and> length (cv_path_invalid_reasons_at_analysis_time v) \<le> 8
     \<and> length (cv_identity_mismatch_reasons v) \<le> 8 \<and> length (cv_indeterminate_reasons v) \<le> 8)"

definition mk_validation :: "certificate_validation \<Rightarrow> certificate_validation result" where
  "mk_validation v = check_model (certificate_validation_ok v) v"

fun load_intermediates :: "pki_library \<Rightarrow> 's artifact_ops \<Rightarrow> certificate_evidence list \<Rightarrow> 's \<Rightarrow> (x509_certificate list \<times> 's) result" where
  "load_intermediates lib ops [] st = Inr ([], st)"
| "load_intermediates lib ops (item # items) st =
    (if ce_chain_index item = 0 \<or> \<not> ce_syntax_valid item then load_intermediates lib ops items st
     else bindE (load_x509 lib ops (ce_der_sha256 item) st) (\<lambda>(parsed, st).
          bindE (load_intermediates lib ops items st) (\<lambda>(rest, st).
          Inr ((case parsed of None \<Rightarrow> rest | Some c \<Rightarrow> xf_certificate c # rest), st))))"

definition path_result :: "certificate_run \<Rightarrow> trust_store_snapshot \<Rightarrow> x509_facts \<Rightarrow> x509_certificate list \<Rightarrow> py_datetime \<Rightarrow> chain_validation_result" where
  "path_result run snapshot leaf intermediates instant =
    validate_certificate_path (pl_verify (cn_library run)) \<lparr>ci_leaf = xf_certificate leaf, ci_intermediates = intermediates,
      ci_trust_store = snapshot, ci_verification_time = instant\<rparr>"

definition validate_loaded_leaf :: "certificate_run \<Rightarrow> trust_store_snapshot \<Rightarrow> string option \<times> reference_identity_source option
    \<Rightarrow> x509_facts \<Rightarrow> x509_certificate list \<Rightarrow> py_datetime option \<Rightarrow> certificate_validation result" where
  \<comment> \<open>from the path validation on\<close>
  "validate_loaded_leaf run snapshot reference leaf intermediates capture_time =
    (let lib = cn_library run;
         check = path_result run snapshot leaf intermediates;
         analysis = check (cn_analysis_time run);
         unavailable = (if capture_time = None then [path_reason_value PR_CAPTURE_TIME_UNAVAILABLE] else [])
     in bindE (xf_san leaf) (\<lambda>extension.
        let identity = match_service_identity (pl_ip_address lib) (pl_idna lib) (fst reference) (extract_san_entries (pl_idna lib) extension);
            codes = map identity_reason_value (im_reason_codes identity);
            indeterminate = unavailable @ (if im_match identity = None then codes else [])
        in mk_validation ((unvalidated snapshot reference True indeterminate)
             \<lparr>cv_path_valid_at_capture_time := Option.bind capture_time (\<lambda>t. cr_valid (check t)),
              cv_path_valid_at_analysis_time := cr_valid analysis,
              cv_path_invalid_reasons_at_capture_time :=
                (case capture_time of None \<Rightarrow> [] | Some t \<Rightarrow> map path_reason_value (cr_reason_codes (check t))),
              cv_path_invalid_reasons_at_analysis_time := map path_reason_value (cr_reason_codes analysis),
              cv_identity_match := im_match identity,
              cv_identity_mismatch_reasons := (if im_match identity = Some False then codes else [])\<rparr>)))"

definition validate_server_leaf :: "certificate_run \<Rightarrow> 's artifact_ops \<Rightarrow> trust_store_snapshot \<Rightarrow> certificate_evidence
    \<Rightarrow> certificate_evidence list \<Rightarrow> py_datetime option \<Rightarrow> string option \<Rightarrow> 's \<Rightarrow> (certificate_validation \<times> 's) result" where
  "validate_server_leaf run ops snapshot leaf chain capture_time server_name st =
    (let lib = cn_library run;
         reference = reference_identity (cn_expected_hostname run) server_name;
         syntax_invalid = path_reason_value PR_SYNTAX_INVALID_LEAF
     in if \<not> ce_syntax_valid leaf then
          bindE (mk_validation (unvalidated snapshot reference False
            (syntax_invalid # (if fst reference = None then [identity_reason_value IR_REFERENCE_IDENTITY_UNAVAILABLE] else [])))) (\<lambda>v. Inr (v, st))
        else bindE (load_x509 lib ops (ce_der_sha256 leaf) st) (\<lambda>(parsed_leaf, st). case parsed_leaf of
            None \<Rightarrow> bindE (mk_validation (unvalidated snapshot reference False [syntax_invalid])) (\<lambda>v. Inr (v, st))
          | Some parsed_leaf \<Rightarrow>
              bindE (load_intermediates lib ops chain st) (\<lambda>(intermediates, st).
              bindE (validate_loaded_leaf run snapshot reference parsed_leaf intermediates capture_time) (\<lambda>v.
              Inr (v, st)))))"

fun attach_loop :: "certificate_run \<Rightarrow> 's artifact_ops \<Rightarrow> trust_store_snapshot \<Rightarrow> (string, py_datetime option \<times> string option) dict
    \<Rightarrow> certificate_evidence list \<Rightarrow> certificate_evidence list \<Rightarrow> 's \<Rightarrow> (certificate_evidence list \<times> 's) result" where
  "attach_loop run ops snapshot ssl_by_uid records [] st = Inr ([], st)"
| "attach_loop run ops snapshot ssl_by_uid records (item # items) st =
    (if ce_role item \<noteq> CR_SERVER \<or> ce_chain_index item \<noteq> 0 then
       bindE (attach_loop run ops snapshot ssl_by_uid records items st) (\<lambda>(rest, st). Inr (item # rest, st))
     else
       (let chain = filter (\<lambda>c. ce_uid c = ce_uid item \<and> ce_role c = CR_SERVER) records;
            (capture_time, server_name) = (case map_of ssl_by_uid (ce_uid item) of Some x \<Rightarrow> x | None \<Rightarrow> (None, None))
        in bindE (validate_server_leaf run ops snapshot item chain capture_time server_name st) (\<lambda>(validation, st).
           bindE (attach_loop run ops snapshot ssl_by_uid records items st) (\<lambda>(rest, st).
           Inr (item\<lparr>ce_validation := Some validation\<rparr> # rest, st)))))"

definition attach_validations :: "certificate_run \<Rightarrow> 's artifact_ops \<Rightarrow> trust_store_snapshot \<Rightarrow> (string, json) dict
    \<Rightarrow> certificate_evidence list \<Rightarrow> 's \<Rightarrow> (certificate_evidence list \<times> 's) result" where
  "attach_validations run ops snapshot logs records st =
    bindE (ssl_identity_by_uid logs) (\<lambda>ssl_by_uid. attach_loop run ops snapshot ssl_by_uid records records st)"

section \<open>The normalizer\<close>

record 's certificate_acc =
  ca_records :: "certificate_evidence list"
  ca_seen :: "(string \<times> nat \<times> string \<times> string) list"
  ca_store :: 's

definition evidence_key :: "certificate_evidence \<Rightarrow> string \<times> nat \<times> string \<times> string" where
  "evidence_key item = (ce_uid item, ce_chain_index item, cr_value (ce_role item), ce_der_sha256 item)"

definition add_record :: "certificate_evidence \<Rightarrow> 's certificate_acc \<Rightarrow> 's certificate_acc" where
  "add_record item a =
    (if max_certificates_per_run \<le> length (ca_records a) then a
     else if evidence_key item \<in> set (ca_seen a) then a
     else a\<lparr>ca_seen := evidence_key item # ca_seen a, ca_records := ca_records a @ [item]\<rparr>)"

text \<open>What the records of one row share.\<close>

record row_context =
  rc_uid :: string
  rc_frames :: "nat list"
  rc_capture_time :: "py_datetime option"

definition add_certificate :: "certificate_run \<Rightarrow> 's artifact_ops \<Rightarrow> row_context \<Rightarrow> certificate_role \<Rightarrow> nat \<Rightarrow> extracted_certificate
    \<Rightarrow> bool \<Rightarrow> 's certificate_acc \<Rightarrow> 's certificate_acc result" where
  "add_certificate run ops rc role index item truncated a =
    bindE (ao_put ops (xt_payload item) (ca_store a)) (\<lambda>(digest, st).
    bindE (to_evidence (cn_library run) (cn_analysis_time run) (cn_expiry_warning run) (xt_payload item) digest (rc_uid rc) index
             role (rc_frames rc) (rc_capture_time rc) truncated) (\<lambda>evidence.
    Inr (add_record evidence (a\<lparr>ca_store := st\<rparr>))))"

definition chain_step :: "certificate_run \<Rightarrow> 's artifact_ops \<Rightarrow> extracted_index \<Rightarrow> row_context \<Rightarrow> certificate_role \<times> nat \<times> string
    \<Rightarrow> 's certificate_acc \<Rightarrow> 's certificate_acc result" where
  "chain_step run ops ix rc = (\<lambda>(role, index, fingerprint) a.
    case match_fingerprint ix fingerprint of
      None \<Rightarrow> Inr a
    | Some item \<Rightarrow> add_certificate run ops rc role index item False a)"

definition fallback_step :: "certificate_run \<Rightarrow> 's artifact_ops \<Rightarrow> string option list \<Rightarrow> row_context \<Rightarrow> nat \<times> extracted_certificate
    \<Rightarrow> 's certificate_acc \<Rightarrow> 's certificate_acc result" where
  "fallback_step run ops truncated rc = (\<lambda>(index, item) a.
    add_certificate run ops rc CR_SERVER index item (xt_fuid item \<in> set truncated) a)"

definition hidden_certificate :: "tls_handshake option \<Rightarrow> bool" where
  "hidden_certificate handshake = (case handshake of None \<Rightarrow> False
     | Some h \<Rightarrow> th_server_certificate_state h = ES_NOT_OBSERVABLE
         \<and> CHR ''x'' \<notin> set (th_ssl_history h) \<and> CHR ''X'' \<notin> set (th_ssl_history h))"

definition certificate_row :: "certificate_run \<Rightarrow> 's artifact_ops \<Rightarrow> (string, json) dict \<Rightarrow> extracted_index \<Rightarrow> (string, tls_handshake) dict
    \<Rightarrow> json_row \<Rightarrow> 's certificate_acc \<Rightarrow> 's certificate_acc result" where
  "certificate_row run ops logs ix handshake_by_uid row a =
    (case as_str 64 (row_get row ''uid'') of
       None \<Rightarrow> Inr a
     | Some uid \<Rightarrow>
        (let handshake = map_of handshake_by_uid uid in
         if hidden_certificate handshake then Inr a
         else bindE (epoch_to_datetime (row_get row ''ts'')) (\<lambda>capture_time.
           let rc = \<lparr>rc_uid = uid, rc_frames = certificate_frames handshake, rc_capture_time = capture_time\<rparr>;
               server_fps = as_str_list 64 max_chain_depth (row_get row ''cert_chain_fps'');
               client_fps = as_str_list 64 max_chain_depth (row_get row ''client_cert_chain_fps'');
               history = or_str (as_str 100 (row_get row ''ssl_history'')) []
           in bindE (foldE (chain_step run ops ix rc)
                (map (Pair CR_SERVER) (enumerate 0 server_fps) @ map (Pair CR_CLIENT) (enumerate 0 client_fps)) a) (\<lambda>a.
              if server_fps \<noteq> [] \<or> CHR ''x'' \<notin> set history \<and> CHR ''X'' \<notin> set history then Inr a
              else foldE (fallback_step run ops (truncated_fuids logs) rc) (enumerate 0 (files_for_uid logs ix uid)) a))))"

definition certificate_sort_key :: "certificate_evidence \<Rightarrow> string \<times> string \<times> nat \<times> string" where
  "certificate_sort_key item = (ce_uid item, cr_value (ce_role item), ce_chain_index item, ce_der_sha256 item)"

definition normalize_certificates :: "certificate_run \<Rightarrow> 's artifact_ops \<Rightarrow> (string, json) dict \<Rightarrow> extracted_certificate list
    \<Rightarrow> tls_handshake list \<Rightarrow> trust_store_snapshot option \<Rightarrow> 's \<Rightarrow> (certificate_evidence list \<times> 's) result" where
  "normalize_certificates run ops logs extracted handshakes trust_snapshot st =
    (let ix = index_extracted extracted; handshake_by_uid = dict_of_last th_uid handshakes in
     bindE (foldE (certificate_row run ops logs ix handshake_by_uid) (bounded_records (logs_get logs ''ssl.log''))
              \<lparr>ca_records = [], ca_seen = [], ca_store = st\<rparr>) (\<lambda>a.
     let records = sort_key certificate_sort_key (ca_records a) in
     case trust_snapshot of
       None \<Rightarrow> Inr (records, ca_store a)
     | Some snapshot \<Rightarrow>
        (let hostname = (if truthy_str (cn_expected_hostname run) then Some (py_strip (the (cn_expected_hostname run))) else None)
         in attach_validations (run\<lparr>cn_expected_hostname := (if truthy_str hostname then hostname else None)\<rparr>)
              ops snapshot logs records (ca_store a))))"

end
