(* ===== verification/Analysis.thy ===== *)
theory Analysis
  imports Rules Reports Intake Certificates
begin

text \<open>
  One analysis of one capture: \<open>application/run_analysis.py\<close>, which checks the file, runs the analyzers, composes the
  four normalizers, the policy engine and the scores, and builds the evidence document; \<open>application/stub_analyze.py\<close>,
  which does without analyzers; and \<open>_analyze\<close> of \<open>bootstrap.py\<close>, which wires the former.

  A capture is the content of its file, \<open>None\<close> if there is no file. The analyzers, the clock, the loaders of reference
  data and the \<open>cryptography\<close> package are fields of the record \<open>analysis_services\<close>: an analyzer is a function of the
  capture that may raise. The artifact store is a state with the operations of \<open>artifact_ops\<close>; its content after an
  exception is not modelled. Proofs are in \<open>Analysis_Correct\<close>.
\<close>

section \<open>Requests\<close>

record analyze_request =
  rq_capture :: "bytes option"
  rq_analysis_time :: "py_datetime option"
  rq_expiry_warning_seconds :: int
  rq_expected_hostname :: "string option"
  rq_policy_profile :: policy_profile

definition default_expiry_warning_seconds :: int where
  "default_expiry_warning_seconds = 30 * 24 * 60 * 60"

text \<open>The validator of \<open>expected_hostname\<close>; the bound on its length is checked before.\<close>

definition normalize_expected_hostname :: "string option \<Rightarrow> string option" where
  "normalize_expected_hostname value =
    (case value of None \<Rightarrow> None | Some h \<Rightarrow> if py_strip h = [] then None else Some (py_strip h))"

definition mk_analyze_request :: "analyze_request \<Rightarrow> analyze_request result" where
  "mk_analyze_request r =
    check_model (1 \<le> rq_expiry_warning_seconds r \<and> opt_ok (\<lambda>h. length h \<le> 253) (rq_expected_hostname r))
      (r\<lparr>rq_expected_hostname := normalize_expected_hostname (rq_expected_hostname r)\<rparr>)"

section \<open>The digest of the configuration\<close>

text \<open>\<open>json.dumps\<close> of a flat dictionary with sorted keys, no spaces, and non-ASCII characters escaped.\<close>

definition json_escape :: "char \<Rightarrow> string" where
  "json_escape c =
    (let n = (of_char c :: nat) in
     if n = 34 then [CHR 0x5C, CHR 0x22] else if n = 92 then [CHR 0x5C, CHR 0x5C]
     else if n = 10 then [CHR 0x5C, CHR ''n''] else if n = 13 then [CHR 0x5C, CHR ''r'']
     else if n = 9 then [CHR 0x5C, CHR ''t''] else if n = 12 then [CHR 0x5C, CHR ''f'']
     else if n = 8 then [CHR 0x5C, CHR ''b'']
     else if 32 \<le> n \<and> n \<le> 126 then [c]
     else [CHR 0x5C, CHR ''u'', CHR ''0'', CHR ''0'', hex_digit (n div 16), hex_digit (n mod 16)])"

definition json_quote :: "string \<Rightarrow> string" where
  "json_quote s = CHR 0x22 # concat (map json_escape s) @ [CHR 0x22]"

definition json_flag :: "bool \<Rightarrow> string" where
  "json_flag b = (if b then ''true'' else ''false'')"

definition json_opt_str :: "string option \<Rightarrow> string" where
  "json_opt_str s = (case s of None \<Rightarrow> ''null'' | Some t \<Rightarrow> json_quote t)"

definition json_object :: "(string, string) dict \<Rightarrow> string" where
  \<comment> \<open>the values are already written\<close>
  "json_object items = CHR ''{'' # py_join '','' (map (\<lambda>(k, v). json_quote k @ CHR '':'' # v) (sort_key fst items)) @ [CHR ''}'']"

definition base_configuration :: "(string, string) dict" where
  \<comment> \<open>\<open>_CONFIGURATION\<close>\<close>
  "base_configuration =
    [(''normalization_schema_version'', json_quote ''v1''), (''zeek_entry'', json_quote ''zeek/site/__load__.zeek''),
     (''zeek_deterministic'', json_flag True), (''capinfos_entry'', json_quote ''capinfos''),
     (''flow_normalization'', json_quote ''v1''), (''session_normalization'', json_quote ''v2''),
     (''handshake_normalization'', json_quote ''v1''), (''certificate_normalization'', json_quote ''v1''),
     (''chain_validation'', json_quote ''v1''), (''expiry_warning_seconds'', py_str_int default_expiry_warning_seconds),
     (''tshark_corroboration'', json_quote ''smtp_imap_pop_tls_handshake''), (''starttls_evaluation'', json_quote ''v1''),
     (''scoring_schema_version'', json_quote ''securemail.scoring/v1''),
     (''posture_schema_version'', json_quote ''securemail.posture/v1''),
     (''evidence_document_schema_version'', json_quote ''v2'')]"

definition configuration_payload :: "string option \<Rightarrow> int \<Rightarrow> string option \<Rightarrow> string" where
  "configuration_payload iana_tls_parameters_sha256 expiry_warning_seconds expected_hostname =
    (let digest = (if truthy_str iana_tls_parameters_sha256 then the iana_tls_parameters_sha256 else tp_digest empty_tls_parameter_index)
     in json_object
       (AList.update ''iana_tls_parameters_sha256'' (json_quote digest)
       (AList.update ''expected_hostname'' (json_opt_str expected_hostname)
       (AList.update ''expiry_warning_seconds'' (py_str_int expiry_warning_seconds) base_configuration))))"

definition configuration_digest :: "string option \<Rightarrow> int \<Rightarrow> string option \<Rightarrow> string" where
  "configuration_digest iana_tls_parameters_sha256 expiry_warning_seconds expected_hostname =
    sha256_hex (configuration_payload iana_tls_parameters_sha256 expiry_warning_seconds expected_hostname)"

section \<open>The file\<close>

function read_chunks :: "nat \<Rightarrow> bytes \<Rightarrow> bytes list" where
  "read_chunks k content =
    (if k = 0 \<or> take k content = [] then [] else take k content # read_chunks k (drop k content))"
  by auto
termination by (relation "measure (\<lambda>(k, content). length content)") auto

declare read_chunks.simps [simp del]

definition sha256_file :: "bytes \<Rightarrow> string" where
  \<comment> \<open>a digest fed in parts is that of their concatenation\<close>
  "sha256_file content = sha256_bytes (concat (read_chunks (1024 * 1024) content))"

definition open_capture :: "bytes option \<Rightarrow> bytes result" where
  "open_capture capture =
    (case capture of
       None \<Rightarrow> Inl FileNotFoundError
     | Some content \<Rightarrow>
         (let header = take 4 content in
          if header \<noteq> pcapng_magic \<and> header \<notin> set pcap_magics then Inl InvalidCaptureError else Inr content))"

text \<open>\<open>timedelta(seconds=n)\<close>, in microseconds: at most 999999999 days.\<close>

definition timedelta_seconds :: "int \<Rightarrow> int result" where
  "timedelta_seconds n = (if abs (n div 86400) \<le> 999999999 then Inr (n * 1000000) else Inl OverflowError)"

section \<open>Running an analysis\<close>

record zeek_run_result =
  zr_image_digest :: string
  zr_analyzer_bundle_digest :: string
  zr_logs :: "(string, json) dict"
  zr_extracted :: "extracted_certificate list"

record analysis_services =
  an_preflight :: "bytes \<Rightarrow> capture_preflight result"
  an_zeek :: "bytes \<Rightarrow> zeek_run_result result"
  an_tshark :: "(bytes \<Rightarrow> json_row list result) option"
  an_tls_parameters :: "tls_parameter_index option"
  an_library :: pki_library
  an_trust_snapshot :: "trust_store_snapshot option"
  an_policy_pack :: policy_pack
  an_policy_pack_digest :: string
  an_now :: py_datetime

definition reraise :: "py_exn \<Rightarrow> py_exn \<Rightarrow> 'a result \<Rightarrow> 'a result" where
  \<comment> \<open>\<open>except e as exc: raise f(str(exc)) from exc\<close>\<close>
  "reraise e f r = (if r = Inl e then Inl f else r)"

definition analysis_instant :: "py_datetime \<Rightarrow> py_datetime option \<Rightarrow> py_datetime" where
  "analysis_instant now requested = as_utc (case requested of None \<Rightarrow> now | Some t \<Rightarrow> t)"

text \<open>The sessions, and the frames of TShark if it was asked.\<close>

definition corroborated_sessions :: "analysis_services \<Rightarrow> bytes \<Rightarrow> (string, json) dict \<Rightarrow> flow list
    \<Rightarrow> (email_session list \<times> json) result" where
  "corroborated_sessions sv content logs flows =
    bindE (normalize_sessions logs flows JNull) (\<lambda>sessions.
    case an_tshark sv of
      None \<Rightarrow> Inr (sessions, JNull)
    | Some run \<Rightarrow>
        if \<not> needs_tshark_corroboration sessions flows (Some logs) then Inr (sessions, JNull)
        else bindE (reraise AnalyzerError AnalysisError (run content)) (\<lambda>frames.
             let tshark_frames = JList (map JObj frames) in
             bindE (normalize_sessions logs flows tshark_frames) (\<lambda>sessions. Inr (sessions, tshark_frames))))"

definition normalize_evidence :: "analysis_services \<Rightarrow> 's artifact_ops \<Rightarrow> tls_parameter_index \<Rightarrow> certificate_run \<Rightarrow> bytes
    \<Rightarrow> capture_preflight \<Rightarrow> zeek_run_result \<Rightarrow> 's \<Rightarrow> (evidence_batch \<times> 's) result" where
  "normalize_evidence sv ops identifiers run content preflight zeek st =
    (let logs = zr_logs zeek in
     bindE (normalize_flows logs preflight) (\<lambda>flows.
     bindE (corroborated_sessions sv content logs flows) (\<lambda>(sessions, tshark_frames).
     bindE (normalize_handshakes logs flows identifiers tshark_frames) (\<lambda>handshakes.
     bindE (normalize_certificates run ops logs (zr_extracted zeek) handshakes (an_trust_snapshot sv) st) (\<lambda>(certificates, st).
     Inr (\<lparr>eb_flows = flows, eb_sessions = sessions, eb_handshakes = handshakes, eb_certificates = certificates\<rparr>, st))))))"

definition mk_score_request :: "score_request \<Rightarrow> score_request result" where
  "mk_score_request r = check_model (score_request_ok r) r"

definition judge_evidence :: "analysis_services \<Rightarrow> string \<Rightarrow> py_datetime \<Rightarrow> py_datetime option \<Rightarrow> evidence_batch
    \<Rightarrow> (policy_evaluation \<times> posture_assessment) result" where
  "judge_evidence sv capture_digest analysis_time capture_start_time batch =
    bindE (reraise PolicyEngineError AnalysisError (resolve_evaluation_clock (an_policy_pack sv) analysis_time capture_start_time))
      (\<lambda>evaluation_time.
    bindE (evaluate_policy_batch (an_policy_pack sv) (an_policy_pack_digest sv) capture_digest evaluation_time batch) (\<lambda>evaluation.
    bindE (mk_score_request \<lparr>sq_findings = pv_findings evaluation, sq_policy_checks = pv_checks evaluation, sq_asset_context = []\<rparr>)
      (\<lambda>request.
    bindE (score_findings request) (\<lambda>posture. Inr (evaluation, posture)))))"

definition run_identity :: "analysis_services \<Rightarrow> analyze_request \<Rightarrow> string \<Rightarrow> string \<Rightarrow> py_datetime \<Rightarrow> tls_parameter_index \<Rightarrow> analysis_run" where
  "run_identity sv request capture_digest bundle_digest analysis_time identifiers =
    \<lparr>ar_capture_sha256 = capture_digest, ar_analyzer_bundle_digest = bundle_digest,
     ar_configuration_digest = configuration_digest (Some (tp_digest identifiers)) (rq_expiry_warning_seconds request)
       (rq_expected_hostname request),
     ar_analysis_time = analysis_time, ar_policy_profile = rq_policy_profile request,
     ar_policy_pack_version = an_policy_pack_digest sv, ar_trust_store_digest = map_option ts_digest (an_trust_snapshot sv)\<rparr>"

definition mk_evidence_document :: "evidence_document \<Rightarrow> evidence_document result" where
  "mk_evidence_document d = check_model (evidence_document_ok d) d"

definition run_analysis :: "analysis_services \<Rightarrow> 's artifact_ops \<Rightarrow> analyze_request \<Rightarrow> 's \<Rightarrow> (evidence_document \<times> 's) result" where
  "run_analysis sv ops request st =
    bindE (open_capture (rq_capture request)) (\<lambda>content.
    let identifiers = (case an_tls_parameters sv of Some p \<Rightarrow> p | None \<Rightarrow> empty_tls_parameter_index);
        analysis_time = analysis_instant (an_now sv) (rq_analysis_time request) in
    bindE (timedelta_seconds (rq_expiry_warning_seconds request)) (\<lambda>warning_window.
    let capture_digest = sha256_file content in
    bindE (reraise AnalyzerError AnalysisError
             (bindE (an_preflight sv content) (\<lambda>p. bindE (an_zeek sv content) (\<lambda>z. Inr (p, z))))) (\<lambda>(preflight, zeek).
    let run = \<lparr>cn_library = an_library sv, cn_analysis_time = analysis_time, cn_expiry_warning = warning_window,
               cn_expected_hostname = rq_expected_hostname request\<rparr> in
    bindE (normalize_evidence sv ops identifiers run content preflight zeek st) (\<lambda>(batch, st).
    bindE (judge_evidence sv capture_digest analysis_time (cp_capture_start_time preflight) batch) (\<lambda>(evaluation, posture).
    bindE (mk_evidence_document
        \<lparr>ed_run_identity = run_identity sv request capture_digest (zr_analyzer_bundle_digest zeek) analysis_time identifiers,
         ed_capture_preflight = preflight, ed_flows = eb_flows batch, ed_sessions = eb_sessions batch,
         ed_handshakes = eb_handshakes batch, ed_certificates = eb_certificates batch, ed_findings = pv_findings evaluation,
         ed_policy_checks = pv_checks evaluation, ed_posture = posture\<rparr>) (\<lambda>document.
    Inr (document, st)))))))"

text \<open>Without an artifact store, a fresh \<open>_MemoryArtifactStore\<close> is used.\<close>

definition run_analysis_in_memory :: "analysis_services \<Rightarrow> analyze_request \<Rightarrow> evidence_document result" where
  "run_analysis_in_memory sv request = bindE (run_analysis sv memory_ops request []) (\<lambda>(document, _). Inr document)"

section \<open>The stub\<close>

definition stub_pack :: string where "stub_pack = replicate 64 (CHR ''0'')"

definition stub_bundle :: string where "stub_bundle = replicate 64 (CHR ''1'')"

definition stub_analyze :: "py_datetime \<Rightarrow> analyze_request \<Rightarrow> evidence_document result" where
  "stub_analyze now request =
    bindE (open_capture (rq_capture request)) (\<lambda>content.
    bindE (build_posture [] []) (\<lambda>posture.
    mk_evidence_document
      \<lparr>ed_run_identity = \<lparr>ar_capture_sha256 = sha256_file content, ar_analyzer_bundle_digest = stub_bundle,
         ar_configuration_digest = configuration_digest None
           (if rq_expiry_warning_seconds request \<noteq> 0 then rq_expiry_warning_seconds request else default_expiry_warning_seconds)
           (rq_expected_hostname request),
         ar_analysis_time = analysis_instant now (rq_analysis_time request), ar_policy_profile = rq_policy_profile request,
         ar_policy_pack_version = stub_pack, ar_trust_store_digest = None\<rparr>,
       ed_capture_preflight = \<lparr>cp_packet_count = 0, cp_file_time_precision = ''nanosecond'', cp_packet_size_limit = None,
         cp_packet_size_limit_min_inferred = None, cp_packet_size_limit_max_inferred = None, cp_truncated_packets_present = False,
         cp_original_packet_bytes = None, cp_capture_duration_seconds = None, cp_capture_start_time = None\<rparr>,
       ed_flows = [], ed_sessions = [], ed_handshakes = [], ed_certificates = [], ed_findings = [], ed_policy_checks = [],
       ed_posture = posture\<rparr>))"

section \<open>The wiring (bootstrap.py)\<close>

record deployment =
  dp_stub :: bool \<comment> \<open>the environment variable \<open>SECUREMAIL_ANALYSIS_STUB\<close> is 1\<close>
  dp_policy_pack :: "policy_profile \<Rightarrow> (policy_pack \<times> string) result"
  dp_tls_parameters :: "tls_parameter_index result"
  dp_trust_store :: "trust_store_snapshot result"
  dp_preflight :: "bytes \<Rightarrow> capture_preflight result"
  dp_zeek :: "bytes \<Rightarrow> zeek_run_result result"
  dp_tshark :: "bytes \<Rightarrow> json_row list result"
  dp_library :: pki_library
  dp_now :: py_datetime

definition analyze_capture :: "deployment \<Rightarrow> analyze_request \<Rightarrow> certificate_store \<Rightarrow> (evidence_document \<times> certificate_store) result" where
  \<comment> \<open>\<open>_analyze\<close>; the fields of \<open>raw\<close> are its arguments, the store is that of \<open>CertificateStore(root)\<close>\<close>
  "analyze_capture dp raw store =
    bindE (reraise PolicyPackError AnalysisError (dp_policy_pack dp (rq_policy_profile raw))) (\<lambda>(pack, digest).
    bindE (mk_analyze_request raw) (\<lambda>request.
    bindE (dp_tls_parameters dp) (\<lambda>identifiers.
    bindE (dp_trust_store dp) (\<lambda>snapshot.
    run_analysis
      \<lparr>an_preflight = dp_preflight dp, an_zeek = dp_zeek dp, an_tshark = Some (dp_tshark dp), an_tls_parameters = Some identifiers,
       an_library = dp_library dp, an_trust_snapshot = Some snapshot, an_policy_pack = pack, an_policy_pack_digest = digest,
       an_now = dp_now dp\<rparr> store_ops request store))))"

definition worker_analyze :: "deployment \<Rightarrow> analyze_request \<Rightarrow> evidence_document result" where
  \<comment> \<open>\<open>_worker_analyze\<close>, with the memory-only store of \<open>_analyze_from_request\<close>\<close>
  "worker_analyze dp request =
    (if dp_stub dp then stub_analyze (dp_now dp) request
     else bindE (analyze_capture dp request \<lparr>cst_memory = [], cst_disk = None\<rparr>) (\<lambda>(document, _). Inr document))"

end
