(* ===== verification/Workflow.thy ===== *)
theory Workflow
  imports Job_System Catalog Advisory Analysis
begin

text \<open>
  The worker's pipeline (\<open>application/analysis_workflow.py\<close>): one claimed job through analysis, report assembly,
  advisories, rendering, artifacts and publication, with a check for cancellation between the stages.

  The world is the job store, the window history and the report root. The callables the workflow is given are
  parameters, collected in a record: the analysis (\<open>Analysis\<close> defines it), the scorers (\<open>Detectors\<close>), the canonicalizer, the renderers, the reading of the
  clock and \<open>str\<close> of an exception. Another process, the web API, may act on the job store before every operation of
  the worker on it: \<open>sv_api k\<close> is what it does before the \<open>k\<close>-th one. A capture is given to the analysis by its content.

  Shown here: whatever the API does meanwhile, executing a running job returns it in a terminal status
  (\<open>execute_running\<close>; \<open>Interference\<close> treats other workers and operations that come apart); a
  completed job has its three artifacts stored and its report published; no stage error leaves the store, the history
  or the catalog in a bad state; and repeating \<open>process_next_job\<close> drains the queue.
\<close>

section \<open>World and services\<close>

record world =
  w_store :: job_store
  w_history :: ml_history
  w_catalog :: report_root

record services =
  sv_analyze :: "bytes \<Rightarrow> string option \<Rightarrow> policy_profile \<Rightarrow> evidence_document result"
  sv_renderer :: renderer_manifest
  sv_scorers :: "scorer list"
  sv_canonicalize :: "canonical_report \<Rightarrow> bytes result"
  sv_digest :: "bytes \<Rightarrow> string"
  sv_render_html :: "canonical_report \<Rightarrow> string result"
  sv_render_pdf :: "string \<Rightarrow> bytes result"
  sv_dependency_versions :: "(string, string) dict"
  sv_now :: py_datetime
  sv_str :: "py_exn \<Rightarrow> string"
  sv_type_name :: "py_exn \<Rightarrow> string"
  sv_api :: "nat \<Rightarrow> job_store \<Rightarrow> job_store"

definition storeS :: "services \<Rightarrow> nat \<Rightarrow> (job_store, 'a) op \<Rightarrow> (world, 'a) op" where
  "storeS sv k m = doS (modifyS (\<lambda>w. w\<lparr>w_store := sv_api sv k (w_store w)\<rparr>)) (\<lambda>_. onS w_store w_store_update m)"

section \<open>The pipeline (analysis\_workflow.py)\<close>

definition fail_job :: "services \<Rightarrow> nat \<Rightarrow> string \<Rightarrow> string \<Rightarrow> (world, analysis_job) op" where
  "fail_job sv k run_id message = storeS sv k (update_job run_id
     (no_update\<lparr>ju_status := Some ST_FAILED, ju_error_message := Some (take 1000 message)\<rparr>))"

definition mark_cancelled :: "services \<Rightarrow> nat \<Rightarrow> string \<Rightarrow> (world, analysis_job) op" where
  "mark_cancelled sv k run_id = storeS sv k (update_job run_id (no_update\<lparr>ju_status := Some ST_CANCELLED\<rparr>))"

definition unless_cancelled :: "services \<Rightarrow> nat \<Rightarrow> string \<Rightarrow> (world, analysis_job) op \<Rightarrow> (world, analysis_job) op" where
  \<comment> \<open>\<open>if _cancelled(...): return _mark_cancelled(...)\<close>, then the rest\<close>
  "unless_cancelled sv k run_id rest =
    doS (storeS sv k (pureS (is_cancel_requested run_id))) (\<lambda>cancelled.
    if cancelled then mark_cancelled sv (k + 1) run_id else rest)"

definition enter_stage :: "services \<Rightarrow> nat \<Rightarrow> string \<Rightarrow> analysis_stage \<Rightarrow> (world, analysis_job) op" where
  "enter_stage sv k run_id stage = storeS sv k (update_job run_id (no_update\<lparr>ju_stage := Some stage\<rparr>))"

definition analyze_stage :: "services \<Rightarrow> analysis_job \<Rightarrow> (world, evidence_document) op" where
  "analyze_stage sv job =
    doS (storeS sv 4 (pureS (capture_path (aj_run_id job)))) (\<lambda>capture.
    case pp_of_value (aj_policy_profile job) of
      None \<Rightarrow> raiseS CaptureWorkflowError
    | Some profile \<Rightarrow>
        doS (guardS (opt_ok (\<lambda>h. length h \<le> 253) (aj_expected_hostname job)) ValidationError) (\<lambda>_.
        pureS (\<lambda>_. sv_analyze sv capture (normalize_expected_hostname (aj_expected_hostname job)) profile)))"

definition assemble_stage :: "services \<Rightarrow> analysis_job \<Rightarrow> evidence_document \<Rightarrow> (world, canonical_report) op" where
  "assemble_stage sv job evidence =
    (let request = \<lparr>aq_case_id = aj_case_id job, aq_analysis_run_id = aj_run_id job,
           aq_capture_filename = ''capture.'' @ aj_capture_format job, aq_generated_at = None,
           aq_dependency_versions = sv_dependency_versions sv\<rparr> in
     doS (guardS (assemble_request_ok request) ValidationError) (\<lambda>_.
     pureS (\<lambda>_. assemble_report (sv_now sv) evidence request (sv_renderer sv))))"

definition advise_stage :: "services \<Rightarrow> evidence_document \<Rightarrow> canonical_report \<Rightarrow> (world, canonical_report) op" where
  "advise_stage sv evidence report =
    doS (pureS (\<lambda>w. load_windows (w_history w))) (\<lambda>history.
    doS (pureS (\<lambda>_. attach_advisories_with_history (sv_scorers sv) history ''local'' report)) (\<lambda>(advised, new_windows).
    doS (guardS (ed_findings (rpt_evidence advised) = ed_findings evidence) CaptureWorkflowError) (\<lambda>_.
    doS (onS w_history w_history_update (append_windows new_windows)) (\<lambda>_.
    returnS advised))))"

definition render_stage :: "services \<Rightarrow> canonical_report \<Rightarrow> (world, bytes \<times> bytes \<times> bytes) op" where
  \<comment> \<open>the JSON, HTML and PDF bytes\<close>
  "render_stage sv advised =
    doS (pureS (\<lambda>_. render_report (sv_canonicalize sv) (sv_digest sv) (sv_render_html sv) (sv_render_pdf sv) advised
          [''json'', ''html'', ''pdf''])) (\<lambda>rendered.
    case (rd_html rendered, rd_pdf rendered) of
      (Some html, Some pdf) \<Rightarrow>
        doS (guardS (length (utf8_bytes html) \<le> max_html_bytes) CaptureWorkflowError) (\<lambda>_.
        doS (guardS (length pdf \<le> max_pdf_bytes) CaptureWorkflowError) (\<lambda>_.
        returnS (rd_json_bytes rendered, utf8_bytes html, pdf)))
    | _ \<Rightarrow> raiseS CaptureWorkflowError)"

definition publish_stage :: "services \<Rightarrow> analysis_job \<Rightarrow> bytes \<Rightarrow> (world, analysis_job) op" where
  "publish_stage sv job json_bytes =
    doS (onS w_catalog w_catalog_update (publish_report (aj_case_id job) json_bytes)) (\<lambda>_.
    storeS sv 20 (update_job (aj_run_id job) (no_update\<lparr>ju_status := Some ST_COMPLETED, ju_stage := Some SG_PUBLICATION,
      ju_artifacts := Some \<lparr>aa_canonical = True, aa_html = True, aa_pdf = True\<rparr>\<rparr>)))"

definition execute_stages :: "services \<Rightarrow> analysis_job \<Rightarrow> (world, analysis_job) op" where
  "execute_stages sv job =
    (let run_id = aj_run_id job in
     unless_cancelled sv 1 run_id (
     doS (enter_stage sv 3 run_id SG_DETERMINISTIC_ANALYSIS) (\<lambda>_.
     doS (analyze_stage sv job) (\<lambda>evidence.
     unless_cancelled sv 5 run_id (
     doS (enter_stage sv 7 run_id SG_POLICY_SCORING) (\<lambda>_.
     doS (assemble_stage sv job evidence) (\<lambda>report.
     unless_cancelled sv 8 run_id (
     doS (enter_stage sv 10 run_id SG_ML_ADVISORY) (\<lambda>_.
     doS (advise_stage sv evidence report) (\<lambda>advised.
     unless_cancelled sv 11 run_id (
     doS (enter_stage sv 13 run_id SG_REPORT_RENDERING) (\<lambda>_.
     doS (render_stage sv advised) (\<lambda>(json_bytes, html_bytes, pdf).
     doS (storeS sv 14 (write_artifact run_id ''report.json'' json_bytes)) (\<lambda>_.
     doS (storeS sv 15 (write_artifact run_id ''report.html'' html_bytes)) (\<lambda>_.
     doS (storeS sv 16 (write_artifact run_id ''report.pdf'' pdf)) (\<lambda>_.
     unless_cancelled sv 17 run_id (
     doS (enter_stage sv 19 run_id SG_PUBLICATION) (\<lambda>_.
     publish_stage sv job json_bytes))))))))))))))))))"

definition execute_capture_job :: "services \<Rightarrow> string \<Rightarrow> (world, analysis_job) op" where
  "execute_capture_job sv run_id =
    doS (storeS sv 0 (pureS (get_job run_id))) (\<lambda>found. case found of
      None \<Rightarrow> raiseS JobNotFoundError
    | Some job \<Rightarrow>
        if aj_status job \<noteq> ST_RUNNING then returnS job
        else tryS (execute_stages sv job) (\<lambda>exc. fail_job sv 21 run_id
               (if sv_str sv exc \<noteq> [] then sv_str sv exc else sv_type_name sv exc)))"

definition process_next_job :: "services \<Rightarrow> (world, analysis_job option) op" where
  "process_next_job sv =
    doS (onS w_store w_store_update claim_next) (\<lambda>claimed. case claimed of
      None \<Rightarrow> returnS None
    | Some job \<Rightarrow> doS (execute_capture_job sv (aj_run_id job)) (\<lambda>job. returnS (Some job)))"

text \<open>The worker's loop (\<open>run_capture_worker_loop\<close> of \<open>bootstrap.py\<close>) repeats \<open>process_next_job\<close> for ever; here \<open>n\<close> times.
  An exception would end it.\<close>

fun worker_loop :: "services \<Rightarrow> nat \<Rightarrow> (world, unit) op" where
  "worker_loop sv 0 = returnS ()"
| "worker_loop sv (Suc n) = doS (process_next_job sv) (\<lambda>_. worker_loop sv n)"

section \<open>What the API may do to a running job\<close>

text \<open>A job with its capture and artifacts, as the worker left it.\<close>

definition run_view :: "job_store \<Rightarrow> string \<Rightarrow> (analysis_job \<times> job_dir) option" where
  "run_view s rid = Option.bind (map_of (js_jobs s) rid) (\<lambda>d. map_option (\<lambda>j. (j, d)) (jd_status d))"

definition run_forward :: "analysis_job \<times> job_dir \<Rightarrow> analysis_job \<times> job_dir \<Rightarrow> bool" where
  "run_forward v w = (progresses (fst v) (fst w) \<and> jd_capture (snd w) = jd_capture (snd v)
     \<and> jd_artifacts (snd w) = jd_artifacts (snd v)
     \<and> (aj_status (fst v) = ST_RUNNING \<longrightarrow> aj_status (fst w) = ST_RUNNING))"

lemma run_view_eq: "run_view s rid = Some (j, d) \<longleftrightarrow> map_of (js_jobs s) rid = Some d \<and> jd_status d = Some j"
  by (auto simp: run_view_def bind_eq_Some_conv)

lemma job_of_run_view: "job_of s rid = Some j \<longleftrightarrow> (\<exists>d. run_view s rid = Some (j, d))"
  by (auto simp: run_view_eq job_of_def bind_eq_Some_conv)

lemma ingest_keeps_dir: "keeps (\<lambda>s. map_of (js_jobs s) rid = Some d) (ingest_capture request chunks run_id upload_id created)"
proof -
  have st: "keeps (\<lambda>s. map_of (js_jobs s) rid = Some d) (stage_capture u src fmt)" for u src fmt
    by (rule keepsI) (simp add: stage_capture_def op_defs Let_def split: option.splits)
  have ab: "map_of (js_jobs (abort_staged u s)) rid = map_of (js_jobs s) rid" for u s by (simp add: abort_staged_def)
  have cm: "keeps (\<lambda>s. map_of (js_jobs s) rid = Some d) (commit_staged u j)" for u j
    by (rule keepsI) (auto simp: commit_staged_eq write_dir_get split: option.splits)
  have "keeps (\<lambda>s. map_of (js_jobs s) rid = Some d) (ingest_staged request name fmt run_id t sg)" for name fmt t sg
    unfolding ingest_staged_def
    by (intro keeps_doS) (auto intro!: keeps_doS cm keeps_modifyS simp: ab split: option.splits)
  then show ?thesis
    unfolding ingest_capture_def wrap_job_errors_def
    by (intro keeps_doS keeps_tryS keeps_finallyS st) (simp_all add: ab)
qed

lemma update_store_run:
  assumes "run_view s rid = Some (j, d)"
  shows "run_view (update_store rid u j s) r =
    (if r = rid then Some (persisted (updated_job u s j), d\<lparr>jd_status := Some (persisted (updated_job u s j)),
       jd_cancel_flag := set_opt (ju_cancel_requested u) (jd_cancel_flag d)\<rparr>) else run_view s r)"
  using assms by (simp add: run_view_def update_store_def Let_def write_dir_get the_dir_def bind_eq_Some_conv run_view_eq)

lemma api_step_run:
  assumes "api_step s t" and "store_ok s" and "run_view s rid = Some v"
  shows "\<exists>w. run_view t rid = Some w \<and> run_forward v w"
proof -
  have refl: "run_forward v v" by (simp add: run_forward_def progresses_refl)
  from assms(1) show ?thesis
  proof cases
    case (api_intake request run_id upload_id chunks created r)
    obtain d where d: "map_of (js_jobs s) rid = Some d" using assms(3) by (auto simp: run_view_def bind_eq_Some_conv)
    then have "map_of (js_jobs t) rid = Some d" using keepsD [OF ingest_keeps_dir] api_intake by blast
    then show ?thesis using refl assms(3) d by (auto simp: run_view_def)
  next
    case (api_cancel run_id r)
    show ?thesis
    proof (cases "t = s")
      case True
      then show ?thesis using refl assms(3) by blast
    next
      case False
      then obtain j u where j: "job_of s run_id = Some j" "\<not> is_terminal j" "t = update_store run_id u j s"
        "u = (if aj_status j = ST_QUEUED then no_update\<lparr>ju_status := Some ST_CANCELLED, ju_cancel_requested := Some True\<rparr>
              else no_update\<lparr>ju_cancel_requested := Some True\<rparr>)"
        using api_cancel by (auto simp: request_cancel_eq [OF assms(2)] Let_def split: option.splits if_splits)
      obtain d where d: "run_view s run_id = Some (j, d)" using j(1) by (auto simp: job_of_run_view)
      have "progresses j (persisted (updated_job u s j))" using j(2,4) by (intro progresses_update) auto
      then have fwd: "run_forward (j, d) (persisted (updated_job u s j), d\<lparr>jd_status := Some (persisted (updated_job u s j)),
          jd_cancel_flag := set_opt (ju_cancel_requested u) (jd_cancel_flag d)\<rparr>)"
        using j(4) by (simp add: run_forward_def)
      show ?thesis
      proof (cases "rid = run_id")
        case True
        then have "v = (j, d)" using assms(3) d by simp
        then show ?thesis using True fwd by (simp add: j(3) update_store_run [OF d])
      next
        case False
        then show ?thesis using assms(3) refl by (simp add: j(3) update_store_run [OF d])
      qed
    qed
  qed
qed

lemma api_step_inv: "api_step s t \<Longrightarrow> store_ok s \<Longrightarrow> store_ok t"
  by (erule job_step_inv [rotated]) (simp add: job_step_def)

interpretation api: forward_system api_step store_ok run_view run_forward
  by (unfold_locales; (rule api_step_inv api_step_run; assumption)?)
     (auto simp: run_forward_def intro: progresses_refl progresses_trans)

text \<open>The API only takes steps of its own.\<close>

definition api_ok :: "services \<Rightarrow> bool" where
  "api_ok sv = (\<forall>k s. api_step\<^sup>*\<^sup>* s (sv_api sv k s))"

section \<open>Triples for the worker\<close>

text \<open>While a job runs: it is stored as running, with the identity it was claimed with and the given artifacts.\<close>

definition running :: "analysis_job \<Rightarrow> (string, bytes) dict \<Rightarrow> job_store \<Rightarrow> bool" where
  "running j a s = (store_ok s \<and> (\<exists>k d. run_view s (aj_run_id j) = Some (k, d) \<and> progresses j k \<and> aj_status k = ST_RUNNING
     \<and> jd_artifacts d = a))"

lemma api_running: "api_ok sv \<Longrightarrow> running j a s \<Longrightarrow> running j a (sv_api sv k s)"
proof -
  assume api: "api_ok sv" and run: "running j a s"
  have r: "api_step\<^sup>*\<^sup>* s (sv_api sv k s)" using api by (simp add: api_ok_def)
  obtain i d where i: "store_ok s" "run_view s (aj_run_id j) = Some (i, d)" "progresses j i" "aj_status i = ST_RUNNING"
      "jd_artifacts d = a"
    using run by (auto simp: running_def)
  obtain w where w: "run_view (sv_api sv k s) (aj_run_id j) = Some w" "run_forward (i, d) w"
    using api.reach_forward [OF r i(1,2)] by blast
  have "progresses i (fst w)" using w(2) by (simp add: run_forward_def)
  then have "progresses j (fst w)" by (rule progresses_trans [OF i(3)])
  then show ?thesis
    using w i(4,5) api.reach_inv [OF r i(1)] unfolding running_def by (cases w) (auto simp: run_forward_def)
qed

type_synonym rest_pred = "ml_history \<Rightarrow> report_root \<Rightarrow> bool"

definition holding :: "analysis_job \<Rightarrow> ((string, bytes) dict \<Rightarrow> bool) \<Rightarrow> rest_pred \<Rightarrow> world \<Rightarrow> bool" where
  "holding j A R w = ((\<exists>a. running j a (w_store w) \<and> A a) \<and> R (w_history w) (w_catalog w))"

definition rest :: rest_pred where
  "rest h c = (history_ok h \<and> (\<exists>cs. serves c cs))"

definition err :: "analysis_job \<Rightarrow> py_exn \<Rightarrow> world \<Rightarrow> bool" where
  "err j e w = holding j (\<lambda>_. True) rest w"

lemma holding_err: "holding j A R w \<Longrightarrow> (\<And>h c. R h c \<Longrightarrow> rest h c) \<Longrightarrow> err j e w"
  by (auto simp: holding_def err_def)

lemma storeS_eq: "storeS sv k m w =
    (fst (m (sv_api sv k (w_store w))), w\<lparr>w_store := snd (m (sv_api sv k (w_store w)))\<rparr>)"
  by (simp add: storeS_def op_defs case_prod_unfold)

lemma api_holding: "api_ok sv \<Longrightarrow> holding j A R w \<Longrightarrow> holding j A R (w\<lparr>w_store := sv_api sv k (w_store w)\<rparr>)"
  using api_running by (fastforce simp: holding_def)

lemma triple_read:
  assumes "api_ok sv" and "\<And>h c. R h c \<Longrightarrow> rest h c"
  shows "triple (holding j A R) (storeS sv k (pureS f)) (\<lambda>_. holding j A R) (err j)"
proof (rule tripleI)
  fix w assume w: "holding j A R w"
  note h = api_holding [OF assms(1) w, of k]
  show "case storeS sv k (pureS f) w of (Inr a, t) \<Rightarrow> holding j A R t | (Inl e, t) \<Rightarrow> err j e t"
    using h holding_err [OF h assms(2)] by (auto simp: storeS_eq pureS_def split: sum.splits)
qed

lemma running_update:
  assumes "running j a s" and "update_ok u" and "ju_status u \<noteq> Some ST_QUEUED"
  shows "\<exists>k d. update_job (aj_run_id j) u s = (Inr (updated_job u s k), update_store (aj_run_id j) u k s)
    \<and> store_ok (update_store (aj_run_id j) u k s) \<and> progresses j (updated_job u s k)
    \<and> run_view (update_store (aj_run_id j) u k s) (aj_run_id j) = Some (persisted (updated_job u s k), d) \<and> jd_artifacts d = a
    \<and> aj_status k = ST_RUNNING"
proof -
  obtain k d where k: "store_ok s" "run_view s (aj_run_id j) = Some (k, d)" "progresses j k" "aj_status k = ST_RUNNING"
      "jd_artifacts d = a"
    using assms(1) by (auto simp: running_def)
  have of: "job_of s (aj_run_id j) = Some k" using k(2) by (auto simp: job_of_run_view)
  have nt: "\<not> is_terminal k" using k(4) by (simp add: is_terminal_def)
  have "progresses k (persisted (updated_job u s k))" by (rule progresses_update) (use nt assms(3) in simp_all)
  then have "progresses j (persisted (updated_job u s k))" by (rule progresses_trans [OF k(3)])
  then have "progresses j (updated_job u s k)" by (simp add: progresses_def)
  moreover have "update_job (aj_run_id j) u s = (Inr (updated_job u s k), update_store (aj_run_id j) u k s)"
    using of nt by (simp add: update_job_eq [OF k(1)])
  moreover have "store_ok (update_store (aj_run_id j) u k s)" by (rule update_store_ok [OF k(1) of assms(2)])
  ultimately show ?thesis using k(4,5) by (auto simp: update_store_run [OF k(2)])
qed

lemma triple_stage:
  assumes "api_ok sv" and "ju_status u = None" and "update_ok u"
  shows "triple (holding j A R) (storeS sv k (update_job (aj_run_id j) u)) (\<lambda>_. holding j A R) E"
proof (rule tripleI)
  fix w assume w: "holding j A R w"
  let ?s = "sv_api sv k (w_store w)"
  obtain a where a: "running j a ?s" "A a" using api_holding [OF assms(1) w, of k] by (auto simp: holding_def)
  obtain i d where i: "update_job (aj_run_id j) u ?s = (Inr (updated_job u ?s i), update_store (aj_run_id j) u i ?s)"
      "store_ok (update_store (aj_run_id j) u i ?s)" "progresses j (updated_job u ?s i)"
      "run_view (update_store (aj_run_id j) u i ?s) (aj_run_id j) = Some (persisted (updated_job u ?s i), d)" "jd_artifacts d = a"
      "aj_status i = ST_RUNNING"
    using running_update [OF a(1) assms(3)] assms(2) by auto
  have "progresses j (persisted (updated_job u ?s i))" using i(3) by (simp add: progresses_def)
  then have "running j a (update_store (aj_run_id j) u i ?s)"
    using i(2,4,5,6) assms(2) by (auto simp: running_def)
  then show "case storeS sv k (update_job (aj_run_id j) u) w of (Inr a, t) \<Rightarrow> holding j A R t | (Inl e, t) \<Rightarrow> E e t"
    using w a(2) i(1) by (auto simp: storeS_eq holding_def)
qed

lemma triple_artifact:
  assumes "api_ok sv" and "\<And>h c. R h c \<Longrightarrow> rest h c"
  shows "triple (holding j A R) (storeS sv k (write_artifact (aj_run_id j) name b))
    (\<lambda>_. holding j (\<lambda>a. \<exists>a0. A a0 \<and> a = AList.update name b a0) R) (err j)"
proof (rule tripleI)
  fix w assume w: "holding j A R w"
  let ?s = "sv_api sv k (w_store w)" and ?m = "write_artifact (aj_run_id j) name b"
  note h = api_holding [OF assms(1) w, of k]
  obtain a i d where a: "store_ok ?s" "run_view ?s (aj_run_id j) = Some (i, d)" "progresses j i" "aj_status i = ST_RUNNING"
      "jd_artifacts d = a" "A a"
    using h by (auto simp: holding_def running_def)
  have of: "job_of ?s (aj_run_id j) = Some i" using a(2) by (auto simp: job_of_run_view)
  have td: "the_dir (aj_run_id j) ?s = d" using a(2) by (simp add: run_view_eq the_dir_def)
  let ?t = "write_dir (aj_run_id j) (d\<lparr>jd_artifacts := AList.update name b a\<rparr>) ?s"
  have "?m ?s = (Inr (), ?t) \<or> (\<exists>e. ?m ?s = (Inl e, ?s))"
    using of td a(5) by (auto simp: write_artifact_eq [OF a(1)] Let_def split: option.splits)
  then show "case storeS sv k ?m w of (Inr x, t) \<Rightarrow> holding j (\<lambda>a. \<exists>a0. A a0 \<and> a = AList.update name b a0) R t | (Inl e, t) \<Rightarrow> err j e t"
  proof (elim disjE exE)
    assume t: "?m ?s = (Inr (), ?t)"
    have "store_ok ?t" using keepsD [OF write_artifact_keeps a(1) t] .
    then have "running j (AList.update name b a) ?t"
      using a(2-4) by (auto simp: running_def run_view_eq write_dir_get)
    then show ?thesis using t a(6) w by (auto simp: storeS_eq holding_def)
  next
    fix e assume "?m ?s = (Inl e, ?s)"
    then show ?thesis using holding_err [OF h assms(2)] by (simp add: storeS_eq)
  qed
qed

section \<open>Outcomes\<close>

text \<open>A finished sv job is stored, terminal, and the same job; a completed one has its artifacts and its report.\<close>

definition analysis_of :: "services \<Rightarrow> analysis_job \<Rightarrow> evidence_document \<Rightarrow> bool" where
  \<comment> \<open>the analysis returned the document for a capture with the digest of the job, under the job's profile and host name\<close>
  "analysis_of sv j ev = (\<exists>content profile. aj_capture_sha256 j = Some (sha256_bytes content) \<and> pp_of_value (aj_policy_profile j) = Some profile
     \<and> sv_analyze sv content (normalize_expected_hostname (aj_expected_hostname j)) profile = Inr ev)"

definition report_for :: "services \<Rightarrow> analysis_job \<Rightarrow> canonical_report \<Rightarrow> bool" where
  "report_for sv j r = (rp_case_id (rpt_manifest r) = Some (aj_case_id j) \<and> analysis_of sv j (rpt_evidence r))"

lemma report_for_progress: "progresses j i \<Longrightarrow> report_for sv i r \<longleftrightarrow> report_for sv j r"
  by (simp add: progresses_def report_for_def analysis_of_def)

definition delivered :: "services \<Rightarrow> analysis_job \<Rightarrow> job_dir \<Rightarrow> report_root \<Rightarrow> bool" where
  "delivered sv j d c = (\<exists>json html pdf. map_of (jd_artifacts d) ''report.json'' = Some json
     \<and> map_of (jd_artifacts d) ''report.html'' = Some html \<and> map_of (jd_artifacts d) ''report.pdf'' = Some pdf
     \<and> get_report (aj_case_id j) c = Inr (Some json)
     \<and> (\<exists>r. sv_canonicalize sv r = Inr json \<and> report_for sv j r))"

definition finished :: "services \<Rightarrow> analysis_job \<Rightarrow> analysis_job \<Rightarrow> world \<Rightarrow> bool" where
  "finished sv j job w = (store_ok (w_store w) \<and> rest (w_history w) (w_catalog w) \<and> progresses j job \<and> is_terminal job
     \<and> (\<exists>d. run_view (w_store w) (aj_run_id j) = Some (persisted job, d)
          \<and> (aj_status job = ST_COMPLETED \<longrightarrow> delivered sv j d (w_catalog w))))"

lemma triple_finish:
  assumes "api_ok sv" and "ju_status u = Some st" and "st \<in> {ST_COMPLETED, ST_FAILED, ST_CANCELLED}" and "update_ok u"
    and "\<And>h c. R h c \<Longrightarrow> rest h c"
    and "\<And>a h c d. st = ST_COMPLETED \<Longrightarrow> A a \<Longrightarrow> R h c \<Longrightarrow> jd_artifacts d = a \<Longrightarrow> delivered sv j d c"
  shows "triple (holding j A R) (storeS sv k (update_job (aj_run_id j) u)) (finished sv j) E"
proof (rule tripleI)
  fix w assume w: "holding j A R w"
  let ?s = "sv_api sv k (w_store w)"
  obtain a where a: "running j a ?s" "A a" using api_holding [OF assms(1) w, of k] by (auto simp: holding_def)
  have R: "R (w_history w) (w_catalog w)" using w by (simp add: holding_def)
  have "ju_status u \<noteq> Some ST_QUEUED" using assms(2,3) by auto
  then obtain i d where i: "update_job (aj_run_id j) u ?s = (Inr (updated_job u ?s i), update_store (aj_run_id j) u i ?s)"
      "store_ok (update_store (aj_run_id j) u i ?s)" "progresses j (updated_job u ?s i)"
      "run_view (update_store (aj_run_id j) u i ?s) (aj_run_id j) = Some (persisted (updated_job u ?s i), d)" "jd_artifacts d = a"
    using running_update [OF a(1) assms(4)] by blast
  have st: "aj_status (updated_job u ?s i) = st" by (simp add: assms(2))
  then have "is_terminal (updated_job u ?s i)" using assms(3) by (simp add: is_terminal_def)
  then have "finished sv j (updated_job u ?s i) (w\<lparr>w_store := update_store (aj_run_id j) u i ?s\<rparr>)"
    using i assms(5) [OF R] assms(6) [OF _ a(2) R i(5)] st by (simp add: finished_def)
  then show "case storeS sv k (update_job (aj_run_id j) u) w of (Inr x, t) \<Rightarrow> finished sv j x t | (Inl e, t) \<Rightarrow> E e t"
    using i(1) by (simp add: storeS_eq)
qed

lemma triple_cancelled:
  assumes "api_ok sv" and "triple (holding j A rest) m (finished sv j) (err j)"
  shows "triple (holding j A rest) (unless_cancelled sv k (aj_run_id j) m) (finished sv j) (err j)"
proof -
  have "triple (holding j A rest) (mark_cancelled sv (k + 1) (aj_run_id j)) (finished sv j) (err j)"
    unfolding mark_cancelled_def by (rule triple_finish [where st = ST_CANCELLED, OF assms(1)]) simp_all
  then show ?thesis
    unfolding unless_cancelled_def
    by (intro triple_do [OF triple_read [OF assms(1)]] triple_if assms(2)) simp_all
qed

lemma triple_outside: "triple (holding j A rest) (pureS f) (\<lambda>_. holding j A rest) (err j)"
  by (rule triple_pureS) (auto split: sum.splits intro: holding_err)

lemma triple_guard: "triple (holding j A rest) (guardS b e) (\<lambda>_. holding j A rest) (err j)"
  by (rule triple_guardS) (auto intro: holding_err)

lemma triple_raise: "triple (holding j A rest) (raiseS e) Q (err j)"
  by (rule triple_raiseS) (auto intro: holding_err)

lemmas stage_triples = triple_outside triple_guard triple_raise

lemma triple_fact: "(F \<Longrightarrow> triple P m Q E) \<Longrightarrow> triple (\<lambda>w. P w \<and> F) m Q E"
  by (auto simp: triple_def)

text \<open>The capture that is read is the one whose digest the job records: the store keeps it so.\<close>

lemma triple_capture:
  assumes "api_ok sv"
  shows "triple (holding j A rest) (storeS sv k (pureS (capture_path (aj_run_id j))))
    (\<lambda>b w. holding j A rest w \<and> aj_capture_sha256 j = Some (sha256_bytes b)) (err j)"
proof (rule tripleI)
  fix w assume w: "holding j A rest w"
  let ?s = "sv_api sv k (w_store w)"
  note h = api_holding [OF assms w, of k]
  obtain i d where i: "store_ok ?s" "run_view ?s (aj_run_id j) = Some (i, d)" "progresses j i"
    using h by (auto simp: holding_def running_def)
  then have d: "map_of (js_jobs ?s) (aj_run_id j) = Some d" "jd_status d = Some i" by (simp_all add: run_view_eq)
  have sha: "aj_capture_sha256 j = Some (sha256_bytes b)" if "capture_path (aj_run_id j) ?s = Inr b" for b
    using store_ok_dir [OF i(1) d(1)] d that i(3)
    by (auto simp: dir_ok_def capture_path_def get_job_eq [OF i(1)] job_of_def the_dir_def progresses_def)
  show "case storeS sv k (pureS (capture_path (aj_run_id j))) w of
      (Inr b, t) \<Rightarrow> holding j A rest t \<and> aj_capture_sha256 j = Some (sha256_bytes b) | (Inl e, t) \<Rightarrow> err j e t"
    using h holding_err [OF h] sha by (auto simp: storeS_eq pureS_def split: sum.splits)
qed

lemma triple_analyze:
  assumes "api_ok sv"
  shows "triple (holding j A rest) (analyze_stage sv j) (\<lambda>ev w. holding j A rest w \<and> analysis_of sv j ev) (err j)"
proof -
  let ?h = "normalize_expected_hostname (aj_expected_hostname j)"
  have run: "triple (holding j A rest) (doS (guardS b ValidationError) (\<lambda>_. pureS (\<lambda>_. sv_analyze sv content ?h profile)))
      (\<lambda>ev w. holding j A rest w \<and> analysis_of sv j ev) (err j)"
    if "aj_capture_sha256 j = Some (sha256_bytes content)" "pp_of_value (aj_policy_profile j) = Some profile" for b content profile
    by (intro triple_do [OF triple_guard] triple_pureS) (use that in \<open>auto simp: analysis_of_def split: sum.splits intro: holding_err\<close>)
  have "triple (\<lambda>w. holding j A rest w \<and> aj_capture_sha256 j = Some (sha256_bytes content)) (case pp_of_value (aj_policy_profile j) of
        None \<Rightarrow> raiseS CaptureWorkflowError
      | Some profile \<Rightarrow> doS (guardS (opt_ok (\<lambda>h. length h \<le> 253) (aj_expected_hostname j)) ValidationError) (\<lambda>_.
          pureS (\<lambda>_. sv_analyze sv content ?h profile)))
      (\<lambda>ev w. holding j A rest w \<and> analysis_of sv j ev) (err j)" for content
    by (cases "pp_of_value (aj_policy_profile j)") (auto intro!: triple_fact triple_raise run)
  then show ?thesis unfolding analyze_stage_def by (rule triple_do [OF triple_capture [OF assms]])
qed

lemma triple_assemble:
  "triple (holding j A rest) (assemble_stage sv j ev)
     (\<lambda>r w. holding j A rest w \<and> rp_case_id (rpt_manifest r) = Some (aj_case_id j) \<and> rpt_evidence r = ev) (err j)"
proof -
  have "rp_case_id (rpt_manifest r) = Some (aq_case_id q) \<and> rpt_evidence r = ev" if "assemble_report now ev q m = Inr r" for now q m r
    using that by (auto simp: assemble_report_def Let_def py_simps mk_manifest_def)
  then show ?thesis
    unfolding assemble_stage_def Let_def
    by (intro triple_do [OF triple_guard] triple_pureS) (auto split: sum.splits intro: holding_err)
qed

lemma triple_render:
  "triple (holding j A rest) (render_stage sv r) (\<lambda>p w. holding j A rest w \<and> sv_canonicalize sv r = Inr (fst p)) (err j)"
proof -
  let ?f = "render_report (sv_canonicalize sv) (sv_digest sv) (sv_render_html sv) (sv_render_pdf sv) r [''json'', ''html'', ''pdf'']"
  have "triple (holding j A rest) (pureS (\<lambda>_. ?f)) (\<lambda>x w. holding j A rest w \<and> ?f = Inr x) (err j)"
    by (rule triple_pureS) (auto split: sum.splits intro: holding_err)
  moreover have "triple (\<lambda>w. holding j A rest w \<and> ?f = Inr x) (case (rd_html x, rd_pdf x) of
      (Some html, Some pdf) \<Rightarrow>
        doS (guardS (length (utf8_bytes html) \<le> max_html_bytes) CaptureWorkflowError) (\<lambda>_.
        doS (guardS (length pdf \<le> max_pdf_bytes) CaptureWorkflowError) (\<lambda>_.
        returnS (rd_json_bytes x, utf8_bytes html, pdf)))
    | _ \<Rightarrow> raiseS CaptureWorkflowError) (\<lambda>p w. holding j A rest w \<and> sv_canonicalize sv r = Inr (fst p)) (err j)" for x
  proof (rule triple_fact)
    assume "?f = Inr x"
    then have c: "sv_canonicalize sv r = Inr (rd_json_bytes x)" by (rule render_report_Inr(1))
    have g: "triple (holding j A rest) (doS (guardS b1 e1) (\<lambda>_. doS (guardS b2 e2) (\<lambda>_. returnS (rd_json_bytes x, h, p))))
        (\<lambda>p w. holding j A rest w \<and> sv_canonicalize sv r = Inr (fst p)) (err j)" for b1 e1 b2 e2 h p
      by (intro triple_do [OF triple_guard] triple_return) (simp add: c)
    show "triple (holding j A rest) (case (rd_html x, rd_pdf x) of
      (Some html, Some pdf) \<Rightarrow>
        doS (guardS (length (utf8_bytes html) \<le> max_html_bytes) CaptureWorkflowError) (\<lambda>_.
        doS (guardS (length pdf \<le> max_pdf_bytes) CaptureWorkflowError) (\<lambda>_.
        returnS (rd_json_bytes x, utf8_bytes html, pdf)))
    | _ \<Rightarrow> raiseS CaptureWorkflowError) (\<lambda>p w. holding j A rest w \<and> sv_canonicalize sv r = Inr (fst p)) (err j)"
      by (cases "rd_html x"; cases "rd_pdf x") (simp_all add: triple_raise g)
  qed
  ultimately show ?thesis unfolding render_stage_def by (rule triple_do)
qed

lemma attach_windows:
  assumes "attach_advisories_with_history scorers hist cohort r = Inr (advised, new)"
  obtains ws where "extract_endpoint_windows (rpt_evidence r) = Inr ws" and "new = assign_day_index (next_day hist) ws"
    and "rpt_manifest advised = rpt_manifest r \<and> rpt_evidence advised = rpt_evidence r"
  using assms by (auto simp: attach_advisories_with_history_def py_simps Let_def)

lemma triple_append:
  assumes "extract_endpoint_windows d = Inr ws"
  shows "triple (\<lambda>w. holding j A rest w \<and> load_windows (w_history w) = Inr hist)
    (onS w_history w_history_update (append_windows (assign_day_index (next_day hist) ws))) (\<lambda>_. holding j A rest) (err j)"
proof (rule tripleI)
  fix w assume w: "holding j A rest w \<and> load_windows (w_history w) = Inr hist"
  then have "history_ok (w_history w)" by (simp add: holding_def rest_def)
  then obtain h where "append_windows (assign_day_index (next_day hist) ws) (w_history w)
      = (Inr (last_n (mh_max_windows (w_history w)) (hist @ assign_day_index (next_day hist) ws)), h)" "history_ok h"
    using append_spec [OF _ _ assms] w by blast
  then show "case onS w_history w_history_update (append_windows (assign_day_index (next_day hist) ws)) w of
      (Inr x, t) \<Rightarrow> holding j A rest t | (Inl e, t) \<Rightarrow> err j e t"
    using w by (simp add: onS_def holding_def rest_def)
qed

lemma triple_advise:
  "triple (holding j A rest) (advise_stage sv ev r) (\<lambda>x w. holding j A rest w \<and> rpt_manifest x = rpt_manifest r \<and> rpt_evidence x = rpt_evidence r) (err j)"
proof -
  let ?H = "\<lambda>hist w. holding j A rest w \<and> load_windows (w_history w) = Inr hist"
  have load: "triple (holding j A rest) (pureS (\<lambda>w. load_windows (w_history w))) ?H (err j)"
    by (rule triple_pureS) (auto split: sum.splits intro: holding_err)
  have attach: "triple (?H hist) (pureS (\<lambda>_. attach_advisories_with_history (sv_scorers sv) hist ''local'' r))
      (\<lambda>p w. ?H hist w \<and> attach_advisories_with_history (sv_scorers sv) hist ''local'' r = Inr p) (err j)" for hist
    by (rule triple_pureS) (auto split: sum.splits intro: holding_err)
  have rest: "triple (\<lambda>w. ?H hist w \<and> attach_advisories_with_history (sv_scorers sv) hist ''local'' r = Inr p)
      (case p of (advised, new_windows) \<Rightarrow>
        doS (guardS (ed_findings (rpt_evidence advised) = ed_findings ev) CaptureWorkflowError) (\<lambda>_.
        doS (onS w_history w_history_update (append_windows new_windows)) (\<lambda>_. returnS advised)))
      (\<lambda>x w. holding j A rest w \<and> rpt_manifest x = rpt_manifest r \<and> rpt_evidence x = rpt_evidence r) (err j)" for hist p
  proof (cases p)
    case (Pair advised new)
    show ?thesis
    proof (cases "attach_advisories_with_history (sv_scorers sv) hist ''local'' r = Inr (advised, new)")
      case True
      then obtain ws where ws: "extract_endpoint_windows (rpt_evidence r) = Inr ws" "new = assign_day_index (next_day hist) ws"
          "rpt_manifest advised = rpt_manifest r \<and> rpt_evidence advised = rpt_evidence r"
        by (rule attach_windows)
      have "triple (?H hist) (guardS b CaptureWorkflowError) (\<lambda>_. ?H hist) (err j)" for b
        by (rule triple_guardS) (auto intro: holding_err)
      then have "triple (?H hist) (doS (guardS (ed_findings (rpt_evidence advised) = ed_findings ev) CaptureWorkflowError) (\<lambda>_.
          doS (onS w_history w_history_update (append_windows new)) (\<lambda>_. returnS advised)))
          (\<lambda>x w. holding j A rest w \<and> rpt_manifest x = rpt_manifest r \<and> rpt_evidence x = rpt_evidence r) (err j)"
        using triple_append [OF ws(1), of j A hist] ws(3) unfolding ws(2)
        by (intro triple_do [where R = "\<lambda>_. ?H hist"] triple_do [where R = "\<lambda>_. holding j A rest"] triple_return) simp_all
      then show ?thesis unfolding Pair prod.case by (rule triple_pre) simp
    qed (simp add: Pair triple_def)
  qed
  show ?thesis unfolding advise_stage_def by (rule triple_do [OF load triple_do [OF attach rest]])
qed

lemma triple_publish:
  assumes "api_ok sv" and "\<And>a. A a \<Longrightarrow> map_of a ''report.json'' = Some json \<and> (\<exists>h. map_of a ''report.html'' = Some h)
    \<and> (\<exists>p. map_of a ''report.pdf'' = Some p)"
    and "sv_canonicalize sv r = Inr json" and "report_for sv j r"
  shows "triple (holding j A rest) (publish_stage sv j json) (finished sv j) (err j)"
proof -
  let ?R = "\<lambda>h c. rest h c \<and> get_report (aj_case_id j) c = Inr (Some json)"
  have pub: "triple (holding j A rest) (onS w_catalog w_catalog_update (publish_report (aj_case_id j) json)) (\<lambda>_. holding j A ?R) (err j)"
  proof (rule tripleI)
    fix w assume w: "holding j A rest w"
    then obtain cs where cs: "serves (w_catalog w) cs" by (auto simp: holding_def rest_def)
    obtain x c where c: "publish_report (aj_case_id j) json (w_catalog w) = (x, c)" by (cases "publish_report (aj_case_id j) json (w_catalog w)")
    note p = publish_serves [OF cs c]
    have "rest (w_history w) c" using w p(1) by (simp add: holding_def rest_def)
    then show "case onS w_catalog w_catalog_update (publish_report (aj_case_id j) json) w of
        (Inr x, t) \<Rightarrow> holding j A ?R t | (Inl e, t) \<Rightarrow> err j e t"
      using w c p(2) by (auto simp: onS_def holding_def err_def split: sum.splits)
  qed
  have "triple (holding j A ?R) (storeS sv 20 (update_job (aj_run_id j) (no_update\<lparr>ju_status := Some ST_COMPLETED,
      ju_stage := Some SG_PUBLICATION, ju_artifacts := Some \<lparr>aa_canonical = True, aa_html = True, aa_pdf = True\<rparr>\<rparr>))) (finished sv j) (err j)"
  proof (rule triple_finish [where st = ST_COMPLETED, OF assms(1)])
    fix a :: "(string, bytes) dict" and h :: ml_history and c :: report_root and d :: job_dir
    assume "A a" "rest h c \<and> get_report (aj_case_id j) c = Inr (Some json)" "jd_artifacts d = a"
    then show "delivered sv j d c" using assms(2) [of a] assms(3,4) by (auto simp: delivered_def)
  qed (simp_all add: update_ok_def opt_ok_def no_update_def)
  then show ?thesis unfolding publish_stage_def by (intro triple_do [OF pub])
qed

text \<open>The artifacts written one after another are there when the report is published.\<close>

lemma triple_stages: "api_ok sv \<Longrightarrow> triple (holding j A rest) (execute_stages sv j) (finished sv j) (err j)"
proof -
  assume api: "api_ok sv"
  let ?upd = "\<lambda>name b A a. \<exists>a0. A a0 \<and> a = AList.update name b a0"
  have enter: "triple (holding j A rest) (enter_stage sv k (aj_run_id j) st) (\<lambda>_. holding j A rest) (err j)" for k st A
    unfolding enter_stage_def by (rule triple_stage [OF api]) simp_all
  have tail: "triple (\<lambda>w. holding j A rest w \<and> sv_canonicalize sv r = Inr (fst p)) (case p of (json, html, pdf) \<Rightarrow>
      doS (storeS sv 14 (write_artifact (aj_run_id j) ''report.json'' json)) (\<lambda>_.
      doS (storeS sv 15 (write_artifact (aj_run_id j) ''report.html'' html)) (\<lambda>_.
      doS (storeS sv 16 (write_artifact (aj_run_id j) ''report.pdf'' pdf)) (\<lambda>_.
      unless_cancelled sv 17 (aj_run_id j) (doS (enter_stage sv 19 (aj_run_id j) SG_PUBLICATION) (\<lambda>_. publish_stage sv j json))))))
      (finished sv j) (err j)" if "report_for sv j r" for p r
  proof (rule triple_fact)
    assume c: "sv_canonicalize sv r = Inr (fst p)"
    obtain json html pdf where p: "p = (json, html, pdf)" by (cases p)
    have "triple (holding j (?upd ''report.pdf'' pdf (?upd ''report.html'' html (?upd ''report.json'' json A))) rest)
        (unless_cancelled sv 17 (aj_run_id j) (doS (enter_stage sv 19 (aj_run_id j) SG_PUBLICATION) (\<lambda>_. publish_stage sv j json)))
        (finished sv j) (err j)"
      using c that unfolding p
      by (intro triple_cancelled [OF api] triple_do [OF enter] triple_publish [OF api]) (auto simp: update_conv')
    then show "triple (holding j A rest) (case p of (json, html, pdf) \<Rightarrow>
      doS (storeS sv 14 (write_artifact (aj_run_id j) ''report.json'' json)) (\<lambda>_.
      doS (storeS sv 15 (write_artifact (aj_run_id j) ''report.html'' html)) (\<lambda>_.
      doS (storeS sv 16 (write_artifact (aj_run_id j) ''report.pdf'' pdf)) (\<lambda>_.
      unless_cancelled sv 17 (aj_run_id j) (doS (enter_stage sv 19 (aj_run_id j) SG_PUBLICATION) (\<lambda>_. publish_stage sv j json))))))
      (finished sv j) (err j)"
      unfolding p prod.case by (auto intro!: triple_do [OF triple_artifact [OF api]])
  qed
  show ?thesis
    unfolding execute_stages_def Let_def
    by (intro triple_cancelled [OF api] triple_do [OF enter] triple_do [OF triple_analyze [OF api]] triple_fact triple_do [OF triple_assemble]
        triple_do [OF triple_advise] triple_do [OF triple_render] tail) (simp add: report_for_def)
qed

lemma triple_total:
  assumes "triple P m Q (\<lambda>_ _. False)" and "P s"
  shows "\<exists>a t. m s = (Inr a, t) \<and> Q a t"
proof (cases "m s")
  case (Pair r t)
  then show ?thesis using tripleD [OF assms] by (cases r) auto
qed

text \<open>The world before a job is executed: a well-formed store with the job running, history and catalog in order.\<close>

definition world_ok :: "world \<Rightarrow> bool" where
  "world_ok w = (store_ok (w_store w) \<and> rest (w_history w) (w_catalog w))"

lemma finished_world: "finished sv j job w \<Longrightarrow> world_ok w \<and> job_of (w_store w) (aj_run_id j) = Some (persisted job)"
  by (auto simp: finished_def world_ok_def job_of_run_view)

lemma execute_running:
  assumes "api_ok sv" and "world_ok w" and "job_of (w_store w) rid = Some j" and "aj_status j = ST_RUNNING"
  shows "\<exists>i job t. execute_capture_job sv rid w = (Inr job, t) \<and> progresses j i \<and> finished sv i job t"
proof -
  have rid: "aj_run_id j = rid" using assms(2,3) job_of_ok(2) by (auto simp: world_ok_def)
  obtain d where "run_view (w_store w) rid = Some (j, d)" using assms(3) by (auto simp: job_of_run_view)
  then have "running j (jd_artifacts d) (w_store w)"
    using assms(2,4) progresses_refl rid by (auto simp: running_def world_ok_def)
  then have h0: "holding j (\<lambda>_. True) rest w" using assms(2) by (auto simp: holding_def world_ok_def)
  let ?w = "w\<lparr>w_store := sv_api sv 0 (w_store w)\<rparr>"
  have h: "holding j (\<lambda>_. True) rest ?w" by (rule api_holding [OF assms(1) h0])
  then obtain a i where i: "store_ok (w_store ?w)" "run_view (w_store ?w) rid = Some (i, a)" "progresses j i" "aj_status i = ST_RUNNING"
    using rid by (auto simp: holding_def running_def)
  have id: "aj_run_id i = rid" using i(3) rid by (simp add: progresses_def)
  have hi: "holding i (\<lambda>_. True) rest ?w"
    using h i id progresses_refl by (auto simp: holding_def running_def)
  have "job_of (w_store ?w) rid = Some i" using i(2) by (auto simp: job_of_run_view)
  then have eq: "execute_capture_job sv rid w = tryS (execute_stages sv i) (\<lambda>exc. fail_job sv 21 rid
      (if sv_str sv exc \<noteq> [] then sv_str sv exc else sv_type_name sv exc)) ?w"
    using i(1,4) by (simp add: execute_capture_job_def doS_def storeS_eq pureS_def get_job_eq)
  have "triple (holding i (\<lambda>_. True) rest) (fail_job sv 21 rid m) (finished sv i) (\<lambda>_ _. False)" for m
    unfolding fail_job_def id [symmetric]
    by (rule triple_finish [where st = ST_FAILED, OF assms(1)]) (simp_all add: update_ok_def opt_ok_def)
  then have fail: "\<exists>job t. fail_job sv 21 rid m v = (Inr job, t) \<and> finished sv i job t" if "holding i (\<lambda>_. True) rest v" for m v
    using that by (rule triple_total)
  note st = tripleD [OF triple_stages [OF assms(1), of i "\<lambda>_. True"] hi]
  have "\<exists>job t. execute_capture_job sv rid w = (Inr job, t) \<and> finished sv i job t"
  proof (cases "execute_stages sv i ?w")
    case (Pair r t)
    then show ?thesis
      using st [of _ t] fail [of t] unfolding eq by (cases r) (auto simp: tryS_def err_def)
  qed
  then show ?thesis using i(3) by blast
qed

section \<open>Properties of an execution\<close>

lemma delivered_artifacts:
  assumes "store_ok s" and "run_view s rid = Some (k, d)" and "map_of (jd_artifacts d) name = Some b"
  shows "read_artifact rid name s = Inr (Some b)"
proof -
  have d: "map_of (js_jobs s) rid = Some d" "jd_status d = Some k" using assms(2) by (simp_all add: run_view_eq)
  obtain limit where "map_of artifact_limits name = Some limit" "length b \<le> limit"
    using store_ok_dir [OF assms(1) d(1), unfolded dir_ok_def, THEN conjunct2, THEN conjunct2, rule_format, OF assms(3)] by blast
  moreover have "get_job rid s = Inr (Some k)" using d by (simp add: get_job_eq [OF assms(1)] job_of_def)
  ultimately show ?thesis using assms(3) d(1) by (simp add: read_artifact_def the_dir_def)
qed

lemma finished_facts:
  assumes "progresses j i" and "finished sv i job t" and "aj_run_id j = rid"
  shows "is_terminal job" "progresses j job" "world_ok t" "job_of (w_store t) rid = Some (persisted job)"
    "aj_status job = ST_COMPLETED \<Longrightarrow> \<exists>json html pdf. read_artifact rid ''report.json'' (w_store t) = Inr (Some json)
      \<and> read_artifact rid ''report.html'' (w_store t) = Inr (Some html)
      \<and> read_artifact rid ''report.pdf'' (w_store t) = Inr (Some pdf)
      \<and> get_report (aj_case_id j) (w_catalog t) = Inr (Some json)
      \<and> (\<exists>r. sv_canonicalize sv r = Inr json \<and> report_for sv j r)"
proof -
  have id: "aj_run_id i = rid" "aj_case_id i = aj_case_id j" using assms(1,3) by (simp_all add: progresses_def)
  show "is_terminal job" "world_ok t" "job_of (w_store t) rid = Some (persisted job)"
    using finished_world [OF assms(2)] assms(2) id by (simp_all add: finished_def)
  show "progresses j job" using assms(1,2) progresses_trans by (auto simp: finished_def)
  assume "aj_status job = ST_COMPLETED"
  then obtain d where d: "store_ok (w_store t)" "run_view (w_store t) rid = Some (persisted job, d)" "delivered sv i d (w_catalog t)"
    using assms(2) id by (auto simp: finished_def)
  then show "\<exists>json html pdf. read_artifact rid ''report.json'' (w_store t) = Inr (Some json)
      \<and> read_artifact rid ''report.html'' (w_store t) = Inr (Some html)
      \<and> read_artifact rid ''report.pdf'' (w_store t) = Inr (Some pdf)
      \<and> get_report (aj_case_id j) (w_catalog t) = Inr (Some json)
      \<and> (\<exists>r. sv_canonicalize sv r = Inr json \<and> report_for sv j r)"
    unfolding delivered_def id(2) report_for_progress [OF assms(1)] by (elim exE conjE) (intro exI conjI; (rule delivered_artifacts [OF d(1,2)])?; assumption?)
qed

text \<open>A job that an execution returns as completed has its three artifacts in the store, and the catalog serves the bytes
  of its JSON artifact, the canonical form of a report whose manifest names the job's case.\<close>

lemma completed_is_delivered:
  assumes "api_ok sv" and "world_ok w" and "job_of (w_store w) rid = Some j" and "aj_status j = ST_RUNNING"
    and "execute_capture_job sv rid w = (Inr job, t)" and "aj_status job = ST_COMPLETED"
  shows "\<exists>json html pdf. read_artifact rid ''report.json'' (w_store t) = Inr (Some json)
    \<and> read_artifact rid ''report.html'' (w_store t) = Inr (Some html)
    \<and> read_artifact rid ''report.pdf'' (w_store t) = Inr (Some pdf)
    \<and> get_report (aj_case_id j) (w_catalog t) = Inr (Some json)
    \<and> (\<exists>r. sv_canonicalize sv r = Inr json \<and> report_for sv j r)"
proof -
  have rid: "aj_run_id j = rid" using assms(2,3) job_of_ok(2) by (auto simp: world_ok_def)
  obtain i where i: "progresses j i" "finished sv i job t" using execute_running [OF assms(1-4)] assms(5) by auto
  show ?thesis by (rule finished_facts(5) [OF i rid assms(6)])
qed

section \<open>Draining the queue\<close>

text \<open>No other process touches the store.\<close>

definition quiet :: "services \<Rightarrow> bool" where
  "quiet sv = (sv_api sv = (\<lambda>k s. s))"

lemma quiet_api: "quiet sv \<Longrightarrow> api_ok sv"
  by (simp add: quiet_def api_ok_def)

lemma storeS_quiet: "quiet sv \<Longrightarrow> storeS sv k m = onS w_store w_store_update m"
  by (simp add: fun_eq_iff storeS_eq onS_def quiet_def case_prod_unfold)

text \<open>Executing a job leaves the other jobs alone.\<close>

definition other :: "string \<Rightarrow> analysis_job option \<Rightarrow> world \<Rightarrow> bool" where
  "other r x w = (store_ok (w_store w) \<and> job_of (w_store w) r = x)"

lemma other_store:
  assumes "quiet sv" and "keeps store_ok m" and "\<And>s. store_ok s \<Longrightarrow> job_of (snd (m s)) r = job_of s r"
  shows "keeps (other r x) (storeS sv k m)"
  using assms(2,3) by (auto simp: keeps_def other_def storeS_quiet [OF assms(1)] onS_def split: prod.splits) (metis snd_conv)+

lemma other_update:
  assumes "quiet sv" and "r \<noteq> rid" and "update_ok u"
  shows "keeps (other r x) (storeS sv k (update_job rid u))"
  by (rule other_store [OF assms(1) update_job_keeps [OF assms(3)]])
     (use assms(2) in \<open>auto simp: update_job_eq update_store_job split: option.splits\<close>)

lemma other_artifact:
  assumes "quiet sv" and "r \<noteq> rid"
  shows "keeps (other r x) (storeS sv k (write_artifact rid name b))"
proof (rule other_store [OF assms(1) write_artifact_keeps])
  fix s assume "store_ok s"
  show "job_of (snd (write_artifact rid name b s)) r = job_of s r"
    by (simp add: job_view_job_of write_artifact_view)
qed

lemma other_read: "quiet sv \<Longrightarrow> keeps (other r x) (storeS sv k (pureS f))"
  by (rule other_store) (simp_all add: pureS_def)

lemma other_parts:
  "keeps (other r x) (onS w_history w_history_update m)" "keeps (other r x) (onS w_catalog w_catalog_update n)"
  by (auto simp: keeps_def other_def onS_def split: prod.splits)

lemma update_ok_more [simp]:
  "update_ok (no_update\<lparr>ju_status := x, ju_stage := y, ju_artifacts := z\<rparr>)"
  "update_ok (no_update\<lparr>ju_status := x, ju_error_message := Some (take 1000 m)\<rparr>)"
  by (simp_all add: update_ok_def opt_ok_def)

lemma other_stages:
  assumes "quiet sv" and "r \<noteq> aj_run_id j"
  shows "keeps (other r x) (execute_stages sv j)"
proof -
  note u = other_update [OF assms] and a = other_artifact [OF assms] and rd = other_read [OF assms(1)]
  have enter: "keeps (other r x) (enter_stage sv k (aj_run_id j) st)" for k st unfolding enter_stage_def by (rule u) simp
  have cancel: "keeps (other r x) m \<Longrightarrow> keeps (other r x) (unless_cancelled sv k (aj_run_id j) m)" for k m
    unfolding unless_cancelled_def mark_cancelled_def by (intro keeps_doS rd) (simp add: u)
  have "keeps (other r x) (analyze_stage sv j)"
    unfolding analyze_stage_def by (intro keeps_doS rd) (auto intro!: keeps_doS simp: Let_def split: option.splits)
  moreover have "keeps (other r x) (assemble_stage sv j ev)" for ev
    unfolding assemble_stage_def Let_def by (intro keeps_doS) simp_all
  moreover have "keeps (other r x) (advise_stage sv ev rep)" for ev rep
    unfolding advise_stage_def by (intro keeps_doS) (auto intro!: keeps_doS other_parts split: prod.splits)
  moreover have "keeps (other r x) (render_stage sv rep)" for rep
    unfolding render_stage_def by (intro keeps_doS) (auto intro!: keeps_doS split: option.splits)
  moreover have "keeps (other r x) (publish_stage sv j json)" for json
    unfolding publish_stage_def by (intro keeps_doS other_parts u) simp
  ultimately show ?thesis
    unfolding execute_stages_def Let_def
    by (intro cancel keeps_doS enter) (auto intro!: keeps_doS cancel enter a split: prod.splits)
qed

lemma other_execute:
  assumes "quiet sv" and "r \<noteq> rid"
  shows "keeps (other r x) (execute_capture_job sv rid)"
proof (rule keepsI)
  fix w assume w: "other r x w"
  show "other r x (snd (execute_capture_job sv rid w))"
  proof (cases "job_of (w_store w) rid")
    case None
    then show ?thesis
      using w by (simp add: execute_capture_job_def doS_def storeS_quiet [OF assms(1)] onS_def pureS_def raiseS_def other_def get_job_eq)
  next
    case (Some j)
    have "aj_run_id j = rid" using w Some job_of_ok(2) by (auto simp: other_def)
    then have st: "keeps (other r x) (execute_stages sv j)" using assms by (intro other_stages) auto
    have fl: "keeps (other r x) (fail_job sv 21 rid m)" for m unfolding fail_job_def by (rule other_update [OF assms]) simp
    have "execute_capture_job sv rid w = (if aj_status j \<noteq> ST_RUNNING then (Inr j, w)
        else tryS (execute_stages sv j) (\<lambda>exc. fail_job sv 21 rid
               (if sv_str sv exc \<noteq> [] then sv_str sv exc else sv_type_name sv exc)) w)"
      using w Some by (simp add: execute_capture_job_def doS_def storeS_quiet [OF assms(1)] onS_def pureS_def returnS_def other_def get_job_eq)
    then show ?thesis
      using w keeps_tryS [OF st fl] by (simp add: keeps_def)
  qed
qed

definition pending :: "job_store \<Rightarrow> string set" where
  "pending s = aj_run_id ` set (claimable s)"

lemma finite_pending [simp]: "finite (pending s)"
  by (simp add: pending_def)

lemma pending_iff:
  assumes "store_ok s"
  shows "r \<in> pending s \<longleftrightarrow> (\<exists>j. job_of s r = Some j \<and> aj_status j = ST_QUEUED \<and> \<not> aj_cancel_requested j)"
proof -
  have "r \<in> pending s \<longleftrightarrow> (\<exists>j. (j \<in> set (all_jobs s) \<and> aj_run_id j = r) \<and> aj_status j = ST_QUEUED \<and> \<not> aj_cancel_requested j)"
    by (auto simp: pending_def claimable_def)
  moreover have "j \<in> set (all_jobs s) \<and> aj_run_id j = r \<longleftrightarrow> job_of s r = Some j" for j
    using all_jobs_set [OF assms, of j] job_of_ok(2) [OF assms, of r j] by blast
  ultimately show ?thesis by simp
qed

definition ended :: "job_store \<Rightarrow> string \<Rightarrow> bool" where
  "ended s r = (\<exists>k. job_of s r = Some k \<and> is_terminal k)"

lemma process_next_idle:
  assumes "world_ok w" and "pending (w_store w) = {}"
  shows "\<exists>t. process_next_job sv w = (Inr None, t) \<and> world_ok t \<and> pending (w_store t) = {}
    \<and> (\<forall>r. ended (w_store w) r \<longrightarrow> ended (w_store t) r)"
proof -
  have s: "store_ok (w_store w)" using assms(1) by (simp add: world_ok_def)
  have "claimable (w_store w) = []" using assms(2) by (simp add: pending_def)
  then obtain t where t: "claim_next (w_store w) = (Inr None, t)" "store_ok t"
      "\<forall>r. if r \<in> aj_run_id ` set (stale (w_store w)) then \<exists>k. job_of t r = Some k \<and> aj_status k = ST_CANCELLED
           else job_of t r = job_of (w_store w) r"
    using claim_next_none [OF s] by blast
  have "ended t r" if "ended (w_store w) r" for r
    using t(3) [rule_format, of r] that by (auto simp: ended_def is_terminal_def split: if_splits)
  moreover have "pending t = {}"
  proof -
    have "r \<notin> pending t" for r
      using t(3) [rule_format, of r] assms(2) pending_iff [OF s, of r] by (auto simp: pending_iff [OF t(2)] split: if_splits)
    then show ?thesis by blast
  qed
  moreover have "process_next_job sv w = (Inr None, w\<lparr>w_store := t\<rparr>)"
    using t(1) by (simp add: process_next_job_def doS_def onS_def returnS_def)
  moreover have "world_ok (w\<lparr>w_store := t\<rparr>)" using assms(1) t(2) by (simp add: world_ok_def)
  ultimately show ?thesis by (intro exI [of _ "w\<lparr>w_store := t\<rparr>"]) simp
qed

lemma process_next_busy:
  assumes "quiet sv" and "world_ok w" and "pending (w_store w) \<noteq> {}"
  shows "\<exists>x t r. process_next_job sv w = (Inr x, t) \<and> world_ok t \<and> r \<in> pending (w_store w) \<and> ended (w_store t) r
    \<and> (\<forall>q. q \<noteq> r \<longrightarrow> job_of (w_store t) q = job_of (w_store w) q)"
proof -
  have s: "store_ok (w_store w)" using assms(2) by (simp add: world_ok_def)
  obtain j js where js: "sort_key claim_key (claimable (w_store w)) = j # js"
    using assms(3) unfolding pending_def by (cases "sort_key claim_key (claimable (w_store w))") (metis image_empty set_empty set_sort, blast)
  let ?u = "no_update\<lparr>ju_status := Some ST_RUNNING\<rparr>"
  let ?k = "updated_job ?u (w_store w) j" and ?t = "update_store (aj_run_id j) ?u j (w_store w)"
  let ?w = "w\<lparr>w_store := ?t\<rparr>"
  have j: "j \<in> set (claimable (w_store w))" using js by (metis list.set_intros(1) set_sort)
  then have of: "job_of (w_store w) (aj_run_id j) = Some j" using all_jobs_set [OF s] by (simp add: claimable_def)
  have cl: "claim_next (w_store w) = (Inr (Some ?k), ?t)" using claim_next_some [OF s js] by (simp add: Let_def)
  have ok: "world_ok ?w" using assms(2) update_store_ok [OF s of, of ?u] by (simp add: world_ok_def)
  have run: "job_of (w_store ?w) (aj_run_id j) = Some (persisted ?k)" by (simp add: update_store_job)
  obtain i job t where ex: "execute_capture_job sv (aj_run_id j) ?w = (Inr job, t)" "progresses (persisted ?k) i" "finished sv i job t"
    using execute_running [OF quiet_api [OF assms(1)] ok run] by auto
  have "aj_run_id (persisted ?k) = aj_run_id j" by simp
  note f = finished_facts(1,3,4) [OF ex(2,3) this]
  have "process_next_job sv w = (Inr (Some job), t)"
    using cl ex(1) by (simp add: process_next_job_def doS_def onS_def returnS_def)
  moreover have "job_of (w_store t) q = job_of (w_store w) q" if "q \<noteq> aj_run_id j" for q
  proof -
    have "other q (job_of (w_store w) q) ?w" using ok that by (simp add: other_def world_ok_def update_store_job)
    from keepsD [OF other_execute [OF assms(1) that] this ex(1)] show ?thesis by (simp add: other_def)
  qed
  moreover have "aj_run_id j \<in> pending (w_store w)" using j by (simp add: pending_def)
  ultimately show ?thesis using f by (auto simp: ended_def)
qed

lemma worker_loop_drains:
  assumes "quiet sv" and "world_ok w" and "card (pending (w_store w)) \<le> n"
  shows "\<exists>t. worker_loop sv n w = (Inr (), t) \<and> world_ok t \<and> pending (w_store t) = {}
    \<and> (\<forall>r. r \<in> pending (w_store w) \<or> ended (w_store w) r \<longrightarrow> ended (w_store t) r)"
  using assms(2,3)
proof (induction n arbitrary: w)
  case 0
  then show ?case by (simp add: returnS_def)
next
  case (Suc n)
  show ?case
  proof (cases "pending (w_store w) = {}")
    case True
    obtain t where t: "process_next_job sv w = (Inr None, t)" "world_ok t" "pending (w_store t) = {}"
        "\<forall>r. ended (w_store w) r \<longrightarrow> ended (w_store t) r"
      using process_next_idle [OF Suc.prems(1) True] by blast
    obtain v where "worker_loop sv n t = (Inr (), v)" "world_ok v" "pending (w_store v) = {}"
        "\<forall>r. ended (w_store t) r \<longrightarrow> ended (w_store v) r"
      using Suc.IH [OF t(2)] t(3) by auto
    then show ?thesis using t(1,4) True by (intro exI [of _ v]) (simp add: doS_def)
  next
    case False
    obtain x t r where t: "process_next_job sv w = (Inr x, t)" "world_ok t" "r \<in> pending (w_store w)" "ended (w_store t) r"
        "\<forall>q. q \<noteq> r \<longrightarrow> job_of (w_store t) q = job_of (w_store w) q"
      using process_next_busy [OF assms(1) Suc.prems(1) False] by blast
    have s: "store_ok (w_store w)" "store_ok (w_store t)" using Suc.prems(1) t(2) by (simp_all add: world_ok_def)
    have pen: "pending (w_store t) = pending (w_store w) - {r}"
    proof (rule set_eqI)
      fix q
      have "r \<notin> pending (w_store t)" using t(4) by (auto simp: pending_iff [OF s(2)] ended_def is_terminal_def)
      then show "q \<in> pending (w_store t) \<longleftrightarrow> q \<in> pending (w_store w) - {r}"
        using t(5) by (cases "q = r") (simp_all add: pending_iff [OF s(1)] pending_iff [OF s(2)])
    qed
    have "card (pending (w_store t)) \<le> n" using Suc.prems(2) t(3) by (simp add: pen)
    then obtain v where v: "worker_loop sv n t = (Inr (), v)" "world_ok v" "pending (w_store v) = {}"
        "\<forall>q. q \<in> pending (w_store t) \<or> ended (w_store t) q \<longrightarrow> ended (w_store v) q"
      using Suc.IH [OF t(2)] by blast
    have "ended (w_store v) q" if "q \<in> pending (w_store w) \<or> ended (w_store w) q" for q
      using that v(4) t(4,5) pen by (cases "q = r") (auto simp: ended_def)
    then show ?thesis using v t(1) by (intro exI [of _ v]) (simp add: doS_def)
  qed
qed

text \<open>C22: The worker's loop drains the queue. With no other activity on the store, as many rounds as there are queued
  jobs without a cancellation request leave none of them queued: each has reached a terminal status, jobs that
  had ended stay ended, no round raises, and store, history and catalog stay well formed.\<close>

theorem queue_drains:
  assumes "quiet sv" and "world_ok w" and "card (pending (w_store w)) \<le> n"
  shows "\<exists>t. worker_loop sv n w = (Inr (), t) \<and> world_ok t \<and> pending (w_store t) = {}
    \<and> (\<forall>r. r \<in> pending (w_store w) \<or> ended (w_store w) r \<longrightarrow> ended (w_store t) r)"
  by (rule worker_loop_drains [OF assms])

end
