(* ===== verification/Delivery.thy ===== *)
theory Delivery
  imports Workflow
begin

text \<open>
  From a healthy run to what a client reads: when analysis, scoring and rendering succeed within the limits, the
  catalog has room and nobody cancels, a running job completes, and its artifacts and its published report are the
  forms of one report. On the read side, the queries over jobs and artifacts (\<open>application/analysis_queries.py\<close>) and over published reports (\<open>application/report_queries.py\<close>).

  Decoding a report (UTF-8, JSON, model validation) is a parameter: a function from bytes to a report or an error.
\<close>

section \<open>Queries (analysis\_queries.py)\<close>

definition run_id_request_ok :: "string \<Rightarrow> bool" where
  \<comment> \<open>\<open>GetAnalysisRequest\<close> and \<open>CancelAnalysisRequest\<close>\<close>
  "run_id_request_ok run_id = len_in 1 160 run_id"

definition get_analysis :: "string \<Rightarrow> job_store \<Rightarrow> analysis_job result" where
  "get_analysis run_id s = bindE (get_job run_id s) (\<lambda>found. case found of
     None \<Rightarrow> Inl JobNotFoundError | Some job \<Rightarrow> Inr job)"

definition cancel_analysis :: "string \<Rightarrow> (job_store, analysis_job) op" where
  "cancel_analysis run_id = request_cancel run_id"

definition read_job_artifact :: "string \<Rightarrow> string \<Rightarrow> job_store \<Rightarrow> bytes result" where
  "read_job_artifact run_id name s =
    bindE (check_model (run_id_request_ok run_id) run_id) (\<lambda>run_id.
    bindE (get_analysis run_id s) (\<lambda>job.
    if aj_status job \<noteq> ST_COMPLETED then Inl ArtifactNotReadyError
    else bindE (read_artifact run_id name s) (\<lambda>payload. case payload of
      None \<Rightarrow> Inl ArtifactNotReadyError
    | Some b \<Rightarrow> Inr b)))"

section \<open>Published reports (report\_queries.py)\<close>

text \<open>\<open>decode\<close> is \<open>CanonicalReport.model_validate(json.loads(raw.decode("utf-8")))\<close>, any failure of which is an invalid
  report.\<close>

type_synonym decoder = "bytes \<Rightarrow> canonical_report result"

type_synonym canonicalizer = "canonical_report \<Rightarrow> bytes result"

definition parse_report :: "decoder \<Rightarrow> canonicalizer \<Rightarrow> bytes \<Rightarrow> (canonical_report \<times> bytes) result" where
  "parse_report decode canonicalize raw =
    (if max_report_bytes < length raw then Inl ReportTooLargeError
     else case decode raw of
       Inl e \<Rightarrow> Inl InvalidCanonicalReportError
     | Inr report \<Rightarrow> (case canonicalize report of
         Inl e \<Rightarrow> Inl (if e \<in> {ValidationError, TypeError, ValueError} then InvalidCanonicalReportError else e)
       | Inr canonical_bytes \<Rightarrow> Inr (report, canonical_bytes)))"

record finding_severity_counts =
  fsc_high :: nat
  fsc_medium :: nat
  fsc_low :: nat
  fsc_informational :: nat

record case_summary =
  csm_case_id :: string
  csm_generated_at :: py_datetime
  csm_assessment_state :: assessment_state
  csm_risk_score :: "nat option"
  csm_finding_count :: nat
  csm_severity_counts :: finding_severity_counts
  csm_unknown_count :: nat
  csm_not_observable_count :: nat
  csm_advisory_present :: bool
  csm_analyst_conclusions_present :: bool

definition case_summary_ok :: "case_summary \<Rightarrow> bool" where
  "case_summary_ok s = (len_in 1 160 (csm_case_id s) \<and> opt_ok (\<lambda>r. r \<le> 100) (csm_risk_score s))"

definition severity_count :: "finding_severity \<Rightarrow> scored_endpoint_finding list \<Rightarrow> nat" where
  "severity_count sev findings = length (filter (\<lambda>f. cl_severity f = sev) findings)"

definition mk_case_summary :: "string \<Rightarrow> canonical_report \<Rightarrow> case_summary result" where
  "mk_case_summary case_id report =
    (if rp_case_id (rpt_manifest report) \<noteq> Some case_id then Inl CaseReportMismatchError
     else let posture = ed_posture (rpt_evidence report); findings = po_prioritized_findings posture;
              overall = cm_overall (po_coverage posture);
              s = \<lparr>csm_case_id = case_id, csm_generated_at = rp_generated_at (rpt_manifest report),
                   csm_assessment_state = po_assessment_state posture, csm_risk_score = po_risk_score posture,
                   csm_finding_count = length findings,
                   csm_severity_counts = \<lparr>fsc_high = severity_count SV_HIGH findings,
                     fsc_medium = severity_count SV_MEDIUM findings, fsc_low = severity_count SV_LOW findings,
                     fsc_informational = severity_count SV_INFORMATIONAL findings\<rparr>,
                   csm_unknown_count = cn_unknown_count overall,
                   csm_not_observable_count = cn_not_observable_count overall,
                   csm_advisory_present = as_present (rpt_advisory report),
                   csm_analyst_conclusions_present = an_present (rpt_analyst_conclusions report)\<rparr>
          in check_model (case_summary_ok s) s)"

definition list_case_summaries :: "decoder \<Rightarrow> canonicalizer \<Rightarrow> report_root \<Rightarrow> case_summary list result" where
  "list_case_summaries decode canonicalize repository =
    (case list_reports repository of
       Inl e \<Rightarrow> Inl ReportCatalogError
     | Inr entries \<Rightarrow> mapE (\<lambda>entry.
         case get_report (rce_case_id entry) repository of
           Inl e \<Rightarrow> Inl ReportCatalogError
         | Inr None \<Rightarrow> Inl ReportCatalogError
         | Inr (Some raw) \<Rightarrow> bindE (parse_report decode canonicalize raw) (\<lambda>(report, _).
             mk_case_summary (rce_case_id entry) report)) entries)"

definition get_case_report :: "decoder \<Rightarrow> canonicalizer \<Rightarrow> string \<Rightarrow> report_root \<Rightarrow> (canonical_report \<times> bytes) result" where
  \<comment> \<open>the report and its canonical bytes; the result also carries the requested case\<close>
  "get_case_report decode canonicalize case_id repository =
    (case get_report case_id repository of
       Inl e \<Rightarrow> Inl ReportCatalogError
     | Inr None \<Rightarrow> Inl CaseReportNotFoundError
     | Inr (Some raw) \<Rightarrow> bindE (parse_report decode canonicalize raw) (\<lambda>(report, canonical_bytes).
         if rp_case_id (rpt_manifest report) \<noteq> Some case_id then Inl CaseReportMismatchError
         else Inr (report, canonical_bytes)))"

definition render_case_artifact :: "decoder \<Rightarrow> canonicalizer \<Rightarrow> (bytes \<Rightarrow> string) \<Rightarrow> (canonical_report \<Rightarrow> string result)
    \<Rightarrow> (string \<Rightarrow> bytes result) \<Rightarrow> string \<Rightarrow> string \<Rightarrow> report_root \<Rightarrow> bytes result" where
  "render_case_artifact decode canonicalize digest render_html render_pdf case_id fmt repository =
    bindE (check_model (len_in 1 160 case_id) case_id) (\<lambda>case_id.
    bindE (get_case_report decode canonicalize case_id repository) (\<lambda>(report, _).
    case render_report canonicalize digest render_html render_pdf report [fmt] of
      Inl e \<Rightarrow> Inl (if e = ReportError then ArtifactNotReadyError else e)
    | Inr rendered \<Rightarrow>
        if fmt = ''json'' then Inr (rd_json_bytes rendered)
        else if fmt = ''html'' then (case rd_html rendered of None \<Rightarrow> Inl ArtifactNotReadyError | Some h \<Rightarrow> Inr (utf8_bytes h))
        else (case rd_pdf rendered of None \<Rightarrow> Inl ArtifactNotReadyError | Some p \<Rightarrow> Inr p)))"

section \<open>Calm stores\<close>

text \<open>The store while a job runs and nobody asks to cancel it, with all the worker depends on pinned down.\<close>

definition calm :: "analysis_job \<Rightarrow> (string \<times> bytes) option \<Rightarrow> (string, bytes) dict \<Rightarrow> ml_history \<Rightarrow> report_root
    \<Rightarrow> world \<Rightarrow> bool" where
  "calm j cap a h c w = (store_ok (w_store w) \<and> w_history w = h \<and> w_catalog w = c
     \<and> (\<exists>k d. run_view (w_store w) (aj_run_id j) = Some (k, d) \<and> progresses j k \<and> aj_status k = ST_RUNNING
          \<and> \<not> aj_cancel_requested k \<and> \<not> jd_cancel_flag d \<and> jd_capture d = cap \<and> jd_artifacts d = a))"

lemma calm_running: "calm j cap a h c w \<Longrightarrow> running j a (w_store w)"
  by (auto simp: calm_def running_def)

lemma triple_do_value:
  assumes "\<And>w. P w \<Longrightarrow> m w = (Inr x, f w)" and "\<And>w. P w \<Longrightarrow> P' (f w)" and "triple P' (g x) Q E"
  shows "triple P (doS m g) Q E"
proof (rule tripleI)
  fix w assume "P w"
  then show "case doS m g w of (Inr a, t) \<Rightarrow> Q a t | (Inl e, t) \<Rightarrow> E e t"
    using assms(1) [of w] assms(2) [of w] assms(3) by (simp add: doS_def triple_def)
qed

lemma triple_do_pure:
  "(\<And>w. P w \<Longrightarrow> f w = Inr x) \<Longrightarrow> triple P (g x) Q E \<Longrightarrow> triple P (doS (pureS f) g) Q E"
  by (rule triple_do_value [where f = id and P' = P]) (simp_all add: pureS_def)

lemma triple_do_guard: "b \<Longrightarrow> triple P (g ()) Q E \<Longrightarrow> triple P (doS (guardS b e) g) Q E"
  by (rule triple_do_value [where f = id and P' = P]) (simp_all add: op_defs)

lemma storeS_read: "quiet sv \<Longrightarrow> f (w_store w) = Inr x \<Longrightarrow> storeS sv n (pureS f) w = (Inr x, w)"
  by (simp add: storeS_quiet onS_def pureS_def)

lemma calm_enter:
  assumes "quiet sv" and "triple (calm j cap a h c) m Q E"
  shows "triple (calm j cap a h c) (doS (enter_stage sv n (aj_run_id j) st) (\<lambda>_. m)) Q E"
proof (rule triple_do [where R = "\<lambda>_. calm j cap a h c"])
  show "triple (calm j cap a h c) (enter_stage sv n (aj_run_id j) st) (\<lambda>_. calm j cap a h c) E"
  proof (rule tripleI)
    fix w assume "calm j cap a h c w"
    then obtain k d where k: "store_ok (w_store w)" "w_history w = h" "w_catalog w = c"
        "run_view (w_store w) (aj_run_id j) = Some (k, d)" "progresses j k" "aj_status k = ST_RUNNING"
        "\<not> aj_cancel_requested k" "\<not> jd_cancel_flag d" "jd_capture d = cap" "jd_artifacts d = a"
      by (auto simp: calm_def)
    let ?u = "no_update\<lparr>ju_stage := Some st\<rparr>"
    have of: "job_of (w_store w) (aj_run_id j) = Some k" using k(4) by (auto simp: job_of_run_view)
    have up: "update_job (aj_run_id j) ?u (w_store w) = (Inr (updated_job ?u (w_store w) k), update_store (aj_run_id j) ?u k (w_store w))"
      using of by (simp add: update_job_eq [OF k(1)])
    have "store_ok (update_store (aj_run_id j) ?u k (w_store w))" by (rule update_store_ok [OF k(1) of]) simp
    moreover have "progresses j (persisted (updated_job ?u (w_store w) k))"
      by (rule progresses_trans [OF k(5) progresses_update]) simp_all
    ultimately have "calm j cap a h c (w\<lparr>w_store := update_store (aj_run_id j) ?u k (w_store w)\<rparr>)"
      using k by (simp add: calm_def update_store_run [OF k(4)])
    then show "case enter_stage sv n (aj_run_id j) st w of (Inr x, t) \<Rightarrow> calm j cap a h c t | (Inl e, t) \<Rightarrow> E e t"
      using up by (simp add: enter_stage_def storeS_quiet [OF assms(1)] onS_def)
  qed
qed (rule assms(2))

lemma calm_cancel:
  assumes "quiet sv" and "triple (calm j cap a h c) m Q E"
  shows "triple (calm j cap a h c) (unless_cancelled sv n (aj_run_id j) m) Q E"
  unfolding unless_cancelled_def
proof (rule triple_do_value [where x = False and f = id and P' = "calm j cap a h c"])
  fix w assume "calm j cap a h c w"
  then have "is_cancel_requested (aj_run_id j) (w_store w) = Inr False"
    by (auto simp: calm_def is_cancel_requested_def get_job_eq run_view_eq job_of_def the_dir_def)
  then show "storeS sv n (pureS (is_cancel_requested (aj_run_id j))) w = (Inr False, id w)"
    by (simp add: storeS_read [OF assms(1)])
qed (simp_all add: assms(2))

lemma calm_artifact:
  assumes "quiet sv" and "map_of artifact_limits name = Some limit" and "length b \<le> limit"
    and "triple (calm j cap (AList.update name b a) h c) m Q E"
  shows "triple (calm j cap a h c) (doS (storeS sv n (write_artifact (aj_run_id j) name b)) (\<lambda>_. m)) Q E"
proof (rule triple_do [where R = "\<lambda>_. calm j cap (AList.update name b a) h c"])
  show "triple (calm j cap a h c) (storeS sv n (write_artifact (aj_run_id j) name b)) (\<lambda>_. calm j cap (AList.update name b a) h c) E"
  proof (rule tripleI)
    fix w assume "calm j cap a h c w"
    then obtain k d where k: "store_ok (w_store w)" "w_history w = h" "w_catalog w = c"
        "run_view (w_store w) (aj_run_id j) = Some (k, d)" "progresses j k" "aj_status k = ST_RUNNING"
        "\<not> aj_cancel_requested k" "\<not> jd_cancel_flag d" "jd_capture d = cap" "jd_artifacts d = a"
      by (auto simp: calm_def)
    have of: "job_of (w_store w) (aj_run_id j) = Some k" using k(4) by (auto simp: job_of_run_view)
    let ?t = "write_dir (aj_run_id j) (d\<lparr>jd_artifacts := AList.update name b a\<rparr>) (w_store w)"
    have wr: "write_artifact (aj_run_id j) name b (w_store w) = (Inr (), ?t)"
      using of k(4,10) assms(2,3) by (simp add: write_artifact_eq [OF k(1)] Let_def the_dir_def run_view_eq)
    have "store_ok ?t" by (rule keepsD [OF write_artifact_keeps k(1) wr])
    then have "calm j cap (AList.update name b a) h c (w\<lparr>w_store := ?t\<rparr>)"
      using k by (auto simp: calm_def run_view_eq write_dir_get)
    then show "case storeS sv n (write_artifact (aj_run_id j) name b) w of (Inr x, t) \<Rightarrow> calm j cap (AList.update name b a) h c t
        | (Inl e, t) \<Rightarrow> E e t"
      using wr by (simp add: storeS_quiet [OF assms(1)] onS_def)
  qed
qed (rule assms(4))

section \<open>A healthy run\<close>

definition scorers_ok :: "services \<Rightarrow> bool" where
  "scorers_ok sv = (\<forall>sc \<in> set (sv_scorers sv). \<forall>ws. \<exists>scores. sc ws = Inr scores \<and> list_all window_score_ok scores)"

text \<open>Every valid report can be rendered within the limits.\<close>

definition renders_ok :: "services \<Rightarrow> nat \<Rightarrow> bool" where
  "renders_ok sv n = (\<forall>r. canonical_report_ok r \<longrightarrow> (\<exists>b html pdf. sv_canonicalize sv r = Inr b \<and> length b \<le> n
     \<and> is_sha256_hex (sv_digest sv b) \<and> sv_render_html sv r = Inr html \<and> length (utf8_bytes html) \<le> max_html_bytes
     \<and> sv_render_pdf sv html = Inr pdf \<and> length pdf \<le> max_pdf_bytes))"

lemma scorers_total:
  assumes "scorers_ok sv"
  shows "\<exists>parts. mapE (\<lambda>sc. sc ws) (sv_scorers sv) = Inr parts \<and> list_all window_score_ok (concat parts)"
proof -
  have "\<exists>parts. mapE (\<lambda>sc. sc ws) scs = Inr parts \<and> list_all window_score_ok (concat parts)"
    if "\<forall>sc \<in> set scs. \<forall>ws. \<exists>scores. sc ws = Inr scores \<and> list_all window_score_ok scores" for scs :: "scorer list"
    using that
  proof (induction scs)
    case (Cons sc scs)
    obtain scores where "sc ws = Inr scores" "list_all window_score_ok scores" using Cons.prems by auto
    moreover obtain parts where "mapE (\<lambda>sc. sc ws) scs = Inr parts" "list_all window_score_ok (concat parts)"
      using Cons.IH Cons.prems by auto
    ultimately show ?case by simp
  qed simp
  then show ?thesis using assms by (simp add: scorers_ok_def)
qed

lemma render_stage_total:
  assumes "renders_ok sv n" and "canonical_report_ok r"
  obtains b html pdf where "length b \<le> n" and "length (utf8_bytes html) \<le> max_html_bytes" and "length pdf \<le> max_pdf_bytes"
    and "sv_canonicalize sv r = Inr b" and "sv_render_html sv r = Inr html" and "sv_render_pdf sv html = Inr pdf"
    and "\<And>w. render_stage sv r w = (Inr (b, utf8_bytes html, pdf), w)"
proof -
  obtain b html pdf where *: "sv_canonicalize sv r = Inr b" "length b \<le> n" "is_sha256_hex (sv_digest sv b)"
      "sv_render_html sv r = Inr html" "length (utf8_bytes html) \<le> max_html_bytes" "sv_render_pdf sv html = Inr pdf"
      "length pdf \<le> max_pdf_bytes"
    using assms(1) [unfolded renders_ok_def, rule_format, OF assms(2)] by blast
  have rr: "render_report (sv_canonicalize sv) (sv_digest sv) (sv_render_html sv) (sv_render_pdf sv) r [''json'', ''html'', ''pdf''] =
      Inr \<lparr>rd_payload = r, rd_json_bytes = b, rd_sha256 = sv_digest sv b, rd_html = Some html, rd_pdf = Some pdf\<rparr>"
    using *(1,3,4,6) by (simp add: render_report_def allowed_report_formats_def Let_def)
  have "render_stage sv r w = (Inr (b, utf8_bytes html, pdf), w)" for w
    unfolding render_stage_def rr using *(5,7) by (simp add: op_defs)
  then show thesis using that [of b html pdf] * by blast
qed

text \<open>The job is stored as completed with its artifacts, and the catalog serves its report, and its other reports as before.\<close>

definition shipped :: "analysis_job \<Rightarrow> (string, bytes) dict \<Rightarrow> bytes \<Rightarrow> report_root \<Rightarrow> analysis_job \<Rightarrow> world \<Rightarrow> bool" where
  "shipped j a b c job w = (aj_status job = ST_COMPLETED \<and> store_ok (w_store w)
     \<and> (\<exists>d. run_view (w_store w) (aj_run_id j) = Some (persisted job, d) \<and> jd_artifacts d = a)
     \<and> get_report (aj_case_id j) (w_catalog w) = Inr (Some b)
     \<and> (\<forall>case_id. case_id \<noteq> aj_case_id j \<longrightarrow> get_report case_id (w_catalog w) = get_report case_id c))"

lemma calm_publish:
  assumes "quiet sv" and "serves c cs" and "is_identifier (aj_case_id j)" and "length b \<le> rr_max_report_bytes c"
    and "aj_case_id j \<in> set cs \<or> length cs < rr_max_report_count c"
  shows "triple (calm j cap a h c) (publish_stage sv j b) (shipped j a b c) (\<lambda>_ _. False)"
proof -
  obtain x c' where pub: "publish_report (aj_case_id j) b c = (x, c')" by (cases "publish_report (aj_case_id j) b c")
  then have x: "x = Inr ()" "get_report (aj_case_id j) c' = Inr (Some b)"
      "\<forall>d. d \<noteq> aj_case_id j \<longrightarrow> get_report d c' = get_report d c"
    using publish_outcome [OF assms(2-4)] assms(5) by simp_all
  let ?u = "no_update\<lparr>ju_status := Some ST_COMPLETED, ju_stage := Some SG_PUBLICATION,
      ju_artifacts := Some \<lparr>aa_canonical = True, aa_html = True, aa_pdf = True\<rparr>\<rparr>"
  have upd: "triple (calm j cap a h c') (storeS sv 20 (update_job (aj_run_id j) ?u)) (shipped j a b c) (\<lambda>_ _. False)"
  proof (rule tripleI)
    fix w assume w: "calm j cap a h c' w"
    have u: "update_ok ?u" "ju_status ?u \<noteq> Some ST_QUEUED" by simp_all
    obtain k d where "update_job (aj_run_id j) ?u (w_store w) = (Inr (updated_job ?u (w_store w) k), update_store (aj_run_id j) ?u k (w_store w))"
      "store_ok (update_store (aj_run_id j) ?u k (w_store w))"
      "run_view (update_store (aj_run_id j) ?u k (w_store w)) (aj_run_id j) = Some (persisted (updated_job ?u (w_store w) k), d)" "jd_artifacts d = a"
      using running_update [OF calm_running [OF w] u] by blast
    then show "case storeS sv 20 (update_job (aj_run_id j) ?u) w of (Inr job, t) \<Rightarrow> shipped j a b c job t | (Inl e, t) \<Rightarrow> False"
      using w x by (simp add: storeS_quiet [OF assms(1)] onS_def shipped_def calm_def)
  qed
  show ?thesis
    unfolding publish_stage_def
  proof (rule triple_do_value [where x = "()" and f = "\<lambda>w. w\<lparr>w_catalog := c'\<rparr>" and P' = "calm j cap a h c'"])
    fix w assume w: "calm j cap a h c w"
    then show "onS w_catalog w_catalog_update (publish_report (aj_case_id j) b) w = (Inr (), w\<lparr>w_catalog := c'\<rparr>)"
      using pub x(1) by (simp add: calm_def onS_def)
    show "calm j cap a h c' (w\<lparr>w_catalog := c'\<rparr>)" using w by (simp add: calm_def)
  qed (rule upd)
qed

lemma calm_advise:
  assumes "history_ok h" and "scorers_ok sv" and "extract_endpoint_windows (rpt_evidence r) = Inr ws"
    and "canonical_report_ok r" and "rpt_evidence r = ev"
  shows "\<exists>r' h'. canonical_report_ok r' \<and> rpt_evidence r' = ev \<and> rpt_manifest r' = rpt_manifest r \<and> history_ok h'
    \<and> (\<forall>w. calm j cap a h c w \<longrightarrow> advise_stage sv ev r w = (Inr r', w\<lparr>w_history := h'\<rparr>))"
proof -
  obtain hist where hist: "load_windows h = Inr hist" using history_ok_load [OF assms(1)] by metis
  let ?new = "assign_day_index (next_day hist) ws"
  obtain parts where "mapE (\<lambda>sc. sc (hist @ ?new)) (sv_scorers sv) = Inr parts" "list_all window_score_ok (concat parts)"
    using scorers_total [OF assms(2)] by blast
  moreover have "len_in 1 160 ''local''" by (simp add: len_in_def)
  ultimately obtain sc where sc: "attach_advisories_with_history (sv_scorers sv) hist ''local'' r = Inr (r\<lparr>rpt_advisory := sc\<rparr>, ?new)"
      "canonical_report_ok (r\<lparr>rpt_advisory := sc\<rparr>)"
    using attach_total [OF assms(3)] assms(4) by blast
  obtain h' x where h': "append_windows ?new h = (Inr x, h')" "history_ok h'"
    using append_spec [OF assms(1) hist assms(3)] by blast
  have "advise_stage sv ev r w = (Inr (r\<lparr>rpt_advisory := sc\<rparr>), w\<lparr>w_history := h'\<rparr>)" if "calm j cap a h c w" for w
    using that hist sc(1) h'(1) assms(5) by (simp add: calm_def advise_stage_def doS_def pureS_def guardS_def onS_def returnS_def)
  moreover have "rpt_evidence (r\<lparr>rpt_advisory := sc\<rparr>) = ev" "rpt_manifest (r\<lparr>rpt_advisory := sc\<rparr>) = rpt_manifest r"
    using assms(5) by simp_all
  ultimately show ?thesis using sc(2) h'(2) by blast
qed

text \<open>The inputs of a healthy run of job \<open>j\<close> on capture \<open>b\<close> with evidence \<open>ev\<close>.\<close>

definition healthy :: "services \<Rightarrow> analysis_job \<Rightarrow> bytes \<Rightarrow> evidence_document \<Rightarrow> bool" where
  "healthy sv j b ev = (scorers_ok sv \<and> renderer_manifest_ok (sv_renderer sv) \<and> length (sv_dependency_versions sv) \<le> 32
     \<and> (\<exists>p. pp_of_value (aj_policy_profile j) = Some p
          \<and> sv_analyze sv b (normalize_expected_hostname (aj_expected_hostname j)) p = Inr ev)
     \<and> evidence_document_ok ev \<and> opt_ok is_sha256_hex (ar_trust_store_digest (ed_run_identity ev))
     \<and> list_all (\<lambda>s. length (session_endpoint (ed_flows ev) s) \<le> 160) (ed_sessions ev))"

lemma extract_total:
  assumes "list_all (\<lambda>s. length (session_endpoint (ed_flows d) s) \<le> 160) (ed_sessions d)"
  shows "\<exists>ws. extract_endpoint_windows d = Inr ws"
proof -
  have "endpoint_window_ok (window_at d e ss)" if "(e, ss) \<in> set (session_groups d)" for e ss
  proof -
    have "e \<in> session_endpoint (ed_flows d) ` set (ed_sessions d)" using that session_groups_keys [of d] by force
    then show ?thesis using assms session_endpoint_ne by (auto simp: window_at_ok len_in_def list_all_iff)
  qed
  then have "extract_endpoint_windows d = Inr (map (\<lambda>(e, ss). window_at d e ss) (session_groups d))"
    unfolding extract_eq by (intro mapE_total) auto
  then show ?thesis by blast
qed

lemma assemble_stage_total:
  assumes "healthy sv j b ev" and "analysis_job_ok j"
  obtains r where "canonical_report_ok r" and "rpt_evidence r = ev" and "rp_case_id (rpt_manifest r) = Some (aj_case_id j)"
    and "\<And>w. assemble_stage sv j ev w = (Inr r, w)"
proof -
  let ?q = "\<lparr>aq_case_id = aj_case_id j, aq_analysis_run_id = aj_run_id j, aq_capture_filename = ''capture.'' @ aj_capture_format j,
     aq_generated_at = None, aq_dependency_versions = sv_dependency_versions sv\<rparr>"
  have idlen: "len_in 1 160 x" if "is_identifier x" for x
    using that is_identifier_length [OF that] by (cases x) (auto simp: len_in_def)
  have fmt: "length (aj_capture_format j) \<le> 6" using assms(2) by (auto simp: analysis_job_ok_def)
  have q: "assemble_request_ok ?q"
    using assms idlen fmt by (simp add: assemble_request_ok_def healthy_def analysis_job_ok_def len_in_def)
  have "evidence_document_ok ev" "opt_ok is_sha256_hex (ar_trust_store_digest (ed_run_identity ev))" "renderer_manifest_ok (sv_renderer sv)"
    using assms(1) by (simp_all add: healthy_def)
  note eq = assemble_report_eq [OF this(1,2) q this(3), of "sv_now sv"]
  have "length (aq_capture_filename ?q) \<le> 160" using fmt by simp
  then obtain r where r: "assemble_report (sv_now sv) ev ?q (sv_renderer sv) = Inr r" using eq by simp
  then have "rpt_evidence r = ev" "canonical_report_ok r" "rp_case_id (rpt_manifest r) = Some (aj_case_id j)"
    by (auto simp: assemble_report_def Let_def py_simps mk_manifest_def)
  moreover have "assemble_stage sv j ev w = (Inr r, w)" for w
    using q r by (simp add: assemble_stage_def Let_def doS_def guardS_def returnS_def pureS_def)
  ultimately show thesis using that by blast
qed

text \<open>What a healthy run delivers: a report on the evidence for the job's case, in its three forms.\<close>

definition rendering :: "services \<Rightarrow> analysis_job \<Rightarrow> evidence_document \<Rightarrow> canonical_report \<Rightarrow> bytes \<Rightarrow> string \<Rightarrow> bytes \<Rightarrow> bool" where
  "rendering sv j ev r json html pdf = (rpt_evidence r = ev \<and> rp_case_id (rpt_manifest r) = Some (aj_case_id j)
     \<and> sv_canonicalize sv r = Inr json \<and> sv_render_html sv r = Inr html \<and> sv_render_pdf sv html = Inr pdf)"

definition with_artifacts :: "bytes \<Rightarrow> bytes \<Rightarrow> bytes \<Rightarrow> (string, bytes) dict \<Rightarrow> (string, bytes) dict" where
  "with_artifacts json html pdf a =
     AList.update ''report.pdf'' pdf (AList.update ''report.html'' html (AList.update ''report.json'' json a))"

lemma healthy_stages:
  assumes "quiet sv" and "healthy sv j b ev" and "renders_ok sv n" and "n \<le> max_report_bytes" and "n \<le> rr_max_report_bytes c"
    and "history_ok h" and "serves c cs" and "aj_case_id j \<in> set cs \<or> length cs < rr_max_report_count c"
    and "analysis_job_ok j"
  shows "\<exists>r json html pdf. rendering sv j ev r json html pdf
    \<and> triple (calm j (Some (''capture.'' @ aj_capture_format j, b)) a h c) (execute_stages sv j)
        (shipped j (with_artifacts json (utf8_bytes html) pdf a) json c) (\<lambda>_ _. False)"
proof -
  let ?cap = "Some (''capture.'' @ aj_capture_format j, b)"
  obtain p where p: "pp_of_value (aj_policy_profile j) = Some p"
      "sv_analyze sv b (normalize_expected_hostname (aj_expected_hostname j)) p = Inr ev"
    using assms(2) by (auto simp: healthy_def)
  have host: "opt_ok (\<lambda>h. length h \<le> 253) (aj_expected_hostname j)" using assms(9) by (simp add: analysis_job_ok_def)
  have an: "analyze_stage sv j w = (Inr ev, w)" if "calm j ?cap a h c w" for w
  proof -
    have "capture_path (aj_run_id j) (w_store w) = Inr b"
      using that by (auto simp: calm_def capture_path_def get_job_eq run_view_eq job_of_def the_dir_def progresses_def)
    then show ?thesis
      using p host by (simp add: analyze_stage_def doS_def storeS_read [OF assms(1)] guardS_def returnS_def pureS_def)
  qed
  obtain r where r: "canonical_report_ok r" "rpt_evidence r = ev" "rp_case_id (rpt_manifest r) = Some (aj_case_id j)"
      "\<And>w. assemble_stage sv j ev w = (Inr r, w)"
    using assemble_stage_total [OF assms(2,9)] by metis
  obtain ws where ws: "extract_endpoint_windows (rpt_evidence r) = Inr ws"
    using extract_total assms(2) unfolding r(2) healthy_def by blast
  have "scorers_ok sv" using assms(2) by (simp add: healthy_def)
  from calm_advise [OF assms(6) this ws r(1,2)]
  obtain r' h' where r': "canonical_report_ok r'" "history_ok h'" "rpt_evidence r' = ev" "rpt_manifest r' = rpt_manifest r"
    "\<And>w. calm j ?cap a h c w \<Longrightarrow> advise_stage sv ev r w = (Inr r', w\<lparr>w_history := h'\<rparr>)" by metis
  obtain json html pdf where out: "length json \<le> n" "length (utf8_bytes html) \<le> max_html_bytes" "length pdf \<le> max_pdf_bytes"
      "sv_canonicalize sv r' = Inr json" "sv_render_html sv r' = Inr html" "sv_render_pdf sv html = Inr pdf"
      "\<And>w. render_stage sv r' w = (Inr (json, utf8_bytes html, pdf), w)"
    using render_stage_total [OF assms(3) r'(1)] by metis
  have cid: "is_identifier (aj_case_id j)" using assms(9) by (simp add: analysis_job_ok_def)
  let ?Q = "shipped j (with_artifacts json (utf8_bytes html) pdf a) json c"
  have pub: "triple (calm j ?cap (with_artifacts json (utf8_bytes html) pdf a) h' c) (publish_stage sv j json) ?Q (\<lambda>_ _. False)"
    by (rule calm_publish [OF assms(1,7) cid _ assms(8)]) (use out(1) assms(5) in simp)
  have lim: "map_of artifact_limits ''report.json'' = Some max_report_bytes" "map_of artifact_limits ''report.html'' = Some max_html_bytes"
    "map_of artifact_limits ''report.pdf'' = Some max_pdf_bytes" by (simp_all add: artifact_limits_def)
  have json: "length json \<le> max_report_bytes" using out(1) assms(4) by simp
  note enter = calm_enter [OF assms(1)] and cancel = calm_cancel [OF assms(1)]
  note t4 = cancel [OF enter [OF pub [unfolded with_artifacts_def]]]
  note t3 = calm_artifact [OF assms(1) lim(1) json calm_artifact [OF assms(1) lim(2) out(2) calm_artifact [OF assms(1) lim(3) out(3) t4]]]
  have rend: "triple (calm j ?cap a h' c) (doS (render_stage sv r') (\<lambda>(json_bytes, html_bytes, pdf).
      doS (storeS sv 14 (write_artifact (aj_run_id j) ''report.json'' json_bytes)) (\<lambda>_.
      doS (storeS sv 15 (write_artifact (aj_run_id j) ''report.html'' html_bytes)) (\<lambda>_.
      doS (storeS sv 16 (write_artifact (aj_run_id j) ''report.pdf'' pdf)) (\<lambda>_.
      unless_cancelled sv 17 (aj_run_id j) (doS (enter_stage sv 19 (aj_run_id j) SG_PUBLICATION) (\<lambda>_.
      publish_stage sv j json_bytes))))))) ?Q (\<lambda>_ _. False)"
  proof (rule triple_do_value [where f = "\<lambda>w. w" and P' = "calm j ?cap a h' c" and x = "(json, utf8_bytes html, pdf)"])
    show "triple (calm j ?cap a h' c) (case (json, utf8_bytes html, pdf) of (json_bytes, html_bytes, pdf) \<Rightarrow>
      doS (storeS sv 14 (write_artifact (aj_run_id j) ''report.json'' json_bytes)) (\<lambda>_.
      doS (storeS sv 15 (write_artifact (aj_run_id j) ''report.html'' html_bytes)) (\<lambda>_.
      doS (storeS sv 16 (write_artifact (aj_run_id j) ''report.pdf'' pdf)) (\<lambda>_.
      unless_cancelled sv 17 (aj_run_id j) (doS (enter_stage sv 19 (aj_run_id j) SG_PUBLICATION) (\<lambda>_.
      publish_stage sv j json_bytes)))))) ?Q (\<lambda>_ _. False)"
      unfolding prod.case with_artifacts_def by (rule t3)
  qed (rule out(7))
  have "triple (calm j ?cap a h c) (execute_stages sv j) ?Q (\<lambda>_ _. False)"
    unfolding execute_stages_def Let_def
    apply (rule cancel, rule enter)
    apply (rule triple_do_value [where f = "\<lambda>w. w" and P' = "calm j ?cap a h c" and x = ev], erule an, assumption)
    apply (rule cancel, rule enter)
    apply (rule triple_do_value [where f = "\<lambda>w. w" and P' = "calm j ?cap a h c" and x = r], rule r(4), assumption)
    apply (rule cancel, rule enter)
    apply (rule triple_do_value [where f = "\<lambda>w. w\<lparr>w_history := h'\<rparr>" and P' = "calm j ?cap a h' c" and x = r'], erule r'(5))
     apply (simp add: calm_def)
    apply (rule cancel, rule enter, rule rend)
    done
  moreover have "rendering sv j ev r' json html pdf" using r(3) r'(3,4) out(4-6) by (simp add: rendering_def)
  ultimately show ?thesis by blast
qed

lemma healthy_execution:
  assumes "quiet sv" and "world_ok w" and "job_of (w_store w) rid = Some j" and "aj_status j = ST_RUNNING"
    and "is_cancel_requested rid (w_store w) = Inr False" and "capture_path rid (w_store w) = Inr b"
    and "healthy sv j b ev" and "renders_ok sv n" and "n \<le> max_report_bytes" and "n \<le> rr_max_report_bytes (w_catalog w)"
    and "serves (w_catalog w) cs" and "aj_case_id j \<in> set cs \<or> length cs < rr_max_report_count (w_catalog w)"
  shows "\<exists>job t r json html pdf. execute_capture_job sv rid w = (Inr job, t) \<and> aj_status job = ST_COMPLETED
    \<and> job_of (w_store t) rid = Some (persisted job)
    \<and> rpt_evidence r = ev \<and> rp_case_id (rpt_manifest r) = Some (aj_case_id j)
    \<and> sv_canonicalize sv r = Inr json \<and> sv_render_html sv r = Inr html \<and> sv_render_pdf sv html = Inr pdf
    \<and> read_artifact rid ''report.json'' (w_store t) = Inr (Some json)
    \<and> read_artifact rid ''report.html'' (w_store t) = Inr (Some (utf8_bytes html))
    \<and> read_artifact rid ''report.pdf'' (w_store t) = Inr (Some pdf)
    \<and> get_report (aj_case_id j) (w_catalog t) = Inr (Some json)
    \<and> (\<forall>case_id. case_id \<noteq> aj_case_id j \<longrightarrow> get_report case_id (w_catalog t) = get_report case_id (w_catalog w))"
proof -
  have s: "store_ok (w_store w)" and h: "history_ok (w_history w)" using assms(2) by (simp_all add: world_ok_def rest_def)
  note ok = job_of_ok [OF s assms(3)]
  obtain d where d: "run_view (w_store w) rid = Some (j, d)" using assms(3) by (auto simp: job_of_run_view)
  have gj: "get_job rid (w_store w) = Inr (Some j)" by (simp add: get_job_eq [OF s] assms(3))
  have td: "the_dir rid (w_store w) = d" using d by (simp add: run_view_eq the_dir_def)
  have "\<not> aj_cancel_requested j" "\<not> jd_cancel_flag d" using assms(5) gj td by (simp_all add: is_cancel_requested_def)
  moreover have "jd_capture d = Some (''capture.'' @ aj_capture_format j, b)"
    using assms(6) gj td by (auto simp: capture_path_def split: option.splits if_splits)
  ultimately have "calm j (Some (''capture.'' @ aj_capture_format j, b)) (jd_artifacts d) (w_history w) (w_catalog w) w"
    using s d assms(4) ok(2) progresses_refl by (simp add: calm_def)
  note calm = this
  obtain r json html pdf where r: "rendering sv j ev r json html pdf"
    and stages: "triple (calm j (Some (''capture.'' @ aj_capture_format j, b)) (jd_artifacts d) (w_history w) (w_catalog w))
      (execute_stages sv j) (shipped j (with_artifacts json (utf8_bytes html) pdf (jd_artifacts d)) json (w_catalog w)) (\<lambda>_ _. False)"
    using healthy_stages [OF assms(1,7-10) h assms(11,12) ok(1)] by blast
  obtain job t where jt: "execute_stages sv j w = (Inr job, t)"
      "shipped j (with_artifacts json (utf8_bytes html) pdf (jd_artifacts d)) json (w_catalog w) job t"
    using triple_total [OF stages, OF calm] by blast
  obtain d' where d': "store_ok (w_store t)" "run_view (w_store t) rid = Some (persisted job, d')"
      "jd_artifacts d' = with_artifacts json (utf8_bytes html) pdf (jd_artifacts d)"
    using jt(2) ok(2) by (auto simp: shipped_def)
  have "read_artifact rid ''report.json'' (w_store t) = Inr (Some json)"
    "read_artifact rid ''report.html'' (w_store t) = Inr (Some (utf8_bytes html))"
    "read_artifact rid ''report.pdf'' (w_store t) = Inr (Some pdf)"
    by (rule delivered_artifacts [OF d'(1,2)], simp add: d'(3) with_artifacts_def update_conv')+
  moreover have "job_of (w_store t) rid = Some (persisted job)" using d'(2) by (auto simp: job_of_run_view)
  moreover have "execute_capture_job sv rid w = (Inr job, t)"
    using gj jt(1) assms(4) by (simp add: execute_capture_job_def doS_def storeS_read [OF assms(1)] tryS_def)
  ultimately show ?thesis using jt(2) r unfolding shipped_def rendering_def by blast
qed

lemma healthy_completes:
  assumes "quiet sv" and "world_ok w" and "job_of (w_store w) rid = Some j" and "aj_status j = ST_RUNNING"
    and "is_cancel_requested rid (w_store w) = Inr False" and "capture_path rid (w_store w) = Inr b"
    and "healthy sv j b ev" and "renders_ok sv n" and "n \<le> max_report_bytes" and "n \<le> rr_max_report_bytes (w_catalog w)"
    and "serves (w_catalog w) cs" and "aj_case_id j \<in> set cs \<or> length cs < rr_max_report_count (w_catalog w)"
  shows "\<exists>job t. execute_capture_job sv rid w = (Inr job, t) \<and> aj_status job = ST_COMPLETED"
  using healthy_execution [OF assms] by blast

text \<open>C33: a healthy run delivers. If nobody cancels the running job, the analysis returns a well-formed document for the
  stored capture, the scorers return well-formed scores, every valid report renders within the limits and the
  catalog has room for the case (or serves it already), then executing the job returns it completed and stores it so;
  there is a report on that document for the job's case whose canonical bytes, HTML and PDF are the three artifacts in
  the store, and the canonical bytes are what the catalog serves for the case, while it serves other cases as before.\<close>

theorem healthy_run_completes:
  assumes "quiet sv" and "world_ok w" and "job_of (w_store w) rid = Some j" and "aj_status j = ST_RUNNING"
    and "is_cancel_requested rid (w_store w) = Inr False" and "capture_path rid (w_store w) = Inr b"
    and "healthy sv j b ev" and "renders_ok sv n" and "n \<le> max_report_bytes" and "n \<le> rr_max_report_bytes (w_catalog w)"
    and "serves (w_catalog w) cs" and "aj_case_id j \<in> set cs \<or> length cs < rr_max_report_count (w_catalog w)"
  shows "\<exists>job t r json html pdf. execute_capture_job sv rid w = (Inr job, t) \<and> aj_status job = ST_COMPLETED
    \<and> job_of (w_store t) rid = Some (persisted job)
    \<and> rpt_evidence r = ev \<and> rp_case_id (rpt_manifest r) = Some (aj_case_id j)
    \<and> sv_canonicalize sv r = Inr json \<and> sv_render_html sv r = Inr html \<and> sv_render_pdf sv html = Inr pdf
    \<and> read_artifact rid ''report.json'' (w_store t) = Inr (Some json)
    \<and> read_artifact rid ''report.html'' (w_store t) = Inr (Some (utf8_bytes html))
    \<and> read_artifact rid ''report.pdf'' (w_store t) = Inr (Some pdf)
    \<and> get_report (aj_case_id j) (w_catalog t) = Inr (Some json)
    \<and> (\<forall>case_id. case_id \<noteq> aj_case_id j \<longrightarrow> get_report case_id (w_catalog t) = get_report case_id (w_catalog w))"
  by (rule healthy_execution [OF assms])

text \<open>Decoding the canonical bytes of a report gives a report with the same canonical bytes and the same case: the
  round trip of the canonical JSON form (serialization cuts time stamps to the second, so the report itself may differ).\<close>

definition codec :: "decoder \<Rightarrow> canonicalizer \<Rightarrow> bool" where
  "codec decode canonicalize = (\<forall>r b. canonicalize r = Inr b \<longrightarrow>
     (\<exists>r'. decode b = Inr r' \<and> canonicalize r' = Inr b \<and> rp_case_id (rpt_manifest r') = rp_case_id (rpt_manifest r)))"

lemma read_artifact_bound: "read_artifact rid ''report.json'' s = Inr (Some b) \<Longrightarrow> length b \<le> max_report_bytes"
  by (auto simp: read_artifact_def artifact_limits_def py_simps split: option.splits if_splits)

text \<open>A completed job is served. If executing a job returns it completed, a client that asks for its JSON artifact gets
  bytes, and the dashboard's query for the job's case finds the report, accepts it (it parses, and its manifest names
  the case) and returns the same canonical bytes.\<close>

lemma completed_job_is_served:
  assumes "api_ok sv" and "world_ok w" and "job_of (w_store w) rid = Some j" and "aj_status j = ST_RUNNING"
    and "execute_capture_job sv rid w = (Inr job, t)" and "aj_status job = ST_COMPLETED"
    and "codec decode (sv_canonicalize sv)"
  shows "\<exists>json r. read_job_artifact rid ''report.json'' (w_store t) = Inr json
    \<and> get_case_report decode (sv_canonicalize sv) (aj_case_id j) (w_catalog t) = Inr (r, json)
    \<and> rp_case_id (rpt_manifest r) = Some (aj_case_id j)"
proof -
  obtain json r where d: "read_artifact rid ''report.json'' (w_store t) = Inr (Some json)"
      "get_report (aj_case_id j) (w_catalog t) = Inr (Some json)"
      "sv_canonicalize sv r = Inr json" "rp_case_id (rpt_manifest r) = Some (aj_case_id j)"
    using completed_is_delivered [OF assms(1-6)] unfolding report_for_def by blast
  have ok: "store_ok (w_store w)" using assms(2) by (simp add: world_ok_def)
  have rid: "aj_run_id j = rid" "is_identifier rid" using job_of_ok [OF ok assms(3)] by simp_all
  obtain i where "progresses j i" "finished sv i job t" using execute_running [OF assms(1-4)] assms(5) by auto
  note f = finished_facts(3,4) [OF this rid(1)]
  have "get_job rid (w_store t) = Inr (Some (persisted job))" using f by (simp add: get_job_eq world_ok_def)
  moreover have "len_in 1 160 rid" using rid(2) is_identifier_length [OF rid(2)] by (cases rid) (auto simp: len_in_def)
  ultimately have art: "read_job_artifact rid ''report.json'' (w_store t) = Inr json"
    using d(1) assms(6) by (simp add: read_job_artifact_def get_analysis_def run_id_request_ok_def)
  obtain r' where r': "decode json = Inr r'" "sv_canonicalize sv r' = Inr json" "rp_case_id (rpt_manifest r') = Some (aj_case_id j)"
    using assms(7) [unfolded codec_def, rule_format, OF d(3)] d(4) by auto
  have "get_case_report decode (sv_canonicalize sv) (aj_case_id j) (w_catalog t) = Inr (r', json)"
    using d(2) r' read_artifact_bound [OF d(1)] by (simp add: get_case_report_def parse_report_def)
  then show ?thesis using art r'(3) by blast
qed

section \<open>A sample world\<close>

text \<open>A codec that keeps the case identifier only.\<close>

definition sample_canonicalize :: canonicalizer where
  "sample_canonicalize r = Inr (case rp_case_id (rpt_manifest r) of None \<Rightarrow> [] | Some c \<Rightarrow> 0 # map of_char c)"

definition sample_decode :: decoder where
  "sample_decode b = Inr (sample_report\<lparr>rpt_manifest := (rpt_manifest sample_report)\<lparr>rp_case_id :=
     (case b of [] \<Rightarrow> None | x # xs \<Rightarrow> Some (map char_of xs))\<rparr>\<rparr>)"

lemma sample_codec: "codec sample_decode sample_canonicalize"
  by (auto simp: codec_def sample_decode_def sample_canonicalize_def comp_def split: option.splits list.splits)

definition sample_services :: services where
  "sample_services = \<lparr>sv_analyze = (\<lambda>b h p. Inr sample_document), sv_renderer = sample_renderer, sv_scorers = [],
     sv_canonicalize = sample_canonicalize, sv_digest = sha256_digest, sv_render_html = (\<lambda>r. Inr ''<p></p>''),
     sv_render_pdf = (\<lambda>h. Inr [37, 80, 68, 70]), sv_dependency_versions = [], sv_now = \<lparr>dt_wall = 0, dt_offset = Some 0\<rparr>,
     sv_str = (\<lambda>e. []), sv_type_name = (\<lambda>e. ''Exception''), sv_api = (\<lambda>k s. s)\<rparr>"

definition sample_world :: world where
  "sample_world = \<lparr>w_store = two_jobs, w_history = \<lparr>mh_lines = None, mh_max_windows = 512\<rparr>, w_catalog = sample_root\<rparr>"

definition running_world :: world where
  "running_world = sample_world\<lparr>w_store := snd (update_job ''r1'' (no_update\<lparr>ju_status := Some ST_RUNNING\<rparr>) two_jobs)\<rparr>"

lemma sample_quiet: "quiet sample_services"
  by (simp add: quiet_def sample_services_def)

lemma sample_rest: "rest \<lparr>mh_lines = None, mh_max_windows = 512\<rparr> sample_root" "serves sample_root []"
proof -
  show s: "serves sample_root []" by (simp add: serves_def sample_root_def)
  show "rest \<lparr>mh_lines = None, mh_max_windows = 512\<rparr> sample_root" using s by (auto simp: rest_def history_ok_def)
qed

lemma sample_world_ok: "world_ok sample_world"
  using two_jobs_ok sample_rest(1) by (simp add: world_ok_def sample_world_def)

lemma running_world_facts:
  "world_ok running_world" "\<exists>j. job_of (w_store running_world) ''r1'' = Some j \<and> aj_status j = ST_RUNNING
     \<and> aj_case_id j = ''c1'' \<and> aj_policy_profile j = ''ietf_current'' \<and> aj_expected_hostname j = None"
  "is_cancel_requested ''r1'' (w_store running_world) = Inr False" "capture_path ''r1'' (w_store running_world) = Inr [212, 195, 178, 161]"
proof -
  let ?u = "no_update\<lparr>ju_status := Some ST_RUNNING\<rparr>"
  let ?j = "sample_job\<lparr>aj_created_at := \<lparr>dt_wall = 1000000, dt_offset = Some 0\<rparr>, aj_capture_sha256 := Some (sha256_bytes [212, 195, 178, 161])\<rparr>"
  let ?s = "update_store ''r1'' ?u ?j two_jobs" and ?k = "updated_job ?u two_jobs ?j"
  have nt: "\<not> is_terminal ?j" by (simp add: is_terminal_def sample_job_def)
  have st: "w_store running_world = ?s"
    using two_jobs_of(1) nt by (simp add: running_world_def sample_world_def update_job_eq [OF two_jobs_ok])
  have ok: "store_ok ?s" by (rule update_store_ok [OF two_jobs_ok two_jobs_of(1)]) simp
  have "w_history running_world = w_history sample_world" "w_catalog running_world = w_catalog sample_world"
    by (simp_all add: running_world_def)
  then show "world_ok running_world" using sample_world_ok ok st by (simp add: world_ok_def)
  have of: "job_of ?s ''r1'' = Some (persisted ?k)" by (simp add: update_store_job)
  then show "\<exists>j. job_of (w_store running_world) ''r1'' = Some j \<and> aj_status j = ST_RUNNING
     \<and> aj_case_id j = ''c1'' \<and> aj_policy_profile j = ''ietf_current'' \<and> aj_expected_hostname j = None"
    unfolding st by (simp add: sample_job_def)
  have "map_of (js_jobs two_jobs) ''r1'' = Some (snd (stored (sample_job\<lparr>aj_created_at := \<lparr>dt_wall = 1000000, dt_offset = Some 0\<rparr>\<rparr>)))"
    by (simp add: two_jobs_def stored_def sample_job_def)
  then have td: "jd_cancel_flag (the_dir ''r1'' ?s) = False" "jd_capture (the_dir ''r1'' ?s) = Some (''capture.pcap'', [212, 195, 178, 161])"
    by (simp_all add: the_dir_def update_store_def Let_def write_dir_get stored_def sample_job_def)
  show "is_cancel_requested ''r1'' (w_store running_world) = Inr False" "capture_path ''r1'' (w_store running_world) = Inr [212, 195, 178, 161]"
  proof -
    have gj: "get_job ''r1'' ?s = Inr (Some (persisted ?k))" using of by (simp only: get_job_eq [OF ok])
    have "\<not> aj_cancel_requested (persisted ?k)" "aj_capture_format (persisted ?k) = ''pcap''" by (simp_all add: sample_job_def)
    then show "is_cancel_requested ''r1'' (w_store running_world) = Inr False" "capture_path ''r1'' (w_store running_world) = Inr [212, 195, 178, 161]"
      unfolding st is_cancel_requested_def capture_path_def gj using td by simp_all
  qed
qed

lemma sample_api: "api_ok sample_services"
  by (rule quiet_api [OF sample_quiet])

lemma sample_healthy:
  assumes "aj_policy_profile j = ''ietf_current''"
  shows "healthy sample_services j b sample_document" and "renders_ok sample_services 161"
proof -
  have "ed_sessions sample_document = []" "ar_trust_store_digest (ed_run_identity sample_document) = None"
    by (simp_all add: sample_document_def)
  moreover have "pp_of_value ''ietf_current'' = Some PP_IETF_CURRENT" by code_simp
  ultimately show "healthy sample_services j b sample_document"
    using sample_document_ok sample_renderer_ok assms by (simp add: healthy_def scorers_ok_def sample_services_def)
  have "\<exists>b. sample_canonicalize r = Inr b \<and> length b \<le> 161" if "canonical_report_ok r" for r
    using that by (auto simp: sample_canonicalize_def canonical_report_ok_def report_manifest_ok_def split: option.splits)
  moreover have "length (utf8_bytes ''<p></p>'') \<le> max_html_bytes" by (simp add: utf8_bytes_def)
  ultimately show "renders_ok sample_services 161"
    by (simp add: renders_ok_def sample_services_def sha256_digest_def)
qed

lemma sample_completes:
  "\<exists>job t. execute_capture_job sample_services ''r1'' running_world = (Inr job, t) \<and> aj_status job = ST_COMPLETED"
proof -
  obtain j where j: "job_of (w_store running_world) ''r1'' = Some j" "aj_status j = ST_RUNNING" "aj_policy_profile j = ''ietf_current''"
    using running_world_facts(2) by blast
  have "161 \<le> rr_max_report_bytes (w_catalog running_world)" "serves (w_catalog running_world) []"
    "0 < rr_max_report_count (w_catalog running_world)"
    using sample_rest(2) by (simp_all add: running_world_def sample_world_def sample_root_def)
  then show ?thesis
    by (intro healthy_completes [where cs = "[]", OF sample_quiet running_world_facts(1) j(1,2) running_world_facts(3,4) sample_healthy [OF j(3)]]) simp_all
qed

theorem healthy_run_completes_witness:
  "\<exists>job t. execute_capture_job sample_services ''r1'' running_world = (Inr job, t) \<and> aj_status job = ST_COMPLETED
    \<and> read_artifact ''r1'' ''report.html'' (w_store t) = Inr (Some (utf8_bytes ''<p></p>''))
    \<and> read_artifact ''r1'' ''report.pdf'' (w_store t) = Inr (Some [37, 80, 68, 70])
    \<and> get_report ''c1'' (w_catalog t) = Inr (Some [0, 99, 49])"
proof -
  obtain j where j: "job_of (w_store running_world) ''r1'' = Some j" "aj_status j = ST_RUNNING" "aj_policy_profile j = ''ietf_current''"
      "aj_case_id j = ''c1''"
    using running_world_facts(2) by blast
  have room: "161 \<le> rr_max_report_bytes (w_catalog running_world)" "serves (w_catalog running_world) []"
    "aj_case_id j \<in> set [] \<or> length ([] :: string list) < rr_max_report_count (w_catalog running_world)" "161 \<le> max_report_bytes"
    using sample_rest(2) by (simp_all add: running_world_def sample_world_def sample_root_def)
  from healthy_run_completes [OF sample_quiet running_world_facts(1) j(1,2) running_world_facts(3,4) sample_healthy [OF j(3)] room(4,1,2,3)]
  show ?thesis by (auto simp: j(4) sample_services_def sample_canonicalize_def split: option.splits)
qed

text \<open>Instances of the properties of the worker.\<close>

theorem queue_drains_witness:
  "\<exists>t. worker_loop sample_services 2 sample_world = (Inr (), t) \<and> pending (w_store t) = {} \<and> ended (w_store t) ''r2''"
proof -
  have ok: "store_ok (w_store sample_world)" using sample_world_ok by (simp add: world_ok_def)
  have "pending (w_store sample_world) \<subseteq> {''r1'', ''r2''}"
    by (auto simp: pending_iff [OF ok]) (auto simp: sample_world_def job_of_def two_jobs_def stored_def sample_job_def split: if_splits)
  then have "card (pending (w_store sample_world)) \<le> card {''r1'', ''r2''}" by (rule card_mono [rotated]) simp
  then have "card (pending (w_store sample_world)) \<le> 2" by simp
  moreover have "''r2'' \<in> pending (w_store sample_world)"
    unfolding pending_iff [OF ok] using two_jobs_of(2) by (simp add: sample_world_def sample_job_def)
  ultimately show ?thesis using queue_drains [OF sample_quiet sample_world_ok] by blast
qed

end
