(* ===== verification/Interference.thy ===== *)
theory Interference
  imports Delivery
begin

text \<open>
  One execution of the worker among other processes that use the same job store: the web API, and also further workers,
  which the documentation warns against. Between two operations of this worker on the store the others may do any number
  of steps (\<open>job_step\<close>): take captures in, claim, update and cancel jobs, this one included, and write artifacts. An
  update of a job, a read of its status followed by a write, counts as one step, while \<open>request_cancel\<close> and \<open>claim_next\<close>,
  which read and then update, may come apart, since their updates are steps of their own.

  As in rely/guarantee reasoning, the state between two operations is described by an assertion that every step of the
  others preserves: the job is stored and has moved forward from its running status.

  Shown here: an execution always comes to an end with the job in a terminal status. The only exception it lets out
  says that another process has ended the job, and it can do that: a cancellation that is read before a claim and written
  after it ends the loop of the worker.
\<close>

section \<open>What stays true among other processes\<close>

definition others_ok :: "services \<Rightarrow> bool" where
  "others_ok sv = (\<forall>k s. job_step\<^sup>*\<^sup>* s (sv_api sv k s))"

lemma api_others: "api_ok sv \<Longrightarrow> others_ok sv"
  unfolding api_ok_def others_ok_def by (meson job_step_def mono_rtranclp)

definition advanced :: "analysis_job \<Rightarrow> job_store \<Rightarrow> bool" where
  "advanced j s = (store_ok s \<and> (\<exists>k. job_of s (aj_run_id j) = Some k \<and> progresses j k))"

definition amid :: "analysis_job \<Rightarrow> world \<Rightarrow> bool" where
  "amid j w = (advanced j (w_store w) \<and> rest (w_history w) (w_catalog w))"

lemma advanced_stable:
  assumes "job_step\<^sup>*\<^sup>* s t" and "advanced j s"
  shows "advanced j t"
proof -
  obtain k where k: "job_of s (aj_run_id j) = Some k" "progresses j k" and s: "store_ok s" using assms(2) by (auto simp: advanced_def)
  obtain c where "job_view s (aj_run_id j) = Some (k, c)" using job_of_view [OF k(1)] by blast
  then obtain w where w: "job_view t (aj_run_id j) = Some w" "view_forward (k, c) w"
    using jobs.reach_forward [OF assms(1) s] by blast
  then have "job_of t (aj_run_id j) = Some (fst w)" by (simp add: job_view_job_of)
  moreover have "progresses j (fst w)" using w(2) progresses_trans [OF k(2)] by (simp add: view_forward_def)
  ultimately show ?thesis using jobs.reach_inv [OF assms(1) s] by (auto simp: advanced_def)
qed

lemma amid_others: "others_ok sv \<Longrightarrow> amid j w \<Longrightarrow> amid j (w\<lparr>w_store := sv_api sv k (w_store w)\<rparr>)"
  using advanced_stable by (fastforce simp: amid_def others_ok_def)

definition steps :: "(job_store, 'a) op \<Rightarrow> bool" where
  "steps m = (\<forall>s. job_step\<^sup>*\<^sup>* s (snd (m s)))"

lemma steps_simps [simp]:
  "steps (pureS f)" "steps (write_artifact rid name b)"
  "update_ok u \<Longrightarrow> ju_status u \<noteq> Some ST_QUEUED \<Longrightarrow> steps (update_job rid u)"
  unfolding steps_def job_step_def
  by (auto simp: pureS_def intro!: r_into_rtranclp intro: worker_artifact worker_update prod.collapse [symmetric])

lemma amid_store:
  assumes "others_ok sv" and "steps m"
  shows "keeps (amid j) (storeS sv k m)"
proof (rule keepsI)
  fix w assume "amid j w"
  from amid_others [OF assms(1) this] have w: "amid j (w\<lparr>w_store := sv_api sv k (w_store w)\<rparr>)" .
  have "job_step\<^sup>*\<^sup>* (sv_api sv k (w_store w)) (snd (m (sv_api sv k (w_store w))))" using assms(2) by (simp add: steps_def)
  then show "amid j (snd (storeS sv k m w))" using advanced_stable w by (auto simp: storeS_eq amid_def)
qed

lemma amid_append:
  assumes "extract_endpoint_windows d = Inr ws" and "amid j w" and "load_windows (w_history w) = Inr hist"
  shows "amid j (snd (onS w_history w_history_update (append_windows (assign_day_index (next_day hist) ws)) w))"
  using append_spec [OF _ assms(3,1)] assms(2) by (fastforce simp: onS_def amid_def rest_def)

lemma amid_advise: "keeps (amid j) (advise_stage sv ev r)"
proof (rule keepsI)
  fix w assume w: "amid j w"
  show "amid j (snd (advise_stage sv ev r w))"
  proof (cases "load_windows (w_history w)")
    case (Inl e)
    then show ?thesis using w by (simp add: advise_stage_def doS_def pureS_def)
  next
    case hist: (Inr hist)
    show ?thesis
    proof (cases "attach_advisories_with_history (sv_scorers sv) hist ''local'' r")
      case (Inl e)
      then show ?thesis using w hist by (simp add: advise_stage_def doS_def pureS_def)
    next
      case (Inr p)
      obtain advised new where p: "p = (advised, new)" by (cases p)
      obtain ws where ws: "extract_endpoint_windows (rpt_evidence r) = Inr ws" "new = assign_day_index (next_day hist) ws"
        using Inr p attach_windows by metis
      from amid_append [OF ws(1) w hist] show ?thesis
        using w hist Inr unfolding p ws(2)
        by (auto simp: advise_stage_def doS_def pureS_def guardS_def returnS_def raiseS_def split: prod.splits sum.splits)
    qed
  qed
qed

lemma amid_publish: "keeps (amid j) (onS w_catalog w_catalog_update (publish_report case_id b))"
proof (rule keepsI)
  fix w assume w: "amid j w"
  then obtain cs where cs: "serves (w_catalog w) cs" by (auto simp: amid_def rest_def)
  obtain x c where c: "publish_report case_id b (w_catalog w) = (x, c)" by (cases "publish_report case_id b (w_catalog w)")
  have "rest (w_history w) c" using w publish_serves(1) [OF cs c] by (simp add: amid_def rest_def)
  then show "amid j (snd (onS w_catalog w_catalog_update (publish_report case_id b) w))"
    using w c by (simp add: onS_def amid_def)
qed

section \<open>How an execution ends\<close>

text \<open>A value comes with the job stored in a terminal status; an exception leaves the job where others have moved it.\<close>

definition ends :: "analysis_job \<Rightarrow> (world, analysis_job) op \<Rightarrow> bool" where
  "ends j m = triple (amid j) m (\<lambda>job w. amid j w \<and> is_terminal job \<and> job_of (w_store w) (aj_run_id j) = Some (persisted job)) (\<lambda>_. amid j)"

lemma ends_do:
  assumes "keeps (amid j) m" and "\<And>a. ends j (f a)"
  shows "ends j (doS m f)"
  unfolding ends_def
proof (rule triple_do)
  show "triple (amid j) m (\<lambda>_. amid j) (\<lambda>_. amid j)"
  proof (rule tripleI)
    fix w assume "amid j w"
    then have "amid j (snd (m w))" using assms(1) by (simp add: keeps_def)
    then show "case m w of (Inr _, t) \<Rightarrow> amid j t | (Inl e, t) \<Rightarrow> amid j t" by (cases "m w"; cases "fst (m w)") auto
  qed
  show "triple (amid j) (f a) (\<lambda>job w. amid j w \<and> is_terminal job \<and> job_of (w_store w) (aj_run_id j) = Some (persisted job)) (\<lambda>_. amid j)" for a
    using assms(2) by (simp add: ends_def)
qed

text \<open>An update that ends the job succeeds, or another process has ended the job.\<close>

lemma ending_update:
  assumes "others_ok sv" and "amid j w" and "ju_status u = Some st" and "st \<in> {ST_COMPLETED, ST_FAILED, ST_CANCELLED}" and "update_ok u"
  shows "(\<exists>job t. storeS sv k (update_job (aj_run_id j) u) w = (Inr job, t) \<and> amid j t \<and> is_terminal job
      \<and> job_of (w_store t) (aj_run_id j) = Some (persisted job))
    \<or> (\<exists>t i. storeS sv k (update_job (aj_run_id j) u) w = (Inl JobConflictError, t) \<and> amid j t
      \<and> job_of (w_store t) (aj_run_id j) = Some i \<and> is_terminal i)"
proof -
  let ?s = "sv_api sv k (w_store w)" and ?m = "update_job (aj_run_id j) u"
  obtain i where i: "store_ok ?s" "job_of ?s (aj_run_id j) = Some i"
    using amid_others [OF assms(1,2)] by (auto simp: amid_def advanced_def)
  have "steps ?m" using assms(3-5) by auto
  from amid_store [OF assms(1) this] assms(2) have t: "amid j (snd (storeS sv k ?m w))" by (auto simp: keeps_def)
  show ?thesis
  proof (cases "is_terminal i")
    case True
    then show ?thesis using t i assms(3) by (auto simp: storeS_eq update_job_eq [OF i(1)])
  next
    case False
    have "aj_status (updated_job u ?s i) = st" by (simp add: assms(3))
    then have "is_terminal (updated_job u ?s i)" using assms(4) by (simp add: is_terminal_def)
    then show ?thesis using t i False by (auto simp: storeS_eq update_job_eq [OF i(1)] update_store_job)
  qed
qed

lemma ends_update:
  assumes "others_ok sv" and "ju_status u = Some st" and "st \<in> {ST_COMPLETED, ST_FAILED, ST_CANCELLED}" and "update_ok u"
  shows "ends j (storeS sv k (update_job (aj_run_id j) u))"
  unfolding ends_def
proof (rule tripleI)
  fix w assume "amid j w"
  from ending_update [OF assms(1) this assms(2-4), of k]
  show "case storeS sv k (update_job (aj_run_id j) u) w of (Inr job, t) \<Rightarrow> amid j t \<and> is_terminal job
      \<and> job_of (w_store t) (aj_run_id j) = Some (persisted job) | (Inl e, t) \<Rightarrow> amid j t" by auto
qed

lemma ends_stages:
  assumes "others_ok sv"
  shows "ends j (execute_stages sv j)"
proof -
  note st = amid_store [OF assms]
  have cancel: "ends j m \<Longrightarrow> ends j (unless_cancelled sv k (aj_run_id j) m)" for k m
    unfolding unless_cancelled_def mark_cancelled_def
    by (intro ends_do st) (simp_all add: ends_update [OF assms, where st = ST_CANCELLED])
  have enter: "keeps (amid j) (enter_stage sv k (aj_run_id j) s)" for k s
    unfolding enter_stage_def by (rule st) simp
  have "keeps (amid j) (analyze_stage sv j)"
    unfolding analyze_stage_def by (intro keeps_doS st) (auto intro!: keeps_doS split: option.splits)
  moreover have "keeps (amid j) (assemble_stage sv j ev)" for ev
    unfolding assemble_stage_def Let_def by (intro keeps_doS) simp_all
  moreover have "keeps (amid j) (render_stage sv r)" for r
    unfolding render_stage_def by (intro keeps_doS) (auto intro!: keeps_doS split: option.splits)
  moreover have "ends j (publish_stage sv j b)" for b
    unfolding publish_stage_def
    by (intro ends_do amid_publish ends_update [OF assms, where st = ST_COMPLETED]) (simp_all add: update_ok_def opt_ok_def no_update_def)
  ultimately show ?thesis
    unfolding execute_stages_def Let_def
    by (intro cancel ends_do enter amid_advise) (auto intro!: cancel ends_do enter st split: prod.splits)
qed

lemma execution_ends:
  assumes "others_ok sv" and "world_ok w" and "job_of (w_store w) rid = Some j" and "aj_status j = ST_RUNNING"
  shows "\<exists>r t k. execute_capture_job sv rid w = (r, t) \<and> world_ok t \<and> job_of (w_store t) rid = Some k \<and> is_terminal k
    \<and> progresses j k \<and> (case r of Inr job \<Rightarrow> k = persisted job | Inl e \<Rightarrow> e = JobConflictError)"
proof -
  have rid: "aj_run_id j = rid" using assms(2,3) job_of_ok(2) by (auto simp: world_ok_def)
  have "amid j w" using assms(2,3) rid progresses_refl by (auto simp: amid_def advanced_def world_ok_def)
  let ?w = "w\<lparr>w_store := sv_api sv 0 (w_store w)\<rparr>"
  have aw: "amid j ?w" by (rule amid_others [OF assms(1)]) fact
  then obtain i where i: "store_ok (w_store ?w)" "job_of (w_store ?w) rid = Some i" "progresses j i"
    using rid by (auto simp: amid_def advanced_def)
  have id: "aj_run_id i = rid" using i(3) rid by (simp add: progresses_def)
  have conv: "amid i v \<Longrightarrow> world_ok v \<and> (\<exists>k. job_of (w_store v) rid = Some k \<and> progresses j k)" for v
    using progresses_trans [OF i(3)] id by (auto simp: amid_def advanced_def world_ok_def)
  have eq: "execute_capture_job sv rid w = (if aj_status i \<noteq> ST_RUNNING then (Inr i, ?w)
      else tryS (execute_stages sv i) (\<lambda>exc. fail_job sv 21 rid (if sv_str sv exc \<noteq> [] then sv_str sv exc else sv_type_name sv exc)) ?w)"
    using i(1,2) by (simp add: execute_capture_job_def doS_def storeS_eq pureS_def get_job_eq returnS_def)
  have ai: "amid i ?w" using aw i id progresses_refl by (auto simp: amid_def advanced_def)
  show ?thesis
  proof (cases "aj_status i = ST_RUNNING")
    case False
    then have "is_terminal i" using i(3) assms(4) by (cases "aj_status i") (auto simp: progresses_def is_terminal_def)
    moreover have "i = persisted i" using job_of_ok(4) [OF i(1,2)] by simp
    ultimately show ?thesis using False eq i conv [OF ai] by auto
  next
    case True
    obtain r t where st: "execute_stages sv i ?w = (r, t)" by (cases "execute_stages sv i ?w")
    note e = tripleD [OF ends_stages [OF assms(1), of i, unfolded ends_def] ai]
    show ?thesis
    proof (cases r)
      case (Inr job)
      then have "execute_capture_job sv rid w = (Inr job, t)" using st True by (simp add: eq tryS_def)
      then show ?thesis using e(1) st Inr conv [of t] id by (auto simp: is_terminal_def)
    next
      case (Inl x)
      then have t: "amid i t" using e(2) st by blast
      let ?m = "if sv_str sv x \<noteq> [] then sv_str sv x else sv_type_name sv x"
      have "execute_capture_job sv rid w = fail_job sv 21 rid ?m t" using st True Inl by (simp add: eq tryS_def)
      moreover have "(\<exists>job t'. fail_job sv 21 rid ?m t = (Inr job, t') \<and> amid i t' \<and> is_terminal job
            \<and> job_of (w_store t') rid = Some (persisted job))
          \<or> (\<exists>t' k. fail_job sv 21 rid ?m t = (Inl JobConflictError, t') \<and> amid i t' \<and> job_of (w_store t') rid = Some k \<and> is_terminal k)"
        using ending_update [OF assms(1) t, of _ ST_FAILED 21] unfolding fail_job_def id by (auto simp: update_ok_def opt_ok_def)
      ultimately show ?thesis using conv by (fastforce simp: is_terminal_def)
    qed
  qed
qed

text \<open>C14: executing a running job comes to an end with the job in a terminal status, whatever the analysis, the scorers, the
  renderers, the history and the catalog return or raise, and whatever other processes, further workers included, do to the
  job store between the operations of this execution, update by update. The store holds the same job in a terminal
  status, which is that of the returned job; store, history and catalog are well formed. The only exception that comes
  out is the conflict that another process has ended the job; when the web API is the only other process, whose operations
  are not torn apart, none comes out.\<close>

theorem execute_always_ends:
  assumes "others_ok sv" and "world_ok w" and "job_of (w_store w) rid = Some j" and "aj_status j = ST_RUNNING"
  shows "\<exists>r t k. execute_capture_job sv rid w = (r, t) \<and> world_ok t \<and> job_of (w_store t) rid = Some k \<and> is_terminal k
    \<and> progresses j k \<and> (case r of Inr job \<Rightarrow> k = persisted job | Inl e \<Rightarrow> e = JobConflictError)
    \<and> (api_ok sv \<longrightarrow> (\<exists>job. r = Inr job))"
  using execution_ends [OF assms] execute_running [OF _ assms(2-4)] by (metis prod.inject)

section \<open>A cancellation that overtakes a claim\<close>

text \<open>The web API reads a queued job; before it writes the cancellation, the worker claims the job; the write then cancels
  the running job. The worker sees the request, fails to mark the job cancelled because it already is, fails to
  mark it failed for the same reason, and the exception ends its loop.\<close>

definition overtaken :: "string \<Rightarrow> services \<Rightarrow> services" where
  "overtaken rid sv = sv\<lparr>sv_api := (\<lambda>k s. if k = 1
     then snd (update_job rid (no_update\<lparr>ju_status := Some ST_CANCELLED, ju_cancel_requested := Some True\<rparr>) s) else s)\<rparr>"

lemma overtaken_ok: "others_ok (overtaken rid sv)"
proof -
  let ?u = "no_update\<lparr>ju_status := Some ST_CANCELLED, ju_cancel_requested := Some True\<rparr>"
  have "steps (update_job rid ?u)" by simp
  then show ?thesis by (simp add: others_ok_def overtaken_def steps_def)
qed

lemma cancellation_ends_worker:
  assumes "world_ok w" and "job_of (w_store w) rid = Some j" and "aj_status j = ST_RUNNING"
  shows "\<exists>t. execute_capture_job (overtaken rid sv) rid w = (Inl JobConflictError, t)"
proof -
  let ?sv = "overtaken rid sv" and ?u = "no_update\<lparr>ju_status := Some ST_CANCELLED, ju_cancel_requested := Some True\<rparr>"
  let ?s = "w_store w" let ?t = "update_store rid ?u j ?s" let ?w = "w\<lparr>w_store := ?t\<rparr>"
  have s: "store_ok ?s" using assms(1) by (simp add: world_ok_def)
  have nt: "\<not> is_terminal j" using assms(3) by (simp add: is_terminal_def)
  have rid: "aj_run_id j = rid" using job_of_ok(2) [OF s assms(2)] .
  have up: "update_job rid ?u ?s = (Inr (updated_job ?u ?s j), ?t)" using assms(2) nt by (simp add: update_job_eq [OF s])
  have t: "store_ok ?t" by (rule update_store_ok [OF s assms(2)]) simp
  have jt: "job_of ?t rid = Some (persisted (updated_job ?u ?s j))" by (simp add: update_store_job)
  have api: "sv_api ?sv k = (if k = 1 then (\<lambda>s. snd (update_job rid ?u s)) else (\<lambda>s. s))" for k by (simp add: overtaken_def)
  have asked: "is_cancel_requested rid ?t = Inr True" by (simp add: is_cancel_requested_def get_job_eq [OF t] jt)
  have late: "storeS ?sv k (update_job rid u) (w\<lparr>w_store := x\<rparr>) = (Inl JobConflictError, w\<lparr>w_store := tick x\<rparr>)"
    if "ju_status u = Some st" "k \<noteq> 1" "x = ?t \<or> x = tick ?t" for k u st x
  proof -
    have "store_ok x" "job_of x rid = Some (persisted (updated_job ?u ?s j))" using that(3) t jt by auto
    then show ?thesis using that(1,2) by (simp add: storeS_eq api update_job_eq is_terminal_def)
  qed
  have read: "storeS ?sv 1 (pureS (is_cancel_requested rid)) w = (Inr True, ?w)"
    using up asked by (simp add: storeS_eq api pureS_def)
  have "unless_cancelled ?sv 1 rid m w = mark_cancelled ?sv (1 + 1) rid ?w" for m
    unfolding unless_cancelled_def by (simp only: doS_def read prod.case sum.case if_True)
  then have "execute_stages ?sv j w = (Inl JobConflictError, w\<lparr>w_store := tick ?t\<rparr>)"
    unfolding execute_stages_def Let_def rid by (simp add: mark_cancelled_def late)
  then have "execute_capture_job ?sv rid w = fail_job ?sv 21 rid (if sv_str ?sv JobConflictError \<noteq> [] then sv_str ?sv JobConflictError
      else sv_type_name ?sv JobConflictError) (w\<lparr>w_store := tick ?t\<rparr>)"
    using assms(2,3) by (simp add: execute_capture_job_def doS_def storeS_eq [of ?sv 0] api pureS_def get_job_eq [OF s] tryS_def)
  then show ?thesis unfolding fail_job_def by (simp add: late)
qed

theorem execute_always_ends_witness:
  "\<exists>r t k. execute_capture_job (overtaken ''r1'' sample_services) ''r1'' running_world = (r, t) \<and> world_ok t
    \<and> job_of (w_store t) ''r1'' = Some k \<and> is_terminal k \<and> aj_case_id k = ''c1''"
proof -
  obtain j where j: "job_of (w_store running_world) ''r1'' = Some j" "aj_status j = ST_RUNNING" "aj_case_id j = ''c1''"
    using running_world_facts(2) by blast
  show ?thesis using execute_always_ends [OF overtaken_ok running_world_facts(1) j(1,2)] j(3) by (fastforce simp: progresses_def)
qed

end
