(* ===== verification/Sessions_Correct.thy ===== *)
theory Sessions_Correct
  imports Sessions
begin

text \<open>
  What the session normalizer guarantees: every event of a session is redacted and bounded, merging keeps every
  event, the protocol comes from payload evidence, TLS from a ClientHello, and the only exceptions are those of
  malformed numbers.
\<close>

section \<open>Text\<close>

lemma upper_char_code: "of_char (upper_char c) = (if 97 \<le> (of_char c :: nat) \<and> of_char c \<le> (122 :: nat) then of_char c - 32 else (of_char c :: nat))"
proof -
  have "(of_char c - 32 :: nat) < 256" by (rule le_less_trans [OF diff_le_self nat_of_char_less_256])
  then show ?thesis by (simp add: upper_char_def Let_def)
qed

lemma upper_char_idem [simp]: "upper_char (upper_char c) = upper_char c"
proof -
  have "\<not> (97 \<le> (of_char (upper_char c) :: nat) \<and> of_char (upper_char c) \<le> (122 :: nat))"
    unfolding upper_char_code by (auto split: if_splits)
  then show ?thesis unfolding upper_char_def [of "upper_char c"] Let_def by (rule if_not_P)
qed

lemma py_upper_idem [simp]: "py_upper (py_upper s) = py_upper s"
  by (simp add: py_upper_def)

lemma py_upper_length [simp]: "length (py_upper s) = length s"
  by (simp add: py_upper_def)

lemma py_upper_Nil [simp]: "py_upper s = [] \<longleftrightarrow> s = []"
  by (simp add: py_upper_def)

lemma upper_char_space: "\<not> is_space c \<Longrightarrow> \<not> is_space (upper_char c)"
  unfolding is_space_def Let_def upper_char_code by (auto split: if_splits)

lemma split_ws_aux_acc: "acc \<noteq> [] \<Longrightarrow> split_ws_aux acc s \<noteq> []"
  by (induction acc s rule: split_ws_aux.induct) auto

lemma py_split_ws_nonblank: "\<not> is_space c \<Longrightarrow> py_split_ws (c # s) \<noteq> []"
  by (simp add: py_split_ws_def split_ws_aux_acc)

definition nonblank :: "string \<Rightarrow> bool" where
  "nonblank s = (\<exists>c cs. s = c # cs \<and> \<not> is_space c)"

lemma nonblank_upper: "nonblank s \<Longrightarrow> py_split_ws (py_upper s) \<noteq> []"
  by (auto simp: nonblank_def py_upper_def upper_char_space py_split_ws_nonblank)

lemma dropWhile_head: "dropWhile P s = c # cs \<Longrightarrow> \<not> P c"
  by (induction s) (auto split: if_splits)

lemma py_strip_nonblank: "py_strip s \<noteq> [] \<Longrightarrow> nonblank (take (Suc n) (py_strip s))"
proof -
  let ?l = "dropWhile is_space s"
  assume "py_strip s \<noteq> []"
  then have ne: "dropWhile is_space (rev ?l) \<noteq> []" by (simp add: py_strip_def)
  obtain pre where pre: "rev ?l = pre @ dropWhile is_space (rev ?l)" by (metis takeWhile_dropWhile_id)
  then have l: "?l = py_strip s @ rev pre" unfolding py_strip_def by (metis rev_append rev_rev_ident)
  obtain c cs where c: "py_strip s = c # cs" using \<open>py_strip s \<noteq> []\<close> by (cases "py_strip s") auto
  then have "\<not> is_space c" using l dropWhile_head [of is_space s c] by simp
  then show ?thesis using c by (simp add: nonblank_def)
qed

lemma bound_text_props:
  assumes "bound_text v = Some t"
  shows "length t \<le> 128" and "nonblank t"
proof -
  obtain s where s: "v = Some s" "py_strip s \<noteq> []" "t = take 128 (py_strip s)"
    using assms by (auto simp: bound_text_def Let_def split: option.splits if_splits)
  then show "length t \<le> 128" by simp
  show "nonblank t" using py_strip_nonblank [OF s(2), of 127] s(3) by simp
qed

section \<open>Redaction\<close>

abbreviation redacted_mark :: string where "redacted_mark \<equiv> ''<redacted>''"

definition secret_command :: "string option \<Rightarrow> bool" where
  "secret_command c = (case c of None \<Rightarrow> False | Some s \<Rightarrow> py_upper s \<in> set secret_commands)"

definition clean_text :: "string option \<Rightarrow> string option \<Rightarrow> bool" where
  \<comment> \<open>a text that may be kept beside a command\<close>
  "clean_text command v = (\<forall>t. v = Some t \<longrightarrow> length t \<le> 128 \<and> nonblank t \<and> (secret_command command \<longrightarrow> t = redacted_mark))"

definition short_text :: "string option \<Rightarrow> bool" where
  "short_text v = (\<forall>t. v = Some t \<longrightarrow> length t \<le> 32)"

definition private_event :: "protocol_event \<Rightarrow> bool" where
  "private_event e = (clean_text (pe_command e) (pe_argument e) \<and> clean_text (pe_command e) (pe_text e)
     \<and> short_text (pe_command e) \<and> short_text (pe_tag e) \<and> protocol_event_ok e)"

lemma as_text_bounds: "as_text n v = Some s \<Longrightarrow> length s \<le> n"
  by (cases "(n, v)" rule: as_text.cases) (auto simp: Let_def split: if_splits)

lemma redacted_nonblank: "nonblank redacted_mark"
  by (simp add: nonblank_def is_space_def)

lemma clean_text_simps [simp]:
  "clean_text c None"
  "clean_text c (redact c v)"
  "clean_text None (bound_text v)"
  using bound_text_props redacted_nonblank
  by (auto simp: clean_text_def redact_def secret_command_def split: option.splits if_splits)

lemma short_text_simps [simp]:
  "short_text None"
  "short_text (as_text 32 v)"
  "short_text (map_option py_upper (as_text 32 v))"
  by (auto simp: short_text_def dest: as_text_bounds)

lemma short_text_upper: "as_text 32 v = Some t \<Longrightarrow> short_text (Some (py_upper t))"
  by (auto simp: short_text_def dest: as_text_bounds)

lemma private_email_event: "event_from_email_row row = Inr (Some e) \<Longrightarrow> private_event e"
  by (auto simp: event_from_email_row_def Let_def py_simps mk_event_def private_event_def split: option.splits)

lemma private_request: "short_text (Some command) \<Longrightarrow> short_text tag \<Longrightarrow> mk_event (tshark_request command n tag) = Inr e \<Longrightarrow> private_event e"
  by (auto simp: mk_event_def py_simps private_event_def tshark_request_def)

lemma private_reply: "short_text tag \<Longrightarrow> clean_text None text \<Longrightarrow> mk_event (tshark_reply code text n tag) = Inr e \<Longrightarrow> private_event e"
  by (auto simp: mk_event_def py_simps private_event_def tshark_reply_def)

lemma short_starttls: "short_text (Some ''STARTTLS'')"
  by (simp add: short_text_def)

lemma private_tshark_event: "tshark_event frame p = Inr (Some e) \<Longrightarrow> private_event e"
  by (cases p; auto simp: tshark_event_def Let_def py_simps short_text_upper short_starttls split: option.splits if_splits
      elim!: private_request [rotated 2] private_reply [rotated 2])

lemma private_with_evidence: "private_event z \<Longrightarrow> private_event t \<Longrightarrow> private_event (with_tshark_evidence z t)"
  by (auto simp: private_event_def with_tshark_evidence_def protocol_event_ok_def truthy_str_def split: option.splits)

lemma private_text: "private_event e \<Longrightarrow> ev_text e \<noteq> [] \<Longrightarrow> py_split_ws (ev_text e) \<noteq> []"
  by (auto simp: private_event_def clean_text_def ev_text_def or_str_def nonblank_upper split: option.splits if_splits)

section \<open>Merging\<close>

lemma compatible_total: "private_event z \<Longrightarrow> \<exists>b. compatible z t = Inr b"
  using private_text [of z] by (auto simp: compatible_def same_reply_def Let_def split: option.splits)

text \<open>Why a Zeek event absorbed a TShark event.\<close>

definition close_match :: "stamped \<Rightarrow> stamped \<Rightarrow> bool" where
  "close_match z t = (sd_uid z = sd_uid t \<and> compatible (sd_event z) (sd_event t) = Inr True \<and> \<bar>sd_ts z - sd_ts t\<bar> \<le> 2)"

definition absorbed :: "stamped \<Rightarrow> stamped \<Rightarrow> stamped" where
  "absorbed z t = z\<lparr>sd_event := with_tshark_evidence (sd_event z) (sd_event t), sd_matched := True\<rparr>"

lemma best_loop_spec:
  assumes "best_loop extra i cs best d = Inr (Some k)" and "d \<le> 2"
  shows "best = Some k \<or> (i \<le> k \<and> k < i + length cs \<and> \<not> sd_matched (cs ! (k - i)) \<and> close_match (cs ! (k - i)) extra)"
  using assms
proof (induction extra i cs best d rule: best_loop.induct)
  case (2 extra i c cs best d)
  let ?skip = "best_loop extra (Suc i) cs best d"
  let ?delta = "\<bar>sd_ts c - sd_ts extra\<bar>"
  have step: "best = Some k \<or> (i \<le> k \<and> k < i + length (c # cs) \<and> \<not> sd_matched ((c # cs) ! (k - i)) \<and> close_match ((c # cs) ! (k - i)) extra)"
    if "best = Some k \<or> (Suc i \<le> k \<and> k < Suc i + length cs \<and> \<not> sd_matched (cs ! (k - Suc i)) \<and> close_match (cs ! (k - Suc i)) extra)"
    using that by (auto simp: nth_Cons' )
  show ?case
  proof (cases "sd_matched c \<or> sd_uid c \<noteq> sd_uid extra")
    case True
    then show ?thesis using 2 step by simp
  next
    case False
    then obtain ok where ok: "compatible (sd_event c) (sd_event extra) = Inr ok"
      using "2.prems"(1) by (auto simp: py_simps)
    show ?thesis
    proof (cases "ok \<and> ?delta \<le> d")
      case True
      then have "best_loop extra (Suc i) cs (Some i) ?delta = Inr (Some k)" using "2.prems" False ok by simp
      moreover have "?delta \<le> 2" using True "2.prems"(2) by simp
      ultimately have "Some i = Some k \<or> (Suc i \<le> k \<and> k < Suc i + length cs \<and> \<not> sd_matched (cs ! (k - Suc i)) \<and> close_match (cs ! (k - Suc i)) extra)"
        using "2.IH"(3) False ok True by simp
      then show ?thesis using False True ok \<open>?delta \<le> 2\<close> by (auto simp: close_match_def nth_Cons')
    next
      case no: False
      then have "?skip = Inr (Some k)" using "2.prems" False ok by (auto split: if_splits)
      then show ?thesis using "2.IH"(2,4) False ok no "2.prems"(2) step by (cases ok) auto
    qed
  qed
qed simp

lemma filter_update_length:
  "k < length xs \<Longrightarrow> \<not> P (xs ! k) \<Longrightarrow> P y \<Longrightarrow> length (filter P (xs[k := y])) = Suc (length (filter P xs))"
  by (induction xs arbitrary: k) (auto split: nat.splits)

definition absorbs :: "stamped set \<Rightarrow> stamped \<Rightarrow> stamped \<Rightarrow> bool" where
  \<comment> \<open>the Zeek event as it was, or with the evidence of one matching TShark event\<close>
  "absorbs T z z' = (z' = z \<or> (\<exists>t \<in> T. close_match z t \<and> z' = absorbed z t))"

lemma absorbs_mono: "absorbs S z z' \<Longrightarrow> S \<subseteq> T \<Longrightarrow> absorbs T z z'"
  by (auto simp: absorbs_def)

definition mergeable :: "stamped \<Rightarrow> bool" where
  "mergeable t = (\<not> sd_matched t \<and> \<not> (pe_kind (sd_event t) = SK_REQUEST \<and> pe_command (sd_event t) = None))"

definition flagged :: "stamped \<Rightarrow> stamped \<Rightarrow> bool" where
  "flagged t m = (m = t \<or> m = t\<lparr>sd_matched := True\<rparr>)"

lemma merge_step_cases:
  assumes "merge_step t (zeek, done) = Inr r" and "mergeable t"
  obtains "r = (zeek, done @ [t])"
  | k where "k < length zeek" and "\<not> sd_matched (zeek ! k)" and "close_match (zeek ! k) t"
      and "r = (zeek[k := absorbed (zeek ! k) t], done @ [t\<lparr>sd_matched := True\<rparr>])"
proof -
  have m: "\<not> (pe_kind (sd_event t) = SK_REQUEST \<and> pe_command (sd_event t) = None)" using assms(2) by (simp add: mergeable_def)
  obtain best where best: "best_loop t 0 zeek None 2 = Inr best"
    and r: "Inr r = (case best of None \<Rightarrow> Inr (zeek, done @ [t])
      | Some i \<Rightarrow> (Inr (zeek[i := absorbed (zeek ! i) t], done @ [t\<lparr>sd_matched := True\<rparr>]) :: (stamped list \<times> stamped list) result))"
    using assms(1) unfolding merge_step_def prod.case if_not_P [OF m] absorbed_def by (auto simp: py_simps)
  show thesis
  proof (cases best)
    case None
    then show thesis using r that(1) by simp
  next
    case (Some k)
    then have "k < length zeek" "\<not> sd_matched (zeek ! k)" "close_match (zeek ! k) t"
      using best_loop_spec [of t 0 zeek None 2 k] best by simp_all
    then show thesis using r Some by (intro that(2) [of k]) simp_all
  qed
qed

lemma merge_fold:
  assumes "foldE merge_step ts (zeek, done) = Inr (zeek', done')" and "list_all mergeable ts"
    and "list_all2 (absorbs S) zs zeek" and "list_all (\<lambda>z. \<not> sd_matched z) zs"
    and "length (filter sd_matched zeek) = length (filter sd_matched done)"
  shows "list_all2 (absorbs (S \<union> set ts)) zs zeek' \<and> length (filter sd_matched zeek') = length (filter sd_matched done')
    \<and> (\<exists>ms. done' = done @ ms \<and> list_all2 flagged ts ms)"
  using assms
proof (induction ts arbitrary: zeek "done" S)
  case (Cons t ts)
  then obtain r where r: "merge_step t (zeek, done) = Inr r" "foldE merge_step ts r = Inr (zeek', done')"
    by (auto simp: py_simps)
  have t: "mergeable t" "list_all mergeable ts" using Cons.prems(2) by simp_all
  have mono: "list_all2 (absorbs (insert t S)) zs zeek"
    using Cons.prems(3) absorbs_mono by (rule list_all2_mono) auto
  from r(1) t(1) show ?case
  proof (rule merge_step_cases)
    assume "r = (zeek, done @ [t])"
    moreover have "\<not> sd_matched t" using t(1) by (simp add: mergeable_def)
    ultimately show ?thesis
      using Cons.IH [of zeek "done @ [t]" "insert t S"] r(2) t(2) mono Cons.prems(4,5)
      by (auto simp: flagged_def)
  next
    fix k
    assume k: "k < length zeek" "\<not> sd_matched (zeek ! k)" "close_match (zeek ! k) t"
      and req: "r = (zeek[k := absorbed (zeek ! k) t], done @ [t\<lparr>sd_matched := True\<rparr>])"
    have "zeek ! k = zs ! k"
      using list_all2_nthD2 [OF Cons.prems(3) k(1)] k(2) by (auto simp: absorbs_def absorbed_def)
    then have "absorbs (insert t S) (zs ! k) (absorbed (zeek ! k) t)" using k(3) by (auto simp: absorbs_def)
    then have "list_all2 (absorbs (insert t S)) zs (zeek[k := absorbed (zeek ! k) t])"
      using list_all2_update_cong [OF mono, of "zs ! k" "absorbed (zeek ! k) t" k] by simp
    moreover have "length (filter sd_matched (zeek[k := absorbed (zeek ! k) t])) = Suc (length (filter sd_matched zeek))"
      using k(1,2) by (intro filter_update_length) (simp_all add: absorbed_def)
    ultimately show ?thesis
      using Cons.IH [of "zeek[k := absorbed (zeek ! k) t]" "done @ [t\<lparr>sd_matched := True\<rparr>]" "insert t S"]
        r(2) req t(2) Cons.prems(4,5)
      by (auto simp: flagged_def)
  qed
qed simp

lemma flagged_rest:
  assumes "list_all2 flagged ts ms" and "list_all (\<lambda>t. \<not> sd_matched t) ts"
  shows "subseq (filter (\<lambda>m. \<not> sd_matched m) ms) ts"
  using assms by (induction rule: list_all2_induct) (auto simp: flagged_def)

lemma filter_count: "length (filter P xs) + length (filter (\<lambda>x. \<not> P x) xs) = length xs"
  by (rule sum_length_filter_compl)

lemma merge_events_spec:
  assumes "merge_events zeek ts = Inr m" and "list_all mergeable ts" and "list_all (\<lambda>z. \<not> sd_matched z) zeek"
  obtains zeek' rest where "mset m = mset zeek' + mset rest" and "list_all2 (absorbs (set ts)) zeek zeek'"
    and "subseq rest ts" and "length rest + length (filter sd_matched zeek') = length ts"
    and "sorted (map (\<lambda>i. (sd_ts i, sd_order i)) m)"
proof -
  obtain zeek' done' where f: "foldE merge_step ts (zeek, []) = Inr (zeek', done')"
    and m: "m = sort_key (\<lambda>i. (sd_ts i, sd_order i)) (zeek' @ filter (\<lambda>t. \<not> sd_matched t) done')"
    using assms(1) by (auto simp: merge_events_def py_simps)
  have un: "list_all (\<lambda>t. \<not> sd_matched t) ts" using assms(2) by (auto simp: list_all_iff mergeable_def)
  have "list_all2 (absorbs {}) zeek zeek" by (rule list_all2_refl) (simp add: absorbs_def)
  moreover have "length (filter sd_matched zeek) = 0" using assms(3) by (auto simp: list_all_iff)
  ultimately have g: "list_all2 (absorbs (set ts)) zeek zeek'" "length (filter sd_matched zeek') = length (filter sd_matched done')"
    "list_all2 flagged ts done'"
    using merge_fold [OF f assms(2) _ assms(3), of "{}"] by auto
  have "length (filter sd_matched done') + length (filter (\<lambda>t. \<not> sd_matched t) done') = length ts"
    using filter_count [of sd_matched done'] list_all2_lengthD [OF g(3)] by simp
  then show thesis
    using that [of zeek' "filter (\<lambda>t. \<not> sd_matched t) done'"] g flagged_rest [OF g(3) un] m by simp
qed

lemma best_loop_total:
  "list_all (\<lambda>c. private_event (sd_event c)) cs \<Longrightarrow> \<exists>r. best_loop extra i cs best d = Inr r"
proof (induction extra i cs best d rule: best_loop.induct)
  case (2 extra i c cs best d)
  then obtain b where "compatible (sd_event c) (sd_event extra) = Inr b" using compatible_total by fastforce
  with 2 show ?case by (auto simp: Let_def)
qed simp

abbreviation private_stamps :: "stamped list \<Rightarrow> bool" where
  "private_stamps \<equiv> list_all (\<lambda>c. private_event (sd_event c))"

lemma merge_step_private:
  assumes "private_stamps zeek" and "private_stamps done" and "private_event (sd_event t)"
  shows "\<exists>zeek' done'. merge_step t (zeek, done) = Inr (zeek', done') \<and> private_stamps zeek' \<and> private_stamps done'"
proof -
  obtain best where best: "best_loop t 0 zeek None 2 = Inr best" using best_loop_total [OF assms(1)] by blast
  have "private_stamps (zeek[i := (zeek ! i)\<lparr>sd_event := with_tshark_evidence (sd_event (zeek ! i)) (sd_event t),
      sd_matched := True\<rparr>])" if "i < length zeek" for i
    using assms that private_with_evidence by (auto simp: list_all_length nth_list_update)
  then show ?thesis using assms best best_loop_spec [of t 0 zeek None 2]
    by (cases best) (auto simp: merge_step_def)
qed

lemma merge_events_private:
  assumes "private_stamps zeek" and "private_stamps ts"
  shows "\<exists>m. merge_events zeek ts = Inr m \<and> private_stamps m"
proof -
  have total: "\<exists>zeek' done'. foldE merge_step ts (zeek, done) = Inr (zeek', done') \<and> private_stamps zeek' \<and> private_stamps done'"
    if "private_stamps done" for "done"
    using assms that
  proof (induction ts arbitrary: zeek "done")
    case (Cons t ts)
    then show ?case using merge_step_private [of zeek "done" t] by fastforce
  qed simp
  obtain zeek' done' where "foldE merge_step ts (zeek, []) = Inr (zeek', done')" "private_stamps zeek'" "private_stamps done'"
    using total [of "[]"] by auto
  then show ?thesis by (auto simp: merge_events_def list_all_iff)
qed

lemma bound_events_subset: "set (bound_events previous n items) \<subseteq> sd_event ` set items"
  by (induction previous n items rule: bound_events.induct) auto

lemma bound_events_length: "length (bound_events previous n items) \<le> 256 - n"
  by (induction previous n items rule: bound_events.induct) auto

section \<open>The two loops\<close>

lemma get_list_group_step: "get_list (group_step k v d) u = (if u = k then get_list d k @ [v] else get_list d u)"
  by (simp add: get_list_def group_step_get split: option.split)

lemma get_list_Nil [simp]: "get_list [] u = []"
  by (simp add: get_list_def)

definition good_stamp :: "string \<Rightarrow> stamped \<Rightarrow> bool" where
  "good_stamp uid i = (sd_uid i = uid \<and> private_event (sd_event i) \<and> \<not> sd_matched i)"

text \<open>Where a protocol identification comes from.\<close>

definition row_confirms :: "json_row \<Rightarrow> string \<Rightarrow> mail_protocol \<Rightarrow> bool" where
  "row_confirms row uid p = (as_text 64 (row_get row ''uid'') = Some uid
     \<and> protocol_from_name (as_text 16 (row_get row ''protocol'')) = Some p
     \<and> (\<exists>k. kind_from_name (as_text 32 (row_get row ''event_type'')) = Some k \<and> k \<noteq> SK_AMBIGUOUS_BANNER))"

definition frame_confirms :: "flow list \<Rightarrow> json_row \<Rightarrow> string \<Rightarrow> mail_protocol \<Rightarrow> bool" where
  "frame_confirms flows frame uid p = (match_frame_uid frame flows = Inr (Some uid) \<and> tshark_protocol frame = Some p)"

definition hello_frame :: "flow list \<Rightarrow> json_row \<Rightarrow> string \<Rightarrow> nat \<Rightarrow> bool" where
  "hello_frame flows frame uid n = (match_frame_uid frame flows = Inr (Some uid) \<and> is_client_hello_frame frame
     \<and> as_int (row_get frame ''frame.number'') = Inr (Some n) \<and> 1 \<le> n)"

definition zeek_inv :: "json_row list \<Rightarrow> zeek_acc \<Rightarrow> bool" where
  "zeek_inv rows a =
    ((\<forall>uid. list_all (good_stamp uid) (get_list (za_events a) uid))
     \<and> (\<forall>uid p. p \<in> set (get_list (za_confirming a) uid) \<longrightarrow> (\<exists>row \<in> set rows. row_confirms row uid p)))"

definition tshark_inv :: "flow list \<Rightarrow> json_row list \<Rightarrow> tshark_acc \<Rightarrow> bool" where
  "tshark_inv flows frames a =
    ((\<forall>uid. list_all (good_stamp uid) (get_list (ta_events a) uid))
     \<and> (\<forall>uid p. p \<in> set (get_list (ta_protocols a) uid) \<longrightarrow> (\<exists>frame \<in> set frames. frame_confirms flows frame uid p))
     \<and> (\<forall>uid n. n \<in> set (get_list (ta_hello a) uid) \<longrightarrow> (\<exists>frame \<in> set frames. hello_frame flows frame uid n)))"

lemma event_kind: "event_from_email_row row = Inr (Some e) \<Longrightarrow> kind_from_name (as_text 32 (row_get row ''event_type'')) = Some (pe_kind e)"
  by (auto simp: event_from_email_row_def Let_def py_simps mk_event_def split: option.splits)

lemma zeek_step_cases:
  assumes "zeek_step flow_by_uid row a = Inr b"
  obtains "b = a"
  | uid e ts where "as_text 64 (row_get row ''uid'') = Some uid" and "event_from_email_row row = Inr (Some e)"
      and "map_of flow_by_uid uid \<noteq> None"
      and "b = add_zeek uid ts (protocol_from_name (as_text 16 (row_get row ''protocol''))) e a"
proof (cases "as_text 64 (row_get row ''uid'')")
  case None
  then show thesis using assms that(1) by (simp add: zeek_step_def)
next
  case (Some uid)
  show thesis
  proof (cases "map_of flow_by_uid uid = None")
    case True
    then show thesis using assms that(1) Some by (simp add: zeek_step_def)
  next
    case False
    then obtain event where ev: "event_from_email_row row = Inr event"
      using assms Some by (auto simp: zeek_step_def py_simps)
    show thesis
    proof (cases "\<exists>e. event = Some e \<and> \<not> is_duplicate_capability (map_of (za_previous a) uid) e")
      case True
      then obtain e where e: "event = Some e" "\<not> is_duplicate_capability (map_of (za_previous a) uid) e" by blast
      then obtain ts where "as_float (row_get row ''ts'') = Inr ts"
        using assms Some False ev by (auto simp: zeek_step_def py_simps)
      then show thesis using assms Some False ev e that(2) [OF Some _ False] by (auto simp: zeek_step_def)
    next
      case no: False
      then show thesis using assms Some False ev that(1) by (cases event) (simp_all add: zeek_step_def)
    qed
  qed
qed

lemma zeek_step_inv:
  assumes "row \<in> set rows" and "zeek_inv rows a" and "zeek_step flow_by_uid row a = Inr b"
  shows "zeek_inv rows b"
  using assms(3)
proof (rule zeek_step_cases)
  fix uid e ts
  assume 1: "as_text 64 (row_get row ''uid'') = Some uid" "event_from_email_row row = Inr (Some e)"
    and b: "b = add_zeek uid ts (protocol_from_name (as_text 16 (row_get row ''protocol''))) e a"
  have "good_stamp uid \<lparr>sd_ts = t, sd_order = n, sd_uid = uid, sd_protocol = p, sd_event = e, sd_matched = False\<rparr>" for t n p
    using 1 by (simp add: good_stamp_def private_email_event)
  moreover have "\<exists>row \<in> set rows. row_confirms row uid p"
    if "protocol_from_name (as_text 16 (row_get row ''protocol'')) = Some p" "pe_kind e \<noteq> SK_AMBIGUOUS_BANNER" for p
    using that 1 assms(1) event_kind [of row e] by (auto simp: row_confirms_def)
  ultimately show ?thesis using assms(2) unfolding b
    by (auto simp: zeek_inv_def add_zeek_def Let_def get_list_group_step split: option.splits if_splits)
qed (use assms(2) in simp)

lemma note_hello_cases:
  assumes "note_hello uid frame a = Inr b"
  shows "b = a \<or> (\<exists>n. is_client_hello_frame frame \<and> as_int (row_get frame ''frame.number'') = Inr (Some n) \<and> 1 \<le> n
      \<and> b = a\<lparr>ta_hello := group_step uid n (ta_hello a)\<rparr>)"
  using assms by (auto simp: note_hello_def py_simps split: option.splits if_splits)

lemma tshark_step_inv:
  assumes "frame \<in> set frames" and "tshark_inv flows frames a" and "tshark_step flows zs frame a = Inr b"
  shows "tshark_inv flows frames b"
proof (cases "match_frame_uid frame flows = Inr None")
  case True
  then show ?thesis using assms(2,3) by (simp add: tshark_step_def)
next
  case False
  then obtain uid c where uid: "match_frame_uid frame flows = Inr (Some uid)"
    and c: "note_hello uid frame (a\<lparr>ta_used := True\<rparr>) = Inr c"
    using assms(3) by (auto simp: tshark_step_def py_simps split: option.splits)
  have inv: "tshark_inv flows frames c"
    using note_hello_cases [OF c] assms(1,2) uid
    by (auto simp: tshark_inv_def get_list_group_step hello_frame_def split: if_splits)
  let ?d = "\<lambda>p. c\<lparr>ta_protocols := group_step uid p (ta_protocols c)\<rparr>"
  have d: "tshark_inv flows frames (?d p)" if "tshark_protocol frame = Some p" for p
    using inv that assms(1) uid by (auto simp: tshark_inv_def get_list_group_step frame_confirms_def)
  consider "b = c" | p where "tshark_protocol frame = Some p" "b = ?d p"
    | p e ts where "tshark_protocol frame = Some p" "tshark_event frame p = Inr (Some e)" "b = add_tshark zs uid ts p e (?d p)"
    using assms(3) uid c by (auto simp: tshark_step_def py_simps Let_def split: option.splits)
  then show ?thesis
  proof cases
    case 3
    have "good_stamp uid \<lparr>sd_ts = t, sd_order = n, sd_uid = uid, sd_protocol = q, sd_event = e, sd_matched = False\<rparr>" for t n q
      using private_tshark_event [OF 3(2)] by (simp add: good_stamp_def)
    then show ?thesis using d [OF 3(1)] unfolding 3(3)
      by (auto simp: tshark_inv_def add_tshark_def Let_def get_list_group_step)
  qed (use inv d in simp_all)
qed

section \<open>Errors\<close>

lemma frame_number_ok:
  assumes "frame_number_of frame = Inr n"
  shows "case n of None \<Rightarrow> True | Some k \<Rightarrow> 1 \<le> k"
proof -
  obtain m where "n = (case m of None \<Rightarrow> None | Some k \<Rightarrow> if k < 1 then None else Some k)"
    using assms unfolding frame_number_of_def bindE_eq_Inr by blast
  then show ?thesis by (cases m) simp_all
qed

lemma mk_request_total:
  assumes "frame_number_of frame = Inr n"
  shows "mk_event (tshark_request command n tag) = Inr (tshark_request command n tag)"
    and "mk_event (tshark_reply code text n tag) = Inr (tshark_reply code text n tag)"
  using frame_number_ok [OF assms]
  by (simp_all only: mk_event_def protocol_event_ok_def tshark_request_def tshark_reply_def protocol_event.simps check_model_simps)

lemma frame_number_error: "frame_number_of frame = Inl e \<Longrightarrow> e = ValueError"
  by (auto simp: frame_number_of_def py_simps dest: as_int_error)

lemma tshark_event_error:
  assumes "tshark_event frame p = Inl e"
  shows "e = ValueError"
proof (cases "frame_number_of frame")
  case (Inl d)
  then show ?thesis using assms frame_number_error by (simp add: tshark_event_def)
next
  case (Inr n)
  note total = mk_request_total [OF Inr]
  show ?thesis
  proof (cases p)
    case MP_SMTP
    then show ?thesis using assms Inr as_int_error
      by (cases "as_int (row_get frame ''smtp.response.code'')")
         (auto simp: tshark_event_def Let_def total split: option.splits)
  qed (use assms Inr in \<open>simp_all add: tshark_event_def Let_def total split: option.splits\<close>)
qed

lemma email_event_error: "event_from_email_row row = Inl e \<Longrightarrow> e = ValueError"
  by (auto simp: event_from_email_row_def Let_def py_simps mk_event_def protocol_event_ok_def dest: as_int_error split: option.splits)

lemma as_float_error: "as_float v = Inl e \<Longrightarrow> e = OverflowError"
  by (cases v) (auto split: if_splits)

lemma zeek_step_error: "zeek_step flow_by_uid row a = Inl e \<Longrightarrow> e \<in> {ValueError, OverflowError}"
  by (auto simp: zeek_step_def py_simps dest: email_event_error as_float_error split: option.splits if_splits)

lemma match_frame_error: "match_frame_uid frame flows = Inl e \<Longrightarrow> e = ValueError"
  by (auto simp: match_frame_uid_def frame_endpoints_def Let_def py_simps dest: as_int_error split: if_splits list.splits)

lemma note_hello_error: "note_hello uid frame a = Inl e \<Longrightarrow> e = ValueError"
  by (auto simp: note_hello_def py_simps dest: as_int_error split: option.splits if_splits)

lemma tshark_step_error: "tshark_step flows zs frame a = Inl e \<Longrightarrow> e \<in> {ValueError, OverflowError}"
  by (auto simp: tshark_step_def py_simps Let_def dest: match_frame_error note_hello_error tshark_event_error as_float_error
      split: option.splits)

section \<open>Sessions\<close>

lemma assess_fields [simp]:
  "es_uid (assess_session s f ssl hello) = es_uid s"
  "es_protocol (assess_session s f ssl hello) = es_protocol s"
  "es_events (assess_session s f ssl hello) = es_events s"
  "es_port_hint (assess_session s f ssl hello) = es_port_hint s"
  by (simp_all add: assess_session_def Let_def)

lemma resolve_protocol:
  "fst (resolve_identity confirming ambiguous tshark alpn) = Some p \<longleftrightarrow>
     set confirming \<union> set tshark \<union> set (opt_list alpn) = {p}"
proof -
  let ?all = "remdups (confirming @ tshark @ opt_list alpn)"
  have set_all: "set ?all = set confirming \<union> set tshark \<union> set (opt_list alpn)" by auto
  show ?thesis
  proof (cases "tshark \<noteq> [] \<and> confirming \<noteq> [] \<and> set confirming \<noteq> set tshark")
    case True
    then have "set confirming \<union> set tshark \<union> set (opt_list alpn) \<noteq> {p}"
      by (metis Un_empty_left set_empty subset_singletonD sup.cobounded1 sup.cobounded2 sup.coboundedI1)
    then show ?thesis using True by (simp add: resolve_identity_def Let_def)
  next
    case False
    have "fst (resolve_identity confirming ambiguous tshark alpn) = (case ?all of [q] \<Rightarrow> Some q | _ \<Rightarrow> None)"
      unfolding resolve_identity_def Let_def if_not_P [OF False] by (auto split: list.split)
    also have "\<dots> = Some p \<longleftrightarrow> set ?all = {p}"
    proof (cases ?all)
      case (Cons q qs)
      then have "distinct (q # qs)" by (metis distinct_remdups)
      then show ?thesis unfolding Cons by (cases qs) auto
    qed simp
    finally show ?thesis unfolding set_all .
  qed
qed

text \<open>One emitted session.\<close>

lemma resolve_confidence:
  "case snd (snd (snd (resolve_identity c a t al))) of None \<Rightarrow> True | Some x \<Rightarrow> 0 \<le> x \<and> x \<le> 1"
  by (simp add: resolve_identity_def Let_def split: list.split)

abbreviation alpn_of :: "ssl_facts option \<Rightarrow> mail_protocol option" where
  "alpn_of ssl \<equiv> case ssl of Some s \<Rightarrow> protocol_from_alpn (sf_next_protocol s) | None \<Rightarrow> None"

lemma session_identity_spec:
  assumes "session_identity z t ssl f uid = Some (p, pe, st, conf)"
  shows "case conf of None \<Rightarrow> True | Some x \<Rightarrow> 0 \<le> x \<and> x \<le> 1"
    and "p = Some q \<Longrightarrow> q \<in> set (get_list (za_confirming z) uid) \<union> set (get_list (ta_protocols t) uid) \<union> set (opt_list (alpn_of ssl))"
proof -
  let ?r = "resolve_identity (get_list (za_confirming z) uid) (uid \<in> set (za_ambiguous z)) (get_list (ta_protocols t) uid) (alpn_of ssl)"
  obtain p' pe' st' c where r: "?r = (p', pe', st', c)" by (cases ?r) auto
  have id: "conf = c \<and> (p = p' \<or> p = alpn_of ssl \<or> p = None)"
    using assms unfolding session_identity_def Let_def r prod.case by (auto split: if_splits option.splits)
  then show "case conf of None \<Rightarrow> True | Some x \<Rightarrow> 0 \<le> x \<and> x \<le> 1"
    using resolve_confidence [of "get_list (za_confirming z) uid" "uid \<in> set (za_ambiguous z)" "get_list (ta_protocols t) uid" "alpn_of ssl"]
    unfolding r by simp
  show "q \<in> set (get_list (za_confirming z) uid) \<union> set (get_list (ta_protocols t) uid) \<union> set (opt_list (alpn_of ssl))" if "p = Some q"
    using id that resolve_protocol [of "get_list (za_confirming z) uid" "uid \<in> set (za_ambiguous z)" "get_list (ta_protocols t) uid" "alpn_of ssl" q]
    unfolding r by (auto simp: set_opt_list)
qed

lemma session_of_cases:
  assumes "session_of z t ssl_by_uid events_by_uid flow_by_uid uid = Inr (Some s)"
  obtains f s0 where "map_of flow_by_uid uid = Some f"
    and "s = assess_session s0 f (map_of ssl_by_uid uid) (get_list (ta_hello t) uid)"
    and "es_uid s0 = uid" and "es_events s0 = get_list events_by_uid uid" and "es_port_hint s0 = port_hint_for_flow f"
    and "\<And>q. es_protocol s0 = Some q \<Longrightarrow> q \<in> set (get_list (za_confirming z) uid) \<union> set (get_list (ta_protocols t) uid)
      \<union> set (opt_list (alpn_of (map_of ssl_by_uid uid)))"
proof -
  obtain f where f: "map_of flow_by_uid uid = Some f" using assms by (cases "map_of flow_by_uid uid") (auto simp: session_of_def)
  obtain p pe st conf where id: "session_identity z t (map_of ssl_by_uid uid) f uid = Some (p, pe, st, conf)"
    using assms unfolding session_of_def f option.case Let_def
    by (cases "session_identity z t (map_of ssl_by_uid uid) f uid") auto
  define s0 where "s0 = \<lparr>es_uid = uid, es_protocol = p, es_port_hint = port_hint_for_flow f, es_payload_evidence = pe,
    es_evidence_state = st, es_identification_confidence = conf, es_corroboration = session_corroboration t uid,
    es_events = get_list events_by_uid uid, es_explicit_upgrade = None, es_implicit_tls = None\<rparr>"
  have "s = assess_session s0 f (map_of ssl_by_uid uid) (get_list (ta_hello t) uid)"
    using assms unfolding session_of_def f option.case Let_def id prod.case s0_def [symmetric] by (auto simp: py_simps)
  then show thesis using session_identity_spec(2) [OF id] by (intro that [OF f, of s0]) (simp_all add: s0_def)
qed

lemma session_of_total: "\<exists>r. session_of z t ssl_by_uid events_by_uid flow_by_uid uid = Inr r"
proof (cases "map_of flow_by_uid uid")
  case (Some f)
  show ?thesis
  proof (cases "session_identity z t (map_of ssl_by_uid uid) f uid")
    case None
    then show ?thesis using Some by (simp add: session_of_def)
  next
    case id: (Some i)
    obtain p pe st conf where i: "i = (p, pe, st, conf)" by (cases i) auto
    have "session_corroboration t uid \<in> {''zeek'', ''zeek+tshark''}" by (simp add: session_corroboration_def Let_def)
    then show ?thesis unfolding session_of_def Some option.case Let_def id i prod.case
      using session_identity_spec(1) [OF id [unfolded i]] by (simp add: email_session_ok_def)
  qed
qed (simp add: session_of_def)

lemma mapE_keys:
  assumes "mapE f us = Inr os" and "\<And>u s. f u = Inr (Some s) \<Longrightarrow> key s = u" and "distinct us"
  shows "distinct (map key (List.map_filter (\<lambda>x. x) os)) \<and> set (map key (List.map_filter (\<lambda>x. x) os)) \<subseteq> set us"
  using assms(1,3)
proof (induction us arbitrary: os)
  case (Cons u us)
  then obtain r rs where r: "f u = Inr r" "mapE f us = Inr rs" "os = r # rs" by (auto simp: py_simps)
  then show ?case using Cons.IH [OF r(2)] Cons.prems(2) assms(2) [of u]
    by (cases r) (auto simp: List.map_filter_def)
qed (simp add: List.map_filter_def)

lemma py_unique [simp]: "distinct (py_unique xs)" "set (py_unique xs) = set xs"
  by (simp_all add: py_unique_def)

text \<open>What a run of the normalizer consists of.\<close>

definition normalized :: "(string, json) dict \<Rightarrow> flow list \<Rightarrow> json \<Rightarrow> zeek_acc \<Rightarrow> tshark_acc \<Rightarrow> (string \<times> protocol_event list) list
    \<Rightarrow> email_session list \<Rightarrow> bool" where
  "normalized logs flows frames z t events ss =
    (zeek_inv (bounded_records (logs_get logs ''sm_email.log'')) z \<and> tshark_inv flows (bounded_records frames) t
     \<and> (\<forall>uid es. (uid, es) \<in> set events \<longrightarrow> session_events z t uid = Inr es)
     \<and> (\<forall>s \<in> set ss. session_of z t (ssl_facts_of logs) events (dict_of_last fl_uid flows) (es_uid s) = Inr (Some s))
     \<and> distinct (map es_uid ss) \<and> sorted (map (session_key (dict_of_last fl_uid flows)) ss))"

lemma normalize_sessions_cases:
  assumes "normalize_sessions logs flows frames = Inr ss"
  obtains z t events where "normalized logs flows frames z t events ss"
proof -
  let ?fl = "dict_of_last fl_uid flows"
  obtain z t events os where z: "foldE (zeek_step ?fl) (bounded_records (logs_get logs ''sm_email.log'')) zeek_init = Inr z"
    and t: "foldE (tshark_step flows (za_events z)) (bounded_records frames) (tshark_init z) = Inr t"
    and ev: "mapE (\<lambda>uid. bindE (session_events z t uid) (\<lambda>es. Inr (uid, es)))
        (py_unique (ta_seen t @ map fst (ta_protocols t) @ map fst (ssl_facts_of logs))) = Inr events"
    and os: "mapE (session_of z t (ssl_facts_of logs) events ?fl) (py_unique (ta_seen t @ map fst (ta_protocols t)
        @ filter (\<lambda>uid. map_of (ssl_facts_of logs) uid \<noteq> None) (map fst ?fl))) = Inr os"
    and ss: "ss = sort_key (session_key ?fl) (List.map_filter (\<lambda>x. x) os)"
    using assms by (auto simp: normalize_sessions_def py_simps Let_def)
  have "zeek_inv (bounded_records (logs_get logs ''sm_email.log'')) z"
    using z by (rule foldE_invariant) (simp add: zeek_inv_def zeek_init_def, rule zeek_step_inv)
  moreover have "tshark_inv flows (bounded_records frames) t"
    using t by (rule foldE_invariant) (simp add: tshark_inv_def tshark_init_def, rule tshark_step_inv)
  moreover have "session_events z t uid = Inr es" if "(uid, es) \<in> set events" for uid es
    using mapE_Inr_set [OF ev that] by (auto simp: py_simps)
  moreover have uid: "session_of z t (ssl_facts_of logs) events ?fl u = Inr (Some s) \<Longrightarrow> es_uid s = u" for u s
    by (elim session_of_cases) simp
  have "session_of z t (ssl_facts_of logs) events ?fl (es_uid s) = Inr (Some s)" if "s \<in> set ss" for s
  proof -
    have "Some s \<in> set os" using that ss by (auto simp: map_filter_mem)
    then show ?thesis using mapE_Inr_set [OF os] uid by metis
  qed
  moreover have "distinct (map es_uid ss)"
  proof -
    have "distinct (map es_uid (List.map_filter (\<lambda>x. x) os))" using mapE_keys [OF os uid] by simp
    then show ?thesis unfolding ss by (metis mset_map mset_sort mset_eq_imp_distinct_iff)
  qed
  moreover have "sorted (map (session_key ?fl) ss)" by (simp add: ss)
  ultimately have "normalized logs flows frames z t events ss" unfolding normalized_def by blast
  then show thesis by (rule that)
qed

lemma session_events_private:
  assumes "\<forall>uid. list_all (good_stamp uid) (get_list (za_events z) uid)" and "\<forall>uid. list_all (good_stamp uid) (get_list (ta_events t) uid)"
  shows "\<exists>es. session_events z t uid = Inr es \<and> list_all private_event es \<and> length es \<le> 256"
proof -
  have "private_stamps (get_list (za_events z) uid)" "private_stamps (get_list (ta_events t) uid)"
    using assms by (auto simp: good_stamp_def list_all_iff)
  then obtain m where "merge_events (get_list (za_events z) uid) (get_list (ta_events t) uid) = Inr m" "private_stamps m"
    using merge_events_private by blast
  then show ?thesis using bound_events_subset [of None 0 m] bound_events_length [of None 0 m]
    by (auto simp: session_events_def list_all_iff)
qed

lemma ssl_facts_row:
  assumes "map_of (ssl_facts_of logs) uid = Some facts"
  shows "\<exists>row \<in> set (bounded_records (logs_get logs ''ssl.log'')). as_text 64 (row_get row ''uid'') = Some uid
    \<and> sf_client_hello facts = (CHR ''C'' \<in> set (or_str (as_text 64 (row_get row ''ssl_history'')) []))
    \<and> sf_next_protocol facts = as_text 32 (row_get row ''next_protocol'')"
proof -
  have "\<exists>row \<in> set rows. as_text 64 (row_get row ''uid'') = Some uid
    \<and> sf_client_hello facts = (CHR ''C'' \<in> set (or_str (as_text 64 (row_get row ''ssl_history'')) []))
    \<and> sf_next_protocol facts = as_text 32 (row_get row ''next_protocol'')"
    if "map_of (fold ssl_step rows []) uid = Some facts" for rows
    using that
  proof (induction rows rule: rev_induct)
    case (snoc row rows)
    then show ?case
      by (cases "as_text 64 (row_get row ''uid'')") (auto simp: ssl_step_def Let_def update_conv' split: if_splits)
  qed simp
  then show ?thesis using assms by (simp add: ssl_facts_of_def)
qed

section \<open>Samples\<close>

definition sample_email_logs :: "(string, json) dict" where
  "sample_email_logs =
    [(''sm_email.log'', JList
       [JObj [(''uid'', JStr ''C1''), (''event_type'', JStr ''request''), (''protocol'', JStr ''smtp''),
          (''command'', JStr ''starttls''), (''is_orig'', JBool True), (''ts'', JFloat 1)],
        JObj [(''uid'', JStr ''C1''), (''event_type'', JStr ''starttls''), (''protocol'', JStr ''smtp''), (''ts'', JFloat 2)],
        JObj [(''uid'', JStr ''C1''), (''event_type'', JStr ''request''), (''protocol'', JStr ''smtp''),
          (''command'', JStr ''auth''), (''argument'', JStr ''hunter2''), (''ts'', JFloat 3)]]),
     (''ssl.log'', JList [JObj [(''uid'', JStr ''C1''), (''ssl_history'', JStr ''Cs'')]])]"

definition sample_mail_event :: "session_event_kind \<Rightarrow> string option \<Rightarrow> string option \<Rightarrow> protocol_event" where
  "sample_mail_event kind command argument = \<lparr>pe_direction = SD_ORIG, pe_kind = kind, pe_command = command,
     pe_argument = argument, pe_reply_code = None, pe_text = None, pe_frame_number = None, pe_source = Some SRC_ZEEK, pe_tag = None\<rparr>"

lemma sample_case:
  "py_upper ''starttls'' = ''STARTTLS''" "py_upper ''auth'' = ''AUTH''" "py_upper ''STARTTLS'' = ''STARTTLS''" "py_upper ''AUTH'' = ''AUTH''"
  "py_lower ''request'' = ''request''" "py_lower ''starttls'' = ''starttls''" "py_lower ''smtp'' = ''smtp''"
  by code_simp+

lemmas row_eval = row_get_def kind_from_name_def all_event_kinds_def sample_case
  redact_def bound_text_def py_strip_def is_space_def secret_commands_def event_direction_def mk_event_def protocol_event_ok_def
  event_from_email_row_def protocol_from_name_def

lemma sample_rows: "bounded_records (logs_get sample_email_logs ''sm_email.log'') =
  [[(''uid'', JStr ''C1''), (''event_type'', JStr ''request''), (''protocol'', JStr ''smtp''),
          (''command'', JStr ''starttls''), (''is_orig'', JBool True), (''ts'', JFloat 1)],
        [(''uid'', JStr ''C1''), (''event_type'', JStr ''starttls''), (''protocol'', JStr ''smtp''), (''ts'', JFloat 2)],
        [(''uid'', JStr ''C1''), (''event_type'', JStr ''request''), (''protocol'', JStr ''smtp''),
          (''command'', JStr ''auth''), (''argument'', JStr ''hunter2''), (''ts'', JFloat 3)]]"
  by (simp add: sample_email_logs_def logs_get_def List.map_filter_def)

lemma sample_flows: "dict_of_last fl_uid [sample_flow] = [(''C1'', sample_flow)]"
  by (simp add: dict_of_last_def sample_flow_def)

lemma sample_row1: "event_from_email_row [(''uid'', JStr ''C1''), (''event_type'', JStr ''request''), (''protocol'', JStr ''smtp''),
          (''command'', JStr ''starttls''), (''is_orig'', JBool True), (''ts'', JFloat 1)] = Inr (Some (sample_mail_event SK_REQUEST (Some ''STARTTLS'') None))"
  by (simp add: row_eval sample_mail_event_def)
lemma sample_row3: "event_from_email_row [(''uid'', JStr ''C1''), (''event_type'', JStr ''request''), (''protocol'', JStr ''smtp''),
          (''command'', JStr ''auth''), (''argument'', JStr ''hunter2''), (''ts'', JFloat 3)] = Inr (Some (sample_mail_event SK_REQUEST (Some ''AUTH'') (Some redacted_mark)))"
  by (simp add: row_eval sample_mail_event_def)
lemma sample_row2: "event_from_email_row [(''uid'', JStr ''C1''), (''event_type'', JStr ''starttls''), (''protocol'', JStr ''smtp''), (''ts'', JFloat 2)]
   = Inr (Some (sample_mail_event SK_STARTTLS None None))"
  by (simp add: row_eval sample_mail_event_def)

definition sample_zeek_acc :: zeek_acc where
  "sample_zeek_acc = (let stamp = \<lambda>ts n e. \<lparr>sd_ts = ts, sd_order = n, sd_uid = ''C1'', sd_protocol = Some MP_SMTP, sd_event = e, sd_matched = False\<rparr> in
    \<lparr>za_events = [(''C1'', [stamp 1 0 (sample_mail_event SK_REQUEST (Some ''STARTTLS'') None), stamp 2 1 (sample_mail_event SK_STARTTLS None None),
       stamp 3 2 (sample_mail_event SK_REQUEST (Some ''AUTH'') (Some redacted_mark))])],
     za_confirming = [(''C1'', [MP_SMTP, MP_SMTP, MP_SMTP])], za_ambiguous = [], za_seen = [''C1''], za_order = 3,
     za_previous = [(''C1'', sample_mail_event SK_REQUEST (Some ''AUTH'') (Some redacted_mark))]\<rparr>)"

lemma sample_zeek_run: "foldE (zeek_step [(''C1'', sample_flow)]) (bounded_records (logs_get sample_email_logs ''sm_email.log'')) zeek_init = Inr sample_zeek_acc"
  unfolding sample_rows foldE.simps zeek_step_def
  by (simp add: sample_row1 sample_row2 sample_row3 row_get_def zeek_init_def add_zeek_def is_duplicate_capability_def protocol_from_name_def sample_case confirming_kinds_def
     sample_zeek_acc_def sample_mail_event_def)
lemma sample_ssl: "ssl_facts_of sample_email_logs = [(''C1'', \<lparr>sf_client_hello = True, sf_next_protocol = None\<rparr>)]"
  by (simp add: ssl_facts_of_def sample_email_logs_def logs_get_def List.map_filter_def ssl_step_def row_get_def or_str_def)
lemma sample_events: "session_events sample_zeek_acc (tshark_init sample_zeek_acc) ''C1'' = Inr [sample_mail_event SK_REQUEST (Some ''STARTTLS'') None, sample_mail_event SK_STARTTLS None None,
       sample_mail_event SK_REQUEST (Some ''AUTH'') (Some redacted_mark)]"
  by (simp add: session_events_def merge_events_def sample_zeek_acc_def tshark_init_def get_list_def is_duplicate_capability_def sample_mail_event_def)

definition sample_mail_session :: email_session where
  "sample_mail_session = \<lparr>es_uid = ''C1'', es_protocol = Some MP_SMTP, es_port_hint = PH_SMTP, es_payload_evidence = PE_SMTP,
     es_evidence_state = ES_OBSERVED, es_identification_confidence = None, es_corroboration = ''zeek'',
     es_events = [sample_mail_event SK_REQUEST (Some ''STARTTLS'') None, sample_mail_event SK_STARTTLS None None,
       sample_mail_event SK_REQUEST (Some ''AUTH'') (Some redacted_mark)],
     es_explicit_upgrade = Some \<lparr>eu_state = Some US_TLS_ESTABLISHED, eu_evidence_state = ES_OBSERVED,
       eu_evidence_frames = [], eu_downgrade_consistent = False\<rparr>,
     es_implicit_tls = Some \<lparr>it_correlated_protocol = None, it_evidence_state = ES_NOT_OBSERVABLE, it_source = None,
       it_evidence_frames = []\<rparr>\<rparr>"
lemma sample_session_of: "session_of sample_zeek_acc (tshark_init sample_zeek_acc) [(''C1'', \<lparr>sf_client_hello = True, sf_next_protocol = None\<rparr>)]
   [(''C1'', [sample_mail_event SK_REQUEST (Some ''STARTTLS'') None, sample_mail_event SK_STARTTLS None None,
       sample_mail_event SK_REQUEST (Some ''AUTH'') (Some redacted_mark)])] [(''C1'', sample_flow)] ''C1'' = Inr (Some sample_mail_session)"
  by (simp add: session_of_def session_identity_def resolve_identity_def sample_zeek_acc_def tshark_init_def get_list_def session_corroboration_def
    implicit_tls_ports_def protocol_from_alpn_def email_session_ok_def sample_mail_session_def assess_session_def correlate_implicit_tls_def client_hello_seen_def
    port_hint_for_flow_def smtp_upgrade_def smtp_step_def smtp_capabilities_def is_capability_reply_def is_starttls_advertisement_def
  smtp_capability_commands_def smtp_credential_commands_def smtp_harmless_commands_def ev_text_def ev_command_def or_str_def py_split_ws_def
  upgrade_init_def finish_upgrade_def observe_plain_def add_frame_def sample_mail_event_def sample_flow_def sample_case)

lemma sample_sessions: "normalize_sessions sample_email_logs [sample_flow] JNull = Inr [sample_mail_session]"
proof -
  have k: "ta_seen (tshark_init sample_zeek_acc) = [''C1'']" "ta_protocols (tshark_init sample_zeek_acc) = []" by (simp_all add: tshark_init_def sample_zeek_acc_def)
  show ?thesis unfolding normalize_sessions_def Let_def sample_flows sample_ssl sample_zeek_run bindE_simps bounded_records.simps foldE.simps k
  by (simp add: py_unique_def sample_events sample_session_of List.map_filter_def)
qed
section \<open>Properties\<close>

text \<open>C4: No secret reaches a session. Every event of a session has at most 128 characters of argument and of text,
  and if its command may carry credentials or addresses (AUTH, LOGIN, USER, PASS, APOP, MAIL, RCPT and the like), argument
  and text are absent or redacted, also after the merge with TShark; a session holds at most 256 events.\<close>

theorem sessions_keep_secrets:
  assumes "normalize_sessions logs flows frames = Inr ss" and "s \<in> set ss" and "e \<in> set (es_events s)"
  shows "(\<forall>t. pe_argument e = Some t \<or> pe_text e = Some t \<longrightarrow>
      length t \<le> 128 \<and> (secret_command (pe_command e) \<longrightarrow> t = ''<redacted>''))
    \<and> length (es_events s) \<le> 256"
proof -
  obtain z t events where n: "normalized logs flows frames z t events ss"
    using normalize_sessions_cases [OF assms(1)] .
  then have "session_of z t (ssl_facts_of logs) events (dict_of_last fl_uid flows) (es_uid s) = Inr (Some s)"
    using assms(2) by (simp add: normalized_def)
  then have "es_events s = get_list events (es_uid s)" by (elim session_of_cases) (metis assess_fields(3))
  then obtain es where es: "(es_uid s, es) \<in> set events" "es_events s = es"
    using assms(3) by (auto simp: get_list_def dest: map_of_SomeD split: option.splits)
  then have "session_events z t (es_uid s) = Inr es" using n by (simp add: normalized_def)
  then have "list_all private_event es" "length es \<le> 256"
    using session_events_private [of z t "es_uid s"] n by (auto simp: normalized_def zeek_inv_def tshark_inv_def)
  then show ?thesis using es(2) assms(3) by (auto simp: list_all_iff private_event_def clean_text_def)
qed

theorem sessions_keep_secrets_witness:
  "pe_argument (sample_mail_event SK_REQUEST (Some ''AUTH'') (Some redacted_mark)) = Some ''<redacted>''
     \<and> length (es_events sample_mail_session) \<le> 256"
proof -
  let ?e = "sample_mail_event SK_REQUEST (Some ''AUTH'') (Some redacted_mark)"
  have "?e \<in> set (es_events sample_mail_session)" by (simp add: sample_mail_session_def)
  moreover have "secret_command (pe_command ?e)"
    by (simp add: secret_command_def sample_mail_event_def sample_case secret_commands_def)
  moreover have "\<exists>t. pe_argument ?e = Some t" by (simp add: sample_mail_event_def)
  ultimately show ?thesis using sessions_keep_secrets [OF sample_sessions list.set_intros(1)] by blast
qed

text \<open>The protocol of a session always rests on payload or on the negotiated ALPN, never on a port: some \<open>sm_email.log\<close>
  row of the connection other than an ambiguous banner names it, or a TShark frame that only this connection
  can have carried speaks it, or the connection's TLS selected it.\<close>

theorem session_protocol_evidence:
  assumes "normalize_sessions logs flows frames = Inr ss" and "s \<in> set ss" and "es_protocol s = Some p"
  shows "(\<exists>row \<in> set (bounded_records (logs_get logs ''sm_email.log'')). row_confirms row (es_uid s) p)
    \<or> (\<exists>frame \<in> set (bounded_records frames). frame_confirms flows frame (es_uid s) p)
    \<or> (\<exists>row \<in> set (bounded_records (logs_get logs ''ssl.log'')). as_text 64 (row_get row ''uid'') = Some (es_uid s)
         \<and> protocol_from_alpn (as_text 32 (row_get row ''next_protocol'')) = Some p)"
proof -
  obtain z t events where n: "normalized logs flows frames z t events ss"
    using normalize_sessions_cases [OF assms(1)] .
  then have "session_of z t (ssl_facts_of logs) events (dict_of_last fl_uid flows) (es_uid s) = Inr (Some s)"
    using assms(2) by (simp add: normalized_def)
  then have "p \<in> set (get_list (za_confirming z) (es_uid s)) \<union> set (get_list (ta_protocols t) (es_uid s))
      \<union> set (opt_list (alpn_of (map_of (ssl_facts_of logs) (es_uid s))))"
    using assms(3) by (elim session_of_cases) (metis assess_fields(1,2))
  moreover have "\<exists>row \<in> set (bounded_records (logs_get logs ''ssl.log'')). as_text 64 (row_get row ''uid'') = Some (es_uid s)
         \<and> protocol_from_alpn (as_text 32 (row_get row ''next_protocol'')) = Some p"
    if alpn: "p \<in> set (opt_list (alpn_of (map_of (ssl_facts_of logs) (es_uid s))))"
  proof -
    obtain facts where "map_of (ssl_facts_of logs) (es_uid s) = Some facts" "protocol_from_alpn (sf_next_protocol facts) = Some p"
      using alpn by (cases "map_of (ssl_facts_of logs) (es_uid s)") (simp_all add: set_opt_list)
    then show ?thesis using ssl_facts_row [of logs "es_uid s" facts] by metis
  qed
  ultimately show ?thesis using n unfolding normalized_def zeek_inv_def tshark_inv_def by blast
qed

theorem session_protocol_evidence_witness:
  "(\<exists>row \<in> set (bounded_records (logs_get sample_email_logs ''sm_email.log'')). row_confirms row ''C1'' MP_SMTP)
    \<or> (\<exists>frame \<in> set (bounded_records JNull). frame_confirms [sample_flow] frame ''C1'' MP_SMTP)
    \<or> (\<exists>row \<in> set (bounded_records (logs_get sample_email_logs ''ssl.log'')). as_text 64 (row_get row ''uid'') = Some ''C1''
         \<and> protocol_from_alpn (as_text 32 (row_get row ''next_protocol'')) = Some MP_SMTP)"
  using session_protocol_evidence [OF sample_sessions, of sample_mail_session MP_SMTP] by (simp add: sample_mail_session_def)

text \<open>C3: End to end, TLS is never invented. A session reported as \<open>TLS_ESTABLISHED\<close> has a ClientHello in the logs of
  its connection (a \<open>C\<close> in the history of an \<open>ssl.log\<close> row, or a TShark frame that only this connection can have
  carried), and among its events the analyzer's confirmation of the switch or a positive reply after an upgrade request.\<close>

theorem session_tls_evidence:
  assumes "normalize_sessions logs flows frames = Inr ss" and "s \<in> set ss"
    and "es_explicit_upgrade s = Some eu" and "eu_state eu = Some US_TLS_ESTABLISHED"
  shows "((\<exists>row \<in> set (bounded_records (logs_get logs ''ssl.log'')). as_text 64 (row_get row ''uid'') = Some (es_uid s)
        \<and> CHR ''C'' \<in> set (or_str (as_text 64 (row_get row ''ssl_history'')) []))
      \<or> (\<exists>frame \<in> set (bounded_records frames). \<exists>n. hello_frame flows frame (es_uid s) n))
    \<and> (\<exists>p. es_protocol s = Some p \<and> upgrade_evidenced (upgrade_request p) (positive_reply p) (es_events s))"
proof -
  obtain z t events where n: "normalized logs flows frames z t events ss"
    using normalize_sessions_cases [OF assms(1)] .
  then have "session_of z t (ssl_facts_of logs) events (dict_of_last fl_uid flows) (es_uid s) = Inr (Some s)"
    using assms(2) by (simp add: normalized_def)
  then obtain f s0 where s: "s = assess_session s0 f (map_of (ssl_facts_of logs) (es_uid s)) (get_list (ta_hello t) (es_uid s))"
    by (elim session_of_cases) simp
  let ?ssl = "map_of (ssl_facts_of logs) (es_uid s)" and ?hello = "get_list (ta_hello t) (es_uid s)"
  obtain p where p: "es_protocol s0 = Some p" "eu = protocol_upgrade p (es_events s0) (client_hello_seen ?ssl ?hello) ?hello"
    using assms(3,4) s assess_explicit [of s0 f ?ssl ?hello] by (cases "es_protocol s0") auto
  note up = upgrade_established [OF assms(4) [unfolded p(2)]]
  have "(\<exists>row \<in> set (bounded_records (logs_get logs ''ssl.log'')). as_text 64 (row_get row ''uid'') = Some (es_uid s)
        \<and> CHR ''C'' \<in> set (or_str (as_text 64 (row_get row ''ssl_history'')) []))
      \<or> (\<exists>frame \<in> set (bounded_records frames). \<exists>n. hello_frame flows frame (es_uid s) n)"
  proof (cases "?hello = []")
    case True
    then obtain facts where "?ssl = Some facts" "sf_client_hello facts"
      using up by (auto simp: client_hello_seen_def split: option.splits)
    then show ?thesis using ssl_facts_row [of logs "es_uid s" facts] by blast
  next
    case False
    then obtain k where "k \<in> set ?hello" by (cases ?hello) auto
    then have "\<exists>frame \<in> set (bounded_records frames). hello_frame flows frame (es_uid s) k"
      using n unfolding normalized_def tshark_inv_def by blast
    then show ?thesis by blast
  qed
  moreover have "es_protocol s = Some p" "es_events s = es_events s0" using s p(1) assess_fields(2,3) by metis+
  ultimately show ?thesis using up by auto
qed

theorem session_tls_evidence_witness:
  "(\<exists>row \<in> set (bounded_records (logs_get sample_email_logs ''ssl.log'')). as_text 64 (row_get row ''uid'') = Some ''C1''
        \<and> CHR ''C'' \<in> set (or_str (as_text 64 (row_get row ''ssl_history'')) []))
      \<or> (\<exists>frame \<in> set (bounded_records JNull). \<exists>n. hello_frame [sample_flow] frame ''C1'' n)"
  using session_tls_evidence [OF sample_sessions, of sample_mail_session] by (simp add: sample_mail_session_def)

text \<open>The normalized sessions are one per connection, each of a known flow, in key order (protocol, addresses,
  identifier), and each hint is that of the ports of its flow.\<close>

theorem normalize_sessions_wf:
  assumes "normalize_sessions logs flows frames = Inr ss"
  shows "distinct (map es_uid ss) \<and> sorted (map (session_key (dict_of_last fl_uid flows)) ss)
    \<and> list_all (\<lambda>s. \<exists>f \<in> set flows. fl_uid f = es_uid s \<and> es_port_hint s = port_hint_for_flow f) ss"
proof -
  obtain z t events where n: "normalized logs flows frames z t events ss"
    using normalize_sessions_cases [OF assms] .
  have "\<exists>f \<in> set flows. fl_uid f = es_uid s \<and> es_port_hint s = port_hint_for_flow f" if "s \<in> set ss" for s
  proof -
    have "session_of z t (ssl_facts_of logs) events (dict_of_last fl_uid flows) (es_uid s) = Inr (Some s)"
      using n that by (simp add: normalized_def)
    then obtain f where "map_of (dict_of_last fl_uid flows) (es_uid s) = Some f" "es_port_hint s = port_hint_for_flow f"
      by (elim session_of_cases) (metis assess_fields(4))
    then show ?thesis using dict_of_last_mem by metis
  qed
  then show ?thesis using n by (auto simp: normalized_def list_all_iff)
qed

theorem normalize_sessions_wf_witness:
  "list_all (\<lambda>s. \<exists>f \<in> set [sample_flow]. fl_uid f = es_uid s \<and> es_port_hint s = port_hint_for_flow f) [sample_mail_session]"
  using normalize_sessions_wf [OF sample_sessions] by blast

text \<open>Merging conserves events. Every Zeek event comes out, as it was or with the frame and tag of one TShark event
  that is compatible with it and at most two seconds away; each TShark event is either kept or absorbed by exactly
  one Zeek event; and the result is ordered by time, then by arrival.\<close>

theorem merge_conserves:
  assumes "merge_events zeek ts = Inr m" and "list_all mergeable ts" and "list_all (\<lambda>z. \<not> sd_matched z) zeek"
  shows "\<exists>zeek' rest. mset m = mset zeek' + mset rest \<and> list_all2 (absorbs (set ts)) zeek zeek' \<and> subseq rest ts
    \<and> length rest + length (filter sd_matched zeek') = length ts \<and> sorted (map (\<lambda>i. (sd_ts i, sd_order i)) m)"
  by (rule merge_events_spec [OF assms]) blast

definition sample_stamp :: "rat \<Rightarrow> nat \<Rightarrow> protocol_event \<Rightarrow> stamped" where
  "sample_stamp ts n e = \<lparr>sd_ts = ts, sd_order = n, sd_uid = ''C1'', sd_protocol = Some MP_SMTP, sd_event = e, sd_matched = False\<rparr>"

definition sample_zeek :: "stamped list" where
  "sample_zeek = [sample_stamp 1 0 (sample_mail_event SK_REQUEST (Some ''STARTTLS'') None)]"

definition sample_tshark :: "stamped list" where
  "sample_tshark = [sample_stamp 2 1 (sample_mail_event SK_REQUEST (Some ''STARTTLS'') None),
     sample_stamp 9 2 (sample_mail_event SK_REQUEST (Some ''QUIT'') None)]"

lemma sample_merge:
  "merge_events sample_zeek sample_tshark = Inr [absorbed (sample_zeek ! 0) (sample_tshark ! 0), sample_tshark ! 1]"
  by (simp add: merge_events_def merge_step_def sample_zeek_def sample_tshark_def sample_stamp_def sample_mail_event_def
      compatible_def ev_command_def or_str_def absorbed_def)

theorem merge_conserves_witness:
  "\<exists>zeek' rest. mset [absorbed (sample_zeek ! 0) (sample_tshark ! 0), sample_tshark ! 1] = mset zeek' + mset rest
     \<and> list_all2 (absorbs (set sample_tshark)) sample_zeek zeek' \<and> length rest + length (filter sd_matched zeek') = 2"
proof -
  have "list_all mergeable sample_tshark" "list_all (\<lambda>z. \<not> sd_matched z) sample_zeek" "length sample_tshark = 2"
    by (simp_all add: sample_zeek_def sample_tshark_def sample_stamp_def sample_mail_event_def mergeable_def)
  then show ?thesis using merge_conserves [OF sample_merge] by (simp only:) blast
qed

text \<open>The session normalizer raises nothing but \<open>ValueError\<close>, for a text of digits that \<open>int\<close> rejects, and
  \<open>OverflowError\<close>, for an integral timestamp beyond the range of a double; in particular a blank text never makes
  the merge raise.\<close>

theorem normalize_sessions_errors:
  assumes "normalize_sessions logs flows frames = Inl e"
  shows "e \<in> {ValueError, OverflowError}"
proof (rule ccontr)
  assume e: "e \<notin> {ValueError, OverflowError}"
  let ?fl = "dict_of_last fl_uid flows"
  have zs: "foldE (zeek_step ?fl) rows a \<noteq> Inl e" for rows a using foldE_Inl_ex zeek_step_error e by metis
  have ts: "foldE (tshark_step flows zs) rows a \<noteq> Inl e" for zs rows a using foldE_Inl_ex tshark_step_error e by metis
  obtain z t where z: "foldE (zeek_step ?fl) (bounded_records (logs_get logs ''sm_email.log'')) zeek_init = Inr z"
    and t: "foldE (tshark_step flows (za_events z)) (bounded_records frames) (tshark_init z) = Inr t"
    using assms zs ts by (auto simp: normalize_sessions_def bindE_eq_Inl Let_def)
  have "zeek_inv (bounded_records (logs_get logs ''sm_email.log'')) z"
    using z by (rule foldE_invariant) (simp add: zeek_inv_def zeek_init_def, rule zeek_step_inv)
  moreover have "tshark_inv flows (bounded_records frames) t"
    using t by (rule foldE_invariant) (simp add: tshark_inv_def tshark_init_def, rule tshark_step_inv)
  ultimately have "\<exists>es. session_events z t uid = Inr es" for uid
    using session_events_private [of z t uid] by (auto simp: zeek_inv_def tshark_inv_def)
  then have "\<exists>r. bindE (session_events z t uid) (\<lambda>es. Inr (uid, es) :: (string \<times> protocol_event list) result) = Inr r" for uid
    by (metis bindE_simps(2))
  then have "\<exists>events. mapE (\<lambda>uid. bindE (session_events z t uid) (\<lambda>es. Inr (uid, es))) us = Inr events" for us
    by (rule mapE_ok)
  moreover have "\<exists>r. mapE (session_of z t (ssl_facts_of logs) events ?fl) us = Inr r" for events us
    by (rule mapE_ok) (rule session_of_total)
  ultimately have "\<exists>r. normalize_sessions logs flows frames = Inr r"
    unfolding normalize_sessions_def Let_def z bindE_simps t by (metis bindE_simps(2))
  then show False using assms by simp
qed

definition overflow_logs :: "(string, json) dict" where
  "overflow_logs = [(''sm_email.log'', JList [JObj [(''uid'', JStr ''C1''), (''event_type'', JStr ''request''), (''ts'', JInt (2 ^ 1024))]])]"

lemma overflow_sessions: "normalize_sessions overflow_logs [sample_flow] JNull = Inl OverflowError"
proof -
  have "double_limit \<le> 2 ^ 1024" by (simp add: double_limit_def)
  then show ?thesis
    by (simp add: normalize_sessions_def sample_flows overflow_logs_def logs_get_def ssl_facts_of_def List.map_filter_def zeek_step_def
        row_eval is_duplicate_capability_def zeek_init_def)
qed

theorem normalize_sessions_errors_witness: "OverflowError \<in> {ValueError, OverflowError}"
  by (rule normalize_sessions_errors [OF overflow_sessions])

end
