(* ===== verification/Handshakes_Correct.thy ===== *)
theory Handshakes_Correct
  imports Handshakes
begin

text \<open>
  What the handshake normalizer guarantees: the selected version was negotiated, never merely offered; every frame
  attaches to at most one message of its kind, in order; a verdict of forward secrecy goes back to the row; and every
  row with a key becomes one handshake, unless a number in it is malformed.
\<close>

section \<open>The version\<close>

lemma find_alias: "map_of version_aliases s = Some v \<Longrightarrow> v \<in> snd ` set tls_versions"
  by (drule map_of_SomeD) (auto simp: version_aliases_def tls_versions_def)

lemma version_of_number_mem: "version_of_number j = Inr (Some v) \<Longrightarrow> v \<in> snd ` set tls_versions"
  by (auto simp: version_of_number_def py_simps bind_eq_Some_conv dest: map_of_SomeD intro: rev_image_eqI)

lemma decode_tls_version_mem: "decode_tls_version j = Inr (Some v) \<Longrightarrow> v \<in> snd ` set tls_versions"
  by (cases j; force simp only: decode_tls_version_def Let_def json.simps split: if_splits option.splits
      dest: version_of_number_mem find_alias)

lemma decode_tls_version_truthy: "decode_tls_version j = Inr v \<Longrightarrow> truthy_str v \<longleftrightarrow> v \<noteq> None"
  using decode_tls_version_mem [of j] by (cases v) (auto simp: truthy_str_def tls_versions_def)

text \<open>The version the server chose, as the row reports it: the supported-versions extension first, then the version
  of the ServerHello, then Zeek's own.\<close>

definition server_version :: "json_row \<Rightarrow> string option result" where
  "server_version row =
    bindE (decode_tls_version (row_get row ''server_supported_version'')) (\<lambda>supported.
    bindE (decode_tls_version (row_get row ''server_version'')) (\<lambda>legacy.
    bindE (decode_tls_version (row_get row ''version'')) (\<lambda>zeek.
    Inr (or_else supported (or_else legacy zeek)))))"

lemma resolve_selected:
  assumes "resolve_selected_version row h = Inr v"
  obtains chosen where "server_version row = Inr chosen"
    and "tv_selected v = (if has_server_hello h then chosen else None)"
    and "tv_evidence_state v = (if tv_selected v \<noteq> None then ES_OBSERVED
           else if CHR ''C'' \<in> set h then ES_INCOMPLETE else ES_NOT_OBSERVABLE)"
    and "tv_source v = (if tv_selected v = None then None
           else if decode_tls_version (row_get row ''server_supported_version'') \<noteq> Inr None then Some VS_SUPPORTED_VERSIONS
           else Some VS_LEGACY_RECORD)"
proof -
  obtain cs ds supported legacy zeek where
    p: "as_int_list 64 (row_get row ''client_supported_versions'') = Inr cs"
       "mapE (\<lambda>n. decode_tls_version (JInt (int n))) cs = Inr ds"
    and d: "decode_tls_version (row_get row ''server_supported_version'') = Inr supported"
       "decode_tls_version (row_get row ''server_version'') = Inr legacy"
       "decode_tls_version (row_get row ''version'') = Inr zeek"
    using assms unfolding resolve_selected_version_def bindE_eq_Inr by blast
  note t = decode_tls_version_truthy [OF d(2)]
  have "server_version row = Inr (or_else supported (or_else legacy zeek))"
    by (simp add: server_version_def d)
  then show thesis
  proof (rule that)
    show "tv_selected v = (if has_server_hello h then or_else supported (or_else legacy zeek) else None)"
      "tv_evidence_state v = (if tv_selected v \<noteq> None then ES_OBSERVED
           else if CHR ''C'' \<in> set h then ES_INCOMPLETE else ES_NOT_OBSERVABLE)"
      "tv_source v = (if tv_selected v = None then None
           else if decode_tls_version (row_get row ''server_supported_version'') \<noteq> Inr None then Some VS_SUPPORTED_VERSIONS
           else Some VS_LEGACY_RECORD)"
      using assms t decode_tls_version_truthy [OF d(3)]
      by (auto simp: resolve_selected_version_def p d Let_def py_or_def or_else_def truthy_str_def split: if_splits option.splits)
  qed
qed

section \<open>Attaching frames\<close>

text \<open>Where the kind and the number of an attached message come from.\<close>

definition frame_shows :: "json_row \<Rightarrow> handshake_message_kind \<Rightarrow> nat \<Rightarrow> bool" where
  "frame_shows frame kind n = (frame_number_of frame = Inr (Some n)
     \<and> (\<exists>types sel. tshark_handshake_types frame = Inr types \<and> tshark_selected_group frame = Inr sel
          \<and> (\<exists>t \<in> set types. frame_kind sel t = Some kind)))"

definition attached_as :: "(handshake_message_kind \<Rightarrow> nat \<Rightarrow> bool) \<Rightarrow> handshake_message \<Rightarrow> handshake_message \<Rightarrow> bool" where
  "attached_as shows_it m m' = (\<exists>kind n. m' = attach_message kind n m \<and> shows_it kind n
     \<and> (kind = hm_kind m \<or> hm_kind m = HM_SERVER_HELLO \<and> kind = HM_HELLO_RETRY_REQUEST))"

definition kind_indexes :: "handshake_message list \<Rightarrow> handshake_message_kind \<Rightarrow> nat list" where
  "kind_indexes ms kind = filter (\<lambda>i. hm_kind (ms ! i) = kind \<and> kind \<noteq> HM_DIRECTION_FLIP) [0..<length ms]"

text \<open>Per kind, the indexes still pending are the last ones; the others have been attached.\<close>

definition attach_inv :: "handshake_message list \<Rightarrow> (handshake_message_kind \<Rightarrow> nat \<Rightarrow> bool) \<Rightarrow> attach_state \<Rightarrow> bool" where
  "attach_inv ms P a = (length (at_updated a) = length ms
     \<and> (\<forall>kind. \<exists>used. kind_indexes ms kind = used @ pending_indexes a kind
          \<and> (\<forall>i \<in> set used. attached_as P (ms ! i) (at_updated a ! i)))
     \<and> (\<forall>i < length ms. (i \<in> set (pending_indexes a (hm_kind (ms ! i))) \<or> hm_kind (ms ! i) = HM_DIRECTION_FLIP)
          \<longrightarrow> at_updated a ! i = ms ! i))"

lemma pending_group: "(case map_of (group_step k i d) kind of None \<Rightarrow> [] | Some is \<Rightarrow> is)
    = (case map_of d kind of None \<Rightarrow> [] | Some is \<Rightarrow> is) @ (if kind = k then [i] else [])"
  by (simp add: group_step_get split: option.split)

lemma pending_init_indexes:
  "(case map_of (pending_init ms) kind of None \<Rightarrow> [] | Some is \<Rightarrow> is) = kind_indexes ms kind"
proof (induction ms rule: rev_induct)
  case (snoc m ms)
  have "kind_indexes (ms @ [m]) kind
      = kind_indexes ms kind @ (if hm_kind m = kind \<and> kind \<noteq> HM_DIRECTION_FLIP then [length ms] else [])"
    by (auto simp: kind_indexes_def nth_append intro!: filter_cong)
  moreover have "pending_init (ms @ [m]) =
      (if hm_kind m = HM_DIRECTION_FLIP then pending_init ms else group_step (hm_kind m) (length ms) (pending_init ms))"
    by (simp add: pending_init_def enumerate_append_eq)
  ultimately show ?case using snoc by (auto simp: pending_group)
qed (simp add: pending_init_def kind_indexes_def)

lemma attach_init_inv: "attach_inv ms P (attach_init ms)"
  by (auto simp: attach_inv_def attach_init_def pending_indexes_def pending_init_indexes)

lemma kind_indexes_distinct: "distinct (kind_indexes ms kind)"
  by (simp add: kind_indexes_def)

lemma kind_indexes_mem: "i \<in> set (kind_indexes ms kind) \<longleftrightarrow> i < length ms \<and> hm_kind (ms ! i) = kind \<and> kind \<noteq> HM_DIRECTION_FLIP"
  by (auto simp: kind_indexes_def)

lemma attach_at_inv:
  assumes "attach_inv ms P a" and "P kind n" and "queue = kind \<or> queue = HM_SERVER_HELLO \<and> kind = HM_HELLO_RETRY_REQUEST"
  shows "attach_inv ms P (attach_at queue kind n a)"
proof (cases "pending_indexes a queue")
  case Nil
  then show ?thesis using assms(1) by (simp add: attach_at_def)
next
  case (Cons target rest)
  let ?b = "attach_at queue kind n a"
  note inv = assms(1) [unfolded attach_inv_def]
  obtain used where used: "kind_indexes ms queue = used @ target # rest"
    "\<forall>i \<in> set used. attached_as P (ms ! i) (at_updated a ! i)"
    using inv Cons by metis
  have mem: "target < length ms" "hm_kind (ms ! target) = queue" "queue \<noteq> HM_DIRECTION_FLIP"
    using used(1) kind_indexes_mem [of target ms queue] by auto
  have fresh: "target \<notin> set used" "target \<notin> set rest"
    using kind_indexes_distinct [of ms queue] used(1) by auto
  have same: "at_updated a ! target = ms ! target" using inv mem Cons by auto
  have p: "pending_indexes ?b k = (if k = queue then rest else pending_indexes a k)" for k
    using Cons by (simp add: attach_at_def pending_indexes_def update_conv')
  have u: "at_updated ?b = (at_updated a)[target := attach_message kind n (ms ! target)]"
    using Cons same by (simp add: attach_at_def)
  have hit: "attached_as P (ms ! target) (attach_message kind n (ms ! target))"
    using assms(2,3) mem(2) by (auto simp: attached_as_def)
  have lists: "\<exists>used. kind_indexes ms k = used @ pending_indexes ?b k
      \<and> (\<forall>i \<in> set used. attached_as P (ms ! i) (at_updated ?b ! i))" for k
  proof (cases "k = queue")
    case True
    have "\<forall>i \<in> set (used @ [target]). attached_as P (ms ! i) (at_updated ?b ! i)"
      using used(2) fresh hit inv mem(1) u by (auto simp: nth_list_update)
    then show ?thesis using True used(1) p by (intro exI [of _ "used @ [target]"]) simp
  next
    case False
    obtain us where us: "kind_indexes ms k = us @ pending_indexes a k" "\<forall>i \<in> set us. attached_as P (ms ! i) (at_updated a ! i)"
      using inv by metis
    have "target \<notin> set us"
    proof
      assume "target \<in> set us"
      then have "hm_kind (ms ! target) = k" using us(1) kind_indexes_mem [of target ms k] by auto
      then show False using False mem(2) by simp
    qed
    then have "\<forall>i \<in> set us. at_updated ?b ! i = at_updated a ! i" using u nth_list_update_neq by metis
    then show ?thesis using us False p by (intro exI [of _ us]) simp
  qed
  have keep: "at_updated ?b ! i = ms ! i"
    if i: "i < length ms" and c: "i \<in> set (pending_indexes ?b (hm_kind (ms ! i))) \<or> hm_kind (ms ! i) = HM_DIRECTION_FLIP" for i
  proof -
    have "i \<noteq> target" using c fresh(2) mem(2,3) p by auto
    moreover have "i \<in> set (pending_indexes a (hm_kind (ms ! i))) \<or> hm_kind (ms ! i) = HM_DIRECTION_FLIP"
      using c p Cons by (auto split: if_splits)
    then have "at_updated a ! i = ms ! i" using inv i by blast
    ultimately show ?thesis using u by simp
  qed
  have len: "length (at_updated ?b) = length ms" using u inv by simp
  show ?thesis unfolding attach_inv_def using lists keep len by blast
qed

lemma attach_type_inv:
  assumes "attach_inv ms P a" and "\<And>kind. frame_kind sel t = Some kind \<Longrightarrow> P kind n"
  shows "attach_inv ms P (attach_type n sel t a)"
  using assms by (auto simp: attach_type_def intro!: attach_at_inv split: option.split)

lemma attach_types_inv:
  assumes "attach_inv ms P a" and "\<And>t kind. t \<in> set types \<Longrightarrow> frame_kind sel t = Some kind \<Longrightarrow> P kind n"
  shows "attach_inv ms P (fold (attach_type n sel) types a)"
  using assms by (induction types arbitrary: a) (auto intro: attach_type_inv)

definition shown_by :: "json_row list \<Rightarrow> handshake_message_kind \<Rightarrow> nat \<Rightarrow> bool" where
  "shown_by frames kind n = (\<exists>frame \<in> set frames. frame_shows frame kind n)"

lemma attach_frame_inv:
  assumes "attach_inv ms (shown_by frames) a" and "frame \<in> set frames" and "attach_frame frame a = Inr b"
  shows "attach_inv ms (shown_by frames) b"
proof -
  obtain number where n: "frame_number_of frame = Inr number" using assms(3) by (auto simp: attach_frame_def py_simps)
  show ?thesis
  proof (cases number)
    case None
    then show ?thesis using assms(1,3) n by (simp add: attach_frame_def)
  next
    case (Some k)
    then obtain types sel where t: "tshark_handshake_types frame = Inr types" "tshark_selected_group frame = Inr sel"
      and b: "b = fold (attach_type k sel) types a"
      using assms(3) n by (auto simp: attach_frame_def py_simps)
    show ?thesis unfolding b using assms(1)
    proof (rule attach_types_inv)
      show "shown_by frames kind k" if "t \<in> set types" "frame_kind sel t = Some kind" for t kind
        using that n t Some assms(2) by (auto simp: shown_by_def frame_shows_def)
    qed
  qed
qed

lemma attach_fold_inv:
  assumes "attach_inv ms (shown_by frames) a" and "set fs \<subseteq> set frames" and "foldE attach_frame fs a = Inr b"
  shows "attach_inv ms (shown_by frames) b"
  using assms by (induction fs arbitrary: a) (auto simp: py_simps dest: attach_frame_inv)


lemma attach_frames_inv:
  assumes "attach_frames ms frames = Inr ms'"
  shows "\<exists>a. attach_inv ms (shown_by frames) a \<and> at_updated a = ms'"
  using assms attach_fold_inv [OF attach_init_inv order.refl] by (auto simp: attach_frames_def py_simps)

lemma used_first:
  assumes "kind_indexes ms kind = used @ pending" and "j \<in> set used" and "i < j" and "i < length ms" and "hm_kind (ms ! i) = kind"
  shows "i \<in> set used"
proof -
  have "j \<in> set (kind_indexes ms kind)" using assms(1,2) by simp
  then have "i \<in> set (kind_indexes ms kind)" using assms(4,5) by (auto simp: kind_indexes_mem)
  moreover have "sorted (kind_indexes ms kind)" unfolding kind_indexes_def by (intro sorted_wrt_filter) simp
  then have "\<forall>k \<in> set pending. j \<le> k" using assms(1,2) by (simp add: sorted_append)
  ultimately show ?thesis using assms(1,3) by force
qed

lemma attach_frames_spec:
  assumes "attach_frames ms frames = Inr ms'"
  shows "length ms' = length ms"
    and "i < length ms \<Longrightarrow> ms' ! i = ms ! i \<or> hm_kind (ms ! i) \<noteq> HM_DIRECTION_FLIP \<and> attached_as (shown_by frames) (ms ! i) (ms' ! i)"
    and "i < j \<Longrightarrow> j < length ms \<Longrightarrow> hm_kind (ms ! i) = hm_kind (ms ! j) \<Longrightarrow> ms' ! j \<noteq> ms ! j
      \<Longrightarrow> attached_as (shown_by frames) (ms ! i) (ms' ! i)"
proof -
  obtain a where a: "attach_inv ms (shown_by frames) a" "at_updated a = ms'" using attach_frames_inv [OF assms] by blast
  note inv = a(1) [unfolded attach_inv_def a(2)]
  show "length ms' = length ms" using inv by blast
  have used: "\<exists>used. kind_indexes ms (hm_kind (ms ! i)) = used @ pending_indexes a (hm_kind (ms ! i)) \<and> i \<in> set used
      \<and> (\<forall>i \<in> set used. attached_as (shown_by frames) (ms ! i) (ms' ! i))"
    if i: "i < length ms" "ms' ! i \<noteq> ms ! i" for i
  proof -
    have "hm_kind (ms ! i) \<noteq> HM_DIRECTION_FLIP" "i \<notin> set (pending_indexes a (hm_kind (ms ! i)))" using inv i by auto
    moreover from this have "i \<in> set (kind_indexes ms (hm_kind (ms ! i)))" using i by (simp add: kind_indexes_mem)
    moreover obtain used where "kind_indexes ms (hm_kind (ms ! i)) = used @ pending_indexes a (hm_kind (ms ! i))"
        "\<forall>i \<in> set used. attached_as (shown_by frames) (ms ! i) (ms' ! i)"
      using inv by metis
    ultimately show ?thesis by auto
  qed
  show "ms' ! i = ms ! i \<or> hm_kind (ms ! i) \<noteq> HM_DIRECTION_FLIP \<and> attached_as (shown_by frames) (ms ! i) (ms' ! i)" if "i < length ms"
    using used [OF that] inv that by blast
  show "attached_as (shown_by frames) (ms ! i) (ms' ! i)"
    if ij: "i < j" "j < length ms" "hm_kind (ms ! i) = hm_kind (ms ! j)" "ms' ! j \<noteq> ms ! j"
  proof -
    obtain us where us: "kind_indexes ms (hm_kind (ms ! j)) = us @ pending_indexes a (hm_kind (ms ! j))" "j \<in> set us"
        "\<forall>i \<in> set us. attached_as (shown_by frames) (ms ! i) (ms' ! i)"
      using used [OF ij(2,4)] by blast
    have "i \<in> set us" using used_first [OF us(1,2) ij(1) _ ij(3)] ij(1,2) by simp
    then show ?thesis using us(3) by blast
  qed
qed

section \<open>Rows and frames\<close>

lemma group_fold_frames:
  assumes "foldE (group_frame flows) frames d = Inr d'" and "f \<in> set (get_list d' u)"
  shows "f \<in> set (get_list d u) \<or> f \<in> set frames \<and> handshake_frame_uid f flows = Inr (Some u)"
  using assms
proof (induction frames arbitrary: d)
  case (Cons frame frames)
  then obtain e where e: "group_frame flows frame d = Inr e" "foldE (group_frame flows) frames e = Inr d'" by (auto simp: py_simps)
  have "e = d \<or> (\<exists>v. handshake_frame_uid frame flows = Inr (Some v) \<and> e = group_step v frame d)"
    using e(1) by (auto simp: group_frame_def py_simps split: if_splits option.splits)
  then show ?case using Cons.IH [OF e(2) Cons.prems(2)]
    by (auto simp: get_list_def group_step_get split: option.splits if_splits)
qed simp

lemma handshake_from_row_cases:
  assumes "handshake_from_row row flow index frames = Inr (Some h)"
  obtains facts where
    "as_str 64 (row_get row ''uid'') = Some (th_uid h)" and "th_ssl_history h = or_str (as_str 100 (row_get row ''ssl_history'')) []"
    and "resolve_selected_version row (th_ssl_history h) = Inr (th_version h)"
    and "attach_frames (messages_from_ssl_history (th_ssl_history h)) frames = Inr (th_messages h)"
    and "kx_facts_of row (tv_selected (th_version h)) index (th_resumed h) = Inr facts"
    and "th_key_exchange h = kx_evidence_of facts" and "key_exchange_ok (th_key_exchange h)"
    and "certificate_verify_signature (th_ssl_history h) frames = Inr (th_certificate_verify_signature h)"
    and "(th_server_certificate_state h, th_certificate_verify_state h) = certificate_states (th_ssl_history h) (tv_selected (th_version h))"
    and "th_visibility h = visibility (th_ssl_history h) (tv_selected (th_version h)) (th_established h)
           (th_server_certificate_state h) (th_certificate_verify_state h)"
    and "th_evidence_state h = handshake_evidence_state flow (th_version h) (th_established h)"
    and "th_resumed h = (as_bool (row_get row ''resumed'') = Some True)"
    and "th_cipher_suite h = cipher_evidence row index (has_server_hello (th_ssl_history h))"
  using assms unfolding handshake_from_row_def key_exchange_evidence_of_def
  by (auto simp: py_simps Let_def split_beta split: option.splits)

lemma handshake_row_None: "handshake_from_row row flow index frames = Inr None \<longleftrightarrow> as_str 64 (row_get row ''uid'') = None"
  by (auto simp: handshake_from_row_def py_simps Let_def split: option.splits prod.splits)

lemma normalize_handshakes_cases:
  assumes "normalize_handshakes logs flows index frames = Inr hs"
  obtains d xs where "foldE (group_frame flows) (bounded_records frames) [] = Inr d"
    and "list_all2 (\<lambda>row x. handshake_from_row row
           (Option.bind (as_str 64 (row_get row ''uid'')) (map_of (dict_of_last fl_uid flows))) index
           (get_list d (or_str (as_str 64 (row_get row ''uid'')) [])) = Inr x) (bounded_records (logs_get logs ''ssl.log'')) xs"
    and "hs = sort_key (\<lambda>h. (th_uid h, th_ssl_history h)) (List.map_filter (\<lambda>h. h) xs)"
  using assms unfolding normalize_handshakes_def Let_def bindE_eq_Inr mapE_Inr_iff by blast

lemma map_filter_id_set: "set (List.map_filter (\<lambda>x. x) xs) = {x. Some x \<in> set xs}"
  by (induction xs) (auto simp: List.map_filter_simps split: option.splits)

lemma normalize_handshakes_member:
  assumes "normalize_handshakes logs flows index frames = Inr hs" and "h \<in> set hs"
  obtains row fs where "row \<in> set (bounded_records (logs_get logs ''ssl.log''))"
    and "as_str 64 (row_get row ''uid'') = Some (th_uid h)"
    and "handshake_from_row row (map_of (dict_of_last fl_uid flows) (th_uid h)) index fs = Inr (Some h)"
    and "set fs \<subseteq> {f \<in> set (bounded_records frames). handshake_frame_uid f flows = Inr (Some (th_uid h))}"
proof -
  obtain d xs where d: "foldE (group_frame flows) (bounded_records frames) [] = Inr d"
    and xs: "list_all2 (\<lambda>row x. handshake_from_row row
           (Option.bind (as_str 64 (row_get row ''uid'')) (map_of (dict_of_last fl_uid flows))) index
           (get_list d (or_str (as_str 64 (row_get row ''uid'')) [])) = Inr x) (bounded_records (logs_get logs ''ssl.log'')) xs"
    and hs: "hs = sort_key (\<lambda>h. (th_uid h, th_ssl_history h)) (List.map_filter (\<lambda>h. h) xs)"
    using normalize_handshakes_cases [OF assms(1)] by blast
  have "Some h \<in> set xs" using assms(2) by (simp add: hs map_filter_id_set)
  then obtain i where i: "i < length xs" "xs ! i = Some h" by (auto simp: in_set_conv_nth)
  let ?row = "bounded_records (logs_get logs ''ssl.log'') ! i"
  have r: "?row \<in> set (bounded_records (logs_get logs ''ssl.log''))" using list_all2_lengthD [OF xs] i(1) by simp
  have run: "handshake_from_row ?row (Option.bind (as_str 64 (row_get ?row ''uid'')) (map_of (dict_of_last fl_uid flows))) index
      (get_list d (or_str (as_str 64 (row_get ?row ''uid'')) [])) = Inr (Some h)"
    using list_all2_nthD2 [OF xs i(1)] i(2) by simp
  from run have uid: "as_str 64 (row_get ?row ''uid'') = Some (th_uid h)" by (rule handshake_from_row_cases)
  then have "or_str (as_str 64 (row_get ?row ''uid'')) [] = th_uid h" by (simp add: or_str_def)
  with run uid group_fold_frames [OF d] show thesis
    by (intro that [OF r uid]) (auto simp: get_list_def)
qed

section \<open>Malformed numbers\<close>

text \<open>A text without superscript digits, and short enough for \<open>int\<close>.\<close>

definition plain_text :: "string \<Rightarrow> bool" where
  "plain_text s = (length s \<le> 4300 \<and> list_all (\<lambda>c. of_char c \<notin> {178, 179, 185 :: nat}) s)"

fun plain_json :: "json \<Rightarrow> bool" where
  "plain_json (JStr s) = plain_text s"
| "plain_json (JList items) = list_all plain_json items"
| "plain_json _ = True"

definition plain_row :: "json_row \<Rightarrow> bool" where
  "plain_row row = list_all (\<lambda>(k, v). plain_json v) row"

lemma plain_get: "plain_row row \<Longrightarrow> plain_json (row_get row k)"
  by (auto simp: plain_row_def row_get_def list_all_iff split: option.split dest!: map_of_SomeD)

lemma plain_sub: "plain_text s \<Longrightarrow> length t \<le> length s \<Longrightarrow> set t \<subseteq> set s \<Longrightarrow> plain_text t"
  by (auto simp: plain_text_def list_all_iff)

lemma plain_isdigit: "plain_text s \<Longrightarrow> py_isdigit s \<Longrightarrow> py_int_of_digits s = Inr (digits_to_nat s)"
  by (auto simp: plain_text_def py_isdigit_def py_int_of_digits_def list_all_iff)

lemma plain_as_int: "plain_json v \<Longrightarrow> \<exists>n. as_int v = Inr n"
  by (cases v) (auto simp: plain_isdigit)

lemma strip_sub: "length (py_strip s) \<le> length s \<and> set (py_strip s) \<subseteq> set s"
proof -
  have "length (dropWhile is_space (rev (dropWhile is_space s))) \<le> length s"
    by (rule order_trans [OF length_dropWhile_le]) (simp add: length_dropWhile_le)
  then show ?thesis by (auto simp: py_strip_def dest!: set_dropWhileD)
qed

lemma split_on_sub: "part \<in> set (split_on_aux d acc s) \<Longrightarrow> length part \<le> length acc + length s \<and> set part \<subseteq> set acc \<union> set s"
  by (induction d acc s rule: split_on_aux.induct) (fastforce split: if_splits)+

lemma split_sub: "part \<in> set (py_split d s) \<Longrightarrow> length part \<le> length s \<and> set part \<subseteq> set s"
  using split_on_sub [of part d "[]" s] by (simp add: py_split_def)

lemma plain_strip: "plain_text s \<Longrightarrow> plain_text (py_strip s)"
  using strip_sub plain_sub by blast

lemma plain_split: "plain_text s \<Longrightarrow> part \<in> set (py_split d s) \<Longrightarrow> plain_text part"
  using split_sub plain_sub by blast

lemma as_ints_total: "list_all plain_json items \<Longrightarrow> \<exists>ns. mapE as_int (take n items) = Inr ns"
proof (induction items arbitrary: n)
  case (Cons v items)
  then obtain a where a: "as_int v = Inr a" using plain_as_int [of v] by auto
  show ?case
  proof (cases n)
    case (Suc m)
    obtain ns where "mapE as_int (take m items) = Inr ns" using Cons by fastforce
    then show ?thesis using a Suc by simp
  qed simp
qed simp

lemma as_int_list_total: "plain_json v \<Longrightarrow> \<exists>ns. as_int_list n v = Inr ns"
proof (cases v)
  case (JStr s)
  assume "plain_json v"
  then have "list_all plain_json (map JStr (filter (\<lambda>part. part \<noteq> []) (map py_strip (py_split (CHR '','') s))))"
    using JStr by (auto simp: list_all_iff plain_strip plain_split)
  from as_ints_total [OF this, of n] JStr show ?thesis by (auto simp: as_int_list_def Let_def)
next
  case (JList items)
  assume "plain_json v"
  then show ?thesis using as_ints_total [of items n] JList by (auto simp: as_int_list_def Let_def)
qed (auto simp: as_int_list_def)

lemma version_number_total: "plain_json v \<Longrightarrow> \<exists>r. version_of_number v = Inr r"
  using plain_as_int [of v] by (auto simp: version_of_number_def)

lemma decode_version_total: "plain_json v \<Longrightarrow> \<exists>r. decode_tls_version v = Inr r"
proof (cases v)
  case (JStr s)
  assume "plain_json v"
  then have "plain_json (JStr (py_strip s))" using JStr plain_strip by simp
  from version_number_total [OF this] JStr show ?thesis
    by (auto simp: decode_tls_version_def Let_def split: option.split)
qed (use version_number_total [of v] in \<open>auto simp: decode_tls_version_def\<close>)

lemma plain_lowered:
  assumes "plain_text s"
  shows "plain_text (py_replace_char (CHR ''-'') (CHR ''_'') (py_lower s))"
proof -
  have "of_char (lower_char c) \<notin> {178, 179, 185 :: nat}" if "of_char c \<notin> {178, 179, 185 :: nat}" for c :: char
    using that nat_of_char_less_256 [of c] by (auto simp: lower_char_def Let_def)
  then show ?thesis using assms by (auto simp: plain_text_def py_replace_char_def py_lower_def list_all_iff)
qed

lemma decode_scheme_total: "plain_json v \<Longrightarrow> \<exists>r. decode_signature_scheme v = Inr r"
proof (cases v)
  case (JStr s)
  assume "plain_json v"
  then have "plain_text (py_replace_char (CHR ''-'') (CHR ''_'') (py_lower (py_strip s)))"
    using JStr plain_strip plain_lowered by simp
  then show ?thesis using JStr plain_isdigit by (auto simp: decode_signature_scheme_def Let_def)
qed (use plain_as_int [of v] in \<open>auto simp: decode_signature_scheme_def\<close>)


lemma resolve_total:
  assumes "plain_row row"
  shows "\<exists>v. resolve_selected_version row h = Inr v"
proof -
  obtain ns where ns: "as_int_list 64 (row_get row ''client_supported_versions'') = Inr ns"
    using as_int_list_total [OF plain_get [OF assms]] by blast
  have "\<exists>ds. mapE (\<lambda>n. decode_tls_version (JInt (int n))) ns = Inr ds"
    by (rule mapE_ok) (rule decode_version_total, simp)
  then show ?thesis
    using ns decode_version_total [OF plain_get [OF assms, of "''server_supported_version''"]]
      decode_version_total [OF plain_get [OF assms, of "''server_version''"]]
      decode_version_total [OF plain_get [OF assms, of "''version''"]]
    by (auto simp: resolve_selected_version_def Let_def)
qed

lemma types_total: "plain_row frame \<Longrightarrow> \<exists>ts. tshark_handshake_types frame = Inr ts"
  unfolding tshark_handshake_types_def by (intro as_int_list_total plain_get)

lemma selected_group_total:
  assumes "plain_row frame"
  shows "\<exists>g. tshark_selected_group frame = Inr g"
  using plain_as_int [OF plain_get [OF assms, of "''tls.handshake.extensions_key_share_selected_group''"]]
    plain_as_int [OF plain_get [OF assms, of "''tls.handshake.extensions.key_share.selected_group''"]]
  by (auto simp: tshark_selected_group_def Let_def split: option.split)

lemma attach_frame_total:
  assumes "plain_row frame"
  shows "\<exists>b. attach_frame frame a = Inr b"
  using plain_as_int [OF plain_get [OF assms, of "''frame.number''"]] types_total [OF assms] selected_group_total [OF assms]
  by (auto simp: attach_frame_def frame_number_of_def split: option.split)

lemma attach_frames_total:
  assumes "\<And>f. f \<in> set frames \<Longrightarrow> plain_row f"
  shows "\<exists>ms'. attach_frames ms frames = Inr ms'"
proof -
  have "\<exists>b. foldE attach_frame frames (attach_init ms) = Inr b"
    by (rule foldE_ok) (rule attach_frame_total, rule assms)
  then show ?thesis by (auto simp: attach_frames_def)
qed

lemma last_split_mem: "last (py_split d s) \<in> set (py_split d s)"
proof -
  have "split_on_aux d acc s \<noteq> []" for acc by (induction d acc s rule: split_on_aux.induct) auto
  then show ?thesis by (simp add: py_split_def)
qed

lemma raw_signature_plain:
  assumes "plain_row frame"
  shows "plain_json (raw_signature frame)"
proof -
  have "plain_json (case j of JStr s \<Rightarrow> if CHR '','' \<in> set s then JStr (py_strip (last (py_split (CHR '','') s))) else j | _ \<Rightarrow> j)"
    if "plain_json j" for j
    using that by (cases j) (auto intro: plain_strip plain_split last_split_mem)
  then show ?thesis
    using plain_get [OF assms, of "''tls.handshake.sig_hash_alg''"] plain_get [OF assms, of "''tls.handshake.signature_scheme''"]
    unfolding raw_signature_def Let_def by presburger
qed

lemma verify_loop_total: "(\<And>f. f \<in> set frames \<Longrightarrow> plain_row f) \<Longrightarrow> \<exists>s. verify_loop frames = Inr s"
proof (induction frames)
  case (Cons f fs)
  obtain ts a s where "tshark_handshake_types f = Inr ts" "decode_signature_scheme (raw_signature f) = Inr a" "verify_loop fs = Inr s"
    using Cons types_total [of f] decode_scheme_total [OF raw_signature_plain, of f] by auto
  then show ?case by (auto split: option.split)
qed simp

lemma verify_total: "(\<And>f. f \<in> set frames \<Longrightarrow> plain_row f) \<Longrightarrow> \<exists>s. certificate_verify_signature h frames = Inr s"
  using verify_loop_total [of frames] by (simp add: certificate_verify_signature_def)

text \<open>Group codes of the registry and of the row fit in 16 bits, as on the wire.\<close>

definition small_groups :: "tls_parameter_index \<Rightarrow> bool" where
  "small_groups index = list_all (\<lambda>(name, code). code \<le> 65535) (tp_group_name_to_code index)"

definition small_share :: "json_row \<Rightarrow> bool" where
  "small_share row = (case as_int (row_get row ''server_key_share_group'') of Inr (Some n) \<Rightarrow> n \<le> 65535 | _ \<Rightarrow> True)"

lemma tp_group_code_small: "small_groups index \<Longrightarrow> tp_group_code index name = Some c \<Longrightarrow> c \<le> 65535"
  by (fastforce simp: tp_group_code_def small_groups_def list_all_iff split: option.splits dest: map_of_SomeD find_Some_mem)

lemma kx_facts_total:
  assumes "plain_row row"
  shows "\<exists>f. kx_facts_of row v index r = Inr f"
  using plain_as_int [OF plain_get [OF assms, of "''server_key_share_group''"]] plain_as_int [OF plain_get [OF assms, of "''dh_param_size''"]]
    as_int_list_total [OF plain_get [OF assms, of "''client_key_share_groups''"], of 64]
    as_int_list_total [OF plain_get [OF assms, of "''psk_key_exchange_modes''"], of 64]
  by (auto simp: kx_facts_of_def Let_def split_beta)

lemma kx_facts_fields:
  assumes "kx_facts_of row v index r = Inr f"
  obtains g where "as_int (row_get row ''server_key_share_group'') = Inr g"
    and "(kf_group_name f, kf_server_key_share_group f) = selected_group index g (kf_curve f)"
    and "kf_curve f = as_str 128 (row_get row ''curve'')" and "kf_cipher_suite f = as_str 128 (row_get row ''cipher'')"
    and "kf_negotiated_version f = v" and "kf_resumed f = r"
  using assms by (auto simp: kx_facts_of_def py_simps Let_def split_beta)

lemma key_exchange_total:
  assumes "plain_row row" and "small_share row" and "small_groups index"
  shows "\<exists>k. key_exchange_evidence_of row version index r = Inr k"
proof -
  obtain f where f: "kx_facts_of row (tv_selected version) index r = Inr f" using kx_facts_total [OF assms(1)] by blast
  have "key_exchange_ok (kx_evidence_of f)"
    using f
  proof (rule kx_facts_fields)
    fix g
    assume g: "as_int (row_get row ''server_key_share_group'') = Inr g"
      and s: "(kf_group_name f, kf_server_key_share_group f) = selected_group index g (kf_curve f)"
    have "kf_server_key_share_group f = g \<or> kf_server_key_share_group f = tp_group_code index (kf_curve f)"
      using s by (auto simp: selected_group_def Let_def split: if_splits)
    then show ?thesis using g assms(2) tp_group_code_small [OF assms(3)]
      by (auto simp: key_exchange_ok_def kx_evidence_of_def Let_def small_share_def split: option.split)
  qed
  then show ?thesis using f by (simp add: key_exchange_evidence_of_def)
qed

lemma handshake_from_row_total:
  assumes "plain_row row" and "small_share row" and "small_groups index" and "\<And>f. f \<in> set frames \<Longrightarrow> plain_row f"
  shows "\<exists>h. handshake_from_row row flow index frames = Inr h"
proof (cases "as_str 64 (row_get row ''uid'')")
  case (Some uid)
  let ?h = "or_str (as_str 100 (row_get row ''ssl_history'')) []"
  obtain v where v: "resolve_selected_version row ?h = Inr v" using resolve_total [OF assms(1)] by blast
  obtain ms where ms: "attach_frames (messages_from_ssl_history ?h) frames = Inr ms" using attach_frames_total [OF assms(4)] by blast
  obtain k where k: "key_exchange_evidence_of row v index (as_bool (row_get row ''resumed'') = Some True) = Inr k"
    using key_exchange_total [OF assms(1-3)] by blast
  obtain s where s: "certificate_verify_signature ?h frames = Inr s" using verify_total [OF assms(4)] by blast
  show ?thesis using Some v ms k s by (simp add: handshake_from_row_def Let_def split_beta)
qed (simp add: handshake_from_row_def)

lemma handshake_uid_total:
  assumes "plain_row frame"
  shows "\<exists>u. handshake_frame_uid frame flows = Inr u"
proof -
  obtain a b where "as_int (row_get frame ''tcp.srcport'') = Inr a" "as_int (row_get frame ''tcp.dstport'') = Inr b"
    using plain_as_int [OF plain_get [OF assms]] by metis
  then obtain es where "handshake_endpoints frame = Inr es" by (simp add: handshake_endpoints_def Let_def)
  then show ?thesis by (simp add: handshake_frame_uid_def split: list.split)
qed

lemma group_frame_total:
  assumes "plain_row frame"
  shows "\<exists>e. group_frame flows frame d = Inr e"
  using types_total [OF assms] handshake_uid_total [OF assms, of flows] by (auto simp: group_frame_def split: option.split)

lemma handshakes_uids:
  assumes "list_all2 (\<lambda>row x. handshake_from_row row (fl row) index (fs row) = Inr x) rows xs"
  shows "map th_uid (List.map_filter (\<lambda>x. x) xs) = List.map_filter (\<lambda>row. as_str 64 (row_get row ''uid'')) rows"
  using assms
proof (induction rule: list_all2_induct)
  case (Cons row rows x xs)
  then show ?case
    by (cases x) (auto simp: List.map_filter_simps handshake_row_None elim!: handshake_from_row_cases)
qed (simp add: List.map_filter_simps)

lemma verify_loop_algorithm:
  "verify_loop frames = Inr e \<Longrightarrow> hs_algorithm e = Some a \<Longrightarrow>
     \<exists>f \<in> set frames. \<exists>types. tshark_handshake_types f = Inr types \<and> 15 \<in> set types \<and> decode_signature_scheme (raw_signature f) = Inr (Some a)"
  by (induction frames) (auto simp: py_simps signature_evidence_def split: if_splits option.splits)

section \<open>Samples\<close>

definition sample_ssl_row :: json_row where
  "sample_ssl_row = [(''uid'', JStr ''C1''), (''ssl_history'', JStr ''Csx''), (''established'', JBool True), (''version'', JStr ''TLSv12''),
     (''cipher'', JStr ''TLS_ECDHE_RSA_WITH_AES_128_GCM_SHA256'')]"

definition sample_ssl_logs :: "(string, json) dict" where
  "sample_ssl_logs = [(''ssl.log'', JList [JObj sample_ssl_row])]"

definition sample_tls_frame :: json_row where
  "sample_tls_frame = [(''frame.number'', JInt 5), (''tls.handshake.type'', JInt 2), (''ip.src'', JStr ''10.0.0.2''), (''tcp.srcport'', JInt 25),
     (''ip.dst'', JStr ''10.0.0.1''), (''tcp.dstport'', JInt 40000)]"

definition sample_tls_handshake :: tls_handshake where
  "sample_tls_handshake = \<lparr>th_uid = ''C1'', th_ssl_history = ''Csx'', th_established = True,
     th_resumed = False, th_hello_retry_request = False, th_last_alert = None, th_visibility = HV_FULL,
     th_version = \<lparr>tv_selected = Some ''TLSv12'', tv_source = Some VS_LEGACY_RECORD,
        tv_evidence_state = ES_OBSERVED, tv_legacy_record_version = Some ''TLSv12'',
        tv_server_supported_version = None, tv_client_supported_versions = []\<rparr>,
     th_cipher_suite = \<lparr>cs_name = Some ''TLS_ECDHE_RSA_WITH_AES_128_GCM_SHA256'', cs_code = None, cs_evidence_state = ES_INFERRED\<rparr>,
     th_key_exchange = \<lparr>kx_mechanism = Some ''ECDHE'', kx_evidence_state = ES_INFERRED,
        kx_source_fields = [''cipher''], kx_selected_group = None, kx_selected_group_code = None,
        kx_dh_param_size = None, kx_psk_key_exchange_modes = []\<rparr>,
     th_messages = [\<lparr>hm_kind = HM_CLIENT_HELLO, hm_direction = SD_ORIG, hm_history_letter = ''C'', hm_frame_number = None,
          hm_evidence_state = ES_INFERRED\<rparr>,
        \<lparr>hm_kind = HM_SERVER_HELLO, hm_direction = SD_RESP, hm_history_letter = ''s'', hm_frame_number = Some 5,
          hm_evidence_state = ES_OBSERVED\<rparr>,
        \<lparr>hm_kind = HM_CERTIFICATE, hm_direction = SD_RESP, hm_history_letter = ''x'', hm_frame_number = None,
          hm_evidence_state = ES_INFERRED\<rparr>],
     th_server_certificate_state = ES_OBSERVED,
     th_certificate_verify_state = ES_NOT_OBSERVABLE,
     th_certificate_verify_signature = \<lparr>hs_algorithm = None, hs_evidence_state = ES_NOT_OBSERVABLE\<rparr>,
     th_evidence_state = ES_OBSERVED\<rparr>"

lemma sample_version: "resolve_selected_version sample_ssl_row ''Csx'' = Inr (th_version sample_tls_handshake)"
  by code_simp

lemma sample_attach: "attach_frames (messages_from_ssl_history ''Csx'') [sample_tls_frame] = Inr (th_messages sample_tls_handshake)"
  by code_simp

lemma sample_kx_evidence: "key_exchange_evidence_of sample_ssl_row (th_version sample_tls_handshake) empty_tls_parameter_index False
    = Inr (th_key_exchange sample_tls_handshake)"
  by code_simp

lemma sample_cipher: "cipher_evidence sample_ssl_row empty_tls_parameter_index True = th_cipher_suite sample_tls_handshake"
  by code_simp

lemma sample_group: "group_frame [sample_flow] sample_tls_frame [] = Inr [(''C1'', [sample_tls_frame])]"
  by (simp add: group_frame_def tshark_handshake_types_def as_int_list_def handshake_frame_uid_def handshake_endpoints_def
    sample_tls_frame_def sample_flow_def flow_addresses_def row_get_def List.map_filter_simps)

lemma sample_from_row: "handshake_from_row sample_ssl_row (Some sample_flow) empty_tls_parameter_index [sample_tls_frame] = Inr (Some sample_tls_handshake)"
proof -
  have "as_str 64 (row_get sample_ssl_row ''uid'') = Some ''C1''" "as_str 100 (row_get sample_ssl_row ''ssl_history'') = Some ''Csx''"
    "as_bool (row_get sample_ssl_row ''established'') = Some True" "as_bool (row_get sample_ssl_row ''resumed'') = None"
    "as_str 64 (row_get sample_ssl_row ''last_alert'') = None"
    by (simp_all add: sample_ssl_row_def row_get_def)
  then show ?thesis
    using sample_version sample_attach sample_kx_evidence sample_cipher
    by (simp add: handshake_from_row_def or_str_def certificate_verify_signature_def signature_evidence_def certificate_states_def
      has_server_hello_def visibility_def handshake_tls13_def handshake_evidence_state_def sample_tls_handshake_def sample_flow_def)
qed

lemma sample_uid: "as_str 64 (row_get sample_ssl_row ''uid'') = Some ''C1''"
  by (simp add: sample_ssl_row_def row_get_def)

lemma sample_rows_ssl:
  "bounded_records (logs_get sample_ssl_logs ''ssl.log'') = [sample_ssl_row]" "bounded_records (JList [JObj sample_tls_frame]) = [sample_tls_frame]"
  by (simp_all add: logs_get_def sample_ssl_logs_def List.map_filter_simps)

lemma sample_handshakes_run: "normalize_handshakes sample_ssl_logs [sample_flow] empty_tls_parameter_index (JList [JObj sample_tls_frame])
    = Inr [sample_tls_handshake]"
proof -
  note sample_rows_ssl
  moreover have "as_str 64 (row_get sample_ssl_row ''uid'') = Some ''C1''" by (rule sample_uid)
  moreover have "dict_of_last fl_uid [sample_flow] = [(''C1'', sample_flow)]" by (simp add: dict_of_last_def sample_flow_def)
  ultimately show ?thesis
    by (simp del: bounded_records.simps add: normalize_handshakes_def sample_group sample_from_row get_list_def or_str_def List.map_filter_simps)
qed

section \<open>Properties\<close>

text \<open>C12: The selected version of a handshake was negotiated. It is one of the five known versions, a ServerHello (or
  HelloRetryRequest) is in the history, and the version is the one the row reports for the server; what the client
  offered plays no part.\<close>

theorem handshake_version_negotiated:
  assumes "normalize_handshakes logs flows index frames = Inr hs" and "h \<in> set hs" and "tv_selected (th_version h) = Some v"
  shows "has_server_hello (th_ssl_history h) \<and> v \<in> {''SSLv3'', ''TLSv10'', ''TLSv11'', ''TLSv12'', ''TLSv13''}
    \<and> tv_evidence_state (th_version h) = ES_OBSERVED
    \<and> (\<exists>row \<in> set (bounded_records (logs_get logs ''ssl.log'')).
         as_str 64 (row_get row ''uid'') = Some (th_uid h) \<and> server_version row = Inr (Some v))"
proof -
  obtain row fs where row: "row \<in> set (bounded_records (logs_get logs ''ssl.log''))" "as_str 64 (row_get row ''uid'') = Some (th_uid h)"
    and run: "handshake_from_row row (map_of (dict_of_last fl_uid flows) (th_uid h)) index fs = Inr (Some h)"
    using assms(1,2) by (rule normalize_handshakes_member)
  from run have "resolve_selected_version row (th_ssl_history h) = Inr (th_version h)" by (rule handshake_from_row_cases)
  then obtain chosen where chosen: "server_version row = Inr chosen"
      "tv_selected (th_version h) = (if has_server_hello (th_ssl_history h) then chosen else None)"
      "tv_evidence_state (th_version h) = (if tv_selected (th_version h) \<noteq> None then ES_OBSERVED
         else if CHR ''C'' \<in> set (th_ssl_history h) then ES_INCOMPLETE else ES_NOT_OBSERVABLE)"
    by (rule resolve_selected)
  have sv: "has_server_hello (th_ssl_history h)" "server_version row = Inr (Some v)"
    using chosen(1,2) assms(3) by (auto split: if_splits)
  have "v \<in> snd ` set tls_versions"
    using sv(2) by (auto simp: server_version_def py_simps or_else_def split: option.splits dest!: decode_tls_version_mem)
  then show ?thesis using sv chosen(3) assms(3) row by (auto simp: tls_versions_def)
qed

theorem handshake_version_negotiated_witness:
  "tv_selected (th_version sample_tls_handshake) = Some ''TLSv12'' \<and> has_server_hello (th_ssl_history sample_tls_handshake)
    \<and> tv_evidence_state (th_version sample_tls_handshake) = ES_OBSERVED"
proof -
  have "tv_selected (th_version sample_tls_handshake) = Some ''TLSv12''" by (simp add: sample_tls_handshake_def)
  with handshake_version_negotiated [OF sample_handshakes_run _ this] show ?thesis by simp
qed


definition connection_frames :: "json \<Rightarrow> flow list \<Rightarrow> string \<Rightarrow> json_row list" where
  "connection_frames frames flows uid = filter (\<lambda>f. handshake_frame_uid f flows = Inr (Some uid)) (bounded_records frames)"

text \<open>The messages of a handshake are the letters of its history, in order. Each is as its letter says, or a frame
  of the same connection that carries its kind (a HelloRetryRequest may take a ServerHello) made it observed and
  gave it its number; and frames fill the messages of a kind from the first on, without gaps.\<close>

theorem frames_attach_soundly:
  assumes "normalize_handshakes logs flows index frames = Inr hs" and "h \<in> set hs"
  shows "length (th_messages h) = length (th_ssl_history h)
    \<and> (\<forall>i < length (th_messages h).
        th_messages h ! i = message_of_letter (th_ssl_history h ! i)
        \<or> attached_as (shown_by (connection_frames frames flows (th_uid h))) (message_of_letter (th_ssl_history h ! i)) (th_messages h ! i))
    \<and> (\<forall>j < length (th_messages h). \<forall>i < j.
        hm_kind (message_of_letter (th_ssl_history h ! i)) = hm_kind (message_of_letter (th_ssl_history h ! j))
        \<and> th_messages h ! j \<noteq> message_of_letter (th_ssl_history h ! j)
        \<longrightarrow> attached_as (shown_by (connection_frames frames flows (th_uid h))) (message_of_letter (th_ssl_history h ! i)) (th_messages h ! i))"
proof -
  obtain row fs where run: "handshake_from_row row (map_of (dict_of_last fl_uid flows) (th_uid h)) index fs = Inr (Some h)"
    and fs: "set fs \<subseteq> {f \<in> set (bounded_records frames). handshake_frame_uid f flows = Inr (Some (th_uid h))}"
    using assms by (rule normalize_handshakes_member)
  from run have hist: "th_ssl_history h = or_str (as_str 100 (row_get row ''ssl_history'')) []"
    and att: "attach_frames (messages_from_ssl_history (th_ssl_history h)) fs = Inr (th_messages h)"
    by (rule handshake_from_row_cases, blast)+
  have "length (th_ssl_history h) \<le> 100"
    using as_str_bounds [of 100 "row_get row ''ssl_history''"] by (auto simp: hist or_str_def split: option.split)
  then have ms: "messages_from_ssl_history (th_ssl_history h) = map message_of_letter (th_ssl_history h)"
    by (simp add: messages_from_ssl_history_def)
  have mono: "attached_as (shown_by (connection_frames frames flows (th_uid h))) m m'" if "attached_as (shown_by fs) m m'" for m m'
    using that fs by (fastforce simp: attached_as_def shown_by_def connection_frames_def)
  note spec = attach_frames_spec [OF att, unfolded ms length_map]
  show ?thesis using spec(1) spec(2,3) mono by (simp, blast)
qed

theorem frames_attach_soundly_witness:
  "attached_as (shown_by (connection_frames (JList [JObj sample_tls_frame]) [sample_flow] ''C1'')) (message_of_letter (CHR ''s''))
     (th_messages sample_tls_handshake ! 1)"
proof -
  have "th_messages sample_tls_handshake ! 1 \<noteq> message_of_letter (CHR ''s'')"
    by (simp add: sample_tls_handshake_def message_of_letter_def)
  with frames_attach_soundly [OF sample_handshakes_run, of sample_tls_handshake, THEN conjunct2, THEN conjunct1, rule_format, of 1]
  show ?thesis by (simp add: sample_tls_handshake_def)
qed

text \<open>A row that justifies a verdict of forward secrecy for its version.\<close>

definition row_forward_secret :: "json_row \<Rightarrow> string \<Rightarrow> bool" where
  "row_forward_secret row v =
    (v = ''TLSv13'' \<and> ((\<exists>g. as_int (row_get row ''server_key_share_group'') = Inr (Some g)) \<or> as_str 128 (row_get row ''curve'') \<noteq> None)
    \<or> v \<in> {''TLSv12'', ''TLSv11'', ''TLSv10'', ''SSLv3''}
      \<and> (\<exists>suite p. as_str 128 (row_get row ''cipher'') = Some suite \<and> p \<in> {''ECDHE'', ''DHE''}
           \<and> py_startswith suite (''TLS_'' @ p) \<and> \<not> kx_prefix_matches (drop 4 suite) (p @ ''_PSK'')))"

text \<open>C17: A verdict of forward secrecy goes back to the log. If the handshake of a connection is assessed as forward
  secret, no reconstruction conflict was found on its flow, a ServerHello is in the history, and its row either
  selects TLS 1.3 and reports the server's key share or a curve, or selects an older version with an ephemeral
  cipher suite that is not a pre-shared-key suite.\<close>

theorem forward_secrecy_from_logs:
  assumes "normalize_handshakes logs flows index frames = Inr hs" and "h \<in> set hs"
    and "fa_outcome (assess_forward_secrecy h) = FS_PRESENT"
  shows "has_server_hello (th_ssl_history h)
    \<and> (\<forall>f. map_of (dict_of_last fl_uid flows) (th_uid h) = Some f \<longrightarrow> fl_reconstruction_quality f \<noteq> RQ_CONFLICTING)
    \<and> (\<exists>row \<in> set (bounded_records (logs_get logs ''ssl.log'')). \<exists>v.
         as_str 64 (row_get row ''uid'') = Some (th_uid h) \<and> server_version row = Inr (Some v)
         \<and> row_forward_secret row v)"
proof -
  obtain row fs where row: "row \<in> set (bounded_records (logs_get logs ''ssl.log''))" "as_str 64 (row_get row ''uid'') = Some (th_uid h)"
    and run: "handshake_from_row row (map_of (dict_of_last fl_uid flows) (th_uid h)) index fs = Inr (Some h)"
    using assms(1,2) by (rule normalize_handshakes_member)
  from run have rv: "resolve_selected_version row (th_ssl_history h) = Inr (th_version h)" by (rule handshake_from_row_cases)
  from run obtain facts where kx: "kx_facts_of row (tv_selected (th_version h)) index (th_resumed h) = Inr facts"
      "th_key_exchange h = kx_evidence_of facts"
      "th_evidence_state h = handshake_evidence_state (map_of (dict_of_last fl_uid flows) (th_uid h)) (th_version h) (th_established h)"
    by (rule handshake_from_row_cases) blast
  from kx(1) obtain g where g: "as_int (row_get row ''server_key_share_group'') = Inr g"
      "(kf_group_name facts, kf_server_key_share_group facts) = selected_group index g (kf_curve facts)"
      "kf_curve facts = as_str 128 (row_get row ''curve'')" "kf_cipher_suite facts = as_str 128 (row_get row ''cipher'')"
      "kf_negotiated_version facts = tv_selected (th_version h)"
    by (rule kx_facts_fields)
  have fs_facts: "kf_negotiated_version facts = Some ''TLSv13'' \<and> (kf_server_key_share_group facts \<noteq> None \<or> truthy_str (kf_curve facts))
    \<or> kf_negotiated_version facts \<in> {Some ''TLSv12'', Some ''TLSv11'', Some ''TLSv10'', Some ''SSLv3''}
      \<and> (\<exists>suite p. kf_cipher_suite facts = Some suite \<and> p \<in> {''ECDHE'', ''DHE''}
           \<and> py_startswith suite (''TLS_'' @ p) \<and> \<not> kx_prefix_matches (drop 4 suite) (p @ ''_PSK''))"
    by (rule forward_secrecy_sound [OF _ _ _ assms(3)]) (simp_all add: g(5) kx(2) kx_evidence_of_def Let_def)
  have conflict: "fl_reconstruction_quality f \<noteq> RQ_CONFLICTING" if "map_of (dict_of_last fl_uid flows) (th_uid h) = Some f" for f
    using assms(3) kx(3) that unfolding assess_present_iff by (auto simp: handshake_evidence_state_def)
  from rv obtain chosen where chosen: "server_version row = Inr chosen"
      "tv_selected (th_version h) = (if has_server_hello (th_ssl_history h) then chosen else None)"
    by (rule resolve_selected)
  obtain v where v: "tv_selected (th_version h) = Some v" using fs_facts g(5) by auto
  then have sv: "has_server_hello (th_ssl_history h)" "server_version row = Inr (Some v)" using chosen by (auto split: if_splits)
  have "g \<noteq> None \<or> kf_curve facts \<noteq> None" if "kf_server_key_share_group facts \<noteq> None \<or> truthy_str (kf_curve facts)"
    using that g(2) by (auto simp: selected_group_def Let_def truthy_str_def split: if_splits option.splits)
  with fs_facts have "v = ''TLSv13'' \<and> (g \<noteq> None \<or> kf_curve facts \<noteq> None)
    \<or> v \<in> {''TLSv12'', ''TLSv11'', ''TLSv10'', ''SSLv3''}
      \<and> (\<exists>suite p. kf_cipher_suite facts = Some suite \<and> p \<in> {''ECDHE'', ''DHE''}
           \<and> py_startswith suite (''TLS_'' @ p) \<and> \<not> kx_prefix_matches (drop 4 suite) (p @ ''_PSK''))"
    unfolding g(5) v by blast
  then have "row_forward_secret row v" unfolding row_forward_secret_def using g(1,3,4) by (cases g) simp_all
  then show ?thesis using sv conflict row by blast
qed

theorem forward_secrecy_from_logs_witness:
  "fa_outcome (assess_forward_secrecy sample_tls_handshake) = FS_PRESENT \<and> has_server_hello (th_ssl_history sample_tls_handshake)"
proof -
  have "fa_outcome (assess_forward_secrecy sample_tls_handshake) = FS_PRESENT"
    by (simp add: assess_present_iff sample_tls_handshake_def usable_state_def tls12_present_def)
  with forward_secrecy_from_logs [OF sample_handshakes_run _ this] show ?thesis by simp
qed

text \<open>Every row with a key becomes one handshake, and they come out sorted. This needs numbers that \<open>int\<close> accepts
  and group codes of 16 bits: a larger one makes the whole normalization raise.\<close>

theorem handshake_per_row:
  assumes "\<And>row. row \<in> set (bounded_records (logs_get logs ''ssl.log'')) \<Longrightarrow> plain_row row \<and> small_share row"
    and "\<And>frame. frame \<in> set (bounded_records frames) \<Longrightarrow> plain_row frame" and "small_groups index"
  shows "\<exists>hs. normalize_handshakes logs flows index frames = Inr hs
    \<and> mset (map th_uid hs) = mset (List.map_filter (\<lambda>row. as_str 64 (row_get row ''uid'')) (bounded_records (logs_get logs ''ssl.log'')))
    \<and> sorted (map (\<lambda>h. (th_uid h, th_ssl_history h)) hs)"
proof -
  obtain d where d: "foldE (group_frame flows) (bounded_records frames) [] = Inr d"
    using foldE_ok [of "bounded_records frames" "group_frame flows" "[]"] group_frame_total assms(2) by blast
  let ?run = "\<lambda>row. handshake_from_row row (Option.bind (as_str 64 (row_get row ''uid'')) (map_of (dict_of_last fl_uid flows))) index
      (get_list d (or_str (as_str 64 (row_get row ''uid'')) []))"
  have plain: "plain_row f" if "f \<in> set (get_list d u)" for f u
    using group_fold_frames [OF d that] assms(2) by (auto simp: get_list_def)
  have "\<exists>xs. mapE ?run (bounded_records (logs_get logs ''ssl.log'')) = Inr xs"
    by (rule mapE_ok) (use assms(1,3) plain in \<open>blast intro: handshake_from_row_total\<close>)
  then obtain xs where xs: "mapE ?run (bounded_records (logs_get logs ''ssl.log'')) = Inr xs" by blast
  have "map th_uid (List.map_filter (\<lambda>x. x) xs) =
      List.map_filter (\<lambda>row. as_str 64 (row_get row ''uid'')) (bounded_records (logs_get logs ''ssl.log''))"
    using xs unfolding mapE_Inr_iff by (rule handshakes_uids)
  from arg_cong [OF this, of mset] show ?thesis using d xs by (simp add: normalize_handshakes_def Let_def)
qed

theorem handshake_per_row_witness:
  "\<exists>hs. normalize_handshakes sample_ssl_logs [sample_flow] empty_tls_parameter_index (JList [JObj sample_tls_frame]) = Inr hs
    \<and> mset (map th_uid hs) = {#''C1''#}"
proof -
  have "plain_row sample_ssl_row" "plain_row sample_tls_frame" by code_simp+
  moreover have "small_share sample_ssl_row" "small_groups empty_tls_parameter_index"
    by (simp_all add: small_share_def sample_ssl_row_def row_get_def small_groups_def empty_tls_parameter_index_def)
  ultimately show ?thesis
    using handshake_per_row [of sample_ssl_logs "JList [JObj sample_tls_frame]" empty_tls_parameter_index "[sample_flow]"]
    by (auto simp: sample_rows_ssl sample_uid List.map_filter_simps simp del: bounded_records.simps)
qed

text \<open>A handshake is fully visible only if the server answered in it. Under TLS 1.3 its certificate and its
  CertificateVerify are in the history, under older versions the handshake completed. A signature algorithm comes
  from a CertificateVerify frame of the same connection, and one is in the history.\<close>

theorem full_visibility_has_facts:
  assumes "normalize_handshakes logs flows index frames = Inr hs" and "h \<in> set hs"
  shows "(th_visibility h = HV_FULL \<longrightarrow> has_server_hello (th_ssl_history h)
      \<and> (if tv_selected (th_version h) = Some ''TLSv13'' then {CHR ''x'', CHR ''y''} \<subseteq> set (th_ssl_history h)
         else th_established h \<and> {CHR ''x'', CHR ''n''} \<inter> set (th_ssl_history h) \<noteq> {}))
    \<and> (\<forall>a. hs_algorithm (th_certificate_verify_signature h) = Some a \<longrightarrow>
        {CHR ''y'', CHR ''Y''} \<inter> set (th_ssl_history h) \<noteq> {}
        \<and> (\<exists>f \<in> set (connection_frames frames flows (th_uid h)). \<exists>types. tshark_handshake_types f = Inr types \<and> 15 \<in> set types
             \<and> decode_signature_scheme (raw_signature f) = Inr (Some a)))"
proof -
  obtain row fs where run: "handshake_from_row row (map_of (dict_of_last fl_uid flows) (th_uid h)) index fs = Inr (Some h)"
    and fs: "set fs \<subseteq> {f \<in> set (bounded_records frames). handshake_frame_uid f flows = Inr (Some (th_uid h))}"
    using assms by (rule normalize_handshakes_member)
  from run have rv: "resolve_selected_version row (th_ssl_history h) = Inr (th_version h)" by (rule handshake_from_row_cases)
  then have hello: "has_server_hello (th_ssl_history h)" if "tv_selected (th_version h) \<noteq> None"
    by (rule resolve_selected) (use that in \<open>simp split: if_splits\<close>)
  from run have sig: "certificate_verify_signature (th_ssl_history h) fs = Inr (th_certificate_verify_signature h)"
    and states: "(th_server_certificate_state h, th_certificate_verify_state h) = certificate_states (th_ssl_history h) (tv_selected (th_version h))"
    and vis: "th_visibility h = visibility (th_ssl_history h) (tv_selected (th_version h)) (th_established h)
           (th_server_certificate_state h) (th_certificate_verify_state h)"
    by (rule handshake_from_row_cases, blast)+
  have full: "th_visibility h = HV_FULL \<longrightarrow> has_server_hello (th_ssl_history h)
      \<and> (if tv_selected (th_version h) = Some ''TLSv13'' then {CHR ''x'', CHR ''y''} \<subseteq> set (th_ssl_history h)
         else th_established h \<and> {CHR ''x'', CHR ''n''} \<inter> set (th_ssl_history h) \<noteq> {})"
    using states hello by (simp add: vis visibility_def handshake_tls13_def certificate_states_def Let_def split: if_splits)
  have "\<forall>a. hs_algorithm (th_certificate_verify_signature h) = Some a \<longrightarrow> {CHR ''y'', CHR ''Y''} \<inter> set (th_ssl_history h) \<noteq> {}
      \<and> verify_loop fs = Inr (th_certificate_verify_signature h)"
    using sig [symmetric] by (auto simp: certificate_verify_signature_def signature_evidence_def split: if_splits)
  then show ?thesis using full verify_loop_algorithm [of fs] fs unfolding connection_frames_def by fastforce
qed

theorem full_visibility_has_facts_witness:
  "th_visibility sample_tls_handshake = HV_FULL \<and> has_server_hello (th_ssl_history sample_tls_handshake) \<and> th_established sample_tls_handshake"
proof -
  have "th_visibility sample_tls_handshake = HV_FULL" "tv_selected (th_version sample_tls_handshake) \<noteq> Some ''TLSv13''"
    by (simp_all add: sample_tls_handshake_def)
  with full_visibility_has_facts [OF sample_handshakes_run, of sample_tls_handshake, THEN conjunct1] show ?thesis by simp
qed

end
