(* ===== verification/Certificates_Correct.thy ===== *)
theory Certificates_Correct
  imports Certificates
begin

text \<open>
  What the certificate normalizer guarantees: the records of a run are bounded, distinct and in order, each stands for
  an extracted certificate whose bytes the store returns, and its facts are consistent; a validation verdict rests on
  bytes that were stored and on the answer of the path verifier. The laws of a store are the locale \<open>artifact_store\<close>,
  which both stores of the program interpret.
\<close>

section \<open>The main loop\<close>

text \<open>Every step of the loop adds one of the extracted certificates for a row of \<open>ssl.log\<close>.\<close>

definition index_within :: "extracted_certificate set \<Rightarrow> extracted_index \<Rightarrow> bool" where
  "index_within X ix = (\<forall>k x. map_of (ix_sha256 ix) k = Some x \<or> map_of (ix_sha1 ix) k = Some x \<or> map_of (ix_fuid ix) k = Some x
     \<longrightarrow> x \<in> X)"

lemma index_extracted_within: "index_within (set xs) (index_extracted xs)"
proof -
  have "index_within (set ys \<union> X) (fold index_step ys ix)" if "index_within X ix" for ys X ix
    using that
  proof (induction ys arbitrary: X ix)
    case (Cons y ys)
    have "index_within (insert y X) (index_step y ix)"
      using Cons.prems by (auto simp: index_within_def index_step_def update_conv' split: if_splits)
    then show ?case using Cons.IH [of "insert y X"] by simp
  qed simp
  from this [of "{}" "\<lparr>ix_sha256 = [], ix_sha1 = [], ix_fuid = []\<rparr>" "take max_certificates_per_run xs"]
  have "index_within (set (take max_certificates_per_run xs)) (index_extracted xs)"
    unfolding index_extracted_def by (simp add: index_within_def)
  then show ?thesis by (auto simp: index_within_def dest: in_set_takeD)
qed

lemma match_fingerprint_within: "index_within X ix \<Longrightarrow> match_fingerprint ix fp = Some x \<Longrightarrow> x \<in> X"
  by (auto simp: match_fingerprint_def index_within_def Let_def split: if_splits)

lemma file_of_row_within: "index_within X ix \<Longrightarrow> file_of_row ix row = Some x \<Longrightarrow> x \<in> X"
  by (auto simp: file_of_row_def index_within_def Let_def or_else_def bind_eq_Some_conv split: option.splits)

lemma files_for_uid_within:
  assumes "index_within X ix"
  shows "set (files_for_uid logs ix uid) \<subseteq> X"
proof -
  have "set (fold (files_step ix uid) rows found) \<subseteq> X" if "set found \<subseteq> X" for rows found
    using that
  proof (induction rows arbitrary: found)
    case (Cons row rows)
    have "set (files_step ix uid row found) \<subseteq> X"
      using Cons.prems file_of_row_within [OF assms] by (cases row) (auto simp: files_step_def split: option.splits)
    then show ?case using Cons.IH by simp
  qed simp
  then show ?thesis by (simp add: files_for_uid_def)
qed

definition row_visible :: "json_row list \<Rightarrow> (string, tls_handshake) dict \<Rightarrow> row_context \<Rightarrow> bool" where
  "row_visible rows hs rc = (\<exists>row \<in> set rows. as_str 64 (row_get row ''uid'') = Some (rc_uid rc)
     \<and> \<not> hidden_certificate (map_of hs (rc_uid rc)) \<and> epoch_to_datetime (row_get row ''ts'') = Inr (rc_capture_time rc)
     \<and> rc_frames rc = certificate_frames (map_of hs (rc_uid rc)))"

lemma certificate_row_invariant:
  assumes step: "\<And>rc role index item tr a b. item \<in> X \<Longrightarrow> row_visible rows hs rc \<Longrightarrow> P a
      \<Longrightarrow> add_certificate run ops rc role index item tr a = Inr b \<Longrightarrow> P b"
    and "index_within X ix" and "row \<in> set rows" and "P a" and "certificate_row run ops logs ix hs row a = Inr b"
  shows "P b"
proof (cases "as_str 64 (row_get row ''uid'')")
  case None
  then show ?thesis using assms(4,5) by (simp add: certificate_row_def)
next
  case (Some uid)
  show ?thesis
  proof (cases "hidden_certificate (map_of hs uid)")
    case True
    then show ?thesis using assms(4,5) Some by (simp add: certificate_row_def)
  next
    case False
    define fps where "fps = map (Pair CR_SERVER) (enumerate 0 (as_str_list 64 max_chain_depth (row_get row ''cert_chain_fps'')))
        @ map (Pair CR_CLIENT) (enumerate 0 (as_str_list 64 max_chain_depth (row_get row ''client_cert_chain_fps'')))"
    obtain ct where ct: "epoch_to_datetime (row_get row ''ts'') = Inr ct"
      using assms(5) Some False by (auto simp: certificate_row_def py_simps)
    define rc where "rc = \<lparr>rc_uid = uid, rc_frames = certificate_frames (map_of hs uid), rc_capture_time = ct\<rparr>"
    have vis: "row_visible rows hs rc" using assms(3) Some False ct by (auto simp: row_visible_def rc_def)
    obtain c where c: "foldE (chain_step run ops ix rc) fps a = Inr c"
      and b: "b = c \<or> foldE (fallback_step run ops (truncated_fuids logs) rc) (enumerate 0 (files_for_uid logs ix uid)) c = Inr b"
      using assms(5) Some False ct unfolding fps_def rc_def certificate_row_def
      by (auto simp: py_simps Let_def split: if_splits)
    have "P c" using c \<open>P a\<close>
    proof (rule foldE_invariant)
      fix x a\<^sub>1 b\<^sub>1
      assume "P a\<^sub>1" and r: "chain_step run ops ix rc x a\<^sub>1 = Inr b\<^sub>1"
      obtain role i fp where x: "x = (role, i, fp)" by (cases x)
      show "P b\<^sub>1"
      proof (cases "match_fingerprint ix fp")
        case None
        then show ?thesis using r \<open>P a\<^sub>1\<close> x by (simp add: chain_step_def)
      next
        case (Some item)
        then show ?thesis using r step [OF match_fingerprint_within [OF assms(2) Some] vis \<open>P a\<^sub>1\<close>] x by (simp add: chain_step_def)
      qed
    qed
    then show ?thesis
    proof (cases "b = c")
      case False
      then have "foldE (fallback_step run ops (truncated_fuids logs) rc) (enumerate 0 (files_for_uid logs ix uid)) c = Inr b" using b by blast
      then show ?thesis using \<open>P c\<close>
      proof (rule foldE_invariant)
        fix x a\<^sub>1 b\<^sub>1
        assume x: "x \<in> set (enumerate 0 (files_for_uid logs ix uid))" and "P a\<^sub>1"
          and r: "fallback_step run ops (truncated_fuids logs) rc x a\<^sub>1 = Inr b\<^sub>1"
        obtain i item where xi: "x = (i, item)" by (cases x)
        then have "item \<in> X" using x files_for_uid_within [OF assms(2), of logs uid] by (auto simp: in_set_enumerate_eq)
        then show "P b\<^sub>1" using step [OF _ vis \<open>P a\<^sub>1\<close>] r xi by (auto simp: fallback_step_def)
      qed
    qed simp
  qed
qed

abbreviation init_acc :: "'s \<Rightarrow> 's certificate_acc" where
  "init_acc st \<equiv> \<lparr>ca_records = [], ca_seen = [], ca_store = st\<rparr>"

lemma rows_invariant:
  assumes "\<And>rc role index item tr a b. item \<in> set extracted \<Longrightarrow> row_visible rows hs rc \<Longrightarrow> P a
      \<Longrightarrow> add_certificate run ops rc role index item tr a = Inr b \<Longrightarrow> P b"
    and "P (init_acc st)" and "foldE (certificate_row run ops logs (index_extracted extracted) hs) rows (init_acc st) = Inr a"
  shows "P a"
  using assms(3,2) by (rule foldE_invariant) (rule certificate_row_invariant [OF assms(1) index_extracted_within])

definition clean_hostname :: "certificate_run \<Rightarrow> certificate_run" where
  "clean_hostname run = run\<lparr>cn_expected_hostname := (if truthy_str (cn_expected_hostname run) \<and> py_strip (the (cn_expected_hostname run)) \<noteq> []
     then Some (py_strip (the (cn_expected_hostname run))) else None)\<rparr>"

lemma normalize_certificates_cases:
  assumes "normalize_certificates run ops logs extracted handshakes trust st = Inr (rs, st')"
  obtains a where
    "foldE (certificate_row run ops logs (index_extracted extracted) (dict_of_last th_uid handshakes))
       (bounded_records (logs_get logs ''ssl.log'')) (init_acc st) = Inr a"
    and "case trust of None \<Rightarrow> rs = sort_key certificate_sort_key (ca_records a) \<and> st' = ca_store a
       | Some snapshot \<Rightarrow> \<exists>ssl. ssl_identity_by_uid logs = Inr ssl
           \<and> attach_loop (clean_hostname run) ops snapshot ssl (sort_key certificate_sort_key (ca_records a))
               (sort_key certificate_sort_key (ca_records a)) (ca_store a) = Inr (rs, st')"
proof -
  obtain a where a: "foldE (certificate_row run ops logs (index_extracted extracted) (dict_of_last th_uid handshakes))
       (bounded_records (logs_get logs ''ssl.log'')) (init_acc st) = Inr a"
    using assms by (auto simp: normalize_certificates_def py_simps Let_def)
  have host: "run\<lparr>cn_expected_hostname := (if truthy_str hostname then hostname else None)\<rparr> = clean_hostname run"
    if "hostname = (if truthy_str (cn_expected_hostname run) then Some (py_strip (the (cn_expected_hostname run))) else None)" for hostname
    using that by (auto simp: clean_hostname_def truthy_str_def split: if_splits)
  show thesis using assms a
    by (intro that [OF a]) (auto simp: normalize_certificates_def py_simps Let_def attach_validations_def host split: option.splits)
qed

section \<open>The contract of an artifact store\<close>

definition holds :: "'s artifact_ops \<Rightarrow> 's \<Rightarrow> string \<Rightarrow> bool" where
  "holds ops st digest = (\<exists>payload st'. ao_get ops digest st = Inr (payload, st'))"

text \<open>A certificate whose bytes have one of the given digests, and the digests of the intermediates of a chain.\<close>

definition loaded_from :: "pki_library \<Rightarrow> string set \<Rightarrow> x509_certificate \<Rightarrow> bool" where
  "loaded_from lib digests c = (\<exists>payload facts. sha256_bytes payload \<in> digests \<and> pl_load lib payload = Inr facts \<and> xf_certificate facts = c)"

definition intermediate_digests :: "certificate_evidence list \<Rightarrow> string set" where
  "intermediate_digests items = ce_der_sha256 ` {i \<in> set items. ce_chain_index i \<noteq> 0 \<and> ce_syntax_valid i}"

lemma loaded_from_mono: "loaded_from lib D c \<Longrightarrow> D \<subseteq> E \<Longrightarrow> loaded_from lib E c"
  by (auto simp: loaded_from_def)

lemma intermediate_digests_Cons: "intermediate_digests items \<subseteq> intermediate_digests (item # items)"
  by (auto simp: intermediate_digests_def)

text \<open>What a favourable verdict rests on: the path verifier accepted a leaf whose bytes have the digest of the record, with
  intermediates among those of the chain; and the name matched the leaf.\<close>

definition path_accepted :: "certificate_run \<Rightarrow> trust_store_snapshot \<Rightarrow> certificate_evidence \<Rightarrow> certificate_evidence list \<Rightarrow> py_datetime \<Rightarrow> bool" where
  "path_accepted run snapshot item chain t = (\<exists>leaf intermediates. loaded_from (cn_library run) {ce_der_sha256 item} leaf
     \<and> (\<forall>c \<in> set intermediates. loaded_from (cn_library run) (intermediate_digests chain) c) \<and> length intermediates < max_chain_depth
     \<and> pl_verify (cn_library run) (ts_anchors snapshot) (dt_wall (as_utc t)) max_chain_depth leaf intermediates = None)"

definition name_matched :: "certificate_run \<Rightarrow> certificate_evidence \<Rightarrow> string option \<Rightarrow> string option \<Rightarrow> bool" where
  "name_matched run item server_name reference = (reference \<noteq> None \<and> reference = fst (reference_identity (cn_expected_hostname run) server_name)
     \<and> (\<exists>payload facts extension. sha256_bytes payload = ce_der_sha256 item \<and> pl_load (cn_library run) payload = Inr facts
         \<and> xf_san facts = Inr extension
         \<and> im_match (match_service_identity (pl_ip_address (cn_library run)) (pl_idna (cn_library run)) reference
              (extract_san_entries (pl_idna (cn_library run)) extension)) = Some True))"

definition verdict_sound :: "certificate_run \<Rightarrow> trust_store_snapshot \<Rightarrow> certificate_evidence list
    \<Rightarrow> py_datetime option \<times> string option \<Rightarrow> certificate_evidence \<Rightarrow> certificate_validation \<Rightarrow> bool" where
  "verdict_sound run snapshot chain ssl item v =
    ((cv_path_valid_at_capture_time v = Some True \<longrightarrow> (\<exists>t. fst ssl = Some t \<and> path_accepted run snapshot item chain t))
     \<and> (cv_path_valid_at_analysis_time v = Some True \<longrightarrow> path_accepted run snapshot item chain (cn_analysis_time run))
     \<and> (cv_identity_match v = Some True \<longrightarrow> name_matched run item (snd ssl) (cv_reference_identity v))
     \<and> cv_revocation_status v = RS_UNKNOWN)"

lemma path_result_accepts:
  assumes "cr_valid (path_result run snapshot leaf cs t) = Some True"
  shows "length cs < max_chain_depth
    \<and> pl_verify (cn_library run) (ts_anchors snapshot) (dt_wall (as_utc t)) max_chain_depth (xf_certificate leaf) cs = None"
  using assms by (auto simp: path_result_def validate_certificate_path_def Let_def split: if_splits option.splits)

lemma unvalidated_sound: "mk_validation (unvalidated snapshot reference b codes) = Inr v \<Longrightarrow> verdict_sound run snapshot chain ssl item v"
  by (auto simp: mk_validation_def py_simps unvalidated_def verdict_sound_def)

lemma match_needs_reference: "im_match (match_service_identity ip idna None entries) = None"
  by (simp add: match_service_identity_def)

lemma loaded_leaf_sound:
  assumes "validate_loaded_leaf run snapshot (reference_identity (cn_expected_hostname run) (snd ssl)) leaf cs (fst ssl) = Inr v"
    and "\<exists>payload. sha256_bytes payload = ce_der_sha256 item \<and> pl_load (cn_library run) payload = Inr leaf"
    and "\<forall>c \<in> set cs. loaded_from (cn_library run) (intermediate_digests chain) c"
  shows "verdict_sound run snapshot chain ssl item v"
proof -
  let ?ref = "reference_identity (cn_expected_hostname run) (snd ssl)"
  obtain extension where ext: "xf_san leaf = Inr extension"
    and v: "cv_path_valid_at_capture_time v = Option.bind (fst ssl) (\<lambda>t. cr_valid (path_result run snapshot leaf cs t))"
      "cv_path_valid_at_analysis_time v = cr_valid (path_result run snapshot leaf cs (cn_analysis_time run))"
      "cv_identity_match v = im_match (match_service_identity (pl_ip_address (cn_library run)) (pl_idna (cn_library run)) (fst ?ref)
         (extract_san_entries (pl_idna (cn_library run)) extension))"
      "cv_reference_identity v = fst ?ref" "cv_revocation_status v = RS_UNKNOWN"
    using assms(1) by (auto simp: validate_loaded_leaf_def py_simps Let_def mk_validation_def unvalidated_def)
  have leaf: "loaded_from (cn_library run) {ce_der_sha256 item} (xf_certificate leaf)" using assms(2) by (auto simp: loaded_from_def)
  have path: "path_accepted run snapshot item chain t" if "cr_valid (path_result run snapshot leaf cs t) = Some True" for t
    using path_result_accepts [OF that] leaf assms(3) unfolding path_accepted_def by blast
  have name: "name_matched run item (snd ssl) (fst ?ref)" if "cv_identity_match v = Some True"
  proof -
    have "fst ?ref \<noteq> None" using that v(3) match_needs_reference by (metis option.distinct(1))
    then show ?thesis using that v(3) ext assms(2) unfolding name_matched_def by auto
  qed
  show ?thesis using v path name unfolding verdict_sound_def by (auto simp: bind_eq_Some_conv)
qed

text \<open>What attaching the validations makes of one record.\<close>

definition attached :: "certificate_run \<Rightarrow> trust_store_snapshot \<Rightarrow> (string, py_datetime option \<times> string option) dict
    \<Rightarrow> certificate_evidence list \<Rightarrow> certificate_evidence \<Rightarrow> certificate_evidence \<Rightarrow> bool" where
  "attached run snapshot ssl records item r =
    (if ce_role item \<noteq> CR_SERVER \<or> ce_chain_index item \<noteq> 0 then r = item
     else (\<exists>v. r = item\<lparr>ce_validation := Some v\<rparr>
       \<and> verdict_sound run snapshot (filter (\<lambda>c. ce_uid c = ce_uid item \<and> ce_role c = CR_SERVER) records)
           (case map_of ssl (ce_uid item) of Some x \<Rightarrow> x | None \<Rightarrow> (None, None)) item v))"

locale artifact_store =
  fixes ops :: "'s artifact_ops"
    and valid :: "'s \<Rightarrow> bool"
  assumes put_ok: "valid st \<Longrightarrow> ao_put ops payload st = Inr (digest, st') \<Longrightarrow>
      valid st' \<and> digest = sha256_bytes payload \<and> holds ops st' digest"
    and put_keeps: "valid st \<Longrightarrow> ao_put ops payload st = Inr (digest, st') \<Longrightarrow> holds ops st d \<Longrightarrow> holds ops st' d"
    and get_ok: "valid st \<Longrightarrow> ao_get ops digest st = Inr (payload, st') \<Longrightarrow> valid st' \<and> sha256_bytes payload = digest"
    and get_keeps: "valid st \<Longrightarrow> ao_get ops digest st = Inr (payload, st') \<Longrightarrow> holds ops st d \<Longrightarrow> holds ops st' d"
begin

text \<open>A state of the main loop: each record stands for one of the extracted certificates, and its bytes are stored.\<close>

definition stands_for :: "extracted_certificate set \<Rightarrow> 's \<Rightarrow> certificate_evidence \<Rightarrow> bool" where
  "stands_for X st r = (\<exists>x \<in> X. ce_der_sha256 r = sha256_bytes (xt_payload x) \<and> holds ops st (ce_der_sha256 r))"

definition cert_acc_ok :: "extracted_certificate set \<Rightarrow> 's certificate_acc \<Rightarrow> bool" where
  "cert_acc_ok X a = (valid (ca_store a) \<and> (\<forall>r \<in> set (ca_records a). stands_for X (ca_store a) r))"

lemma to_evidence_digest: "to_evidence lib t w payload digest uid i role fs ct tr = Inr r \<Longrightarrow> ce_der_sha256 r = digest"
  by (auto simp: to_evidence_def py_simps Let_def)

lemma add_certificate_ok:
  assumes "cert_acc_ok X a" and "item \<in> X" and "add_certificate run ops rc role index item tr a = Inr b"
  shows "cert_acc_ok X b"
proof -
  obtain digest st r where put: "ao_put ops (xt_payload item) (ca_store a) = Inr (digest, st)"
    and r: "to_evidence (cn_library run) (cn_analysis_time run) (cn_expiry_warning run) (xt_payload item) digest (rc_uid rc) index
        role (rc_frames rc) (rc_capture_time rc) tr = Inr r"
    and b: "b = add_record r (a\<lparr>ca_store := st\<rparr>)"
    using assms(3) by (auto simp: add_certificate_def py_simps)
  have v: "valid (ca_store a)" using assms(1) by (simp add: cert_acc_ok_def)
  note ok = put_ok [OF v put] and keep = put_keeps [OF v put]
  have "stands_for X st r" using to_evidence_digest [OF r] ok assms(2) by (auto simp: stands_for_def)
  moreover have "stands_for X st q" if "q \<in> set (ca_records a)" for q
    using assms(1) that keep by (auto simp: cert_acc_ok_def stands_for_def)
  ultimately show ?thesis using ok by (auto simp: b cert_acc_ok_def add_record_def)
qed

lemma load_ok:
  assumes "valid st" and "load_x509 lib ops digest st = Inr (r, st')"
  shows "valid st' \<and> (\<forall>d. holds ops st d \<longrightarrow> holds ops st' d)
    \<and> (\<forall>c. r = Some c \<longrightarrow> (\<exists>payload. sha256_bytes payload = digest \<and> pl_load lib payload = Inr c))"
proof (cases "ao_get ops digest st")
  case (Inl e)
  then show ?thesis using assms by (auto simp: load_x509_def split: if_splits)
next
  case (Inr x)
  then obtain payload st\<^sub>1 where g: "ao_get ops digest st = Inr (payload, st\<^sub>1)" by (cases x) simp
  then have "st' = st\<^sub>1" "\<forall>c. r = Some c \<longrightarrow> pl_load lib payload = Inr c"
    using assms(2) by (auto simp: load_x509_def split: sum.splits if_splits)
  then show ?thesis using get_ok [OF assms(1) g] get_keeps [OF assms(1) g] by auto
qed

lemma load_intermediates_ok:
  assumes "valid st" and "load_intermediates lib ops items st = Inr (cs, st')"
  shows "valid st' \<and> (\<forall>d. holds ops st d \<longrightarrow> holds ops st' d)
    \<and> (\<forall>c \<in> set cs. loaded_from lib (intermediate_digests items) c)"
  using assms
proof (induction items arbitrary: st cs)
  case (Cons item items)
  note mono = loaded_from_mono [OF _ intermediate_digests_Cons]
  show ?case
  proof (cases "ce_chain_index item = 0 \<or> \<not> ce_syntax_valid item")
    case True
    then show ?thesis using Cons.IH [OF Cons.prems(1)] Cons.prems(2) mono by auto
  next
    case False
    then obtain p st\<^sub>1 rest where l: "load_x509 lib ops (ce_der_sha256 item) st = Inr (p, st\<^sub>1)"
      and rest: "load_intermediates lib ops items st\<^sub>1 = Inr (rest, st')"
      and cs: "cs = (case p of None \<Rightarrow> rest | Some c \<Rightarrow> xf_certificate c # rest)"
      using Cons.prems(2) by (auto simp: py_simps)
    note ok = load_ok [OF Cons.prems(1) l]
    then have ih: "valid st' \<and> (\<forall>d. holds ops st\<^sub>1 d \<longrightarrow> holds ops st' d) \<and> (\<forall>c \<in> set rest. loaded_from lib (intermediate_digests items) c)"
      using Cons.IH [OF _ rest] by blast
    have "ce_der_sha256 item \<in> intermediate_digests (item # items)" using False by (auto simp: intermediate_digests_def)
    then have "loaded_from lib (intermediate_digests (item # items)) (xf_certificate c)" if "p = Some c" for c
      using ok that unfolding loaded_from_def by metis
    moreover have "\<forall>c \<in> set rest. loaded_from lib (intermediate_digests (item # items)) c" using ih mono by blast
    ultimately have "\<forall>c \<in> set cs. loaded_from lib (intermediate_digests (item # items)) c" by (cases p) (auto simp: cs)
    then show ?thesis using ok ih by blast
  qed
qed simp

lemma load_leaf_digest:
  assumes "valid st" and "load_x509 lib ops digest st = Inr (Some c, st')"
  shows "\<exists>payload. sha256_bytes payload = digest \<and> pl_load lib payload = Inr c"
  using load_ok [OF assms] by blast

lemma validate_store:
  assumes "valid st" and "validate_server_leaf run ops snapshot leaf chain ct sn st = Inr (v, st')"
  shows "valid st' \<and> (\<forall>d. holds ops st d \<longrightarrow> holds ops st' d)"
proof (cases "ce_syntax_valid leaf")
  case False
  then show ?thesis using assms by (auto simp: validate_server_leaf_def py_simps Let_def)
next
  case True
  then obtain p st\<^sub>1 where l: "load_x509 (cn_library run) ops (ce_der_sha256 leaf) st = Inr (p, st\<^sub>1)"
    using assms(2) by (auto simp: validate_server_leaf_def py_simps Let_def)
  note ok = load_ok [OF assms(1) l]
  show ?thesis
  proof (cases p)
    case None
    then show ?thesis using assms(2) True l ok by (auto simp: validate_server_leaf_def py_simps Let_def)
  next
    case (Some c)
    then obtain cs st\<^sub>2 where "load_intermediates (cn_library run) ops chain st\<^sub>1 = Inr (cs, st\<^sub>2)" "st' = st\<^sub>2"
      using assms(2) True l by (auto simp: validate_server_leaf_def py_simps Let_def)
    then show ?thesis using ok load_intermediates_ok by blast
  qed
qed

lemma attach_loop_store:
  assumes "valid st" and "attach_loop run ops snapshot ssl records items st = Inr (rs, st')"
  shows "valid st' \<and> (\<forall>d. holds ops st d \<longrightarrow> holds ops st' d)"
  using assms
proof (induction items arbitrary: st rs)
  case (Cons item items)
  show ?case
  proof (cases "ce_role item \<noteq> CR_SERVER \<or> ce_chain_index item \<noteq> 0")
    case True
    then show ?thesis using Cons by (auto simp: py_simps)
  next
    case False
    then obtain chain ct sn v st\<^sub>1 rest where v: "validate_server_leaf run ops snapshot item chain ct sn st = Inr (v, st\<^sub>1)"
      and rest: "attach_loop run ops snapshot ssl records items st\<^sub>1 = Inr (rest, st')"
      using Cons.prems(2) by (auto simp: py_simps Let_def split: prod.splits)
    note ok = validate_store [OF Cons.prems(1) v]
    then show ?thesis using Cons.IH [OF _ rest] by blast
  qed
qed simp

lemma validate_sound:
  assumes "valid st" and "validate_server_leaf run ops snapshot item chain (fst ssl) (snd ssl) st = Inr (v, st')"
  shows "verdict_sound run snapshot chain ssl item v"
proof (cases "ce_syntax_valid item")
  case False
  then show ?thesis using assms(2) by (auto simp: validate_server_leaf_def py_simps Let_def intro: unvalidated_sound)
next
  case True
  then obtain p st\<^sub>1 where l: "load_x509 (cn_library run) ops (ce_der_sha256 item) st = Inr (p, st\<^sub>1)"
    using assms(2) by (auto simp: validate_server_leaf_def py_simps Let_def)
  note ok = load_ok [OF assms(1) l]
  show ?thesis
  proof (cases p)
    case None
    then show ?thesis using assms(2) True l by (auto simp: validate_server_leaf_def py_simps Let_def intro: unvalidated_sound)
  next
    case (Some c)
    then obtain cs st\<^sub>2 where cs: "load_intermediates (cn_library run) ops chain st\<^sub>1 = Inr (cs, st\<^sub>2)"
      and v: "validate_loaded_leaf run snapshot (reference_identity (cn_expected_hostname run) (snd ssl)) c cs (fst ssl) = Inr v"
      using assms(2) True l by (auto simp: validate_server_leaf_def py_simps Let_def)
    have "valid st\<^sub>1" using ok by blast
    then show ?thesis using loaded_leaf_sound [OF v] load_leaf_digest [OF assms(1)] l Some load_intermediates_ok [OF _ cs] by blast
  qed
qed

lemma attach_loop_sound:
  assumes "valid st" and "attach_loop run ops snapshot ssl records items st = Inr (rs, st')"
  shows "list_all2 (attached run snapshot ssl records) items rs"
  using assms
proof (induction items arbitrary: st rs)
  case (Cons item items)
  show ?case
  proof (cases "ce_role item \<noteq> CR_SERVER \<or> ce_chain_index item \<noteq> 0")
    case True
    then obtain rest where "attach_loop run ops snapshot ssl records items st = Inr (rest, st')" "rs = item # rest"
      using Cons.prems(2) by (auto simp: py_simps)
    then show ?thesis using Cons.IH [OF Cons.prems(1)] True by (simp add: attached_def)
  next
    case False
    let ?x = "case map_of ssl (ce_uid item) of Some x \<Rightarrow> x | None \<Rightarrow> (None, None)"
    obtain v st\<^sub>1 rest where
      v: "validate_server_leaf run ops snapshot item (filter (\<lambda>c. ce_uid c = ce_uid item \<and> ce_role c = CR_SERVER) records)
           (fst ?x) (snd ?x) st = Inr (v, st\<^sub>1)"
      and rest: "attach_loop run ops snapshot ssl records items st\<^sub>1 = Inr (rest, st')" and rs: "rs = item\<lparr>ce_validation := Some v\<rparr> # rest"
      using Cons.prems(2) False by (auto simp: py_simps Let_def split_beta)
    have "valid st\<^sub>1" using validate_store [OF Cons.prems(1) v] by blast
    then show ?thesis using Cons.IH [OF _ rest] validate_sound [OF Cons.prems(1) v] False by (auto simp: rs attached_def)
  qed
qed simp

lemma rows_store:
  assumes "valid st" and "foldE (certificate_row run ops logs (index_extracted extracted) hs) rows (init_acc st) = Inr a"
  shows "cert_acc_ok (set extracted) a"
proof (rule rows_invariant [OF _ _ assms(2)])
  show "cert_acc_ok (set extracted) b"
    if "item \<in> set extracted" "cert_acc_ok (set extracted) a" "add_certificate run ops rc role index item tr a = Inr b" for rc role index item tr a b
    using that(2,1,3) by (rule add_certificate_ok)
  show "cert_acc_ok (set extracted) (init_acc st)" using assms(1) by (simp add: cert_acc_ok_def)
qed

lemma normalize_stored:
  assumes "valid st" and "normalize_certificates run ops logs extracted handshakes trust st = Inr (rs, st')"
  shows "valid st' \<and> (\<forall>r \<in> set rs. \<exists>x \<in> set extracted. ce_der_sha256 r = sha256_bytes (xt_payload x) \<and> holds ops st' (ce_der_sha256 r))"
proof -
  obtain a where a: "foldE (certificate_row run ops logs (index_extracted extracted) (dict_of_last th_uid handshakes))
       (bounded_records (logs_get logs ''ssl.log'')) (init_acc st) = Inr a"
    and rs: "case trust of None \<Rightarrow> rs = sort_key certificate_sort_key (ca_records a) \<and> st' = ca_store a
       | Some snapshot \<Rightarrow> \<exists>ssl. ssl_identity_by_uid logs = Inr ssl
           \<and> attach_loop (clean_hostname run) ops snapshot ssl (sort_key certificate_sort_key (ca_records a))
               (sort_key certificate_sort_key (ca_records a)) (ca_store a) = Inr (rs, st')"
    using assms(2) by (rule normalize_certificates_cases)
  have acc: "valid (ca_store a)" "\<forall>r \<in> set (ca_records a). stands_for (set extracted) (ca_store a) r"
    using rows_store [OF assms(1) a] by (auto simp: cert_acc_ok_def)
  show ?thesis
  proof (cases trust)
    case None
    then show ?thesis using rs acc by (auto simp: stands_for_def)
  next
    case (Some snapshot)
    then obtain ssl where l: "attach_loop (clean_hostname run) ops snapshot ssl (sort_key certificate_sort_key (ca_records a))
        (sort_key certificate_sort_key (ca_records a)) (ca_store a) = Inr (rs, st')" using rs by auto
    have same: "ce_der_sha256 r \<in> ce_der_sha256 ` set (ca_records a)" if r: "r \<in> set rs" for r
    proof -
      obtain i where "i < length rs" "rs ! i = r" using r unfolding in_set_conv_nth by blast
      then have "attached (clean_hostname run) snapshot ssl (sort_key certificate_sort_key (ca_records a))
          (sort_key certificate_sort_key (ca_records a) ! i) r" "i < length (sort_key certificate_sort_key (ca_records a))"
        using list_all2_nthD2 [OF attach_loop_sound [OF acc(1) l]] list_all2_lengthD [OF attach_loop_sound [OF acc(1) l]] by auto
      then have "ce_der_sha256 r = ce_der_sha256 (sort_key certificate_sort_key (ca_records a) ! i)"
        "sort_key certificate_sort_key (ca_records a) ! i \<in> set (ca_records a)"
        using nth_mem [of i "sort_key certificate_sort_key (ca_records a)"] by (auto simp: attached_def split: if_splits)
      then show ?thesis by auto
    qed
    show ?thesis using attach_loop_store [OF acc(1) l] acc(2) same by (fastforce simp: stands_for_def)
  qed
qed

lemma normalize_attached:
  assumes "valid st" and "normalize_certificates run ops logs extracted handshakes (Some snapshot) st = Inr (rs, st')"
  shows "\<exists>ssl records. ssl_identity_by_uid logs = Inr ssl \<and> list_all2 (attached (clean_hostname run) snapshot ssl records) records rs"
proof -
  obtain a where a: "foldE (certificate_row run ops logs (index_extracted extracted) (dict_of_last th_uid handshakes))
       (bounded_records (logs_get logs ''ssl.log'')) (init_acc st) = Inr a"
    and rs: "case Some snapshot of None \<Rightarrow> rs = sort_key certificate_sort_key (ca_records a) \<and> st' = ca_store a
       | Some snapshot \<Rightarrow> \<exists>ssl. ssl_identity_by_uid logs = Inr ssl
           \<and> attach_loop (clean_hostname run) ops snapshot ssl (sort_key certificate_sort_key (ca_records a))
               (sort_key certificate_sort_key (ca_records a)) (ca_store a) = Inr (rs, st')"
    using assms(2) by (rule normalize_certificates_cases)
  have "valid (ca_store a)" using rows_store [OF assms(1) a] by (simp add: cert_acc_ok_def)
  then show ?thesis using rs attach_loop_sound by fastforce
qed

end

text \<open>Both stores of the program keep the contract. A store is valid if its entries have the digests they are filed under;
  the disk of a \<open>CertificateStore\<close> is checked on reading, and may hold anything.\<close>

definition memory_valid :: "(string, bytes) dict \<Rightarrow> bool" where
  "memory_valid items = (\<forall>d p. map_of items d = Some p \<longrightarrow> sha256_bytes p = d)"

definition store_valid :: "certificate_store \<Rightarrow> bool" where
  "store_valid st = memory_valid (cst_memory st)"

interpretation mem: artifact_store memory_ops memory_valid
  by unfold_locales
     (auto simp: memory_ops_def memory_put_def memory_get_def memory_valid_def holds_def Let_def update_conv' split: option.splits if_splits)

lemma store_put_result:
  assumes "store_put payload st = Inr (digest, st')"
  shows "digest = sha256_bytes payload \<and> cst_memory st' = AList.update digest payload (cst_memory st)
    \<and> cst_disk st' = map_option (AList.update digest payload) (cst_disk st)"
  using assms by (auto simp: store_put_def Let_def split: if_splits option.splits)

lemma store_holds: "holds store_ops st d \<longleftrightarrow> is_sha256_hex d \<and> (map_of (cst_memory st) d \<noteq> None
    \<or> (\<exists>disk payload. cst_disk st = Some disk \<and> map_of disk d = Some payload \<and> sha256_bytes payload = d))"
  by (auto simp: holds_def store_ops_def store_get_def split: option.splits)

lemma store_get_result:
  assumes "store_get digest st = Inr (payload, st')"
  shows "cst_disk st' = cst_disk st \<and> (map_of (cst_memory st) digest = Some payload \<and> st' = st
    \<or> sha256_bytes payload = digest \<and> cst_memory st' = AList.update digest payload (cst_memory st))"
  using assms by (auto simp: store_get_def split: if_splits option.splits)

interpretation disk: artifact_store store_ops store_valid
proof unfold_locales
  fix st payload digest st' d
  assume v: "store_valid st" and p: "ao_put store_ops payload st = Inr (digest, st')"
  note r = store_put_result [of payload st digest st'] p [unfolded store_ops_def, simplified]
  show "store_valid st' \<and> digest = sha256_bytes payload \<and> holds store_ops st' digest"
    using v r unfolding store_holds by (auto simp: store_valid_def memory_valid_def update_conv')
  show "holds store_ops st' d" if "holds store_ops st d"
    using that r unfolding store_holds by (auto simp: update_conv')
next
  fix st digest payload st' d
  assume v: "store_valid st" and g: "ao_get store_ops digest st = Inr (payload, st')"
  note r = store_get_result [of digest st payload st'] g [unfolded store_ops_def, simplified]
  show "store_valid st' \<and> sha256_bytes payload = digest"
    using v r by (auto simp: store_valid_def memory_valid_def update_conv' split: if_splits)
  show "holds store_ops st' d" if "holds store_ops st d"
    using that r unfolding store_holds by (auto simp: update_conv')
qed

section \<open>The facts of a record\<close>

definition facts_ok :: "certificate_run \<Rightarrow> py_datetime option \<Rightarrow> certificate_evidence \<Rightarrow> bool" where
  "facts_ok run capture_time r =
    (if ce_syntax_valid r then
       (\<exists>nb na. ce_not_before r = Some nb \<and> ce_not_after r = Some na
          \<and> ce_valid_at_capture_time r = map_option (\<lambda>t. validity_at t nb na) capture_time
          \<and> ce_valid_at_analysis_time r = Some (validity_at (cn_analysis_time run) nb na)
          \<and> ce_expires_within_warning_window r = Some (expires_within_warning (cn_analysis_time run) na (cn_expiry_warning run)))
       \<and> ce_effective_strength_bits r = effective_strength_bits (ce_public_key_algorithm r) (ce_public_key_size r) (ce_public_key_curve r)
       \<and> ce_syntax_error r = None \<and> ce_evidence_state r = ES_OBSERVED
     else (ce_subject r, ce_issuer r, ce_serial_number r, ce_signature_algorithm r) = (None, None, None, None)
       \<and> (ce_not_before r, ce_not_after r) = (None, None)
       \<and> (ce_valid_at_capture_time r, ce_valid_at_analysis_time r, ce_expires_within_warning_window r) = (None, None, None)
       \<and> (ce_public_key_algorithm r, ce_public_key_size r, ce_public_key_curve r, ce_effective_strength_bits r) = (None, None, None, None))"

lemma parse_valid:
  assumes "parse_certificate_der lib payload = Inr p" and "pc_syntax_valid p"
  shows "pc_syntax_error p = None \<and> (\<exists>nb na. pc_not_before p = Some nb \<and> pc_not_after p = Some na)
    \<and> pc_effective_strength_bits p = effective_strength_bits (pc_public_key_algorithm p) (pc_public_key_size p) (pc_public_key_curve p)"
  using assms
  by (auto simp: parse_certificate_der_def unparsed_def read_certificate_def py_simps Let_def split_beta split: if_splits sum.splits)

lemma to_evidence_facts:
  assumes "to_evidence (cn_library run) (cn_analysis_time run) (cn_expiry_warning run) payload digest uid i role fs ct tr = Inr r"
  shows "ce_uid r = uid \<and> ce_chain_index r = i \<and> ce_role r = role \<and> ce_source_frames r = fs \<and> ce_validation r = None
    \<and> is_sha256_hex (ce_der_sha256 r) \<and> facts_ok run ct r"
proof -
  obtain p where p: "parse_certificate_der (cn_library run) payload = Inr p" using assms by (auto simp: to_evidence_def py_simps)
  show ?thesis
  proof (cases "pc_syntax_valid p \<and> \<not> tr")
    case True
    then show ?thesis using assms p parse_valid [OF p] by (auto simp: to_evidence_def py_simps Let_def facts_ok_def)
  next
    case False
    then show ?thesis using assms p by (auto simp: to_evidence_def py_simps Let_def facts_ok_def)
  qed
qed

definition record_ok :: "certificate_run \<Rightarrow> json_row list \<Rightarrow> (string, tls_handshake) dict \<Rightarrow> certificate_evidence \<Rightarrow> bool" where
  "record_ok run rows hs r = (is_sha256_hex (ce_der_sha256 r) \<and> (\<exists>rc. row_visible rows hs rc \<and> ce_uid r = rc_uid rc
     \<and> ce_source_frames r = rc_frames rc \<and> facts_ok run (rc_capture_time rc) r))"

definition acc_wf :: "certificate_run \<Rightarrow> json_row list \<Rightarrow> (string, tls_handshake) dict \<Rightarrow> 's certificate_acc \<Rightarrow> bool" where
  "acc_wf run rows hs a = (length (ca_records a) \<le> max_certificates_per_run \<and> distinct (map evidence_key (ca_records a))
     \<and> set (ca_seen a) = evidence_key ` set (ca_records a)
     \<and> (\<forall>r \<in> set (ca_records a). record_ok run rows hs r \<and> ce_validation r = None))"

lemma add_certificate_wf:
  assumes "acc_wf run rows hs a" and "row_visible rows hs rc" and "add_certificate run ops rc role index item tr a = Inr b"
  shows "acc_wf run rows hs b"
proof -
  obtain digest st r where
    r: "to_evidence (cn_library run) (cn_analysis_time run) (cn_expiry_warning run) (xt_payload item) digest (rc_uid rc) index
        role (rc_frames rc) (rc_capture_time rc) tr = Inr r"
    and b: "b = add_record r (a\<lparr>ca_store := st\<rparr>)"
    using assms(3) by (auto simp: add_certificate_def py_simps)
  have "record_ok run rows hs r \<and> ce_validation r = None"
    using to_evidence_facts [OF r] assms(2) by (auto simp: record_ok_def)
  then show ?thesis using assms(1) by (auto simp: b acc_wf_def add_record_def image_iff)
qed

lemma rows_wf:
  assumes "foldE (certificate_row run ops logs (index_extracted extracted) hs) rows (init_acc st) = Inr a"
  shows "acc_wf run rows hs a"
proof (rule rows_invariant [OF _ _ assms])
  show "acc_wf run rows hs b"
    if "row_visible rows hs rc" "acc_wf run rows hs a" "add_certificate run ops rc role index item tr a = Inr b" for rc role index item tr a b
    using that(2,1,3) by (rule add_certificate_wf)
  show "acc_wf run rows hs (init_acc st)" by (simp add: acc_wf_def)
qed

section \<open>Validations\<close>

definition revalidated :: "certificate_evidence \<Rightarrow> certificate_evidence \<Rightarrow> bool" where
  "revalidated item r = (if ce_role item \<noteq> CR_SERVER \<or> ce_chain_index item \<noteq> 0 then r = item
     else (\<exists>v. r = item\<lparr>ce_validation := Some v\<rparr>))"

lemma attach_loop_shape: "attach_loop run ops snapshot ssl records items st = Inr (rs, st') \<Longrightarrow> list_all2 revalidated items rs"
proof (induction items arbitrary: st rs)
  case (Cons item items)
  show ?case
  proof (cases "ce_role item \<noteq> CR_SERVER \<or> ce_chain_index item \<noteq> 0")
    case True
    then obtain rest where "attach_loop run ops snapshot ssl records items st = Inr (rest, st')" "rs = item # rest"
      using Cons.prems by (auto simp: py_simps)
    moreover have "revalidated item item" using True by (auto simp: revalidated_def)
    ultimately show ?thesis using Cons.IH by simp
  next
    case False
    then obtain v st\<^sub>1 rest where "attach_loop run ops snapshot ssl records items st\<^sub>1 = Inr (rest, st')"
      "rs = item\<lparr>ce_validation := Some v\<rparr> # rest"
      using Cons.prems by (auto simp: py_simps Let_def split_beta)
    moreover have "revalidated item (item\<lparr>ce_validation := Some v\<rparr>)" using False by (auto simp: revalidated_def)
    ultimately show ?thesis using Cons.IH by simp
  qed
qed simp

lemma attached_revalidated: "attached run snapshot ssl records item r \<Longrightarrow> revalidated item r"
  by (cases "ce_role item \<noteq> CR_SERVER \<or> ce_chain_index item \<noteq> 0") (simp_all only: attached_def revalidated_def if_True if_False, blast)

lemma list_all2_map_eq: "list_all2 R xs ys \<Longrightarrow> (\<And>x y. R x y \<Longrightarrow> f x = f y) \<Longrightarrow> map f xs = map f ys"
  by (induction rule: list_all2_induct) auto

lemma revalidated_fields:
  "revalidated item r \<Longrightarrow> certificate_sort_key item = certificate_sort_key r \<and> evidence_key item = evidence_key r
     \<and> record_ok run rows hs item = record_ok run rows hs r \<and> ce_uid item = ce_uid r \<and> ce_role item = ce_role r
     \<and> ce_chain_index item = ce_chain_index r \<and> ce_syntax_valid item = ce_syntax_valid r \<and> ce_der_sha256 item = ce_der_sha256 r"
  by (auto simp: revalidated_def certificate_sort_key_def evidence_key_def record_ok_def facts_ok_def split: if_splits)

lemma revalidated_keys:
  assumes "list_all2 revalidated xs ys"
  shows "map certificate_sort_key xs = map certificate_sort_key ys" "map evidence_key xs = map evidence_key ys"
  using assms by (rule list_all2_map_eq, simp add: revalidated_fields)+

lemma chain_digests:
  assumes "list_all2 revalidated xs ys"
  shows "intermediate_digests (filter (\<lambda>c. ce_uid c = u \<and> ce_role c = CR_SERVER) xs)
    = intermediate_digests (filter (\<lambda>c. ce_uid c = u \<and> ce_role c = CR_SERVER) ys)"
  using assms
proof (induction rule: list_all2_induct)
  case (Cons x xs y ys)
  have digests: "intermediate_digests (c # cs) = (if ce_chain_index c \<noteq> 0 \<and> ce_syntax_valid c then {ce_der_sha256 c} else {}) \<union> intermediate_digests cs" for c cs
    by (auto simp: intermediate_digests_def)
  show ?case using revalidated_fields [OF Cons(1)] Cons(3) by (simp add: digests)
qed simp

lemma verdict_sound_chain:
  assumes "intermediate_digests chain = intermediate_digests chain'" and "verdict_sound run snapshot chain ssl item v"
  shows "verdict_sound run snapshot chain' ssl (item\<lparr>ce_validation := w\<rparr>) v"
proof -
  have "path_accepted run snapshot (item\<lparr>ce_validation := w\<rparr>) chain' t = path_accepted run snapshot item chain t" for t
    by (simp add: path_accepted_def assms(1))
  moreover have "name_matched run (item\<lparr>ce_validation := w\<rparr>) n ref = name_matched run item n ref" for n ref
    by (simp add: name_matched_def)
  ultimately show ?thesis using assms(2) by (simp add: verdict_sound_def)
qed

text \<open>The records before and after the validations.\<close>

lemma normalize_shape:
  assumes "normalize_certificates run ops logs extracted handshakes trust st = Inr (rs, st')"
  obtains records where "length records \<le> 256" and "sorted (map certificate_sort_key records)" and "distinct (map evidence_key records)"
    and "\<forall>r \<in> set records. record_ok run (bounded_records (logs_get logs ''ssl.log'')) (dict_of_last th_uid handshakes) r \<and> ce_validation r = None"
    and "if trust = None then rs = records else list_all2 revalidated records rs"
proof -
  obtain a where a: "foldE (certificate_row run ops logs (index_extracted extracted) (dict_of_last th_uid handshakes))
       (bounded_records (logs_get logs ''ssl.log'')) (init_acc st) = Inr a"
    and cases: "case trust of None \<Rightarrow> rs = sort_key certificate_sort_key (ca_records a) \<and> st' = ca_store a
       | Some snapshot \<Rightarrow> \<exists>ssl. ssl_identity_by_uid logs = Inr ssl
           \<and> attach_loop (clean_hostname run) ops snapshot ssl (sort_key certificate_sort_key (ca_records a))
               (sort_key certificate_sort_key (ca_records a)) (ca_store a) = Inr (rs, st')"
    using assms by (rule normalize_certificates_cases)
  show thesis
    using rows_wf [OF a] cases attach_loop_shape
    by (intro that [of "sort_key certificate_sort_key (ca_records a)"])
       (auto simp: acc_wf_def max_certificates_per_run_def distinct_map split: option.splits)
qed

lemma certificates_validated:
  assumes "normalize_certificates run ops logs extracted handshakes trust st = Inr (rs, st')" and "r \<in> set rs"
  shows "record_ok run (bounded_records (logs_get logs ''ssl.log'')) (dict_of_last th_uid handshakes) r
    \<and> (ce_validation r \<noteq> None \<longleftrightarrow> trust \<noteq> None \<and> ce_role r = CR_SERVER \<and> ce_chain_index r = 0)"
proof -
  obtain records where records: "\<forall>r \<in> set records. record_ok run (bounded_records (logs_get logs ''ssl.log'')) (dict_of_last th_uid handshakes) r
      \<and> ce_validation r = None"
    and shape: "if trust = None then rs = records else list_all2 revalidated records rs"
    using assms(1) by (rule normalize_shape)
  show ?thesis
  proof (cases "trust = None")
    case True
    then show ?thesis using shape records assms(2) by simp
  next
    case False
    then have all2: "list_all2 revalidated records rs" using shape by simp
    obtain i where i: "i < length rs" "rs ! i = r" using assms(2) unfolding in_set_conv_nth by blast
    have rv: "revalidated (records ! i) r" using list_all2_nthD2 [OF all2 i(1)] i(2) by simp
    have "records ! i \<in> set records" using i(1) list_all2_lengthD [OF all2] by simp
    then have "record_ok run (bounded_records (logs_get logs ''ssl.log'')) (dict_of_last th_uid handshakes) (records ! i)"
      "ce_validation (records ! i) = None" using records by auto
    then show ?thesis using False rv revalidated_fields [OF rv] by (auto simp: revalidated_def split: if_splits)
  qed
qed

section \<open>Findings\<close>

text \<open>A reader of a decoded certificate that raises is not caught, although the documentation of \<open>parse_certificate_der\<close>
  says that it never raises: its \<open>try\<close> statement ends before the readers are called.\<close>

lemma parse_raises_iff:
  "parse_certificate_der lib payload = Inl e \<longleftrightarrow> length payload \<le> 65536 \<and> der_nesting_depth payload \<le> 16
     \<and> (\<exists>c. pl_load lib payload = Inr c \<and> read_certificate c = Inl e)"
  by (auto simp: parse_certificate_der_def max_certificate_der_bytes_def max_asn1_depth_def split: sum.split)

text \<open>The reason for a truncated certificate is never given: \<open>syntax_valid\<close> already excludes truncation when the code
  asks for both.\<close>

lemma truncation_unnamed:
  assumes "to_evidence lib t w payload digest uid i role fs ct True = Inr r"
  shows "\<not> ce_syntax_valid r \<and> ce_syntax_error r \<noteq> Some ''certificate_extract_truncated''"
proof -
  obtain p where p: "parse_certificate_der lib payload = Inr p" using assms by (auto simp: to_evidence_def py_simps)
  have "pc_syntax_error p \<in> {None, Some ''certificate_exceeds_size_limit'', Some ''certificate_asn1_nesting_exceeds_limit'',
      Some ''certificate_der_invalid'', Some ''certificate_parse_failed''}"
    using p by (auto simp: parse_certificate_der_def unparsed_def read_certificate_def py_simps Let_def split_beta split: if_splits sum.splits)
  then show ?thesis using assms p by (auto simp: to_evidence_def py_simps Let_def bounded_text_def)
qed

text \<open>A file row without its own key is matched through \<open>conn_uids\<close>, but these are folded to lower case first, so the keys of
  Zeek, which start with a capital C, never match.\<close>

lemma lower_char_not_upper: "lower_char c \<noteq> CHR ''C''"
proof -
  have "of_char (lower_char c) \<noteq> (67 :: nat)"
    using nat_of_char_less_256 [of c] by (auto simp: lower_char_def Let_def)
  then show ?thesis by auto
qed

lemma conn_uids_never_match:
  assumes "file_row_applies (CHR ''C'' # uid) log_name row"
  shows "as_str 64 (row_get row ''uid'') = Some (CHR ''C'' # uid)"
proof -
  have lowered: "\<exists>y. x = map lower_char y" if "x \<in> set (as_str_list n m v)" for x n m v
    using that by (cases v) (auto simp: as_str_list_def py_lower_def)
  have "CHR ''C'' # uid \<noteq> map lower_char y" for y
    using lower_char_not_upper by (cases y) (simp_all add: eq_commute)
  then have "CHR ''C'' # uid \<notin> set (as_str_list 64 8 (row_get row ''conn_uids''))"
    using lowered [of "CHR ''C'' # uid" 64 8 "row_get row ''conn_uids''"] by (simp only: not_def) metis
  then show ?thesis using assms by (auto simp: file_row_applies_def split: option.splits)
qed

section \<open>A sample run\<close>

text \<open>One certificate of three bytes, found through the file log, with a verifier that accepts it.\<close>

definition sample_payload :: bytes where "sample_payload = [2, 1, 5]"

definition sample_x509 :: x509_facts where
  "sample_x509 = \<lparr>xf_certificate = \<lparr>xc_der = ''leaf'', xc_subject = ''CN=mx'', xc_issuer = ''CN=ca'', xc_not_valid_before_utc = 0,
       xc_not_valid_after_utc = 1000000\<rparr>, xf_public_key = Inr (PK_EC 256 ''secp256r1''), xf_serial_number = 255,
     xf_subject_text = Inr ''CN=mx'', xf_issuer_text = Inr ''CN=ca'', xf_not_valid_before = Inr 0, xf_not_valid_after = Inr 9000000,
     xf_signature_oid = ''1.2.840.10045.4.3.2'', xf_san = Inr (Some [GN_DNS ''mx.example''])\<rparr>"

definition sample_library :: pki_library where
  "sample_library = \<lparr>pl_load = (\<lambda>payload. if payload = sample_payload then Inr sample_x509 else Inl ValueError),
     pl_verify = (\<lambda>anchors time depth leaf intermediates. None), pl_ip_address = (\<lambda>s. None), pl_idna = Some\<rparr>"

definition sample_cert_run :: certificate_run where
  "sample_cert_run = \<lparr>cn_library = sample_library, cn_analysis_time = utc_instant 5000000, cn_expiry_warning = 2592000000000,
     cn_expected_hostname = None\<rparr>"

definition sample_extracted :: extracted_certificate where
  "sample_extracted = \<lparr>xt_sha256 = ''digest'', xt_fuid = Some ''F1'', xt_payload = sample_payload\<rparr>"

definition sample_cert_row :: json_row where
  "sample_cert_row = [(''uid'', JStr ''C1''), (''ts'', JInt 2), (''ssl_history'', JStr ''Csx''), (''server_name'', JStr ''mx.example'')]"

definition sample_cert_logs :: "(string, json) dict" where
  "sample_cert_logs = [(''ssl.log'', JList [JObj sample_cert_row]),
     (''sm_cert.log'', JList [JObj [(''uid'', JStr ''C1''), (''fuid'', JStr ''F1'')]])]"

definition sample_trust :: trust_store_snapshot where
  "sample_trust = \<lparr>ts_profile_id = ''p1'', ts_digest = sha256_bytes [], ts_anchors = []\<rparr>"

definition blank_store :: certificate_store where
  "blank_store = \<lparr>cst_memory = [], cst_disk = None\<rparr>"

definition sample_store :: certificate_store where
  "sample_store = \<lparr>cst_memory = [(sha256_bytes sample_payload, sample_payload)], cst_disk = None\<rparr>"

definition sample_index :: "string \<Rightarrow> extracted_index" where
  "sample_index s = \<lparr>ix_sha256 = [(''digest'', sample_extracted)], ix_sha1 = [(s, sample_extracted)], ix_fuid = [(''F1'', sample_extracted)]\<rparr>"

definition sample_parsed :: parsed_certificate where
  "sample_parsed = \<lparr>pc_syntax_valid = True, pc_syntax_error = None, pc_subject = Some ''CN=mx'',
     pc_issuer = Some ''CN=ca'', pc_serial_number = Some ''ff'', pc_not_before = Some (utc_instant 0), pc_not_after = Some (utc_instant 9000000),
     pc_public_key_algorithm = Some ''ECDSA'', pc_public_key_size = Some 256, pc_public_key_curve = Some ''secp256r1'',
     pc_effective_strength_bits = Some 128, pc_signature_algorithm = Some ''ecdsa-with-SHA256''\<rparr>"

definition sample_record :: certificate_evidence where
  "sample_record = \<lparr>ce_der_sha256 = sha256_bytes sample_payload, ce_uid = ''C1'', ce_chain_index = 0, ce_role = CR_SERVER,
     ce_source_frames = [], ce_syntax_valid = True, ce_syntax_error = None, ce_subject = Some ''CN=mx'', ce_issuer = Some ''CN=ca'',
     ce_serial_number = Some ''ff'', ce_not_before = Some (utc_instant 0), ce_not_after = Some (utc_instant 9000000),
     ce_valid_at_capture_time = Some True, ce_valid_at_analysis_time = Some True, ce_expires_within_warning_window = Some True,
     ce_public_key_algorithm = Some ''ECDSA'', ce_public_key_size = Some 256, ce_public_key_curve = Some ''secp256r1'',
     ce_effective_strength_bits = Some 128, ce_signature_algorithm = Some ''ecdsa-with-SHA256'', ce_evidence_state = ES_OBSERVED,
     ce_validation = None\<rparr>"

definition sample_validation :: certificate_validation where
  "sample_validation = (unvalidated sample_trust (Some ''mx.example'', Some RI_SNI) True [])
     \<lparr>cv_path_valid_at_capture_time := Some True, cv_path_valid_at_analysis_time := Some True, cv_identity_match := Some True\<rparr>"

lemma sample_index_built: "index_extracted [sample_extracted] = sample_index (sha1_bytes sample_payload)"
  by (simp add: index_extracted_def index_step_def max_certificates_per_run_def sample_extracted_def sample_index_def truthy_str_def)

lemma sample_cert_rows: "bounded_records (logs_get sample_cert_logs ''ssl.log'') = [sample_cert_row]"
  by code_simp

lemma sample_files: "files_for_uid sample_cert_logs (sample_index s) ''C1'' = [sample_extracted]"
  by code_simp

lemma sample_truncated: "xt_fuid sample_extracted \<notin> set (truncated_fuids sample_cert_logs)"
  by code_simp

lemma sample_parse: "parse_certificate_der sample_library sample_payload = Inr sample_parsed"
proof -
  have "der_header [2, 1, 5] (Suc (Suc (Suc 0))) 0 = Some (2, 2, 3)" "constructed 2 = False" by code_simp+
  then have depth: "der_nesting_depth [2, 1, 5] = 0"
    by (simp add: der_nesting_depth_def der_walk_def max_asn1_depth_def der_loop.simps [of _ _ _ _ 0] der_loop.simps [of _ _ _ _ 3])
  have facts: "effective_strength_bits (Some ''ECDSA'') (Some 256) (Some ''secp256r1'') = Some 128" "py_hex 255 = ''ff''" by code_simp+
  then have "read_certificate sample_x509 = Inr sample_parsed"
    by (simp add: read_certificate_def sample_x509_def sample_parsed_def bounded_text_def signature_algorithm_names_def)
  then show ?thesis using depth
    by (simp add: parse_certificate_der_def sample_library_def max_certificate_der_bytes_def max_asn1_depth_def sample_payload_def)
qed

lemma sample_put: "store_put sample_payload blank_store = Inr (sha256_bytes sample_payload, sample_store)"
  by (simp add: store_put_def blank_store_def sample_store_def sample_payload_def max_certificate_der_bytes_def Let_def)

lemma sample_get: "store_get (sha256_bytes sample_payload) sample_store = Inr (sample_payload, sample_store)"
  by (simp add: store_get_def sample_store_def)

lemma sample_add:
  "add_certificate sample_cert_run store_ops \<lparr>rc_uid = ''C1'', rc_frames = [], rc_capture_time = Some (utc_instant 2000000)\<rparr> CR_SERVER 0
     sample_extracted False \<lparr>ca_records = [], ca_seen = [], ca_store = blank_store\<rparr>
   = Inr \<lparr>ca_records = [sample_record], ca_seen = [evidence_key sample_record], ca_store = sample_store\<rparr>"
proof -
  have "to_evidence sample_library (utc_instant 5000000) 2592000000000 sample_payload (sha256_bytes sample_payload) ''C1'' 0 CR_SERVER []
      (Some (utc_instant 2000000)) False = Inr sample_record"
    by (simp add: to_evidence_def sample_parse, simp add: sample_parsed_def sample_record_def Let_def validity_at_def
      expires_within_warning_def utc_instant_def dt_instant_def)
  then show ?thesis
    by (simp add: add_certificate_def store_ops_def sample_cert_run_def sample_put add_record_def max_certificates_per_run_def
      sample_extracted_def)
qed

lemma sample_row:
  "certificate_row sample_cert_run store_ops sample_cert_logs (sample_index s) [] sample_cert_row
     \<lparr>ca_records = [], ca_seen = [], ca_store = blank_store\<rparr>
   = Inr \<lparr>ca_records = [sample_record], ca_seen = [evidence_key sample_record], ca_store = sample_store\<rparr>"
proof -
  have row: "as_str 64 (row_get sample_cert_row ''uid'') = Some ''C1''" "epoch_to_datetime (row_get sample_cert_row ''ts'') = Inr (Some (utc_instant 2000000))"
    "as_str_list 64 max_chain_depth (row_get sample_cert_row ''cert_chain_fps'') = []"
    "as_str_list 64 max_chain_depth (row_get sample_cert_row ''client_cert_chain_fps'') = []"
    "or_str (as_str 100 (row_get sample_cert_row ''ssl_history'')) [] = ''Csx''"
    by code_simp+
  show ?thesis
    by (simp add: certificate_row_def row hidden_certificate_def certificate_frames_def sample_files fallback_step_def sample_truncated sample_add)
qed

lemma sample_identity: "ssl_identity_by_uid sample_cert_logs = Inr [(''C1'', Some (utc_instant 2000000), Some ''mx.example'')]"
  by code_simp

lemma sample_leaf:
  "validate_server_leaf sample_cert_run store_ops sample_trust sample_record [sample_record] (Some (utc_instant 2000000)) (Some ''mx.example'')
     sample_store = Inr (sample_validation, sample_store)"
proof -
  have identity: "match_service_identity (pl_ip_address sample_library) Some (Some ''mx.example'')
      (extract_san_entries Some (Some [GN_DNS ''mx.example''])) = \<lparr>im_match = Some True, im_reason_codes = []\<rparr>"
    by code_simp
  have load: "load_x509 sample_library store_ops (ce_der_sha256 sample_record) sample_store = Inr (Some sample_x509, sample_store)"
    by (simp add: load_x509_def store_ops_def sample_get sample_record_def sample_library_def)
  have path: "path_result sample_cert_run snapshot sample_x509 [] t = \<lparr>cr_valid = Some True, cr_reason_codes = []\<rparr>" for snapshot t
    by (simp add: path_result_def validate_certificate_path_def sample_cert_run_def sample_library_def)
  have loaded: "validate_loaded_leaf sample_cert_run sample_trust (Some ''mx.example'', Some RI_SNI) sample_x509 [] (Some (utc_instant 2000000))
      = Inr sample_validation"
  proof -
    have "xf_san sample_x509 = Inr (Some [GN_DNS ''mx.example''])" "pl_idna sample_library = Some" "cn_library sample_cert_run = sample_library"
      by (simp_all add: sample_x509_def sample_library_def sample_cert_run_def)
    then show ?thesis
      by (simp add: validate_loaded_leaf_def path identity Let_def mk_validation_def check_model_def certificate_validation_ok_def
        sample_validation_def unvalidated_def sample_trust_def)
  qed
  have "ce_syntax_valid sample_record" "ce_chain_index sample_record = 0" "cn_library sample_cert_run = sample_library"
    "reference_identity (cn_expected_hostname sample_cert_run) (Some ''mx.example'') = (Some ''mx.example'', Some RI_SNI)"
    by (simp_all add: sample_record_def sample_cert_run_def reference_identity_def truthy_str_def)
  then show ?thesis by (simp add: validate_server_leaf_def Let_def load loaded)
qed

lemma sample_certificates_run:
  "normalize_certificates sample_cert_run store_ops sample_cert_logs [sample_extracted] [] (Some sample_trust) blank_store
     = Inr ([sample_record\<lparr>ce_validation := Some sample_validation\<rparr>], sample_store)"
proof -
  have run: "sample_cert_run\<lparr>cn_expected_hostname := None\<rparr> = sample_cert_run" "cn_expected_hostname sample_cert_run = None"
    "ce_role sample_record = CR_SERVER" "ce_chain_index sample_record = 0" "ce_uid sample_record = ''C1''" "\<not> truthy_str None"
    by (simp_all add: sample_cert_run_def sample_record_def truthy_str_def)
  show ?thesis
    by (simp add: run dict_of_last_def normalize_certificates_def sample_index_built sample_cert_rows sample_row Let_def attach_validations_def
      sample_identity sample_leaf)
qed

section \<open>Properties\<close>

text \<open>C27: The certificate records of a run are at most 256, in key order and distinct. Each belongs to a row of \<open>ssl.log\<close>
  whose handshake did not hide its certificate; its facts are complete and consistent if its syntax is valid and
  absent otherwise; and a validation is attached exactly to the leaf of a server, if there is a trust store.\<close>

theorem certificates_wf:
  assumes "normalize_certificates run ops logs extracted handshakes trust st = Inr (rs, st')"
  shows "length rs \<le> 256 \<and> sorted (map certificate_sort_key rs) \<and> distinct (map evidence_key rs)
    \<and> (\<forall>r \<in> set rs. record_ok run (bounded_records (logs_get logs ''ssl.log'')) (dict_of_last th_uid handshakes) r
        \<and> (ce_validation r \<noteq> None \<longleftrightarrow> trust \<noteq> None \<and> ce_role r = CR_SERVER \<and> ce_chain_index r = 0))"
proof -
  obtain records where records: "length records \<le> 256" "sorted (map certificate_sort_key records)" "distinct (map evidence_key records)"
    and shape: "if trust = None then rs = records else list_all2 revalidated records rs"
    using assms by (rule normalize_shape)
  have keys: "map certificate_sort_key records = map certificate_sort_key rs" "map evidence_key records = map evidence_key rs"
  proof -
    show "map certificate_sort_key records = map certificate_sort_key rs"
      by (cases "trust = None") (use shape in simp, use shape in \<open>intro revalidated_keys, simp\<close>)
    show "map evidence_key records = map evidence_key rs"
      by (cases "trust = None") (use shape in simp, use shape in \<open>intro revalidated_keys, simp\<close>)
  qed
  moreover have "length records = length rs" using arg_cong [OF keys(1), of length] by simp
  ultimately show ?thesis using records certificates_validated [OF assms] by simp
qed

theorem certificates_wf_witness:
  "\<exists>r. fst (projr (normalize_certificates sample_cert_run store_ops sample_cert_logs [sample_extracted] [] (Some sample_trust) blank_store)) = [r]
    \<and> record_ok sample_cert_run (bounded_records (logs_get sample_cert_logs ''ssl.log'')) [] r
    \<and> ce_validation r \<noteq> None \<and> ce_role r = CR_SERVER \<and> ce_chain_index r = 0"
proof -
  have "ce_validation (sample_record\<lparr>ce_validation := Some sample_validation\<rparr>) \<noteq> None" by simp
  with certificates_wf [OF sample_certificates_run] show ?thesis
    by (simp add: sample_certificates_run dict_of_last_def)
qed

text \<open>Every record stands for bytes that were kept. With the store of the program, the digest of a record is that of an
  extracted certificate, and reading it from the store after the run returns bytes with this digest.\<close>

theorem certificates_stored:
  assumes "store_valid st" and "normalize_certificates run store_ops logs extracted handshakes trust st = Inr (rs, st')" and "r \<in> set rs"
  shows "(\<exists>x \<in> set extracted. ce_der_sha256 r = sha256_bytes (xt_payload x))
    \<and> (\<exists>payload st''. store_get (ce_der_sha256 r) st' = Inr (payload, st'') \<and> sha256_bytes payload = ce_der_sha256 r)"
proof -
  have "store_valid st'" and x: "\<exists>x \<in> set extracted. ce_der_sha256 r = sha256_bytes (xt_payload x)" "holds store_ops st' (ce_der_sha256 r)"
    using disk.normalize_stored [OF assms(1,2)] assms(3) by blast+
  moreover obtain payload st'' where "ao_get store_ops (ce_der_sha256 r) st' = Inr (payload, st'')" using x(2) by (auto simp: holds_def)
  ultimately show ?thesis using disk.get_ok by (auto simp: store_ops_def)
qed

theorem certificates_stored_witness:
  "\<exists>payload st. store_get (ce_der_sha256 sample_record) sample_store = Inr (payload, st) \<and> sha256_bytes payload = ce_der_sha256 sample_record"
proof -
  have "store_valid blank_store" by (simp add: store_valid_def memory_valid_def blank_store_def)
  from certificates_stored [OF this sample_certificates_run, of "sample_record\<lparr>ce_validation := Some sample_validation\<rparr>", THEN conjunct2]
  show ?thesis by simp
qed

text \<open>C5: A favourable verdict is earned. If a validation says that the path was valid at the time of the capture or of the
  analysis, the path verifier accepted, at that time, a leaf whose bytes have the digest of the record, with
  intermediates the same connection's server sent. If it says that the name matched, there was a reference name,
  and it matches the subject names of the leaf. The revocation status is always unknown.\<close>

theorem validation_verdicts_sound:
  assumes "store_valid st" and "normalize_certificates run store_ops logs extracted handshakes (Some snapshot) st = Inr (rs, st')"
    and "r \<in> set rs" and "ce_validation r = Some v"
  shows "\<exists>ssl. ssl_identity_by_uid logs = Inr ssl
    \<and> verdict_sound (clean_hostname run) snapshot (filter (\<lambda>c. ce_uid c = ce_uid r \<and> ce_role c = CR_SERVER) rs)
        (case map_of ssl (ce_uid r) of Some x \<Rightarrow> x | None \<Rightarrow> (None, None)) r v"
proof -
  obtain ssl records where ssl: "ssl_identity_by_uid logs = Inr ssl"
    and all2: "list_all2 (attached (clean_hostname run) snapshot ssl records) records rs"
    using disk.normalize_attached [OF assms(1,2)] by blast
  have re: "list_all2 revalidated records rs" using all2 by (rule list_all2_mono) (rule attached_revalidated)
  obtain i where i: "i < length rs" "rs ! i = r" using assms(3) unfolding in_set_conv_nth by blast
  have at: "attached (clean_hostname run) snapshot ssl records (records ! i) r" using list_all2_nthD2 [OF all2 i(1)] i(2) by simp
  have "ce_role r = CR_SERVER \<and> ce_chain_index r = 0"
    using certificates_validated [OF assms(2,3)] assms(4) by simp
  then have leaf: "\<not> (ce_role (records ! i) \<noteq> CR_SERVER \<or> ce_chain_index (records ! i) \<noteq> 0)"
    using revalidated_fields [OF attached_revalidated [OF at]] by simp
  obtain w where w: "r = (records ! i)\<lparr>ce_validation := Some w\<rparr>"
    "verdict_sound (clean_hostname run) snapshot (filter (\<lambda>c. ce_uid c = ce_uid (records ! i) \<and> ce_role c = CR_SERVER) records)
       (case map_of ssl (ce_uid (records ! i)) of Some x \<Rightarrow> x | None \<Rightarrow> (None, None)) (records ! i) w"
    using at leaf unfolding attached_def by auto
  have "w = v" "ce_uid (records ! i) = ce_uid r" using w(1) assms(4) by auto
  then show ?thesis using ssl w verdict_sound_chain [OF chain_digests [OF re]] by auto
qed

theorem validation_verdicts_sound_witness:
  "name_matched sample_cert_run sample_record (Some ''mx.example'') (Some ''mx.example'')"
proof -
  have valid: "store_valid blank_store" by (simp add: store_valid_def memory_valid_def blank_store_def)
  have "clean_hostname sample_cert_run = sample_cert_run" by (simp add: clean_hostname_def sample_cert_run_def truthy_str_def)
  moreover have "cv_identity_match sample_validation = Some True" "cv_reference_identity sample_validation = Some ''mx.example''"
    by (simp_all add: sample_validation_def unvalidated_def)
  moreover have "ce_uid sample_record = ''C1''" by (simp add: sample_record_def)
  ultimately have "name_matched sample_cert_run (sample_record\<lparr>ce_validation := Some sample_validation\<rparr>) (Some ''mx.example'') (Some ''mx.example'')"
    using validation_verdicts_sound [OF valid sample_certificates_run, of "sample_record\<lparr>ce_validation := Some sample_validation\<rparr>" sample_validation]
    by (simp add: sample_identity verdict_sound_def)
  then show ?thesis by (simp add: name_matched_def)
qed

end
