(* ===== verification/Analysis_Correct.thy ===== *)
theory Analysis_Correct
  imports Analysis Rules_Correct Certificates_Correct
begin

text \<open>
  Proofs about \<open>Analysis\<close>: the text that is hashed as the configuration determines the configuration, the digest of a
  file does not depend on the size of the chunks it is read in, and what an evidence document contains is tied to the
  capture, to the policy pack and to itself.
\<close>

section \<open>Reading a file in chunks\<close>

lemma concat_read_chunks: "0 < k \<Longrightarrow> concat (read_chunks k content) = content"
proof (induction k content rule: read_chunks.induct)
  case (1 k content)
  then show ?case by (subst read_chunks.simps) auto
qed

lemma sha256_file_eq [simp]: "sha256_file content = sha256_bytes content"
  by (simp add: sha256_file_def concat_read_chunks)

section \<open>The text of a configuration\<close>

definition hex_value_of :: "char \<Rightarrow> nat" where
  "hex_value_of c = (let n = of_char c in if n < 58 then n - 48 else n - 87)"

fun json_unescape :: "string \<Rightarrow> char \<times> string" where
  "json_unescape (c # rest) =
    (if c \<noteq> CHR 0x5C then (c, rest)
     else if hd rest = CHR ''u'' then (char_of (16 * hex_value_of (rest ! 3) + hex_value_of (rest ! 4)), drop 5 rest)
     else (case map_of [(CHR ''n'', 10 :: nat), (CHR ''r'', 13), (CHR ''t'', 9), (CHR ''f'', 12), (CHR ''b'', 8)] (hd rest) of
         Some n \<Rightarrow> (char_of n, tl rest)
       | None \<Rightarrow> (hd rest, tl rest)))"
| "json_unescape [] = undefined"

lemma hex_value_of_digit: "n < 16 \<Longrightarrow> hex_value_of (hex_digit n) = n"
  by (auto simp: hex_value_of_def hex_digit_def Let_def)

lemma json_unescape_escape: "json_unescape (json_escape c @ xs) = (c, xs)"
proof -
  define n :: nat where "n = of_char c"
  have c: "c = char_of n" by (simp add: n_def)
  have "n < 256" unfolding n_def by (rule nat_of_char_less_256)
  then have hex: "hex_value_of (hex_digit (n div 16)) = n div 16" "hex_value_of (hex_digit (n mod 16)) = n mod 16"
    by (simp_all add: hex_value_of_digit)
  have codes: "CHR 0x5C = char_of (92 :: nat)" "CHR 0x22 = char_of (34 :: nat)" by code_simp+
  have "c = char_of k \<longleftrightarrow> n = k" if "k < 256" for k
  proof
    show "n = k" if "c = char_of k" using that \<open>k < 256\<close> by (simp add: n_def)
    show "c = char_of k" if "n = k" using that c by simp
  qed
  then have eq: "c = CHR 0x5C \<longleftrightarrow> n = 92" "c = CHR 0x22 \<longleftrightarrow> n = 34" unfolding codes by simp_all
  consider "n = 34" | "n = 92" | "n \<in> {8, 9, 10, 12, 13}" | "32 \<le> n" "n \<le> 126" "n \<noteq> 34" "n \<noteq> 92"
    | "n < 32 \<or> 126 < n" "n \<notin> {8, 9, 10, 12, 13}"
    by (cases "n = 34 \<or> n = 92 \<or> n \<in> {8, 9, 10, 12, 13}"; cases "32 \<le> n \<and> n \<le> 126") (blast, blast, blast, metis not_le)
  then show ?thesis
  proof cases
    case 3
    then show ?thesis using c by (auto simp: json_escape_def n_def [symmetric])
  next
    case 5
    have "json_escape c = [CHR 0x5C, CHR ''u'', CHR ''0'', CHR ''0'', hex_digit (n div 16), hex_digit (n mod 16)]"
      unfolding json_escape_def n_def [symmetric] Let_def using 5 by auto
    then show ?thesis using hex by (simp add: c [symmetric])
  qed (use eq in \<open>simp_all add: json_escape_def n_def [symmetric]\<close>)
qed

text \<open>No string is written as a proper prefix of another: what follows the closing quote can be told apart.\<close>

lemma json_escape_not_quote: "json_escape c @ xs \<noteq> CHR 0x22 # ys"
proof
  assume a: "json_escape c @ xs = CHR 0x22 # ys"
  have "CHR 0x22 = c" using json_unescape_escape [of c xs] unfolding a by simp
  then show False using a by (auto simp: json_escape_def)
qed

lemma json_body_inj:
  "concat (map json_escape s) @ CHR 0x22 # xs = concat (map json_escape t) @ CHR 0x22 # ys \<Longrightarrow> s = t \<and> xs = ys"
proof (induction s arbitrary: t)
  case Nil
  then show ?case using json_escape_not_quote by (cases t) (auto simp: append_assoc, metis)
next
  case (Cons c s)
  show ?case
  proof (cases t)
    case Nil
    then show ?thesis using Cons.prems json_escape_not_quote by (simp add: append_assoc) 
  next
    case (Cons d t')
    have "json_escape c @ concat (map json_escape s) @ CHR 0x22 # xs = json_escape d @ concat (map json_escape t') @ CHR 0x22 # ys"
      using Cons.prems by (simp add: Cons)
    then have "(c, concat (map json_escape s) @ CHR 0x22 # xs) = (d, concat (map json_escape t') @ CHR 0x22 # ys)"
      by (metis json_unescape_escape)
    then show ?thesis using Cons.IH [of t'] by (simp add: Cons)
  qed
qed

lemma json_quote_inj: "json_quote s @ xs = json_quote t @ ys \<Longrightarrow> s = t \<and> xs = ys"
  using json_body_inj [of s xs t ys] by (simp add: json_quote_def)

lemma json_opt_str_inj: "json_opt_str s @ xs = json_opt_str t @ ys \<Longrightarrow> s = t \<and> xs = ys"
  using json_quote_inj [of "the s" xs "the t" ys] by (cases s; cases t) (simp_all add: json_opt_str_def, simp_all add: json_quote_def)

lemma nat_digits_inj: "nat_digits m = nat_digits n \<Longrightarrow> m = n"
proof (induction m arbitrary: n rule: nat_digits.induct)
  case (1 m)
  have last: "last (nat_digits k) = char_of (48 + k mod 10)" for k by (subst nat_digits.simps) simp
  have butlast: "butlast (nat_digits k) = (if k < 10 then [] else nat_digits (k div 10))" for k by (subst nat_digits.simps) simp
  have ne: "nat_digits k \<noteq> []" for k by (subst nat_digits.simps) simp
  have "of_char (char_of (48 + m mod 10)) = (of_char (char_of (48 + n mod 10)) :: nat)"
    using arg_cong [OF 1(2), of last] unfolding last by simp
  moreover have "48 + k mod 10 < 256" for k :: nat by (rule order.strict_trans1 [of _ 57]) auto
  ultimately have "m mod 10 = n mod 10" by simp
  moreover have "m div 10 = n div 10"
  proof (cases "m < 10")
    case True
    then have "n < 10" using arg_cong [OF 1(2), of butlast] ne [of "n div 10"] unfolding butlast by (metis True)
    then show ?thesis using True by simp
  next
    case False
    then have "nat_digits (m div 10) = nat_digits (n div 10)"
      using arg_cong [OF 1(2), of butlast] ne unfolding butlast by (auto split: if_splits)
    then show ?thesis using 1(1) [OF False] by blast
  qed
  ultimately show ?case by (metis div_mult_mod_eq)
qed

lemma nat_digits_chars: "c \<in> set (nat_digits n) \<Longrightarrow> 48 \<le> (of_char c :: nat) \<and> (of_char c :: nat) \<le> 57"
proof (induction n rule: nat_digits.induct)
  case (1 n)
  have "(of_char (char_of (48 + n mod 10)) :: nat) = 48 + n mod 10" by (simp add: order.strict_trans1 [of _ 57])
  moreover have "n mod 10 \<le> 9" by simp
  ultimately show ?case using 1 by (subst (asm) nat_digits.simps) (auto split: if_splits)
qed

lemma py_str_int_inj: "py_str_int i = py_str_int j \<Longrightarrow> i = j"
proof -
  have "CHR ''-'' # xs \<noteq> nat_digits n" for xs n
  proof
    assume "CHR ''-'' # xs = nat_digits n"
    then have "CHR ''-'' \<in> set (nat_digits n)" by (metis list.set_intros(1))
    from nat_digits_chars [OF this] show False by simp
  qed
  note minus = this this [symmetric]
  show "py_str_int i = py_str_int j \<Longrightarrow> i = j"
    using minus by (auto simp: py_str_int_def split: if_splits dest: nat_digits_inj)
qed

text \<open>The text of a configuration, with its keys in order.\<close>

definition sorted_configuration :: "string \<Rightarrow> string \<Rightarrow> string \<Rightarrow> (string, string) dict" where
  "sorted_configuration a b c =
     [(''capinfos_entry'', json_quote ''capinfos''), (''certificate_normalization'', json_quote ''v1''), (''chain_validation'', json_quote ''v1''),
      (''evidence_document_schema_version'', json_quote ''v2''), (''expected_hostname'', b), (''expiry_warning_seconds'', a),
      (''flow_normalization'', json_quote ''v1''), (''handshake_normalization'', json_quote ''v1''), (''iana_tls_parameters_sha256'', c),
      (''normalization_schema_version'', json_quote ''v1''), (''posture_schema_version'', json_quote ''securemail.posture/v1''),
      (''scoring_schema_version'', json_quote ''securemail.scoring/v1''), (''session_normalization'', json_quote ''v2''),
      (''starttls_evaluation'', json_quote ''v1''), (''tshark_corroboration'', json_quote ''smtp_imap_pop_tls_handshake''),
      (''zeek_deterministic'', json_flag True), (''zeek_entry'', json_quote ''zeek/site/__load__.zeek'')]"

lemma configuration_sorted:
  "sort_key fst (AList.update ''iana_tls_parameters_sha256'' c (AList.update ''expected_hostname'' b (AList.update ''expiry_warning_seconds'' a base_configuration)))
   = sorted_configuration a b c"
proof -
  let ?xs = "AList.update ''iana_tls_parameters_sha256'' c (AList.update ''expected_hostname'' b (AList.update ''expiry_warning_seconds'' a base_configuration))"
  have xs: "?xs = [(''normalization_schema_version'', json_quote ''v1''), (''zeek_entry'', json_quote ''zeek/site/__load__.zeek''),
     (''zeek_deterministic'', json_flag True), (''capinfos_entry'', json_quote ''capinfos''),
     (''flow_normalization'', json_quote ''v1''), (''session_normalization'', json_quote ''v2''),
     (''handshake_normalization'', json_quote ''v1''), (''certificate_normalization'', json_quote ''v1''),
     (''chain_validation'', json_quote ''v1''), (''expiry_warning_seconds'', a),
     (''tshark_corroboration'', json_quote ''smtp_imap_pop_tls_handshake''), (''starttls_evaluation'', json_quote ''v1''),
     (''scoring_schema_version'', json_quote ''securemail.scoring/v1''),
     (''posture_schema_version'', json_quote ''securemail.posture/v1''),
     (''evidence_document_schema_version'', json_quote ''v2''), (''expected_hostname'', b), (''iana_tls_parameters_sha256'', c)]"
    unfolding base_configuration_def by simp
  show ?thesis
  proof (rule map_sorted_distinct_set_unique [where f = fst])
    show "inj_on fst (set (sort_key fst ?xs) \<union> set (sorted_configuration a b c))" unfolding xs sorted_configuration_def by simp
    show "sorted (map fst (sort_key fst ?xs))" by simp
    show "sorted (map fst (sorted_configuration a b c))" unfolding sorted_configuration_def list.map fst_conv by code_simp
  qed (unfold xs sorted_configuration_def, auto)
qed

text \<open>Where the three parameters stand in the text.\<close>

definition effective_digest :: "string option \<Rightarrow> string" where
  "effective_digest d = (if truthy_str d then the d else tp_digest empty_tls_parameter_index)"

definition written_item :: "string \<times> string \<Rightarrow> string" where
  "written_item = (\<lambda>(k, v). json_quote k @ CHR '':'' # v)"

lemma py_join_append: "ys \<noteq> [] \<Longrightarrow> xs \<noteq> [] \<Longrightarrow> py_join sep (xs @ ys) = py_join sep xs @ sep @ py_join sep ys"
  by (induction sep xs rule: py_join.induct) (auto simp: neq_Nil_conv)

lemma py_join_parts:
  assumes "F \<noteq> []" and "M \<noteq> []" and "L \<noteq> []"
  shows "py_join sep (F @ [x] @ [y] @ M @ [z] @ L)
    = py_join sep F @ sep @ x @ sep @ y @ sep @ py_join sep M @ sep @ z @ sep @ py_join sep L"
proof -
  have one: "py_join sep (x # xs) = x @ sep @ py_join sep xs" if "xs \<noteq> []" for x xs using that by (cases xs) simp_all
  show ?thesis using assms by (simp add: py_join_append one)
qed

lemma split_at: "a @ c # x = b @ c # y \<Longrightarrow> c \<notin> set a \<Longrightarrow> c \<notin> set b \<Longrightarrow> a = b \<and> x = y"
proof (induction a arbitrary: b)
  case Nil
  then show ?case by (cases b) auto
next
  case (Cons d a)
  then show ?case by (cases b) auto
qed

lemma configuration_payload_eq:
  obtains p q r t where "\<And>d e h. configuration_payload d e h
    = p @ json_opt_str h @ q @ py_str_int e @ CHR '','' # r @ json_quote (effective_digest d) @ t"
proof -
  let ?first = "\<lambda>a b c. take 4 (sorted_configuration a b c)" and ?mid = "\<lambda>a b c. take 2 (drop 6 (sorted_configuration a b c))"
    and ?last = "\<lambda>a b c. drop 9 (sorted_configuration a b c)"
  have split: "map written_item (sorted_configuration a b c) =
      map written_item (?first [] [] []) @ [json_quote ''expected_hostname'' @ CHR '':'' # b] @ [json_quote ''expiry_warning_seconds'' @ CHR '':'' # a]
      @ map written_item (?mid [] [] []) @ [json_quote ''iana_tls_parameters_sha256'' @ CHR '':'' # c] @ map written_item (?last [] [] [])" for a b c
    by (simp add: sorted_configuration_def written_item_def)
  have ne: "map written_item (?first [] [] []) \<noteq> []" "map written_item (?mid [] [] []) \<noteq> []" "map written_item (?last [] [] []) \<noteq> []"
    by (simp_all add: sorted_configuration_def)
  define p where "p = CHR ''{'' # py_join '','' (map written_item (?first [] [] [])) @ '','' @ json_quote ''expected_hostname'' @ '':''"
  define q where "q = '','' @ json_quote ''expiry_warning_seconds'' @ '':''"
  define r where "r = py_join '','' (map written_item (?mid [] [] [])) @ '','' @ json_quote ''iana_tls_parameters_sha256'' @ '':''"
  define t where "t = '','' @ py_join '','' (map written_item (?last [] [] [])) @ ''}''"
  have join: "py_join '','' (map written_item (sorted_configuration a b c))
      = py_join '','' (map written_item (?first [] [] [])) @ '','' @ json_quote ''expected_hostname'' @ '':'' @ b
        @ '','' @ json_quote ''expiry_warning_seconds'' @ '':'' @ a @ '','' @ py_join '','' (map written_item (?mid [] [] []))
        @ '','' @ json_quote ''iana_tls_parameters_sha256'' @ '':'' @ c @ '','' @ py_join '','' (map written_item (?last [] [] []))" for a b c
    unfolding split py_join_parts [OF ne] by (simp only: append_assoc append_Cons append_Nil)
  have "configuration_payload d e h
      = CHR ''{'' # py_join '','' (map written_item (sorted_configuration (py_str_int e) (json_opt_str h) (json_quote (effective_digest d)))) @ ''}''" for d e h
    unfolding configuration_payload_def json_object_def effective_digest_def Let_def written_item_def by (simp add: configuration_sorted)
  then have "configuration_payload d e h = p @ json_opt_str h @ q @ py_str_int e @ CHR '','' # r @ json_quote (effective_digest d) @ t" for d e h
    unfolding join p_def q_def r_def t_def by simp
  then show thesis by (rule that)
qed

lemma py_str_int_comma: "CHR '','' \<notin> set (py_str_int i)"
  using nat_digits_chars [of "CHR '',''"] by (auto simp: py_str_int_def)

text \<open>The text whose SHA-256 is the configuration digest determines the configuration: two analyses have the same text
  exactly if they agree in the TLS parameter snapshot, the warning period and the expected host name. Without a snapshot, or
  with an empty digest, the digest of the empty index stands in for it.\<close>

theorem configuration_identified:
  "configuration_payload d e h = configuration_payload d' e' h' \<longleftrightarrow> effective_digest d = effective_digest d' \<and> e = e' \<and> h = h'"
proof
  obtain p q r t where eq: "\<And>d e h. configuration_payload d e h
      = p @ json_opt_str h @ q @ py_str_int e @ CHR '','' # r @ json_quote (effective_digest d) @ t"
    by (rule configuration_payload_eq) blast
  assume "configuration_payload d e h = configuration_payload d' e' h'"
  then have "json_opt_str h @ q @ py_str_int e @ CHR '','' # r @ json_quote (effective_digest d) @ t
      = json_opt_str h' @ q @ py_str_int e' @ CHR '','' # r @ json_quote (effective_digest d') @ t" by (simp add: eq)
  from json_opt_str_inj [OF this] have h: "h = h'"
    and "py_str_int e @ CHR '','' # r @ json_quote (effective_digest d) @ t = py_str_int e' @ CHR '','' # r @ json_quote (effective_digest d') @ t"
    by simp_all
  note n = split_at [OF this(2) py_str_int_comma py_str_int_comma]
  have "e = e'" using n by (intro py_str_int_inj) simp
  moreover have "effective_digest d = effective_digest d'"
    using n json_quote_inj [of "effective_digest d" t "effective_digest d'" t] by simp
  ultimately show "effective_digest d = effective_digest d' \<and> e = e' \<and> h = h'" using h by simp
qed (simp add: configuration_payload_def effective_digest_def [symmetric])

section \<open>The evidence document\<close>

definition analysis_document :: "analysis_services \<Rightarrow> analyze_request \<Rightarrow> bytes \<Rightarrow> capture_preflight \<Rightarrow> zeek_run_result
    \<Rightarrow> evidence_batch \<Rightarrow> policy_evaluation \<Rightarrow> posture_assessment \<Rightarrow> evidence_document" where
  "analysis_document sv request content preflight zeek batch evaluation posture =
    \<lparr>ed_run_identity = run_identity sv request (sha256_bytes content) (zr_analyzer_bundle_digest zeek)
       (analysis_instant (an_now sv) (rq_analysis_time request))
       (case an_tls_parameters sv of Some p \<Rightarrow> p | None \<Rightarrow> empty_tls_parameter_index),
     ed_capture_preflight = preflight, ed_flows = eb_flows batch, ed_sessions = eb_sessions batch,
     ed_handshakes = eb_handshakes batch, ed_certificates = eb_certificates batch, ed_findings = pv_findings evaluation,
     ed_policy_checks = pv_checks evaluation, ed_posture = posture\<rparr>"

lemma run_analysis_cases:
  assumes "run_analysis sv ops request st = Inr (doc, st')"
  obtains content window preflight zeek batch instant evaluation posture
  where "rq_capture request = Some content" and "open_capture (Some content) = Inr content"
    and "timedelta_seconds (rq_expiry_warning_seconds request) = Inr window"
    and "an_preflight sv content = Inr preflight" and "an_zeek sv content = Inr zeek"
    and "normalize_evidence sv ops (case an_tls_parameters sv of Some p \<Rightarrow> p | None \<Rightarrow> empty_tls_parameter_index)
       \<lparr>cn_library = an_library sv, cn_analysis_time = analysis_instant (an_now sv) (rq_analysis_time request),
        cn_expiry_warning = window, cn_expected_hostname = rq_expected_hostname request\<rparr> content preflight zeek st = Inr (batch, st')"
    and "resolve_evaluation_clock (an_policy_pack sv) (analysis_instant (an_now sv) (rq_analysis_time request))
       (cp_capture_start_time preflight) = Inr instant"
    and "evaluate_policy_batch (an_policy_pack sv) (an_policy_pack_digest sv) (sha256_bytes content) instant batch = Inr evaluation"
    and "length (pv_findings evaluation) \<le> 4096"
    and "score_findings \<lparr>sq_findings = pv_findings evaluation, sq_policy_checks = pv_checks evaluation, sq_asset_context = []\<rparr> = Inr posture"
    and "doc = analysis_document sv request content preflight zeek batch evaluation posture"
    and "evidence_document_ok doc"
  using assms
  by (auto simp: run_analysis_def Let_def py_simps split_beta judge_evidence_def mk_score_request_def score_request_ok_def
      mk_evidence_document_def analysis_document_def reraise_def open_capture_def split: if_splits option.splits)

definition capture_content :: "bytes \<Rightarrow> bool" where
  "capture_content content = (take 4 content = pcapng_magic \<or> take 4 content \<in> set pcap_magics)"

lemma open_capture_Inr: "open_capture (Some content) = Inr x \<longleftrightarrow> x = content \<and> capture_content content"
  by (auto simp: open_capture_def capture_content_def Let_def)

lemma open_capture_Inl:
  "open_capture capture = Inl e \<Longrightarrow> e = FileNotFoundError \<and> capture = None \<or> e = InvalidCaptureError \<and> (\<exists>content. capture = Some content)"
  by (auto simp: open_capture_def Let_def split: option.splits if_splits)

section \<open>A sample run\<close>

text \<open>One connection to port 25 without mail or TLS records; the pack judges handshakes, so nothing is checked.\<close>

definition sample_capture :: bytes where "sample_capture = [212, 195, 178, 161, 0]"

definition sample_analysis :: analysis_services where
  "sample_analysis = \<lparr>an_preflight = (\<lambda>c. Inr sample_preflight),
     an_zeek = (\<lambda>c. Inr \<lparr>zr_image_digest = [], zr_analyzer_bundle_digest = stub_bundle, zr_logs = sample_logs, zr_extracted = []\<rparr>),
     an_tshark = Some (\<lambda>c. Inl AnalyzerError), an_tls_parameters = None, an_library = sample_library, an_trust_snapshot = None,
     an_policy_pack = sample_pack, an_policy_pack_digest = stub_pack, an_now = sample_instant\<rparr>"

definition sample_analyze_request :: analyze_request where
  "sample_analyze_request = \<lparr>rq_capture = Some sample_capture, rq_analysis_time = None,
     rq_expiry_warning_seconds = default_expiry_warning_seconds, rq_expected_hostname = None, rq_policy_profile = PP_IETF_CURRENT\<rparr>"

lemma stub_digests: "is_sha256_hex stub_pack" "is_sha256_hex stub_bundle"
  by (simp_all add: stub_pack_def stub_bundle_def is_sha256_hex_def is_lower_hex_def list_all_iff)

lemma sample_evidence:
  "normalize_evidence sample_analysis memory_ops ix run content sample_preflight
     \<lparr>zr_image_digest = [], zr_analyzer_bundle_digest = stub_bundle, zr_logs = sample_logs, zr_extracted = []\<rparr> []
   = Inr (\<lparr>eb_flows = [sample_flow], eb_sessions = [], eb_handshakes = [], eb_certificates = []\<rparr>, [])"
proof -
  have logs: "bounded_records (logs_get sample_logs ''sm_email.log'') = []" "bounded_records (logs_get sample_logs ''ssl.log'') = []"
    "bounded_records JNull = []"
    by (simp_all add: sample_logs_def logs_get_def)
  have sessions: "normalize_sessions sample_logs [sample_flow] JNull = Inr []"
    by (simp add: normalize_sessions_def logs ssl_facts_of_def Let_def zeek_init_def tshark_init_def py_unique_def List.map_filter_def)
  have quiet: "needs_tshark_corroboration [] [sample_flow] (Some sample_logs) = False"
    by (simp add: needs_tshark_corroboration_def logs sample_flow_def implicit_tls_ports_def)
  have "corroborated_sessions sample_analysis content sample_logs [sample_flow] = Inr ([], JNull)"
    by (simp add: corroborated_sessions_def sessions quiet sample_analysis_def)
  then show ?thesis
    by (simp add: normalize_evidence_def sample_normalize normalize_handshakes_def logs normalize_certificates_def
        sample_analysis_def Let_def)
qed

lemma sample_judgment:
  "\<exists>posture. judge_evidence sample_analysis digest t None \<lparr>eb_flows = [sample_flow], eb_sessions = [], eb_handshakes = [], eb_certificates = []\<rparr>
     = Inr (\<lparr>pv_findings = [], pv_checks = []\<rparr>, posture) \<and> posture_ok posture"
proof -
  have "evaluate_policy_batch sample_pack stub_pack digest (as_utc t) \<lparr>eb_flows = [sample_flow], eb_sessions = [], eb_handshakes = [], eb_certificates = []\<rparr>
      = Inr \<lparr>pv_findings = [], pv_checks = []\<rparr>"
    by (simp add: evaluate_policy_batch_def sample_pack_def evaluate_rule_def records_for_target_def sample_rule_def)
  moreover obtain p where "build_posture [] [] = Inr p" "posture_ok p"
    using build_posture_total [of "[]" "[]"] by (auto simp: build_posture_def Let_def py_simps)
  ultimately show ?thesis
    by (simp add: judge_evidence_def sample_analysis_def sample_pack_def resolve_evaluation_clock_def reraise_def mk_score_request_def
        score_request_ok_def check_model_def score_findings_def dedup_findings_def group_by_def)
qed

lemma sample_run: "\<exists>doc. run_analysis sample_analysis memory_ops sample_analyze_request [] = Inr (doc, []) \<and> ed_policy_checks doc = []"
proof -
  have services: "an_preflight sample_analysis c = Inr sample_preflight"
    "an_zeek sample_analysis c = Inr \<lparr>zr_image_digest = [], zr_analyzer_bundle_digest = stub_bundle, zr_logs = sample_logs, zr_extracted = []\<rparr>"
    "an_policy_pack_digest sample_analysis = stub_pack" for c by (simp_all add: sample_analysis_def)
  have opened: "open_capture (Some sample_capture) = Inr sample_capture"
    by (simp add: open_capture_Inr capture_content_def sample_capture_def pcap_magics_def)
  have window: "timedelta_seconds default_expiry_warning_seconds = Inr 2592000000000" by code_simp
  have start: "cp_capture_start_time sample_preflight = None" by (simp add: sample_preflight_def)
  obtain posture where p: "posture_ok posture" "judge_evidence sample_analysis (sha256_bytes sample_capture) (analysis_instant (an_now sample_analysis) None) None
      \<lparr>eb_flows = [sample_flow], eb_sessions = [], eb_handshakes = [], eb_certificates = []\<rparr> = Inr (\<lparr>pv_findings = [], pv_checks = []\<rparr>, posture)"
    using sample_judgment by blast
  show ?thesis
    by (simp add: run_analysis_def sample_analyze_request_def opened window services reraise_def sample_evidence start p(2)
        mk_evidence_document_def evidence_document_ok_def analysis_run_ok_def run_identity_def stub_digests p(1) check_model_def
        configuration_digest_def)
qed

text \<open>C15: An evidence document is about the capture it was made from, and hangs together. Its run identity has the digests of
  the capture, the configuration, the policy pack and the trust store in use; it satisfies its model; every finding
  carries the digest of that pack and the instant the pack's clock asks for, and has a check that says the same; the
  negative findings are as many as the failed checks; and the coverage counts of the posture are those of the checks.\<close>

theorem analysis_document_sound:
  assumes "run_analysis sv ops request st = Inr (doc, st')"
  shows "\<exists>content preflight instant. rq_capture request = Some content \<and> capture_content content \<and> evidence_document_ok doc
    \<and> ar_capture_sha256 (ed_run_identity doc) = sha256_bytes content
    \<and> ar_policy_pack_version (ed_run_identity doc) = an_policy_pack_digest sv
    \<and> ar_trust_store_digest (ed_run_identity doc) = map_option ts_digest (an_trust_snapshot sv)
    \<and> an_preflight sv content = Inr preflight
    \<and> resolve_evaluation_clock (an_policy_pack sv) (ar_analysis_time (ed_run_identity doc)) (cp_capture_start_time preflight) = Inr instant
    \<and> (\<forall>f \<in> set (ed_findings doc). fi_policy_pack_version f = an_policy_pack_digest sv \<and> fi_policy_evaluation_time f = as_utc instant
        \<and> (\<exists>k \<in> set (ed_policy_checks doc). same_judgment f k))
    \<and> length (filter (\<lambda>f. fi_outcome f = FO_NEGATIVE) (ed_findings doc)) = length (filter (\<lambda>k. pk_outcome k = PC_FAIL) (ed_policy_checks doc))
    \<and> cm_overall (po_coverage (ed_posture doc)) = counts_of (ed_policy_checks doc)"
proof -
  obtain content window preflight zeek batch instant evaluation posture
    where r: "rq_capture request = Some content" "open_capture (Some content) = Inr content"
        "timedelta_seconds (rq_expiry_warning_seconds request) = Inr window" "an_preflight sv content = Inr preflight"
        "an_zeek sv content = Inr zeek"
        "normalize_evidence sv ops (case an_tls_parameters sv of Some p \<Rightarrow> p | None \<Rightarrow> empty_tls_parameter_index)
       \<lparr>cn_library = an_library sv, cn_analysis_time = analysis_instant (an_now sv) (rq_analysis_time request),
        cn_expiry_warning = window, cn_expected_hostname = rq_expected_hostname request\<rparr> content preflight zeek st = Inr (batch, st')"
      and clock: "resolve_evaluation_clock (an_policy_pack sv) (analysis_instant (an_now sv) (rq_analysis_time request))
        (cp_capture_start_time preflight) = Inr instant"
      and ev: "evaluate_policy_batch (an_policy_pack sv) (an_policy_pack_digest sv) (sha256_bytes content) instant batch = Inr evaluation"
      and n: "length (pv_findings evaluation) \<le> 4096"
      and sc: "score_findings \<lparr>sq_findings = pv_findings evaluation, sq_policy_checks = pv_checks evaluation, sq_asset_context = []\<rparr> = Inr posture"
      and doc: "doc = analysis_document sv request content preflight zeek batch evaluation posture" and ok: "evidence_document_ok doc"
    using assms by (rule run_analysis_cases)
  have "cm_overall (po_coverage posture) = counts_of (pv_checks evaluation)"
    using sc batch_wf(1) [OF ev] n by (auto elim!: score_findings_posture simp: matrix_counts_def)
  then show ?thesis
    using r ok clock batch_wf(3-6) [OF ev] by (simp add: doc analysis_document_def run_identity_def open_capture_Inr)
qed

theorem analysis_document_sound_witness:
  "\<exists>doc. run_analysis sample_analysis memory_ops sample_analyze_request [] = Inr (doc, []) \<and> evidence_document_ok doc
    \<and> ar_capture_sha256 (ed_run_identity doc) = sha256_bytes sample_capture"
proof -
  obtain doc where run: "run_analysis sample_analysis memory_ops sample_analyze_request [] = Inr (doc, [])" using sample_run by blast
  from analysis_document_sound [OF run] show ?thesis using run by (auto simp: sample_analyze_request_def)
qed

lemma no_clusters_iff: "dedup_findings fs = Inr cs \<Longrightarrow> cs = [] \<longleftrightarrow> fs = []"
proof -
  assume d: "dedup_findings fs = Inr cs"
  have "cl_contributing_finding_ids c \<noteq> []" if "c \<in> set cs" for c
  proof -
    obtain k where k: "cluster_from_group (filter (\<lambda>f. group_key f = k) fs) = Inr c" "filter (\<lambda>f. group_key f = k) fs \<noteq> []"
      using dedup_member [OF d \<open>c \<in> set cs\<close>] by blast
    have "length (cl_contributing_finding_ids c) = length (filter (\<lambda>f. group_key f = k) fs)"
      using k(1) by (elim cluster_from_group_cases) simp
    then show ?thesis using k(2) by auto
  qed
  then show ?thesis using dedup_ids [OF d] by (cases cs) auto
qed

text \<open>C9: No clean bill of health without evidence. If a document has no finding and a risk score, the score is zero, there
  are policy checks, and every one of them passed; as soon as one check fails there is a risk score and a
  prioritized finding; and if nothing was checked there is no score.\<close>

theorem no_unearned_clean_bill:
  assumes "run_analysis sv ops request st = Inr (doc, st')"
  shows "(ed_findings doc = [] \<and> po_risk_score (ed_posture doc) = Some r \<longrightarrow>
      r = 0 \<and> ed_policy_checks doc \<noteq> [] \<and> list_all (\<lambda>k. pk_outcome k = PC_PASS) (ed_policy_checks doc))
    \<and> (\<forall>k \<in> set (ed_policy_checks doc). pk_outcome k = PC_FAIL \<longrightarrow>
        po_risk_score (ed_posture doc) \<noteq> None \<and> po_prioritized_findings (ed_posture doc) \<noteq> [])
    \<and> (ed_policy_checks doc = [] \<longrightarrow> po_risk_score (ed_posture doc) = None)"
proof -
  obtain content instant batch evaluation posture where
      ev: "evaluate_policy_batch (an_policy_pack sv) (an_policy_pack_digest sv) (sha256_bytes content) instant batch = Inr evaluation"
    and n: "length (pv_findings evaluation) \<le> 4096"
    and sc: "score_findings \<lparr>sq_findings = pv_findings evaluation, sq_policy_checks = pv_checks evaluation, sq_asset_context = []\<rparr> = Inr posture"
    and doc: "ed_findings doc = pv_findings evaluation" "ed_policy_checks doc = pv_checks evaluation" "ed_posture doc = posture"
    using assms by (elim run_analysis_cases) (simp add: analysis_document_def)
  obtain clusters scored where cs: "dedup_findings (pv_findings evaluation) = Inr clusters" "map endpoint_finding_cluster.truncate scored = clusters"
      "po_prioritized_findings posture = prioritize_findings scored" "matrix_counts (po_coverage posture) (pv_checks evaluation)"
      "po_risk_score posture = mk_risk_score (mk_assessment_state (counts_of (pv_checks evaluation))) scored"
    using score_findings_posture [OF sc] batch_wf(1) [OF ev] n by auto
  have none: "scored = [] \<longleftrightarrow> pv_findings evaluation = []" using no_clusters_iff [OF cs(1)] cs(2) by auto
  have prio: "prioritize_findings scored = [] \<longleftrightarrow> scored = []" by (metis prioritize_findings_def length_0_conv length_sort)
  have fails: "\<exists>f \<in> set (pv_findings evaluation). same_judgment f k" if "k \<in> set (pv_checks evaluation)" "pk_outcome k = PC_FAIL" for k
    using batch_wf(5) [OF ev that] .
  have le: "length (pv_findings evaluation) \<le> length (pv_checks evaluation)" using batch_wf(7) [OF ev] .
  show ?thesis unfolding doc cs(3,5) prio
    using none fails le by (auto simp: mk_risk_score_def assessment_complete_iff list_all_iff split: if_splits) blast
qed

theorem no_unearned_clean_bill_witness:
  "\<exists>doc. run_analysis sample_analysis memory_ops sample_analyze_request [] = Inr (doc, []) \<and> po_risk_score (ed_posture doc) = None"
proof -
  obtain doc where run: "run_analysis sample_analysis memory_ops sample_analyze_request [] = Inr (doc, [])" "ed_policy_checks doc = []"
    using sample_run by blast
  from no_unearned_clean_bill [OF run(1)] show ?thesis using run by auto
qed

end
