(* ===== verification/End_To_End.thy ===== *)
theory End_To_End
  imports Delivery Analysis_Correct
begin

text \<open>
  The worker with its analysis: what \<open>application/analysis_workflow.py\<close> asks of \<open>_worker_analyze\<close> of \<open>bootstrap.py\<close>, and what a
  user gets at the end. Shown here: the report of a completed job is about the capture that was uploaded for it, under
  the policy profile that was asked for.
\<close>

definition worker_request :: "bytes \<Rightarrow> string option \<Rightarrow> policy_profile \<Rightarrow> analyze_request" where
  "worker_request content expected_hostname policy_profile =
    \<lparr>rq_capture = Some content, rq_analysis_time = None, rq_expiry_warning_seconds = default_expiry_warning_seconds,
     rq_expected_hostname = expected_hostname, rq_policy_profile = policy_profile\<rparr>"

definition worker_services :: "deployment \<Rightarrow> services \<Rightarrow> services" where
  \<comment> \<open>\<open>analyze=_worker_analyze\<close>\<close>
  "worker_services dp sv = sv\<lparr>sv_analyze := (\<lambda>content host profile. worker_analyze dp (worker_request content host profile))\<rparr>"

lemma worker_analyze_identity:
  assumes "worker_analyze dp (worker_request content host profile) = Inr doc"
  shows "ar_capture_sha256 (ed_run_identity doc) = sha256_bytes content \<and> ar_policy_profile (ed_run_identity doc) = profile
    \<and> evidence_document_ok doc"
proof (cases "dp_stub dp")
  case True
  then show ?thesis using assms
    by (auto simp: worker_analyze_def stub_analyze_def worker_request_def py_simps mk_evidence_document_def open_capture_Inr)
next
  case False
  obtain sv request st st' where run: "run_analysis sv store_ops request st = Inr (doc, st')"
    and rq: "rq_capture request = Some content" "rq_policy_profile request = profile"
    using assms False by (auto simp: worker_analyze_def analyze_capture_def worker_request_def mk_analyze_request_def py_simps split_beta)
  show ?thesis
    using run by (rule run_analysis_cases) (use rq in \<open>simp add: analysis_document_def run_identity_def\<close>)
qed

text \<open>C8: A user gets the report of the capture that was uploaded. When a job completes, the bytes served for it are the
  canonical form of a report that names the job's case, whose evidence document satisfies its model, was made from a
  capture with the digest the job has had since its intake, and under the policy profile of the job.\<close>

theorem report_of_the_upload:
  assumes "api_ok (worker_services dp sv)" and "world_ok w" and "job_of (w_store w) rid = Some j" and "aj_status j = ST_RUNNING"
    and "execute_capture_job (worker_services dp sv) rid w = (Inr job, t)" and "aj_status job = ST_COMPLETED"
  shows "\<exists>json r. read_artifact rid ''report.json'' (w_store t) = Inr (Some json)
    \<and> get_report (aj_case_id j) (w_catalog t) = Inr (Some json) \<and> sv_canonicalize sv r = Inr json
    \<and> rp_case_id (rpt_manifest r) = Some (aj_case_id j) \<and> evidence_document_ok (rpt_evidence r)
    \<and> aj_capture_sha256 j = Some (ar_capture_sha256 (ed_run_identity (rpt_evidence r)))
    \<and> pp_of_value (aj_policy_profile j) = Some (ar_policy_profile (ed_run_identity (rpt_evidence r)))"
proof -
  obtain json r where d: "read_artifact rid ''report.json'' (w_store t) = Inr (Some json)"
      "get_report (aj_case_id j) (w_catalog t) = Inr (Some json)" "sv_canonicalize sv r = Inr json"
      "report_for (worker_services dp sv) j r"
    using completed_is_delivered [OF assms] by (auto simp: worker_services_def)
  obtain content profile where a: "aj_capture_sha256 j = Some (sha256_bytes content)" "pp_of_value (aj_policy_profile j) = Some profile"
      "worker_analyze dp (worker_request content (normalize_expected_hostname (aj_expected_hostname j)) profile) = Inr (rpt_evidence r)"
    and case_id: "rp_case_id (rpt_manifest r) = Some (aj_case_id j)"
    using d(4) by (auto simp: report_for_def analysis_of_def worker_services_def)
  show ?thesis using d(1-3) case_id a(1,2) worker_analyze_identity [OF a(3)] by auto
qed

section \<open>A sample worker\<close>

definition stub_deployment :: deployment where
  "stub_deployment = \<lparr>dp_stub = True, dp_policy_pack = (\<lambda>p. Inl PolicyPackError), dp_tls_parameters = Inr empty_tls_parameter_index,
     dp_trust_store = Inl ForeignError, dp_preflight = (\<lambda>c. Inl AnalyzerError), dp_zeek = (\<lambda>c. Inl AnalyzerError),
     dp_tshark = (\<lambda>c. Inl AnalyzerError), dp_library = sample_library, dp_now = sample_instant\<rparr>"

lemma stub_runs:
  "\<exists>doc. worker_analyze stub_deployment (worker_request [212, 195, 178, 161] None PP_IETF_CURRENT) = Inr doc
     \<and> evidence_document_ok doc \<and> ed_sessions doc = [] \<and> ar_trust_store_digest (ed_run_identity doc) = None"
proof -
  obtain p where p: "build_posture [] [] = Inr p" "posture_ok p"
    using build_posture_total [of "[]" "[]"] by (auto simp: build_posture_def Let_def py_simps)
  have "open_capture (Some [212, 195, 178, 161]) = Inr [212, 195, 178, 161]"
    by (simp add: open_capture_Inr capture_content_def pcap_magics_def)
  then show ?thesis
    by (simp add: worker_analyze_def stub_deployment_def stub_analyze_def worker_request_def p mk_evidence_document_def check_model_def
        evidence_document_ok_def analysis_run_ok_def configuration_digest_def stub_digests)
qed

lemma stub_worker_completes:
  "\<exists>job t. execute_capture_job (worker_services stub_deployment sample_services) ''r1'' running_world = (Inr job, t) \<and> aj_status job = ST_COMPLETED"
proof -
  let ?sv = "worker_services stub_deployment sample_services"
  obtain j where j: "job_of (w_store running_world) ''r1'' = Some j" "aj_status j = ST_RUNNING" "aj_policy_profile j = ''ietf_current''"
      "aj_expected_hostname j = None"
    using running_world_facts(2) by blast
  obtain doc where doc: "worker_analyze stub_deployment (worker_request [212, 195, 178, 161] None PP_IETF_CURRENT) = Inr doc"
      "evidence_document_ok doc" "ed_sessions doc = []" "ar_trust_store_digest (ed_run_identity doc) = None"
    using stub_runs by blast
  have pp: "pp_of_value ''ietf_current'' = Some PP_IETF_CURRENT" by code_simp
  have quiet: "quiet ?sv" using sample_quiet by (simp add: quiet_def worker_services_def)
  have "normalize_expected_hostname None = None" by (simp add: normalize_expected_hostname_def)
  then have healthy: "healthy ?sv j [212, 195, 178, 161] doc"
    using sample_healthy(1) [OF j(3)] doc j(3,4) pp by (simp add: healthy_def worker_services_def scorers_ok_def opt_ok_def)
  have renders: "renders_ok ?sv 161" using sample_healthy(2) [OF j(3)] by (simp add: renders_ok_def worker_services_def)
  have "161 \<le> rr_max_report_bytes (w_catalog running_world)" "serves (w_catalog running_world) []"
    "0 < rr_max_report_count (w_catalog running_world)"
    using sample_rest(2) by (simp_all add: running_world_def sample_world_def sample_root_def)
  then show ?thesis
    by (intro healthy_completes [where cs = "[]", OF quiet running_world_facts(1) j(1,2) running_world_facts(3,4) healthy renders]) simp_all
qed

theorem report_of_the_upload_witness:
  "\<exists>job t json. execute_capture_job (worker_services stub_deployment sample_services) ''r1'' running_world = (Inr job, t)
    \<and> aj_status job = ST_COMPLETED \<and> read_artifact ''r1'' ''report.json'' (w_store t) = Inr (Some json)"
proof -
  obtain job t where run: "execute_capture_job (worker_services stub_deployment sample_services) ''r1'' running_world = (Inr job, t)"
      "aj_status job = ST_COMPLETED"
    using stub_worker_completes by blast
  obtain j where j: "job_of (w_store running_world) ''r1'' = Some j" "aj_status j = ST_RUNNING" using running_world_facts(2) by blast
  have api: "api_ok (worker_services stub_deployment sample_services)" using sample_api by (simp add: api_ok_def worker_services_def)
  show ?thesis using report_of_the_upload [OF api running_world_facts(1) j run] run by blast
qed

end
