(* ===== verification/Api.thy ===== *)
theory Api
  imports Delivery
begin

text \<open>
  The HTTP interface (\<open>src/src/securemail/api\<close>): the routes of \<open>routers/analyses.py\<close> and \<open>routers/reports.py\<close>, the
  dependencies of \<open>dependencies.py\<close> and the middleware and static files of \<open>main.py\<close>.

  A route is an operation on the \<^typ>\<open>world\<close> (job store, window history, report catalog) that returns a \<open>reply\<close>: a
  response, or the \<open>HTTPException\<close> it raises, with no detail where the detail is the message of another exception. An
  exception that no route handles stays an error of the operation. The framework is FastAPI, whose documented behaviour
  the application relies on: a path parameter that violates its constraint is answered with 422, an \<open>HTTPException\<close>
  with its status and detail, any other exception with 500, outside the middleware that adds the security headers.

  Shown in \<open>Api_Correct\<close>: which status each request gets, and what a client downloads.
\<close>

section \<open>Dependencies, requests and replies\<close>

record api_dependencies =
  ad_decode :: decoder
  ad_canonicalize :: canonicalizer
  ad_job_store :: bool \<comment> \<open>\<open>job_store is not None\<close>; the store itself is part of the world\<close>
  ad_max_capture_bytes :: nat
  ad_digest :: "(bytes \<Rightarrow> string) option"
  ad_render_html :: "(canonical_report \<Rightarrow> string result) option"
  ad_render_pdf :: "(string \<Rightarrow> bytes result) option"

text \<open>The form of an upload, with the identifiers and the time its intake draws.\<close>

record upload_form =
  uf_filename :: "string option"
  uf_content :: bytes
  uf_policy_profile :: string
  uf_expected_hostname :: "string option"
  uf_case_id :: "string option"
  uf_run_id :: string
  uf_upload_id :: string
  uf_created :: py_datetime

datatype artifact_format = AF_JSON | AF_HTML | AF_PDF

datatype api_request =
    CreateAnalysis upload_form
  | ReadAnalysis string
  | CancelAnalysis string
  | DownloadAnalysis string artifact_format
  | DownloadCase string artifact_format
  | ListCases
  | PreviewReport "bytes list"
  | Health

record analysis_status_view =
  av_run_id :: string
  av_case_id :: string
  av_status :: analysis_status
  av_stage :: string
  av_capture_sha256 :: "string option"
  av_original_filename :: string
  av_policy_profile :: string
  av_expected_hostname :: "string option"
  av_created_at :: py_datetime
  av_updated_at :: py_datetime
  av_error_message :: "string option"
  av_artifacts :: artifact_availability
  av_cancel_requested :: bool

definition job_status_view :: "analysis_job \<Rightarrow> analysis_status_view" where
  \<comment> \<open>the dump writes time stamps to the second\<close>
  "job_status_view job = \<lparr>av_run_id = aj_run_id job, av_case_id = aj_case_id job, av_status = aj_status job,
     av_stage = sg_value (aj_stage job), av_capture_sha256 = aj_capture_sha256 job,
     av_original_filename = aj_original_filename job, av_policy_profile = aj_policy_profile job,
     av_expected_hostname = aj_expected_hostname job, av_created_at = to_second (aj_created_at job),
     av_updated_at = to_second (aj_updated_at job), av_error_message = aj_error_message job,
     av_artifacts = aj_artifacts job, av_cancel_requested = aj_cancel_requested job\<rparr>"

text \<open>What a response carries: bytes, or a model that the framework serializes.\<close>

datatype api_body =
    BodyBytes bytes
  | BodyStatus analysis_status_view
  | BodyCases "case_summary list"
  | BodyHealth string
  | BodyDetail "string option"

record response =
  rs_status :: nat
  rs_media_type :: string
  rs_headers :: "(string, string) dict"
  rs_body :: api_body

datatype reply = Reply response | HttpError nat "string option"

definition reply_json :: "nat \<Rightarrow> api_body \<Rightarrow> reply" where
  "reply_json status body = Reply \<lparr>rs_status = status, rs_media_type = ''application/json'', rs_headers = [], rs_body = body\<rparr>"

definition attachment :: "bytes \<Rightarrow> string \<Rightarrow> string \<Rightarrow> reply" where
  "attachment payload media_type filename = Reply \<lparr>rs_status = 200, rs_media_type = media_type,
     rs_headers = [(''Content-Disposition'', ''attachment; filename=\"'' @ filename @ ''\"'')], rs_body = BodyBytes payload\<rparr>"

text \<open>\<open>except E as exc: raise HTTPException(...)\<close> for the classes on which the handler is defined.\<close>

definition catching :: "('s, reply) op \<Rightarrow> (py_exn \<Rightarrow> reply option) \<Rightarrow> ('s, reply) op" where
  "catching m h = tryS m (\<lambda>e. case h e of None \<Rightarrow> raiseS e | Some r \<Rightarrow> returnS r)"

section \<open>Captures and jobs (routers/analyses.py)\<close>

definition hex_upper :: "int \<Rightarrow> char" where
  "hex_upper n = (if n < 10 then char_of (48 + nat n) else char_of (55 + nat n))"

definition quote_char :: "char \<Rightarrow> string" where
  \<comment> \<open>\<open>urllib.parse.quote\<close> of one character, with \<open>._-\<close> declared safe; \<open>~\<close> always is\<close>
  "quote_char c = (if is_alpha c \<or> is_digit c \<or> c \<in> set ''_.-~'' then [c]
     else concat (map (\<lambda>b. [CHR ''%'', hex_upper (b div 16), hex_upper (b mod 16)]) (utf8_bytes [c])))"

definition safe_filename :: "string \<Rightarrow> string \<Rightarrow> string" where
  "safe_filename stem ext = concat (map quote_char (''securemail-'' @ stem @ ext))"

function upload_chunks :: "bytes \<Rightarrow> bytes list" where
  "upload_chunks content = (if content = [] then [] else take 65536 content # upload_chunks (drop 65536 content))"
  by pat_completeness auto
termination by (relation "measure length") simp_all

declare upload_chunks.simps [simp del]

definition require_jobs :: "api_dependencies \<Rightarrow> ('s, reply) op \<Rightarrow> ('s, reply) op" where
  "require_jobs d handler = (if ad_job_store d then handler
     else returnS (HttpError 503 (Some ''capture analysis is not configured'')))"

definition upload_request :: "api_dependencies \<Rightarrow> upload_form \<Rightarrow> policy_profile \<Rightarrow> capture_intake_request" where
  "upload_request d u profile =
    (let filename = (case uf_filename u of None \<Rightarrow> [] | Some f \<Rightarrow> f);
         hostname = (case uf_expected_hostname u of None \<Rightarrow> None | Some h \<Rightarrow> if h = [] then None else Some (py_strip h))
     in \<lparr>ci_original_filename = filename, ci_policy_profile = profile,
         ci_expected_hostname = (case hostname of None \<Rightarrow> None | Some h \<Rightarrow> if h = [] then None else Some h),
         ci_case_id = uf_case_id u, ci_max_capture_bytes = ad_max_capture_bytes d\<rparr>)"

fun create_error :: "py_exn \<Rightarrow> reply option" where
  "create_error CaptureTooLargeError = Some (HttpError 413 None)"
| "create_error InvalidCaptureError = Some (HttpError 400 None)"
| "create_error CaptureIntakeError = Some (HttpError 400 None)"
| "create_error StorageQuotaError = Some (HttpError 503 (Some ''capture storage quota exceeded''))"
| "create_error _ = None"

definition create_analysis :: "api_dependencies \<Rightarrow> upload_form \<Rightarrow> (world, reply) op" where
  "create_analysis d u = require_jobs d (
    case pp_of_value (uf_policy_profile u) of
      None \<Rightarrow> returnS (HttpError 400 (Some ''unknown policy profile''))
    | Some profile \<Rightarrow>
        catching (
          doS (pureS (\<lambda>_. check_model (intake_request_ok (upload_request d u profile)) (upload_request d u profile))) (\<lambda>request.
          doS (onS w_store w_store_update (ingest_capture request (upload_chunks (uf_content u))
                (uf_run_id u) (uf_upload_id u) (uf_created u))) (\<lambda>job.
          returnS (reply_json 202 (BodyStatus (job_status_view job)))))) create_error)"

definition path_param_ok :: "string \<Rightarrow> bool" where
  \<comment> \<open>\<open>Path(min_length=1, max_length=160, pattern=r"^[A-Za-z0-9][A-Za-z0-9._-]*$")\<close>\<close>
  "path_param_ok s = (len_in 1 160 s
     \<and> (case s of [] \<Rightarrow> False | c # cs \<Rightarrow> (is_alpha c \<or> is_digit c) \<and> list_all is_id_char cs))"

definition with_path :: "string \<Rightarrow> ('s, reply) op \<Rightarrow> ('s, reply) op" where
  "with_path param handler = (if path_param_ok param then handler else returnS (HttpError 422 None))"

fun job_error :: "py_exn \<Rightarrow> reply option" where
  "job_error JobNotFoundError = Some (HttpError 404 None)"
| "job_error _ = None"

fun cancel_error :: "py_exn \<Rightarrow> reply option" where
  "cancel_error JobNotFoundError = Some (HttpError 404 None)"
| "cancel_error JobConflictError = Some (HttpError 409 None)"
| "cancel_error _ = None"

fun download_error :: "py_exn \<Rightarrow> reply option" where
  "download_error JobNotFoundError = Some (HttpError 404 None)"
| "download_error ArtifactNotReadyError = Some (HttpError 409 None)"
| "download_error _ = None"

definition read_analysis :: "api_dependencies \<Rightarrow> string \<Rightarrow> (world, reply) op" where
  "read_analysis d run_id = with_path run_id (require_jobs d (catching (
     doS (pureS (\<lambda>w. bindE (check_model (run_id_request_ok run_id) run_id) (\<lambda>rid. get_analysis rid (w_store w)))) (\<lambda>job.
     returnS (reply_json 200 (BodyStatus (job_status_view job))))) job_error))"

definition cancel_analysis_route :: "api_dependencies \<Rightarrow> string \<Rightarrow> (world, reply) op" where
  "cancel_analysis_route d run_id = with_path run_id (require_jobs d (catching (
     doS (pureS (\<lambda>_. check_model (run_id_request_ok run_id) run_id)) (\<lambda>rid.
     doS (onS w_store w_store_update (cancel_analysis rid)) (\<lambda>job.
     returnS (reply_json 200 (BodyStatus (job_status_view job)))))) cancel_error))"

definition job_download :: "api_dependencies \<Rightarrow> string \<Rightarrow> string \<Rightarrow> string \<Rightarrow> string \<Rightarrow> (world, reply) op" where
  "job_download d run_id name media_type ext = require_jobs d (catching (
     doS (pureS (\<lambda>w. bindE (check_model (run_id_request_ok run_id) run_id) (\<lambda>rid. get_analysis rid (w_store w)))) (\<lambda>job.
     doS (pureS (\<lambda>w. read_job_artifact run_id name (w_store w))) (\<lambda>payload.
     returnS (attachment payload media_type (safe_filename (aj_case_id job) ext))))) download_error)"

fun download_analysis :: "api_dependencies \<Rightarrow> string \<Rightarrow> artifact_format \<Rightarrow> (world, reply) op" where
  "download_analysis d run_id AF_JSON =
     with_path run_id (job_download d run_id ''report.json'' ''application/json'' ''.json'')"
| "download_analysis d run_id AF_HTML =
     with_path run_id (job_download d run_id ''report.html'' ''text/html; charset=utf-8'' ''.html'')"
| "download_analysis d run_id AF_PDF =
     with_path run_id (job_download d run_id ''report.pdf'' ''application/pdf'' ''.pdf'')"

section \<open>Published reports (routers/analyses.py and routers/reports.py)\<close>

definition case_download_error :: "py_exn \<Rightarrow> reply option" where
  "case_download_error e =
    (if e \<in> {CaseReportMismatchError, CaseReportNotFoundError} then Some (HttpError 404 (Some ''case report not found''))
     else if e \<in> {InvalidCanonicalReportError, ReportCatalogError, ReportTooLargeError, ReportRepositoryError,
         ArtifactNotReadyError, ReportError} then Some (HttpError 503 (Some ''case report unavailable''))
     else None)"

definition case_download :: "api_dependencies \<Rightarrow> string \<Rightarrow> string \<Rightarrow> string \<Rightarrow> string \<Rightarrow> (world, reply) op" where
  "case_download d case_id fmt media_type ext =
    (case (ad_render_html d, ad_render_pdf d, ad_digest d) of
       (Some render_html, Some render_pdf, Some digest) \<Rightarrow> catching (
         doS (pureS (\<lambda>w. render_case_artifact (ad_decode d) (ad_canonicalize d) digest render_html render_pdf
               case_id fmt (w_catalog w))) (\<lambda>payload.
         returnS (attachment payload media_type (safe_filename case_id ext)))) case_download_error
     | _ \<Rightarrow> returnS (HttpError 503 (Some ''report rendering is not configured'')))"

definition case_report_error :: "py_exn \<Rightarrow> reply option" where
  "case_report_error e =
    (if e \<in> {CaseReportMismatchError, CaseReportNotFoundError} then Some (HttpError 404 (Some ''case report not found''))
     else if e \<in> {InvalidCanonicalReportError, ReportCatalogError, ReportTooLargeError}
     then Some (HttpError 503 (Some ''case report unavailable''))
     else None)"

definition read_case_report :: "api_dependencies \<Rightarrow> string \<Rightarrow> (world, reply) op" where
  "read_case_report d case_id = with_path case_id (catching (
     doS (pureS (\<lambda>w. bindE (check_model (len_in 1 160 case_id) case_id) (\<lambda>c.
       get_case_report (ad_decode d) (ad_canonicalize d) c (w_catalog w)))) (\<lambda>(report, canonical_bytes).
     returnS (reply_json 200 (BodyBytes canonical_bytes)))) case_report_error)"

fun download_case :: "api_dependencies \<Rightarrow> string \<Rightarrow> artifact_format \<Rightarrow> (world, reply) op" where
  "download_case d case_id AF_JSON = read_case_report d case_id"
| "download_case d case_id AF_HTML =
     with_path case_id (case_download d case_id ''html'' ''text/html; charset=utf-8'' ''.html'')"
| "download_case d case_id AF_PDF =
     with_path case_id (case_download d case_id ''pdf'' ''application/pdf'' ''.pdf'')"

definition catalog_error :: "py_exn \<Rightarrow> reply option" where
  "catalog_error e =
    (if e \<in> {CaseReportMismatchError, InvalidCanonicalReportError, ReportCatalogError, ReportTooLargeError}
     then Some (HttpError 503 (Some ''report catalog unavailable'')) else None)"

definition list_cases :: "api_dependencies \<Rightarrow> (world, reply) op" where
  "list_cases d = catching (
     doS (pureS (\<lambda>w. list_case_summaries (ad_decode d) (ad_canonicalize d) (w_catalog w))) (\<lambda>cases.
     returnS (reply_json 200 (BodyCases cases)))) catalog_error"

fun receive_body :: "bytes \<Rightarrow> bytes list \<Rightarrow> bytes option" where
  \<comment> \<open>the loop over \<open>request.stream()\<close>; \<open>None\<close> when a chunk does not fit\<close>
  "receive_body payload [] = Some payload"
| "receive_body payload (chunk # chunks) =
     (if max_report_bytes < length payload + length chunk then None else receive_body (payload @ chunk) chunks)"

fun preview_error :: "py_exn \<Rightarrow> reply option" where
  "preview_error ReportTooLargeError = Some (HttpError 413 None)"
| "preview_error InvalidCanonicalReportError = Some (HttpError 400 None)"
| "preview_error _ = None"

definition preview_report :: "api_dependencies \<Rightarrow> bytes list \<Rightarrow> (world, reply) op" where
  "preview_report d chunks =
    (case receive_body [] chunks of
       None \<Rightarrow> returnS (HttpError 413 (Some ''report input exceeds 8388608 bytes''))
     | Some payload \<Rightarrow> catching (
         doS (pureS (\<lambda>_. parse_report (ad_decode d) (ad_canonicalize d) payload)) (\<lambda>(report, canonical_bytes).
         returnS (reply_json 200 (BodyBytes canonical_bytes)))) preview_error)"

definition health :: "(world, reply) op" where
  "health = returnS (reply_json 200 (BodyHealth ''ok''))"

section \<open>The application (main.py)\<close>

fun route :: "api_dependencies \<Rightarrow> api_request \<Rightarrow> (world, reply) op" where
  "route d (CreateAnalysis u) = create_analysis d u"
| "route d (ReadAnalysis run_id) = read_analysis d run_id"
| "route d (CancelAnalysis run_id) = cancel_analysis_route d run_id"
| "route d (DownloadAnalysis run_id fmt) = download_analysis d run_id fmt"
| "route d (DownloadCase case_id fmt) = download_case d case_id fmt"
| "route d ListCases = list_cases d"
| "route d (PreviewReport chunks) = preview_report d chunks"
| "route d Health = health"

definition security_headers :: "(string, string) dict" where
  "security_headers = [(''Cache-Control'', ''no-store''),
     (''Content-Security-Policy'', ''default-src 'self'; base-uri 'self'; object-src 'none'; frame-ancestors 'none'; form-action 'self'' @ [CHR 0x27]),
     (''Cross-Origin-Opener-Policy'', ''same-origin''),
     (''Cross-Origin-Resource-Policy'', ''same-origin''),
     (''Referrer-Policy'', ''no-referrer''),
     (''X-Content-Type-Options'', ''nosniff''),
     (''X-Frame-Options'', ''DENY'')]"

definition add_same_origin_security_headers :: "response \<Rightarrow> response" where
  "add_same_origin_security_headers r =
    r\<lparr>rs_headers := fold (\<lambda>(k, v). AList.update k v) security_headers (rs_headers r)\<rparr>"

text \<open>FastAPI turns an \<open>HTTPException\<close> into a response.\<close>

fun http_response :: "reply \<Rightarrow> response" where
  "http_response (Reply r) = r"
| "http_response (HttpError status detail) =
     \<lparr>rs_status = status, rs_media_type = ''application/json'', rs_headers = [], rs_body = BodyDetail detail\<rparr>"

definition internal_server_error :: response where
  "internal_server_error = \<lparr>rs_status = 500, rs_media_type = ''text/plain; charset=utf-8'', rs_headers = [],
     rs_body = BodyDetail None\<rparr>"

definition serve :: "api_dependencies \<Rightarrow> api_request \<Rightarrow> world \<Rightarrow> response \<times> world" where
  "serve d req w = (case route d req w of
     (Inl e, t) \<Rightarrow> (internal_server_error, t)
   | (Inr r, t) \<Rightarrow> (add_same_origin_security_headers (http_response r), t))"

text \<open>\<open>SpaStaticFiles.get_response\<close>; \<open>static\<close> is the method of the superclass and \<open>html\<close> its setting.\<close>

definition spa_get_response :: "bool \<Rightarrow> (string \<Rightarrow> reply) \<Rightarrow> string \<Rightarrow> reply" where
  "spa_get_response html static path =
    (case static path of
       HttpError status detail \<Rightarrow>
         if status \<noteq> 404 \<or> \<not> html then HttpError status detail
         else if path_parts path \<noteq> [] \<and> path_suffix (last (path_parts path)) \<noteq> [] then HttpError status detail
         else static ''index.html''
     | Reply r \<Rightarrow> Reply r)"

end
