(* ===== verification/Api_Correct.thy ===== *)
theory Api_Correct
  imports Api
begin

text \<open>
  What a client of the HTTP interface can rely on: every request is answered with a status the route documents, or
  crashes in one of two described ways; a reading request changes nothing; an accepted upload can be polled under the
  identifier it was given; and a job the worker completed is downloaded from both places with the same bytes.
\<close>

section \<open>Documented statuses\<close>

fun documented :: "api_request \<Rightarrow> nat set" where
  "documented (CreateAnalysis u) = {202, 400, 413, 503}"
| "documented (ReadAnalysis i) = {200, 404, 422, 503}"
| "documented (CancelAnalysis i) = {200, 404, 409, 422, 503}"
| "documented (DownloadAnalysis i fmt) = {200, 404, 409, 422, 503}"
| "documented (DownloadCase c fmt) = {200, 404, 422, 503}"
| "documented ListCases = {200, 503}"
| "documented (PreviewReport chunks) = {200, 400, 413}"
| "documented Health = {200}"

fun writes :: "api_request \<Rightarrow> bool" where
  "writes (CreateAnalysis u) = True"
| "writes (CancelAnalysis i) = True"
| "writes _ = False"

text \<open>The renderer error a download of a case runs into, if any.\<close>

definition render_failure :: "api_dependencies \<Rightarrow> string \<Rightarrow> artifact_format \<Rightarrow> report_root \<Rightarrow> py_exn option" where
  "render_failure d case_id fmt c =
    (case (ad_render_html d, ad_render_pdf d, ad_digest d, get_case_report (ad_decode d) (ad_canonicalize d) case_id c) of
       (Some render_html, Some render_pdf, Some digest, Inr (report, b)) \<Rightarrow>
         (case render_html report of
            Inl e \<Rightarrow> Some e
          | Inr html \<Rightarrow> if fmt = AF_PDF then (case render_pdf html of Inl e \<Rightarrow> Some e | Inr p \<Rightarrow> None) else None)
     | _ \<Rightarrow> None)"

definition unmapped :: "py_exn \<Rightarrow> bool" where
  "unmapped e = (e \<noteq> ReportError \<and> case_download_error e = None)"

fun crashes :: "api_dependencies \<Rightarrow> api_request \<Rightarrow> world \<Rightarrow> bool" where
  "crashes d (CreateAnalysis u) w = (ad_job_store d \<and> (\<exists>p. pp_of_value (uf_policy_profile u) = Some p
     \<and> \<not> intake_request_ok (upload_request d u p)))"
| "crashes d (DownloadCase c fmt) w = (fmt \<noteq> AF_JSON \<and> path_param_ok c
     \<and> (\<exists>e. render_failure d c fmt (w_catalog w) = Some e \<and> unmapped e))"
| "crashes _ _ _ = False"

text \<open>What is assumed of the code the application is wired with: the decoder validates the model it returns, the
  canonicalizer raises the errors that \<open>parse_report\<close> expects (\<open>CanonicalJsonError\<close> is a \<open>ValueError\<close>), the digest is
  a SHA-256.\<close>

definition wired :: "api_dependencies \<Rightarrow> bool" where
  "wired d = ((\<forall>b r. ad_decode d b = Inr r \<longrightarrow> canonical_report_ok r)
     \<and> (\<forall>r e. ad_canonicalize d r = Inl e \<longrightarrow> e \<in> {ValidationError, TypeError, ValueError})
     \<and> (\<forall>digest b. ad_digest d = Some digest \<longrightarrow> is_sha256_hex (digest b)))"

text \<open>The identifiers an upload draws are random, and fresh in the quarantine.\<close>

fun fresh_ids :: "api_request \<Rightarrow> world \<Rightarrow> bool" where
  "fresh_ids (CreateAnalysis u) w = (is_identifier (uf_run_id u) \<and> is_identifier (uf_upload_id u)
     \<and> map_of (js_quarantine (w_store w)) (uf_upload_id u) = None)"
| "fresh_ids _ w = True"

section \<open>Handlers\<close>

lemma catching_cases:
  "catching m h w = (case m w of
     (Inr r, t) \<Rightarrow> (Inr r, t)
   | (Inl e, t) \<Rightarrow> (case h e of None \<Rightarrow> (Inl e, t) | Some r \<Rightarrow> (Inr r, t)))"
  by (auto simp: catching_def op_defs split: prod.splits sum.splits option.splits)

lemma path_param_identifier: "path_param_ok s \<longleftrightarrow> is_identifier s"
  by (cases s) (auto simp: path_param_ok_def len_in_def)

lemma path_param_request: "path_param_ok s \<Longrightarrow> run_id_request_ok s"
  by (simp add: path_param_ok_def run_id_request_ok_def)

lemma path_param_len: "path_param_ok s \<Longrightarrow> len_in 1 160 s" "path_param_ok s \<Longrightarrow> len_in (Suc 0) 160 s"
  by (simp_all add: path_param_ok_def)

text \<open>The status a route ends with, when it ends with a reply.\<close>

fun reply_status :: "reply \<Rightarrow> nat" where
  "reply_status (Reply r) = rs_status r"
| "reply_status (HttpError n d) = n"

definition ends_in :: "nat set \<Rightarrow> (world, reply) op \<Rightarrow> world \<Rightarrow> bool" where
  "ends_in S m w = (\<exists>r t. m w = (Inr r, t) \<and> reply_status r \<in> S)"

lemma status_http_response [simp]: "rs_status (http_response r) = reply_status r"
  by (cases r) simp_all

lemma serve_status: "ends_in S (route d req) w \<Longrightarrow> rs_status (fst (serve d req w)) \<in> S"
  by (auto simp: ends_in_def serve_def add_same_origin_security_headers_def)

lemma serve_raise: "route d req w = (Inl e, t) \<Longrightarrow> serve d req w = (internal_server_error, t)"
  by (simp add: serve_def)

lemma ends_in_mono: "ends_in S m w \<Longrightarrow> S \<subseteq> T \<Longrightarrow> ends_in T m w"
  by (auto simp: ends_in_def)

lemma ends_with_path: "(path_param_ok p \<Longrightarrow> ends_in S m w) \<Longrightarrow> 422 \<in> S \<Longrightarrow> ends_in S (with_path p m) w"
  by (auto simp: with_path_def ends_in_def returnS_def)

lemma ends_require_jobs: "(ad_job_store d \<Longrightarrow> ends_in S m w) \<Longrightarrow> 503 \<in> S \<Longrightarrow> ends_in S (require_jobs d m) w"
  by (auto simp: require_jobs_def ends_in_def returnS_def)

lemma ends_catching:
  assumes "\<And>r t. m w = (Inr r, t) \<Longrightarrow> reply_status r \<in> S"
    and "\<And>e t. m w = (Inl e, t) \<Longrightarrow> \<exists>r. h e = Some r \<and> reply_status r \<in> S"
  shows "ends_in S (catching m h) w"
proof (cases "m w")
  case (Pair x t)
  then show ?thesis using assms by (cases x) (force simp: ends_in_def catching_cases)+
qed

lemma reply_status_simps [simp]:
  "reply_status (reply_json n b) = n" "reply_status (attachment p m f) = 200"
  by (simp_all add: reply_json_def attachment_def)

lemma read_value: "doS (pureS f) (\<lambda>x. returnS (g x)) w = (case f w of Inl e \<Rightarrow> Inl e | Inr x \<Rightarrow> Inr (g x), w)"
  by (simp add: op_defs split: sum.splits)

section \<open>Jobs\<close>

lemma get_analysis_eq:
  "store_ok s \<Longrightarrow> get_analysis rid s = (case job_of s rid of None \<Rightarrow> Inl JobNotFoundError | Some j \<Rightarrow> Inr j)"
  by (simp add: get_analysis_def get_job_eq py_simps)

lemma read_analysis_ends:
  assumes "store_ok (w_store w)"
  shows "ends_in {200, 404, 422, 503} (read_analysis d rid) w"
  unfolding read_analysis_def
  by (rule ends_with_path, rule ends_require_jobs, rule ends_catching)
     (auto simp: read_value path_param_request get_analysis_eq [OF assms] py_simps check_model_def split: option.splits)

lemma cancel_ends:
  assumes "store_ok (w_store w)"
  shows "ends_in {200, 404, 409, 422, 503} (cancel_analysis_route d rid) w"
  unfolding cancel_analysis_route_def
  by (rule ends_with_path, rule ends_require_jobs, rule ends_catching)
     (auto simp: op_defs path_param_request cancel_analysis_def request_cancel_eq [OF assms] Let_def check_model_def
       split: option.splits if_splits)

lemma read_artifact_store:
  assumes "store_ok s" and "name \<in> {''report.json'', ''report.html'', ''report.pdf''}"
  shows "read_artifact rid name s = (case job_of s rid of None \<Rightarrow> Inl JobNotFoundError
    | Some j \<Rightarrow> Inr (map_of (jd_artifacts (the_dir rid s)) name))"
proof (cases "job_of s rid")
  case None
  then show ?thesis using assms(2) by (auto simp: read_artifact_def artifact_limits_def get_job_eq [OF assms(1)] py_simps)
next
  case (Some j)
  then obtain d where d: "map_of (js_jobs s) rid = Some d" "jd_status d = Some j" by (auto simp: job_of_def bind_eq_Some_conv)
  note dir = store_ok_dir [OF assms(1) d(1), unfolded dir_ok_def, THEN conjunct2, THEN conjunct2, rule_format, of name]
  obtain limit where "map_of artifact_limits name = Some limit" using assms(2) by (auto simp: artifact_limits_def)
  then show ?thesis using dir Some d(1)
    by (cases "map_of (jd_artifacts d) name") (auto simp: read_artifact_def get_job_eq [OF assms(1)] the_dir_def py_simps)
qed

lemma read_job_artifact_eq:
  assumes "store_ok s" and "name \<in> {''report.json'', ''report.html'', ''report.pdf''}" and "path_param_ok rid"
  shows "read_job_artifact rid name s = (case job_of s rid of None \<Rightarrow> Inl JobNotFoundError
    | Some j \<Rightarrow> if aj_status j \<noteq> ST_COMPLETED then Inl ArtifactNotReadyError
        else (case map_of (jd_artifacts (the_dir rid s)) name of None \<Rightarrow> Inl ArtifactNotReadyError | Some b \<Rightarrow> Inr b))"
  using assms(3)
  by (auto simp: read_job_artifact_def check_model_def path_param_request get_analysis_eq [OF assms(1)]
      read_artifact_store [OF assms(1,2)] py_simps split: option.splits)

lemma job_download_ends:
  assumes "store_ok (w_store w)" and "name \<in> {''report.json'', ''report.html'', ''report.pdf''}"
  shows "ends_in {200, 404, 409, 422, 503} (with_path rid (job_download d rid name media ext)) w"
  unfolding job_download_def
  by (rule ends_with_path, rule ends_require_jobs, rule ends_catching)
     (auto simp: op_defs path_param_request get_analysis_eq [OF assms(1)] read_job_artifact_eq [OF assms] check_model_def
       py_simps split: option.splits if_splits)

lemma download_ends:
  "store_ok (w_store w) \<Longrightarrow> ends_in {200, 404, 409, 422, 503} (download_analysis d rid fmt) w"
  by (cases fmt) (simp_all add: job_download_ends)

section \<open>Uploads\<close>

lemma create_analysis_cases:
  assumes "store_ok (w_store w)" and "fresh_ids (CreateAnalysis u) w"
  shows "if crashes d (CreateAnalysis u) w then create_analysis d u w = (Inl ValidationError, w)
    else ends_in {202, 400, 413, 503} (create_analysis d u) w"
proof (cases "ad_job_store d \<and> pp_of_value (uf_policy_profile u) \<noteq> None")
  case False
  then show ?thesis
    by (auto simp: create_analysis_def require_jobs_def ends_in_def returnS_def split: option.splits)
next
  case True
  then obtain p where p: "pp_of_value (uf_policy_profile u) = Some p" by auto
  let ?req = "upload_request d u p"
  show ?thesis
  proof (cases "intake_request_ok ?req")
    case False
    then show ?thesis using True p
      by (simp add: create_analysis_def require_jobs_def catching_cases op_defs check_model_def)
  next
    case ok: True
    obtain r s where rs: "ingest_capture ?req (upload_chunks (uf_content u)) (uf_run_id u) (uf_upload_id u) (uf_created u)
        (w_store w) = (r, s)" by fastforce
    have "\<forall>e. r = Inl e \<longrightarrow> e \<in> {CaptureIntakeError, CaptureTooLargeError, InvalidCaptureError, StorageQuotaError}"
      using ingest_outcome [OF assms(1) ok _ _ _ rs] assms(2) by (auto simp: intake_outcome_def)
    then have "ends_in {202, 400, 413, 503} (create_analysis d u) w"
      using True p ok rs
      by (cases r) (auto simp: create_analysis_def require_jobs_def ends_in_def catching_cases op_defs check_model_def)
    then show ?thesis using ok p by simp
  qed
qed

section \<open>Reports\<close>

lemma parse_report_error:
  assumes "wired d" and "parse_report (ad_decode d) (ad_canonicalize d) raw = Inl e"
  shows "e = ReportTooLargeError \<and> max_report_bytes < length raw \<or> e = InvalidCanonicalReportError"
proof -
  have "\<And>r e. ad_canonicalize d r = Inl e \<Longrightarrow> e \<in> {ValidationError, TypeError, ValueError}"
    using assms(1) by (simp add: wired_def)
  then show ?thesis using assms(2) by (fastforce simp: parse_report_def split: sum.splits if_splits)
qed

lemma parse_report_Inr:
  "parse_report decode canonicalize raw = Inr (r, b) \<longleftrightarrow>
    length raw \<le> max_report_bytes \<and> decode raw = Inr r \<and> canonicalize r = Inr b"
  by (auto simp: parse_report_def split: sum.splits)

lemma get_case_report_cases:
  assumes "wired d"
  shows "get_case_report (ad_decode d) (ad_canonicalize d) c cat = Inl e \<Longrightarrow>
      e \<in> {ReportCatalogError, CaseReportNotFoundError, ReportTooLargeError, InvalidCanonicalReportError, CaseReportMismatchError}"
    and "get_case_report (ad_decode d) (ad_canonicalize d) c cat = Inr (r, b) \<Longrightarrow> ad_canonicalize d r = Inr b"
  using parse_report_error [OF assms]
  by (auto simp: get_case_report_def py_simps parse_report_Inr split: sum.splits option.splits if_splits)

lemma read_case_ends: "wired d \<Longrightarrow> ends_in {200, 404, 422, 503} (read_case_report d c) w"
  unfolding read_case_report_def
  by (rule ends_with_path, rule ends_catching)
     (auto simp: op_defs path_param_len check_model_def case_report_error_def split: sum.splits
       dest: get_case_report_cases(1))

lemma render_case_artifact_eq:
  assumes "wired d" and "ad_digest d = Some digest" and "path_param_ok c" and "fmt \<in> {AF_HTML, AF_PDF}"
  shows "render_case_artifact (ad_decode d) (ad_canonicalize d) digest render_html render_pdf c
      (if fmt = AF_PDF then ''pdf'' else ''html'') cat =
    (case get_case_report (ad_decode d) (ad_canonicalize d) c cat of
       Inl e \<Rightarrow> Inl e
     | Inr (report, b) \<Rightarrow> (case render_html report of
         Inl e \<Rightarrow> Inl (if e = ReportError then ArtifactNotReadyError else e)
       | Inr html \<Rightarrow> if fmt = AF_PDF
           then (case render_pdf html of Inl e \<Rightarrow> Inl (if e = ReportError then ArtifactNotReadyError else e) | Inr p \<Rightarrow> Inr p)
           else Inr (utf8_bytes html)))"
proof -
  have "\<And>b. is_sha256_hex (digest b)" using assms(1,2) by (simp add: wired_def)
  moreover note get_case_report_cases(2) [OF assms(1)]
  ultimately show ?thesis using assms(3,4)
    by (auto simp: render_case_artifact_def render_report_def allowed_report_formats_def check_model_def path_param_len
        py_simps Let_def split: sum.splits)
qed

lemma case_download_cases:
  assumes "wired d" and "fmt \<in> {AF_HTML, AF_PDF}" and "path_param_ok c"
  shows "if \<exists>e. render_failure d c fmt (w_catalog w) = Some e \<and> unmapped e
    then \<exists>e. case_download d c (if fmt = AF_PDF then ''pdf'' else ''html'') media ext w = (Inl e, w)
    else ends_in {200, 404, 422, 503} (case_download d c (if fmt = AF_PDF then ''pdf'' else ''html'') media ext) w"
proof (cases "ad_render_html d = None \<or> ad_render_pdf d = None \<or> ad_digest d = None")
  case True
  then show ?thesis
    by (auto simp: render_failure_def case_download_def ends_in_def returnS_def split: option.splits)
next
  case False
  then obtain render_html render_pdf digest where f: "ad_render_html d = Some render_html" "ad_render_pdf d = Some render_pdf"
    "ad_digest d = Some digest" by auto
  note eq = render_case_artifact_eq [OF assms(1) f(3) assms(3,2), of render_html render_pdf "w_catalog w"]
  show ?thesis
  proof (cases "get_case_report (ad_decode d) (ad_canonicalize d) c (w_catalog w)")
    case (Inl e)
    then show ?thesis using f eq get_case_report_cases(1) [OF assms(1) Inl]
      by (auto simp: render_failure_def case_download_def case_download_error_def ends_in_def catching_cases op_defs)
  next
    case (Inr rb)
    then show ?thesis using f eq
      by (cases rb) (auto simp: render_failure_def unmapped_def case_download_def case_download_error_def ends_in_def
          catching_cases op_defs split: sum.splits)
  qed
qed

lemma list_reports_identifiers:
  assumes "serves c cs" and "list_reports c = Inr es" and "x \<in> set es"
  shows "is_identifier (rce_case_id x)"
proof -
  obtain entries where e: "mapE (\<lambda>(case_id, path). bindE (read_bounded_report c path) (\<lambda>b.
      Inr \<lparr>rce_case_id = case_id, rce_size_bytes = length b\<rparr>)) (map (\<lambda>c. (c, [report_name c])) cs) = Inr entries"
      "es = sort_key rce_case_id entries"
    using assms(2) by (auto simp: list_reports_def load_catalog_paths_serves [OF assms(1)] bindE_def split: sum.splits)
  obtain i where i: "i \<in> set cs" "bindE (read_bounded_report c [report_name i]) (\<lambda>b.
      Inr \<lparr>rce_case_id = i, rce_size_bytes = length b\<rparr>) = Inr x"
    using mapE_Inr_set [OF e(1), of x] assms(3) e(2) by auto
  then have "rce_case_id x = i" by (cases "read_bounded_report c [report_name i]") (auto simp: bindE_def)
  then show ?thesis using assms(1) i(1) by (auto simp: serves_def list_all_iff)
qed

lemma case_summary_total:
  assumes "canonical_report_ok r" and "is_identifier c"
  shows "mk_case_summary c r = Inl e \<Longrightarrow> e = CaseReportMismatchError"
proof -
  have "posture_ok (ed_posture (rpt_evidence r))" using assms(1) by (simp add: canonical_report_ok_def evidence_document_ok_def)
  then have "opt_ok (\<lambda>r. r \<le> 100) (po_risk_score (ed_posture (rpt_evidence r)))" by (auto simp: posture_ok_def split: option.splits)
  moreover have "len_in 1 160 c" using assms(2) by (simp add: path_param_len flip: path_param_identifier)
  ultimately show "mk_case_summary c r = Inl e \<Longrightarrow> e = CaseReportMismatchError"
    by (auto simp: mk_case_summary_def check_model_def case_summary_ok_def Let_def split: if_splits)
qed

lemma list_cases_ends:
  assumes "wired d" and "serves (w_catalog w) cs"
  shows "ends_in {200, 503} (list_cases d) w"
proof (cases "list_case_summaries (ad_decode d) (ad_canonicalize d) (w_catalog w)")
  case (Inr cases)
  then show ?thesis by (simp add: list_cases_def ends_in_def catching_cases op_defs)
next
  case (Inl e)
  have "catalog_error e \<noteq> None"
  proof (cases "list_reports (w_catalog w)")
    case (Inr es)
    then obtain x where x: "x \<in> set es" "(case get_report (rce_case_id x) (w_catalog w) of
           Inl e \<Rightarrow> Inl ReportCatalogError
         | Inr None \<Rightarrow> Inl ReportCatalogError
         | Inr (Some raw) \<Rightarrow> bindE (parse_report (ad_decode d) (ad_canonicalize d) raw) (\<lambda>(report, _).
             mk_case_summary (rce_case_id x) report)) = Inl e"
      using Inl by (auto simp: list_case_summaries_def dest!: mapE_Inl_ex)
    have "is_identifier (rce_case_id x)" by (rule list_reports_identifiers [OF assms(2) Inr x(1)])
    moreover have "\<And>raw r. ad_decode d raw = Inr r \<Longrightarrow> canonical_report_ok r" using assms(1) by (simp add: wired_def)
    ultimately show ?thesis using x(2)
      by (auto simp: py_simps catalog_error_def parse_report_Inr split: sum.splits option.splits
          dest: parse_report_error [OF assms(1)] case_summary_total)
  qed (use Inl in \<open>simp add: list_case_summaries_def catalog_error_def\<close>)
  then show ?thesis using Inl by (auto simp: list_cases_def ends_in_def catching_cases op_defs catalog_error_def split: if_splits)
qed

lemma receive_body_Some:
  "length payload \<le> max_report_bytes \<Longrightarrow> receive_body payload chunks =
    (if length payload + length (concat chunks) \<le> max_report_bytes then Some (payload @ concat chunks) else None)"
  by (induction chunks arbitrary: payload) auto

lemma preview_ends: "wired d \<Longrightarrow> ends_in {200, 400, 413} (preview_report d chunks) w"
  by (cases "parse_report (ad_decode d) (ad_canonicalize d) (concat chunks)")
     (auto simp: preview_report_def receive_body_Some ends_in_def catching_cases op_defs split: sum.splits
       dest!: parse_report_error)

section \<open>Effects of a request\<close>

definition only_reads :: "(world, reply) op \<Rightarrow> bool" where
  "only_reads m = (\<forall>w. snd (m w) = w)"

lemma only_reads_rules:
  "only_reads (returnS r)" "only_reads m \<Longrightarrow> only_reads (catching m h)" "only_reads m \<Longrightarrow> only_reads (with_path p m)"
  "only_reads m \<Longrightarrow> only_reads (require_jobs d m)" "(\<And>x. only_reads (g x)) \<Longrightarrow> only_reads (doS (pureS f) g)"
  by (auto simp: only_reads_def catching_cases with_path_def require_jobs_def op_defs split: prod.splits sum.splits option.splits)
     (metis snd_conv)+

lemma reading_routes: "\<not> writes req \<Longrightarrow> only_reads (route d req)"
proof (cases req)
  case (DownloadAnalysis i fmt)
  then show ?thesis by (cases fmt) (simp_all add: job_download_def only_reads_rules)
next
  case (DownloadCase c fmt)
  then show ?thesis
    by (cases fmt) (auto simp: case_download_def read_case_report_def only_reads_rules split: option.splits prod.splits
        intro!: only_reads_rules)
qed (auto simp: read_analysis_def list_cases_def preview_report_def health_def only_reads_rules split: option.splits prod.splits
    intro!: only_reads_rules)

lemma write_effect:
  assumes "store_ok (w_store w)" and "fresh_ids req w" and "writes req"
  shows "\<exists>s. snd (route d req w) = w\<lparr>w_store := s\<rparr> \<and> store_ok s"
proof -
  have same: "\<exists>s. w = w\<lparr>w_store := s\<rparr> \<and> store_ok s" using assms(1) by (intro exI [of _ "w_store w"]) simp
  show ?thesis
  proof (cases req)
    case (CreateAnalysis u)
    show ?thesis
    proof (cases "\<exists>p. pp_of_value (uf_policy_profile u) = Some p \<and> intake_request_ok (upload_request d u p)")
      case False
      then show ?thesis using same CreateAnalysis
        by (auto simp: create_analysis_def require_jobs_def catching_cases op_defs check_model_def split: option.splits)
    next
      case True
      then obtain p where p: "pp_of_value (uf_policy_profile u) = Some p" "intake_request_ok (upload_request d u p)" by auto
      obtain r s where rs: "ingest_capture (upload_request d u p) (upload_chunks (uf_content u)) (uf_run_id u) (uf_upload_id u)
          (uf_created u) (w_store w) = (r, s)" by fastforce
      have "store_ok s" using ingest_outcome [OF assms(1) p(2) _ _ _ rs] assms(2) CreateAnalysis by simp
      then show ?thesis using same p rs CreateAnalysis
        by (cases r) (auto simp: create_analysis_def require_jobs_def catching_cases op_defs check_model_def split: option.splits)
    qed
  next
    case (CancelAnalysis i)
    have "store_ok (snd (request_cancel i (w_store w)))" using request_cancel_keeps assms(1) by (simp add: keeps_def)
    then show ?thesis using same CancelAnalysis
      by (cases "request_cancel i (w_store w)")
         (auto simp: cancel_analysis_route_def with_path_def require_jobs_def catching_cases op_defs cancel_analysis_def
           check_model_def split: option.splits sum.splits)
  qed (use assms(3) in simp_all)
qed

section \<open>Answers\<close>

lemma world_store [simp]: "w\<lparr>w_store := s\<rparr> = w \<longleftrightarrow> s = w_store w"
  by (cases w) auto

lemma crash_or_status:
  assumes "wired d" and "world_ok w" and "fresh_ids req w"
  shows "if crashes d req w then \<exists>e. route d req w = (Inl e, w) else ends_in (documented req) (route d req) w"
proof -
  have ok: "store_ok (w_store w)" using assms(2) by (simp add: world_ok_def)
  obtain cs where cs: "serves (w_catalog w) cs" using assms(2) by (auto simp: world_ok_def rest_def)
  show ?thesis
  proof (cases req)
    case (CreateAnalysis u)
    then show ?thesis using create_analysis_cases [OF ok, of u d] assms(3) by (auto split: if_splits)
  next
    case (DownloadCase c fmt)
    show ?thesis
    proof (cases "fmt = AF_JSON")
      case True
      then show ?thesis using DownloadCase read_case_ends [OF assms(1)] by simp
    next
      case False
      then have fmt: "fmt \<in> {AF_HTML, AF_PDF}" by (cases fmt) auto
      show ?thesis
      proof (cases "path_param_ok c")
        case True
        note c = case_download_cases [OF assms(1) fmt True, of w]
        show ?thesis
          using c [of "''text/html; charset=utf-8''" "''.html''"] c [of "''application/pdf''" "''.pdf''"] DownloadCase fmt True
          by (cases fmt) (auto simp: with_path_def split: if_splits)
      next
        case False
        then show ?thesis using DownloadCase fmt by (auto simp: with_path_def ends_in_def returnS_def)
      qed
    qed
  next
    case (ReadAnalysis i)
    then show ?thesis using read_analysis_ends [OF ok] by simp
  next
    case (CancelAnalysis i)
    then show ?thesis using cancel_ends [OF ok] by simp
  next
    case (DownloadAnalysis i fmt)
    then show ?thesis using download_ends [OF ok] by simp
  next
    case ListCases
    then show ?thesis using list_cases_ends [OF assms(1) cs] by simp
  next
    case (PreviewReport chunks)
    then show ?thesis using preview_ends [OF assms(1)] by simp
  next
    case Health
    then show ?thesis by (simp add: health_def ends_in_def returnS_def)
  qed
qed

lemma serve_world: "snd (serve d req w) = snd (route d req w)"
  by (auto simp: serve_def split: prod.splits sum.splits)

text \<open>C16: Every request is answered. In a well-formed world, a request is answered with one of the statuses its route
  documents, unless it crashes, and then nothing has changed; it crashes, with status 500, exactly if it is an upload
  whose form breaks a limit of the intake model, or a download of a case whose renderer raises an error of its own. Only
  uploads and cancellations change anything, and only the job store, which stays well formed.\<close>

theorem every_request_answered:
  assumes "wired d" and "world_ok w" and "fresh_ids req w" and "serve d req w = (r, t)"
  shows "(if crashes d req w then rs_status r = 500 \<and> t = w else rs_status r \<in> documented req)
    \<and> (\<exists>s. t = w\<lparr>w_store := s\<rparr> \<and> store_ok s) \<and> (\<not> writes req \<longrightarrow> t = w)"
proof -
  have ok: "store_ok (w_store w)" using assms(2) by (simp add: world_ok_def)
  have t: "t = snd (route d req w)" using serve_world [of d req w] assms(4) by simp
  have "if crashes d req w then rs_status r = 500 \<and> t = w else rs_status r \<in> documented req"
    using crash_or_status [OF assms(1-3)] assms(4) serve_status [of "documented req" d req w]
    by (auto simp: serve_raise internal_server_error_def split: if_splits)
  moreover have reads: "\<not> writes req \<Longrightarrow> t = w" using reading_routes [of req d] t by (simp add: only_reads_def)
  moreover have "\<exists>s. t = w\<lparr>w_store := s\<rparr> \<and> store_ok s"
  proof (cases "writes req")
    case True
    then show ?thesis using write_effect [OF ok assms(3), of d] t by blast
  next
    case False
    then show ?thesis using ok reads by (intro exI [of _ "w_store w"]) simp
  qed
  ultimately show ?thesis by blast
qed

section \<open>Downloads and polling\<close>

lemma quote_identity: "list_all is_id_char s \<Longrightarrow> concat (map quote_char s) = s"
  by (induction s) (auto simp: quote_char_def is_id_char_def)

lemma identifier_all_chars: "is_identifier s \<Longrightarrow> list_all is_id_char s"
  by (cases s) (auto simp: is_id_char_def)

lemma json_filename:
  assumes "is_identifier stem"
  shows "safe_filename stem ''.json'' = ''securemail-'' @ stem @ ''.json''"
proof -
  have "list_all is_id_char (''securemail-'' @ stem @ ''.json'')"
    using identifier_all_chars [OF assms] by (simp add: is_id_char_def is_alpha_def is_digit_def)
  then show ?thesis unfolding safe_filename_def by (rule quote_identity)
qed

lemma status_view_persisted: "job_status_view (persisted j) = job_status_view j"
  by (simp add: job_status_view_def) (simp add: persisted_def)

lemma concat_upload_chunks: "concat (upload_chunks content) = content"
  by (induction content rule: upload_chunks.induct) (subst upload_chunks.simps, simp)

definition json_attachment :: "string \<Rightarrow> bytes \<Rightarrow> response" where
  "json_attachment case_id json = \<lparr>rs_status = 200, rs_media_type = ''application/json'',
     rs_headers = [(''Content-Disposition'', ''attachment; filename=\"securemail-'' @ case_id @ ''.json\"'')],
     rs_body = BodyBytes json\<rparr>"

definition json_page :: "api_body \<Rightarrow> response" where
  "json_page body = \<lparr>rs_status = 200, rs_media_type = ''application/json'', rs_headers = [], rs_body = body\<rparr>"

text \<open>C23: A completed job is downloaded. If the worker's execution of a job returns it completed, then, with the store and
  the catalog of that worker, the download of the job's JSON report is answered with 200 and an attachment named after
  its case, and the report page of the case with 200 and the same bytes.\<close>

theorem completed_job_downloads:
  assumes "api_ok sv" and "world_ok w" and "job_of (w_store w) rid = Some j" and "aj_status j = ST_RUNNING"
    and "execute_capture_job sv rid w = (Inr job, t)" and "aj_status job = ST_COMPLETED"
    and "codec (ad_decode d) (sv_canonicalize sv)" and "ad_canonicalize d = sv_canonicalize sv" and "ad_job_store d"
  shows "\<exists>json. serve d (DownloadAnalysis rid AF_JSON) t =
      (add_same_origin_security_headers (json_attachment (aj_case_id j) json), t)
    \<and> serve d (DownloadCase (aj_case_id j) AF_JSON) t = (add_same_origin_security_headers (json_page (BodyBytes json)), t)"
proof -
  obtain json r where b: "read_job_artifact rid ''report.json'' (w_store t) = Inr json"
      "get_case_report (ad_decode d) (sv_canonicalize sv) (aj_case_id j) (w_catalog t) = Inr (r, json)"
    using completed_job_is_served [OF assms(1-7)] by blast
  have ok: "store_ok (w_store w)" using assms(2) by (simp add: world_ok_def)
  note j = job_of_ok [OF ok assms(3)]
  have "is_identifier (aj_case_id j)" using j(1) by (simp add: analysis_job_ok_def)
  then have ids: "path_param_ok (aj_case_id j)" "path_param_ok rid" using j(3) by (simp_all add: path_param_identifier)
  obtain i where i: "progresses j i" "finished sv i job t" using execute_running [OF assms(1-4)] assms(5) by auto
  note f = finished_facts(2-4) [OF i j(2)]
  have st: "store_ok (w_store t)" "job_of (w_store t) rid = Some (persisted job)" using f by (simp_all add: world_ok_def)
  have case_id: "aj_case_id (persisted job) = aj_case_id j"
    using f(1) by (simp add: progresses_def)
  have name: "safe_filename (aj_case_id j) ''.json'' = ''securemail-'' @ aj_case_id j @ ''.json''"
    using \<open>is_identifier (aj_case_id j)\<close> by (rule json_filename)
  have "serve d (DownloadAnalysis rid AF_JSON) t =
      (add_same_origin_security_headers (json_attachment (aj_case_id j) json), t)"
    using b(1) ids(2) assms(9) st(2) case_id name
    by (simp add: serve_def with_path_def job_download_def require_jobs_def catching_cases op_defs path_param_request
        check_model_def get_analysis_eq [OF st(1)] attachment_def json_attachment_def py_simps)
  moreover have "serve d (DownloadCase (aj_case_id j) AF_JSON) t = (add_same_origin_security_headers (json_page (BodyBytes json)), t)"
    using b(2) ids(1) assms(8)
    by (simp add: serve_def read_case_report_def with_path_def catching_cases op_defs path_param_len check_model_def
        reply_json_def json_page_def py_simps)
  ultimately show ?thesis by blast
qed

text \<open>C24: An accepted upload can be polled. When an upload is answered with 202, the answer describes a job over the
  uploaded bytes, and asking for the job under the identifier in the answer returns the same description.\<close>

theorem accepted_upload_polled:
  assumes "store_ok (w_store w)" and "fresh_ids (CreateAnalysis u) w"
    and "serve d (CreateAnalysis u) w = (r, t)" and "rs_status r = 202"
  shows "\<exists>v. rs_body r = BodyStatus v \<and> av_capture_sha256 v = Some (sha256_bytes (uf_content u))
    \<and> serve d (ReadAnalysis (av_run_id v)) t = (add_same_origin_security_headers (json_page (BodyStatus v)), t)"
proof -
  have d: "ad_job_store d" using assms(3,4)
    by (auto simp: serve_def create_analysis_def require_jobs_def returnS_def add_same_origin_security_headers_def split: if_splits)
  obtain p where p: "pp_of_value (uf_policy_profile u) = Some p" using assms(3,4) d
    by (cases "pp_of_value (uf_policy_profile u)")
       (auto simp: serve_def create_analysis_def require_jobs_def returnS_def add_same_origin_security_headers_def)
  let ?req = "upload_request d u p"
  have req: "intake_request_ok ?req" using assms(3,4) d p
    by (rule_tac ccontr) (auto simp: serve_def create_analysis_def require_jobs_def catching_cases op_defs check_model_def
        internal_server_error_def)
  obtain x s where xs: "ingest_capture ?req (upload_chunks (uf_content u)) (uf_run_id u) (uf_upload_id u) (uf_created u)
      (w_store w) = (x, s)" by fastforce
  have out: "intake_outcome ?req (uf_content u) (uf_run_id u) (w_store w) x s" "store_ok s"
    using ingest_outcome [OF assms(1) req _ _ _ xs] assms(2) by (simp_all add: concat_upload_chunks)
  obtain job where job: "x = Inr job" "rs_body r = BodyStatus (job_status_view job)" "t = w\<lparr>w_store := s\<rparr>"
  proof (cases x)
    case (Inl e)
    then have "e \<in> {CaptureIntakeError, CaptureTooLargeError, InvalidCaptureError, StorageQuotaError}"
      using out(1) by (simp add: intake_outcome_def)
    then show thesis using assms(3,4) d p req xs Inl
      by (auto simp: serve_def create_analysis_def require_jobs_def catching_cases op_defs check_model_def
          add_same_origin_security_headers_def)
  next
    case (Inr job)
    then show thesis using that assms(3) d p req xs
      by (auto simp: serve_def create_analysis_def require_jobs_def catching_cases op_defs check_model_def
          add_same_origin_security_headers_def reply_json_def)
  qed
  obtain k where k: "job_of s (aj_run_id job) = Some k" "job_status_view k = job_status_view job"
  proof (cases "job_of (w_store w) (aj_run_id job) = Some job")
    case True
    then show thesis using that [of job] out(1) job(1) by (simp add: intake_outcome_def)
  next
    case False
    then show thesis using that [of "persisted job"] out(1) job(1) by (simp add: intake_outcome_def status_view_persisted)
  qed
  have "path_param_ok (aj_run_id job)" using job_of_ok(3) [OF out(2) k(1)] by (simp add: path_param_identifier)
  then have "serve d (ReadAnalysis (aj_run_id job)) t =
      (add_same_origin_security_headers (json_page (BodyStatus (job_status_view job))), t)"
    using d k job(3)
    by (simp add: serve_def read_analysis_def with_path_def require_jobs_def catching_cases op_defs path_param_request
        check_model_def get_analysis_eq [OF out(2)] reply_json_def json_page_def py_simps)
  moreover have "av_run_id (job_status_view job) = aj_run_id job"
    "av_capture_sha256 (job_status_view job) = Some (sha256_bytes (uf_content u))"
    using out(1) job(1) by (simp_all add: job_status_view_def intake_outcome_def same_identity_def)
  ultimately show ?thesis using job(2) by metis
qed

section \<open>Sample requests\<close>

definition sample_dependencies :: api_dependencies where
  "sample_dependencies = \<lparr>ad_decode = (\<lambda>b. bindE (sample_decode b) (\<lambda>r. check_model (canonical_report_ok r) r)),
     ad_canonicalize = sample_canonicalize, ad_job_store = True, ad_max_capture_bytes = 1000,
     ad_digest = Some sha256_digest, ad_render_html = None, ad_render_pdf = None\<rparr>"

definition sample_upload :: upload_form where
  "sample_upload = \<lparr>uf_filename = Some ''mail.pcap'', uf_content = [212, 195, 178, 161], uf_policy_profile = ''ietf_current'',
     uf_expected_hostname = None, uf_case_id = Some ''c1'', uf_run_id = ''r1'', uf_upload_id = ''u1'',
     uf_created = \<lparr>dt_wall = 0, dt_offset = Some 0\<rparr>\<rparr>"

definition quiet_world :: world where
  "quiet_world = sample_world\<lparr>w_store := empty_store\<rparr>"

lemma quiet_world_ok: "world_ok quiet_world" "w_store quiet_world = empty_store"
  using sample_world_ok empty_store_ok by (simp_all add: quiet_world_def world_ok_def)

lemma sample_wired: "wired sample_dependencies"
  by (auto simp: wired_def sample_dependencies_def check_model_def sample_canonicalize_def sample_decode_def bindE_def
      sha256_digest_def split: if_splits)

lemma sample_profile: "pp_of_value ''ietf_current'' = Some PP_IETF_CURRENT"
  using pp_of_value_value [of PP_IETF_CURRENT] by simp

lemma sample_fresh: "fresh_ids (CreateAnalysis (sample_upload\<lparr>uf_filename := f\<rparr>)) quiet_world"
  using sample_intake_ok empty_store_ok(2) by (simp add: sample_upload_def quiet_world_ok)

theorem every_request_answered_witness:
  "rs_status (fst (serve sample_dependencies (CreateAnalysis (sample_upload\<lparr>uf_filename := Some (replicate 256 CHR ''a'')\<rparr>))
     quiet_world)) = 500"
proof -
  let ?u = "sample_upload\<lparr>uf_filename := Some (replicate 256 CHR ''a'')\<rparr>"
  have "crashes sample_dependencies (CreateAnalysis ?u) quiet_world"
    by (simp add: sample_profile sample_dependencies_def sample_upload_def upload_request_def intake_request_ok_def len_in_def)
  then show ?thesis
    using every_request_answered [OF sample_wired quiet_world_ok(1) sample_fresh [of "Some (replicate 256 CHR ''a'')"]]
    by (metis prod.collapse)
qed

theorem completed_job_downloads_witness:
  "\<exists>job t json. execute_capture_job sample_services ''r1'' running_world = (Inr job, t)
    \<and> serve (sample_dependencies\<lparr>ad_decode := sample_decode\<rparr>) (DownloadAnalysis ''r1'' AF_JSON) t =
        (add_same_origin_security_headers (json_attachment ''c1'' json), t)"
proof -
  obtain job t where run: "execute_capture_job sample_services ''r1'' running_world = (Inr job, t)" "aj_status job = ST_COMPLETED"
    using sample_completes by blast
  obtain j where j: "job_of (w_store running_world) ''r1'' = Some j" "aj_status j = ST_RUNNING" "aj_case_id j = ''c1''"
    using running_world_facts(2) by blast
  have can: "sv_canonicalize sample_services = sample_canonicalize" by (simp add: sample_services_def)
  show ?thesis
    using completed_job_downloads [OF sample_api running_world_facts(1) j(1,2) run,
        of "sample_dependencies\<lparr>ad_decode := sample_decode\<rparr>"] sample_codec run(1) j(3)
    by (simp add: can sample_dependencies_def) blast
qed

lemma sample_intake_accepted:
  "\<exists>job t. ingest_capture (upload_request sample_dependencies sample_upload PP_IETF_CURRENT) [[212, 195, 178, 161]] ''r1'' ''u1''
     \<lparr>dt_wall = 0, dt_offset = Some 0\<rparr> empty_store = (Inr job, t)"
proof -
  let ?req = "upload_request sample_dependencies sample_upload PP_IETF_CURRENT"
  have req: "?req = \<lparr>ci_original_filename = ''mail.pcap'', ci_policy_profile = PP_IETF_CURRENT, ci_expected_hostname = None,
      ci_case_id = Some ''c1'', ci_max_capture_bytes = 1000\<rparr>"
    by (simp add: upload_request_def sample_dependencies_def sample_upload_def)
  have name: "basename ''mail.pcap'' = Inr ''mail.pcap''" "capture_format_for_filename ''mail.pcap'' = Inr ''pcap''"
    by code_simp+
  have case_id: "case_id_for (Some ''c1'') n h = Inr ''c1''" for n h
  proof -
    have "py_strip ''c1'' = ''c1''" by code_simp
    moreover have "is_identifier ''c1''" by (simp add: is_alpha_def is_digit_def is_id_char_def)
    ultimately show ?thesis by (simp add: case_id_for_def)
  qed
  let ?b = "[212, 195, 178, 161] :: bytes" and ?s = "empty_store\<lparr>js_quarantine := [(''u1'', [212, 195, 178, 161])]\<rparr>"
  let ?st = "\<lparr>sg_upload_id = ''u1'', sg_sha256 = sha256_bytes ?b, sg_size_bytes = length ?b, sg_header = ?b\<rparr>"
  have stage: "stage_capture ''u1'' (bounded_chunks 1000 [?b]) ''pcap'' empty_store = (Inr ?st, ?s)"
    by (simp add: stage_capture_def op_defs bounded_chunks_def empty_store_def Let_def)
  have magic: "validate_magic ?b ''pcap'' = Inr ()" by (simp add: validate_magic_def pcap_magics_def)
  have dup: "find_duplicate h p n ?s = Inr None" for h p n
    by (simp add: find_duplicate_def list_jobs_def empty_store_def py_simps List.map_filter_def)
  obtain job where job: "new_job ?req ''mail.pcap'' ''pcap'' ?st ''r1'' \<lparr>dt_wall = 0, dt_offset = Some 0\<rparr> = Inr job"
      "aj_run_id job = ''r1''"
    by (simp add: req new_job_def case_id py_simps Let_def check_model_def analysis_job_ok_def len_in_def
        is_alpha_def is_digit_def is_id_char_def pp_value_len)
  have "\<exists>t. commit_staged ''u1'' job ?s = (Inr job, t)" using job(2) sample_intake_ok(2,3)
    by (simp add: commit_staged_eq usage_bytes_def empty_store_def)
  then show ?thesis using name magic dup job stage
    by (auto simp: ingest_capture_def ingest_staged_def wrap_job_errors_eq op_defs aware_def req)
qed

lemma sample_upload_accepted: "rs_status (fst (serve sample_dependencies (CreateAnalysis sample_upload) quiet_world)) = 202"
proof -
  have ok: "intake_request_ok (upload_request sample_dependencies sample_upload PP_IETF_CURRENT)"
    by (simp add: sample_dependencies_def sample_upload_def upload_request_def intake_request_ok_def len_in_def)
  have chunks: "upload_chunks [212, 195, 178, 161] = [[212, 195, 178, 161]]" by (simp add: upload_chunks.simps)
  obtain job t where "ingest_capture (upload_request sample_dependencies sample_upload PP_IETF_CURRENT) [[212, 195, 178, 161]]
      ''r1'' ''u1'' \<lparr>dt_wall = 0, dt_offset = Some 0\<rparr> empty_store = (Inr job, t)" using sample_intake_accepted by blast
  then show ?thesis using ok chunks
    by (simp add: serve_def create_analysis_def require_jobs_def catching_cases op_defs check_model_def sample_profile
        add_same_origin_security_headers_def reply_json_def quiet_world_ok sample_upload_def sample_dependencies_def)
qed

theorem accepted_upload_polled_witness:
  "\<exists>r t v. serve sample_dependencies (CreateAnalysis sample_upload) quiet_world = (r, t) \<and> rs_body r = BodyStatus v
    \<and> serve sample_dependencies (ReadAnalysis (av_run_id v)) t =
        (add_same_origin_security_headers (json_page (BodyStatus v)), t)"
proof -
  obtain r t where rt: "serve sample_dependencies (CreateAnalysis sample_upload) quiet_world = (r, t)" by fastforce
  have "fresh_ids (CreateAnalysis sample_upload) quiet_world"
    using sample_fresh [of "uf_filename sample_upload"] by simp
  then show ?thesis
    using accepted_upload_polled [of quiet_world sample_upload, OF _ _ rt] rt sample_upload_accepted empty_store_ok(1)
    by (simp add: quiet_world_ok) blast
qed

end
