(* ===== verification/Floats.thy ===== *)
theory Floats
  imports Prelude
begin

text \<open>
  Python's \<open>float\<close> for the statistics of the anomaly detectors: a finite value is a rational, and each arithmetic
  operation is the exact one followed by rounding to 53 significant bits, half to even. Overflow, subnormal results and
  the sign of zero are outside the model: the statistics work on rates in the unit interval and on counts.

  The proofs need two laws of rounding only, those of the locale \<open>rounding\<close>: it is monotone and keeps the integers up
  to \<open>2 ^ 53\<close>.
\<close>

section \<open>Rounding to 53 bits\<close>

fun int_bits :: "int \<Rightarrow> int" where
  "int_bits n = (if n \<le> 0 then 0 else 1 + int_bits (n div 2))"

declare int_bits.simps [simp del]

definition fl_exponent :: "rat \<Rightarrow> int" where
  \<comment> \<open>the exponent of the leading bit of a positive rational\<close>
  "fl_exponent x = (case quotient_of x of (p, q) \<Rightarrow>
     let e = int_bits p - int_bits q in if 2 powi e \<le> x then e else e - 1)"

definition round_even :: "rat \<Rightarrow> int" where
  "round_even y = (let n = \<lfloor>y\<rfloor>; d = y - of_int n in
     if d < 1 / 2 then n else if 1 / 2 < d then n + 1 else if even n then n else n + 1)"

definition fl_pos :: "rat \<Rightarrow> rat" where
  "fl_pos x = (let s = 2 powi (52 - fl_exponent x) in of_int (round_even (x * s)) / s)"

definition fl :: "rat \<Rightarrow> rat" where
  "fl x = (if x = 0 then 0 else if 0 < x then fl_pos x else - fl_pos (- x))"

section \<open>The laws of rounding\<close>

locale rounding =
  fixes rnd :: "rat \<Rightarrow> rat"
  assumes rnd_mono: "x \<le> y \<Longrightarrow> rnd x \<le> rnd y"
    and rnd_int: "\<bar>n\<bar> \<le> 2 ^ 53 \<Longrightarrow> rnd (of_int n) = of_int n"
begin

lemma rnd_of_nat: "k \<le> 2 ^ 53 \<Longrightarrow> rnd (of_nat k) = of_nat k"
  using rnd_int [of "int k"] by simp

lemma rnd_zero [simp]: "rnd 0 = 0"
  using rnd_int [of 0] by simp

lemma rnd_nonneg: "0 \<le> x \<Longrightarrow> 0 \<le> rnd x"
  using rnd_mono [of 0 x] by simp

lemma rnd_le_nat: "x \<le> of_nat k \<Longrightarrow> k \<le> 2 ^ 53 \<Longrightarrow> rnd x \<le> of_nat k"
  using rnd_mono [of x "of_nat k"] rnd_of_nat [of k] by simp

lemma rnd_ge_nat: "of_nat k \<le> x \<Longrightarrow> k \<le> 2 ^ 53 \<Longrightarrow> of_nat k \<le> rnd x"
  using rnd_mono [of "of_nat k" x] rnd_of_nat [of k] by simp

text \<open>The mean of two values of an interval with small integer ends stays in it.\<close>

lemma rnd_midpoint:
  assumes "0 \<le> a" "a \<le> of_nat k" "0 \<le> b" "b \<le> of_nat k" and "2 * k \<le> 2 ^ 53"
  shows "0 \<le> rnd (rnd (a + b) / 2) \<and> rnd (rnd (a + b) / 2) \<le> of_nat k"
proof -
  have "rnd (a + b) \<le> of_nat (2 * k)" using assms by (intro rnd_le_nat) simp_all
  then have "rnd (a + b) / 2 \<le> of_nat k" by simp
  then have "rnd (rnd (a + b) / 2) \<le> of_nat k" using assms(5) by (intro rnd_le_nat) simp_all
  moreover have "0 \<le> rnd (a + b) / 2" using assms rnd_nonneg [of "a + b"] by simp
  ultimately show ?thesis using rnd_nonneg by blast
qed

end

section \<open>Rounding to 53 bits obeys them\<close>

fun nat_bits :: "nat \<Rightarrow> nat" where
  "nat_bits n = (if n = 0 then 0 else Suc (nat_bits (n div 2)))"

declare nat_bits.simps [simp del]

lemma int_bits_nat: "int_bits n = int (nat_bits (nat n))"
proof (induction n rule: int_bits.induct)
  case (1 n)
  have "nat (n div 2) = nat n div 2" by (simp add: nat_div_distrib)
  then show ?case using 1 by (simp add: int_bits.simps [of n] nat_bits.simps [of "nat n"])
qed

lemma nat_bits_bounds: "0 < n \<Longrightarrow> 2 ^ (nat_bits n - 1) \<le> n \<and> n < 2 ^ nat_bits n \<and> 0 < nat_bits n"
proof (induction n rule: nat_bits.induct)
  case (1 n)
  show ?case
  proof (cases "n div 2 = 0")
    case True
    then show ?thesis using 1(2) by (simp add: nat_bits.simps [of n] nat_bits.simps [of 0])
  next
    case False
    let ?m = "n div 2" and ?k = "nat_bits (n div 2)"
    have ih: "2 ^ (?k - 1) \<le> ?m" "?m < 2 ^ ?k" "0 < ?k" using 1(1) 1(2) False by simp_all
    have "nat_bits n = Suc ?k" using 1(2) by (simp add: nat_bits.simps [of n])
    moreover have "2 ^ ?k = (2 :: nat) * 2 ^ (?k - 1)" using ih(3) by (cases ?k) simp_all
    moreover have "2 * ?m \<le> n" "n < 2 * (?m + 1)" by simp_all
    ultimately show ?thesis using ih by (simp, linarith)
  qed
qed

lemma nat_bits_powi:
  assumes "0 < p"
  shows "2 powi (int (nat_bits (nat p)) - 1) \<le> (of_int p :: rat)" and "(of_int p :: rat) < 2 powi int (nat_bits (nat p))"
proof -
  have b: "2 ^ (nat_bits (nat p) - 1) \<le> nat p" "nat p < 2 ^ nat_bits (nat p)" "0 < nat_bits (nat p)"
    using nat_bits_bounds [of "nat p"] assms by simp_all
  have "(of_nat (nat p) :: rat) = of_int p" using assms by simp
  then have "(2 ^ (nat_bits (nat p) - 1) :: rat) \<le> of_int p" "(of_int p :: rat) < 2 ^ nat_bits (nat p)"
    using b(1,2) by (metis of_nat_le_iff of_nat_numeral of_nat_power, metis of_nat_less_iff of_nat_numeral of_nat_power)
  moreover have "int (nat_bits (nat p)) - 1 = int (nat_bits (nat p) - 1)" using b(3) by simp
  ultimately show "2 powi (int (nat_bits (nat p)) - 1) \<le> (of_int p :: rat)" "(of_int p :: rat) < 2 powi int (nat_bits (nat p))"
    by (simp_all only: power_int_of_nat)
qed

lemma fl_exponent_bounds:
  assumes "0 < x"
  shows "2 powi fl_exponent x \<le> x" and "x < 2 powi (fl_exponent x + 1)"
proof -
  obtain p q where pq: "quotient_of x = (p, q)" by fastforce
  have q: "0 < q" "x = of_int p / of_int q" using quotient_of_denom_pos [OF pq] quotient_of_div [OF pq] by simp_all
  then have p: "0 < p" using assms by (simp add: zero_less_divide_iff)
  let ?a = "int (nat_bits (nat p))" and ?b = "int (nat_bits (nat q))"
  note P = nat_bits_powi [OF p] and Q = nat_bits_powi [OF q(1)]
  have pos: "(0 :: rat) < 2 powi n" for n by simp
  have low: "2 powi (?a - ?b - 1) \<le> x"
  proof -
    have "2 powi (?a - ?b - 1) * of_int q \<le> (2 powi (?a - ?b - 1) * 2 powi ?b :: rat)"
      using Q(2) pos [of "?a - ?b - 1"] by (intro mult_left_mono) (simp_all add: less_imp_le)
    also have "\<dots> = 2 powi (?a - ?b - 1 + ?b)" by (rule power_int_add [symmetric]) simp
    also have "\<dots> = 2 powi (?a - 1)" by (rule arg_cong [of _ _ "\<lambda>n. 2 powi n"]) simp
    also have "\<dots> \<le> of_int p" by (rule P(1))
    finally show ?thesis using q by (simp add: pos_le_divide_eq)
  qed
  have high: "x < 2 powi (?a - ?b + 1)"
  proof -
    have "of_int p < (2 powi ?a :: rat)" by (rule P(2))
    also have "(2 powi ?a :: rat) = 2 powi (?a - ?b + 1 + (?b - 1))" by (rule arg_cong [of _ _ "\<lambda>n. 2 powi n"]) simp
    also have "\<dots> = 2 powi (?a - ?b + 1) * 2 powi (?b - 1)" by (rule power_int_add) simp
    also have "\<dots> \<le> 2 powi (?a - ?b + 1) * of_int q"
      using Q(1) pos [of "?a - ?b + 1"] by (intro mult_left_mono) (simp_all add: less_imp_le)
    finally show ?thesis using q by (simp add: pos_divide_less_eq)
  qed
  show "2 powi fl_exponent x \<le> x" "x < 2 powi (fl_exponent x + 1)"
    using low high by (simp_all add: fl_exponent_def int_bits_nat pq Let_def)
qed

lemma round_even_floor: "\<lfloor>y\<rfloor> \<le> round_even y" "round_even y \<le> \<lfloor>y\<rfloor> + 1"
  by (simp_all add: round_even_def Let_def)

lemma round_even_int [simp]: "round_even (of_int n) = n"
  by (simp add: round_even_def)

lemma round_even_mono:
  assumes "x \<le> y"
  shows "round_even x \<le> round_even y"
proof (cases "\<lfloor>x\<rfloor> = \<lfloor>y\<rfloor>")
  case True
  then show ?thesis using assms by (auto simp: round_even_def Let_def)
next
  case False
  then have "\<lfloor>x\<rfloor> + 1 \<le> \<lfloor>y\<rfloor>" using floor_mono [OF assms] by linarith
  moreover have "round_even x \<le> \<lfloor>x\<rfloor> + 1" "\<lfloor>y\<rfloor> \<le> round_even y" by (simp_all add: round_even_def Let_def)
  ultimately show ?thesis by linarith
qed

lemma powi_less_imp: "(2 :: rat) powi a < 2 powi b \<Longrightarrow> a < b"
  using power_int_increasing [of b a "2 :: rat"] by (cases "b \<le> a") simp_all

text \<open>The image of an octave lies between its ends.\<close>

lemma fl_pos_octave:
  assumes "2 powi e \<le> x" and "x < 2 powi (e + 1)"
  shows "fl_exponent x = e"
proof -
  have x: "0 < x" using assms(1) zero_less_power_int [of "2 :: rat" e] by linarith
  have "(2 :: rat) powi e < 2 powi (fl_exponent x + 1)" using assms(1) fl_exponent_bounds(2) [OF x] by linarith
  then have "e < fl_exponent x + 1" by (rule powi_less_imp)
  moreover have "(2 :: rat) powi fl_exponent x < 2 powi (e + 1)" using assms(2) fl_exponent_bounds(1) [OF x] by linarith
  then have "fl_exponent x < e + 1" by (rule powi_less_imp)
  ultimately show ?thesis by linarith
qed

lemma fl_pos_bounds:
  assumes "0 < x"
  shows "2 powi fl_exponent x \<le> fl_pos x" and "fl_pos x \<le> 2 powi (fl_exponent x + 1)"
proof -
  let ?e = "fl_exponent x" and ?s = "2 powi (52 - fl_exponent x) :: rat"
  have s: "0 < ?s" by simp
  have low: "2 powi ?e * ?s = (2 :: rat) ^ 52"
  proof -
    have "2 powi ?e * ?s = (2 :: rat) powi (?e + (52 - ?e))" by (rule power_int_add [symmetric]) simp
    then show ?thesis by simp
  qed
  have high: "2 powi (?e + 1) * ?s = (2 :: rat) ^ 53"
  proof -
    have "2 powi (?e + 1) * ?s = (2 :: rat) powi (?e + 1 + (52 - ?e))" by (rule power_int_add [symmetric]) simp
    then show ?thesis by simp
  qed
  note b = fl_exponent_bounds [OF assms]
  have "2 powi ?e * ?s \<le> x * ?s" "x * ?s \<le> 2 powi (?e + 1) * ?s"
    using b s by (intro mult_right_mono; simp)+
  then have "of_int (2 ^ 52) \<le> x * ?s" "x * ?s \<le> of_int (2 ^ 53)" using low high by simp_all
  then have "round_even (of_int (2 ^ 52)) \<le> round_even (x * ?s)" "round_even (x * ?s) \<le> round_even (of_int (2 ^ 53))"
    by (blast intro: round_even_mono)+
  then have r: "2 ^ 52 \<le> round_even (x * ?s)" "round_even (x * ?s) \<le> 2 ^ 53" by (simp_all only: round_even_int)
  have "2 powi ?e * ?s \<le> of_int (round_even (x * ?s))" "of_int (round_even (x * ?s)) \<le> 2 powi (?e + 1) * ?s"
    unfolding low high using r by (metis of_int_le_iff of_int_numeral of_int_power)+
  then show "2 powi fl_exponent x \<le> fl_pos x" "fl_pos x \<le> 2 powi (fl_exponent x + 1)"
    using s by (simp_all add: fl_pos_def Let_def pos_le_divide_eq pos_divide_le_eq)
qed

lemma fl_pos_mono:
  assumes "0 < x" and "x \<le> y"
  shows "fl_pos x \<le> fl_pos y"
proof -
  have y: "0 < y" using assms by linarith
  consider "fl_exponent x = fl_exponent y" | "fl_exponent x + 1 \<le> fl_exponent y" | "fl_exponent y + 1 \<le> fl_exponent x" by linarith
  then show ?thesis
  proof cases
    case 1
    let ?s = "2 powi (52 - fl_exponent y) :: rat"
    have "round_even (x * ?s) \<le> round_even (y * ?s)" using assms(2) by (intro round_even_mono mult_right_mono) simp_all
    then show ?thesis by (simp add: fl_pos_def Let_def 1 divide_right_mono)
  next
    case 2
    have "fl_pos x \<le> 2 powi (fl_exponent x + 1)" by (rule fl_pos_bounds(2) [OF assms(1)])
    also have "\<dots> \<le> 2 powi fl_exponent y" using 2 by (intro power_int_increasing) simp_all
    also have "\<dots> \<le> fl_pos y" by (rule fl_pos_bounds(1) [OF y])
    finally show ?thesis .
  next
    case 3
    have "y < 2 powi (fl_exponent y + 1)" by (rule fl_exponent_bounds(2) [OF y])
    also have "\<dots> \<le> 2 powi fl_exponent x" using 3 by (intro power_int_increasing) simp_all
    also have "\<dots> \<le> x" by (rule fl_exponent_bounds(1) [OF assms(1)])
    finally show ?thesis using assms(2) by simp
  qed
qed

lemma fl_pos_positive: "0 < x \<Longrightarrow> 0 < fl_pos x"
  using fl_pos_bounds(1) [of x] zero_less_power_int [of "2 :: rat" "fl_exponent x"] by linarith

lemma fl_positive: "0 < x \<Longrightarrow> 0 < fl x"
  by (simp add: fl_def fl_pos_positive)

lemma fl_pos_int:
  assumes "0 < n" and "n \<le> 2 ^ 53"
  shows "fl_pos (of_int n) = of_int n"
proof (cases "n = 2 ^ 53")
  case True
  have "fl_exponent (of_int n) = 53" unfolding True by (rule fl_pos_octave) simp_all
  then have "fl_pos (of_int n) = of_int (round_even (of_int (2 ^ 52))) / 2 powi - 1"
    by (simp add: fl_pos_def Let_def True power_int_minus)
  also have "\<dots> = of_int n" unfolding round_even_int by (simp add: True power_int_minus)
  finally show ?thesis .
next
  case False
  then have "n < 2 ^ 53" using assms(2) by simp
  let ?e = "fl_exponent (of_int n)"
  have x: "(0 :: rat) < of_int n" using assms(1) by simp
  have "(2 :: rat) powi ?e \<le> of_int n" by (rule fl_exponent_bounds(1) [OF x])
  also have "\<dots> < 2 ^ 53" using \<open>n < 2 ^ 53\<close> by (metis of_int_less_iff of_int_numeral of_int_power)
  also have "\<dots> = (2 :: rat) powi 53" by simp
  finally have "?e < 53" by (rule powi_less_imp)
  then have s: "(2 :: rat) powi (52 - ?e) = of_int (2 ^ nat (52 - ?e))" by (simp add: power_int_def)
  show ?thesis unfolding fl_pos_def Let_def s of_int_mult [symmetric] round_even_int by simp
qed

interpretation double: rounding fl
proof
  fix x y :: rat assume xy: "x \<le> y"
  consider "0 < x" | "x \<le> 0" "0 \<le> y" | "y < 0" using xy by linarith
  then show "fl x \<le> fl y"
  proof cases
    case 1
    then show ?thesis using xy fl_pos_mono [of x y] by (simp add: fl_def)
  next
    case 2
    have "fl x \<le> 0" "0 \<le> fl y" using 2 fl_pos_positive [of "- x"] fl_pos_positive [of y] by (auto simp: fl_def)
    then show ?thesis by linarith
  next
    case 3
    then show ?thesis using xy fl_pos_mono [of "- y" "- x"] by (simp add: fl_def)
  qed
next
  fix n :: int assume n: "\<bar>n\<bar> \<le> 2 ^ 53"
  consider "0 < n" | "n = 0" | "n < 0" by linarith
  then show "fl (of_int n) = of_int n"
  proof cases
    case 3
    then have "fl_pos (of_int (- n)) = of_int (- n)" using n by (intro fl_pos_int) simp_all
    then show ?thesis using 3 by (simp add: fl_def)
  qed (use n fl_pos_int in \<open>simp_all add: fl_def\<close>)
qed

end
