(* ===== verification/Detectors.thy ===== *)
theory Detectors
  imports Advisory Floats
begin

text \<open>
  The anomaly detectors: robust statistics, categorical rarity and Page-Hinkley drift of \<open>adapters/ml/baselines.py\<close>
  (\<open>BaselineAnomalyScorer\<close>) and the Isolation Forest of \<open>adapters/ml/isolation_forest.py\<close>.

  Arithmetic is that of \<open>Floats\<close>. \<open>math.log\<close> and \<open>str\<close> of a float, which the platform's C library and the shortest
  round-trip algorithm give, are parameters (\<open>py_math\<close>); so is scikit-learn (\<open>sklearn\<close>: fitting a forest on scaled
  vectors, scoring vectors with it, and a quantile), whose results are determined by their arguments because the code
  fixes the random seed. A dictionary of series by endpoint or cohort is looked up by filtering the windows in order.
\<close>

section \<open>Constants\<close>

definition mad_feature_names :: "string list" where
  "mad_feature_names = [''tls13_share'', ''tls12_share'', ''tls10_share'', ''handshake_failure_rate'', ''alert_rate'',
     ''starttls_success_rate'', ''starttls_fallback_rate'', ''forward_secrecy_present_rate'']"

definition numeric_feature_names :: "string list" where
  "numeric_feature_names = mad_feature_names @
     [''certificate_churn_rate'', ''incomplete_reconstruction_rate'', ''not_observable_rate'']"

definition evidence_field_for_feature :: "(string, string) dict" where
  "evidence_field_for_feature =
    [(''tls13_share'', ''handshake.version.selected''), (''tls12_share'', ''handshake.version.selected''),
     (''tls10_share'', ''handshake.version.selected''), (''dominant_tls_version'', ''handshake.version.selected''),
     (''handshake_failure_rate'', ''handshake.established''), (''alert_rate'', ''handshake.last_alert''),
     (''starttls_success_rate'', ''session.explicit_upgrade.state''),
     (''starttls_fallback_rate'', ''session.explicit_upgrade.state''),
     (''forward_secrecy_present_rate'', ''handshake.key_exchange.mechanism''),
     (''certificate_churn_rate'', ''certificate.issuer''), (''issuer_id'', ''certificate.issuer''),
     (''incomplete_reconstruction_rate'', ''flow.reconstruction_quality''),
     (''not_observable_rate'', ''handshake.server_certificate_state''), (''protocol_role'', ''session.protocol''),
     (''session_count'', ''session.uid'')]"

definition rarity_features :: "string list" where
  "rarity_features = [''issuer_id'', ''dominant_tls_version'']"

definition mad_scale :: rat where "mad_scale = fl (14826 / 10000)"
definition mad_floor :: rat where "mad_floor = fl (1 / 100)"
definition z_cap :: rat where "z_cap = 30"
definition z_threshold :: rat where "z_threshold = 7 / 2"
definition page_hinkley_delta :: rat where "page_hinkley_delta = fl (2 / 100)"
definition page_hinkley_lambda :: rat where "page_hinkley_lambda = 1 / 2"

abbreviation min_session_count :: nat where "min_session_count \<equiv> 10"

definition baseline_model_digest :: string where
  "baseline_model_digest = sha256_hex (''{\"name\": \"baseline\", \"params\": {\"feature_schema_version\": \"''
     @ feature_schema_version @ ''\", \"mad_floor\": 0.01, \"mad_scale\": 1.4826, \"min_history_windows\": 14, ''
     @ ''\"page_hinkley_delta\": 0.02, \"page_hinkley_lambda\": 0.5, \"z_threshold\": 3.5}}'')"

record py_math =
  pm_log :: "rat \<Rightarrow> rat"
  pm_str :: "rat \<Rightarrow> string"

section \<open>Statistics (baselines.py)\<close>

definition statistics_median :: "rat list \<Rightarrow> rat" where
  "statistics_median values = (let data = sort values; n = length data; i = n div 2 in
     if odd n then data ! i else fl (fl (data ! (i - 1) + data ! i) / 2))"

definition median_mad :: "rat list \<Rightarrow> rat \<times> rat" where
  "median_mad values = (if values = [] then (0, 0)
     else let med = statistics_median values in (med, statistics_median (map (\<lambda>item. \<bar>fl (item - med)\<bar>) values)))"

definition robust_z :: "rat \<Rightarrow> rat \<Rightarrow> rat \<Rightarrow> rat" where
  "robust_z value median mad = (let scale = max (fl (mad * mad_scale)) mad_floor;
     z_score = fl (fl (value - median) / scale) in max (- z_cap) (min z_cap z_score))"

record page_hinkley =
  ph_mean :: rat
  ph_statistic :: rat
  ph_count :: nat

definition page_hinkley_step :: "rat \<Rightarrow> page_hinkley \<Rightarrow> page_hinkley" where
  "page_hinkley_step value s =
    (let n = ph_count s + 1;
         mean = fl (ph_mean s + fl (fl (value - ph_mean s) / of_nat n))
     in \<lparr>ph_mean = mean,
         ph_statistic = max 0 (fl (fl (fl (ph_statistic s + value) - mean) - page_hinkley_delta)), ph_count = n\<rparr>)"

definition page_hinkley_score :: "rat list \<Rightarrow> rat \<Rightarrow> rat" where
  "page_hinkley_score history current = fl (ph_statistic (fold page_hinkley_step (history @ [current])
     \<lparr>ph_mean = 0, ph_statistic = 0, ph_count = 0\<rparr>) / page_hinkley_lambda)"

definition categorical_rarity :: "py_math \<Rightarrow> string \<Rightarrow> string list \<Rightarrow> rat \<times> bool \<times> nat" where
  "categorical_rarity pm value history =
    (let count = length (filter (\<lambda>item. item = value) history); n_history = length history;
         first_seen = n_history > 0 \<and> count = 0;
         score = - pm_log pm (fl (fl (of_nat count + 1 / 2) / fl (of_nat n_history + 1 / 2)))
     in (score, first_seen, count))"

definition skip_reason :: "endpoint_window \<Rightarrow> endpoint_window list \<Rightarrow> string option" where
  "skip_reason window history =
    (if ew_session_count window < min_session_count then Some ''insufficient_support''
     else if length history < min_history_windows then Some ''insufficient_history''
     else if \<not> ew_capture_quality_ok window then Some ''capture_quality''
     else if fl incomplete_rate_gate < ew_incomplete_reconstruction_rate window then Some ''capture_quality''
     else None)"

section \<open>Series\<close>

definition endpoint_series :: "endpoint_window list \<Rightarrow> string \<Rightarrow> endpoint_window list" where
  "endpoint_series windows e = sort_key ew_day_index (filter (\<lambda>w. ew_endpoint_id w = e) windows)"

definition cohort_key :: "endpoint_window \<Rightarrow> string \<times> string" where
  "cohort_key w = (ew_site_id w, protocol_role_value (ew_protocol_role w))"

definition cohort_series :: "endpoint_window list \<Rightarrow> string \<times> string \<Rightarrow> endpoint_window list" where
  "cohort_series windows key = sort_key ew_day_index (filter (\<lambda>w. cohort_key w = key) windows)"

definition before :: "nat \<Rightarrow> endpoint_window list \<Rightarrow> endpoint_window list" where
  "before day series = filter (\<lambda>item. ew_day_index item < day) series"

definition endpoint_history :: "endpoint_window list \<Rightarrow> endpoint_window \<Rightarrow> endpoint_window list" where
  "endpoint_history windows w = before (ew_day_index w) (endpoint_series windows (ew_endpoint_id w))"

definition peer_history :: "endpoint_window list \<Rightarrow> endpoint_window \<Rightarrow> endpoint_window list" where
  "peer_history windows w = before (ew_day_index w) (cohort_series windows (cohort_key w))"

section \<open>Contributions and reasons\<close>

definition mk_contribution :: "string \<Rightarrow> feature_value \<Rightarrow> feature_value \<Rightarrow> rat \<Rightarrow> feature_contribution result" where
  "mk_contribution name value reference score =
    (case map_of evidence_field_for_feature name of
       None \<Rightarrow> Inl KeyError
     | Some field \<Rightarrow> (let c = \<lparr>fc_feature = name, fc_evidence_field = field, fc_value = value,
           fc_reference = Some reference, fc_score = score\<rparr> in check_model (feature_contribution_ok c) c))"

definition mad_contribution :: "endpoint_window \<Rightarrow> endpoint_window list \<Rightarrow> string \<Rightarrow> feature_contribution result" where
  "mad_contribution window history name =
    bindE (mapE (\<lambda>item. numeric_value item name) history) (\<lambda>series.
    bindE (numeric_value window name) (\<lambda>value.
    let (median, mad) = median_mad series;
        z_score = robust_z value median mad;
        ph_score = page_hinkley_score series value
    in mk_contribution name (FV_NUM value) (FV_NUM median) (max \<bar>z_score\<bar> ph_score)))"

definition rarity_contribution :: "py_math \<Rightarrow> endpoint_window \<Rightarrow> endpoint_window list \<Rightarrow> string
    \<Rightarrow> feature_contribution result" where
  "rarity_contribution pm window catalog name =
    bindE (mapE (\<lambda>item. categorical_value item name) catalog) (\<lambda>past_values.
    bindE (categorical_value window name) (\<lambda>current.
    case categorical_rarity pm current past_values of (rarity, first_seen, seen) \<Rightarrow>
      mk_contribution name (FV_STR current) (FV_STR (''peer_count='' @ nat_digits seen)) rarity))"

definition contribution_order :: "feature_contribution \<Rightarrow> rat \<times> string" where
  "contribution_order item = (- fc_score item, fc_feature item)"

definition catalog_of_peers :: "endpoint_window list \<Rightarrow> endpoint_window list \<Rightarrow> endpoint_window list" where
  "catalog_of_peers peers history = (if peers \<noteq> [] then peers else history)"

definition baseline_contributions :: "py_math \<Rightarrow> endpoint_window \<Rightarrow> endpoint_window list \<Rightarrow> endpoint_window list
    \<Rightarrow> feature_contribution list result" where
  "baseline_contributions pm window history peers =
    bindE (mapE (mad_contribution window history) mad_feature_names) (\<lambda>mads.
    bindE (mapE (rarity_contribution pm window (catalog_of_peers peers history)) rarity_features) (\<lambda>rarities.
    Inr (sort_key contribution_order (mads @ rarities))))"

definition format_4f :: "rat \<Rightarrow> string" where
  \<comment> \<open>\<open>f"{x:.4f}"\<close>\<close>
  "format_4f x = (let n = nat (round_even (\<bar>x\<bar> * 10000)); digits = nat_digits (n mod 10000) in
     (if x < 0 then ''-'' else []) @ nat_digits (n div 10000) @ ''.'' @ replicate (4 - length digits) (CHR ''0'') @ digits)"

fun feature_text :: "py_math \<Rightarrow> feature_value option \<Rightarrow> string" where
  "feature_text pm (Some (FV_NUM x)) = pm_str pm x"
| "feature_text pm (Some (FV_STR s)) = s"
| "feature_text pm None = ''None''"

definition reason_part :: "py_math \<Rightarrow> feature_contribution \<Rightarrow> string" where
  "reason_part pm item =
    (case (fc_value item, fc_reference item) of
       (FV_NUM v, Some (FV_NUM r)) \<Rightarrow>
         fc_feature item @ '' is '' @ format_4f v @ '' (trailing median '' @ format_4f r @ '')''
     | (v, r) \<Rightarrow> fc_feature item @ '' is '' @ feature_text pm (Some v) @ '' ('' @ feature_text pm r @ '')'')"

definition unique_fields :: "string list \<Rightarrow> string list" where
  \<comment> \<open>\<open>dict.fromkeys\<close>: the first occurrences\<close>
  "unique_fields xs = rev (remdups (rev xs))"

definition build_reason :: "py_math \<Rightarrow> string option \<Rightarrow> feature_contribution list \<Rightarrow> string" where
  "build_reason pm prefix_text contributions =
    (if contributions = [] then ''insufficient_history: session_count; field session.uid.''
     else let items = take 3 contributions;
              body = py_join ''; '' (map (reason_part pm) items) @ ''; fields ''
                @ py_join '', '' (unique_fields (map fc_evidence_field items)) @ ''.''
          in case prefix_text of None \<Rightarrow> body | Some p \<Rightarrow> if p = [] then body else p @ '' '' @ body)"

section \<open>Scores\<close>

definition mk_window_score :: "window_score \<Rightarrow> window_score result" where
  "mk_window_score s = check_model (window_score_ok s) s"

text \<open>A score of a window that is not scored: suppressed, or skipped for a reason.\<close>

definition unscored :: "string \<Rightarrow> string \<Rightarrow> endpoint_window \<Rightarrow> bool \<Rightarrow> string option \<Rightarrow> string \<Rightarrow> window_score" where
  "unscored name digest window suppressed skip reason = \<lparr>ws_endpoint_id = ew_endpoint_id window,
     ws_day_index = ew_day_index window, ws_detector = name, ws_score = 0, ws_threshold = z_threshold,
     ws_above_threshold = False, ws_suppressed = suppressed, ws_skip_reason = skip, ws_percentile = None,
     ws_contributions = [], ws_reason = reason, ws_model_digest = digest,
     ws_feature_schema_version = feature_schema_version\<rparr>"

definition maintenance_score :: "string \<Rightarrow> string \<Rightarrow> endpoint_window \<Rightarrow> window_score result" where
  "maintenance_score name digest window = mk_window_score (unscored name digest window True None
     ''maintenance window suppressed; field session.explicit_upgrade.state.'')"

definition skipped_score :: "string \<Rightarrow> string \<Rightarrow> endpoint_window \<Rightarrow> string \<Rightarrow> window_score result" where
  "skipped_score name digest window skip = mk_window_score (unscored name digest window False (Some skip)
     (skip @ '': session_count; field session.uid.''))"

definition max_default :: "rat list \<Rightarrow> rat" where
  \<comment> \<open>\<open>max(..., default=0.0)\<close>\<close>
  "max_default xs = (case xs of [] \<Rightarrow> 0 | y # ys \<Rightarrow> fold max ys y)"

definition baseline_score :: "py_math \<Rightarrow> endpoint_window list \<Rightarrow> endpoint_window \<Rightarrow> window_score result" where
  "baseline_score pm windows window =
    (let history = endpoint_history windows window in
     if ew_in_maintenance window then maintenance_score ''baseline'' baseline_model_digest window
     else case skip_reason window history of
       Some skip \<Rightarrow> skipped_score ''baseline'' baseline_model_digest window skip
     | None \<Rightarrow>
        bindE (baseline_contributions pm window history (peer_history windows window)) (\<lambda>contributions.
        let score = max_default (map fc_score contributions) in
        mk_window_score \<lparr>ws_endpoint_id = ew_endpoint_id window, ws_day_index = ew_day_index window,
          ws_detector = ''baseline'', ws_score = score, ws_threshold = z_threshold,
          ws_above_threshold = z_threshold \<le> score, ws_suppressed = False, ws_skip_reason = None, ws_percentile = None,
          ws_contributions = take 3 contributions, ws_reason = build_reason pm None (take 3 contributions),
          ws_model_digest = baseline_model_digest, ws_feature_schema_version = feature_schema_version\<rparr>))"

definition ranked :: "window_score list \<Rightarrow> window_score list" where
  "ranked scores = filter (\<lambda>s. ws_skip_reason s = None \<and> \<not> ws_suppressed s) scores"

definition percentile_of :: "rat list \<Rightarrow> rat \<Rightarrow> rat" where
  "percentile_of day_scores score =
    fl (fl (100 * of_nat (length (filter (\<lambda>v. v \<le> score) day_scores))) / of_nat (length day_scores))"

definition day_step :: "window_score list \<Rightarrow> nat \<Rightarrow> (string \<times> nat, rat) dict \<Rightarrow> (string \<times> nat, rat) dict" where
  "day_step items day mapped =
    (let todays = filter (\<lambda>s. ws_day_index s = day) items; ordered = sort (map ws_score todays) in
     fold (\<lambda>s. AList.update (ws_endpoint_id s, ws_day_index s) (percentile_of ordered (ws_score s))) todays mapped)"

definition percentile_map :: "window_score list \<Rightarrow> (string \<times> nat, rat) dict" where
  "percentile_map scores = fold (day_step (ranked scores)) (rev (remdups (rev (map ws_day_index (ranked scores))))) []"

definition with_percentiles :: "window_score list \<Rightarrow> window_score list" where
  "with_percentiles scored =
    (let percentiles = percentile_map scored in
     map (\<lambda>s. s\<lparr>ws_percentile := map_of percentiles (ws_endpoint_id s, ws_day_index s)\<rparr>) scored)"

definition baseline_scorer :: "py_math \<Rightarrow> scorer" where
  "baseline_scorer pm windows =
    bindE (mapE (baseline_score pm windows) windows) (\<lambda>scored. Inr (with_percentiles scored))"

section \<open>Isolation Forest (isolation\_forest.py)\<close>

record 'm sklearn =
  sk_fit :: "nat \<Rightarrow> rat list list \<Rightarrow> 'm" \<comment> \<open>\<open>fit\<close> with \<open>max_samples\<close>; 80 trees and the seed are fixed\<close>
  sk_score_samples :: "'m \<Rightarrow> rat list list \<Rightarrow> rat list"
  np_quantile :: "rat list \<Rightarrow> rat"

type_synonym 'm fitted = "'m \<times> rat list \<times> rat list \<times> rat"

definition isolation_forest_model_digest :: string where
  "isolation_forest_model_digest = sha256_hex (''{\"name\": \"isolation_forest\", \"params\": {\"feature_schema_version\": \"''
     @ feature_schema_version @ ''\", \"max_samples\": 256, \"min_train_windows\": 40, \"n_estimators\": 80, ''
     @ ''\"random_state\": 20260904, \"refit_every_days\": 7, \"threshold_quantile\": 0.992}}'')"

definition version_bucket :: "string \<Rightarrow> string" where
  "version_bucket value = (if value \<in> {''TLSv10'', ''TLSv12'', ''TLSv13''} then value else ''other'')"

definition indicator_value :: "bool \<Rightarrow> rat" where
  "indicator_value b = (if b then 1 else 0)"

definition mad_value :: "endpoint_window \<Rightarrow> endpoint_window list \<Rightarrow> string \<Rightarrow> rat result" where
  "mad_value window history name =
    bindE (mapE (\<lambda>item. numeric_value item name) history) (\<lambda>series.
    bindE (numeric_value window name) (\<lambda>value.
    case median_mad series of (median, mad) \<Rightarrow> Inr \<bar>robust_z value median mad\<bar>))"

definition rarity_values :: "py_math \<Rightarrow> endpoint_window \<Rightarrow> endpoint_window list \<Rightarrow> string \<Rightarrow> rat list result" where
  "rarity_values pm window catalog name =
    bindE (mapE (\<lambda>item. categorical_value item name) catalog) (\<lambda>past.
    bindE (categorical_value window name) (\<lambda>current.
    case categorical_rarity pm current past of (rarity, first_seen, seen) \<Rightarrow> Inr [rarity, indicator_value first_seen]))"

definition raw_vector :: "py_math \<Rightarrow> endpoint_window \<Rightarrow> endpoint_window list \<Rightarrow> endpoint_window list \<Rightarrow> rat list result" where
  "raw_vector pm window history peers =
    bindE (mapE (numeric_value window) numeric_feature_names) (\<lambda>numbers.
    bindE (mapE (mad_value window history) mad_feature_names) (\<lambda>mads.
    bindE (mapE (rarity_values pm window (catalog_of_peers peers history)) rarity_features) (\<lambda>rarities.
    case categorical_rarity pm (ew_issuer_id window) (map ew_issuer_id history) of (rarity, endpoint_first, seen) \<Rightarrow>
      Inr (numbers @ mads @ concat rarities @ [indicator_value endpoint_first]
        @ map (\<lambda>bucket. indicator_value (version_bucket (ew_dominant_tls_version window) = bucket))
            [''TLSv10'', ''TLSv12'', ''TLSv13'', ''other'']))))"

definition scale_matrix :: "rat list list \<Rightarrow> rat list list \<times> rat list \<times> rat list" where
  "scale_matrix matrix = (case matrix of
     [] \<Rightarrow> ([], [], [])
   | row # rows \<Rightarrow>
      (let columns = [0..<length row];
           stats = map (\<lambda>column. median_mad (map (\<lambda>row. row ! column) matrix)) columns;
           medians = map fst stats; mads = map (\<lambda>(median, mad). max mad (fl (1 / 1000000))) stats
       in (map (\<lambda>row. map (\<lambda>i. fl (fl (row ! i - medians ! i) / mads ! i)) columns) matrix, medians, mads)))"

definition apply_scale :: "rat list \<Rightarrow> rat list \<Rightarrow> rat list \<Rightarrow> rat list" where
  "apply_scale vector medians mads = map (\<lambda>i. fl (fl (vector ! i - medians ! i) / mads ! i)) [0..<length vector]"

definition deviation_contribution :: "endpoint_window \<Rightarrow> endpoint_window list \<Rightarrow> string \<Rightarrow> feature_contribution result" where
  "deviation_contribution window history name =
    bindE (mapE (\<lambda>item. numeric_value item name) history) (\<lambda>series.
    bindE (numeric_value window name) (\<lambda>value.
    case median_mad series of (median, mad) \<Rightarrow>
      mk_contribution name (FV_NUM value) (FV_NUM median) \<bar>fl (value - median)\<bar>))"

definition forest_contributions :: "py_math \<Rightarrow> endpoint_window \<Rightarrow> endpoint_window list \<Rightarrow> endpoint_window list
    \<Rightarrow> feature_contribution list result" where
  "forest_contributions pm window history peers =
    bindE (mapE (deviation_contribution window history) numeric_feature_names) (\<lambda>deviations.
    bindE (mapE (rarity_contribution pm window (catalog_of_peers peers history)) rarity_features) (\<lambda>rarities.
    Inr (take 3 (sort_key contribution_order (deviations @ rarities)))))"

definition trainable :: "endpoint_window list \<Rightarrow> endpoint_window \<Rightarrow> bool" where
  "trainable windows w = (\<not> ew_in_maintenance w \<and> skip_reason w (endpoint_history windows w) = None)"

definition window_vector :: "py_math \<Rightarrow> endpoint_window list \<Rightarrow> endpoint_window \<Rightarrow> rat list result" where
  "window_vector pm windows w = raw_vector pm w (endpoint_history windows w) (peer_history windows w)"

definition fit_day :: "'m sklearn \<Rightarrow> py_math \<Rightarrow> endpoint_window list \<Rightarrow> nat \<Rightarrow> 'm fitted option result" where
  \<comment> \<open>the model trained before a day; \<open>None\<close> when there are too few windows\<close>
  "fit_day sk pm windows day =
    bindE (mapE (window_vector pm windows) (filter (\<lambda>w. ew_day_index w < day \<and> trainable windows w) windows)) (\<lambda>vectors.
    if length vectors < isolation_forest_min_train_windows then Inr None
    else case scale_matrix vectors of (scaled, medians, mads) \<Rightarrow>
      (let model = sk_fit sk (min 256 (length scaled)) scaled;
           train_scores = map uminus (sk_score_samples sk model scaled)
       in Inr (Some (model, medians, mads, np_quantile sk train_scores))))"

fun fit_days :: "'m sklearn \<Rightarrow> py_math \<Rightarrow> endpoint_window list \<Rightarrow> nat list \<Rightarrow> (nat \<times> 'm fitted) option
    \<Rightarrow> (nat, 'm fitted) dict result" where
  \<comment> \<open>the loop over the days, with the day and the value of the last fit\<close>
  "fit_days sk pm windows [] last_fit = Inr []"
| "fit_days sk pm windows (day # days) last_fit =
     (case last_fit of
        Some (last_day, model) \<Rightarrow>
          if day - last_day < 7
          then bindE (fit_days sk pm windows days last_fit) (\<lambda>models. Inr ((day, model) # models))
          else bindE (fit_day sk pm windows day) (\<lambda>fitted. case fitted of
              None \<Rightarrow> fit_days sk pm windows days last_fit
            | Some m \<Rightarrow> bindE (fit_days sk pm windows days (Some (day, m))) (\<lambda>models. Inr ((day, m) # models)))
      | None \<Rightarrow> bindE (fit_day sk pm windows day) (\<lambda>fitted. case fitted of
              None \<Rightarrow> fit_days sk pm windows days None
            | Some m \<Rightarrow> bindE (fit_days sk pm windows days (Some (day, m))) (\<lambda>models. Inr ((day, m) # models))))"

definition forest_score :: "'m sklearn \<Rightarrow> py_math \<Rightarrow> endpoint_window list \<Rightarrow> (nat, 'm fitted) dict \<Rightarrow> endpoint_window
    \<Rightarrow> window_score result" where
  "forest_score sk pm windows models window =
    (let history = endpoint_history windows window; peers = peer_history windows window in
     if ew_in_maintenance window then maintenance_score ''isolation_forest'' isolation_forest_model_digest window
     else case (skip_reason window history, map_of models (ew_day_index window)) of
       (None, Some (model, medians, mads, threshold)) \<Rightarrow>
        bindE (raw_vector pm window history peers) (\<lambda>vector.
        case sk_score_samples sk model [apply_scale vector medians mads] of
          [] \<Rightarrow> Inl IndexError
        | sample # _ \<Rightarrow>
           bindE (forest_contributions pm window history peers) (\<lambda>contributions.
           mk_window_score \<lparr>ws_endpoint_id = ew_endpoint_id window, ws_day_index = ew_day_index window,
             ws_detector = ''isolation_forest'', ws_score = - sample, ws_threshold = threshold,
             ws_above_threshold = threshold \<le> - sample, ws_suppressed = False, ws_skip_reason = None,
             ws_percentile = None, ws_contributions = contributions,
             ws_reason = build_reason pm (Some ''Isolation Forest multivariate isolation;'') contributions,
             ws_model_digest = isolation_forest_model_digest, ws_feature_schema_version = feature_schema_version\<rparr>))
     | (skip, _) \<Rightarrow> skipped_score ''isolation_forest'' isolation_forest_model_digest window
         (case skip of None \<Rightarrow> ''insufficient_history'' | Some s \<Rightarrow> s))"

definition isolation_forest_scorer :: "'m sklearn option \<Rightarrow> py_math \<Rightarrow> scorer" where
  \<comment> \<open>\<open>None\<close>: scikit-learn is not installed\<close>
  "isolation_forest_scorer found pm windows =
    (case found of
       None \<Rightarrow> Inl MlDependencyError
     | Some sk \<Rightarrow>
        bindE (fit_days sk pm windows (sorted_list_of_set (set (map ew_day_index windows))) None) (\<lambda>models.
        bindE (mapE (forest_score sk pm windows models) windows) (\<lambda>scored. Inr (with_percentiles scored))))"

end
