(* ===== verification/Evaluation.thy ===== *)
theory Evaluation
  imports Detectors
begin

text \<open>
  The offline evaluation of the detectors on a labelled cohort (\<open>domain/ml/evaluation.py\<close>, with the models of
  \<open>domain/ml/models.py\<close> and \<open>evaluate_cohort\<close> of \<open>application/advisory_pipeline.py\<close>): precision of the top five
  endpoints, detection delays, alert rates, a paired bootstrap of the lift and the release gates.

  The generator \<open>random.Random\<close> is a parameter (\<open>random_source\<close>): the values it yields for the two seeds the code
  fixes. Reading a cohort directory is left out; \<open>evaluate_cohort\<close> starts from its decoded contents.
\<close>

section \<open>Models (models.py)\<close>

datatype anomaly_kind = AK_UNIVARIATE | AK_MULTIVARIATE

record seeded_event =
  sv_event_id :: string
  sv_family :: string
  sv_kind :: anomaly_kind
  sv_endpoint_id :: string
  sv_start_day :: nat
  sv_end_day :: nat

record maintenance_window =
  mw_endpoint_id :: string
  mw_start_day :: nat
  mw_end_day :: nat

record cohort_labels =
  cl_events :: "seeded_event list"
  cl_maintenance :: "maintenance_window list"
  cl_jitter_endpoints :: "string list"
  cl_new_endpoints :: "string list"

type_synonym delays = "(string, nat option) dict"

record detector_evaluation =
  de_detector :: string
  de_model_digest :: string
  de_precision_at_k :: rat
  de_k :: nat
  de_detection_delays :: delays
  de_median_delay :: "rat option"
  de_p90_delay :: "rat option"
  de_alerts_per_1000 :: rat
  de_clean_alert_rate :: rat
  de_maintenance_alert_rate :: rat
  de_new_endpoint_alert_count :: nat
  de_ranked_endpoint_ids :: "string list"

definition detector_evaluation_ok :: "detector_evaluation \<Rightarrow> bool" where
  "detector_evaluation_ok e = (len_in 1 64 (de_detector e) \<and> is_sha256_hex (de_model_digest e)
     \<and> 0 \<le> de_precision_at_k e \<and> de_precision_at_k e \<le> 1 \<and> 1 \<le> de_k e \<and> 0 \<le> de_alerts_per_1000 e
     \<and> 0 \<le> de_clean_alert_rate e \<and> 0 \<le> de_maintenance_alert_rate e \<and> length (de_ranked_endpoint_ids e) \<le> 64)"

record gate_results =
  gr_baseline_precision_floor :: bool
  gr_baseline_beats_null :: bool
  gr_detection_delay :: bool
  gr_challenger_precision_lift :: bool
  gr_lift_ci_excludes_zero :: bool
  gr_median_delay_no_worse :: bool
  gr_p90_delay_within_slack :: bool
  gr_alert_rate_regression :: bool

definition all_passed :: "gate_results \<Rightarrow> bool" where
  "all_passed g = (gr_baseline_precision_floor g \<and> gr_baseline_beats_null g \<and> gr_detection_delay g
     \<and> gr_challenger_precision_lift g \<and> gr_lift_ci_excludes_zero g \<and> gr_median_delay_no_worse g
     \<and> gr_p90_delay_within_slack g \<and> gr_alert_rate_regression g)"

record evaluation_report =
  er_cohort_id :: string
  er_feature_schema_version :: string
  er_null_detector :: detector_evaluation
  er_baseline :: detector_evaluation
  er_challenger :: "detector_evaluation option"
  er_precision_lift :: "rat option"
  er_lift_ci_low :: "rat option"
  er_lift_ci_high :: "rat option"
  er_gates :: gate_results

section \<open>Labels and eligibility (evaluation.py)\<close>

abbreviation detection_delay_windows :: nat where "detection_delay_windows \<equiv> 2"
abbreviation top_k :: nat where "top_k \<equiv> 5"
abbreviation warmup_days :: nat where "warmup_days \<equiv> 28"
abbreviation bootstrap_samples :: nat where "bootstrap_samples \<equiv> 1000"

definition baseline_precision_floor :: rat where "baseline_precision_floor = fl (60 / 100)"
definition isolation_forest_precision_lift :: rat where "isolation_forest_precision_lift = fl (10 / 100)"
definition alert_rate_regression_factor :: rat where "alert_rate_regression_factor = fl (110 / 100)"
definition tolerance :: rat where "tolerance = fl (1 / 10 ^ 12)"

definition null_digest :: string where
  "null_digest = replicate 64 (CHR ''0'')"

definition true_event_endpoints :: "cohort_labels \<Rightarrow> string set" where
  "true_event_endpoints labels = set (map sv_endpoint_id (cl_events labels))"

definition labeled_days :: "cohort_labels \<Rightarrow> (string \<times> nat) set" where
  "labeled_days labels = set (concat (map (\<lambda>e. map (\<lambda>day. (sv_endpoint_id e, day)) [sv_start_day e..<sv_end_day e + 1])
     (cl_events labels)))"

definition maintenance_days :: "cohort_labels \<Rightarrow> (string \<times> nat) set" where
  "maintenance_days labels = set (concat (map (\<lambda>w. map (\<lambda>day. (mw_endpoint_id w, day)) [mw_start_day w..<mw_end_day w + 1])
     (cl_maintenance labels)))"

definition is_eval_day :: "nat \<Rightarrow> bool" where
  "is_eval_day day_index = (warmup_days \<le> day_index)"

definition eligible_scores :: "window_score list \<Rightarrow> window_score list" where
  "eligible_scores scores = filter (\<lambda>item. is_eval_day (ws_day_index item) \<and> ws_skip_reason item = None
     \<and> \<not> ws_suppressed item) scores"

section \<open>Precision of the ranking\<close>

definition peak_step :: "window_score \<Rightarrow> (string, window_score) dict \<Rightarrow> (string, window_score) dict" where
  "peak_step item peaks = (case map_of peaks (ws_endpoint_id item) of
     None \<Rightarrow> AList.update (ws_endpoint_id item) item peaks
   | Some current \<Rightarrow> if ws_score current < ws_score item then AList.update (ws_endpoint_id item) item peaks else peaks)"

definition peak_scores_by_endpoint :: "window_score list \<Rightarrow> (string, window_score) dict" where
  "peak_scores_by_endpoint scores = fold peak_step (eligible_scores scores) []"

definition rank_order :: "window_score \<Rightarrow> rat \<times> string" where
  "rank_order item = (- ws_score item, ws_endpoint_id item)"

definition precision_at_k :: "window_score list \<Rightarrow> cohort_labels \<Rightarrow> nat \<Rightarrow> string set \<Rightarrow> rat \<times> string list" where
  "precision_at_k scores labels k excluded =
    (let peaks = filter (\<lambda>item. ws_endpoint_id item \<notin> excluded) (map snd (peak_scores_by_endpoint scores));
         ids = map ws_endpoint_id (take k (sort_key rank_order peaks))
     in if ids = [] then (0, [])
        else (fl (of_nat (length (filter (\<lambda>e. e \<in> true_event_endpoints labels) ids)) / of_nat k), ids))"

section \<open>Detection delays\<close>

definition scores_by_key :: "window_score list \<Rightarrow> (string \<times> nat, window_score) dict" where
  "scores_by_key scores = fold (\<lambda>item. AList.update (ws_endpoint_id item, ws_day_index item) item)
     (filter (\<lambda>item. ws_skip_reason item = None \<and> \<not> ws_suppressed item) scores) []"

definition first_crossing :: "(string \<times> nat, window_score) dict \<Rightarrow> string \<Rightarrow> nat \<Rightarrow> nat list \<Rightarrow> nat option" where
  "first_crossing by_key endpoint start days =
    map_option (\<lambda>day. day - start) (find (\<lambda>day. case map_of by_key (endpoint, day) of
       None \<Rightarrow> False | Some item \<Rightarrow> ws_above_threshold item) days)"

definition detection_delays :: "window_score list \<Rightarrow> cohort_labels \<Rightarrow> delays" where
  "detection_delays scores labels = fold (\<lambda>event. AList.update (sv_event_id event)
     (first_crossing (scores_by_key scores) (sv_endpoint_id event) (sv_start_day event)
       [sv_start_day event..<sv_start_day event + detection_delay_windows + 1])) (cl_events labels) []"

definition delay_values :: "delays \<Rightarrow> nat list" where
  "delay_values delays = List.map_filter snd delays"

definition median_delay :: "delays \<Rightarrow> rat option" where
  \<comment> \<open>\<open>statistics.median\<close> of integers: the middle one, or the quotient of the sum of two\<close>
  "median_delay delays = (let data = sort (delay_values delays); n = length data; i = n div 2 in
     if data = [] then None
     else if odd n then Some (of_nat (data ! i)) else Some (fl (of_nat (data ! (i - 1) + data ! i) / 2)))"

definition percentile_at :: "rat list \<Rightarrow> rat \<Rightarrow> rat option" where
  "percentile_at xs q = (case sort xs of
     [] \<Rightarrow> None
   | [x] \<Rightarrow> Some x
   | ordered \<Rightarrow>
      (let rank = fl (of_nat (length ordered - 1) * q); low = nat \<lfloor>rank\<rfloor>; high = nat \<lceil>rank\<rceil>; weight = fl (rank - of_nat low)
       in Some (if low = high then ordered ! low
            else fl (fl (ordered ! low * fl (1 - weight)) + fl (ordered ! high * weight)))))"

definition p90_delay :: "delays \<Rightarrow> rat option" where
  "p90_delay delays = percentile_at (map of_nat (delay_values delays)) (fl (90 / 100))"

section \<open>Alert rates\<close>

definition endpoint_day_population :: "endpoint_window list \<Rightarrow> (string \<times> nat) list" where
  "endpoint_day_population windows = map (\<lambda>w. (ew_endpoint_id w, ew_day_index w))
     (filter (\<lambda>w. is_eval_day (ew_day_index w) \<and> \<not> ew_is_new_endpoint w) windows)"

definition rate_or_zero :: "nat \<Rightarrow> nat \<Rightarrow> rat" where
  "rate_or_zero part whole = (if whole \<noteq> 0 then fl (of_nat part / of_nat whole) else 0)"

definition alert_rates :: "window_score list \<Rightarrow> endpoint_window list \<Rightarrow> cohort_labels \<Rightarrow> rat \<times> rat \<times> rat \<times> nat" where
  "alert_rates scores windows labels =
    (let population = endpoint_day_population windows;
         alert_keys = set (map (\<lambda>s. (ws_endpoint_id s, ws_day_index s))
           (filter (\<lambda>s. ws_above_threshold s \<and> \<not> ws_suppressed s \<and> ws_skip_reason s = None) scores));
         fired = (\<lambda>key. key \<in> alert_keys);
         maintained = filter (\<lambda>key. key \<in> maintenance_days labels) population;
         clean = filter (\<lambda>key. key \<notin> maintenance_days labels \<and> key \<notin> labeled_days labels) population
     in if population = [] then (0, 0, 0, 0)
        else (fl (fl (1000 * of_nat (length (filter fired population))) / of_nat (length population)),
              rate_or_zero (length (filter fired clean)) (length clean),
              rate_or_zero (length (filter fired maintained)) (length maintained),
              length (filter (\<lambda>key. fst key \<in> set (cl_new_endpoints labels) \<and> fired key) population)))"

definition summarize_detector :: "window_score list \<Rightarrow> endpoint_window list \<Rightarrow> cohort_labels \<Rightarrow> string \<Rightarrow> string
    \<Rightarrow> detector_evaluation result" where
  "summarize_detector scores windows labels detector digest =
    (let (precision, ids) = precision_at_k scores labels top_k (set (cl_new_endpoints labels));
         delays = detection_delays scores labels;
         (per_thousand, clean_rate, maintenance_rate, new_alerts) = alert_rates scores windows labels;
         e = \<lparr>de_detector = detector, de_model_digest = digest, de_precision_at_k = precision, de_k = top_k,
              de_detection_delays = delays, de_median_delay = median_delay delays, de_p90_delay = p90_delay delays,
              de_alerts_per_1000 = per_thousand, de_clean_alert_rate = clean_rate,
              de_maintenance_alert_rate = maintenance_rate, de_new_endpoint_alert_count = new_alerts,
              de_ranked_endpoint_ids = ids\<rparr>
     in check_model (detector_evaluation_ok e) e)"

section \<open>Bootstrap of the lift\<close>

record random_source =
  rg_random :: "nat \<Rightarrow> rat" \<comment> \<open>the \<open>i\<close>-th \<open>random()\<close> for the seed of the null scores\<close>
  rg_range :: "nat \<Rightarrow> nat \<Rightarrow> nat" \<comment> \<open>the \<open>i\<close>-th \<open>randrange(n)\<close> for the seed of the bootstrap\<close>

definition float_sum :: "rat list \<Rightarrow> rat" where
  \<comment> \<open>\<open>sum\<close> of floats, compensated\<close>
  "float_sum xs = (case fold (\<lambda>y (x, c). let t = fl (x + y) in
       (t, fl (c + (if \<bar>y\<bar> \<le> \<bar>x\<bar> then fl (fl (x - t) + y) else fl (fl (y - t) + x))))) xs (0, 0) of
     (x, c) \<Rightarrow> fl (x + c))"

definition peak_map :: "window_score list \<Rightarrow> cohort_labels \<Rightarrow> (string, rat) dict" where
  "peak_map scores labels = map (\<lambda>(e, item). (e, ws_score item))
     (filter (\<lambda>(e, item). e \<notin> set (cl_new_endpoints labels)) (peak_scores_by_endpoint scores))"

definition peak_value :: "(string, rat) dict \<Rightarrow> string \<Rightarrow> rat" where
  "peak_value peaks e = (case map_of peaks e of None \<Rightarrow> 0 | Some x \<Rightarrow> x)"

definition sample_precision :: "cohort_labels \<Rightarrow> nat \<Rightarrow> (string, rat) dict \<Rightarrow> string list \<Rightarrow> rat" where
  "sample_precision labels k peaks sample =
    (let unique = take k (unique_fields (sort_key (\<lambda>e. (- peak_value peaks e, e)) sample))
     in if unique = [] then 0
        else fl (of_nat (length (filter (\<lambda>e. e \<in> true_event_endpoints labels) unique)) / of_nat k))"

definition paired_bootstrap_lift :: "random_source \<Rightarrow> window_score list \<Rightarrow> window_score list \<Rightarrow> cohort_labels
    \<Rightarrow> rat \<times> rat \<times> rat" where
  "paired_bootstrap_lift rg baseline challenger labels =
    (let baseline_peaks = peak_map baseline labels; challenger_peaks = peak_map challenger labels;
         endpoints = sorted_list_of_set (set (map fst baseline_peaks) \<union> set (map fst challenger_peaks));
         anchors = filter (\<lambda>e. e \<in> true_event_endpoints labels \<or> e \<in> set (cl_jitter_endpoints labels)) endpoints;
         fillers = filter (\<lambda>e. e \<notin> set anchors) endpoints;
         budget = length endpoints - length anchors;
         sampled = (\<lambda>i. if fillers = [] then []
           else map (\<lambda>j. fillers ! rg_range rg (i * budget + j) (length fillers)) [0..<budget]);
         lifts = map (\<lambda>i. let sample = anchors @ sampled i in
           fl (sample_precision labels top_k challenger_peaks sample - sample_precision labels top_k baseline_peaks sample))
           [0..<bootstrap_samples]
     in if endpoints = [] then (0, 0, 0)
        else (fl (float_sum lifts / of_nat (length lifts)), the (percentile_at lifts (fl (5 / 100))),
              the (percentile_at lifts (fl (95 / 100)))))"

section \<open>The null detector and the gates\<close>

definition null_score :: "random_source \<Rightarrow> nat \<Rightarrow> endpoint_window \<Rightarrow> window_score result" where
  "null_score rg i window = mk_window_score \<lparr>ws_endpoint_id = ew_endpoint_id window, ws_day_index = ew_day_index window,
     ws_detector = ''null'', ws_score = rg_random rg i, ws_threshold = fl (11 / 10), ws_above_threshold = False,
     ws_suppressed = ew_in_maintenance window, ws_skip_reason = None, ws_percentile = None, ws_contributions = [],
     ws_reason = ''null ranking; not an advisory output'', ws_model_digest = null_digest,
     ws_feature_schema_version = feature_schema_version\<rparr>"

definition null_scores :: "random_source \<Rightarrow> endpoint_window list \<Rightarrow> window_score list result" where
  "null_scores rg windows = mapE (\<lambda>(i, w). null_score rg i w) (zip [0..<length windows] windows)"

definition univariate_ids :: "cohort_labels \<Rightarrow> string list" where
  "univariate_ids labels = map sv_event_id (filter (\<lambda>e. sv_kind e = AK_UNIVARIATE) (cl_events labels))"

definition delay_get :: "delays \<Rightarrow> string \<Rightarrow> nat option" where
  \<comment> \<open>\<open>delays.get(key)\<close>\<close>
  "delay_get delays key = Option.bind (map_of delays key) id"

definition merge_delays :: "delays \<Rightarrow> delays \<Rightarrow> delays" where
  \<comment> \<open>the code iterates over a set of keys; the order of the result is not used\<close>
  "merge_delays left right = map (\<lambda>key. (key, case (delay_get left key, delay_get right key) of
       (None, second) \<Rightarrow> second | (first, None) \<Rightarrow> first | (Some a, Some b) \<Rightarrow> Some (min a b)))
     (remdups (map fst left @ map fst right))"

definition subset_delays :: "delays \<Rightarrow> string list \<Rightarrow> delays" where
  "subset_delays delays ids = map (\<lambda>key. (key, delay_get delays key)) (unique_fields ids)"

definition delay_gate :: "detector_evaluation \<Rightarrow> cohort_labels \<Rightarrow> bool" where
  "delay_gate baseline labels = (let univariate = univariate_ids labels in
     univariate \<noteq> [] \<and> list_all (\<lambda>key. case delay_get (de_detection_delays baseline) key of
       None \<Rightarrow> False | Some delay \<Rightarrow> delay \<le> detection_delay_windows) univariate)"

definition no_worse :: "rat option \<Rightarrow> rat option \<Rightarrow> rat \<Rightarrow> bool" where
  "no_worse base cand slack = (case base of
     None \<Rightarrow> cand = None
   | Some b \<Rightarrow> (case cand of None \<Rightarrow> False | Some c \<Rightarrow> c \<le> fl (b + slack)))"

definition with_fused_delays :: "detector_evaluation \<Rightarrow> detector_evaluation \<Rightarrow> cohort_labels \<Rightarrow> detector_evaluation" where
  "with_fused_delays baseline challenger labels =
    (let fused = merge_delays (de_detection_delays baseline) (de_detection_delays challenger);
         univ = subset_delays fused (univariate_ids labels)
     in challenger\<lparr>de_detection_delays := fused, de_median_delay := median_delay univ, de_p90_delay := p90_delay univ\<rparr>)"

definition rates_no_worse :: "detector_evaluation \<Rightarrow> detector_evaluation \<Rightarrow> bool" where
  "rates_no_worse baseline challenger =
    (de_clean_alert_rate challenger \<le> fl (fl (de_clean_alert_rate baseline * alert_rate_regression_factor) + tolerance)
     \<and> de_maintenance_alert_rate challenger
         \<le> fl (fl (de_maintenance_alert_rate baseline * alert_rate_regression_factor) + tolerance))"

definition gates_for :: "detector_evaluation \<Rightarrow> detector_evaluation \<Rightarrow> (detector_evaluation \<times> rat \<times> rat) option
    \<Rightarrow> cohort_labels \<Rightarrow> gate_results" where
  \<comment> \<open>of the null detector, the baseline, the challenger before fusing its delays with its lift and the lower bound\<close>
  "gates_for null baseline challenger labels =
    (let base_univ = subset_delays (de_detection_delays baseline) (univariate_ids labels);
         first = \<lparr>gr_baseline_precision_floor = baseline_precision_floor \<le> de_precision_at_k baseline,
           gr_baseline_beats_null = fl (de_precision_at_k null + tolerance) < de_precision_at_k baseline,
           gr_detection_delay = delay_gate baseline labels, gr_challenger_precision_lift = False,
           gr_lift_ci_excludes_zero = False, gr_median_delay_no_worse = False, gr_p90_delay_within_slack = False,
           gr_alert_rate_regression = False\<rparr>
     in case challenger of
          None \<Rightarrow> first
        | Some (e, lift, ci_low) \<Rightarrow> (let fused = with_fused_delays baseline e labels in first\<lparr>
            gr_challenger_precision_lift := fl (isolation_forest_precision_lift - tolerance) \<le> lift,
            gr_lift_ci_excludes_zero := 0 < ci_low,
            gr_median_delay_no_worse := no_worse (median_delay base_univ) (de_median_delay fused) tolerance,
            gr_p90_delay_within_slack := no_worse (p90_delay base_univ) (de_p90_delay fused) 1,
            gr_alert_rate_regression := rates_no_worse baseline fused\<rparr>))"

definition challenger_summary :: "random_source \<Rightarrow> endpoint_window list \<Rightarrow> cohort_labels \<Rightarrow> window_score list
    \<Rightarrow> detector_evaluation \<Rightarrow> window_score list option \<Rightarrow> string option
    \<Rightarrow> (detector_evaluation \<times> rat \<times> rat \<times> rat) option result" where
  \<comment> \<open>the summary, the lift of the precision and the two bounds of its interval\<close>
  "challenger_summary rg windows labels baseline baseline_eval challenger challenger_digest =
    (case (challenger, challenger_digest) of
       (Some scores, Some digest) \<Rightarrow>
         bindE (summarize_detector scores windows labels ''isolation_forest'' digest) (\<lambda>e.
         case paired_bootstrap_lift rg baseline scores labels of (m, ci_low, ci_high) \<Rightarrow>
           Inr (Some (e, fl (de_precision_at_k e - de_precision_at_k baseline_eval), ci_low, ci_high)))
     | _ \<Rightarrow> Inr None)"

definition compare_detectors :: "random_source \<Rightarrow> endpoint_window list \<Rightarrow> cohort_labels \<Rightarrow> window_score list
    \<Rightarrow> window_score list option \<Rightarrow> string \<Rightarrow> string option \<Rightarrow> string \<Rightarrow> evaluation_report result" where
  "compare_detectors rg windows labels baseline challenger baseline_digest challenger_digest cohort_id =
    bindE (null_scores rg windows) (\<lambda>nulls.
    bindE (summarize_detector nulls windows labels ''null'' null_digest) (\<lambda>null_eval.
    bindE (summarize_detector baseline windows labels ''baseline'' baseline_digest) (\<lambda>baseline_eval.
    bindE (challenger_summary rg windows labels baseline baseline_eval challenger challenger_digest) (\<lambda>compared.
    check_model (len_in 1 80 cohort_id)
      \<lparr>er_cohort_id = cohort_id, er_feature_schema_version = feature_schema_version, er_null_detector = null_eval,
       er_baseline = baseline_eval,
       er_challenger = map_option (\<lambda>(e, lift, low, high). with_fused_delays baseline_eval e labels) compared,
       er_precision_lift = map_option (\<lambda>(e, lift, low, high). lift) compared,
       er_lift_ci_low = map_option (\<lambda>(e, lift, low, high). low) compared,
       er_lift_ci_high = map_option (\<lambda>(e, lift, low, high). high) compared,
       er_gates = gates_for null_eval baseline_eval (map_option (\<lambda>(e, lift, low, high). (e, lift, low)) compared) labels\<rparr>))))"

definition evaluate_cohort :: "random_source \<Rightarrow> endpoint_window list \<Rightarrow> cohort_labels \<Rightarrow> string \<Rightarrow> scorer \<Rightarrow> string
    \<Rightarrow> (scorer \<times> string) option \<Rightarrow> evaluation_report result" where
  \<comment> \<open>a scorer comes with its \<open>model_digest\<close>\<close>
  "evaluate_cohort rg windows labels cohort_id baseline baseline_digest challenger =
    bindE (baseline windows) (\<lambda>baseline_scores.
    bindE (case challenger of None \<Rightarrow> Inr None | Some (scorer, digest) \<Rightarrow> bindE (scorer windows) (\<lambda>s. Inr (Some s))) (\<lambda>challenger_scores.
    compare_detectors rg windows labels baseline_scores challenger_scores baseline_digest (map_option snd challenger) cohort_id))"

end
