(* ===== verification/Detectors_Correct.thy ===== *)
theory Detectors_Correct
  imports Detectors
begin

text \<open>
  What the detectors promise. The interface is the locale \<open>causal_scorer\<close>: the scores of the days up to a given one are
  those of the windows up to that day, so no later window changes them (no look-ahead), whatever the parameters
  \<open>math.log\<close> and scikit-learn compute. Both detectors are instances, and so is the list of scorers the worker runs.

  Also shown: the baseline detector accepts every well-formed list of windows and returns one well-formed score per
  window; when it alerts; and what its percentiles mean.
\<close>

section \<open>Truncation\<close>

definition up_to :: "nat \<Rightarrow> endpoint_window list \<Rightarrow> endpoint_window list" where
  "up_to d ws = filter (\<lambda>w. ew_day_index w \<le> d) ws"

definition scores_up_to :: "nat \<Rightarrow> window_score list \<Rightarrow> window_score list" where
  "scores_up_to d ss = filter (\<lambda>s. ws_day_index s \<le> d) ss"

lemma before_truncated:
  assumes "D \<le> d"
  shows "before D (sort_key ew_day_index (filter P (up_to d ws))) = before D (sort_key ew_day_index (filter P ws))"
proof -
  have "filter (\<lambda>w. ew_day_index w < D) (filter P (up_to d ws)) = filter (\<lambda>w. ew_day_index w < D) (filter P ws)"
    unfolding up_to_def filter_filter by (rule filter_cong) (use assms in auto)
  then show ?thesis by (simp add: before_def filter_sort)
qed

lemma history_truncated:
  "ew_day_index w \<le> d \<Longrightarrow> endpoint_history (up_to d ws) w = endpoint_history ws w"
  "ew_day_index w \<le> d \<Longrightarrow> peer_history (up_to d ws) w = peer_history ws w"
  by (simp_all add: endpoint_history_def peer_history_def endpoint_series_def cohort_series_def before_truncated)

lemma mapE_cong: "(\<And>x. x \<in> set xs \<Longrightarrow> f x = g x) \<Longrightarrow> mapE f xs = mapE g xs"
  by (induction xs) simp_all

lemma mapE_filter:
  assumes "mapE f xs = Inr ys" and "\<And>x y. x \<in> set xs \<Longrightarrow> f x = Inr y \<Longrightarrow> Q y = P x"
  shows "mapE f (filter P xs) = Inr (filter Q ys)"
  using assms
proof (induction xs arbitrary: ys)
  case (Cons x xs)
  then obtain y zs where "f x = Inr y" "mapE f xs = Inr zs" "ys = y # zs" by (auto simp: py_simps split: sum.splits)
  then show ?case using Cons by (auto simp: py_simps)
qed simp

section \<open>Percentiles\<close>

lemma map_of_fold_update:
  "map_of (fold (\<lambda>x. AList.update (k x) (v x)) xs m) = map_of m ++ map_of (rev (map (\<lambda>x. (k x, v x)) xs))"
proof (induction xs arbitrary: m)
  case (Cons x xs)
  have "map_of (AList.update (k x) (v x) m) = (map_of m)(k x \<mapsto> v x)" by (rule update_conv')
  then show ?case using Cons by (simp add: fun_upd_def map_add_def fun_eq_iff split: option.splits)
qed simp

definition todays :: "nat \<Rightarrow> window_score list \<Rightarrow> window_score list" where
  "todays day scores = filter (\<lambda>s. ws_day_index s = day) (ranked scores)"

definition day_percentiles :: "nat \<Rightarrow> window_score list \<Rightarrow> ((string \<times> nat) \<times> rat) list" where
  "day_percentiles day scores = rev (map (\<lambda>s. ((ws_endpoint_id s, ws_day_index s),
     percentile_of (sort (map ws_score (todays day scores))) (ws_score s))) (todays day scores))"

lemma day_step_lookup: "map_of (day_step (ranked scores) D m) = map_of m ++ map_of (day_percentiles D scores)"
  by (simp add: day_step_def day_percentiles_def todays_def map_of_fold_update Let_def)

lemma day_percentiles_keys: "D \<noteq> day \<Longrightarrow> map_of (day_percentiles D scores) (e, day) = None"
  by (auto simp: day_percentiles_def todays_def map_of_eq_None_iff)

lemma days_lookup:
  "distinct days \<Longrightarrow> map_of (fold (day_step (ranked scores)) days m) (e, day) =
    (if day \<in> set days then (map_of m ++ map_of (day_percentiles day scores)) (e, day) else map_of m (e, day))"
proof (induction days arbitrary: m)
  case (Cons D days)
  then show ?case
    by (cases "D = day") (auto simp: day_step_lookup map_add_def day_percentiles_keys split: option.splits)
qed simp

lemma percentile_lookup: "map_of (percentile_map scores) (e, day) = map_of (day_percentiles day scores) (e, day)"
proof -
  have "day_percentiles day scores = []" if "day \<notin> set (map ws_day_index (ranked scores))"
    using that by (auto simp: day_percentiles_def todays_def filter_empty_conv)
  then show ?thesis by (auto simp: percentile_map_def days_lookup)
qed

lemma todays_truncated: "day \<le> d \<Longrightarrow> todays day (scores_up_to d ss) = todays day ss"
  by (auto simp: todays_def ranked_def scores_up_to_def intro!: filter_cong)

lemma percentiles_truncated: "with_percentiles (scores_up_to d ss) = scores_up_to d (with_percentiles ss)"
  by (auto simp: with_percentiles_def scores_up_to_def filter_map comp_def percentile_lookup day_percentiles_def
      todays_truncated [unfolded scores_up_to_def])

section \<open>No look-ahead\<close>

locale causal_scorer =
  fixes score :: scorer
  assumes no_lookahead: "score ws = Inr ss \<Longrightarrow> score (up_to d ws) = Inr (scores_up_to d ss)"
begin

text \<open>Windows of later days leave the scores of the earlier ones as they were.\<close>

lemma appending_later:
  assumes "score (ws @ later) = Inr ss" and "list_all (\<lambda>w. ew_day_index w \<le> d) ws" and "list_all (\<lambda>w. d < ew_day_index w) later"
  shows "score ws = Inr (scores_up_to d ss)"
proof -
  have "up_to d (ws @ later) = ws" using assms(2,3) by (auto simp: up_to_def list_all_iff filter_empty_conv)
  then show ?thesis using no_lookahead [OF assms(1), of d] by simp
qed

end

lemma scored_day:
  "mk_window_score s = Inr t \<Longrightarrow> ws_day_index t = ws_day_index s"
  by (auto simp: mk_window_score_def check_model_def split: if_splits)

lemma baseline_score_day: "baseline_score pm ws w = Inr s \<Longrightarrow> ws_day_index s = ew_day_index w"
  by (auto simp: baseline_score_def maintenance_score_def skipped_score_def unscored_def bindE_def Let_def
      dest!: scored_day split: if_splits option.splits sum.splits)

lemma baseline_score_cong:
  assumes "endpoint_history ws w = endpoint_history ws' w" and "peer_history ws w = peer_history ws' w"
  shows "baseline_score pm ws w = baseline_score pm ws' w"
  unfolding baseline_score_def by (simp only: assms)

lemma baseline_causal:
  assumes "baseline_scorer pm ws = Inr ss"
  shows "baseline_scorer pm (up_to d ws) = Inr (scores_up_to d ss)"
proof -
  obtain scored where s: "mapE (baseline_score pm ws) ws = Inr scored" "ss = with_percentiles scored"
    using assms by (auto simp: baseline_scorer_def bindE_def split: sum.splits)
  have "mapE (baseline_score pm (up_to d ws)) (up_to d ws) = mapE (baseline_score pm ws) (up_to d ws)"
    by (rule mapE_cong) (auto simp: up_to_def history_truncated [unfolded up_to_def] intro!: baseline_score_cong)
  also have "\<dots> = Inr (scores_up_to d scored)"
    unfolding up_to_def scores_up_to_def by (rule mapE_filter [OF s(1)]) (simp add: baseline_score_day)
  finally show ?thesis by (simp add: baseline_scorer_def py_simps s(2) percentiles_truncated)
qed

interpretation baseline: causal_scorer "baseline_scorer pm" for pm
  by unfold_locales (rule baseline_causal)

lemma forest_score_day: "forest_score sk pm ws models w = Inr s \<Longrightarrow> ws_day_index s = ew_day_index w"
  by (auto simp: forest_score_def maintenance_score_def skipped_score_def unscored_def bindE_def Let_def
      dest!: scored_day split: if_splits option.splits sum.splits list.splits)

lemma vectors_truncated:
  assumes "day \<le> d"
  shows "fit_day sk pm (up_to d ws) day = fit_day sk pm ws day"
proof -
  have "filter (\<lambda>w. ew_day_index w < day \<and> trainable (up_to d ws) w) (up_to d ws) =
      filter (\<lambda>w. ew_day_index w < day \<and> trainable ws w) ws"
    unfolding up_to_def filter_filter
    by (rule filter_cong) (use assms in \<open>auto simp: trainable_def history_truncated [unfolded up_to_def]\<close>)
  moreover have "mapE (window_vector pm (up_to d ws)) (filter (\<lambda>w. ew_day_index w < day \<and> trainable ws w) ws) =
      mapE (window_vector pm ws) (filter (\<lambda>w. ew_day_index w < day \<and> trainable ws w) ws)"
    by (rule mapE_cong) (use assms in \<open>auto simp: window_vector_def history_truncated\<close>)
  ultimately show ?thesis by (simp add: fit_day_def)
qed

lemma fit_days_keys: "fit_days sk pm ws days st = Inr ms \<Longrightarrow> m \<in> set ms \<Longrightarrow> fst m \<in> set days"
proof (induction days arbitrary: st ms)
  case (Cons day days)
  from Cons.prems show ?case
    by (auto simp: bindE_def split: option.splits sum.splits if_splits) (blast dest: Cons.IH)+
qed simp

lemma fit_days_truncated:
  assumes "fit_days sk pm ws days st = Inr ms" and "sorted days"
  shows "fit_days sk pm (up_to d ws) (filter (\<lambda>n. n \<le> d) days) st = Inr (filter (\<lambda>m. fst m \<le> d) ms)"
  using assms
proof (induction days arbitrary: st ms)
  case (Cons day days)
  show ?case
  proof (cases "day \<le> d")
    case True
    then show ?thesis using Cons.prems
      by (auto simp: bindE_def vectors_truncated split: option.splits sum.splits if_splits dest!: Cons.IH)
  next
    case False
    then have "filter (\<lambda>n. n \<le> d) (day # days) = []" using Cons.prems(2) by (auto simp: filter_empty_conv)
    moreover have "filter (\<lambda>m. fst m \<le> d) ms = []"
      using fit_days_keys [OF Cons.prems(1)] Cons.prems(2) False by (force simp: filter_empty_conv)
    ultimately show ?thesis by simp
  qed
qed simp

lemma map_of_filter_keys: "k \<le> d \<Longrightarrow> map_of (filter (\<lambda>m. fst m \<le> (d :: nat)) ms) k = map_of ms k"
  by (induction ms) auto

lemma forest_score_models:
  assumes "map_of ms (ew_day_index w) = map_of ms' (ew_day_index w)"
    and "endpoint_history ws w = endpoint_history ws' w" and "peer_history ws w = peer_history ws' w"
  shows "forest_score sk pm ws ms w = forest_score sk pm ws' ms' w"
  unfolding forest_score_def by (simp only: assms)

lemma forest_causal:
  assumes "isolation_forest_scorer found pm ws = Inr ss"
  shows "isolation_forest_scorer found pm (up_to d ws) = Inr (scores_up_to d ss)"
proof -
  let ?days = "sorted_list_of_set (set (map ew_day_index ws))"
  obtain sk models scored where m: "found = Some sk" "fit_days sk pm ws ?days None = Inr models"
      "mapE (forest_score sk pm ws models) ws = Inr scored" "ss = with_percentiles scored"
    using assms by (auto simp: isolation_forest_scorer_def bindE_def split: sum.splits option.splits)
  let ?models = "filter (\<lambda>m. fst m \<le> d) models"
  have "sorted_list_of_set (set (map ew_day_index (up_to d ws))) = filter (\<lambda>n. n \<le> d) ?days"
  proof (rule sorted_distinct_set_unique)
    show "set (sorted_list_of_set (set (map ew_day_index (up_to d ws)))) = set (filter (\<lambda>n. n \<le> d) ?days)"
      by (auto simp: up_to_def)
  qed (simp_all add: sorted_wrt_filter)
  then have days: "fit_days sk pm (up_to d ws) (sorted_list_of_set (set (map ew_day_index (up_to d ws)))) None = Inr ?models"
    using fit_days_truncated [OF m(2)] by simp
  have "mapE (forest_score sk pm (up_to d ws) ?models) (up_to d ws) = mapE (forest_score sk pm ws models) (up_to d ws)"
    by (rule mapE_cong) (auto simp: up_to_def map_of_filter_keys history_truncated [unfolded up_to_def]
        intro!: forest_score_models)
  also have "\<dots> = Inr (scores_up_to d scored)"
    unfolding up_to_def scores_up_to_def by (rule mapE_filter [OF m(3)]) (simp add: forest_score_day)
  finally show ?thesis by (simp add: isolation_forest_scorer_def m(1,4) days [simplified] py_simps percentiles_truncated)
qed

interpretation forest: causal_scorer "isolation_forest_scorer found pm" for found pm
  by unfold_locales (rule forest_causal)

text \<open>A list of scorers of which each is causal: what the pipeline runs.\<close>

lemma score_windows_causal:
  assumes "\<And>s. s \<in> set scorers \<Longrightarrow> causal_scorer s" and "score_windows scorers ws = Inr ss"
  shows "score_windows scorers (up_to d ws) = Inr (scores_up_to d ss)"
proof -
  obtain parts where p: "mapE (\<lambda>scorer. scorer ws) scorers = Inr parts" "ss = concat parts"
    using assms(2) by (auto simp: score_windows_def split: sum.splits py_exn.splits)
  have "mapE (\<lambda>scorer. scorer (up_to d ws)) scorers = Inr (map (scores_up_to d) parts)"
    using p(1) assms(1) unfolding mapE_Inr_iff
    by (auto simp: list_all2_conv_all_nth intro!: causal_scorer.no_lookahead)
  then show ?thesis by (simp add: score_windows_def p(2) scores_up_to_def [abs_def] filter_concat)
qed

interpretation pipeline: causal_scorer "score_windows [baseline_scorer pm, isolation_forest_scorer found pm]" for pm found
  by unfold_locales (rule score_windows_causal, auto intro: baseline.causal_scorer_axioms forest.causal_scorer_axioms)

section \<open>The baseline detector returns\<close>

lemma numeric_value_unit:
  assumes "name \<in> set numeric_feature_names" and "endpoint_window_ok w"
  shows "\<exists>v. numeric_value w name = Inr v \<and> unit_rate v"
  using assms by (auto simp: numeric_feature_names_def mad_feature_names_def numeric_value_def numeric_features_def
      endpoint_window_ok_def)

lemma mad_names_numeric: "name \<in> set mad_feature_names \<Longrightarrow> name \<in> set numeric_feature_names"
  by (simp add: numeric_feature_names_def)

lemma rarity_value_short:
  assumes "name \<in> set rarity_features" and "endpoint_window_ok w"
  shows "\<exists>v. categorical_value w name = Inr v \<and> length v \<le> 64"
  using assms by (auto simp: rarity_features_def categorical_value_def endpoint_window_ok_def len_in_def)

lemma statistics_median_unit:
  assumes "xs \<noteq> []" and "list_all unit_rate xs"
  shows "unit_rate (statistics_median xs)"
proof -
  let ?d = "sort xs" and ?i = "length xs div 2"
  have mem: "unit_rate (?d ! k)" if "k < length xs" for k
    using assms(2) that nth_mem [of k ?d] by (simp add: list_all_iff)
  have i: "?i < length xs" using assms(1) by (cases xs) simp_all
  show ?thesis
  proof (cases "odd (length xs)")
    case True
    then show ?thesis using mem [OF i] by (simp add: statistics_median_def Let_def)
  next
    case False
    have "unit_rate (?d ! (?i - 1))" "unit_rate (?d ! ?i)" using i by (simp_all add: mem)
    then show ?thesis using False double.rnd_midpoint [of "?d ! (?i - 1)" 1 "?d ! ?i"]
      by (simp add: statistics_median_def Let_def unit_rate_def)
  qed
qed

lemma median_unit: "list_all unit_rate xs \<Longrightarrow> unit_rate (fst (median_mad xs))"
  using statistics_median_unit [of xs] by (simp add: median_mad_def Let_def unit_rate_def)

lemma format_4f_length:
  assumes "unit_rate x"
  shows "length (format_4f x) \<le> 6"
proof -
  have "\<bar>x\<bar> * 10000 \<le> of_int 10000" using assms by (simp add: unit_rate_def)
  then have "round_even (\<bar>x\<bar> * 10000) \<le> 10000" using round_even_mono [of "\<bar>x\<bar> * 10000" "of_int 10000"] by (simp only: round_even_int)
  then have n: "nat (round_even (\<bar>x\<bar> * 10000)) div 10000 < 10 ^ Suc 0"
    by (simp add: less_mult_imp_div_less)
  have "length (nat_digits (m mod 10000)) \<le> 4" for m using nat_digits_length [of "m mod 10000" 3] by simp
  then show ?thesis using nat_digits_length [OF n] assms
    by (auto simp: format_4f_def Let_def unit_rate_def)
qed

definition short :: "nat \<Rightarrow> py_math \<Rightarrow> feature_contribution \<Rightarrow> bool" where
  "short k pm c = (feature_contribution_ok c \<and> length (fc_evidence_field c) \<le> 36 \<and> length (reason_part pm c) \<le> 112 + k)"

lemma feature_table: "list_all (\<lambda>name. case map_of evidence_field_for_feature name of
    None \<Rightarrow> False | Some field \<Rightarrow> len_in 1 36 field \<and> len_in 1 30 name) (numeric_feature_names @ rarity_features)"
  by code_simp

lemma feature_fields:
  assumes "name \<in> set (numeric_feature_names @ rarity_features)"
  shows "\<exists>field. map_of evidence_field_for_feature name = Some field \<and> len_in 1 36 field \<and> len_in 1 30 name"
  using feature_table [unfolded list_all_iff, rule_format, OF assms] by (simp split: option.splits)

lemma mad_contribution_short:
  assumes "endpoint_window_ok w" and "list_all endpoint_window_ok history" and "name \<in> set mad_feature_names"
  shows "\<exists>c. mad_contribution w history name = Inr c \<and> short k pm c"
proof -
  have name: "name \<in> set numeric_feature_names" using assms(3) by (rule mad_names_numeric)
  have "\<exists>y. numeric_value item name = Inr y" if "item \<in> set history" for item
    using numeric_value_unit [OF name, of item] assms(2) that by (auto simp: list_all_iff)
  then obtain series where s: "mapE (\<lambda>item. numeric_value item name) history = Inr series"
    using mapE_ok [of history "\<lambda>item. numeric_value item name"] by blast
  have unit: "list_all unit_rate series" unfolding list_all_iff
  proof
    fix x assume "x \<in> set series"
    then obtain item where "item \<in> set history" "numeric_value item name = Inr x" using mapE_Inr_set [OF s] by blast
    then show "unit_rate x" using numeric_value_unit [OF name, of item] assms(2) by (auto simp: list_all_iff)
  qed
  obtain v where v: "numeric_value w name = Inr v" "unit_rate v" using numeric_value_unit [OF name assms(1)] by blast
  obtain field where f: "map_of evidence_field_for_feature name = Some field" "len_in 1 36 field" "len_in 1 30 name"
    using feature_fields name by auto
  obtain median mad where m: "median_mad series = (median, mad)" by fastforce
  then have "unit_rate median" using median_unit [OF unit] by simp
  then show ?thesis using f format_4f_length [of median] format_4f_length [OF v(2)]
    by (auto simp: mad_contribution_def s v(1) m py_simps mk_contribution_def Let_def check_model_def short_def
        feature_contribution_ok_def reason_part_def len_in_def)
qed

lemma rarity_contribution_short:
  assumes "endpoint_window_ok w" and "list_all endpoint_window_ok catalog" and "name \<in> set rarity_features"
    and "length catalog < 10 ^ Suc k"
  shows "\<exists>c. rarity_contribution pm w catalog name = Inr c \<and> short (Suc k) pm c"
proof -
  have "\<exists>y. categorical_value item name = Inr y" if "item \<in> set catalog" for item
    using rarity_value_short [OF assms(3), of item] assms(2) that by (auto simp: list_all_iff)
  then obtain past where s: "mapE (\<lambda>item. categorical_value item name) catalog = Inr past"
    using mapE_ok [of catalog "\<lambda>item. categorical_value item name"] by blast
  obtain v where v: "categorical_value w name = Inr v" "length v \<le> 64" using rarity_value_short [OF assms(3,1)] by blast
  obtain field where f: "map_of evidence_field_for_feature name = Some field" "len_in 1 36 field" "len_in 1 30 name"
    using feature_fields assms(3) by auto
  obtain rarity first_seen seen where r: "categorical_rarity pm v past = (rarity, first_seen, seen)" by (cases "categorical_rarity pm v past")
  then have "seen \<le> length past" by (auto simp: categorical_rarity_def Let_def)
  then have "length (nat_digits seen) \<le> Suc k" using mapE_length [OF s] assms(4) by (intro nat_digits_length) simp
  then show ?thesis using f v(2)
    by (auto simp: rarity_contribution_def s v(1) r py_simps mk_contribution_def Let_def check_model_def short_def
        feature_contribution_ok_def reason_part_def len_in_def)
qed

lemma length_py_join: "length (py_join sep xs) \<le> sum_list (map (\<lambda>x. length x + length sep) xs)"
  by (induction sep xs rule: py_join.induct) simp_all

lemma length_py_join_bound:
  assumes "\<And>x. x \<in> set xs \<Longrightarrow> length x \<le> n" and "length xs \<le> m"
  shows "length (py_join sep xs) \<le> m * (n + length sep)"
proof -
  have "sum_list (map (\<lambda>x. length x + length sep) xs) \<le> sum_list (map (\<lambda>x. n + length sep) xs)"
    using assms(1) by (intro sum_list_mono) simp
  also have "\<dots> = length xs * (n + length sep)" by (simp add: sum_list_triv)
  also have "\<dots> \<le> m * (n + length sep)" using assms(2) by (rule mult_le_mono1)
  finally show ?thesis using length_py_join order_trans by blast
qed

lemma unique_fields_facts: "set (unique_fields xs) = set xs" "length (unique_fields xs) \<le> length xs"
  using length_remdups_leq [of "rev xs"] by (simp_all add: unique_fields_def)

lemma build_reason_length:
  assumes "list_all (short k pm) cs" and "k \<le> 100"
  shows "len_in 1 1000 (build_reason pm None cs)"
proof (cases "cs = []")
  case True
  then show ?thesis by (simp add: build_reason_def len_in_def)
next
  case False
  let ?items = "take 3 cs"
  have short: "short k pm c" if "c \<in> set ?items" for c using assms(1) that in_set_takeD by (fastforce simp: list_all_iff)
  have parts: "length (py_join ''; '' (map (reason_part pm) ?items)) \<le> 3 * (112 + k + length ''; '')"
    by (rule length_py_join_bound) (use short in \<open>auto simp: short_def\<close>)
  have fields: "length (py_join '', '' (unique_fields (map fc_evidence_field ?items))) \<le> 3 * (36 + length '', '')"
  proof (rule length_py_join_bound)
    show "length x \<le> 36" if "x \<in> set (unique_fields (map fc_evidence_field ?items))" for x
      using that short by (auto simp: unique_fields_facts short_def)
    show "length (unique_fields (map fc_evidence_field ?items)) \<le> 3"
      by (rule order_trans [OF unique_fields_facts(2)]) simp
  qed
  show ?thesis using False parts fields assms(2) by (simp add: build_reason_def Let_def len_in_def)
qed

lemma series_members:
  "set (endpoint_history ws w) \<subseteq> set ws" "set (peer_history ws w) \<subseteq> set ws"
  "length (endpoint_history ws w) \<le> length ws" "length (peer_history ws w) \<le> length ws"
  by (auto simp: endpoint_history_def peer_history_def endpoint_series_def cohort_series_def before_def
      intro: order_trans [OF length_filter_le])

lemma baseline_contributions_short:
  assumes "list_all endpoint_window_ok ws" and "w \<in> set ws" and "length ws < 10 ^ Suc k"
  shows "\<exists>cs. baseline_contributions pm w (endpoint_history ws w) (peer_history ws w) = Inr cs \<and> list_all (short (Suc k) pm) cs"
proof -
  let ?h = "endpoint_history ws w" and ?c = "catalog_of_peers (peer_history ws w) (endpoint_history ws w)"
  have w: "endpoint_window_ok w" and h: "list_all endpoint_window_ok ?h" and c: "list_all endpoint_window_ok ?c"
    and len: "length ?c < 10 ^ Suc k"
    using assms series_members [where ws = ws and w = w] by (auto simp: list_all_iff catalog_of_peers_def)
  obtain mads where m: "mapE (mad_contribution w ?h) mad_feature_names = Inr mads"
    using mapE_ok [of mad_feature_names "mad_contribution w ?h"] mad_contribution_short [OF w h] by blast
  obtain rarities where r: "mapE (rarity_contribution pm w ?c) rarity_features = Inr rarities"
    using mapE_ok [of rarity_features "rarity_contribution pm w ?c"] rarity_contribution_short [OF w c _ len] by blast
  have "short (Suc k) pm x" if "x \<in> set mads" for x
    using mapE_Inr_set [OF m that] mad_contribution_short [OF w h, of _ "Suc k" pm] by fastforce
  moreover have "short (Suc k) pm x" if "x \<in> set rarities" for x
    using mapE_Inr_set [OF r that] rarity_contribution_short [OF w c _ len, of _ pm] by fastforce
  ultimately show ?thesis by (auto simp: baseline_contributions_def m r py_simps list_all_iff)
qed

definition score_of :: "endpoint_window \<Rightarrow> window_score \<Rightarrow> bool" where
  "score_of w s = (ws_endpoint_id s = ew_endpoint_id w \<and> ws_day_index s = ew_day_index w \<and> ws_detector s = ''baseline'')"

lemma skip_reason_short: "skip_reason w h = Some r \<Longrightarrow> r \<in> {''insufficient_support'', ''insufficient_history'', ''capture_quality''}"
  by (auto simp: skip_reason_def split: if_splits)

lemma score_constants: "is_sha256_hex baseline_model_digest" "len_in 1 64 feature_schema_version" "len_in 1 64 ''baseline''"
  by (simp_all add: baseline_model_digest_def feature_schema_version_def len_in_def)

lemma baseline_score_total:
  assumes "list_all endpoint_window_ok ws" and "w \<in> set ws" and "length ws < 10 ^ Suc k" and "k < 100"
  shows "\<exists>s. baseline_score pm ws w = Inr s \<and> window_score_ok s \<and> score_of w s"
proof -
  have e: "len_in 1 160 (ew_endpoint_id w)" using assms(1,2) by (simp add: list_all_iff endpoint_window_ok_def)
  consider "ew_in_maintenance w" | r where "\<not> ew_in_maintenance w" "skip_reason w (endpoint_history ws w) = Some r"
    | "\<not> ew_in_maintenance w" "skip_reason w (endpoint_history ws w) = None" by fastforce
  then show ?thesis
  proof cases
    case 1
    then show ?thesis using e score_constants
      by (simp add: baseline_score_def maintenance_score_def unscored_def mk_window_score_def check_model_def window_score_ok_def
          percentile_ok_def score_of_def Let_def len_in_def)
  next
    case 2
    then show ?thesis using e score_constants skip_reason_short [OF 2(2)]
      by (auto simp: baseline_score_def skipped_score_def unscored_def mk_window_score_def check_model_def window_score_ok_def
          percentile_ok_def score_of_def Let_def len_in_def)
  next
    case 3
    obtain cs where cs: "baseline_contributions pm w (endpoint_history ws w) (peer_history ws w) = Inr cs"
        "list_all (short (Suc k) pm) cs"
      using baseline_contributions_short [OF assms(1-3)] by blast
    have short: "list_all (short (Suc k) pm) (take 3 cs)" using cs(2) in_set_takeD by (fastforce simp: list_all_iff)
    then have "list_all feature_contribution_ok (take 3 cs)" by (auto simp: list_all_iff short_def)
    moreover have "len_in 1 1000 (build_reason pm None (take 3 cs))" using build_reason_length [OF short] assms(4) by simp
    ultimately show ?thesis using 3 cs(1) e score_constants
      by (simp add: baseline_score_def py_simps mk_window_score_def check_model_def window_score_ok_def percentile_ok_def
          score_of_def Let_def)
  qed
qed

section \<open>Percentiles\<close>

lemma filter_length_mono: "(\<And>x. P x \<Longrightarrow> Q x) \<Longrightarrow> length (filter P xs) \<le> length (filter Q xs)"
  by (induction xs) (auto intro: le_SucI)

lemma percentile_of_facts:
  assumes "v \<in> set xs" and "length xs \<le> 2 ^ 46"
  shows "0 < percentile_of xs v" and "percentile_of xs v \<le> 100"
    and "(\<And>x. x \<in> set xs \<Longrightarrow> x \<le> v) \<Longrightarrow> percentile_of xs v = 100"
    and "v \<le> u \<Longrightarrow> percentile_of xs v \<le> percentile_of xs u"
proof -
  let ?rank = "\<lambda>v. length (filter (\<lambda>x. x \<le> v) xs)"
  have n: "0 < length xs" using assms(1) by (cases xs) simp_all
  have rank: "?rank v \<le> length xs" for v by simp
  have "(\<lambda>x. x \<le> v) v" by simp
  then have pos: "0 < ?rank v" using assms(1) by (auto simp: filter_empty_conv)
  have exact: "fl (100 * of_nat (?rank v)) = 100 * of_nat (?rank v)" for v
  proof -
    have "?rank v \<le> 2 ^ 46" using rank assms(2) by (rule order_trans)
    then have "100 * ?rank v \<le> 2 ^ 53" by simp
    from double.rnd_of_nat [OF this] show ?thesis by simp
  qed
  have eq: "percentile_of xs v = fl (100 * of_nat (?rank v) / of_nat (length xs))" for v
    by (simp only: percentile_of_def exact)
  have "(0 :: rat) < 100 * of_nat (?rank v) / of_nat (length xs)" using pos n by simp
  then show "0 < percentile_of xs v" unfolding eq by (rule fl_positive)
  have "100 * of_nat (?rank v) / of_nat (length xs) \<le> (of_nat 100 :: rat)" using rank [of v] n by (simp add: field_simps)
  from double.rnd_le_nat [OF this] show "percentile_of xs v \<le> 100" unfolding eq by simp
  show "percentile_of xs v = 100" if "\<And>x. x \<in> set xs \<Longrightarrow> x \<le> v"
  proof -
    have "filter (\<lambda>x. x \<le> v) xs = xs" using that by (simp add: filter_id_conv)
    then show ?thesis unfolding eq using n double.rnd_of_nat [of 100] by simp
  qed
  show "percentile_of xs v \<le> percentile_of xs u" if "v \<le> u"
  proof -
    have "?rank v \<le> ?rank u" using that by (intro filter_length_mono) simp
    then show ?thesis unfolding eq using n by (intro double.rnd_mono divide_right_mono) simp_all
  qed
qed

text \<open>The scores that are ranked, and their key.\<close>

definition scored :: "window_score \<Rightarrow> bool" where
  "scored s = (ws_skip_reason s = None \<and> \<not> ws_suppressed s)"

definition window_key :: "window_score \<Rightarrow> string \<times> nat" where
  "window_key s = (ws_endpoint_id s, ws_day_index s)"

lemma todays_mem: "s \<in> set (todays day ss) \<longleftrightarrow> s \<in> set ss \<and> scored s \<and> ws_day_index s = day"
  by (auto simp: todays_def ranked_def scored_def)

lemma percentile_unique:
  assumes "distinct (map window_key ss)" and "s \<in> set ss"
  shows "map_of (percentile_map ss) (window_key s) = (if scored s
    then Some (percentile_of (sort (map ws_score (todays (ws_day_index s) ss))) (ws_score s)) else None)"
proof -
  let ?t = "todays (ws_day_index s) ss"
  have "distinct (map window_key ?t)" using assms(1)
    by (simp add: todays_def ranked_def distinct_map inj_on_def)
  then have dist: "distinct (map fst (day_percentiles (ws_day_index s) ss))"
    by (simp add: day_percentiles_def comp_def window_key_def [abs_def] rev_map [symmetric])
  have inj: "inj_on window_key (set ss)" using assms(1) by (simp add: distinct_map)
  show ?thesis
  proof (cases "scored s")
    case True
    then have "(window_key s, percentile_of (sort (map ws_score ?t)) (ws_score s)) \<in> set (day_percentiles (ws_day_index s) ss)"
      using assms(2) by (force simp: day_percentiles_def window_key_def todays_mem)
    then show ?thesis using True dist by (simp add: window_key_def percentile_lookup)
  next
    case False
    have "window_key s \<notin> fst ` set (day_percentiles (ws_day_index s) ss)"
    proof
      assume "window_key s \<in> fst ` set (day_percentiles (ws_day_index s) ss)"
      then obtain t where "t \<in> set ?t" "window_key t = window_key s"
        by (auto simp: day_percentiles_def window_key_def)
      then show False using False inj_onD [OF inj, of t s] assms(2) by (simp add: todays_mem)
    qed
    then show ?thesis using False by (simp add: window_key_def percentile_lookup map_of_eq_None_iff)
  qed
qed

section \<open>Properties\<close>

lemma baseline_scorer_parts:
  assumes "baseline_scorer pm ws = Inr ss"
  obtains raw where "list_all2 (\<lambda>w r. baseline_score pm ws w = Inr r) ws raw" and "ss = with_percentiles raw"
  using assms that by (auto simp: baseline_scorer_def bindE_def mapE_Inr_iff split: sum.splits)

text \<open>C20: No detector looks ahead. Whatever the parameters compute, the scores the worker's two detectors give to the windows
  up to a day, percentiles and trained models included, are the scores they give when the later windows do not exist.\<close>

theorem no_detector_looks_ahead:
  assumes "score_windows [baseline_scorer pm, isolation_forest_scorer found pm] ws = Inr ss"
  shows "score_windows [baseline_scorer pm, isolation_forest_scorer found pm] (up_to d ws) = Inr (scores_up_to d ss)"
  by (rule pipeline.no_lookahead [OF assms])

lemma baseline_returns:
  assumes "list_all endpoint_window_ok ws" and "length ws < 2 ^ 46"
    and "distinct (map (\<lambda>w. (ew_endpoint_id w, ew_day_index w)) ws)"
  shows "\<exists>ss. baseline_scorer pm ws = Inr ss \<and> list_all window_score_ok ss \<and> list_all2 score_of ws ss"
proof -
  have len: "length ws < 10 ^ Suc 13" using assms(2) by simp
  have each: "\<exists>s. baseline_score pm ws w = Inr s \<and> window_score_ok s \<and> score_of w s" if "w \<in> set ws" for w
    by (rule baseline_score_total [OF assms(1) that len]) simp
  then obtain raw where raw: "mapE (baseline_score pm ws) ws = Inr raw"
    using mapE_ok [of ws "baseline_score pm ws"] by blast
  have ok1: "list_all2 score_of ws raw"
  proof (rule list_all2_all_nthI)
    show "length ws = length raw" using mapE_length [OF raw] by simp
    show "score_of (ws ! n) (raw ! n)" if n: "n < length ws" for n
    proof -
      have "baseline_score pm ws (ws ! n) = Inr (raw ! n)" by (rule list_all2_nthD [OF raw [unfolded mapE_Inr_iff] n])
      then show ?thesis using each [of "ws ! n"] n by auto
    qed
  qed
  have ok2: "list_all window_score_ok raw" unfolding list_all_iff
    using mapE_Inr_set [OF raw] each by fastforce
  note ok = ok1 ok2
  have keys: "map window_key raw = map (\<lambda>w. (ew_endpoint_id w, ew_day_index w)) ws"
    using ok(1) by (simp add: list_all2_conv_all_nth score_of_def window_key_def list_eq_iff_nth_eq)
  have "percentile_ok (map_of (percentile_map raw) (window_key s))" if s: "s \<in> set raw" for s
  proof (cases "scored s")
    case True
    let ?xs = "sort (map ws_score (todays (ws_day_index s) raw))"
    have "ws_score s \<in> set ?xs" using s True by (simp add: todays_mem)
    moreover have "length ?xs \<le> 2 ^ 46"
      using assms(2) list_all2_lengthD [OF ok(1)] order_trans [OF length_filter_le length_filter_le]
      by (auto simp: todays_def ranked_def intro: order_trans [OF length_filter_le])
    ultimately show ?thesis
      using percentile_of_facts(1,2) [of "ws_score s" ?xs] percentile_unique [of raw s] s True keys assms(3)
      by (simp add: percentile_ok_def less_imp_le)
  next
    case False
    then show ?thesis using percentile_unique [of raw s] s keys assms(3) by (simp add: percentile_ok_def)
  qed
  then have "list_all window_score_ok (with_percentiles raw)" using ok(2)
    by (auto simp: with_percentiles_def list_all_iff window_score_ok_def window_key_def)
  moreover have "list_all2 score_of ws (with_percentiles raw)" using ok(1)
    by (simp add: with_percentiles_def list_all2_map2 score_of_def [abs_def])
  ultimately show ?thesis using raw by (simp add: baseline_scorer_def py_simps)
qed

text \<open>The baseline detector always returns. On well-formed windows with distinct endpoint and day it raises nothing, and
  returns for every window, in order, a score of that window that satisfies every constraint of its model, its percentile
  between 0 and 100 included.\<close>

theorem baseline_total:
  assumes "list_all endpoint_window_ok ws" and "length ws < 2 ^ 46"
    and "distinct (map (\<lambda>w. (ew_endpoint_id w, ew_day_index w)) ws)"
  shows "\<exists>ss. baseline_scorer pm ws = Inr ss \<and> list_all window_score_ok ss \<and> list_all2 score_of ws ss"
  by (rule baseline_returns [OF assms])

text \<open>When a feature of a window deviates: the robust score or the drift statistic reaches the threshold, or the value is
  rare enough among the peers (the endpoint's own history if it has none).\<close>

definition drifts :: "endpoint_window \<Rightarrow> endpoint_window list \<Rightarrow> string \<Rightarrow> bool" where
  "drifts w history name = (\<exists>series value. mapE (\<lambda>item. numeric_value item name) history = Inr series
     \<and> numeric_value w name = Inr value
     \<and> (z_threshold \<le> \<bar>robust_z value (fst (median_mad series)) (snd (median_mad series))\<bar>
        \<or> z_threshold \<le> page_hinkley_score series value))"

definition rare :: "py_math \<Rightarrow> endpoint_window \<Rightarrow> endpoint_window list \<Rightarrow> string \<Rightarrow> bool" where
  "rare pm w catalog name = (\<exists>past value. mapE (\<lambda>item. categorical_value item name) catalog = Inr past
     \<and> categorical_value w name = Inr value \<and> z_threshold \<le> fst (categorical_rarity pm value past))"

lemma max_default_ge: "0 < t \<Longrightarrow> t \<le> max_default xs \<longleftrightarrow> (\<exists>x \<in> set xs. t \<le> x)"
proof (cases xs)
  case (Cons y ys)
  have "t \<le> fold max ys z \<longleftrightarrow> t \<le> z \<or> (\<exists>x \<in> set ys. t \<le> x)" for z
    by (induction ys arbitrary: z) (auto simp: le_max_iff_disj)
  then show ?thesis using Cons by (simp add: max_default_def)
qed (simp add: max_default_def)

lemma mk_contribution_score: "mk_contribution name v r score = Inr c \<Longrightarrow> fc_score c = score"
  by (auto simp: mk_contribution_def Let_def check_model_def split: option.splits if_splits)

lemma mad_contribution_score: "mad_contribution w h name = Inr c \<Longrightarrow> z_threshold \<le> fc_score c \<longleftrightarrow> drifts w h name"
  by (auto simp: mad_contribution_def bindE_def drifts_def Let_def le_max_iff_disj split: sum.splits prod.splits
      dest!: mk_contribution_score)

lemma rarity_contribution_score: "rarity_contribution pm w h name = Inr c \<Longrightarrow> z_threshold \<le> fc_score c \<longleftrightarrow> rare pm w h name"
  by (auto simp: rarity_contribution_def bindE_def rare_def split: sum.splits prod.splits dest!: mk_contribution_score)

lemma mapE_exists:
  assumes "mapE f xs = Inr ys" and "\<And>x y. f x = Inr y \<Longrightarrow> Q y \<longleftrightarrow> P x"
  shows "(\<exists>y \<in> set ys. Q y) \<longleftrightarrow> (\<exists>x \<in> set xs. P x)"
  using assms
proof (induction xs arbitrary: ys)
  case (Cons x xs)
  then show ?case by (fastforce simp: py_simps split: sum.splits)
qed simp

lemma contributions_alert:
  assumes "baseline_contributions pm w h p = Inr cs"
  shows "z_threshold \<le> max_default (map fc_score cs) \<longleftrightarrow> (\<exists>name \<in> set mad_feature_names. drifts w h name)
    \<or> (\<exists>name \<in> set rarity_features. rare pm w (catalog_of_peers p h) name)"
proof -
  obtain mads rarities where m: "mapE (mad_contribution w h) mad_feature_names = Inr mads"
      "mapE (rarity_contribution pm w (catalog_of_peers p h)) rarity_features = Inr rarities"
      "cs = sort_key contribution_order (mads @ rarities)"
    using assms by (auto simp: baseline_contributions_def bindE_def split: sum.splits)
  have "(\<exists>c \<in> set mads. z_threshold \<le> fc_score c) \<longleftrightarrow> (\<exists>name \<in> set mad_feature_names. drifts w h name)"
    by (rule mapE_exists [OF m(1) mad_contribution_score])
  moreover have "(\<exists>c \<in> set rarities. z_threshold \<le> fc_score c) \<longleftrightarrow>
      (\<exists>name \<in> set rarity_features. rare pm w (catalog_of_peers p h) name)"
    by (rule mapE_exists [OF m(2) rarity_contribution_score])
  moreover have "0 < z_threshold" by (simp add: z_threshold_def)
  ultimately show ?thesis by (auto simp: max_default_ge m(3))
qed

lemma baseline_score_alert:
  assumes "baseline_score pm ws w = Inr r"
  shows "ws_above_threshold r \<longleftrightarrow> (let history = endpoint_history ws w in
    \<not> ew_in_maintenance w \<and> skip_reason w history = None
    \<and> ((\<exists>name \<in> set mad_feature_names. drifts w history name)
       \<or> (\<exists>name \<in> set rarity_features. rare pm w (catalog_of_peers (peer_history ws w) history) name)))"
  using assms
  by (auto simp: baseline_score_def maintenance_score_def skipped_score_def unscored_def mk_window_score_def check_model_def
      bindE_def contributions_alert Let_def split: if_splits option.splits sum.splits)

text \<open>When the baseline alerts. A window is above the threshold exactly if it is not in maintenance, has enough sessions,
  history and capture quality to be scored, and one of its rates drifts from the endpoint's history or its issuer or TLS
  version is rare; what it is compared with are earlier windows only.\<close>

theorem baseline_alert_iff:
  assumes "baseline_scorer pm ws = Inr ss" and "n < length ws"
  shows "ws_above_threshold (ss ! n) \<longleftrightarrow> (let w = ws ! n; history = endpoint_history ws w in
    \<not> ew_in_maintenance w \<and> skip_reason w history = None
    \<and> ((\<exists>name \<in> set mad_feature_names. drifts w history name)
       \<or> (\<exists>name \<in> set rarity_features. rare pm w (catalog_of_peers (peer_history ws w) history) name)))"
proof -
  obtain raw where raw: "list_all2 (\<lambda>w r. baseline_score pm ws w = Inr r) ws raw" "ss = with_percentiles raw"
    by (rule baseline_scorer_parts [OF assms(1)])
  have r: "baseline_score pm ws (ws ! n) = Inr (raw ! n)" by (rule list_all2_nthD [OF raw(1) assms(2)])
  have "ws_above_threshold (ss ! n) = ws_above_threshold (raw ! n)"
    using list_all2_lengthD [OF raw(1)] assms(2) by (simp add: raw(2) with_percentiles_def)
  then show ?thesis using baseline_score_alert [OF r] by (simp add: Let_def)
qed

text \<open>What a percentile means. For windows with distinct endpoint and day, exactly the scored windows get a percentile;
  it lies in \<open>(0, 100]\<close>, never ranks a lower score of the same day above a higher one, and is 100 for the highest.\<close>

theorem percentiles_rank:
  assumes "baseline_scorer pm ws = Inr ss" and "distinct (map window_key ss)" and "length ss \<le> 2 ^ 46" and "s \<in> set ss"
  shows "(ws_percentile s = None \<longleftrightarrow> \<not> scored s)
    \<and> (\<forall>p. ws_percentile s = Some p \<longrightarrow> 0 < p \<and> p \<le> 100
        \<and> (\<forall>t \<in> set ss. scored t \<and> ws_day_index t = ws_day_index s \<and> ws_score s \<le> ws_score t \<longrightarrow>
             (\<exists>q. ws_percentile t = Some q \<and> p \<le> q))
        \<and> ((\<forall>t \<in> set ss. scored t \<and> ws_day_index t = ws_day_index s \<longrightarrow> ws_score t \<le> ws_score s) \<longrightarrow> p = 100))"
proof -
  obtain raw where raw: "ss = with_percentiles raw" by (rule baseline_scorer_parts [OF assms(1)])
  have fields: "scored (t\<lparr>ws_percentile := p\<rparr>) = scored t" "window_key (t\<lparr>ws_percentile := p\<rparr>) = window_key t" for t p
    by (simp_all add: scored_def window_key_def)
  have dist: "distinct (map window_key raw)" using assms(2) by (simp add: raw with_percentiles_def comp_def fields)
  define xs where "xs day = sort (map ws_score (todays day raw))" for day
  have mem: "v \<in> set (xs day) \<longleftrightarrow> (\<exists>t \<in> set ss. scored t \<and> ws_day_index t = day \<and> ws_score t = v)" for v day
    by (auto simp: xs_def todays_mem raw with_percentiles_def scored_def)
  have len: "length (xs day) \<le> 2 ^ 46" for day
    using assms(3) by (auto simp: xs_def todays_def ranked_def raw with_percentiles_def intro: order_trans [OF length_filter_le])
  have percentile_eq: "ws_percentile t = (if scored t then Some (percentile_of (xs (ws_day_index t)) (ws_score t)) else None)"
    if t: "t \<in> set ss" for t
  proof -
    obtain r where r: "r \<in> set raw" "t = r\<lparr>ws_percentile := map_of (percentile_map raw) (window_key r)\<rparr>"
      using t by (auto simp: raw with_percentiles_def window_key_def [symmetric])
    then show ?thesis using percentile_unique [OF dist r(1)] by (simp add: fields xs_def)
  qed
  show ?thesis
  proof (cases "scored s")
    case True
    then have s: "ws_score s \<in> set (xs (ws_day_index s))" using assms(4) by (auto simp: mem)
    note facts = percentile_of_facts [OF s len]
    have "p = 100" if "\<forall>t \<in> set ss. scored t \<and> ws_day_index t = ws_day_index s \<longrightarrow> ws_score t \<le> ws_score s"
      "ws_percentile s = Some p" for p
      using facts(3) that percentile_eq [OF assms(4)] True by (auto simp: mem)
    then show ?thesis using facts(1,2,4) percentile_eq True assms(4) by auto
  next
    case False
    then show ?thesis using percentile_eq [OF assms(4)] by simp
  qed
qed

section \<open>Samples\<close>

definition sample_math :: py_math where
  "sample_math = \<lparr>pm_log = (\<lambda>x. - 4), pm_str = (\<lambda>x. [])\<rparr>"

definition sample_window :: "nat \<Rightarrow> nat \<Rightarrow> endpoint_window" where
  "sample_window sessions day = \<lparr>ew_endpoint_id = ''e'', ew_site_id = ''s'', ew_protocol_role = PR_SMTP_MX, ew_day_index = day,
     ew_session_count = sessions, ew_tls13_share = 1, ew_tls12_share = 0, ew_tls10_share = 0, ew_handshake_failure_rate = 0,
     ew_alert_rate = 0, ew_starttls_success_rate = 0, ew_starttls_fallback_rate = 0, ew_forward_secrecy_present_rate = 1,
     ew_certificate_churn_rate = 0, ew_incomplete_reconstruction_rate = 0, ew_not_observable_rate = 0,
     ew_dominant_tls_version = ''TLSv13'', ew_issuer_id = ''i'', ew_in_maintenance = False, ew_is_new_endpoint = False,
     ew_capture_quality_ok = True\<rparr>"

definition sample_windows :: "endpoint_window list" where
  "sample_windows = map (sample_window 10) [0..<15]"

lemma sample_windows_ok:
  "list_all endpoint_window_ok sample_windows" "length sample_windows = 15"
  "distinct (map (\<lambda>w. (ew_endpoint_id w, ew_day_index w)) sample_windows)"
  by (simp_all add: sample_windows_def sample_window_def endpoint_window_ok_def unit_rate_def len_in_def list_all_iff
      distinct_map inj_on_def)

lemma sample_returns:
  obtains ss where "baseline_scorer sample_math sample_windows = Inr ss" "list_all2 score_of sample_windows ss"
  using baseline_returns [OF sample_windows_ok(1) _ sample_windows_ok(3), of sample_math] sample_windows_ok(2) by auto

theorem baseline_total_witness:
  "\<exists>ss. baseline_scorer sample_math sample_windows = Inr ss \<and> length ss = 15"
  using baseline_total [OF sample_windows_ok(1) _ sample_windows_ok(3), of sample_math] sample_windows_ok(2)
  by (auto dest: list_all2_lengthD)

lemma sample_scored:
  "skip_reason (sample_windows ! 14) (endpoint_history sample_windows (sample_windows ! 14)) = None"
  "\<not> ew_in_maintenance (sample_windows ! 14)"
  by code_simp+

theorem baseline_alert_iff_witness:
  "\<exists>ss. baseline_scorer sample_math sample_windows = Inr ss \<and> ws_above_threshold (ss ! 14)"
proof -
  obtain ss where ss: "baseline_scorer sample_math sample_windows = Inr ss" by (rule sample_returns)
  let ?w = "sample_windows ! 14"
  let ?c = "catalog_of_peers (peer_history sample_windows ?w) (endpoint_history sample_windows ?w)"
  have w: "endpoint_window_ok ?w" and c: "\<forall>x \<in> set ?c. endpoint_window_ok x"
    using sample_windows_ok(1,2) series_members(1,2) [of sample_windows ?w]
    by (auto simp: list_all_iff catalog_of_peers_def)
  have name: "''issuer_id'' \<in> set rarity_features" by (simp add: rarity_features_def)
  obtain past where "mapE (\<lambda>item. categorical_value item ''issuer_id'') ?c = Inr past"
    using mapE_ok [of ?c "\<lambda>item. categorical_value item ''issuer_id''"] rarity_value_short [OF name] c by blast
  moreover obtain current where "categorical_value ?w ''issuer_id'' = Inr current" using rarity_value_short [OF name w] by blast
  ultimately have "rare sample_math ?w ?c ''issuer_id''"
    by (auto simp: rare_def categorical_rarity_def sample_math_def z_threshold_def Let_def)
  then show ?thesis using baseline_alert_iff [OF ss, of 14] sample_windows_ok(2) sample_scored ss name by (auto simp: Let_def)
qed

theorem percentiles_rank_witness:
  "\<exists>ss s. baseline_scorer sample_math sample_windows = Inr ss \<and> s \<in> set ss \<and> (ws_percentile s = None \<longleftrightarrow> \<not> scored s)"
proof -
  obtain ss where ss: "baseline_scorer sample_math sample_windows = Inr ss" "list_all2 score_of sample_windows ss"
    by (rule sample_returns)
  then have len: "length ss = 15" using sample_windows_ok(2) list_all2_lengthD by fastforce
  then have mem: "ss ! 0 \<in> set ss" by simp
  have "map window_key ss = map (\<lambda>w. (ew_endpoint_id w, ew_day_index w)) sample_windows"
    using ss(2) by (simp add: list_all2_conv_all_nth score_of_def window_key_def list_eq_iff_nth_eq)
  then have "distinct (map window_key ss)" using sample_windows_ok(3) by simp
  then have "ws_percentile (ss ! 0) = None \<longleftrightarrow> \<not> scored (ss ! 0)"
    using percentiles_rank [OF ss(1) _ _ mem, THEN conjunct1] len by simp
  then show ?thesis using ss(1) mem by (intro exI [of _ ss] exI [of _ "ss ! 0"]) simp
qed

definition sample_forest :: "unit sklearn" where
  "sample_forest = \<lparr>sk_fit = (\<lambda>n m. ()), sk_score_samples = (\<lambda>m xs. map (\<lambda>x. 0) xs), np_quantile = (\<lambda>xs. 0)\<rparr>"

lemma unsupported_forest:
  assumes "list_all endpoint_window_ok ws" and "list_all (\<lambda>w. ew_session_count w < min_session_count) ws"
  shows "\<exists>ss. isolation_forest_scorer (Some sk) pm ws = Inr ss"
proof -
  have skip: "skip_reason w h = Some ''insufficient_support''" if "w \<in> set ws" for w h
    using that assms(2) by (simp add: skip_reason_def list_all_iff)
  then have none: "fit_day sk pm ws day = Inr None" for day
    by (auto simp: fit_day_def trainable_def py_simps filter_empty_conv)
  have "fit_days sk pm ws days None = Inr []" for days by (induction days) (simp_all add: none py_simps)
  moreover have "\<exists>s. forest_score sk pm ws [] w = Inr s" if "w \<in> set ws" for w
  proof -
    have "len_in 1 160 (ew_endpoint_id w)" using assms(1) that by (simp add: list_all_iff endpoint_window_ok_def)
    then show ?thesis using skip [OF that] score_constants
      by (auto simp: forest_score_def maintenance_score_def skipped_score_def unscored_def mk_window_score_def check_model_def
          window_score_ok_def percentile_ok_def len_in_def isolation_forest_model_digest_def Let_def)
  qed
  then obtain raw where "mapE (forest_score sk pm ws []) ws = Inr raw" using mapE_ok by blast
  ultimately show ?thesis by (simp add: isolation_forest_scorer_def py_simps)
qed

theorem no_detector_looks_ahead_witness:
  "\<exists>ss. score_windows [baseline_scorer sample_math, isolation_forest_scorer (Some sample_forest) sample_math]
      [sample_window 3 0, sample_window 3 1] = Inr ss
    \<and> score_windows [baseline_scorer sample_math, isolation_forest_scorer (Some sample_forest) sample_math]
      (up_to 0 [sample_window 3 0, sample_window 3 1]) = Inr (scores_up_to 0 ss)"
proof -
  let ?ws = "[sample_window 3 0, sample_window 3 1]"
  have ok: "list_all endpoint_window_ok ?ws" "list_all (\<lambda>w. ew_session_count w < min_session_count) ?ws"
    "distinct (map (\<lambda>w. (ew_endpoint_id w, ew_day_index w)) ?ws)"
    by (simp_all add: sample_window_def endpoint_window_ok_def unit_rate_def len_in_def)
  obtain a b where "baseline_scorer sample_math ?ws = Inr a" "isolation_forest_scorer (Some sample_forest) sample_math ?ws = Inr b"
    using baseline_returns [OF ok(1) _ ok(3)] unsupported_forest [OF ok(1,2)] by fastforce
  then have "score_windows [baseline_scorer sample_math, isolation_forest_scorer (Some sample_forest) sample_math] ?ws = Inr (a @ b)"
    by (simp add: score_windows_def py_simps)
  then show ?thesis using no_detector_looks_ahead by blast
qed

end
