(* ===== verification/Evaluation_Correct.thy ===== *)
theory Evaluation_Correct
  imports Evaluation Detectors_Correct
begin

text \<open>
  What the evaluation of the detectors means: the ranking it prints holds the endpoints with the highest peaks, the gates
  count endpoints and events, and with valid inputs a report is always produced. Rates and precisions are doubles; that
  their comparisons agree with the counts is shown on the table of the finitely many values they take.
\<close>

section \<open>Peaks\<close>

lemma peak_step_lookup:
  "map_of (peak_step item peaks) = (map_of peaks)(ws_endpoint_id item \<mapsto>
     (case map_of peaks (ws_endpoint_id item) of None \<Rightarrow> item
      | Some current \<Rightarrow> if ws_score current < ws_score item then item else current))"
  by (auto simp: peak_step_def update_conv' split: option.splits)

lemma peak_step_distinct: "distinct (map fst peaks) \<Longrightarrow> distinct (map fst (peak_step item peaks))"
  by (auto simp: peak_step_def distinct_update split: option.splits)

lemma peaks_distinct: "distinct (map fst (fold peak_step items []))"
  by (induction items rule: rev_induct) (simp_all add: peak_step_distinct)

lemma peaks_sound: "map_of (fold peak_step items []) e = Some item \<Longrightarrow> item \<in> set items \<and> ws_endpoint_id item = e"
proof (induction items arbitrary: item rule: rev_induct)
  case (snoc x items)
  then have step: "map_of (peak_step x (fold peak_step items [])) e = Some item" by simp
  show ?case
  proof (cases "ws_endpoint_id x = e")
    case True
    then have "item = x \<or> map_of (fold peak_step items []) e = Some item"
      using step by (simp add: peak_step_lookup split: option.splits if_splits)
    then show ?thesis using snoc.IH [of item] True by auto
  next
    case False
    then have "map_of (fold peak_step items []) e = Some item" using step by (simp add: peak_step_lookup)
    then show ?thesis using snoc.IH [of item] by simp
  qed
qed simp

lemma peaks_highest:
  "s \<in> set items \<Longrightarrow> \<exists>item. map_of (fold peak_step items []) (ws_endpoint_id s) = Some item \<and> ws_score s \<le> ws_score item"
proof (induction items rule: rev_induct)
  case (snoc x items)
  show ?case
  proof (cases "s \<in> set items")
    case True
    then obtain item where "map_of (fold peak_step items []) (ws_endpoint_id s) = Some item" "ws_score s \<le> ws_score item"
      using snoc.IH by blast
    then show ?thesis by (cases "ws_endpoint_id x = ws_endpoint_id s") (auto simp: peak_step_lookup)
  next
    case False
    then show ?thesis using snoc.prems by (auto simp: peak_step_lookup split: option.splits)
  qed
qed simp

definition endpoint_peaks :: "window_score list \<Rightarrow> string set \<Rightarrow> window_score list" where
  "endpoint_peaks scores excluded = filter (\<lambda>item. ws_endpoint_id item \<notin> excluded) (map snd (peak_scores_by_endpoint scores))"

lemma endpoint_peaks_ids:
  "map ws_endpoint_id (endpoint_peaks scores excluded) = filter (\<lambda>e. e \<notin> excluded) (map fst (peak_scores_by_endpoint scores))"
proof -
  have "ws_endpoint_id item = e" if "(e, item) \<in> set (peak_scores_by_endpoint scores)" for e item
    using that peaks_sound peaks_distinct unfolding peak_scores_by_endpoint_def by (metis map_of_eq_Some_iff)
  then have "map ws_endpoint_id (map snd (peak_scores_by_endpoint scores)) = map fst (peak_scores_by_endpoint scores)"
    by auto
  then show ?thesis unfolding endpoint_peaks_def by (metis (no_types, lifting) comp_apply filter_cong filter_map)
qed

lemma endpoint_peaks_facts:
  shows "distinct (map ws_endpoint_id (endpoint_peaks scores excluded))"
    and "item \<in> set (endpoint_peaks scores excluded) \<Longrightarrow> item \<in> set (eligible_scores scores) \<and> ws_endpoint_id item \<notin> excluded"
    and "s \<in> set (eligible_scores scores) \<Longrightarrow> ws_endpoint_id s \<notin> excluded
      \<Longrightarrow> \<exists>item \<in> set (endpoint_peaks scores excluded). ws_endpoint_id item = ws_endpoint_id s \<and> ws_score s \<le> ws_score item"
proof -
  show "distinct (map ws_endpoint_id (endpoint_peaks scores excluded))"
    unfolding endpoint_peaks_ids by (simp add: peak_scores_by_endpoint_def peaks_distinct)
  show "item \<in> set (eligible_scores scores) \<and> ws_endpoint_id item \<notin> excluded"
    if "item \<in> set (endpoint_peaks scores excluded)"
  proof -
    have "\<exists>e. (e, item) \<in> set (peak_scores_by_endpoint scores) \<and> ws_endpoint_id item \<notin> excluded"
      using that by (auto simp: endpoint_peaks_def)
    then obtain e where "map_of (peak_scores_by_endpoint scores) e = Some item" "ws_endpoint_id item \<notin> excluded"
      unfolding peak_scores_by_endpoint_def using map_of_is_SomeI [OF peaks_distinct] by blast
    then show ?thesis using peaks_sound unfolding peak_scores_by_endpoint_def by blast
  qed
  show "\<exists>item \<in> set (endpoint_peaks scores excluded). ws_endpoint_id item = ws_endpoint_id s \<and> ws_score s \<le> ws_score item"
    if s: "s \<in> set (eligible_scores scores)" "ws_endpoint_id s \<notin> excluded"
  proof -
    obtain item where "map_of (peak_scores_by_endpoint scores) (ws_endpoint_id s) = Some item" "ws_score s \<le> ws_score item"
      using peaks_highest [OF s(1)] unfolding peak_scores_by_endpoint_def by blast
    moreover from this have "ws_endpoint_id item = ws_endpoint_id s"
      using peaks_sound unfolding peak_scores_by_endpoint_def by blast
    ultimately show ?thesis using s(2) unfolding endpoint_peaks_def by (force dest: map_of_SomeD)
  qed
qed

section \<open>The ranking\<close>

lemma rank_order_le: "rank_order x \<le> rank_order y \<Longrightarrow> ws_score y \<le> ws_score x"
  by (auto simp: rank_order_def less_eq_prod_def)

lemma take_sorted_rest:
  assumes "y \<in> set xs" and "y \<notin> set (take k (sort_key f xs))"
  shows "length (take k (sort_key f xs)) = k" and "x \<in> set (take k (sort_key f xs)) \<Longrightarrow> f x \<le> f y"
proof -
  let ?s = "sort_key f xs"
  have y: "y \<in> set (drop k ?s)" using assms set_append [of "take k ?s" "drop k ?s"] by simp
  then show "length (take k ?s) = k" by (cases "length xs \<le> k") auto
  have "sorted (map f (take k ?s @ drop k ?s))" by simp
  then show "f x \<le> f y" if "x \<in> set (take k ?s)" using that y unfolding map_append sorted_append by auto
qed

definition hits :: "cohort_labels \<Rightarrow> detector_evaluation \<Rightarrow> nat" where
  "hits labels e = card (set (de_ranked_endpoint_ids e) \<inter> true_event_endpoints labels)"

lemma precision_ids:
  "snd (precision_at_k scores labels k excluded) = map ws_endpoint_id (take k (sort_key rank_order (endpoint_peaks scores excluded)))"
  by (simp add: precision_at_k_def endpoint_peaks_def Let_def)

lemma precision_value:
  "fst (precision_at_k scores labels k excluded) =
    fl (of_nat (length (filter (\<lambda>e. e \<in> true_event_endpoints labels) (snd (precision_at_k scores labels k excluded)))) / of_nat k)"
  by (simp add: precision_at_k_def Let_def)

lemma ranked_distinct: "distinct (snd (precision_at_k scores labels k excluded))"
proof -
  have "distinct (map ws_endpoint_id (sort_key rank_order (endpoint_peaks scores excluded)))"
    using endpoint_peaks_facts(1) by (simp add: distinct_map)
  then show ?thesis unfolding precision_ids take_map [symmetric] by (rule distinct_take)
qed

lemma summary_fields:
  assumes "summarize_detector scores windows labels detector digest = Inr e"
  shows "de_ranked_endpoint_ids e = snd (precision_at_k scores labels top_k (set (cl_new_endpoints labels)))"
    and "de_precision_at_k e = fst (precision_at_k scores labels top_k (set (cl_new_endpoints labels)))"
    and "de_detection_delays e = detection_delays scores labels"
  using assms by (auto simp: summarize_detector_def Let_def py_simps split: prod.splits)

lemma summary_precision:
  assumes "summarize_detector scores windows labels detector digest = Inr e"
  shows "de_precision_at_k e = fl (of_nat (hits labels e) / 5) \<and> hits labels e \<le> 5"
proof -
  let ?ids = "de_ranked_endpoint_ids e"
  have "card (set ?ids \<inter> true_event_endpoints labels) = length (filter (\<lambda>x. x \<in> true_event_endpoints labels) ?ids)"
    using ranked_distinct summary_fields(1) [OF assms] by (metis distinct_card distinct_filter set_filter inter_set_filter Int_commute Int_def mem_Collect_eq)
  moreover have "length ?ids \<le> 5" unfolding summary_fields(1) [OF assms] precision_ids by simp
  ultimately show ?thesis
    unfolding hits_def summary_fields(2) [OF assms] precision_value summary_fields(1) [OF assms, symmetric]
    by (simp add: order_trans [OF length_filter_le])
qed

text \<open>C34: the summary of a detector ranks at most five endpoints, none of them twice, none of them labelled new, each with an
  eligible score (after the warm-up, neither skipped nor suppressed); an endpoint with an eligible score that is neither
  listed nor new is left out only when five others are listed, and each of those has an eligible score at least as high;
  the precision is the rounded quotient of the listed endpoints that have a seeded event by five.\<close>

theorem ranking_is_top_five:
  assumes "summarize_detector scores windows labels detector digest = Inr e"
  shows "distinct (de_ranked_endpoint_ids e) \<and> length (de_ranked_endpoint_ids e) \<le> 5
    \<and> (\<forall>x \<in> set (de_ranked_endpoint_ids e). x \<notin> set (cl_new_endpoints labels)
        \<and> (\<exists>s \<in> set (eligible_scores scores). ws_endpoint_id s = x))
    \<and> (\<forall>s \<in> set (eligible_scores scores). ws_endpoint_id s \<notin> set (cl_new_endpoints labels)
        \<longrightarrow> ws_endpoint_id s \<notin> set (de_ranked_endpoint_ids e) \<longrightarrow> length (de_ranked_endpoint_ids e) = 5
          \<and> (\<forall>x \<in> set (de_ranked_endpoint_ids e). \<exists>t \<in> set (eligible_scores scores).
              ws_endpoint_id t = x \<and> ws_score s \<le> ws_score t))
    \<and> de_precision_at_k e
      = fl (of_nat (card (set (de_ranked_endpoint_ids e) \<inter> true_event_endpoints labels)) / 5)"
  (is "_ \<and> _ \<and> ?listed \<and> ?best \<and> _")
proof -
  let ?new = "set (cl_new_endpoints labels)"
  let ?peaks = "endpoint_peaks scores ?new" and ?top = "take 5 (sort_key rank_order (endpoint_peaks scores ?new))"
  have ids: "de_ranked_endpoint_ids e = map ws_endpoint_id ?top" using summary_fields(1) [OF assms] precision_ids by simp
  have ?listed unfolding ids by (auto dest!: in_set_takeD endpoint_peaks_facts(2))
  moreover have ?best
  proof (intro ballI impI)
    fix s assume s: "s \<in> set (eligible_scores scores)" "ws_endpoint_id s \<notin> ?new"
      and out: "ws_endpoint_id s \<notin> set (de_ranked_endpoint_ids e)"
    obtain p where p: "p \<in> set ?peaks" "ws_endpoint_id p = ws_endpoint_id s" "ws_score s \<le> ws_score p"
      using endpoint_peaks_facts(3) [OF s] by blast
    then have "p \<notin> set ?top" using out unfolding ids by (metis image_eqI list.set_map)
    note top = take_sorted_rest [OF p(1) this]
    have "ws_score s \<le> ws_score t" if "t \<in> set ?top" for t using rank_order_le [OF top(2) [OF that]] p(3) by simp
    then have "\<exists>t \<in> set (eligible_scores scores). ws_endpoint_id t = ws_endpoint_id x \<and> ws_score s \<le> ws_score t"
      if "x \<in> set ?top" for x using that endpoint_peaks_facts(2) [OF in_set_takeD] by (metis set_sort in_set_takeD endpoint_peaks_facts(2))
    then show "length (de_ranked_endpoint_ids e) = 5 \<and> (\<forall>x \<in> set (de_ranked_endpoint_ids e).
        \<exists>t \<in> set (eligible_scores scores). ws_endpoint_id t = x \<and> ws_score s \<le> ws_score t)"
      using top(1) unfolding ids by auto
  qed
  moreover have "distinct (de_ranked_endpoint_ids e)" unfolding summary_fields(1) [OF assms] by (rule ranked_distinct)
  moreover have "length (de_ranked_endpoint_ids e) \<le> 5" unfolding ids by simp
  ultimately show ?thesis using summary_precision [OF assms] unfolding hits_def by blast
qed

section \<open>Counts and doubles\<close>

definition fifths :: "rat list" where
  "fifths = [0, 3602879701896397 / 18014398509481984, 3602879701896397 / 9007199254740992, 5404319552844595 / 9007199254740992, 3602879701896397 / 4503599627370496, 1]"

lemma fifths: "map (\<lambda>a. fl (of_nat a / 5)) [0..<6] = fifths" "baseline_precision_floor = fifths ! 3"
  by code_simp+

lemma fifths_gap: "list_all (\<lambda>b. list_all (\<lambda>a.
    if b < a then fifths ! b + 1 / 8 \<le> fifths ! a else fifths ! a \<le> fifths ! b) [0..<6]) [0..<6]"
  by code_simp

lemma tolerance_bounds: "0 \<le> tolerance" "tolerance \<le> 1 / 16"
proof -
  show "0 \<le> tolerance" unfolding tolerance_def by (rule double.rnd_nonneg) simp
  have "tolerance \<le> fl (1 / 16)" unfolding tolerance_def by (rule double.rnd_mono) simp
  also have "\<dots> = 1 / 16" by code_simp
  finally show "tolerance \<le> 1 / 16" .
qed

lemma fifths_double: "list_all (\<lambda>q. fl q = q \<and> fl (q + 1 / 16) < q + 1 / 8) fifths"
  by code_simp

lemma tenth: "1 / 16 < isolation_forest_precision_lift" "isolation_forest_precision_lift \<le> 1 / 8"
  by code_simp+

lemma half_table: "list_all (\<lambda>m :: nat. fl (of_nat m / 2) = of_nat m / 2) [0..<5]"
  by code_simp

lemma fifth_at: "n \<le> 5 \<Longrightarrow> fl (of_nat n / 5) = fifths ! n"
  using arg_cong [OF fifths(1), of "\<lambda>xs. xs ! n"] by simp

lemma fifth_gap:
  assumes "a \<le> 5" "b \<le> 5"
  shows "b < a \<Longrightarrow> fifths ! b + 1 / 8 \<le> fifths ! a" "a \<le> b \<Longrightarrow> fifths ! a \<le> fifths ! b"
  using assms fifths_gap unfolding list_all_iff by (auto dest!: bspec [of _ _ b] bspec [of _ _ a])

lemma precision_comparisons:
  assumes a: "a \<le> 5" and b: "b \<le> 5"
  defines "p \<equiv> fl (of_nat a / 5)" and "q \<equiv> fl (of_nat b / 5)"
  shows "(baseline_precision_floor \<le> p) = (3 \<le> a)" and "(fl (q + tolerance) < p) = (b < a)"
    and "(fl (isolation_forest_precision_lift - tolerance) \<le> fl (p - q)) = (b < a)"
proof -
  have pq: "p = fifths ! a" "q = fifths ! b" unfolding p_def q_def by (simp_all add: fifth_at a b)
  have "q \<in> set fifths" unfolding pq by (rule nth_mem) (use b in \<open>simp add: fifths_def\<close>)
  then have q: "fl q = q" "fl (q + 1 / 16) < q + 1 / 8" using fifths_double by (simp_all add: list_all_iff)
  show "(baseline_precision_floor \<le> p) = (3 \<le> a)"
    unfolding fifths(2) pq using fifth_gap(2) [of 3 a] fifth_gap(1) [of 3 a] a by (cases "3 \<le> a") fastforce+
  have "fl (q + tolerance) \<le> fl (q + 1 / 16)" using tolerance_bounds by (intro double.rnd_mono) simp
  moreover have "q \<le> fl (q + tolerance)" using double.rnd_mono [of q "q + tolerance"] tolerance_bounds q(1) by simp
  ultimately show "(fl (q + tolerance) < p) = (b < a)"
    using fifth_gap [OF a b] q(2) unfolding pq by (cases "b < a") fastforce+
  have pos: "0 < fl (isolation_forest_precision_lift - tolerance)"
    using tenth tolerance_bounds by (intro fl_positive) simp
  show "(fl (isolation_forest_precision_lift - tolerance) \<le> fl (p - q)) = (b < a)"
  proof (cases "b < a")
    case True
    then have "isolation_forest_precision_lift - tolerance \<le> p - q"
      using fifth_gap(1) [OF a b] tenth tolerance_bounds unfolding pq by simp
    then show ?thesis using True double.rnd_mono by blast
  next
    case False
    then have "fl (p - q) \<le> 0" using fifth_gap(2) [OF a b] double.rnd_mono [of "p - q" 0] unfolding pq by simp
    then show ?thesis using False pos by simp
  qed
qed

section \<open>Delays\<close>

definition detected_in_time :: "window_score list \<Rightarrow> seeded_event \<Rightarrow> bool" where
  "detected_in_time scores event = (\<exists>s \<in> set scores. ws_endpoint_id s = sv_endpoint_id event
     \<and> sv_start_day event \<le> ws_day_index s \<and> ws_day_index s \<le> sv_start_day event + 2
     \<and> ws_above_threshold s \<and> \<not> ws_suppressed s \<and> ws_skip_reason s = None)"

definition score_key :: "window_score \<Rightarrow> string \<times> nat" where
  "score_key s = (ws_endpoint_id s, ws_day_index s)"

lemma scores_by_key_lookup:
  assumes "distinct (map score_key scores)"
  shows "map_of (scores_by_key scores) (e, day) = Some s \<longleftrightarrow>
    s \<in> set scores \<and> score_key s = (e, day) \<and> ws_skip_reason s = None \<and> \<not> ws_suppressed s"
proof -
  let ?kept = "filter (\<lambda>s. ws_skip_reason s = None \<and> \<not> ws_suppressed s) scores"
  have "distinct (map fst (rev (map (\<lambda>s. (score_key s, s)) ?kept)))"
    using assms by (simp add: rev_map [symmetric] comp_def distinct_map_filter)
  then show ?thesis
    by (auto simp: scores_by_key_def map_of_fold_update [where k = score_key and v = "\<lambda>s. s", unfolded score_key_def] score_key_def)
qed

lemma find_Some_ex: "(\<exists>d. map_option f (find P xs) = Some d) = (\<exists>x \<in> set xs. P x)"
  by (cases "find P xs") (auto simp: find_None_iff dest: find_Some_mem)

lemma first_crossing_bound:
  assumes "first_crossing by_key e start [start..<start + 2 + 1] = Some d"
  shows "d \<le> 2"
proof -
  obtain day where "d = day - start" "day \<in> set [start..<start + 2 + 1]"
    using assms unfolding first_crossing_def map_option_eq_Some by (blast dest: find_Some_mem)
  then show ?thesis by auto
qed

lemma first_crossing_detects:
  assumes "distinct (map score_key scores)"
  shows "(\<exists>d. first_crossing (scores_by_key scores) (sv_endpoint_id event) (sv_start_day event)
      [sv_start_day event..<sv_start_day event + 2 + 1] = Some d) = detected_in_time scores event"
proof -
  have day: "(case map_of (scores_by_key scores) (sv_endpoint_id event, day) of None \<Rightarrow> False | Some item \<Rightarrow> ws_above_threshold item)
      = (\<exists>s \<in> set scores. score_key s = (sv_endpoint_id event, day) \<and> ws_above_threshold s \<and> \<not> ws_suppressed s
          \<and> ws_skip_reason s = None)" for day
    using scores_by_key_lookup [OF assms] by (fastforce split: option.splits)
  show ?thesis
    unfolding first_crossing_def find_Some_ex day detected_in_time_def score_key_def
    by (auto simp del: upt_Suc)
qed

lemma delay_of_event:
  assumes "distinct (map sv_event_id (cl_events labels))" and "event \<in> set (cl_events labels)"
  shows "delay_get (detection_delays scores labels) (sv_event_id event) =
    first_crossing (scores_by_key scores) (sv_endpoint_id event) (sv_start_day event)
      [sv_start_day event..<sv_start_day event + 2 + 1]"
proof -
  let ?v = "\<lambda>event. first_crossing (scores_by_key scores) (sv_endpoint_id event) (sv_start_day event)
      [sv_start_day event..<sv_start_day event + 2 + 1]"
  have "distinct (map fst (rev (map (\<lambda>x. (sv_event_id x, ?v x)) (cl_events labels))))"
    using assms(1) by (simp add: rev_map [symmetric] comp_def del: upt_Suc)
  then have "map_of (rev (map (\<lambda>x. (sv_event_id x, ?v x)) (cl_events labels))) (sv_event_id event) = Some (?v event)"
    using assms(2) by (intro map_of_is_SomeI) (auto simp del: upt_Suc)
  then show ?thesis
    unfolding delay_get_def detection_delays_def map_of_fold_update [where k = sv_event_id and v = ?v] by simp
qed

lemma delay_gate_meaning:
  assumes "summarize_detector scores windows labels detector digest = Inr e"
    and "distinct (map sv_event_id (cl_events labels))" and "distinct (map score_key scores)"
  shows "delay_gate e labels = ((\<exists>event \<in> set (cl_events labels). sv_kind event = AK_UNIVARIATE)
    \<and> (\<forall>event \<in> set (cl_events labels). sv_kind event = AK_UNIVARIATE \<longrightarrow> detected_in_time scores event))"
proof -
  have "(case delay_get (de_detection_delays e) (sv_event_id event) of None \<Rightarrow> False | Some d \<Rightarrow> d \<le> 2)
      = detected_in_time scores event" if "event \<in> set (cl_events labels)" for event
    unfolding summary_fields(3) [OF assms(1)] delay_of_event [OF assms(2) that]
      first_crossing_detects [OF assms(3), symmetric]
    using first_crossing_bound [of "scores_by_key scores" "sv_endpoint_id event" "sv_start_day event"]
    by (auto split: option.splits simp del: upt_Suc)
  then show ?thesis by (auto simp: delay_gate_def univariate_ids_def Let_def list_all_iff filter_empty_conv)
qed

section \<open>The gates\<close>

lemma challenger_cases:
  assumes "challenger_summary rg windows labels baseline b challenger challenger_digest = Inr r"
  shows "r = None \<or> (\<exists>scores d e low high. summarize_detector scores windows labels ''isolation_forest'' d = Inr e
    \<and> r = Some (e, fl (de_precision_at_k e - de_precision_at_k b), low, high))"
  using assms by (cases "paired_bootstrap_lift rg baseline (the challenger) labels")
    (fastforce simp: challenger_summary_def py_simps split: option.splits)

lemma compare_parts:
  assumes "compare_detectors rg windows labels baseline challenger digest challenger_digest cohort = Inr report"
  obtains nulls where "summarize_detector nulls windows labels ''null'' null_digest = Inr (er_null_detector report)"
    and "summarize_detector baseline windows labels ''baseline'' digest = Inr (er_baseline report)"
    and "(er_challenger report = None \<and> er_gates report = gates_for (er_null_detector report) (er_baseline report) None labels)
      \<or> (\<exists>scores d e low. summarize_detector scores windows labels ''isolation_forest'' d = Inr e
          \<and> er_challenger report = Some (with_fused_delays (er_baseline report) e labels)
          \<and> er_gates report = gates_for (er_null_detector report) (er_baseline report)
              (Some (e, fl (de_precision_at_k e - de_precision_at_k (er_baseline report)), low)) labels)"
proof -
  obtain nulls null_eval base r where "summarize_detector nulls windows labels ''null'' null_digest = Inr null_eval"
    "summarize_detector baseline windows labels ''baseline'' digest = Inr base"
    and r: "challenger_summary rg windows labels baseline base challenger challenger_digest = Inr r"
    and report: "er_null_detector report = null_eval" "er_baseline report = base"
      "er_challenger report = map_option (\<lambda>(e, lift, low, high). with_fused_delays base e labels) r"
      "er_gates report = gates_for null_eval base (map_option (\<lambda>(e, lift, low, high). (e, lift, low)) r) labels"
    using assms by (auto simp: compare_detectors_def py_simps)
  then show thesis using that challenger_cases [OF r] unfolding report by fastforce
qed

lemma hits_fused [simp]: "hits labels (with_fused_delays b e labels') = hits labels e"
  by (simp add: hits_def with_fused_delays_def Let_def)

text \<open>C25: what a printed report means. The precision floor holds when at least three of the five endpoints the baseline
  ranks highest have a seeded event, the comparison with the random ranking when the baseline hits more of them, the lift
  when the challenger hits more than the baseline; the delay gate holds when there are univariate events and each of them
  has a score of the baseline above its threshold, unsuppressed and not skipped, on its endpoint within two days of its
  start. The rounding of the doubles compared never changes the outcome.\<close>

theorem gates_count_events:
  assumes "compare_detectors rg windows labels baseline challenger digest challenger_digest cohort = Inr report"
    and "distinct (map sv_event_id (cl_events labels))"
    and "distinct (map (\<lambda>s. (ws_endpoint_id s, ws_day_index s)) baseline)"
  shows "gr_baseline_precision_floor (er_gates report) = (3 \<le> hits labels (er_baseline report))
    \<and> gr_baseline_beats_null (er_gates report) = (hits labels (er_null_detector report) < hits labels (er_baseline report))
    \<and> gr_challenger_precision_lift (er_gates report)
      = (\<exists>c. er_challenger report = Some c \<and> hits labels (er_baseline report) < hits labels c)
    \<and> gr_detection_delay (er_gates report) = ((\<exists>event \<in> set (cl_events labels). sv_kind event = AK_UNIVARIATE)
      \<and> (\<forall>event \<in> set (cl_events labels). sv_kind event = AK_UNIVARIATE \<longrightarrow> detected_in_time baseline event))"
proof -
  obtain nulls where parts: "summarize_detector nulls windows labels ''null'' null_digest = Inr (er_null_detector report)"
      "summarize_detector baseline windows labels ''baseline'' digest = Inr (er_baseline report)"
      "(er_challenger report = None \<and> er_gates report = gates_for (er_null_detector report) (er_baseline report) None labels)
      \<or> (\<exists>scores d e low. summarize_detector scores windows labels ''isolation_forest'' d = Inr e
          \<and> er_challenger report = Some (with_fused_delays (er_baseline report) e labels)
          \<and> er_gates report = gates_for (er_null_detector report) (er_baseline report)
              (Some (e, fl (de_precision_at_k e - de_precision_at_k (er_baseline report)), low)) labels)"
    by (rule compare_parts [OF assms(1)])
  note b = summary_precision [OF parts(2)] and n = summary_precision [OF parts(1)]
  have first: "gr_baseline_precision_floor (er_gates report) = (3 \<le> hits labels (er_baseline report))"
    "gr_baseline_beats_null (er_gates report) = (hits labels (er_null_detector report) < hits labels (er_baseline report))"
    "gr_detection_delay (er_gates report) = delay_gate (er_baseline report) labels"
    using parts(3) b n precision_comparisons(1) [of "hits labels (er_baseline report)" 0]
      precision_comparisons(2) [of "hits labels (er_baseline report)" "hits labels (er_null_detector report)"]
    by (auto simp: gates_for_def Let_def)
  have "gr_challenger_precision_lift (er_gates report)
      = (\<exists>c. er_challenger report = Some c \<and> hits labels (er_baseline report) < hits labels c)"
    using parts(3)
  proof (elim disjE exE conjE)
    fix scores d e low
    assume e: "summarize_detector scores windows labels ''isolation_forest'' d = Inr e"
      and c: "er_challenger report = Some (with_fused_delays (er_baseline report) e labels)"
      and g: "er_gates report = gates_for (er_null_detector report) (er_baseline report)
              (Some (e, fl (de_precision_at_k e - de_precision_at_k (er_baseline report)), low)) labels"
    show ?thesis using precision_comparisons(3) [of "hits labels e" "hits labels (er_baseline report)"]
        summary_precision [OF e] b by (simp add: c g gates_for_def Let_def)
  qed (simp add: gates_for_def Let_def)
  moreover note delay_gate_meaning [OF parts(2) assms(2) assms(3) [folded score_key_def]]
  ultimately show ?thesis using first by simp
qed

section \<open>Fused delays\<close>

lemma insort_list_all2:
  fixes a :: "'a :: linorder"
  assumes "list_all2 (\<le>) ys xs" and "sorted ys" "sorted xs" and "a \<le> b"
  shows "list_all2 (\<le>) (insort a ys) (insort b xs)"
  using assms
proof (induction arbitrary: a b rule: list_all2_induct)
  case (Cons y ys x xs)
  have front: "insort y ys = y # ys" "insort x xs = x # xs"
    using Cons.prems by (simp_all add: insort_is_Cons)
  show ?case
    using Cons.IH [of y b] Cons.IH [of a x] Cons.IH [of a b] Cons.prems Cons.hyps unfolding front by fastforce
qed simp

lemma sort_list_all2: "list_all2 (\<le>) ys xs \<Longrightarrow> list_all2 (\<le>) (sort ys) (sort xs)"
  by (induction rule: list_all2_induct) (simp_all add: insort_list_all2)

lemma sort_nth_mono: "list_all2 (\<le>) ys xs \<Longrightarrow> i < length xs \<Longrightarrow> sort ys ! i \<le> sort xs ! i"
  using sort_list_all2 [THEN list_all2_nthD2] by fastforce

lemma percentile_at_positions:
  assumes "0 < n" and "n \<le> 2 ^ 53" and "0 \<le> q" and "q \<le> 1"
  obtains low high u v where "low < n" "high < n" "0 \<le> u" "u \<le> 1" "0 \<le> v" "v \<le> 1"
    and "\<And>zs. length zs = n \<Longrightarrow> percentile_at zs q = Some (if low = high then sort zs ! low
      else fl (fl (sort zs ! low * u) + fl (sort zs ! high * v)))"
proof (cases "n = 1")
  case True
  have "percentile_at zs q = Some (sort zs ! 0)" if "length zs = n" for zs
    using that True by (auto simp: percentile_at_def length_Suc_conv)
  then show thesis using that [of 0 0 0 0] True by simp
next
  case False
  define r where "r = fl (of_nat (n - 1) * q)"
  have "of_nat (n - 1) * q \<le> of_nat (n - 1)" using assms(4) by (simp add: mult_left_le)
  then have r: "0 \<le> r" "r \<le> of_nat (n - 1)"
    unfolding r_def using assms(2,3) by (auto intro!: double.rnd_nonneg double.rnd_le_nat)
  let ?low = "nat \<lfloor>r\<rfloor>" and ?high = "nat \<lceil>r\<rceil>" and ?v = "fl (r - of_nat (nat \<lfloor>r\<rfloor>))"
  have "\<lceil>r\<rceil> \<le> int (n - 1)" using r(2) by (simp add: ceiling_le_iff)
  then have high: "?high < n" using assms(1) by linarith
  then have low: "?low < n" using floor_le_ceiling [of r] by linarith
  have "of_nat ?low \<le> r" "r - of_nat ?low \<le> 1" using r(1) by (simp_all, linarith+)
  then have v: "0 \<le> ?v" "?v \<le> 1"
    using double.rnd_nonneg [of "r - of_nat ?low"] double.rnd_le_nat [of "r - of_nat ?low" 1] by simp_all
  then have u: "0 \<le> fl (1 - ?v)" "fl (1 - ?v) \<le> 1"
    using double.rnd_nonneg [of "1 - ?v"] double.rnd_le_nat [of "1 - ?v" 1] by simp_all
  have at: "percentile_at zs q = Some (if ?low = ?high then sort zs ! ?low
      else fl (fl (sort zs ! ?low * fl (1 - ?v)) + fl (sort zs ! ?high * ?v)))" if zs: "length zs = n" for zs
  proof -
    have len: "length (sort zs) = n" using zs by simp
    then obtain x y ys where xs: "sort zs = x # y # ys" using False assms(1) by (cases "sort zs" rule: remdups_adj.cases) auto
    have "percentile_at zs q = (case x # y # ys of [] \<Rightarrow> None | [x] \<Rightarrow> Some x | ordered \<Rightarrow>
      (let rank = fl (of_nat (length ordered - 1) * q); low = nat \<lfloor>rank\<rfloor>; high = nat \<lceil>rank\<rceil>; weight = fl (rank - of_nat low)
       in Some (if low = high then ordered ! low
            else fl (fl (ordered ! low * fl (1 - weight)) + fl (ordered ! high * weight)))))"
      unfolding percentile_at_def xs ..
    then show ?thesis by (simp only: list.case Let_def len [unfolded xs] r_def [symmetric] xs)
  qed
  show thesis by (rule that [OF low high u v at])
qed

lemma percentile_at_mono:
  assumes "list_all2 (\<le>) ys xs" and "list_all (\<lambda>y. 0 \<le> y) ys" and "list_all (\<lambda>x. x \<le> 2) xs"
    and "xs \<noteq> []" "length xs \<le> 2 ^ 53" "0 \<le> q" "q \<le> 1"
  shows "\<exists>c b. percentile_at ys q = Some c \<and> percentile_at xs q = Some b \<and> c \<le> b \<and> 0 \<le> b \<and> b \<le> 4"
proof -
  let ?n = "length xs"
  have len: "length ys = ?n" using assms(1) by (rule list_all2_lengthD)
  have pos: "0 < ?n" using assms(4) by simp
  obtain low high u v where lh: "low < ?n" "high < ?n" "0 \<le> u" "u \<le> 1" "0 \<le> v" "v \<le> 1"
    and at: "\<And>zs. length zs = ?n \<Longrightarrow> percentile_at zs q = Some (if low = high then sort zs ! low
      else fl (fl (sort zs ! low * u) + fl (sort zs ! high * v)))"
    by (rule percentile_at_positions [OF pos assms(5-7)]) (rule that)
  let ?val = "\<lambda>zs. if low = high then sort zs ! low else fl (fl (sort zs ! low * u) + fl (sort zs ! high * v))"
  have mono: "sort ys ! i \<le> sort xs ! i" "0 \<le> sort ys ! i" "sort xs ! i \<le> 2" if "i < ?n" for i
    using sort_nth_mono [OF assms(1) that] assms(2,3) that len nth_mem [of i "sort xs"] nth_mem [of i "sort ys"]
    by (simp_all add: list_all_iff)
  have "?val ys \<le> ?val xs"
    using mono [OF lh(1)] mono [OF lh(2)] lh by (auto intro!: double.rnd_mono add_mono mult_right_mono)
  moreover have "0 \<le> ?val ys"
    using mono [OF lh(1)] mono [OF lh(2)] lh by (auto intro!: double.rnd_nonneg add_nonneg_nonneg)
  moreover have "?val xs \<le> 4"
  proof -
    have "fl (sort xs ! i * w) \<le> of_nat 2" if "i < ?n" "0 \<le> w" "w \<le> 1" for i w
    proof -
      have "sort xs ! i * w \<le> 2 * 1" using mono(3) [OF that(1)] that(2,3) mono(1,2) [OF that(1)] by (intro mult_mono) auto
      then show ?thesis by (intro double.rnd_le_nat) simp_all
    qed
    from this [OF lh(1,3,4)] this [OF lh(2,5,6)] have "fl (fl (sort xs ! low * u) + fl (sort xs ! high * v)) \<le> of_nat 4"
      by (intro double.rnd_le_nat) simp_all
    moreover have "sort xs ! low \<le> 4" using mono(3) [OF lh(1)] by linarith
    ultimately show ?thesis by (cases "low = high") auto
  qed
  ultimately show ?thesis using at [of xs] at [OF len] by simp
qed

lemma below_next:
  assumes "0 \<le> b" and "b \<le> 4"
  shows "b \<le> fl (b + 1)"
proof -
  let ?k = "nat \<lfloor>b\<rfloor> + 1"
  have b: "of_nat (nat \<lfloor>b\<rfloor>) \<le> b" "b < of_nat ?k" using assms(1) by (simp_all, linarith+)
  have "nat \<lfloor>b\<rfloor> \<le> 4" using assms(2) by (simp add: floor_le_iff nat_le_iff)
  then have "of_nat ?k \<le> fl (b + 1)" using b by (intro double.rnd_ge_nat) simp_all
  then show ?thesis using b by linarith
qed

lemma half_double: "m \<le> 4 \<Longrightarrow> fl (of_nat m / 2) = of_nat m / 2"
  using half_table unfolding list_all_iff by (simp del: upt_Suc)

lemma median_half:
  assumes "delay_values d \<noteq> []" and "list_all (\<lambda>x. x \<le> 2) (delay_values d)"
  shows "\<exists>m \<le> 4. median_delay d = Some (of_nat m / 2) \<and> m = sort (delay_values d) ! (length (delay_values d) div 2)
    + sort (delay_values d) ! (if odd (length (delay_values d)) then length (delay_values d) div 2 else length (delay_values d) div 2 - 1)"
proof -
  let ?xs = "delay_values d" and ?n = "length (delay_values d)"
  let ?m = "sort ?xs ! (?n div 2) + sort ?xs ! (if odd ?n then ?n div 2 else ?n div 2 - 1)"
  have small: "sort ?xs ! i \<le> 2" if "i < ?n" for i
    using assms(2) that nth_mem [of i "sort ?xs"] by (simp add: list_all_iff)
  have "?n div 2 < ?n" "?n div 2 - 1 < ?n" using assms(1) by (cases ?xs; simp)+
  then have m: "?m \<le> 4" using small [of "?n div 2"] small [of "?n div 2 - 1"] by auto
  then have "fl (of_nat ?m / 2) = of_nat ?m / 2" by (rule half_double)
  then have "median_delay d = Some (of_nat ?m / 2)"
    using assms(1) set_empty [of "sort (delay_values d)"] by (auto simp: median_delay_def Let_def add.commute)
  then show ?thesis using m by blast
qed

lemma delay_values_subset:
  assumes "\<And>k. k \<in> set ids \<Longrightarrow> delay_get d k = Some (f k)"
  shows "delay_values (subset_delays d ids) = map f (unique_fields ids)"
proof -
  have "List.map_filter snd (map (\<lambda>k. (k, delay_get d k)) ks) = map f ks" if "set ks \<subseteq> set ids" for ks
    using that by (induction ks) (simp_all add: map_filter_simps assms)
  then show ?thesis by (simp add: delay_values_def subset_delays_def unique_fields_facts)
qed

lemma merge_delays_get:
  assumes "delay_get left k = Some a"
  shows "delay_get (merge_delays left right) k = Some (case delay_get right k of None \<Rightarrow> a | Some b \<Rightarrow> min a b)"
proof -
  have k: "k \<in> set (map fst left)" using assms by (force simp: delay_get_def dest: map_of_SomeD split: bind_splits)
  have "map_of (map (\<lambda>key. (key, g key)) ks) k = (if k \<in> set ks then Some (g k) else None)"
    for g :: "string \<Rightarrow> nat option" and ks by (induction ks) auto
  then have "map_of (merge_delays left right) k = Some (Some (case delay_get right k of None \<Rightarrow> a | Some b \<Rightarrow> min a b))"
    unfolding merge_delays_def using k by (simp add: assms split: option.splits)
  then show ?thesis by (simp add: delay_get_def)
qed

lemma fused_gates:
  fixes e :: detector_evaluation
  assumes gate: "delay_gate base labels" and len: "length (cl_events labels) \<le> 64"
  defines "ids \<equiv> univariate_ids labels"
  defines "xs \<equiv> subset_delays (de_detection_delays base) ids"
    and "ys \<equiv> subset_delays (merge_delays (de_detection_delays base) (de_detection_delays e)) ids"
  shows "no_worse (median_delay xs) (median_delay ys) tolerance \<and> no_worse (p90_delay xs) (p90_delay ys) 1"
proof -
  let ?D = "de_detection_delays base" and ?F = "merge_delays (de_detection_delays base) (de_detection_delays e)"
  have ids: "ids \<noteq> []" using gate unfolding ids_def delay_gate_def by (simp add: Let_def)
  have "\<exists>a. delay_get ?D k = Some a \<and> a \<le> 2" if "k \<in> set ids" for k
    using gate that by (auto simp: ids_def delay_gate_def Let_def list_all_iff split: option.splits)
  then obtain f where f: "\<And>k. k \<in> set ids \<Longrightarrow> delay_get ?D k = Some (f k) \<and> f k \<le> 2" by metis
  define g where "g k = (case delay_get (de_detection_delays e) k of None \<Rightarrow> f k | Some b \<Rightarrow> min (f k) b)" for k
  have g: "delay_get ?F k = Some (g k)" if "k \<in> set ids" for k using merge_delays_get f [OF that] unfolding g_def by blast
  have gf: "g k \<le> f k" for k by (simp add: g_def split: option.splits)
  have vx: "delay_values xs = map f (unique_fields ids)" unfolding xs_def by (rule delay_values_subset) (simp add: f)
  have vy: "delay_values ys = map g (unique_fields ids)" unfolding ys_def by (rule delay_values_subset) (simp add: g)
  let ?n = "length (unique_fields ids)"
  have le: "list_all2 (\<le>) (map g (unique_fields ids)) (map f (unique_fields ids))"
    by (simp add: list_all2_conv_all_nth gf)
  have small: "list_all (\<lambda>x. x \<le> 2) (map f (unique_fields ids))" "list_all (\<lambda>x. x \<le> 2) (map g (unique_fields ids))"
    using f gf unique_fields_facts(1) [of ids] by (force simp: list_all_iff intro: order_trans [OF gf])+
  have ne: "unique_fields ids \<noteq> []" using ids unique_fields_facts(1) [of ids] by auto
  have n: "?n \<le> 64"
  proof -
    have "length ids \<le> length (cl_events labels)" by (simp add: ids_def univariate_ids_def)
    then show ?thesis using unique_fields_facts(2) [of ids] len by linarith
  qed
  have "no_worse (median_delay xs) (median_delay ys) tolerance"
  proof -
    let ?j = "if odd ?n then ?n div 2 else ?n div 2 - 1"
    obtain m where m: "m \<le> 4" "median_delay xs = Some (of_nat m / 2)"
        "m = sort (map f (unique_fields ids)) ! (?n div 2) + sort (map f (unique_fields ids)) ! ?j"
      using median_half [of xs] small(1) ne unfolding vx by auto
    obtain k where k: "median_delay ys = Some (of_nat k / 2)"
        "k = sort (map g (unique_fields ids)) ! (?n div 2) + sort (map g (unique_fields ids)) ! ?j"
      using median_half [of ys] small(2) ne unfolding vy by auto
    have "?n div 2 < ?n" "?j < ?n" using ne by (cases "unique_fields ids"; simp)+
    then have "k \<le> m" unfolding k(2) m(3) using sort_nth_mono [OF le] by (simp add: add_mono)
    have "of_nat k / 2 \<le> of_nat m / (2 :: rat)" using \<open>k \<le> m\<close> by simp
    also have "\<dots> = fl (of_nat m / 2)" using half_double [OF m(1)] by simp
    also have "\<dots> \<le> fl (of_nat m / 2 + tolerance)" using tolerance_bounds by (intro double.rnd_mono) simp
    finally show ?thesis using m(2) k(1) by (simp add: no_worse_def)
  qed
  moreover have "no_worse (p90_delay xs) (p90_delay ys) 1"
  proof -
    let ?q = "fl (90 / 100)"
    have q: "0 \<le> ?q" "?q \<le> 1" using double.rnd_nonneg [of "90 / 100"] double.rnd_le_nat [of "90 / 100" 1] by simp_all
    have le': "list_all2 (\<le>) (map (\<lambda>k. of_nat (g k)) (unique_fields ids)) (map (\<lambda>k. of_nat (f k) :: rat) (unique_fields ids))"
      by (simp add: list_all2_conv_all_nth gf)
    obtain c b where cb: "p90_delay ys = Some c" "p90_delay xs = Some b" "c \<le> b" "0 \<le> b" "b \<le> 4"
      using percentile_at_mono [OF le', of ?q] small(1) ne n q unfolding p90_delay_def vx vy
      by (auto simp: list_all_iff comp_def)
    then show ?thesis using below_next [of b] by (simp add: no_worse_def)
  qed
  ultimately show ?thesis ..
qed

text \<open>C35: two of the eight gates decide nothing. The challenger's delays are compared after fusing them with the baseline's
  (the smaller of the two for each event), so when every univariate event is detected by the baseline in time, as the delay
  gate demands, the fused median and ninetieth percentile cannot exceed the baseline's: all gates pass exactly when the
  other six do.\<close>

theorem delay_comparisons_redundant:
  assumes "compare_detectors rg windows labels baseline challenger digest challenger_digest cohort = Inr report"
    and "length (cl_events labels) \<le> 64"
  shows "all_passed (er_gates report) = (gr_baseline_precision_floor (er_gates report)
    \<and> gr_baseline_beats_null (er_gates report) \<and> gr_detection_delay (er_gates report)
    \<and> gr_challenger_precision_lift (er_gates report) \<and> gr_lift_ci_excludes_zero (er_gates report)
    \<and> gr_alert_rate_regression (er_gates report))"
proof -
  obtain nulls where "(er_challenger report = None \<and> er_gates report = gates_for (er_null_detector report) (er_baseline report) None labels)
      \<or> (\<exists>scores d e low. summarize_detector scores windows labels ''isolation_forest'' d = Inr e
          \<and> er_challenger report = Some (with_fused_delays (er_baseline report) e labels)
          \<and> er_gates report = gates_for (er_null_detector report) (er_baseline report)
              (Some (e, fl (de_precision_at_k e - de_precision_at_k (er_baseline report)), low)) labels)"
    by (rule compare_parts [OF assms(1)])
  then show ?thesis
  proof (elim disjE exE conjE)
    fix e low
    assume g: "er_gates report = gates_for (er_null_detector report) (er_baseline report)
              (Some (e, fl (de_precision_at_k e - de_precision_at_k (er_baseline report)), low)) labels"
    show ?thesis using fused_gates [OF _ assms(2), of "er_baseline report" e]
      by (auto simp: g gates_for_def all_passed_def with_fused_delays_def Let_def)
  qed (simp add: gates_for_def all_passed_def Let_def)
qed

section \<open>A report is always produced\<close>

lemma rate_nonneg: "0 \<le> rate_or_zero a b"
  by (auto simp: rate_or_zero_def intro: double.rnd_nonneg)

lemma summarize_total:
  assumes "is_sha256_hex digest" and "len_in 1 64 detector"
  shows "\<exists>e. summarize_detector scores windows labels detector digest = Inr e"
proof -
  let ?p = "precision_at_k scores labels top_k (set (cl_new_endpoints labels))"
  have ids: "length (snd ?p) \<le> 5" unfolding precision_ids by simp
  have "length (filter (\<lambda>e. e \<in> true_event_endpoints labels) (snd ?p)) \<le> 5"
    by (rule order_trans [OF length_filter_le ids])
  then have "of_nat (length (filter (\<lambda>e. e \<in> true_event_endpoints labels) (snd ?p))) / 5 \<le> (of_nat 1 :: rat)" by simp
  then have "fst ?p \<le> of_nat 1" unfolding precision_value using double.rnd_le_nat [of _ 1] by simp
  moreover have "0 \<le> fst ?p" unfolding precision_value by (simp add: double.rnd_nonneg)
  moreover obtain a b c d where r: "alert_rates scores windows labels = (a, b, c, d)" by (cases "alert_rates scores windows labels")
  moreover from this have "0 \<le> a" "0 \<le> b" "0 \<le> c"
    by (auto simp: alert_rates_def Let_def rate_nonneg split: if_splits intro!: double.rnd_nonneg divide_nonneg_nonneg)
  ultimately show ?thesis using ids assms
    by (simp add: summarize_detector_def r case_prod_beta detector_evaluation_ok_def Let_def)
qed

lemma null_scores_total:
  assumes "list_all endpoint_window_ok windows"
  shows "\<exists>ss. null_scores rg windows = Inr ss"
proof -
  have c: "len_in 1 1000 ''null ranking; not an advisory output''" "is_sha256_hex null_digest" "len_in 1 64 ''null''" by code_simp+
  have "\<exists>y. (\<lambda>(i, w). null_score rg i w) x = Inr y" if "x \<in> set (zip [0..<length windows] windows)" for x
  proof -
    obtain i w where x: "x = (i, w)" by (cases x)
    then have "endpoint_window_ok w" using that assms by (auto simp: list_all_iff dest: set_zip_rightD)
    then have "len_in 1 160 (ew_endpoint_id w)" by (simp add: endpoint_window_ok_def)
    then show ?thesis using c score_constants
      by (simp add: x null_score_def mk_window_score_def Let_def window_score_ok_def percentile_ok_def)
  qed
  then show ?thesis unfolding null_scores_def using mapE_ok by blast
qed

lemma compare_detectors_total:
  assumes "list_all endpoint_window_ok windows" and "is_sha256_hex digest" and "opt_ok is_sha256_hex challenger_digest"
    and "len_in 1 80 cohort"
  shows "\<exists>report. compare_detectors rg windows labels baseline challenger digest challenger_digest cohort = Inr report"
proof -
  have c: "is_sha256_hex null_digest" "len_in 1 64 ''null''" "len_in 1 64 ''baseline''" "len_in 1 64 ''isolation_forest''" by code_simp+
  obtain nulls where n: "null_scores rg windows = Inr nulls" using null_scores_total [OF assms(1)] by blast
  obtain ne where ne: "summarize_detector nulls windows labels ''null'' null_digest = Inr ne" using summarize_total [OF c(1,2)] by blast
  obtain be where be: "summarize_detector baseline windows labels ''baseline'' digest = Inr be"
    using summarize_total [OF assms(2) c(3)] by blast
  obtain r where "challenger_summary rg windows labels baseline be challenger challenger_digest = Inr r"
  proof (cases "challenger = None \<or> challenger_digest = None")
    case True
    then have "challenger_summary rg windows labels baseline be challenger challenger_digest = Inr None"
      by (auto simp: challenger_summary_def split: option.split)
    then show thesis by (rule that)
  next
    case False
    then obtain scores d where cd: "challenger = Some scores" "challenger_digest = Some d" by auto
    then obtain e where "summarize_detector scores windows labels ''isolation_forest'' d = Inr e"
      using summarize_total [OF _ c(4)] assms(3) by fastforce
    then show thesis using that cd by (cases "paired_bootstrap_lift rg baseline scores labels") (simp add: challenger_summary_def)
  qed
  then show ?thesis using assms(4) by (simp add: compare_detectors_def n ne be)
qed

section \<open>Witnesses\<close>

definition sample_random :: random_source where
  "sample_random = \<lparr>rg_random = (\<lambda>i. 1 / 2), rg_range = (\<lambda>i n. 0)\<rparr>"

definition sample_labels :: cohort_labels where
  "sample_labels = \<lparr>cl_events = [\<lparr>sv_event_id = ''ev'', sv_family = ''tls'', sv_kind = AK_UNIVARIATE, sv_endpoint_id = ''e'',
     sv_start_day = 30, sv_end_day = 33\<rparr>], cl_maintenance = [], cl_jitter_endpoints = [], cl_new_endpoints = []\<rparr>"

definition sample_score :: "string \<Rightarrow> nat \<Rightarrow> rat \<Rightarrow> window_score" where
  "sample_score endpoint day x = \<lparr>ws_endpoint_id = endpoint, ws_day_index = day, ws_detector = ''baseline'', ws_score = x,
     ws_threshold = 4, ws_above_threshold = (4 \<le> x), ws_suppressed = False, ws_skip_reason = None, ws_percentile = None,
     ws_contributions = [], ws_reason = ''r'', ws_model_digest = null_digest, ws_feature_schema_version = ''v''\<rparr>"

definition sample_scores :: "window_score list" where
  "sample_scores = [sample_score ''e'' 30 2, sample_score ''e'' 31 5, sample_score ''f'' 30 1]"

lemma sample_compared:
  "\<exists>report. compare_detectors sample_random sample_windows sample_labels sample_scores (Some sample_scores) null_digest
    (Some null_digest) ''cohort'' = Inr report"
proof -
  have "is_sha256_hex null_digest" "len_in 1 80 ''cohort''" by code_simp+
  then show ?thesis by (intro compare_detectors_total sample_windows_ok) (simp_all add: opt_ok_def)
qed

lemma sample_detected: "detected_in_time sample_scores (hd (cl_events sample_labels))"
  by (simp add: detected_in_time_def sample_scores_def sample_labels_def sample_score_def)

theorem ranking_is_top_five_witness:
  "\<exists>e. summarize_detector sample_scores sample_windows sample_labels ''baseline'' null_digest = Inr e
    \<and> distinct (de_ranked_endpoint_ids e) \<and> length (de_ranked_endpoint_ids e) \<le> 5
    \<and> (\<forall>s \<in> set (eligible_scores sample_scores). ws_endpoint_id s \<notin> set (de_ranked_endpoint_ids e)
        \<longrightarrow> length (de_ranked_endpoint_ids e) = 5)"
proof -
  have "is_sha256_hex null_digest" "len_in 1 64 ''baseline''" by code_simp+
  then obtain e where "summarize_detector sample_scores sample_windows sample_labels ''baseline'' null_digest = Inr e"
    using summarize_total by blast
  then show ?thesis using ranking_is_top_five by (fastforce simp: sample_labels_def)
qed

theorem gates_count_events_witness:
  "\<exists>report. compare_detectors sample_random sample_windows sample_labels sample_scores (Some sample_scores) null_digest
      (Some null_digest) ''cohort'' = Inr report
    \<and> gr_detection_delay (er_gates report)
    \<and> gr_baseline_precision_floor (er_gates report) = (3 \<le> hits sample_labels (er_baseline report))"
proof -
  obtain report where r: "compare_detectors sample_random sample_windows sample_labels sample_scores (Some sample_scores)
      null_digest (Some null_digest) ''cohort'' = Inr report" using sample_compared by blast
  have "distinct (map sv_event_id (cl_events sample_labels))"
    "distinct (map (\<lambda>s. (ws_endpoint_id s, ws_day_index s)) sample_scores)"
    by (simp_all add: sample_labels_def sample_scores_def sample_score_def)
  note gates_count_events [OF r this]
  moreover have "\<exists>event \<in> set (cl_events sample_labels). sv_kind event = AK_UNIVARIATE"
    "\<forall>event \<in> set (cl_events sample_labels). detected_in_time sample_scores event"
    using sample_detected by (simp_all add: sample_labels_def)
  ultimately show ?thesis using r by blast
qed

theorem delay_comparisons_redundant_witness:
  "\<exists>report. compare_detectors sample_random sample_windows sample_labels sample_scores (Some sample_scores) null_digest
      (Some null_digest) ''cohort'' = Inr report
    \<and> all_passed (er_gates report) = (gr_baseline_precision_floor (er_gates report)
    \<and> gr_baseline_beats_null (er_gates report) \<and> gr_detection_delay (er_gates report)
    \<and> gr_challenger_precision_lift (er_gates report) \<and> gr_lift_ci_excludes_zero (er_gates report)
    \<and> gr_alert_rate_regression (er_gates report))"
proof -
  obtain report where r: "compare_detectors sample_random sample_windows sample_labels sample_scores (Some sample_scores)
      null_digest (Some null_digest) ''cohort'' = Inr report" using sample_compared by blast
  have "length (cl_events sample_labels) \<le> 64" by (simp add: sample_labels_def)
  from delay_comparisons_redundant [OF r this] show ?thesis using r by blast
qed

end
