(* ===== verification/Analyzers.thy ===== *)
theory Analyzers
  imports Analysis
begin

text \<open>
  The analyzer adapters (\<open>adapters/analyzers\<close>): the lock file that pins images and scripts (\<open>bundle_lock.py\<close>), the
  command lines of the sandboxed containers (\<open>sandbox.py\<close>) and the runners of Zeek and TShark (\<open>zeek_runner.py\<close>,
  \<open>tshark_runner.py\<close>) with the readers of their output.

  What a runner finds is the record \<open>host\<close>: the lock file, the \<open>zeek\<close> directory, the Dockerfile, the \<open>docker\<close>
  executable as a function from command lines to outcomes, and the codecs \<open>json.loads\<close>, \<open>bytes.decode\<close> and \<open>str\<close>. A
  runner returns the command lines it executed, in order, with its result. Paths are resolved. Both subclasses of
  \<open>AnalyzerError\<close> are the value \<^const>\<open>AnalyzerError\<close>; exceptions of the library without a value of their own, such as
  \<open>csv.Error\<close>, are \<^const>\<open>ForeignError\<close>.
\<close>

section \<open>Calls\<close>

type_synonym 'a traced = "string list list \<times> 'a result"

definition liftT :: "'a result \<Rightarrow> 'a traced" where
  "liftT r = ([], r)"

definition bindT :: "'a traced \<Rightarrow> ('a \<Rightarrow> 'b traced) \<Rightarrow> 'b traced" where
  "bindT m f = (case m of (calls, Inl e) \<Rightarrow> (calls, Inl e) | (calls, Inr a) \<Rightarrow> (case f a of (later, r) \<Rightarrow> (calls @ later, r)))"

section \<open>The sandbox (sandbox.py)\<close>

definition sandbox_user :: string where "sandbox_user = ''65532:65532''"
definition zeek_image_digest :: string where
  "zeek_image_digest = ''sha256:73e80e9cd23ff71fd28d158e9a9af5c7b2b0ef5d4036af61521827531347c0e3''"
definition zeek_local_image :: string where "zeek_local_image = ''securemail/zeek:step0''"
definition tshark_local_image :: string where "tshark_local_image = ''securemail/tshark:step0''"
definition max_output_bytes :: nat where "max_output_bytes = 50 * 1024 * 1024"

definition sandbox_docker_flags :: "string list" where
  "sandbox_docker_flags = [''--network=none'', ''--read-only'', ''--user'', sandbox_user, ''--cap-drop=ALL'', ''--security-opt'',
     ''no-new-privileges'', ''--pids-limit'', ''256'', ''--memory'', ''2g'', ''--memory-swap'', ''2g'', ''--cpus'', ''2'', ''--tmpfs'',
     ''/tmp:rw,nosuid,nodev,size=64m'']"

definition shell_tokens :: "string list" where
  "shell_tokens = ['' && '', '' | '', '';'', ''$('', ''`'']"

definition assert_fixed_argv :: "string list \<Rightarrow> unit result" where
  "assert_fixed_argv argv =
    (if list_ex (\<lambda>part. part = []) argv then Inl ValueError
     else if list_ex (\<lambda>token. py_substring token (py_join '' '' argv)) shell_tokens then Inl ValueError
     else Inr ())"

section \<open>The host\<close>

datatype outcome = TimedOut | Exited int bytes

record certificate_file =
  cf_name :: string
  cf_resolved_name :: string
  cf_inside :: bool \<comment> \<open>the resolved path is below the directory of certificates\<close>
  cf_payload :: bytes

record output_dir =
  od_files :: "(string, bytes) dict"
  od_certs :: "certificate_file list option"

record host =
  hs_loads :: "string \<Rightarrow> json result"
  hs_decode :: "bytes \<Rightarrow> string result"
  hs_decode_replace :: "bytes \<Rightarrow> string"
  hs_str :: "json \<Rightarrow> string" \<comment> \<open>\<open>str\<close> of a value that is not a string\<close>
  hs_docker :: string
  hs_lock :: "bytes option"
  hs_zeek_tree :: "(string, bytes) dict" \<comment> \<open>the files below \<open>zeek\<close>, by relative path\<close>
  hs_dockerfile :: "bytes option"
  hs_exec :: "string list \<Rightarrow> outcome"
  hs_output :: "string list \<Rightarrow> output_dir"

definition execT :: "host \<Rightarrow> string list \<Rightarrow> outcome traced" where
  "execT hs argv = ([argv], Inr (hs_exec hs argv))"

fun json_str :: "host \<Rightarrow> json \<Rightarrow> string" where
  "json_str hs (JStr s) = s"
| "json_str hs v = hs_str hs v"

section \<open>The lock (bundle\_lock.py)\<close>

record bundle_lock =
  bl_zeek_image_digest :: string
  bl_tshark_image_digest :: string
  bl_zeek_bundle_sha256 :: string

fun has_key :: "json \<Rightarrow> string \<Rightarrow> bool result" where
  \<comment> \<open>\<open>key in payload\<close>\<close>
  "has_key (JObj r) key = Inr (map_of r key \<noteq> None)"
| "has_key (JList xs) key = Inr (list_ex (py_eq (JStr key)) xs)"
| "has_key (JStr s) key = Inr (py_substring key s)"
| "has_key v key = Inl TypeError"

fun get_item :: "json \<Rightarrow> string \<Rightarrow> json result" where
  \<comment> \<open>\<open>payload[key]\<close>\<close>
  "get_item (JObj r) key = (case map_of r key of None \<Rightarrow> Inl KeyError | Some v \<Rightarrow> Inr v)"
| "get_item v key = Inl TypeError"

definition lock_of_payload :: "host \<Rightarrow> json \<Rightarrow> bundle_lock result" where
  "lock_of_payload hs payload =
    bindE (mapE (has_key payload) [''zeek_image_digest'', ''tshark_image_digest'', ''zeek_bundle_sha256'']) (\<lambda>present.
    if \<not> list_all id present then Inl AnalyzerError
    else bindE (get_item payload ''zeek_image_digest'') (\<lambda>zeek.
      bindE (get_item payload ''tshark_image_digest'') (\<lambda>tshark.
      bindE (get_item payload ''zeek_bundle_sha256'') (\<lambda>bundle.
      Inr \<lparr>bl_zeek_image_digest = json_str hs zeek, bl_tshark_image_digest = json_str hs tshark,
           bl_zeek_bundle_sha256 = json_str hs bundle\<rparr>))))"

definition read_lock :: "host \<Rightarrow> bytes result" where
  "read_lock hs = (case hs_lock hs of None \<Rightarrow> Inl FileNotFoundError | Some raw \<Rightarrow> Inr raw)"

definition load_bundle_lock :: "host \<Rightarrow> bundle_lock result" where
  "load_bundle_lock hs = bindE (read_lock hs) (\<lambda>raw. bindE (hs_decode hs raw) (\<lambda>text. bindE (hs_loads hs text) (lock_of_payload hs)))"

definition digest_lockfile_bytes :: "host \<Rightarrow> string result" where
  "digest_lockfile_bytes hs = bindE (read_lock hs) (\<lambda>raw. Inr (sha256_bytes raw))"

definition tree_stream :: "(string, bytes) dict \<Rightarrow> bytes" where
  "tree_stream files = concat (map (\<lambda>(path, content). utf8_bytes path @ [0] @ content @ [0])
     (sort_key (\<lambda>(path, content). py_split CHR ''/'' path) files))"

definition hash_directory_tree :: "(string, bytes) dict \<Rightarrow> string" where
  "hash_directory_tree files = sha256_bytes (tree_stream files)"

definition verify_lock :: "bundle_lock \<Rightarrow> string \<Rightarrow> string \<Rightarrow> unit result" where
  "verify_lock lock zeek_bundle_sha256 tshark_image_digest =
    (if bl_zeek_bundle_sha256 lock \<noteq> zeek_bundle_sha256 then Inl AnalyzerError
     else if bl_tshark_image_digest lock \<noteq> tshark_image_digest then Inl AnalyzerError
     else if bl_zeek_image_digest lock \<noteq> zeek_image_digest then Inl AnalyzerError
     else Inr ())"

section \<open>Zeek (zeek\_runner.py)\<close>

definition mount_capture :: "string \<Rightarrow> string" where
  "mount_capture capture = ''type=bind,src='' @ capture @ '',dst=/data/capture.pcapng,readonly=true''"

definition mount_output :: "string \<Rightarrow> string" where
  "mount_output output = ''type=bind,src='' @ output @ '',dst=/data/out''"

definition checked_argv :: "string list \<Rightarrow> string list result" where
  "checked_argv command = bindE (assert_fixed_argv command) (\<lambda>_. Inr command)"

definition zeek_argv :: "host \<Rightarrow> string \<Rightarrow> string \<Rightarrow> string list result" where
  "zeek_argv hs capture output = checked_argv
    ([hs_docker hs, ''run'', ''--rm''] @ sandbox_docker_flags @
     [''--workdir'', ''/data/out'', ''--mount'', mount_capture capture, ''--mount'', mount_output output, zeek_local_image, ''zeek'',
      ''-C'', ''-D'', ''-r'', ''/data/capture.pcapng'', ''LogAscii::use_json=T'', ''/opt/securemail/zeek/site/__load__.zeek''])"

definition label_of :: "host \<Rightarrow> json_row \<Rightarrow> string \<Rightarrow> string" where
  \<comment> \<open>\<open>str(labels.get(key) or "")\<close>\<close>
  "label_of hs labels key = (let v = row_get labels key in
     if v \<in> {JNull, JBool False, JInt 0, JFloat 0, JStr [], JList [], JObj []} then [] else json_str hs v)"

definition assert_image_labels :: "host \<Rightarrow> string \<Rightarrow> unit traced" where
  "assert_image_labels hs expected =
    bindT (execT hs [hs_docker hs, ''image'', ''inspect'', zeek_local_image, ''--format'', ''{{json .Config.Labels}}'']) (\<lambda>r. liftT (case r of
      TimedOut \<Rightarrow> Inl ForeignError
    | Exited code out \<Rightarrow>
        if code \<noteq> 0 then Inl AnalyzerError
        else (let rendered = py_strip (hs_decode_replace hs out) in
          bindE (if rendered = [] then Inr (JObj []) else hs_loads hs rendered) (\<lambda>parsed.
          let labels = (case parsed of JObj row \<Rightarrow> row | _ \<Rightarrow> []);
              bundle = label_of hs labels ''securemail.zeek_bundle_sha256'';
              base = label_of hs labels ''securemail.zeek_base_digest''
          in if bundle = [] \<or> base = [] then Inl AnalyzerError
             else if bundle \<noteq> expected then Inl AnalyzerError
             else if base \<noteq> zeek_image_digest then Inl AnalyzerError
             else Inr ()))))"

text \<open>\<open>data.splitlines()\<close> and \<open>line.strip()\<close> of bytes.\<close>

fun byte_lines_aux :: "bytes \<Rightarrow> bytes \<Rightarrow> bytes list" where
  "byte_lines_aux acc [] = (if acc = [] then [] else [rev acc])"
| "byte_lines_aux acc (b # bs) =
    (if b = 10 then rev acc # byte_lines_aux [] bs
     else if b = 13 then (case bs of c # cs \<Rightarrow> if c = 10 then rev acc # byte_lines_aux [] cs else rev acc # byte_lines_aux [] bs
                          | [] \<Rightarrow> [rev acc])
     else byte_lines_aux (b # acc) bs)"

definition byte_lines :: "bytes \<Rightarrow> bytes list" where
  "byte_lines data = byte_lines_aux [] data"

definition blank_line :: "bytes \<Rightarrow> bool" where
  "blank_line line = list_all (\<lambda>b. 9 \<le> b \<and> b \<le> 13 \<or> b = 32) line"

definition zeek_log_rows :: "host \<Rightarrow> bytes \<Rightarrow> json list result" where
  "zeek_log_rows hs data =
    bindE (mapE (\<lambda>line. bindE (hs_decode hs line) (hs_loads hs)) (filter (\<lambda>line. \<not> blank_line line) (byte_lines data))) (\<lambda>parsed.
    Inr (filter (\<lambda>v. case v of JObj _ \<Rightarrow> True | _ \<Rightarrow> False) parsed))"

definition read_log_step :: "host \<Rightarrow> string \<times> bytes \<Rightarrow> (string, json) dict \<times> nat \<Rightarrow> ((string, json) dict \<times> nat) result" where
  "read_log_step hs entry acc = (case (entry, acc) of ((name, data), (logs, consumed)) \<Rightarrow>
     if max_output_bytes < consumed + length data then Inl AnalyzerError
     else bindE (zeek_log_rows hs data) (\<lambda>rows. Inr (AList.update name (JList rows) logs, consumed + length data)))"

definition read_zeek_json_logs :: "host \<Rightarrow> output_dir \<Rightarrow> ((string, json) dict \<times> nat) result" where
  "read_zeek_json_logs hs od =
    foldE (read_log_step hs) (sort_key fst (filter (\<lambda>(name, data). py_endswith name ''.log'') (od_files od))) ([], 0)"

definition path_stem :: "string \<Rightarrow> string" where
  \<comment> \<open>\<open>PurePath.stem\<close> of a final component\<close>
  "path_stem name = (let stem = before_last CHR ''.'' name in
     if CHR ''.'' \<in> set name \<and> stem \<noteq> [] \<and> last name \<noteq> CHR ''.'' then stem else name)"

definition read_certificate_step :: "certificate_file \<Rightarrow> extracted_certificate list \<times> nat \<Rightarrow> (extracted_certificate list \<times> nat) result" where
  "read_certificate_step f acc = (case acc of (found, consumed) \<Rightarrow>
     if \<not> cf_inside f then Inl AnalyzerError
     else if max_certificate_der_bytes < length (cf_payload f) then Inl AnalyzerError
     else if max_output_bytes < consumed + length (cf_payload f) then Inl AnalyzerError
     else Inr (found @ [\<lparr>xt_sha256 = sha256_bytes (cf_payload f),
            xt_fuid = (let stem = path_stem (cf_resolved_name f) in if stem = [] then None else Some stem),
            xt_payload = cf_payload f\<rparr>], consumed + length (cf_payload f)))"

definition read_extracted_certificates :: "output_dir \<Rightarrow> nat \<Rightarrow> extracted_certificate list result" where
  "read_extracted_certificates od consumed_bytes = (case od_certs od of
     None \<Rightarrow> Inr []
   | Some files \<Rightarrow>
       if max_certificates_per_run < length files then Inl AnalyzerError
       else bindE (foldE read_certificate_step (sort_key cf_name files) ([], consumed_bytes)) (\<lambda>(found, consumed). Inr found))"

definition completed :: "outcome \<Rightarrow> bytes result" where
  \<comment> \<open>a timeout and a non-zero exit code raise\<close>
  "completed r = (case r of TimedOut \<Rightarrow> Inl AnalyzerError | Exited code out \<Rightarrow> if code \<noteq> 0 then Inl AnalyzerError else Inr out)"

definition zeek_run :: "host \<Rightarrow> string \<Rightarrow> string \<Rightarrow> zeek_run_result traced" where
  "zeek_run hs capture output =
    bindT (liftT (load_bundle_lock hs)) (\<lambda>lock.
    if hash_directory_tree (hs_zeek_tree hs) \<noteq> bl_zeek_bundle_sha256 lock then liftT (Inl AnalyzerError)
    else if bl_zeek_image_digest lock \<noteq> zeek_image_digest then liftT (Inl AnalyzerError)
    else bindT (assert_image_labels hs (bl_zeek_bundle_sha256 lock)) (\<lambda>_.
    bindT (liftT (digest_lockfile_bytes hs)) (\<lambda>bundle_digest.
    bindT (liftT (zeek_argv hs capture output)) (\<lambda>command.
    bindT (execT hs command) (\<lambda>r.
    liftT (bindE (completed r) (\<lambda>_.
      bindE (read_zeek_json_logs hs (hs_output hs command)) (\<lambda>(logs, consumed).
      bindE (read_extracted_certificates (hs_output hs command) consumed) (\<lambda>extracted.
      Inr \<lparr>zr_image_digest = zeek_image_digest, zr_analyzer_bundle_digest = bundle_digest, zr_logs = logs,
           zr_extracted = extracted\<rparr>)))))))))"

section \<open>Reading CSV (the dialect \<open>excel\<close> of the module csv)\<close>

datatype csv_phase = START_RECORD | START_FIELD | IN_FIELD | IN_QUOTED_FIELD | QUOTE_IN_QUOTED_FIELD | EAT_CRNL

record csv_state =
  cs_phase :: csv_phase
  cs_field :: string \<comment> \<open>the characters of the field, latest first\<close>
  cs_fields :: "string list" \<comment> \<open>the fields of the record, latest first\<close>

abbreviation csv_field_limit :: nat where "csv_field_limit \<equiv> 131072"

definition csv_start :: csv_state where
  "csv_start = \<lparr>cs_phase = START_RECORD, cs_field = [], cs_fields = []\<rparr>"

definition csv_add :: "csv_phase \<Rightarrow> char \<Rightarrow> csv_state \<Rightarrow> csv_state result" where
  "csv_add phase c st = (if csv_field_limit \<le> length (cs_field st) then Inl ForeignError
     else Inr (st\<lparr>cs_phase := phase, cs_field := c # cs_field st\<rparr>))"

definition csv_save :: "csv_phase \<Rightarrow> csv_state \<Rightarrow> csv_state" where
  "csv_save phase st = \<lparr>cs_phase = phase, cs_field = [], cs_fields = rev (cs_field st) # cs_fields st\<rparr>"

definition is_newline :: "char \<Rightarrow> bool" where
  "is_newline c = (c = CHR 0x0A \<or> c = CHR 0x0D)"

definition csv_start_field :: "char \<Rightarrow> csv_state \<Rightarrow> csv_state result" where
  "csv_start_field c st =
    (if is_newline c then Inr (csv_save EAT_CRNL st)
     else if c = CHR 0x22 then Inr (st\<lparr>cs_phase := IN_QUOTED_FIELD\<rparr>)
     else if c = CHR '','' then Inr (csv_save START_FIELD st)
     else csv_add IN_FIELD c st)"

definition csv_char :: "char \<Rightarrow> csv_state \<Rightarrow> csv_state result" where
  "csv_char c st = (case cs_phase st of
     START_RECORD \<Rightarrow> if is_newline c then Inr (st\<lparr>cs_phase := EAT_CRNL\<rparr>) else csv_start_field c st
   | START_FIELD \<Rightarrow> csv_start_field c st
   | IN_FIELD \<Rightarrow>
       if is_newline c then Inr (csv_save EAT_CRNL st)
       else if c = CHR '','' then Inr (csv_save START_FIELD st)
       else csv_add IN_FIELD c st
   | IN_QUOTED_FIELD \<Rightarrow>
       if c = CHR 0x22 then Inr (st\<lparr>cs_phase := QUOTE_IN_QUOTED_FIELD\<rparr>) else csv_add IN_QUOTED_FIELD c st
   | QUOTE_IN_QUOTED_FIELD \<Rightarrow>
       if c = CHR 0x22 then csv_add IN_QUOTED_FIELD c st
       else if c = CHR '','' then Inr (csv_save START_FIELD st)
       else if is_newline c then Inr (csv_save EAT_CRNL st)
       else csv_add IN_FIELD c st
   | EAT_CRNL \<Rightarrow> if is_newline c then Inr st else Inl ForeignError)"

definition csv_end_line :: "csv_state \<Rightarrow> csv_state" where
  \<comment> \<open>the end of a line, after its characters\<close>
  "csv_end_line st = (case cs_phase st of
     START_RECORD \<Rightarrow> st
   | START_FIELD \<Rightarrow> csv_save START_RECORD st
   | IN_FIELD \<Rightarrow> csv_save START_RECORD st
   | IN_QUOTED_FIELD \<Rightarrow> st
   | QUOTE_IN_QUOTED_FIELD \<Rightarrow> csv_save START_RECORD st
   | EAT_CRNL \<Rightarrow> st\<lparr>cs_phase := START_RECORD\<rparr>)"

definition csv_line :: "string \<Rightarrow> csv_state \<times> string list list \<Rightarrow> (csv_state \<times> string list list) result" where
  \<comment> \<open>one line, with its newline; a finished record is added to the rows\<close>
  "csv_line line acc = (case acc of (st, rows) \<Rightarrow>
     bindE (foldE csv_char line st) (\<lambda>st. let st = csv_end_line st in
     if cs_phase st = START_RECORD then Inr (csv_start, rows @ [rev (cs_fields st)]) else Inr (st, rows)))"

fun text_lines :: "string list \<Rightarrow> string list" where
  \<comment> \<open>the lines of a text split at newlines, each with its newline\<close>
  "text_lines [] = []"
| "text_lines [x] = (if x = [] then [] else [x])"
| "text_lines (x # y # ys) = (x @ [CHR 0x0A]) # text_lines (y # ys)"

definition csv_rows :: "string \<Rightarrow> string list list result" where
  \<comment> \<open>a record left open at the end of the text is closed\<close>
  "csv_rows text = bindE (foldE csv_line (text_lines (py_split CHR 0x0A text)) (csv_start, [])) (\<lambda>(st, rows).
     Inr (if cs_field st \<noteq> [] \<or> cs_phase st = IN_QUOTED_FIELD then rows @ [rev (cs_fields (csv_save START_RECORD st))] else rows))"

section \<open>TShark (tshark\_runner.py)\<close>

definition tshark_fields :: "string list" where
  "tshark_fields = [''frame.number'', ''frame.time_epoch'', ''ip.src'', ''ip.dst'', ''ipv6.src'', ''ipv6.dst'', ''tcp.srcport'',
     ''tcp.dstport'', ''imap.request.command'', ''imap.response.status'', ''imap.tag'', ''imap.isrequest'', ''pop.request.command'',
     ''pop.response.indicator'', ''smtp.req.command'', ''smtp.response.code'', ''tls.handshake.type'',
     ''tls.handshake.extensions_key_share_selected_group'', ''tls.handshake.sig_hash_alg'']"

definition tshark_display_filter :: string where
  "tshark_display_filter = ''smtp or imap or pop or tls.handshake''"

definition tshark_command :: "string list" where
  "tshark_command = [''tshark'', ''-n'', ''-r'', ''/data/capture.pcapng'', ''-Y'', tshark_display_filter, ''-T'', ''fields'', ''-E'',
     ''header=y'', ''-E'', ''separator=,'', ''-E'', ''quote=d'', ''-E'', ''occurrence=a''] @ concat (map (\<lambda>field. [''-e'', field]) tshark_fields)"

definition tshark_argv :: "host \<Rightarrow> string \<Rightarrow> string \<Rightarrow> string list result" where
  "tshark_argv hs capture output = checked_argv
    ([hs_docker hs, ''run'', ''--rm''] @ sandbox_docker_flags @
     [''--workdir'', ''/data/out'', ''--mount'', mount_capture capture, ''--mount'', mount_output output, tshark_local_image] @ tshark_command)"

definition tshark_dockerfile_digest :: "host \<Rightarrow> string result" where
  "tshark_dockerfile_digest hs = (case hs_dockerfile hs of None \<Rightarrow> Inl FileNotFoundError | Some content \<Rightarrow> Inr (sha256_bytes content))"

definition assert_image_present :: "host \<Rightarrow> unit traced" where
  "assert_image_present hs = bindT (execT hs [hs_docker hs, ''image'', ''inspect'', tshark_local_image]) (\<lambda>r. liftT (case r of
      TimedOut \<Rightarrow> Inl ForeignError
    | Exited code out \<Rightarrow> if code \<noteq> 0 then Inl AnalyzerError else Inr ()))"

definition cell :: "string \<Rightarrow> json" where
  "cell x = (if x = [] then JNull else JStr x)"

definition frame_of_row :: "string list \<Rightarrow> string list \<Rightarrow> json_row" where
  \<comment> \<open>a row of \<open>DictReader\<close>; the surplus cells it keeps under the key \<open>None\<close>, which nothing reads, are left out\<close>
  "frame_of_row names row = fold (\<lambda>name. AList.update name JNull) (drop (length row) names)
     (fold (\<lambda>(name, x). AList.update name (cell x)) (zip names row) [])"

definition frames_from_fields_csv :: "string \<Rightarrow> json_row list result" where
  "frames_from_fields_csv text =
    (if py_strip text = [] then Inr []
     else bindE (csv_rows text) (\<lambda>rows. Inr (case rows of [] \<Rightarrow> []
       | names # body \<Rightarrow> map (frame_of_row names) (filter (\<lambda>row. row \<noteq> []) body))))"

definition tshark_run :: "host \<Rightarrow> string \<Rightarrow> string \<Rightarrow> (string \<times> json_row list) traced" where
  \<comment> \<open>the image digest and the frames\<close>
  "tshark_run hs capture output =
    bindT (liftT (load_bundle_lock hs)) (\<lambda>lock.
    bindT (liftT (tshark_dockerfile_digest hs)) (\<lambda>recipe.
    if recipe \<noteq> bl_tshark_image_digest lock then liftT (Inl AnalyzerError)
    else bindT (assert_image_present hs) (\<lambda>_.
    bindT (liftT (tshark_argv hs capture output)) (\<lambda>command.
    bindT (execT hs command) (\<lambda>r.
    liftT (bindE (completed r) (\<lambda>raw.
      if max_output_bytes < length raw then Inl AnalyzerError
      else bindE (hs_decode hs raw) (\<lambda>text. bindE (frames_from_fields_csv text) (\<lambda>frames. Inr (recipe, frames))))))))))"

end
