(* ===== verification/Reference_Data.thy ===== *)
theory Reference_Data
  imports Analyzers
begin

text \<open>
  The checked-in reference data and how an analysis gets it: the IANA registry
  (\<open>adapters/reference_data/iana_tls_parameters.py\<close>), the policy packs (\<open>policy_packs.py\<close>), the trust store
  (\<open>adapters/pki/trust_store.py\<close>), and the installation, whose files and analyzers are the \<^typ>\<open>deployment\<close> that \<open>_analyze\<close>
  of \<open>bootstrap.py\<close> composes.

  A file is its content, \<open>None\<close> if there is none. PyYAML, the validation of a pack by pydantic, the canonical digest of a
  pack, the PEM reader of \<open>cryptography\<close> and the capinfos runner are fields of the record \<open>installation\<close>. The subclasses
  of \<open>ValueError\<close> of the two loaders that no caller tells apart are \<^const>\<open>ValueError\<close>.
\<close>

section \<open>Files\<close>

definition read_bounded :: "py_exn \<Rightarrow> nat \<Rightarrow> bytes option \<Rightarrow> bytes result" where
  "read_bounded e limit content = (case content of
     None \<Rightarrow> Inl e
   | Some raw \<Rightarrow> if limit < length raw then Inl e else Inr raw)"

section \<open>The IANA registry (iana\_tls\_parameters.py)\<close>

definition max_iana_bytes :: nat where "max_iana_bytes = 1000000"
definition max_ciphers :: nat where "max_ciphers = 2048"
definition max_groups :: nat where "max_groups = 512"
definition max_name_len :: nat where "max_name_len = 128"

text \<open>Whether \<open>int(s, 16)\<close> returns: space around it, a sign, a prefix and single underscores are accepted.\<close>

definition is_hex_digit :: "char \<Rightarrow> bool" where
  "is_hex_digit c = (let n = (of_char c :: nat) in (48 \<le> n \<and> n \<le> 57) \<or> (65 \<le> n \<and> n \<le> 70) \<or> (97 \<le> n \<and> n \<le> 102))"

fun hex_digits :: "string \<Rightarrow> bool" where
  "hex_digits [] = False"
| "hex_digits [c] = is_hex_digit c"
| "hex_digits (c # d # cs) = (is_hex_digit c \<and> (if d = CHR ''_'' then hex_digits cs else hex_digits (d # cs)))"

definition without_sign :: "string \<Rightarrow> string" where
  "without_sign s = (case s of [] \<Rightarrow> [] | c # cs \<Rightarrow> if c = CHR ''+'' \<or> c = CHR ''-'' then cs else s)"

definition int16_ok :: "string \<Rightarrow> bool" where
  "int16_ok s = (let t = without_sign (num_strip s) in
     if py_startswith (py_lower t) ''0x''
     then hex_digits (let u = drop 2 t in if py_startswith u ''_'' then tl u else u)
     else hex_digits t)"

definition parse_cipher :: "json \<Rightarrow> (string \<times> string) list \<Rightarrow> (string \<times> string) list result" where
  "parse_cipher item out = (case item of
     JObj row \<Rightarrow> (case (row_get row ''code'', row_get row ''name'') of
       (JStr code, JStr name) \<Rightarrow>
         if name = [] \<or> max_name_len < length name then Inl ValueError
         else if length code \<noteq> 6 \<or> \<not> py_startswith code ''0x'' then Inl ValueError
         else if \<not> int16_ok (drop 2 code) then Inl ValueError
         else (let normalized = ''0x'' @ py_upper (drop 2 code) in
           Inr (if normalized \<in> set (map fst out) then out else out @ [(normalized, name)]))
     | _ \<Rightarrow> Inl ValueError)
   | _ \<Rightarrow> Inl ValueError)"

definition parse_ciphers :: "json \<Rightarrow> (string \<times> string) list result" where
  "parse_ciphers rows = (case rows of
     JList items \<Rightarrow> if max_ciphers < length items then Inl ValueError else foldE parse_cipher items []
   | _ \<Rightarrow> Inl ValueError)"

definition parse_group :: "json \<Rightarrow> (nat \<times> string) list \<Rightarrow> (nat \<times> string) list result" where
  "parse_group item out = (case item of
     JObj row \<Rightarrow> (case (row_get row ''code'', row_get row ''name'') of
       (JInt code, JStr name) \<Rightarrow>
         if code < 0 \<or> 65535 < code then Inl ValueError
         else if name = [] \<or> max_name_len < length name then Inl ValueError
         else Inr (if nat code \<in> set (map fst out) then out else out @ [(nat code, name)])
     | _ \<Rightarrow> Inl ValueError)
   | _ \<Rightarrow> Inl ValueError)"

definition parse_groups :: "json \<Rightarrow> (nat \<times> string) list result" where
  "parse_groups rows = (case rows of
     JList items \<Rightarrow> if max_groups < length items then Inl ValueError else foldE parse_group items []
   | _ \<Rightarrow> Inl ValueError)"

definition dict_of :: "('v \<Rightarrow> 'k) \<Rightarrow> ('v \<Rightarrow> 'w) \<Rightarrow> 'v list \<Rightarrow> ('k, 'w) dict" where
  \<comment> \<open>\<open>{key(x): value(x) for x in xs}\<close>\<close>
  "dict_of key val xs = fold (\<lambda>x. AList.update (key x) (val x)) xs []"

definition index_of_payload :: "string \<Rightarrow> json \<Rightarrow> tls_parameter_index result" where
  "index_of_payload digest payload = (case payload of
     JObj row \<Rightarrow> (case row_get row ''snapshot'' of
       JObj _ \<Rightarrow>
         bindE (parse_ciphers (row_get row ''cipher_suites'')) (\<lambda>ciphers.
         bindE (parse_groups (row_get row ''supported_groups'')) (\<lambda>groups.
         Inr \<lparr>tp_digest = digest, tp_cipher_name_to_code = dict_of snd fst ciphers,
              tp_cipher_code_to_name = dict_of fst snd ciphers, tp_group_code_to_name = dict_of fst snd groups,
              tp_group_name_to_code = dict_of snd fst groups\<rparr>))
     | _ \<Rightarrow> Inl ValueError)
   | _ \<Rightarrow> Inl ValueError)"

section \<open>The installation\<close>

record installation =
  in_host :: "bytes \<Rightarrow> host" \<comment> \<open>what the runners find when the capture has this content\<close>
  in_codec :: host \<comment> \<open>\<open>json.loads\<close> and \<open>bytes.decode\<close> for the reference data\<close>
  in_capture_path :: string
  in_output_path :: string
  in_iana :: "bytes option"
  in_trust :: "bytes option"
  in_rules :: "string \<Rightarrow> bytes option" \<comment> \<open>the files of \<open>domain/policies/rules\<close>\<close>
  in_yaml :: "string \<Rightarrow> json list result" \<comment> \<open>\<open>yaml.load_all\<close> with \<open>UniqueKeyLoader\<close>, its errors as \<open>PolicyPackError\<close>\<close>
  in_validate_pack :: "json \<Rightarrow> policy_pack option" \<comment> \<open>\<open>PolicyPack.model_validate\<close>, \<open>None\<close> if it raises\<close>
  in_pack_digest :: "policy_pack \<Rightarrow> string"
  in_load_pem :: "bytes \<Rightarrow> x509_certificate list option" \<comment> \<open>\<open>None\<close> for a \<open>ValueError\<close>\<close>
  in_preflight :: "bytes \<Rightarrow> capture_preflight result"
  in_library :: pki_library
  in_now :: py_datetime

definition load_iana_tls_parameters :: "installation \<Rightarrow> tls_parameter_index result" where
  "load_iana_tls_parameters ins =
    bindE (read_bounded ValueError max_iana_bytes (in_iana ins)) (\<lambda>raw.
    bindE (hs_decode (in_codec ins) raw) (\<lambda>text.
    bindE (hs_loads (in_codec ins) text) (index_of_payload (sha256_bytes raw))))"

definition iana_snapshot_digest :: "installation \<Rightarrow> string result" where
  "iana_snapshot_digest ins = bindE (read_bounded ValueError max_iana_bytes (in_iana ins)) (\<lambda>raw. Inr (sha256_bytes raw))"

section \<open>Policy packs (policy\_packs.py)\<close>

definition max_pack_bytes :: nat where "max_pack_bytes = 256 * 1024"

fun profile_file :: "policy_profile \<Rightarrow> string" where
  "profile_file PP_IETF_CURRENT = ''ietf_current.yaml''"
| "profile_file PP_NIST_FEDERAL = ''nist_federal.yaml''"
| "profile_file PP_HISTORICAL_AT_CAPTURE = ''historical_at_capture.yaml''"

definition load_policy_pack :: "installation \<Rightarrow> policy_profile \<Rightarrow> (policy_pack \<times> string) result" where
  "load_policy_pack ins profile =
    bindE (read_bounded PolicyPackError max_pack_bytes (in_rules ins (profile_file profile))) (\<lambda>raw.
    bindE (hs_decode (in_codec ins) raw) (\<lambda>text.
    bindE (in_yaml ins text) (\<lambda>documents.
    case documents of
      [payload] \<Rightarrow> (case in_validate_pack ins payload of
          None \<Rightarrow> Inl PolicyPackError
        | Some pack \<Rightarrow> if pp_profile pack \<noteq> profile then Inl PolicyPackError else Inr (pack, in_pack_digest ins pack))
    | _ \<Rightarrow> Inl PolicyPackError)))"

definition policy_pack_file_digest :: "installation \<Rightarrow> policy_profile \<Rightarrow> string result" where
  "policy_pack_file_digest ins profile =
    bindE (read_bounded PolicyPackError max_pack_bytes (in_rules ins (profile_file profile))) (\<lambda>raw. Inr (sha256_bytes raw))"

section \<open>The trust store (trust\_store.py)\<close>

definition max_trust_bytes :: nat where "max_trust_bytes = 2000000"
definition max_anchors :: nat where "max_anchors = 256"

definition trust_store_digest :: "installation \<Rightarrow> string result" where
  "trust_store_digest ins = bindE (read_bounded ValueError max_trust_bytes (in_trust ins)) (\<lambda>raw. Inr (sha256_bytes raw))"

definition trust_profile_id :: string where "trust_profile_id = ''offline_v1''"

definition load_trust_store_snapshot :: "installation \<Rightarrow> trust_store_snapshot result" where
  "load_trust_store_snapshot ins =
    bindE (read_bounded ValueError max_trust_bytes (in_trust ins)) (\<lambda>raw.
    case in_load_pem ins raw of
      None \<Rightarrow> Inl ValueError
    | Some anchors \<Rightarrow>
        if anchors = [] then Inl ValueError
        else if max_anchors < length anchors then Inl ValueError
        else build_trust_snapshot anchors trust_profile_id (sha256_bytes raw))"

section \<open>The deployment of an installation (bootstrap.py)\<close>

definition deployment_of :: "installation \<Rightarrow> deployment" where
  "deployment_of ins = \<lparr>dp_stub = False, dp_policy_pack = load_policy_pack ins, dp_tls_parameters = load_iana_tls_parameters ins,
     dp_trust_store = load_trust_store_snapshot ins, dp_preflight = in_preflight ins,
     dp_zeek = (\<lambda>content. snd (zeek_run (in_host ins content) (in_capture_path ins) (in_output_path ins))),
     dp_tshark = (\<lambda>content. bindE (snd (tshark_run (in_host ins content) (in_capture_path ins) (in_output_path ins)))
       (\<lambda>(digest, frames). Inr frames)),
     dp_library = in_library ins, dp_now = in_now ins\<rparr>"

end
