(* ===== verification/Analyzers_Correct.thy ===== *)
theory Analyzers_Correct
  imports Analyzers
begin

text \<open>
  What the analyzer adapters promise: which command lines they execute, after which checks, whatever
  docker answers; how much they accept from a
  container; that the digest of a directory determines it as long as its files hold no NUL byte, and not otherwise; and
  that TShark's quoted output is read back cell by cell.
\<close>

section \<open>Command lines\<close>

lemma bindT_simps [simp]:
  "bindT ([], Inr a) f = f a" "bindT (calls, Inl e) f = (calls, Inl e)"
  "bindT (calls, Inr a) f = (calls @ fst (f a), snd (f a))"
  by (simp_all add: bindT_def split: prod.splits)

lemma bindT_liftT [simp]: "bindT (liftT r) f = (case r of Inl e \<Rightarrow> ([], Inl e) | Inr a \<Rightarrow> f a)"
  by (cases r) (simp_all add: liftT_def)

lemma fst_liftT [simp]: "fst (liftT r) = []"
  by (simp add: liftT_def)

lemma bindT_execT [simp]: "bindT (execT hs argv) f = (argv # fst (f (hs_exec hs argv)), snd (f (hs_exec hs argv)))"
  by (simp add: execT_def)

lemma fst_bindT: "fst (bindT m f) = fst m @ (case snd m of Inl e \<Rightarrow> [] | Inr a \<Rightarrow> fst (f a))"
  by (cases m) (simp add: bindT_def split: sum.splits prod.splits)

lemma snd_bindT: "snd (bindT m f) = bindE (snd m) (\<lambda>a. snd (f a))"
  by (cases m) (simp add: bindT_def bindE_def split: sum.splits prod.splits)

definition zeek_inspect :: "host \<Rightarrow> string list" where
  "zeek_inspect hs = [hs_docker hs, ''image'', ''inspect'', zeek_local_image, ''--format'', ''{{json .Config.Labels}}'']"

definition tshark_inspect :: "host \<Rightarrow> string list" where
  "tshark_inspect hs = [hs_docker hs, ''image'', ''inspect'', tshark_local_image]"

lemma labels_calls: "fst (assert_image_labels hs expected) = [zeek_inspect hs]"
  by (simp add: assert_image_labels_def zeek_inspect_def)

lemma present_calls: "fst (assert_image_present hs) = [tshark_inspect hs]"
  by (simp add: assert_image_present_def tshark_inspect_def)

lemma checked_argv_Inr: "checked_argv command = Inr argv \<longleftrightarrow> argv = command \<and> [] \<notin> set command
    \<and> (\<forall>token \<in> set shell_tokens. \<not> py_substring token (py_join '' '' command))"
  by (auto simp: checked_argv_def assert_fixed_argv_def bindE_def list_ex_iff)

text \<open>The labels that \<open>docker image inspect\<close> reports, and what a label says.\<close>

definition reported_labels :: "host \<Rightarrow> json_row \<Rightarrow> bool" where
  "reported_labels hs labels = (\<exists>out. hs_exec hs (zeek_inspect hs) = Exited 0 out
     \<and> py_strip (hs_decode_replace hs out) \<noteq> [] \<and> hs_loads hs (py_strip (hs_decode_replace hs out)) = Inr (JObj labels))"

definition label_says :: "host \<Rightarrow> json_row \<Rightarrow> string \<Rightarrow> string \<Rightarrow> bool" where
  "label_says hs labels key s = (s \<noteq> [] \<and> (\<exists>v. map_of labels key = Some v \<and> json_str hs v = s))"

text \<open>The checks before Zeek is run: lock file, scripts and image agree, by the labels the image really has.\<close>

definition zeek_checked :: "host \<Rightarrow> bundle_lock \<Rightarrow> bool" where
  "zeek_checked hs lock = (load_bundle_lock hs = Inr lock \<and> hash_directory_tree (hs_zeek_tree hs) = bl_zeek_bundle_sha256 lock
     \<and> bl_zeek_image_digest lock = zeek_image_digest
     \<and> (\<exists>labels. reported_labels hs labels
          \<and> label_says hs labels ''securemail.zeek_bundle_sha256'' (bl_zeek_bundle_sha256 lock)
          \<and> label_says hs labels ''securemail.zeek_base_digest'' zeek_image_digest))"

definition tshark_checked :: "host \<Rightarrow> bundle_lock \<Rightarrow> bool" where
  "tshark_checked hs lock = (load_bundle_lock hs = Inr lock
     \<and> (\<exists>content. hs_dockerfile hs = Some content \<and> sha256_bytes content = bl_tshark_image_digest lock)
     \<and> (\<exists>out. hs_exec hs (tshark_inspect hs) = Exited 0 out))"

lemma label_of_says: "label_of hs labels key = s \<Longrightarrow> s \<noteq> [] \<Longrightarrow> label_says hs labels key s"
  by (auto simp: label_of_def label_says_def row_get_def Let_def split: if_splits option.splits)

lemma labels_agree:
  assumes "snd (assert_image_labels hs expected) = Inr ()"
  shows "\<exists>labels. reported_labels hs labels \<and> label_says hs labels ''securemail.zeek_bundle_sha256'' expected
    \<and> label_says hs labels ''securemail.zeek_base_digest'' zeek_image_digest"
proof -
  have none: "label_of hs [] key = []" for key by (simp add: label_of_def row_get_def)
  obtain out labels where "hs_exec hs (zeek_inspect hs) = Exited 0 out" and "py_strip (hs_decode_replace hs out) \<noteq> []"
    and "hs_loads hs (py_strip (hs_decode_replace hs out)) = Inr (JObj labels)"
    and "label_of hs labels ''securemail.zeek_bundle_sha256'' = expected" "expected \<noteq> []"
    and "label_of hs labels ''securemail.zeek_base_digest'' = zeek_image_digest" "zeek_image_digest \<noteq> []"
    using assms none
    by (auto simp: assert_image_labels_def zeek_inspect_def liftT_def Let_def py_simps split: outcome.splits if_splits json.splits)
  then show ?thesis using label_of_says unfolding reported_labels_def by metis
qed

lemma image_present: "snd (assert_image_present hs) = Inr () \<Longrightarrow> \<exists>out. hs_exec hs (tshark_inspect hs) = Exited 0 out"
  by (auto simp: assert_image_present_def tshark_inspect_def liftT_def split: outcome.splits if_splits)

text \<open>The command line of a sandboxed container. The options are what stands before the image. Each limit of the sandbox is
  among them, and the only directories mounted are the capture, read-only, and the output.\<close>

definition sandboxed :: "host \<Rightarrow> string \<Rightarrow> string \<Rightarrow> string \<Rightarrow> string \<Rightarrow> string list \<Rightarrow> bool" where
  "sandboxed hs img tool capture output argv =
    (let options = takeWhile (\<lambda>part. part \<noteq> img) (drop 3 argv); settings = zip options (tl options) in
     take 3 argv = [hs_docker hs, ''run'', ''--rm''] \<and> take 2 (drop (3 + length options) argv) = [img, tool]
     \<and> {''--network=none'', ''--read-only'', ''--cap-drop=ALL''} \<subseteq> set options
     \<and> {(''--user'', ''65532:65532''), (''--security-opt'', ''no-new-privileges''), (''--pids-limit'', ''256''), (''--memory'', ''2g''),
          (''--memory-swap'', ''2g''), (''--cpus'', ''2'')} \<subseteq> set settings
     \<and> filter (\<lambda>(option, value). option = ''--mount'') settings =
          [(''--mount'', ''type=bind,src='' @ capture @ '',dst=/data/capture.pcapng,readonly=true''),
           (''--mount'', ''type=bind,src='' @ output @ '',dst=/data/out'')]
     \<and> {''--privileged'', ''-v'', ''--volume''} \<inter> set options = {}
     \<and> [] \<notin> set argv \<and> (\<forall>token \<in> {'' && '', '' | '', '';'', ''$('', ''`''}. \<not> py_substring token (py_join '' '' argv)))"

lemma zeek_argv_sandboxed: "zeek_argv hs capture output = Inr argv \<Longrightarrow> sandboxed hs zeek_local_image ''zeek'' capture output argv"
  by (simp add: zeek_argv_def checked_argv_Inr sandboxed_def sandbox_docker_flags_def sandbox_user_def zeek_local_image_def
      mount_capture_def mount_output_def shell_tokens_def Let_def)

lemma tshark_argv_sandboxed: "tshark_argv hs capture output = Inr argv \<Longrightarrow> sandboxed hs tshark_local_image ''tshark'' capture output argv"
  by (simp add: tshark_argv_def tshark_command_def checked_argv_Inr sandboxed_def sandbox_docker_flags_def sandbox_user_def
      tshark_local_image_def mount_capture_def mount_output_def shell_tokens_def Let_def)


section \<open>Bounds\<close>

lemma certificates_read:
  assumes "foldE read_certificate_step files (found, n) = Inr (found', m)"
  shows "m = n + sum_list (map (\<lambda>f. length (cf_payload f)) files) \<and> map xt_payload found' = map xt_payload found @ map cf_payload files
    \<and> (\<forall>c \<in> set found' - set found. xt_sha256 c = sha256_bytes (xt_payload c) \<and> length (xt_payload c) \<le> max_certificate_der_bytes)
    \<and> (m \<le> max_output_bytes \<or> files = [])"
  using assms
proof (induction files arbitrary: found n)
  case (Cons f files)
  then obtain found1 n1 where step: "read_certificate_step f (found, n) = Inr (found1, n1)"
    and tail: "foldE read_certificate_step files (found1, n1) = Inr (found', m)"
    by (auto simp: py_simps)
  show ?case using Cons.IH [OF tail] step
    by (auto simp: read_certificate_step_def split: if_splits)
qed simp

lemma log_step_bound:
  assumes "read_log_step hs entry (logs, n) = Inr (logs', m)"
  shows "m = n + length (snd entry) \<and> m \<le> max_output_bytes"
  using assms by (cases entry) (auto simp: read_log_step_def py_simps split: if_splits)

lemma logs_read:
  assumes "foldE (read_log_step hs) files (logs, n) = Inr (logs', m)"
  shows "m = n + sum_list (map (\<lambda>(name, data). length data) files) \<and> (m \<le> max_output_bytes \<or> files = [])"
  using assms
proof (induction files arbitrary: logs n)
  case (Cons f files)
  then obtain logs1 n1 where step: "read_log_step hs f (logs, n) = Inr (logs1, n1)"
    and tail: "foldE (read_log_step hs) files (logs1, n1) = Inr (logs', m)"
    by (auto simp: py_simps)
  show ?case using Cons.IH [OF tail] log_step_bound [OF step] by (cases files) (auto simp: case_prod_beta)
qed simp

lemma sum_list_sort: "sum_list (map (f :: 'a \<Rightarrow> nat) (sort_key k xs)) = sum_list (map f xs)"
  by (metis mset_map mset_sort sum_mset_sum_list)

text \<open>C26: a run of Zeek that succeeds used the pinned image and names the lock file by its digest; what it returns fits the
  bounds the rest of the pipeline relies on: logs and certificates together have at most 50 MiB, there are at most as many
  certificates as the normalizer indexes (so that it drops none), each has at most the size the decoder accepts, and each
  is named by the SHA-256 digest of its bytes, which are those of the files, in the order of their names.\<close>

theorem zeek_output_bounded:
  assumes "snd (zeek_run hs capture output) = Inr r"
  shows "\<exists>argv od. zeek_argv hs capture output = Inr argv \<and> od = hs_output hs argv
    \<and> zr_image_digest r = zeek_image_digest \<and> digest_lockfile_bytes hs = Inr (zr_analyzer_bundle_digest r)
    \<and> sum_list (map (\<lambda>(name, data). if py_endswith name ''.log'' then length data else 0) (od_files od))
        + sum_list (map (\<lambda>c. length (xt_payload c)) (zr_extracted r)) \<le> max_output_bytes
    \<and> take max_certificates_per_run (zr_extracted r) = zr_extracted r
    \<and> (\<forall>c \<in> set (zr_extracted r). length (xt_payload c) \<le> max_certificate_der_bytes \<and> xt_sha256 c = sha256_bytes (xt_payload c))
    \<and> map xt_payload (zr_extracted r) = (case od_certs od of None \<Rightarrow> [] | Some files \<Rightarrow> map cf_payload (sort_key cf_name files))"
proof -
  obtain lock argv logs n where argv: "zeek_argv hs capture output = Inr argv"
    and logs: "read_zeek_json_logs hs (hs_output hs argv) = Inr (logs, n)"
    and certs: "read_extracted_certificates (hs_output hs argv) n = Inr (zr_extracted r)"
    and fields: "zr_image_digest r = zeek_image_digest" "digest_lockfile_bytes hs = Inr (zr_analyzer_bundle_digest r)"
    using assms unfolding zeek_run_def
    by (auto simp: snd_bindT liftT_def execT_def py_simps split: if_splits sum.splits)
  let ?od = "hs_output hs argv"
  let ?logs = "filter (\<lambda>(name, data). py_endswith name ''.log'') (od_files ?od)"
  have n: "n = sum_list (map (\<lambda>(name, data). length data) ?logs)" "n \<le> max_output_bytes"
  proof -
    have "?logs = []" if "sort_key fst ?logs = []" using arg_cong [OF that, of length] by simp
    then show "n = sum_list (map (\<lambda>(name, data). length data) ?logs)" "n \<le> max_output_bytes"
      using logs_read [OF logs [unfolded read_zeek_json_logs_def]] by (auto simp: sum_list_sort)
  qed
  have "sum_list (map (\<lambda>(name, data). if py_endswith name ''.log'' then length data else 0) xs)
      = sum_list (map (\<lambda>(name, data). length data) (filter (\<lambda>(name, data). py_endswith name ''.log'') xs))" for xs :: "(string, bytes) dict"
    by (induction xs) auto
  note sum = this [of "od_files ?od"]
  have "n + sum_list (map (\<lambda>c. length (xt_payload c)) (zr_extracted r)) \<le> max_output_bytes
    \<and> take max_certificates_per_run (zr_extracted r) = zr_extracted r
    \<and> (\<forall>c \<in> set (zr_extracted r). length (xt_payload c) \<le> max_certificate_der_bytes \<and> xt_sha256 c = sha256_bytes (xt_payload c))
    \<and> map xt_payload (zr_extracted r) = (case od_certs ?od of None \<Rightarrow> [] | Some files \<Rightarrow> map cf_payload (sort_key cf_name files))"
  proof (cases "od_certs ?od")
    case None
    then show ?thesis using certs n(2) by (simp add: read_extracted_certificates_def)
  next
    case (Some files)
    then obtain m where m: "foldE read_certificate_step (sort_key cf_name files) ([], n) = Inr (zr_extracted r, m)"
      and few: "length files \<le> max_certificates_per_run"
      using certs by (auto simp: read_extracted_certificates_def py_simps split: if_splits)
    note read = certificates_read [OF m]
    have payloads: "map xt_payload (zr_extracted r) = map cf_payload (sort_key cf_name files)" using read by simp
    have lengths: "map (\<lambda>c. length (xt_payload c)) (zr_extracted r) = map (\<lambda>f. length (cf_payload f)) (sort_key cf_name files)"
      using arg_cong [OF payloads, of "map length"] unfolding map_map comp_def .
    have "length (zr_extracted r) = length files" using arg_cong [OF payloads, of length] by simp
    then have "take max_certificates_per_run (zr_extracted r) = zr_extracted r" using few by simp
    moreover have "m = n + sum_list (map (\<lambda>c. length (xt_payload c)) (zr_extracted r))" unfolding lengths using read by blast
    moreover have "m \<le> max_output_bytes" using read n(2) by (cases "sort_key cf_name files = []") (simp, blast)
    moreover have "\<forall>c \<in> set (zr_extracted r). length (xt_payload c) \<le> max_certificate_der_bytes \<and> xt_sha256 c = sha256_bytes (xt_payload c)"
      using read by simp
    ultimately show ?thesis using payloads by (simp add: Some)
  qed
  note body = this
  show ?thesis
  proof (intro exI conjI)
    show "zeek_argv hs capture output = Inr argv" "?od = ?od" by (simp_all add: argv)
    show "zr_image_digest r = zeek_image_digest" "digest_lockfile_bytes hs = Inr (zr_analyzer_bundle_digest r)" by (rule fields)+
    show "sum_list (map (\<lambda>(name, data). if py_endswith name ''.log'' then length data else 0) (od_files ?od))
        + sum_list (map (\<lambda>c. length (xt_payload c)) (zr_extracted r)) \<le> max_output_bytes"
      using body unfolding sum n(1) by (rule conjunct1)
    show "take max_certificates_per_run (zr_extracted r) = zr_extracted r"
      "\<forall>c \<in> set (zr_extracted r). length (xt_payload c) \<le> max_certificate_der_bytes \<and> xt_sha256 c = sha256_bytes (xt_payload c)"
      "map xt_payload (zr_extracted r) = (case od_certs ?od of None \<Rightarrow> [] | Some files \<Rightarrow> map cf_payload (sort_key cf_name files))"
      by (rule body [THEN conjunct2, THEN conjunct1] body [THEN conjunct2, THEN conjunct2, THEN conjunct1]
          body [THEN conjunct2, THEN conjunct2, THEN conjunct2])+
  qed
qed

section \<open>The digest of a directory\<close>

lemma utf8_char_cases:
  "utf8_bytes (c # s) = (if of_char c < (128 :: int) then [of_char c]
     else [192 + of_char c div 64, 128 + of_char c mod 64]) @ utf8_bytes s"
  by (simp add: utf8_bytes_def Let_def)

lemma utf8_no_nul: "CHR 0x00 \<notin> set s \<Longrightarrow> 0 \<notin> set (utf8_bytes s)"
proof (induction s)
  case (Cons c s)
  have "(of_char c :: int) \<noteq> 0" using Cons.prems of_char_eq_iff [where 'a = int, of c "CHR 0x00"] by auto
  moreover have "0 \<le> (of_char c :: int)" by (cases c) simp
  moreover have "0 \<le> (of_char c :: int) mod 64" "0 \<le> (of_char c :: int) div 64"
    using calculation(2) by (simp_all add: pos_imp_zdiv_nonneg_iff)
  ultimately show ?case using Cons by (auto simp: utf8_char_cases)
qed (simp add: utf8_bytes_def)

lemma utf8_inj: "utf8_bytes s = utf8_bytes t \<Longrightarrow> s = t"
proof (induction s arbitrary: t)
  case Nil
  then show ?case by (cases t) (auto simp: utf8_bytes_def Let_def split: if_splits)
next
  case (Cons c s)
  then obtain d t' where t: "t = d # t'" by (cases t) (auto simp: utf8_bytes_def Let_def split: if_splits)
  have range: "0 \<le> (of_char x :: int)" "(of_char x :: int) < 256" for x by (cases x; simp)+
  have small: "(of_char x :: int) div 64 \<ge> 0" for x using range [of x] by (simp add: pos_imp_zdiv_nonneg_iff)
  have "(of_char c :: int) = of_char d \<and> utf8_bytes s = utf8_bytes t'"
    using Cons.prems small [of c] small [of d] div_mult_mod_eq [of "of_char c :: int" 64] div_mult_mod_eq [of "of_char d :: int" 64]
    unfolding t utf8_char_cases by (auto split: if_splits) (metis div_mult_mod_eq of_char_eq_iff)
  then show ?case using Cons.IH unfolding t by simp
qed

lemma nul_separated:
  assumes "x @ 0 # s = y @ 0 # (t :: bytes)" and "0 \<notin> set x" and "0 \<notin> set y"
  shows "x = y \<and> s = t"
  using assms by (induction x arbitrary: y) (case_tac y; auto)+

definition plain_tree :: "(string, bytes) dict \<Rightarrow> bool" where
  \<comment> \<open>no path and no content has a NUL\<close>
  "plain_tree files = (distinct (map fst files) \<and> list_all (\<lambda>(path, content). CHR 0x00 \<notin> set path \<and> 0 \<notin> set content) files)"

lemma stream_determines:
  assumes "concat (map (\<lambda>(p, c). utf8_bytes p @ [0] @ c @ [0]) xs) = concat (map (\<lambda>(p, c). utf8_bytes p @ [0] @ c @ [0]) ys)"
    and "\<forall>(p, c) \<in> set xs \<union> set ys. CHR 0x00 \<notin> set p \<and> 0 \<notin> set c"
  shows "xs = ys"
  using assms
proof (induction xs arbitrary: ys)
  case Nil
  then show ?case by (cases ys) auto
next
  case (Cons x xs)
  then obtain y ys' where ys: "ys = y # ys'" by (cases ys) auto
  obtain p c q d where pc: "x = (p, c)" "y = (q, d)" by (cases x, cases y) auto
  have plain: "CHR 0x00 \<notin> set p" "0 \<notin> set c" "CHR 0x00 \<notin> set q" "0 \<notin> set d" using Cons.prems(2) ys pc by auto
  have "utf8_bytes p @ 0 # c @ 0 # concat (map (\<lambda>(p, c). utf8_bytes p @ [0] @ c @ [0]) xs)
      = utf8_bytes q @ 0 # d @ 0 # concat (map (\<lambda>(p, c). utf8_bytes p @ [0] @ c @ [0]) ys')"
    using Cons.prems(1) ys pc by simp
  from nul_separated [OF this utf8_no_nul [OF plain(1)] utf8_no_nul [OF plain(3)]]
  have "p = q" "c @ 0 # concat (map (\<lambda>(p, c). utf8_bytes p @ [0] @ c @ [0]) xs)
      = d @ 0 # concat (map (\<lambda>(p, c). utf8_bytes p @ [0] @ c @ [0]) ys')"
    using utf8_inj by auto
  with nul_separated [OF this(2) plain(2,4)] Cons.IH [of ys'] Cons.prems(2) show ?case unfolding ys pc by auto
qed

text \<open>C36: \<open>hash_directory_tree\<close> is the digest of a stream that is independent of the order in which the files are found, and
  between directories whose files hold no NUL byte two streams are equal only if the directories have the same files with
  the same contents. Without that restriction it does not identify a directory: a file may hold the bytes that separate
  two files.\<close>

theorem tree_digest_identifies:
  "(\<forall>files found. distinct (map fst files) \<longrightarrow> mset found = mset files \<longrightarrow> hash_directory_tree found = hash_directory_tree files)
    \<and> (\<forall>files others. plain_tree files \<longrightarrow> plain_tree others
        \<longrightarrow> tree_stream files = tree_stream others \<longrightarrow> map_of files = map_of others)
    \<and> hash_directory_tree [(''a'', [120]), (''b'', [121])] = hash_directory_tree [(''a'', [120, 0, 98, 0, 121])]"
proof -
  let ?key = "\<lambda>(path :: string, content :: bytes). py_split CHR ''/'' path"
  have first: "hash_directory_tree found = hash_directory_tree files"
    if "distinct (map fst files)" "mset found = mset files" for files found :: "(string, bytes) dict"
  proof -
    have "inj_on ?key (set files)"
    proof (rule inj_onI)
      fix x y assume xy: "x \<in> set files" "y \<in> set files" "?key x = ?key y"
      then have "py_split CHR ''/'' (fst x) = py_split CHR ''/'' (fst y)" by (simp add: case_prod_beta)
      then have "fst x = fst y" by (rule py_split_inj)
      then show "x = y" using xy(1,2) that(1) by (metis distinct_map inj_on_def)
    qed
    then have "sort_key ?key found = sort_key ?key files" using sort_key_mset_cong [OF that(2)] mset_eq_setD [OF that(2)] by metis
    then show ?thesis by (simp add: hash_directory_tree_def tree_stream_def)
  qed
  have second: "map_of files = map_of others"
    if "plain_tree files" "plain_tree others" "tree_stream files = tree_stream others" for files others
  proof -
    have "sort_key ?key files = sort_key ?key others"
      using that by (intro stream_determines) (auto simp: tree_stream_def plain_tree_def list_all_iff)
    then have "set files = set others" by (metis set_sort)
    then show ?thesis using that(1,2) by (intro ext) (metis map_of_eq_Some_iff not_None_eq plain_tree_def)
  qed
  have "tree_stream [(''a'', [120]), (''b'', [121])] = tree_stream [(''a'', [120, 0, 98, 0, 121])]" by code_simp
  then have "hash_directory_tree [(''a'', [120]), (''b'', [121])] = hash_directory_tree [(''a'', [120, 0, 98, 0, 121])]"
    by (simp only: hash_directory_tree_def)
  then show ?thesis using first second by blast
qed

section \<open>Reading quoted cells\<close>

fun csv_feed :: "string \<Rightarrow> csv_state \<times> string list list \<Rightarrow> (csv_state \<times> string list list) result" where
  \<comment> \<open>\<open>csv_line\<close> on every line of a text that ends with a newline\<close>
  "csv_feed [] acc = Inr acc"
| "csv_feed (c # cs) (st, rows) = bindE (csv_char c st) (\<lambda>st.
     if c = CHR 0x0A then (let st = csv_end_line st in csv_feed cs
       (if cs_phase st = START_RECORD then (csv_start, rows @ [rev (cs_fields st)]) else (st, rows)))
     else csv_feed cs (st, rows))"

lemma feed_line:
  assumes "CHR 0x0A \<notin> set l"
  shows "csv_feed (l @ CHR 0x0A # cs) (st, rows) = bindE (csv_line (l @ [CHR 0x0A]) (st, rows)) (csv_feed cs)"
  using assms
proof (induction l arbitrary: st)
  case Nil
  show ?case by (cases "csv_char CHR 0x0A st") (simp_all add: csv_line_def Let_def)
next
  case (Cons c l)
  then show ?case by (cases "csv_char c st") (auto simp: csv_line_def)
qed

lemma lines_feed:
  "s = [] \<or> last s = CHR 0x0A \<Longrightarrow> foldE csv_line (text_lines (py_split CHR 0x0A s)) acc = csv_feed s acc"
proof (induction "length s" arbitrary: s acc rule: less_induct)
  case less
  show ?case
  proof (cases "s = []")
    case True
    then show ?thesis by (simp add: py_split_def)
  next
    case False
    then have "CHR 0x0A \<in> set s" using less.prems last_in_set by metis
    then obtain l t where eq: "s = l @ CHR 0x0A # t" "CHR 0x0A \<notin> set l" by (meson split_list_first)
    have t: "t = [] \<or> last t = CHR 0x0A" using less.prems eq by (auto split: if_splits)
    obtain p ps where ps: "py_split CHR 0x0A t = p # ps" by (meson list.exhaust py_split_ne)
    obtain st rows where acc: "acc = (st, rows)" by (cases acc)
    have "foldE csv_line (text_lines (py_split CHR 0x0A s)) acc
        = bindE (csv_line (l @ [CHR 0x0A]) acc) (foldE csv_line (text_lines (py_split CHR 0x0A t)))"
      by (simp add: eq py_split_cons ps)
    also have "foldE csv_line (text_lines (py_split CHR 0x0A t)) = csv_feed t"
      using less.hyps [of t] t eq(1) by auto
    finally show ?thesis unfolding acc eq(1) by (simp only: feed_line [OF eq(2)])
  qed
qed

text \<open>A cell in quotes, with the quotes inside it doubled.\<close>

definition csv_escape :: "string \<Rightarrow> string" where
  "csv_escape x = concat (map (\<lambda>c. if c = CHR 0x22 then [c, c] else [c]) x)"

definition csv_quote :: "string \<Rightarrow> string" where
  "csv_quote x = [CHR 0x22] @ csv_escape x @ [CHR 0x22]"

definition csv_write :: "string list \<Rightarrow> string" where
  "csv_write row = py_join '','' (map csv_quote row) @ [CHR 0x0A]"

definition in_cell :: "csv_phase \<Rightarrow> string \<Rightarrow> string list \<Rightarrow> csv_state" where
  "in_cell phase field earlier = \<lparr>cs_phase = phase, cs_field = field, cs_fields = earlier\<rparr>"

lemma feed_escaped:
  assumes "length field + length x \<le> csv_field_limit"
  shows "csv_feed (csv_escape x @ cs) (in_cell IN_QUOTED_FIELD field earlier, rows)
    = csv_feed cs (in_cell IN_QUOTED_FIELD (rev x @ field) earlier, rows)"
  using assms
proof (induction x arbitrary: field)
  case (Cons c x)
  have "csv_feed (csv_escape (c # x) @ cs) (in_cell IN_QUOTED_FIELD field earlier, rows)
      = csv_feed (csv_escape x @ cs) (in_cell IN_QUOTED_FIELD (c # field) earlier, rows)"
    using Cons.prems by (auto simp: csv_escape_def in_cell_def csv_char_def csv_add_def csv_end_line_def)
  then show ?case using Cons.IH [of "c # field"] Cons.prems by simp
qed (simp add: csv_escape_def)

lemma feed_quoted:
  assumes "length x \<le> csv_field_limit" and "phase = START_RECORD \<or> phase = START_FIELD"
  shows "csv_feed (csv_quote x @ cs) (in_cell phase [] earlier, rows)
    = csv_feed cs (in_cell QUOTE_IN_QUOTED_FIELD (rev x) earlier, rows)"
proof -
  have "csv_feed (csv_quote x @ cs) (in_cell phase [] earlier, rows)
      = csv_feed (csv_escape x @ CHR 0x22 # cs) (in_cell IN_QUOTED_FIELD [] earlier, rows)"
    using assms(2) by (auto simp: csv_quote_def in_cell_def csv_char_def csv_start_field_def is_newline_def)
  also have "\<dots> = csv_feed (CHR 0x22 # cs) (in_cell IN_QUOTED_FIELD (rev x) earlier, rows)"
    using feed_escaped [of "[]" x] assms(1) by simp
  finally show ?thesis by (simp add: in_cell_def csv_char_def)
qed

lemma feed_row:
  assumes "row \<noteq> []" and "\<forall>x \<in> set row. length x \<le> csv_field_limit" and "phase = START_RECORD \<or> phase = START_FIELD"
  shows "csv_feed (csv_write row @ cs) (in_cell phase [] earlier, rows) = csv_feed cs (csv_start, rows @ [rev earlier @ row])"
  using assms
proof (induction row arbitrary: phase earlier)
  case (Cons x row)
  have x: "length x \<le> csv_field_limit" using Cons.prems by simp
  show ?case
  proof (cases row)
    case Nil
    have "csv_feed (csv_write [x] @ cs) (in_cell phase [] earlier, rows)
        = csv_feed (CHR 0x0A # cs) (in_cell QUOTE_IN_QUOTED_FIELD (rev x) earlier, rows)"
      using feed_quoted [OF x Cons.prems(3), of "CHR 0x0A # cs"] by (simp add: csv_write_def)
    then show ?thesis by (simp add: Nil in_cell_def csv_char_def is_newline_def csv_save_def csv_end_line_def Let_def)
  next
    case (Cons y ys)
    have "csv_feed (csv_write (x # row) @ cs) (in_cell phase [] earlier, rows)
        = csv_feed (CHR '','' # csv_write row @ cs) (in_cell QUOTE_IN_QUOTED_FIELD (rev x) earlier, rows)"
      using feed_quoted [OF x Cons.prems(3), of "CHR '','' # csv_write row @ cs"] by (simp add: csv_write_def Cons)
    also have "\<dots> = csv_feed (csv_write row @ cs) (in_cell START_FIELD [] (x # earlier), rows)"
      by (simp add: in_cell_def csv_char_def csv_save_def)
    finally show ?thesis using Cons.IH [of START_FIELD "x # earlier"] Cons.prems Cons by simp
  qed
qed simp

lemma strip_keeps: "c \<in> set s \<Longrightarrow> \<not> is_space c \<Longrightarrow> c \<in> set (py_strip s)"
proof -
  have *: "c \<in> set (dropWhile is_space t)" if "c \<in> set t" "\<not> is_space c" for t
    using that by (induction t) auto
  show "c \<in> set s \<Longrightarrow> \<not> is_space c \<Longrightarrow> c \<in> set (py_strip s)"
    by (simp add: py_strip_def *)
qed

lemma feed_rows:
  assumes "\<forall>row \<in> set rows. row \<noteq> [] \<and> (\<forall>x \<in> set row. length x \<le> csv_field_limit)"
  shows "csv_feed (concat (map csv_write rows)) (csv_start, before) = Inr (csv_start, before @ rows)"
  using assms
proof (induction rows arbitrary: before)
  case (Cons row rows)
  have "csv_feed (csv_write row @ concat (map csv_write rows)) (csv_start, before)
      = csv_feed (concat (map csv_write rows)) (csv_start, before @ [row])"
    using feed_row [of row START_RECORD "concat (map csv_write rows)" "[]" before] Cons.prems
    by (simp add: in_cell_def csv_start_def)
  then show ?case using Cons by simp
qed simp

lemma csv_round_trip:
  assumes "\<forall>row \<in> set rows. row \<noteq> [] \<and> (\<forall>x \<in> set row. length x \<le> csv_field_limit)"
  shows "csv_rows (concat (map csv_write rows)) = Inr rows"
proof -
  have "concat (map csv_write rows) = [] \<or> last (concat (map csv_write rows)) = CHR 0x0A"
    by (induction rows) (auto simp: csv_write_def)
  then show ?thesis
    using feed_rows [OF assms, of "[]"] by (simp add: csv_rows_def lines_feed csv_start_def)
qed

lemma frame_lookup:
  assumes "distinct names" and "length row = length names" and "i < length names"
  shows "map_of (frame_of_row names row) (names ! i) = Some (cell (row ! i))"
proof -
  have "map_of (fold (\<lambda>(name, x). AList.update name (cell x)) (zip names row) m) (names ! i) = Some (cell (row ! i))" for m
    using assms
  proof (induction names row arbitrary: i m rule: list_induct2')
    case (4 name names x row)
    have keep: "map_of (fold (\<lambda>(name, x). AList.update name (cell x)) (zip ns xs) m) name = map_of m name"
      if "name \<notin> set ns" for ns xs m using that by (induction ns xs arbitrary: m rule: list_induct2') (auto simp: update_conv')
    show ?case
    proof (cases i)
      case 0
      then show ?thesis using 4 keep [of names row] by (simp add: update_conv')
    next
      case (Suc k)
      then show ?thesis using 4 by simp
    qed
  qed simp_all
  then show ?thesis using assms(2) by (simp add: frame_of_row_def)
qed

text \<open>C39: TShark is told to quote every cell; what it writes that way, with the quotes of a cell doubled, is read back as
  one frame per row in which every column of the header has its cell, whatever commas, quotes and newlines the cells hold,
  an empty cell as null; no cell may exceed the reader's limit.\<close>

theorem quoted_frames_round_trip:
  assumes "distinct names" and "names \<noteq> []" and "\<forall>row \<in> set rows. length row = length names"
    and "\<forall>row \<in> set (names # rows). \<forall>x \<in> set row. length x \<le> 131072"
  shows "\<exists>frames. frames_from_fields_csv (concat (map csv_write (names # rows))) = Inr frames
    \<and> list_all2 (\<lambda>frame row. \<forall>i < length names. row_get frame (names ! i) = (if row ! i = [] then JNull else JStr (row ! i)))
        frames rows"
proof -
  have rows: "\<forall>row \<in> set (names # rows). row \<noteq> [] \<and> (\<forall>x \<in> set row. length x \<le> csv_field_limit)"
    using assms by auto
  have "CHR 0x22 \<in> set (concat (map csv_write (names # rows)))"
    using assms(2) by (cases names; cases "tl names") (auto simp: csv_write_def csv_quote_def)
  then have "CHR 0x22 \<in> set (py_strip (concat (map csv_write (names # rows))))"
    by (rule strip_keeps) (simp add: is_space_def)
  then have "py_strip (concat (map csv_write (names # rows))) \<noteq> []" by auto
  moreover have "filter (\<lambda>row. row \<noteq> []) rows = rows" using rows by (simp add: filter_id_conv)
  ultimately have "frames_from_fields_csv (concat (map csv_write (names # rows))) = Inr (map (frame_of_row names) rows)"
    using csv_round_trip [OF rows] by (simp add: frames_from_fields_csv_def del: concat.simps)
  moreover have "list_all2 (\<lambda>frame row. \<forall>i < length names. row_get frame (names ! i) = (if row ! i = [] then JNull else JStr (row ! i)))
      (map (frame_of_row names) rows) rows"
    using assms(3) frame_lookup [OF assms(1)] by (auto simp: list_all2_conv_all_nth row_get_def cell_def)
  ultimately show ?thesis by blast
qed

section \<open>Witnesses\<close>

definition sample_lock :: json where
  "sample_lock = JObj [(''zeek_image_digest'', JStr zeek_image_digest), (''tshark_image_digest'', JStr (sha256_bytes [])),
     (''zeek_bundle_sha256'', JStr (sha256_bytes []))]"

definition sample_host_labels :: json where
  "sample_host_labels = JObj [(''securemail.zeek_bundle_sha256'', JStr (sha256_bytes [])), (''securemail.zeek_base_digest'', JStr zeek_image_digest)]"

definition sample_host :: "output_dir \<Rightarrow> host" where
  "sample_host od = \<lparr>hs_loads = (\<lambda>s. Inr (if s = ''lock'' then sample_lock else sample_host_labels)),
     hs_decode = (\<lambda>b. Inr ''lock''), hs_decode_replace = (\<lambda>b. ''labels''), hs_str = (\<lambda>v. []), hs_docker = ''docker'', hs_lock = Some [],
     hs_zeek_tree = [], hs_dockerfile = Some [], hs_exec = (\<lambda>argv. Exited 0 []), hs_output = (\<lambda>argv. od)\<rparr>"

definition sample_output :: output_dir where
  "sample_output = \<lparr>od_files = [], od_certs = Some [\<lparr>cf_name = ''c.der'', cf_resolved_name = ''c.der'', cf_inside = True,
     cf_payload = [48]\<rparr>]\<rparr>"

lemma sample_digest: "sha256_bytes [] \<noteq> []"
  using sha256_bytes_wf [of "[]"] by (auto simp: is_sha256_hex_def)

lemma sample_argv_ok: "assert_fixed_argv ([''docker'', ''run'', ''--rm''] @ sandbox_docker_flags @
    [''--workdir'', ''/data/out'', ''--mount'', mount_capture ''/c'', ''--mount'', mount_output ''/o'', zeek_local_image, ''zeek'',
      ''-C'', ''-D'', ''-r'', ''/data/capture.pcapng'', ''LogAscii::use_json=T'', ''/opt/securemail/zeek/site/__load__.zeek'']) = Inr ()"
  by code_simp

lemma sample_zeek_argv: "\<exists>argv. zeek_argv (sample_host od) ''/c'' ''/o'' = Inr argv"
proof -
  have "hs_docker (sample_host od) = ''docker''" by (simp add: sample_host_def)
  then show ?thesis unfolding zeek_argv_def checked_argv_def using sample_argv_ok by simp
qed

lemma sample_zeek_returns:
  assumes "read_zeek_json_logs (sample_host od) od = Inr (logs, n)" and "read_extracted_certificates od n = Inr extracted"
  shows "snd (zeek_run (sample_host od) ''/c'' ''/o'') = Inr \<lparr>zr_image_digest = zeek_image_digest,
    zr_analyzer_bundle_digest = sha256_bytes [], zr_logs = logs, zr_extracted = extracted\<rparr>"
proof -
  let ?hs = "sample_host od"
  obtain argv where argv: "zeek_argv ?hs ''/c'' ''/o'' = Inr argv" using sample_zeek_argv by blast
  have lock: "load_bundle_lock ?hs = Inr \<lparr>bl_zeek_image_digest = zeek_image_digest, bl_tshark_image_digest = sha256_bytes [],
      bl_zeek_bundle_sha256 = sha256_bytes []\<rparr>"
    by (simp add: load_bundle_lock_def read_lock_def lock_of_payload_def sample_host_def sample_lock_def)
  have labels: "snd (assert_image_labels ?hs (sha256_bytes [])) = Inr ()"
    using sample_digest
    by (simp add: assert_image_labels_def liftT_def sample_host_def sample_host_labels_def label_of_def row_get_def Let_def
        zeek_image_digest_def py_strip_def is_space_def)
  have "hash_directory_tree (hs_zeek_tree ?hs) = sha256_bytes []"
    by (simp add: hash_directory_tree_def tree_stream_def sample_host_def)
  moreover have "hs_exec ?hs argv = Exited 0 []" "hs_output ?hs argv = od" by (simp_all add: sample_host_def)
  moreover have "digest_lockfile_bytes ?hs = Inr (sha256_bytes [])"
    by (simp add: digest_lockfile_bytes_def read_lock_def sample_host_def)
  ultimately show ?thesis
    unfolding zeek_run_def by (simp add: snd_bindT liftT_def execT_def lock labels argv completed_def assms)
qed

theorem zeek_output_bounded_witness:
  "\<exists>r. snd (zeek_run (sample_host sample_output) ''/c'' ''/o'') = Inr r \<and> zr_image_digest r = zeek_image_digest
    \<and> map xt_payload (zr_extracted r) = [[48]]"
proof -
  have "read_zeek_json_logs (sample_host sample_output) sample_output = Inr ([], 0)"
    "\<exists>extracted. read_extracted_certificates sample_output 0 = Inr extracted"
    by (simp_all add: read_zeek_json_logs_def sample_output_def read_extracted_certificates_def read_certificate_step_def
        max_certificates_per_run_def max_certificate_der_bytes_def max_output_bytes_def)
  then obtain r where r: "snd (zeek_run (sample_host sample_output) ''/c'' ''/o'') = Inr r" using sample_zeek_returns by blast
  from zeek_output_bounded [OF r] show ?thesis using r by (auto simp: sample_host_def sample_output_def)
qed

theorem tree_digest_identifies_witness:
  "hash_directory_tree [(''b'', [121]), (''a'', [120])] = hash_directory_tree [(''a'', [120]), (''b'', [121])]
    \<and> tree_stream [(''a'', [120])] \<noteq> tree_stream [(''a'', [121])]"
proof
  show "hash_directory_tree [(''b'', [121]), (''a'', [120])] = hash_directory_tree [(''a'', [120]), (''b'', [121])]"
    by (rule tree_digest_identifies [THEN conjunct1, rule_format]) simp_all
  have plain: "plain_tree [(''a'', [120])]" "plain_tree [(''a'', [121])]" by (simp_all add: plain_tree_def)
  have "map_of [(''a'', [120 :: int])] ''a'' \<noteq> map_of [(''a'', [121])] ''a''" by simp
  then show "tree_stream [(''a'', [120])] \<noteq> tree_stream [(''a'', [121])]"
    using tree_digest_identifies [THEN conjunct2, THEN conjunct1, rule_format, OF plain] by metis
qed

theorem quoted_frames_round_trip_witness:
  "\<exists>frame. frames_from_fields_csv (concat (map csv_write [[''a'', ''b''], [[CHR 0x22, CHR '','', CHR 0x0A], []]])) = Inr [frame]
    \<and> row_get frame ''a'' = JStr [CHR 0x22, CHR '','', CHR 0x0A] \<and> row_get frame ''b'' = JNull"
proof -
  have "\<exists>frames. frames_from_fields_csv (concat (map csv_write ([''a'', ''b''] # [[[CHR 0x22, CHR '','', CHR 0x0A], []]]))) = Inr frames
    \<and> list_all2 (\<lambda>frame row. \<forall>i < length [''a'', ''b'']. row_get frame ([''a'', ''b''] ! i) = (if row ! i = [] then JNull else JStr (row ! i)))
        frames [[[CHR 0x22, CHR '','', CHR 0x0A], []]]"
    by (rule quoted_frames_round_trip) simp_all
  then show ?thesis by (auto simp: list_all2_Cons2 less_Suc_eq All_less_Suc numeral_2_eq_2)
qed

end
