(* ===== verification/Reference_Data_Correct.thy ===== *)
theory Reference_Data_Correct
  imports Reference_Data Analyzers_Correct Analysis_Correct
begin

text \<open>
  What the reference data promises: the tables of the IANA registry are inverse to each other, and an evidence document
  names, by their digests, the files it was made with, and is made of what checked, sandboxed containers returned.
\<close>

section \<open>The registry\<close>

lemma dict_of_member: "map_of (dict_of key val xs) k = Some v \<Longrightarrow> \<exists>x \<in> set xs. key x = k \<and> val x = v"
  unfolding dict_of_def by (induction xs arbitrary: v rule: rev_induct) (auto simp: update_conv' split: if_splits)

lemma dict_of_lookup: "distinct (map key xs) \<Longrightarrow> x \<in> set xs \<Longrightarrow> map_of (dict_of key val xs) (key x) = Some (val x)"
  unfolding dict_of_def by (induction xs rule: rev_induct) (auto simp: update_conv' intro: rev_image_eqI)

lemma dict_of_distinct: "distinct (map fst (dict_of key val xs))"
  unfolding dict_of_def by (induction xs rule: rev_induct) (simp_all add: distinct_update)

definition cipher_entry :: "string \<times> string \<Rightarrow> bool" where
  "cipher_entry e = (length (fst e) = 6 \<and> py_startswith (fst e) ''0x'' \<and> drop 2 (fst e) \<in> range py_upper
     \<and> 1 \<le> length (snd e) \<and> length (snd e) \<le> 128)"

definition group_entry :: "nat \<times> string \<Rightarrow> bool" where
  "group_entry e = (fst e \<le> 65535 \<and> 1 \<le> length (snd e) \<and> length (snd e) \<le> 128)"

lemma length_upper [simp]: "length (py_upper s) = length s"
  by (simp add: py_upper_def)

lemma parse_cipher_keeps:
  assumes "parse_cipher item out = Inr out'" and "distinct (map fst out)" and "list_all cipher_entry out"
  shows "distinct (map fst out') \<and> list_all cipher_entry out'"
proof -
  have "out' = out \<or> (\<exists>code name. out' = out @ [(''0x'' @ py_upper (drop 2 code), name)] \<and> length code = 6
      \<and> ''0x'' @ py_upper (drop 2 code) \<notin> set (map fst out) \<and> 1 \<le> length name \<and> length name \<le> 128)"
    using assms(1) by (auto simp: parse_cipher_def Let_def max_name_len_def Suc_le_eq split: json.splits if_splits)
  then show ?thesis using assms(2,3)
    by (auto simp: cipher_entry_def py_startswith_def)
qed

lemma parse_group_keeps:
  assumes "parse_group item out = Inr out'" and "distinct (map fst out)" and "list_all group_entry out"
  shows "distinct (map fst out') \<and> list_all group_entry out'"
proof -
  have "out' = out \<or> (\<exists>code name. out' = out @ [(code, name)] \<and> code \<le> 65535
      \<and> code \<notin> set (map fst out) \<and> 1 \<le> length name \<and> length name \<le> 128)"
    using assms(1) by (auto simp: parse_group_def Let_def max_name_len_def Suc_le_eq split: json.splits if_splits)
  then show ?thesis using assms(2,3) by (auto simp: group_entry_def)
qed

lemma parse_ciphers_wf: "parse_ciphers rows = Inr xs \<Longrightarrow> distinct (map fst xs) \<and> list_all cipher_entry xs"
  by (auto simp: parse_ciphers_def split: json.splits if_splits
      dest!: foldE_invariant [where P = "\<lambda>xs. distinct (map fst xs) \<and> list_all cipher_entry xs"] parse_cipher_keeps)

lemma parse_groups_wf: "parse_groups rows = Inr xs \<Longrightarrow> distinct (map fst xs) \<and> list_all group_entry xs"
  by (auto simp: parse_groups_def split: json.splits if_splits
      dest!: foldE_invariant [where P = "\<lambda>xs. distinct (map fst xs) \<and> list_all group_entry xs"] parse_group_keeps)

lemma inverse_tables:
  assumes "distinct (map fst xs)" and "map_of (dict_of snd fst xs) n = Some c"
  shows "map_of (dict_of fst snd xs) c = Some n \<and> (c, n) \<in> set xs"
  using dict_of_member [OF assms(2)] dict_of_lookup [OF assms(1), where val = snd] by fastforce

lemma index_of_payload_Inr:
  "index_of_payload digest payload = Inr ix \<Longrightarrow> \<exists>row ciphers groups.
    parse_ciphers (row_get row ''cipher_suites'') = Inr ciphers \<and> parse_groups (row_get row ''supported_groups'') = Inr groups
    \<and> ix = \<lparr>tp_digest = digest, tp_cipher_name_to_code = dict_of snd fst ciphers, tp_cipher_code_to_name = dict_of fst snd ciphers,
         tp_group_code_to_name = dict_of fst snd groups, tp_group_name_to_code = dict_of snd fst groups\<rparr>"
  by (auto simp: index_of_payload_def py_simps split: json.splits)

lemma load_iana_Inr:
  assumes "load_iana_tls_parameters ins = Inr ix"
  shows "\<exists>raw payload. in_iana ins = Some raw \<and> length raw \<le> 1000000 \<and> index_of_payload (sha256_bytes raw) payload = Inr ix"
  using assms by (auto simp: load_iana_tls_parameters_def read_bounded_def max_iana_bytes_def py_simps split: option.splits if_splits)

text \<open>The tables made of the IANA snapshot fit together. The code found for a cipher suite or a group has that very name in
  the table of codes; every code is within its bounds (six characters for a cipher suite, 65535 for a group); and no two
  entries of the table of codes have the same code.\<close>

theorem iana_tables_inverse:
  assumes "load_iana_tls_parameters ins = Inr ix"
  shows "(\<forall>name code. map_of (tp_cipher_name_to_code ix) name = Some code \<longrightarrow>
        map_of (tp_cipher_code_to_name ix) code = Some name \<and> length code = 6 \<and> py_startswith code ''0x'')
    \<and> (\<forall>name code. map_of (tp_group_name_to_code ix) name = Some code \<longrightarrow>
        map_of (tp_group_code_to_name ix) code = Some name \<and> code \<le> 65535)
    \<and> distinct (map fst (tp_cipher_code_to_name ix)) \<and> distinct (map fst (tp_group_code_to_name ix))
    \<and> (\<exists>raw. in_iana ins = Some raw \<and> length raw \<le> 1000000 \<and> tp_digest ix = sha256_bytes raw)"
proof -
  obtain raw row ciphers groups where raw: "in_iana ins = Some raw" "length raw \<le> 1000000"
    and c: "parse_ciphers (row_get row ''cipher_suites'') = Inr ciphers" and g: "parse_groups (row_get row ''supported_groups'') = Inr groups"
    and ix: "ix = \<lparr>tp_digest = sha256_bytes raw, tp_cipher_name_to_code = dict_of snd fst ciphers,
              tp_cipher_code_to_name = dict_of fst snd ciphers, tp_group_code_to_name = dict_of fst snd groups,
              tp_group_name_to_code = dict_of snd fst groups\<rparr>"
    using load_iana_Inr [OF assms] index_of_payload_Inr by blast
  have "length code = 6 \<and> py_startswith code ''0x''" if "(code, name) \<in> set ciphers" for code name
    using parse_ciphers_wf [OF c] that by (auto simp: cipher_entry_def list_all_iff)
  moreover have "code \<le> 65535" if "(code, name) \<in> set groups" for code name
    using parse_groups_wf [OF g] that by (auto simp: group_entry_def list_all_iff)
  ultimately show ?thesis
    using raw inverse_tables [of ciphers] inverse_tables [of groups] parse_ciphers_wf [OF c] parse_groups_wf [OF g]
    by (fastforce simp: ix dict_of_distinct)
qed

section \<open>Documents name their sources\<close>

lemma iana_digest: "load_iana_tls_parameters ins = Inr ix \<Longrightarrow> \<exists>raw. in_iana ins = Some raw \<and> tp_digest ix = sha256_bytes raw"
  by (auto dest!: load_iana_Inr index_of_payload_Inr)

lemma load_pack_Inr:
  assumes "load_policy_pack ins profile = Inr (pack, digest)"
  shows "\<exists>rules yaml payload. in_rules ins (profile_file profile) = Some rules \<and> length rules \<le> 262144
    \<and> hs_decode (in_codec ins) rules = Inr yaml \<and> in_yaml ins yaml = Inr [payload]
    \<and> in_validate_pack ins payload = Some pack \<and> pp_profile pack = profile \<and> digest = in_pack_digest ins pack"
proof -
  obtain rules yaml documents where "read_bounded PolicyPackError max_pack_bytes (in_rules ins (profile_file profile)) = Inr rules"
    and "hs_decode (in_codec ins) rules = Inr yaml" and "in_yaml ins yaml = Inr documents" and "(case documents of
      [payload] \<Rightarrow> (case in_validate_pack ins payload of
          None \<Rightarrow> Inl PolicyPackError
        | Some pack \<Rightarrow> if pp_profile pack \<noteq> profile then Inl PolicyPackError else Inr (pack, in_pack_digest ins pack))
    | _ \<Rightarrow> Inl PolicyPackError) = Inr (pack, digest)"
    using assms unfolding load_policy_pack_def bindE_eq_Inr by blast
  then show ?thesis
    by (auto simp: read_bounded_def max_pack_bytes_def split: list.splits option.splits if_splits)
qed

lemma load_trust_Inr:
  assumes "load_trust_store_snapshot ins = Inr snapshot"
  shows "\<exists>raw. in_trust ins = Some raw \<and> ts_digest snapshot = sha256_bytes raw"
proof -
  obtain raw where raw: "read_bounded ValueError max_trust_bytes (in_trust ins) = Inr raw" and "(case in_load_pem ins raw of
      None \<Rightarrow> Inl ValueError
    | Some anchors \<Rightarrow>
        if anchors = [] then Inl ValueError
        else if max_anchors < length anchors then Inl ValueError
        else build_trust_snapshot anchors trust_profile_id (sha256_bytes raw)) = Inr snapshot"
    using assms unfolding load_trust_store_snapshot_def bindE_eq_Inr by blast
  then have "ts_digest snapshot = sha256_bytes raw" by (auto simp: build_trust_snapshot_def split: option.splits if_splits)
  then show ?thesis using raw by (auto simp: read_bounded_def split: option.splits if_splits)
qed

text \<open>What a container returned that was run after all checks, in the sandbox.\<close>

definition zeek_container :: "host \<Rightarrow> string \<Rightarrow> string \<Rightarrow> zeek_run_result \<Rightarrow> bool" where
  "zeek_container hs capture output result = (\<exists>argv lock. zeek_run hs capture output = ([zeek_inspect hs, argv], Inr result)
     \<and> zeek_checked hs lock \<and> sandboxed hs zeek_local_image ''zeek'' capture output argv)"

definition tshark_container :: "host \<Rightarrow> string \<Rightarrow> string \<Rightarrow> json_row list \<Rightarrow> bool" where
  "tshark_container hs capture output frames = (\<exists>argv lock digest. tshark_run hs capture output = ([tshark_inspect hs, argv], Inr (digest, frames))
     \<and> tshark_checked hs lock \<and> sandboxed hs tshark_local_image ''tshark'' capture output argv)"

lemma zeek_returns:
  assumes "snd (zeek_run hs capture output) = Inr r"
  shows "zeek_container hs capture output r \<and> (\<exists>lock. hs_lock hs = Some lock \<and> zr_analyzer_bundle_digest r = sha256_bytes lock)"
proof -
  obtain lock argv where a: "zeek_argv hs capture output = Inr argv" "load_bundle_lock hs = Inr lock"
      "hash_directory_tree (hs_zeek_tree hs) = bl_zeek_bundle_sha256 lock" "bl_zeek_image_digest lock = zeek_image_digest"
      "snd (assert_image_labels hs (bl_zeek_bundle_sha256 lock)) = Inr ()" "digest_lockfile_bytes hs = Inr (zr_analyzer_bundle_digest r)"
    using assms unfolding zeek_run_def
    by (auto simp: snd_bindT liftT_def execT_def py_simps split: if_splits sum.splits)
  have calls: "fst (zeek_run hs capture output) = [zeek_inspect hs, argv]"
    unfolding zeek_run_def using a by (simp add: fst_bindT labels_calls)
  have "zeek_run hs capture output = ([zeek_inspect hs, argv], Inr r)" using calls assms by (simp add: prod_eq_iff)
  moreover have "zeek_checked hs lock" using a(2-4) labels_agree [OF a(5)] by (simp add: zeek_checked_def)
  ultimately show ?thesis using zeek_argv_sandboxed [OF a(1)] a(6)
    by (auto simp: zeek_container_def digest_lockfile_bytes_def read_lock_def py_simps split: option.splits)
qed

lemma tshark_returns:
  assumes "snd (tshark_run hs capture output) = Inr (digest, frames)"
  shows "tshark_container hs capture output frames"
proof -
  obtain lock argv where a: "tshark_argv hs capture output = Inr argv" "load_bundle_lock hs = Inr lock"
      "tshark_dockerfile_digest hs = Inr (bl_tshark_image_digest lock)" "snd (assert_image_present hs) = Inr ()"
    using assms unfolding tshark_run_def
    by (auto simp: snd_bindT liftT_def execT_def py_simps split: if_splits sum.splits)
  have calls: "fst (tshark_run hs capture output) = [tshark_inspect hs, argv]"
    unfolding tshark_run_def using a by (simp add: fst_bindT present_calls)
  have "tshark_run hs capture output = ([tshark_inspect hs, argv], Inr (digest, frames))" using calls assms by (simp add: prod_eq_iff)
  moreover have "tshark_checked hs lock"
    using a(2,3) image_present [OF a(4)] by (auto simp: tshark_checked_def tshark_dockerfile_digest_def split: option.splits)
  ultimately show ?thesis using tshark_argv_sandboxed [OF a(1)]
    by (auto simp: tshark_container_def)
qed

lemma sessions_gathered:
  assumes "corroborated_sessions sv content logs flows = Inr (sessions, frames)"
  shows "normalize_sessions logs flows frames = Inr sessions \<and> (frames = JNull
    \<or> (\<exists>run fs. an_tshark sv = Some run \<and> run content = Inr fs \<and> frames = JList (map JObj fs)))"
  using assms by (auto simp: corroborated_sessions_def reraise_def py_simps Let_def split: option.splits if_splits)

text \<open>The evidence of a document is what the normalizers make of the output of checked, sandboxed containers on the capture, of
  the preflight, and of the reference data: flows, sessions, handshakes and certificates.\<close>

definition evidence_gathered :: "installation \<Rightarrow> bytes \<Rightarrow> certificate_store \<Rightarrow> evidence_document \<Rightarrow> certificate_store
    \<Rightarrow> zeek_run_result \<Rightarrow> bool" where
  "evidence_gathered ins content store doc store' zeek =
    (zeek_container (in_host ins content) (in_capture_path ins) (in_output_path ins) zeek
     \<and> in_preflight ins content = Inr (ed_capture_preflight doc)
     \<and> normalize_flows (zr_logs zeek) (ed_capture_preflight doc) = Inr (ed_flows doc)
     \<and> (\<exists>identifiers snapshot run frames.
          load_iana_tls_parameters ins = Inr identifiers \<and> load_trust_store_snapshot ins = Inr snapshot \<and> cn_library run = in_library ins
          \<and> (frames = JNull \<or> (\<exists>fs. frames = JList (map JObj fs)
               \<and> tshark_container (in_host ins content) (in_capture_path ins) (in_output_path ins) fs))
          \<and> normalize_sessions (zr_logs zeek) (ed_flows doc) frames = Inr (ed_sessions doc)
          \<and> normalize_handshakes (zr_logs zeek) (ed_flows doc) identifiers frames = Inr (ed_handshakes doc)
          \<and> normalize_certificates run store_ops (zr_logs zeek) (zr_extracted zeek) (ed_handshakes doc) (Some snapshot) store
              = Inr (ed_certificates doc, store')))"

text \<open>The judgment of a document is what a policy pack says of its evidence.\<close>

definition judged_by :: "policy_pack \<Rightarrow> string \<Rightarrow> bytes \<Rightarrow> evidence_document \<Rightarrow> bool" where
  "judged_by pack digest content doc = (\<exists>instant.
     evaluate_policy_batch pack digest (sha256_bytes content) instant \<lparr>eb_flows = ed_flows doc, eb_sessions = ed_sessions doc,
       eb_handshakes = ed_handshakes doc, eb_certificates = ed_certificates doc\<rparr>
     = Inr \<lparr>pv_findings = ed_findings doc, pv_checks = ed_policy_checks doc\<rparr>)"

lemma document_judged:
  assumes "run_analysis sv ops request st = Inr (doc, st')" and "rq_capture request = Some content"
  shows "judged_by (an_policy_pack sv) (an_policy_pack_digest sv) content doc"
proof -
  obtain instant evaluation posture batch preflight zeek
    where "evaluate_policy_batch (an_policy_pack sv) (an_policy_pack_digest sv) (sha256_bytes content) instant batch = Inr evaluation"
      and doc: "doc = analysis_document sv request content preflight zeek batch evaluation posture"
    using assms(1) by (rule run_analysis_cases) (use assms(2) in auto)
  moreover have "batch = \<lparr>eb_flows = ed_flows doc, eb_sessions = ed_sessions doc, eb_handshakes = ed_handshakes doc,
      eb_certificates = ed_certificates doc\<rparr>" "evaluation = \<lparr>pv_findings = ed_findings doc, pv_checks = ed_policy_checks doc\<rparr>"
    by (simp_all add: doc analysis_document_def)
  ultimately show ?thesis unfolding judged_by_def by metis
qed

text \<open>How \<open>_analyze\<close> composes the installation.\<close>

lemma analyze_capture_installed:
  assumes "analyze_capture (deployment_of ins) raw store = Inr (doc, store')"
  obtains pack identifiers snapshot sv where "load_policy_pack ins (rq_policy_profile raw) = Inr (pack, an_policy_pack_digest sv)"
    and "load_iana_tls_parameters ins = Inr identifiers" and "load_trust_store_snapshot ins = Inr snapshot"
    and "an_policy_pack sv = pack" and "an_tls_parameters sv = Some identifiers" and "an_trust_snapshot sv = Some snapshot"
    and "an_preflight sv = in_preflight ins" and "an_library sv = in_library ins"
    and "an_zeek sv = dp_zeek (deployment_of ins)" and "an_tshark sv = Some (dp_tshark (deployment_of ins))"
    and "run_analysis sv store_ops (raw\<lparr>rq_expected_hostname := normalize_expected_hostname (rq_expected_hostname raw)\<rparr>) store
      = Inr (doc, store')"
proof -
  let ?dp = "deployment_of ins"
  have dp: "dp_policy_pack ?dp = load_policy_pack ins" "dp_tls_parameters ?dp = load_iana_tls_parameters ins"
    "dp_trust_store ?dp = load_trust_store_snapshot ins" "dp_preflight ?dp = in_preflight ins" "dp_library ?dp = in_library ins"
    by (simp_all add: deployment_of_def)
  obtain pack digest identifiers snapshot where parts: "load_policy_pack ins (rq_policy_profile raw) = Inr (pack, digest)"
      "load_iana_tls_parameters ins = Inr identifiers" "load_trust_store_snapshot ins = Inr snapshot"
    and run: "run_analysis \<lparr>an_preflight = in_preflight ins, an_zeek = dp_zeek ?dp, an_tshark = Some (dp_tshark ?dp),
         an_tls_parameters = Some identifiers, an_library = in_library ins, an_trust_snapshot = Some snapshot, an_policy_pack = pack,
         an_policy_pack_digest = digest, an_now = dp_now ?dp\<rparr> store_ops
       (raw\<lparr>rq_expected_hostname := normalize_expected_hostname (rq_expected_hostname raw)\<rparr>) store = Inr (doc, store')"
    using assms unfolding analyze_capture_def dp by (auto simp: reraise_def mk_analyze_request_def py_simps split: if_splits)
  show thesis by (rule that [OF _ parts(2,3) _ _ _ _ _ _ _ run]) (simp_all add: parts(1))
qed

lemma document_gathered:
  assumes "run_analysis sv store_ops request store = Inr (doc, store')" and "rq_capture request = Some content"
    and "an_zeek sv = dp_zeek (deployment_of ins)" and "an_tshark sv = Some (dp_tshark (deployment_of ins))"
    and "an_preflight sv = in_preflight ins" and "an_library sv = in_library ins"
    and "an_tls_parameters sv = Some identifiers" and "load_iana_tls_parameters ins = Inr identifiers"
    and "an_trust_snapshot sv = Some snapshot" and "load_trust_store_snapshot ins = Inr snapshot"
  shows "\<exists>zeek. evidence_gathered ins content store doc store' zeek \<and> ar_analyzer_bundle_digest (ed_run_identity doc) = zr_analyzer_bundle_digest zeek
    \<and> snd (zeek_run (in_host ins content) (in_capture_path ins) (in_output_path ins)) = Inr zeek"
proof -
  obtain window preflight zeek batch evaluation posture run
    where pre: "an_preflight sv content = Inr preflight" and zeek: "an_zeek sv content = Inr zeek"
      and run: "cn_library run = an_library sv"
      and ev: "normalize_evidence sv store_ops identifiers run content preflight zeek store = Inr (batch, store')"
      and doc: "doc = analysis_document sv request content preflight zeek batch evaluation posture"
    using assms(1) by (rule run_analysis_cases) (use assms(2,7) in force)
  obtain frames where n: "normalize_flows (zr_logs zeek) preflight = Inr (eb_flows batch)"
      "corroborated_sessions sv content (zr_logs zeek) (eb_flows batch) = Inr (eb_sessions batch, frames)"
      "normalize_handshakes (zr_logs zeek) (eb_flows batch) identifiers frames = Inr (eb_handshakes batch)"
      "normalize_certificates run store_ops (zr_logs zeek) (zr_extracted zeek) (eb_handshakes batch) (Some snapshot) store
        = Inr (eb_certificates batch, store')"
    using ev assms(9) by (auto simp: normalize_evidence_def Let_def py_simps)
  have z: "snd (zeek_run (in_host ins content) (in_capture_path ins) (in_output_path ins)) = Inr zeek"
    using zeek assms(3) by (simp add: deployment_of_def)
  have t: "\<exists>fs. frames = JList (map JObj fs) \<and> tshark_container (in_host ins content) (in_capture_path ins) (in_output_path ins) fs"
    if "frames \<noteq> JNull"
    using sessions_gathered [OF n(2)] that assms(4) tshark_returns by (auto simp: deployment_of_def py_simps)
  have parts: "ed_capture_preflight doc = preflight" "ed_flows doc = eb_flows batch" "ed_sessions doc = eb_sessions batch"
    "ed_handshakes doc = eb_handshakes batch" "ed_certificates doc = eb_certificates batch"
    by (simp_all add: doc analysis_document_def)
  have "evidence_gathered ins content store doc store' zeek"
    unfolding evidence_gathered_def parts
  proof (intro conjI exI)
    show "cn_library run = in_library ins" "in_preflight ins content = Inr preflight" using run assms(5,6) pre by simp_all
    show "frames = JNull \<or> (\<exists>fs. frames = JList (map JObj fs)
        \<and> tshark_container (in_host ins content) (in_capture_path ins) (in_output_path ins) fs)" using t by blast
  qed (use zeek_returns [OF z] n sessions_gathered [OF n(2)] assms(8,10) in simp_all)
  then show ?thesis using z by (auto simp: doc analysis_document_def run_identity_def)
qed

text \<open>C11: an evidence document names everything it was made with. When an installed SecureMail analyzes a capture, the lock
  file, the IANA snapshot, the trust store and the rule file of the requested profile are there, and that file holds
  one document, which validates as a pack for this profile. The identity of the run has the SHA-256 digests of the
  capture and of each file (that of the IANA snapshot within the digest of the configuration, together with the other
  settings) and the canonical digest of the pack; every finding carries the latter. The evidence is what the normalizers
  make of the output that Zeek, and TShark if it was needed, gave for this capture in containers that ran in the sandbox
  after all checks on lock file, scripts, Dockerfile, images and labels had passed; and findings and checks
  are what this pack says of this evidence.\<close>

theorem document_names_its_sources:
  assumes "analyze_capture (deployment_of ins) raw store = Inr (doc, store')"
  shows "\<exists>content lock iana trust rules yaml payload pack zeek. rq_capture raw = Some content
    \<and> ar_capture_sha256 (ed_run_identity doc) = sha256_bytes content
    \<and> hs_lock (in_host ins content) = Some lock \<and> ar_analyzer_bundle_digest (ed_run_identity doc) = sha256_bytes lock
    \<and> in_iana ins = Some iana \<and> ar_configuration_digest (ed_run_identity doc)
        = configuration_digest (Some (sha256_bytes iana)) (rq_expiry_warning_seconds raw)
            (normalize_expected_hostname (rq_expected_hostname raw))
    \<and> in_trust ins = Some trust \<and> ar_trust_store_digest (ed_run_identity doc) = Some (sha256_bytes trust)
    \<and> in_rules ins (case rq_policy_profile raw of PP_IETF_CURRENT \<Rightarrow> ''ietf_current.yaml'' | PP_NIST_FEDERAL \<Rightarrow> ''nist_federal.yaml''
        | PP_HISTORICAL_AT_CAPTURE \<Rightarrow> ''historical_at_capture.yaml'') = Some rules
    \<and> length rules \<le> 262144 \<and> hs_decode (in_codec ins) rules = Inr yaml \<and> in_yaml ins yaml = Inr [payload]
    \<and> in_validate_pack ins payload = Some pack \<and> pp_profile pack = rq_policy_profile raw
    \<and> ar_policy_pack_version (ed_run_identity doc) = in_pack_digest ins pack
    \<and> (\<forall>f \<in> set (ed_findings doc). fi_policy_pack_version f = in_pack_digest ins pack)
    \<and> evidence_gathered ins content store doc store' zeek
    \<and> judged_by pack (in_pack_digest ins pack) content doc"
proof -
  let ?request = "raw\<lparr>rq_expected_hostname := normalize_expected_hostname (rq_expected_hostname raw)\<rparr>"
  obtain pack ix snapshot sv where pack: "load_policy_pack ins (rq_policy_profile raw) = Inr (pack, an_policy_pack_digest sv)"
    and loads: "load_iana_tls_parameters ins = Inr ix" "load_trust_store_snapshot ins = Inr snapshot"
    and sv: "an_policy_pack sv = pack" "an_tls_parameters sv = Some ix" "an_trust_snapshot sv = Some snapshot"
      "an_preflight sv = in_preflight ins" "an_library sv = in_library ins"
      "an_zeek sv = dp_zeek (deployment_of ins)" "an_tshark sv = Some (dp_tshark (deployment_of ins))"
    and run: "run_analysis sv store_ops ?request store = Inr (doc, store')"
    using assms by (rule analyze_capture_installed)
  have named: "profile_file p = (case p of PP_IETF_CURRENT \<Rightarrow> ''ietf_current.yaml'' | PP_NIST_FEDERAL \<Rightarrow> ''nist_federal.yaml''
        | PP_HISTORICAL_AT_CAPTURE \<Rightarrow> ''historical_at_capture.yaml'')" for p by (cases p) simp_all
  obtain content where c: "rq_capture raw = Some content"
    and doc: "ar_capture_sha256 (ed_run_identity doc) = sha256_bytes content"
      "ar_configuration_digest (ed_run_identity doc) = configuration_digest (Some (tp_digest ix)) (rq_expiry_warning_seconds raw)
            (normalize_expected_hostname (rq_expected_hostname raw))"
      "ar_trust_store_digest (ed_run_identity doc) = Some (ts_digest snapshot)"
      "ar_policy_pack_version (ed_run_identity doc) = an_policy_pack_digest sv"
      "\<forall>f \<in> set (ed_findings doc). fi_policy_pack_version f = an_policy_pack_digest sv"
    using run by (elim run_analysis_cases) (auto simp: sv analysis_document_def run_identity_def dest: batch_wf(3-6))
  have "rq_capture ?request = Some content" using c by simp
  note judged = document_judged [OF run this] and gathered = document_gathered [OF run this sv(6,7,4,5,2) loads(1) sv(3) loads(2)]
  obtain zeek where z: "evidence_gathered ins content store doc store' zeek"
      "ar_analyzer_bundle_digest (ed_run_identity doc) = zr_analyzer_bundle_digest zeek"
      "snd (zeek_run (in_host ins content) (in_capture_path ins) (in_output_path ins)) = Inr zeek" using gathered by blast
  obtain lock where l: "hs_lock (in_host ins content) = Some lock" "zr_analyzer_bundle_digest zeek = sha256_bytes lock"
    using zeek_returns [OF z(3)] by blast
  obtain iana where i: "in_iana ins = Some iana" "tp_digest ix = sha256_bytes iana" using iana_digest [OF loads(1)] by blast
  obtain trusted where t: "in_trust ins = Some trusted" "ts_digest snapshot = sha256_bytes trusted" using load_trust_Inr [OF loads(2)] by blast
  obtain rules yaml payload where "in_rules ins (profile_file (rq_policy_profile raw)) = Some rules" "length rules \<le> 262144"
      "hs_decode (in_codec ins) rules = Inr yaml" "in_yaml ins yaml = Inr [payload]" "in_validate_pack ins payload = Some pack"
      "pp_profile pack = rq_policy_profile raw" "an_policy_pack_digest sv = in_pack_digest ins pack"
    using load_pack_Inr [OF pack] by blast
  then show ?thesis using c doc l z(1,2) i t judged unfolding named sv(1) by auto
qed

section \<open>A sample installation\<close>

definition sample_iana :: json where
  "sample_iana = JObj [(''snapshot'', JObj []), (''cipher_suites'', JList [JObj [(''code'', JStr ''0x13ab''), (''name'', JStr ''N'')],
     JObj [(''code'', JStr ''0x13AB''), (''name'', JStr ''M'')]]), (''supported_groups'', JList [JObj [(''code'', JInt 29), (''name'', JStr ''x25519'')]])]"

definition sample_installation :: installation where
  "sample_installation = \<lparr>in_host = (\<lambda>content. sample_host \<lparr>od_files = [], od_certs = None\<rparr>),
     in_codec = (sample_host sample_output)\<lparr>hs_loads := (\<lambda>s. Inr sample_iana)\<rparr>, in_capture_path = ''/c'', in_output_path = ''/o'', in_iana = Some [],
     in_trust = Some [], in_rules = (\<lambda>f. Some []), in_yaml = (\<lambda>t. Inr [JNull]), in_validate_pack = (\<lambda>v. Some sample_pack),
     in_pack_digest = (\<lambda>p. stub_pack), in_load_pem = (\<lambda>raw. Some [xf_certificate sample_x509]), in_preflight = (\<lambda>c. Inr sample_preflight),
     in_library = sample_library, in_now = sample_instant\<rparr>"

lemma sample_index: "\<exists>ix. load_iana_tls_parameters sample_installation = Inr ix \<and> map_of (tp_cipher_name_to_code ix) ''N'' = Some ''0x13AB''
    \<and> map_of (tp_cipher_name_to_code ix) ''M'' = None"
proof -
  have "parse_ciphers (row_get (case sample_iana of JObj r \<Rightarrow> r) ''cipher_suites'') = Inr [(''0x13AB'', ''N'')]"
    "parse_groups (row_get (case sample_iana of JObj r \<Rightarrow> r) ''supported_groups'') = Inr [(29, ''x25519'')]" by code_simp+
  then show ?thesis
    by (simp add: load_iana_tls_parameters_def read_bounded_def sample_installation_def sample_host_def sample_iana_def
        index_of_payload_def row_get_def dict_of_def)
qed

text \<open>Codes that are not hexadecimal are accepted when \<open>int\<close> accepts them.\<close>

lemma loose_codes: "int16_ok ''+1_2''" "int16_ok ''0x1f''" "int16_ok '' 12 ''" "\<not> int16_ok ''1__2''" "\<not> int16_ok ''12g4''"
  by code_simp+

theorem iana_tables_inverse_witness:
  "\<exists>ix. load_iana_tls_parameters sample_installation = Inr ix \<and> map_of (tp_cipher_code_to_name ix) ''0x13AB'' = Some ''N''"
proof -
  obtain ix where ix: "load_iana_tls_parameters sample_installation = Inr ix" "map_of (tp_cipher_name_to_code ix) ''N'' = Some ''0x13AB''"
    using sample_index by blast
  from iana_tables_inverse [OF ix(1)] show ?thesis using ix by blast
qed

lemma sample_zeek: "snd (zeek_run (in_host sample_installation content) ''/c'' ''/o'') = Inr \<lparr>zr_image_digest = zeek_image_digest,
    zr_analyzer_bundle_digest = sha256_bytes [], zr_logs = [], zr_extracted = []\<rparr>"
proof -
  let ?od = "\<lparr>od_files = [], od_certs = None\<rparr>"
  have "read_zeek_json_logs (sample_host ?od) ?od = Inr ([], 0)" "read_extracted_certificates ?od 0 = Inr []"
    by (simp_all add: read_zeek_json_logs_def read_extracted_certificates_def)
  then show ?thesis using sample_zeek_returns by (simp add: sample_installation_def)
qed

lemma empty_evidence:
  assumes "an_trust_snapshot sv = Some snapshot"
  shows "normalize_evidence sv ops ix run content sample_preflight
     \<lparr>zr_image_digest = d, zr_analyzer_bundle_digest = b, zr_logs = [], zr_extracted = []\<rparr> st
   = Inr (\<lparr>eb_flows = [], eb_sessions = [], eb_handshakes = [], eb_certificates = []\<rparr>, st)"
proof -
  have logs: "bounded_records (logs_get [] k) = []" "bounded_records JNull = []" for k by (simp_all add: logs_get_def)
  have flows: "normalize_flows [] sample_preflight = Inr []"
    by (simp add: normalize_flows_def logs sum_capture_loss_def Let_def List.map_filter_def)
  have sessions: "normalize_sessions [] [] JNull = Inr []"
    by (simp add: normalize_sessions_def logs ssl_facts_of_def Let_def zeek_init_def tshark_init_def py_unique_def List.map_filter_def)
  have "needs_tshark_corroboration [] [] (Some []) = False"
    by (simp add: needs_tshark_corroboration_def logs)
  then have "corroborated_sessions sv content [] [] = Inr ([], JNull)"
    by (simp add: corroborated_sessions_def sessions split: option.split)
  then show ?thesis using assms
    by (simp add: normalize_evidence_def flows normalize_handshakes_def logs normalize_certificates_def attach_validations_def
        ssl_identity_by_uid_def Let_def)
qed

lemma sample_document:
  "\<exists>doc. analyze_capture (deployment_of sample_installation) sample_analyze_request \<lparr>cst_memory = [], cst_disk = None\<rparr>
    = Inr (doc, \<lparr>cst_memory = [], cst_disk = None\<rparr>)"
proof -
  let ?st = "\<lparr>cst_memory = [], cst_disk = None\<rparr>"
  obtain ix where ix: "load_iana_tls_parameters sample_installation = Inr ix" using sample_index by blast
  have pack: "load_policy_pack sample_installation PP_IETF_CURRENT = Inr (sample_pack, stub_pack)"
    by (simp add: load_policy_pack_def read_bounded_def sample_installation_def sample_host_def sample_pack_def)
  obtain snapshot where trust: "load_trust_store_snapshot sample_installation = Inr snapshot" "ts_digest snapshot = sha256_bytes []"
    by (simp add: load_trust_store_snapshot_def read_bounded_def sample_installation_def max_anchors_def build_trust_snapshot_def)
  define sv where "sv = \<lparr>an_preflight = dp_preflight (deployment_of sample_installation), an_zeek = dp_zeek (deployment_of sample_installation),
       an_tshark = Some (dp_tshark (deployment_of sample_installation)), an_tls_parameters = Some ix,
       an_library = dp_library (deployment_of sample_installation), an_trust_snapshot = Some snapshot, an_policy_pack = sample_pack,
       an_policy_pack_digest = stub_pack, an_now = dp_now (deployment_of sample_installation)\<rparr>"
  have services: "an_preflight sv c = Inr sample_preflight" "an_zeek sv c = Inr \<lparr>zr_image_digest = zeek_image_digest,
      zr_analyzer_bundle_digest = sha256_bytes [], zr_logs = [], zr_extracted = []\<rparr>" "an_policy_pack_digest sv = stub_pack" "an_trust_snapshot sv = Some snapshot" for c
    using sample_zeek by (simp_all add: sv_def deployment_of_def sample_installation_def)
  have request: "mk_analyze_request sample_analyze_request = Inr sample_analyze_request"
    by (simp add: mk_analyze_request_def sample_analyze_request_def default_expiry_warning_seconds_def opt_ok_def normalize_expected_hostname_def)
  have opened: "open_capture (Some sample_capture) = Inr sample_capture"
    by (simp add: open_capture_Inr capture_content_def sample_capture_def pcap_magics_def)
  have window: "timedelta_seconds default_expiry_warning_seconds = Inr 2592000000000" by code_simp
  have start: "cp_capture_start_time sample_preflight = None" by (simp add: sample_preflight_def)
  have batch: "evaluate_policy_batch sample_pack stub_pack digest t \<lparr>eb_flows = [], eb_sessions = [], eb_handshakes = [], eb_certificates = []\<rparr>
      = Inr \<lparr>pv_findings = [], pv_checks = []\<rparr>" for digest t
    by (simp add: evaluate_policy_batch_def sample_pack_def evaluate_rule_def records_for_target_def sample_rule_def)
  obtain p where p: "build_posture [] [] = Inr p" "posture_ok p"
    using build_posture_total [of "[]" "[]"] by (auto simp: build_posture_def Let_def py_simps)
  have judged: "judge_evidence sv digest t None \<lparr>eb_flows = [], eb_sessions = [], eb_handshakes = [], eb_certificates = []\<rparr>
      = Inr (\<lparr>pv_findings = [], pv_checks = []\<rparr>, p)" for digest t
    by (simp add: sv_def judge_evidence_def resolve_evaluation_clock_def sample_pack_def [symmetric] reraise_def mk_score_request_def batch p(1)
        score_request_ok_def check_model_def score_findings_def dedup_findings_def group_by_def) (simp add: sample_pack_def)
  have "\<exists>doc. run_analysis sv store_ops sample_analyze_request ?st = Inr (doc, ?st)"
    using p(2) trust(2)
    by (simp add: run_analysis_def sample_analyze_request_def opened window services reraise_def empty_evidence start judged
        mk_evidence_document_def evidence_document_ok_def analysis_run_ok_def run_identity_def stub_digests check_model_def
        configuration_digest_def)
  then show ?thesis
    using ix pack trust(1) request
    by (simp add: analyze_capture_def reraise_def sample_analyze_request_def sv_def) (simp add: deployment_of_def)
qed

theorem document_names_its_sources_witness:
  "\<exists>doc store. analyze_capture (deployment_of sample_installation) sample_analyze_request \<lparr>cst_memory = [], cst_disk = None\<rparr> = Inr (doc, store)
    \<and> ar_analyzer_bundle_digest (ed_run_identity doc) = sha256_bytes []
    \<and> ar_trust_store_digest (ed_run_identity doc) = Some (sha256_bytes [])"
proof -
  obtain doc store where d: "analyze_capture (deployment_of sample_installation) sample_analyze_request \<lparr>cst_memory = [], cst_disk = None\<rparr>
      = Inr (doc, store)" using sample_document by blast
  from document_names_its_sources [OF d] show ?thesis using d by (auto simp: sample_installation_def sample_host_def)
qed

end
