(* ===== verification/Spec2Isabelle.thy ===== *)
theory Spec2Isabelle
  imports Hashing Flows Starttls Tls Pki Findings Scoring Rules Rules_Correct Delivery Interference Sessions_Correct Handshakes_Correct Certificates_Correct End_To_End Api_Correct Evaluation_Correct Reference_Data_Correct
begin

text \<open>
  SecureMail: a verification library for the Python package \<open>src/src/securemail\<close>.

  SecureMail takes packet captures of mail traffic in, runs Zeek, TShark and capinfos on them, turns their logs into
  evidence records (flows, mail sessions, TLS handshakes, certificates), evaluates policy packs on the evidence,
  deduplicates and scores the findings, and publishes a report per case. A web API enqueues captures as jobs; a
  worker claims them one at a time and runs the pipeline.

  \<^bold>\<open>Parts and theories\<close>, in the order of the data flow. Paths are below \<open>src/src/securemail\<close>.

  \<^item> \<open>Prelude\<close>: exceptions as values (\<open>py_exn\<close>, \<open>result\<close>, \<open>bindE\<close>, \<open>mapE\<close>, \<open>foldE\<close>), strings, dictionaries in
    insertion order, \<open>min\<close>/\<open>max\<close> with a key, and the locale \<open>ranked\<close> for the weakest and strongest of ranked values.
    \<open>Json\<close>: untyped values and their readers. \<open>Hashing\<close>: SHA-256 on 32-bit words. \<open>Effects\<close>: stateful operations
    that may raise, invariants (\<open>keeps\<close>) and pre- and postconditions (\<open>triple\<close>).
  \<^item> \<open>Evidence\<close>: the records and enumerations of \<open>domain/evidence/*.py\<close>. \<open>Flows\<close>: \<open>domain/evidence/flow.py\<close>
    (\<open>classify_reconstruction\<close>) and \<open>application/normalize_flows.py\<close>.
  \<^item> \<open>Starttls\<close>: \<open>domain/policies/starttls/*.py\<close>, the three upgrade machines as step functions on the loop variables;
    the locale \<open>upgrade_machine\<close> states what the three share and is interpreted on each.
    \<open>Sessions\<close>, \<open>Sessions_Correct\<close>: \<open>application/normalize_sessions.py\<close>, from log rows to assessed sessions.
  \<^item> \<open>Tls\<close>: \<open>domain/policies/tls/*.py\<close>, key exchange and forward secrecy. \<open>Pki\<close>: \<open>domain/policies/pki/*.py\<close>, key
    strength, service identity and path validation. \<open>Handshakes\<close>, \<open>Handshakes_Correct\<close>:
    \<open>application/normalize_handshakes.py\<close>, from the two analyzers' rows to handshakes. \<open>Der\<close>: the bounded walk over
    DER and the decoding limits; \<open>Certificates\<close>, \<open>Certificates_Correct\<close>: \<open>application/normalize_certificates.py\<close>, the
    artifact stores in memory and on disk, decoding, chains and validation. The locale \<open>artifact_store\<close> states what a
    store promises and is interpreted on both.
  \<^item> \<open>Analyzers\<close>, \<open>Analyzers_Correct\<close>: \<open>adapters/analyzers/*.py\<close>, the lock file, the sandboxed command lines, the
    runners of Zeek and TShark and the readers of their output, on the record \<open>host\<close>. \<open>Reference_Data\<close>,
    \<open>Reference_Data_Correct\<close>: \<open>adapters/reference_data/*.py\<close>, \<open>adapters/pki/trust_store.py\<close> and the \<open>installation\<close> that
    \<open>_analyze\<close> of \<open>bootstrap.py\<close> wires together.
  \<^item> \<open>Rules\<close>, \<open>Rules_Correct\<close>: \<open>domain/policies/rule_engine.py\<close>, packs, predicates, contexts, findings and checks.
    \<open>Findings\<close>: \<open>domain/findings/finding.py\<close>, \<open>dedup.py\<close>. \<open>Scoring\<close>: \<open>domain/findings/posture.py\<close>, \<open>scoring.py\<close> and
    \<open>score_findings\<close> of \<open>application/run_analysis.py\<close>. \<open>Analysis\<close>, \<open>Analysis_Correct\<close>: the rest of
    \<open>run_analysis.py\<close>, which composes normalizers, engine and scores, \<open>stub_analyze.py\<close> and the wiring in \<open>bootstrap.py\<close>.
  \<^item> \<open>Reports\<close>: \<open>domain/reports/schema.py\<close>, \<open>application/assemble_report.py\<close>, \<open>render_report.py\<close>.
    \<open>Advisory\<close>: \<open>domain/ml/models.py\<close>, \<open>application/advisory_pipeline.py\<close>, \<open>adapters/persistence/ml_history_store.py\<close>.
    \<open>Catalog\<close>: \<open>adapters/persistence/report_repository.py\<close>, \<open>writable_catalog.py\<close>.
  \<^item> \<open>Floats\<close>: binary64 rounding on rationals; the locale \<open>rounding\<close> states its laws and is interpreted on \<open>fl\<close>.
    \<open>Detectors\<close>, \<open>Detectors_Correct\<close>: \<open>adapters/ml/baselines.py\<close>, \<open>isolation_forest.py\<close>; the locale
    \<open>causal_scorer\<close>, scores without look-ahead, is interpreted on both and on the worker's pipeline of both.
    \<open>Evaluation\<close>, \<open>Evaluation_Correct\<close>: \<open>domain/ml/evaluation.py\<close>, the release gates.
  \<^item> \<open>Jobs\<close>: \<open>domain/jobs/models.py\<close>, \<open>adapters/persistence/job_store.py\<close>; the store is a map from run identifiers to
    directories, a quarantine and a clock. \<open>Intake\<close>: \<open>application/capture_intake.py\<close>. \<open>Job_System\<close>: API and worker as
    two processes on the store; the locale \<open>forward_system\<close> is interpreted on whole operations and on API steps.
  \<^item> \<open>Workflow\<close>: \<open>application/analysis_workflow.py\<close> and the worker loop of \<open>bootstrap.py\<close> on the world of store, history
    and report root. \<open>Delivery\<close>: \<open>application/analysis_queries.py\<close>, \<open>report_queries.py\<close>, and the run that succeeds.
    \<open>Interference\<close>: one execution among other processes that update the same job store, further workers included.
    \<open>Api\<close>, \<open>Api_Correct\<close>: \<open>api/main.py\<close>, \<open>dependencies.py\<close>, \<open>routers/*.py\<close>, every route as an operation on the world.
    \<open>End_To_End\<close>: from the upload through the modelled analysis to the published report.

  \<^bold>\<open>What the lemmas show.\<close> Analyzers: no container runs unless the digests and the labels of the image match, and none outside
  the sandbox; what a run returns is bounded; a document's evidence is the output of such runs. Evidence: TLS is never invented and plaintext credentials are never overlooked, from the
  machines up to the logs; no secret reaches a session; merging two analyzers conserves events; flows are well formed
  and every verdict has its facts; a handshake's version is the negotiated one; certificates are stored as extracted, and
  no validation verdict outruns its inputs. Policy: the engine implements three-valued logic, a negative verdict rests on
  usable evidence that was compared, findings and checks agree, evaluation is total on safe packs and bounded
  evidence. Findings: clusters partition the findings and summarize them, whatever their order; scores and
  coverage are exact. Analysis: the document is sound and no clean bill of health is unearned. Reports: assembly yields
  valid reports; advisories change nothing but the advisory section; what is published is served. Detectors: no
  look-ahead, one valid score per window, when they alert, and what the evaluation's gates mean. Jobs: store invariant
  and forward-only jobs over all interleavings of operations; every claimed job ends, whoever else updates the store;
  the queue drains; a healthy run completes, and its artifacts and its published report are those of one report; every request gets an answer with the status its error calls for. Where the code does less
  than it means to, the theorem shows the run: three races of the unlocked store, the quota that counts an upload twice,
  the predicate that makes the engine raise, the rule with too many references, the gates that decide nothing.

  \<^bold>\<open>Conventions.\<close> An exception is a value of \<open>py_exn\<close> without its message; a pydantic model is a record with a
  predicate \<open>..._ok\<close> for its constraints, and constructing one is \<open>check_model\<close>. Strings are lists of code points below
  256. Rates are exact rationals; the arithmetic of the detectors is rounded to doubles by \<open>fl\<close>; timestamps are
  microseconds. Every loop is structural recursion, a fold or a map, so no fuel is used; the worker's endless loop is
  \<open>worker_loop sv n\<close>, \<open>n\<close> rounds of it, and \<open>queue_drains\<close> shows how many rounds are enough.

  \<^bold>\<open>Parameters\<close> stand for code outside the package: the \<open>cryptography\<close> package (\<open>pki_library\<close>: certificate parsing, path
  verification, and the IDNA codec), the digest of a policy pack (\<open>Rules\<close>), the analyzers, the clock and the loaders of
  reference data (\<open>analysis_services\<close>), docker and the codecs of the standard library (\<open>host\<close>), PyYAML, pydantic's reading of a pack
  and the PEM reader (\<open>installation\<close>), canonical JSON and the renderers (\<open>services\<close> of \<open>Workflow\<close>, \<open>deployment\<close> and
  \<open>api_dependencies\<close> of the outer layers), the decoding of a report, \<open>math.log\<close> and \<open>str\<close> of a float (\<open>py_math\<close>),
  scikit-learn and numpy, and the pseudo-random generator (\<open>random_source\<close>). Hypotheses about them are named predicates
  (\<open>api_ok\<close>, \<open>others_ok\<close>, \<open>quiet\<close>, \<open>scorers_ok\<close>, \<open>renders_ok\<close>, \<open>codec\<close>), and witnesses give an instance of each.

  \<^bold>\<open>Not modelled:\<close> the capinfos runner (its output is free text), temporary directories, the renderers (Jinja2
  templates and WeasyPrint), the search for the repository root, the OpenSSL cross-check of the tests, the command line and the
  process start, reading a cohort directory, developer tools; file-system faults and symbolic links.
\<close>

end
